(* ===== verification/Recomp_Prelude.thy ===== *)
theory Recomp_Prelude
  imports Main "HOL-Library.Word"
begin

text \<open>
  What every component of the recompiler's model shares: the machine types of the C++ source,
  the byte-order conversions it performs, the number formats it prints with, and the generic
  lemmas on lists, words and maps the component proofs use.

  \<^item> \<open>uint8_t\<close>, \<open>uint16_t\<close>, \<open>uint32_t\<close>, \<open>uint64_t\<close> are words of their width, with the
    wrap-around of C; \<open>size_t\<close> values that only count things in memory are \<open>nat\<close>.
  \<^item> The formats are those of C++20 \<open>std::format\<close>, which the \<open>fmt\<close> calls of the source use:
    \<open>{}\<close> on integers (\<open>fmt_nat\<close>, \<open>fmt_int\<close>), \<open>{:08X}\<close> (\<open>fmt_08X\<close>), \<open>{:#X}\<close>
    (\<open>fmt_hash_X\<close>, \<open>fmt_hash_X_signed\<close>), \<open>{:04X}\<close> and \<open>{:8X}\<close>.
\<close>

unbundle bit_operations_syntax

type_synonym u8 = "8 word"
type_synonym u16 = "16 word"
type_synonym u32 = "32 word"
type_synonym u64 = "64 word"
type_synonym bytes = "8 word list"

named_theorems codec_simps \<open>layout of the structs of the symbol file\<close>
named_theorems guest_simps \<open>definitions of the guest memory and arithmetic helpers\<close>

section \<open>Lists\<close>

definition slice :: "'a list \<Rightarrow> nat \<Rightarrow> nat \<Rightarrow> 'a list" where
  "slice xs off n = take n (drop off xs)"

lemma length_slice [simp]: "length (slice xs off n) = min n (length xs - off)"
  by (simp add: slice_def)

lemma slice_append_mid: "length pre = off \<Longrightarrow> length mid = n \<Longrightarrow> slice (pre @ mid @ post) off n = mid"
  by (simp add: slice_def)

lemma slice_zero [simp]: "slice xs off 0 = []"
  by (simp add: slice_def)

lemma slice_append_left: "off + n \<le> length xs \<Longrightarrow> slice (xs @ ys) off n = slice xs off n"
  by (simp add: slice_def)

lemma slice_append_right: "slice (xs @ ys) (length xs + off) n = slice ys off n"
  by (simp add: slice_def)

text \<open>A list resized the way \<open>std::vector::resize\<close> does it: cut, or filled up with a default.\<close>

definition resize_list :: "'a list \<Rightarrow> nat \<Rightarrow> 'a \<Rightarrow> 'a list" where
  "resize_list xs n d = take n xs @ replicate (n - length xs) d"

lemma length_resize_list [simp]: "length (resize_list xs n d) = n"
  by (simp add: resize_list_def)

lemma nth_resize_list:
  "i < n \<Longrightarrow> resize_list xs n d ! i = (if i < length xs then xs ! i else d)"
  by (simp add: resize_list_def nth_append)

lemma resize_list_grow: "length xs \<le> n \<Longrightarrow> resize_list xs n d = xs @ replicate (n - length xs) d"
  by (simp add: resize_list_def)

section \<open>Byte order\<close>

definition be_u32 :: "u8 \<Rightarrow> u8 \<Rightarrow> u8 \<Rightarrow> u8 \<Rightarrow> u32" where
  "be_u32 p0 p1 p2 p3 =
     push_bit 24 (ucast p0) OR push_bit 16 (ucast p1) OR push_bit 8 (ucast p2) OR ucast p3"

definition le_u32 :: "u8 \<Rightarrow> u8 \<Rightarrow> u8 \<Rightarrow> u8 \<Rightarrow> u32" where
  "le_u32 p0 p1 p2 p3 = be_u32 p3 p2 p1 p0"

definition byte_of :: "nat \<Rightarrow> 'a::len word \<Rightarrow> u8" where
  "byte_of i w = ucast (drop_bit (8 * i) w)"

text \<open>The bytes of a 32-bit value as a little-endian host stores it.\<close>

definition le_bytes :: "u32 \<Rightarrow> bytes" where
  "le_bytes w = [byte_of 0 w, byte_of 1 w, byte_of 2 w, byte_of 3 w]"

lemma length_le_bytes [simp]: "length (le_bytes w) = 4"
  by (simp add: le_bytes_def)

lemma bit_byte_of:
  fixes w :: "'a::len word"
  shows "bit (byte_of i w) n \<longleftrightarrow> n < 8 \<and> bit w (8 * i + n)"
  by (auto simp add: byte_of_def bit_simps dest: bit_imp_le_length)

lemma bit_be_u32:
  "bit (be_u32 p0 p1 p2 p3) n \<longleftrightarrow>
     (if n < 8 then bit p3 n else if n < 16 then bit p2 (n - 8)
      else if n < 24 then bit p1 (n - 16) else if n < 32 then bit p0 (n - 24) else False)"
  by (auto simp add: be_u32_def bit_simps dest: bit_imp_le_length)

lemma be_u32_byte_of: "be_u32 (byte_of 3 w) (byte_of 2 w) (byte_of 1 w) (byte_of 0 w) = w"
  by (rule bit_eqI) (auto simp add: bit_be_u32 bit_byte_of)

lemmas be_u32_byte_of' [simp] = be_u32_byte_of [unfolded One_nat_def]

lemma le_u32_byte_of [simp]: "le_u32 (byte_of 0 w) (byte_of 1 w) (byte_of 2 w) (byte_of 3 w) = w"
  by (simp add: le_u32_def)

lemma byte_of_be_u32 [simp]:
  "byte_of 0 (be_u32 p0 p1 p2 p3) = p3" "byte_of 1 (be_u32 p0 p1 p2 p3) = p2"
  "byte_of (Suc 0) (be_u32 p0 p1 p2 p3) = p2"
  "byte_of 2 (be_u32 p0 p1 p2 p3) = p1" "byte_of 3 (be_u32 p0 p1 p2 p3) = p0"
  by (rule bit_eqI; auto simp add: bit_be_u32 bit_byte_of)+

lemma byte_of_le_u32 [simp]:
  "byte_of 0 (le_u32 p0 p1 p2 p3) = p0" "byte_of 1 (le_u32 p0 p1 p2 p3) = p1"
  "byte_of (Suc 0) (le_u32 p0 p1 p2 p3) = p1"
  "byte_of 2 (le_u32 p0 p1 p2 p3) = p2" "byte_of 3 (le_u32 p0 p1 p2 p3) = p3"
  by (simp_all add: le_u32_def)

text \<open>\<open>byteswap\<close> of \<open>context.h\<close>: \<open>__builtin_bswap32\<close>, the four bytes in reverse order.\<close>

definition byteswap :: "u32 \<Rightarrow> u32" where
  "byteswap val = be_u32 (byte_of 0 val) (byte_of 1 val) (byte_of 2 val) (byte_of 3 val)"

lemma byteswap_involutive [simp]: "byteswap (byteswap w) = w"
  by (simp add: byteswap_def)

lemma byteswap_le_u32 [simp]: "byteswap (le_u32 a b c d) = be_u32 a b c d"
  by (simp add: byteswap_def)

text \<open>Bytes copied into an array of \<open>uint32_t\<close> on a little-endian host; what is left over is dropped.\<close>

fun le_words :: "bytes \<Rightarrow> u32 list" where
  "le_words (a # b # c # d # rest) = le_u32 a b c d # le_words rest"
| "le_words _ = []"

section \<open>Number formats\<close>

definition hex_digit :: "nat \<Rightarrow> char" where
  "hex_digit n = ''0123456789ABCDEF'' ! n"

fun hex_nat :: "nat \<Rightarrow> string" where
  "hex_nat n = (if n < 16 then [hex_digit n] else hex_nat (n div 16) @ [hex_digit (n mod 16)])"

fun fmt_nat :: "nat \<Rightarrow> string" where
  "fmt_nat n = (if n < 10 then [hex_digit n] else fmt_nat (n div 10) @ [hex_digit (n mod 10)])"

declare hex_nat.simps [simp del] fmt_nat.simps [simp del]

definition fmt_int :: "int \<Rightarrow> string" where
  "fmt_int i = (if i < 0 then ''-'' @ fmt_nat (nat (- i)) else fmt_nat (nat i))"

definition fmt_08X :: "u32 \<Rightarrow> string" where
  "fmt_08X w = map (\<lambda>i. hex_digit (unat (drop_bit (4 * i) w) mod 16)) [7, 6, 5, 4, 3, 2, 1, 0]"

definition fmt_hash_X :: "nat \<Rightarrow> string" where
  "fmt_hash_X n = ''0X'' @ hex_nat n"

definition fmt_hash_X_signed :: "int \<Rightarrow> string" where
  "fmt_hash_X_signed i =
     (if i < 0 then ''-0X'' @ hex_nat (nat (- i)) else ''0X'' @ hex_nat (nat i))"

lemma hex_digit_inj: "a < 16 \<Longrightarrow> b < 16 \<Longrightarrow> hex_digit a = hex_digit b \<longleftrightarrow> a = b"
  unfolding hex_digit_def by (subst nth_eq_iff_index_eq) simp_all

lemma length_fmt_08X [simp]: "length (fmt_08X w) = 8"
  by (simp add: fmt_08X_def)

lemma nibble_bit:
  fixes w :: u32
  assumes "k < 4"
  shows "bit w (4 * i + k) \<longleftrightarrow> bit (unat (drop_bit (4 * i) w) mod 16) k"
proof -
  have "unat (drop_bit (4 * i) w) mod 16 = take_bit 4 (unat (drop_bit (4 * i) w))"
    by (simp add: take_bit_eq_mod)
  then show ?thesis using assms by (simp add: bit_simps)
qed

lemma fmt_08X_inj [simp]: "fmt_08X v = fmt_08X w \<longleftrightarrow> v = w"
proof
  assume eq: "fmt_08X v = fmt_08X w"
  have nib: "unat (drop_bit (4 * i) v) mod 16 = unat (drop_bit (4 * i) w) mod 16" if "i < 8" for i
  proof -
    have "i \<in> set [7, 6, 5, 4, 3, 2, 1, 0::nat]" using that by auto
    with eq have "hex_digit (unat (drop_bit (4 * i) v) mod 16) = hex_digit (unat (drop_bit (4 * i) w) mod 16)"
      unfolding fmt_08X_def map_eq_conv by blast
    then show ?thesis by (subst (asm) hex_digit_inj) simp_all
  qed
  show "v = w"
  proof (rule bit_eqI)
    fix n assume "possible_bit TYPE(u32) n"
    then have i: "n div 4 < 8" by simp
    have k: "n mod 4 < 4" by simp
    have "bit v (4 * (n div 4) + n mod 4) \<longleftrightarrow> bit w (4 * (n div 4) + n mod 4)"
      by (simp only: nibble_bit [OF k] nib [OF i])
    then show "bit v n = bit w n" by simp
  qed
qed simp

text \<open>Hexadecimal numbers padded to a width: \<open>{:04X}\<close> with zeros, \<open>{:8X}\<close> with spaces.\<close>

definition pad_left :: "nat \<Rightarrow> char \<Rightarrow> string \<Rightarrow> string" where
  "pad_left n c s = replicate (n - length s) c @ s"

definition fmt_04X :: "nat \<Rightarrow> string" where
  "fmt_04X n = pad_left 4 (CHR ''0'') (hex_nat n)"

definition fmt_8X :: "nat \<Rightarrow> string" where
  "fmt_8X n = pad_left 8 (CHR '' '') (hex_nat n)"

text \<open>The digits read back.\<close>

fun digit_value :: "char \<Rightarrow> nat" where
  "digit_value c = (let n = of_char c in if n < 58 then n - 48 else n - 55)"

fun hex_value :: "nat \<Rightarrow> string \<Rightarrow> nat" where
  "hex_value v [] = v"
| "hex_value v (c # cs) = hex_value (16 * v + digit_value c) cs"

lemma digit_value_hex: "n < 16 \<Longrightarrow> digit_value (hex_digit n) = n"
proof -
  have "\<forall>n < 16. digit_value (hex_digit n) = n" unfolding hex_digit_def by code_simp
  then show "n < 16 \<Longrightarrow> digit_value (hex_digit n) = n" by blast
qed

lemma hex_value_append: "hex_value v (xs @ ys) = hex_value (hex_value v xs) ys"
  by (induction xs arbitrary: v) simp_all

lemma hex_value_nat: "hex_value 0 (hex_nat n) = n"
proof (induction n rule: hex_nat.induct)
  case (1 n)
  show ?case
  proof (cases "n < 16")
    case True
    then show ?thesis by (simp add: hex_nat.simps [of n] digit_value_hex del: digit_value.simps)
  next
    case False
    with 1 show ?thesis
      by (simp add: hex_nat.simps [of n] hex_value_append digit_value_hex del: digit_value.simps)
  qed
qed

lemma hex_value_zeros: "hex_value 0 (replicate k (CHR ''0'') @ s) = hex_value 0 s"
  by (induction k) (simp_all add: digit_value.simps)

lemma fmt_04X_inj [simp]: "fmt_04X m = fmt_04X n \<longleftrightarrow> m = n"
  by (metis fmt_04X_def pad_left_def hex_value_zeros hex_value_nat)

lemma hex_nat_digits: "c \<in> set (hex_nat n) \<Longrightarrow> c \<in> hex_digit ` {..<16}"
proof (induction n rule: hex_nat.induct)
  case (1 n)
  then show ?case by (cases "n < 16") (auto simp: hex_nat.simps [of n])
qed

lemma fmt_04X_digits: "c \<in> set (fmt_04X n) \<Longrightarrow> c \<in> hex_digit ` {..<16}"
proof -
  have "CHR ''0'' = hex_digit 0" by (simp add: hex_digit_def)
  then have "CHR ''0'' \<in> hex_digit ` {..<16}" by (rule image_eqI) simp
  moreover assume "c \<in> set (fmt_04X n)"
  then have "c = CHR ''0'' \<or> c \<in> set (hex_nat n)"
    unfolding fmt_04X_def pad_left_def set_append by (metis Un_iff in_set_replicate)
  ultimately show "c \<in> hex_digit ` {..<16}" using hex_nat_digits by blast
qed

lemma underscore_no_digit: "CHR ''_'' \<notin> hex_digit ` {..<16}"
proof -
  have "\<forall>n < 16. hex_digit n \<noteq> CHR ''_''" unfolding hex_digit_def by code_simp
  then show ?thesis by auto
qed

section \<open>Outcomes\<close>

text \<open>What a fallible C++ function does: give a value, report failure (\<open>return false\<close>), or leave the
  defined behaviour of the language, by an access outside a container.\<close>

datatype 'a outcome = Done 'a | Fail | Undef

fun is_undef :: "'a outcome \<Rightarrow> bool" where
  "is_undef (Done x) = False"
| "is_undef Fail = False"
| "is_undef Undef = True"

lemma is_undef_iff: "is_undef r \<longleftrightarrow> r = Undef"
  by (cases r) simp_all

fun and_then :: "'a outcome \<Rightarrow> ('a \<Rightarrow> 'b outcome) \<Rightarrow> 'b outcome" where
  "and_then (Done x) f = f x"
| "and_then Fail f = Fail"
| "and_then Undef f = Undef"

definition or_fail :: "'a option \<Rightarrow> 'a outcome" where
  "or_fail r = (case r of None \<Rightarrow> Fail | Some x \<Rightarrow> Done x)"

definition or_undef :: "'a option \<Rightarrow> 'a outcome" where
  "or_undef r = (case r of None \<Rightarrow> Undef | Some x \<Rightarrow> Done x)"

text \<open>A \<open>for\<close> loop over an array with its index.\<close>

fun for_each :: "nat \<Rightarrow> 'a list \<Rightarrow> (nat \<Rightarrow> 'a \<Rightarrow> 's \<Rightarrow> 's outcome) \<Rightarrow> 's \<Rightarrow> 's outcome" where
  "for_each i [] body s = Done s"
| "for_each i (x # xs) body s = and_then (body i x s) (for_each (i + 1) xs body)"

lemma and_then_Done: "and_then r f = Done y \<longleftrightarrow> (\<exists>x. r = Done x \<and> f x = Done y)"
  by (cases r) simp_all

lemma and_thenE: "and_then r f = Done y \<Longrightarrow> (\<And>x. r = Done x \<Longrightarrow> f x = Done y \<Longrightarrow> P) \<Longrightarrow> P"
  by (cases r) simp_all

end
