(* ===== verification/Operations.thy ===== *)
theory Operations
  imports Recomp_Prelude
begin

text \<open>
  The intermediate representation of the recompiler (\<open>include/recompiler/operations.h\<close>) and
  the four decode tables that classify an instruction into it (\<open>src/operations.cpp\<close>).

  The enumerators of \<open>rabbitizer::InstrId\<close>, which the decoder library defines, keep their names;
  they are grouped into families, so that \<open>Alu cpu_lui\<close> is \<open>InstrId::cpu_lui\<close>, and \<open>OtherId\<close>
  stands for every enumerator the recompiler does not name. A table is the
  association list of its initializer, and looking an id up is \<open>find\<close> on the unordered map:
  of two entries with the same key the first one would count.
\<close>

datatype (plugins only: code) alu_id =
    cpu_lui | cpu_mthi | cpu_mtlo | cpu_mfhi | cpu_mflo | cpu_addu
  | cpu_add | cpu_negu | cpu_subu | cpu_sub | cpu_daddu | cpu_dadd
  | cpu_dsubu | cpu_dsub | cpu_addi | cpu_addiu | cpu_daddi | cpu_daddiu
  | cpu_and | cpu_or | cpu_nor | cpu_xor | cpu_andi | cpu_ori
  | cpu_xori

datatype (plugins only: code) shift_id =
    cpu_sllv | cpu_dsllv | cpu_srlv | cpu_dsrlv | cpu_srav | cpu_dsrav
  | cpu_sll | cpu_dsll | cpu_dsll32 | cpu_srl | cpu_dsrl | cpu_dsrl32
  | cpu_sra | cpu_dsra | cpu_dsra32 | cpu_slt | cpu_sltu | cpu_slti
  | cpu_sltiu

datatype (plugins only: code) fpu_id =
    cpu_mtc1 | cpu_mfc1 | cpu_dmtc1 | cpu_dmfc1 | cpu_mov_s | cpu_mov_d
  | cpu_neg_s | cpu_neg_d | cpu_abs_s | cpu_abs_d | cpu_sqrt_s | cpu_sqrt_d
  | cpu_add_s | cpu_add_d | cpu_sub_s | cpu_sub_d | cpu_mul_s | cpu_mul_d
  | cpu_div_s | cpu_div_d

datatype (plugins only: code) cvt_id =
    cpu_cvt_s_w | cpu_cvt_w_s | cpu_cvt_d_w | cpu_cvt_w_d | cpu_cvt_d_s | cpu_cvt_s_d
  | cpu_cvt_d_l | cpu_cvt_l_d | cpu_cvt_s_l | cpu_cvt_l_s | cpu_trunc_w_s | cpu_trunc_w_d
  | cpu_round_w_s | cpu_round_w_d | cpu_ceil_w_s | cpu_ceil_w_d | cpu_floor_w_s | cpu_floor_w_d

datatype (plugins only: code) cmp_s_id =
    cpu_c_f_s | cpu_c_eq_s | cpu_c_olt_s | cpu_c_ole_s | cpu_c_sf_s | cpu_c_seq_s
  | cpu_c_lt_s | cpu_c_le_s | cpu_c_un_s | cpu_c_ueq_s | cpu_c_ult_s | cpu_c_ule_s
  | cpu_c_ngle_s | cpu_c_ngl_s | cpu_c_nge_s | cpu_c_ngt_s

datatype (plugins only: code) cmp_d_id =
    cpu_c_f_d | cpu_c_eq_d | cpu_c_olt_d | cpu_c_ole_d | cpu_c_df_d | cpu_c_deq_d
  | cpu_c_lt_d | cpu_c_le_d | cpu_c_un_d | cpu_c_ueq_d | cpu_c_ult_d | cpu_c_ule_d
  | cpu_c_ngle_d | cpu_c_ngl_d | cpu_c_nge_d | cpu_c_ngt_d

datatype (plugins only: code) jump_id =
    cpu_beq | cpu_beql | cpu_bne | cpu_bnel | cpu_bgez | cpu_bgezl
  | cpu_bgtz | cpu_bgtzl | cpu_blez | cpu_blezl | cpu_bltz | cpu_bltzl
  | cpu_bgezal | cpu_bgezall | cpu_bltzal | cpu_bltzall | cpu_bc1f | cpu_bc1fl
  | cpu_bc1t | cpu_bc1tl | cpu_j | cpu_b | cpu_jal | cpu_jr
  | cpu_jalr

datatype (plugins only: code) mem_id =
    cpu_ld | cpu_lw | cpu_lwu | cpu_lh | cpu_lhu | cpu_lb
  | cpu_lbu | cpu_ldl | cpu_ldr | cpu_lwl | cpu_lwr | cpu_lwc1
  | cpu_ldc1 | cpu_sd | cpu_sdl | cpu_sdr | cpu_sw | cpu_swl
  | cpu_swr | cpu_sh | cpu_sb | cpu_sdc1 | cpu_swc1

datatype (plugins only: code) sys_id =
    cpu_nop | cpu_cache | cpu_mfc0 | cpu_mtc0 | cpu_syscall | cpu_break
  | cpu_ctc1 | cpu_cfc1 | cpu_mult | cpu_dmult | cpu_multu | cpu_dmultu
  | cpu_div | cpu_ddiv | cpu_divu | cpu_ddivu

datatype (plugins only: code) instr_id =
    Alu alu_id
  | Shift shift_id
  | Fpu fpu_id
  | Cvt cvt_id
  | CmpS cmp_s_id
  | CmpD cmp_d_id
  | Jump jump_id
  | Mem mem_id
  | Sys sys_id
  | OtherId string

section \<open>The shapes of operations\<close>

datatype (plugins only: code) store_op_type =
    S_SD | S_SDL | S_SDR | S_SW | S_SWL | S_SWR
  | S_SH | S_SB | S_SDC1 | S_SWC1

datatype (plugins only: code) unary_op_type =
    U_None | U_ToS32 | U_ToU32 | U_ToS64 | U_ToU64 | U_Lui
  | U_Mask5 | U_Mask6 | U_ToInt32 | U_NegateFloat | U_NegateDouble | U_AbsFloat
  | U_AbsDouble | U_SqrtFloat | U_SqrtDouble | U_ConvertSFromW | U_ConvertWFromS | U_ConvertDFromW
  | U_ConvertWFromD | U_ConvertDFromS | U_ConvertSFromD | U_ConvertDFromL | U_ConvertLFromD | U_ConvertSFromL
  | U_ConvertLFromS | U_TruncateWFromS | U_TruncateWFromD | U_TruncateLFromS | U_TruncateLFromD | U_RoundWFromS
  | U_RoundWFromD | U_RoundLFromS | U_RoundLFromD | U_CeilWFromS | U_CeilWFromD | U_CeilLFromS
  | U_CeilLFromD | U_FloorWFromS | U_FloorWFromD | U_FloorLFromS | U_FloorLFromD

datatype (plugins only: code) binary_op_type =
    B_Add32 | B_Sub32 | B_Add64 | B_Sub64 | B_AddFloat | B_AddDouble
  | B_SubFloat | B_SubDouble | B_MulFloat | B_MulDouble | B_DivFloat | B_DivDouble
  | B_And64 | B_Or64 | B_Nor64 | B_Xor64 | B_Sll32 | B_Sll64
  | B_Srl32 | B_Srl64 | B_Sra32 | B_Sra64 | B_Equal | B_NotEqual
  | B_Less | B_LessEq | B_Greater | B_GreaterEq | B_EqualFloat | B_LessFloat
  | B_LessEqFloat | B_EqualDouble | B_LessDouble | B_LessEqDouble | B_LD | B_LW
  | B_LWU | B_LH | B_LHU | B_LB | B_LBU | B_LDL
  | B_LDR | B_LWL | B_LWR | B_True | B_False | B_COUNT

datatype (plugins only: code) operand =
    O_Rd | O_Rs | O_Rt | O_Fd | O_Fs | O_Ft
  | O_FdDouble | O_FsDouble | O_FtDouble | O_FdU32L | O_FsU32L | O_FtU32L
  | O_FdU32H | O_FsU32H | O_FtU32H | O_FdU64 | O_FsU64 | O_FtU64
  | O_ImmU16 | O_ImmS16 | O_Sa | O_Sa32 | O_Cop1cs | O_Hi
  | O_Lo | O_Zero

text \<open>\<open>Base = Rs\<close>: the alias the load entries use.\<close>

abbreviation O_Base :: operand where "O_Base \<equiv> O_Rs"

record store_op =
  sto_type :: store_op_type
  sto_value_input :: operand

record unary_op =
  uno_operation :: unary_op_type
  uno_output :: operand
  uno_input :: operand
  uno_check_fr :: bool
  uno_check_nan :: bool

text \<open>
  The two-element arrays \<open>operand_operations\<close> and \<open>operands\<close> of \<open>BinaryOperands\<close> are
  pairs of fields.
\<close>

record binary_operands =
  operation0 :: unary_op_type
  operation1 :: unary_op_type
  operand0 :: operand
  operand1 :: operand

record binary_op =
  bin_type :: binary_op_type
  bin_output :: operand
  bin_operands :: binary_operands
  bin_check_fr :: bool
  bin_check_nan :: bool

record conditional_branch_op =
  cbr_comparison :: binary_op_type
  cbr_operands :: binary_operands
  cbr_link :: bool
  cbr_likely :: bool

section \<open>The decode tables\<close>

definition ops :: "operand \<Rightarrow> operand \<Rightarrow> unary_op_type \<Rightarrow> unary_op_type \<Rightarrow> binary_operands" where
  "ops lhs rhs lhs_pre rhs_pre =
     \<lparr>operation0 = lhs_pre, operation1 = rhs_pre, operand0 = lhs, operand1 = rhs\<rparr>"

text \<open>The aggregate initializations of the table rows, with the defaulted members written out.\<close>

definition unary_op_init :: "unary_op_type \<Rightarrow> operand \<Rightarrow> operand \<Rightarrow> bool \<Rightarrow> bool \<Rightarrow> unary_op" where
  "unary_op_init opn out inp fr nan =
     \<lparr>uno_operation = opn, uno_output = out, uno_input = inp, uno_check_fr = fr, uno_check_nan = nan\<rparr>"

definition binary_op_init ::
    "binary_op_type \<Rightarrow> operand \<Rightarrow> binary_operands \<Rightarrow> bool \<Rightarrow> bool \<Rightarrow> binary_op" where
  "binary_op_init ty out os fr nan =
     \<lparr>bin_type = ty, bin_output = out, bin_operands = os, bin_check_fr = fr, bin_check_nan = nan\<rparr>"

definition branch_op_init ::
    "binary_op_type \<Rightarrow> binary_operands \<Rightarrow> bool \<Rightarrow> bool \<Rightarrow> conditional_branch_op" where
  "branch_op_init ty os lnk lik =
     \<lparr>cbr_comparison = ty, cbr_operands = os, cbr_link = lnk, cbr_likely = lik\<rparr>"

definition store_op_init :: "store_op_type \<Rightarrow> operand \<Rightarrow> store_op" where
  "store_op_init ty v = \<lparr>sto_type = ty, sto_value_input = v\<rparr>"

lemmas op_init_defs = ops_def unary_op_init_def binary_op_init_def branch_op_init_def store_op_init_def

definition unary_ops_table :: "(instr_id \<times> unary_op) list" where
  "unary_ops_table = [
   (Alu cpu_lui, unary_op_init U_Lui O_Rt O_ImmU16 False False),
   (Alu cpu_mthi, unary_op_init U_None O_Hi O_Rs False False),
   (Alu cpu_mtlo, unary_op_init U_None O_Lo O_Rs False False),
   (Alu cpu_mfhi, unary_op_init U_None O_Rd O_Hi False False),
   (Alu cpu_mflo, unary_op_init U_None O_Rd O_Lo False False),
   (Fpu cpu_mtc1, unary_op_init U_None O_FsU32L O_Rt False False),
   (Fpu cpu_mfc1, unary_op_init U_ToInt32 O_Rt O_FsU32L False False),
   (Fpu cpu_dmtc1, unary_op_init U_None O_FsU64 O_Rt False False),
   (Fpu cpu_dmfc1, unary_op_init U_None O_Rt O_FsU64 False False),
   (Fpu cpu_mov_s, unary_op_init U_None O_Fd O_Fs True False),
   (Fpu cpu_mov_d, unary_op_init U_None O_FdDouble O_FsDouble True False),
   (Fpu cpu_neg_s, unary_op_init U_NegateFloat O_Fd O_Fs True True),
   (Fpu cpu_neg_d, unary_op_init U_NegateDouble O_FdDouble O_FsDouble True True),
   (Fpu cpu_abs_s, unary_op_init U_AbsFloat O_Fd O_Fs True True),
   (Fpu cpu_abs_d, unary_op_init U_AbsDouble O_FdDouble O_FsDouble True True),
   (Fpu cpu_sqrt_s, unary_op_init U_SqrtFloat O_Fd O_Fs True True),
   (Fpu cpu_sqrt_d, unary_op_init U_SqrtDouble O_FdDouble O_FsDouble True True),
   (Cvt cpu_cvt_s_w, unary_op_init U_ConvertSFromW O_Fd O_FsU32L True False),
   (Cvt cpu_cvt_w_s, unary_op_init U_ConvertWFromS O_FdU32L O_Fs True False),
   (Cvt cpu_cvt_d_w, unary_op_init U_ConvertDFromW O_FdDouble O_FsU32L True False),
   (Cvt cpu_cvt_w_d, unary_op_init U_ConvertWFromD O_FdU32L O_FsDouble True False),
   (Cvt cpu_cvt_d_s, unary_op_init U_ConvertDFromS O_FdDouble O_Fs True True),
   (Cvt cpu_cvt_s_d, unary_op_init U_ConvertSFromD O_Fd O_FsDouble True True),
   (Cvt cpu_cvt_d_l, unary_op_init U_ConvertDFromL O_FdDouble O_FsU64 True False),
   (Cvt cpu_cvt_l_d, unary_op_init U_ConvertLFromD O_FdU64 O_FsDouble True True),
   (Cvt cpu_cvt_s_l, unary_op_init U_ConvertSFromL O_Fd O_FsU64 True False),
   (Cvt cpu_cvt_l_s, unary_op_init U_ConvertLFromS O_FdU64 O_Fs True True),
   (Cvt cpu_trunc_w_s, unary_op_init U_TruncateWFromS O_FdU32L O_Fs True False),
   (Cvt cpu_trunc_w_d, unary_op_init U_TruncateWFromD O_FdU32L O_FsDouble True False),
   (Cvt cpu_round_w_s, unary_op_init U_RoundWFromS O_FdU32L O_Fs True False),
   (Cvt cpu_round_w_d, unary_op_init U_RoundWFromD O_FdU32L O_FsDouble True False),
   (Cvt cpu_ceil_w_s, unary_op_init U_CeilWFromS O_FdU32L O_Fs True False),
   (Cvt cpu_ceil_w_d, unary_op_init U_CeilWFromD O_FdU32L O_FsDouble True False),
   (Cvt cpu_floor_w_s, unary_op_init U_FloorWFromS O_FdU32L O_Fs True False),
   (Cvt cpu_floor_w_d, unary_op_init U_FloorWFromD O_FdU32L O_FsDouble True False)]"

definition binary_ops_table :: "(instr_id \<times> binary_op) list" where
  "binary_ops_table = [
   (Alu cpu_addu, binary_op_init B_Add32 O_Rd (ops O_Rs O_Rt U_None U_None) False False),
   (Alu cpu_add, binary_op_init B_Add32 O_Rd (ops O_Rs O_Rt U_None U_None) False False),
   (Alu cpu_negu, binary_op_init B_Sub32 O_Rd (ops O_Rs O_Rt U_None U_None) False False),
   (Alu cpu_subu, binary_op_init B_Sub32 O_Rd (ops O_Rs O_Rt U_None U_None) False False),
   (Alu cpu_sub, binary_op_init B_Sub32 O_Rd (ops O_Rs O_Rt U_None U_None) False False),
   (Alu cpu_daddu, binary_op_init B_Add64 O_Rd (ops O_Rs O_Rt U_None U_None) False False),
   (Alu cpu_dadd, binary_op_init B_Add64 O_Rd (ops O_Rs O_Rt U_None U_None) False False),
   (Alu cpu_dsubu, binary_op_init B_Sub64 O_Rd (ops O_Rs O_Rt U_None U_None) False False),
   (Alu cpu_dsub, binary_op_init B_Sub64 O_Rd (ops O_Rs O_Rt U_None U_None) False False),
   (Alu cpu_addi, binary_op_init B_Add32 O_Rt (ops O_Rs O_ImmS16 U_None U_None) False False),
   (Alu cpu_addiu, binary_op_init B_Add32 O_Rt (ops O_Rs O_ImmS16 U_None U_None) False False),
   (Alu cpu_daddi, binary_op_init B_Add64 O_Rt (ops O_Rs O_ImmS16 U_None U_None) False False),
   (Alu cpu_daddiu, binary_op_init B_Add64 O_Rt (ops O_Rs O_ImmS16 U_None U_None) False False),
   (Alu cpu_and, binary_op_init B_And64 O_Rd (ops O_Rs O_Rt U_None U_None) False False),
   (Alu cpu_or, binary_op_init B_Or64 O_Rd (ops O_Rs O_Rt U_None U_None) False False),
   (Alu cpu_nor, binary_op_init B_Nor64 O_Rd (ops O_Rs O_Rt U_None U_None) False False),
   (Alu cpu_xor, binary_op_init B_Xor64 O_Rd (ops O_Rs O_Rt U_None U_None) False False),
   (Alu cpu_andi, binary_op_init B_And64 O_Rt (ops O_Rs O_ImmU16 U_None U_None) False False),
   (Alu cpu_ori, binary_op_init B_Or64 O_Rt (ops O_Rs O_ImmU16 U_None U_None) False False),
   (Alu cpu_xori, binary_op_init B_Xor64 O_Rt (ops O_Rs O_ImmU16 U_None U_None) False False),
   (Shift cpu_sllv, binary_op_init B_Sll32 O_Rd (ops O_Rt O_Rs U_None U_Mask5) False False),
   (Shift cpu_dsllv, binary_op_init B_Sll64 O_Rd (ops O_Rt O_Rs U_None U_Mask6) False False),
   (Shift cpu_srlv, binary_op_init B_Srl32 O_Rd (ops O_Rt O_Rs U_ToU32 U_Mask5) False False),
   (Shift cpu_dsrlv, binary_op_init B_Srl64 O_Rd (ops O_Rt O_Rs U_ToU64 U_Mask6) False False),
   (Shift cpu_srav, binary_op_init B_Sra32 O_Rd (ops O_Rt O_Rs U_ToS64 U_Mask5) False False),
   (Shift cpu_dsrav, binary_op_init B_Sra64 O_Rd (ops O_Rt O_Rs U_ToS64 U_Mask6) False False),
   (Shift cpu_sll, binary_op_init B_Sll32 O_Rd (ops O_Rt O_Sa U_None U_None) False False),
   (Shift cpu_dsll, binary_op_init B_Sll64 O_Rd (ops O_Rt O_Sa U_None U_None) False False),
   (Shift cpu_dsll32, binary_op_init B_Sll64 O_Rd (ops O_Rt O_Sa32 U_None U_None) False False),
   (Shift cpu_srl, binary_op_init B_Srl32 O_Rd (ops O_Rt O_Sa U_ToU32 U_None) False False),
   (Shift cpu_dsrl, binary_op_init B_Srl64 O_Rd (ops O_Rt O_Sa U_ToU64 U_None) False False),
   (Shift cpu_dsrl32, binary_op_init B_Srl64 O_Rd (ops O_Rt O_Sa32 U_ToU64 U_None) False False),
   (Shift cpu_sra, binary_op_init B_Sra32 O_Rd (ops O_Rt O_Sa U_ToS64 U_None) False False),
   (Shift cpu_dsra, binary_op_init B_Sra64 O_Rd (ops O_Rt O_Sa U_ToS64 U_None) False False),
   (Shift cpu_dsra32, binary_op_init B_Sra64 O_Rd (ops O_Rt O_Sa32 U_ToS64 U_None) False False),
   (Shift cpu_slt, binary_op_init B_Less O_Rd (ops O_Rs O_Rt U_ToS64 U_ToS64) False False),
   (Shift cpu_sltu, binary_op_init B_Less O_Rd (ops O_Rs O_Rt U_ToU64 U_ToU64) False False),
   (Shift cpu_slti, binary_op_init B_Less O_Rt (ops O_Rs O_ImmS16 U_ToS64 U_None) False False),
   (Shift cpu_sltiu, binary_op_init B_Less O_Rt (ops O_Rs O_ImmS16 U_ToU64 U_None) False False),
   (Fpu cpu_add_s, binary_op_init B_AddFloat O_Fd (ops O_Fs O_Ft U_None U_None) True True),
   (Fpu cpu_add_d, binary_op_init B_AddDouble O_FdDouble (ops O_FsDouble O_FtDouble U_None U_None) True True),
   (Fpu cpu_sub_s, binary_op_init B_SubFloat O_Fd (ops O_Fs O_Ft U_None U_None) True True),
   (Fpu cpu_sub_d, binary_op_init B_SubDouble O_FdDouble (ops O_FsDouble O_FtDouble U_None U_None) True True),
   (Fpu cpu_mul_s, binary_op_init B_MulFloat O_Fd (ops O_Fs O_Ft U_None U_None) True True),
   (Fpu cpu_mul_d, binary_op_init B_MulDouble O_FdDouble (ops O_FsDouble O_FtDouble U_None U_None) True True),
   (Fpu cpu_div_s, binary_op_init B_DivFloat O_Fd (ops O_Fs O_Ft U_None U_None) True True),
   (Fpu cpu_div_d, binary_op_init B_DivDouble O_FdDouble (ops O_FsDouble O_FtDouble U_None U_None) True True),
   (CmpS cpu_c_f_s, binary_op_init B_False O_Cop1cs (ops O_Fs O_Ft U_None U_None) True False),
   (CmpS cpu_c_eq_s, binary_op_init B_EqualFloat O_Cop1cs (ops O_Fs O_Ft U_None U_None) True False),
   (CmpS cpu_c_olt_s, binary_op_init B_LessFloat O_Cop1cs (ops O_Fs O_Ft U_None U_None) True False),
   (CmpS cpu_c_ole_s, binary_op_init B_LessEqFloat O_Cop1cs (ops O_Fs O_Ft U_None U_None) True False),
   (CmpS cpu_c_sf_s, binary_op_init B_False O_Cop1cs (ops O_Fs O_Ft U_None U_None) True False),
   (CmpS cpu_c_seq_s, binary_op_init B_EqualFloat O_Cop1cs (ops O_Fs O_Ft U_None U_None) True False),
   (CmpS cpu_c_lt_s, binary_op_init B_LessFloat O_Cop1cs (ops O_Fs O_Ft U_None U_None) True False),
   (CmpS cpu_c_le_s, binary_op_init B_LessEqFloat O_Cop1cs (ops O_Fs O_Ft U_None U_None) True False),
   (CmpS cpu_c_un_s, binary_op_init B_False O_Cop1cs (ops O_Fs O_Ft U_None U_None) True False),
   (CmpS cpu_c_ueq_s, binary_op_init B_EqualFloat O_Cop1cs (ops O_Fs O_Ft U_None U_None) True False),
   (CmpS cpu_c_ult_s, binary_op_init B_LessFloat O_Cop1cs (ops O_Fs O_Ft U_None U_None) True False),
   (CmpS cpu_c_ule_s, binary_op_init B_LessEqFloat O_Cop1cs (ops O_Fs O_Ft U_None U_None) True False),
   (CmpS cpu_c_ngle_s, binary_op_init B_False O_Cop1cs (ops O_Fs O_Ft U_None U_None) True False),
   (CmpS cpu_c_ngl_s, binary_op_init B_EqualFloat O_Cop1cs (ops O_Fs O_Ft U_None U_None) True False),
   (CmpS cpu_c_nge_s, binary_op_init B_LessFloat O_Cop1cs (ops O_Fs O_Ft U_None U_None) True False),
   (CmpS cpu_c_ngt_s, binary_op_init B_LessEqFloat O_Cop1cs (ops O_Fs O_Ft U_None U_None) True False),
   (CmpD cpu_c_f_d, binary_op_init B_False O_Cop1cs (ops O_FsDouble O_FtDouble U_None U_None) True False),
   (CmpD cpu_c_eq_d, binary_op_init B_EqualDouble O_Cop1cs (ops O_FsDouble O_FtDouble U_None U_None) True False),
   (CmpD cpu_c_olt_d, binary_op_init B_LessDouble O_Cop1cs (ops O_FsDouble O_FtDouble U_None U_None) True False),
   (CmpD cpu_c_ole_d, binary_op_init B_LessEqDouble O_Cop1cs (ops O_FsDouble O_FtDouble U_None U_None) True False),
   (CmpD cpu_c_df_d, binary_op_init B_False O_Cop1cs (ops O_FsDouble O_FtDouble U_None U_None) True False),
   (CmpD cpu_c_deq_d, binary_op_init B_EqualDouble O_Cop1cs (ops O_FsDouble O_FtDouble U_None U_None) True False),
   (CmpD cpu_c_lt_d, binary_op_init B_LessDouble O_Cop1cs (ops O_FsDouble O_FtDouble U_None U_None) True False),
   (CmpD cpu_c_le_d, binary_op_init B_LessEqDouble O_Cop1cs (ops O_FsDouble O_FtDouble U_None U_None) True False),
   (CmpD cpu_c_un_d, binary_op_init B_False O_Cop1cs (ops O_FsDouble O_FtDouble U_None U_None) True False),
   (CmpD cpu_c_ueq_d, binary_op_init B_EqualDouble O_Cop1cs (ops O_FsDouble O_FtDouble U_None U_None) True False),
   (CmpD cpu_c_ult_d, binary_op_init B_LessDouble O_Cop1cs (ops O_FsDouble O_FtDouble U_None U_None) True False),
   (CmpD cpu_c_ule_d, binary_op_init B_LessEqDouble O_Cop1cs (ops O_FsDouble O_FtDouble U_None U_None) True False),
   (CmpD cpu_c_ngle_d, binary_op_init B_False O_Cop1cs (ops O_FsDouble O_FtDouble U_None U_None) True False),
   (CmpD cpu_c_ngl_d, binary_op_init B_EqualDouble O_Cop1cs (ops O_FsDouble O_FtDouble U_None U_None) True False),
   (CmpD cpu_c_nge_d, binary_op_init B_LessDouble O_Cop1cs (ops O_FsDouble O_FtDouble U_None U_None) True False),
   (CmpD cpu_c_ngt_d, binary_op_init B_LessEqDouble O_Cop1cs (ops O_FsDouble O_FtDouble U_None U_None) True False),
   (Mem cpu_ld, binary_op_init B_LD O_Rt (ops O_Base O_ImmS16 U_None U_None) False False),
   (Mem cpu_lw, binary_op_init B_LW O_Rt (ops O_Base O_ImmS16 U_None U_None) False False),
   (Mem cpu_lwu, binary_op_init B_LWU O_Rt (ops O_Base O_ImmS16 U_None U_None) False False),
   (Mem cpu_lh, binary_op_init B_LH O_Rt (ops O_Base O_ImmS16 U_None U_None) False False),
   (Mem cpu_lhu, binary_op_init B_LHU O_Rt (ops O_Base O_ImmS16 U_None U_None) False False),
   (Mem cpu_lb, binary_op_init B_LB O_Rt (ops O_Base O_ImmS16 U_None U_None) False False),
   (Mem cpu_lbu, binary_op_init B_LBU O_Rt (ops O_Base O_ImmS16 U_None U_None) False False),
   (Mem cpu_ldl, binary_op_init B_LDL O_Rt (ops O_Base O_ImmS16 U_None U_None) False False),
   (Mem cpu_ldr, binary_op_init B_LDR O_Rt (ops O_Base O_ImmS16 U_None U_None) False False),
   (Mem cpu_lwl, binary_op_init B_LWL O_Rt (ops O_Base O_ImmS16 U_None U_None) False False),
   (Mem cpu_lwr, binary_op_init B_LWR O_Rt (ops O_Base O_ImmS16 U_None U_None) False False),
   (Mem cpu_lwc1, binary_op_init B_LW O_FtU32L (ops O_Base O_ImmS16 U_None U_None) False False),
   (Mem cpu_ldc1, binary_op_init B_LD O_FtU64 (ops O_Base O_ImmS16 U_None U_None) True False)]"

definition conditional_branch_ops_table :: "(instr_id \<times> conditional_branch_op) list" where
  "conditional_branch_ops_table = [
   (Jump cpu_beq, branch_op_init B_Equal (ops O_Rs O_Rt U_None U_None) False False),
   (Jump cpu_beql, branch_op_init B_Equal (ops O_Rs O_Rt U_None U_None) False True),
   (Jump cpu_bne, branch_op_init B_NotEqual (ops O_Rs O_Rt U_None U_None) False False),
   (Jump cpu_bnel, branch_op_init B_NotEqual (ops O_Rs O_Rt U_None U_None) False True),
   (Jump cpu_bgez, branch_op_init B_GreaterEq (ops O_Rs O_Zero U_ToS64 U_None) False False),
   (Jump cpu_bgezl, branch_op_init B_GreaterEq (ops O_Rs O_Zero U_ToS64 U_None) False True),
   (Jump cpu_bgtz, branch_op_init B_Greater (ops O_Rs O_Zero U_ToS64 U_None) False False),
   (Jump cpu_bgtzl, branch_op_init B_Greater (ops O_Rs O_Zero U_ToS64 U_None) False True),
   (Jump cpu_blez, branch_op_init B_LessEq (ops O_Rs O_Zero U_ToS64 U_None) False False),
   (Jump cpu_blezl, branch_op_init B_LessEq (ops O_Rs O_Zero U_ToS64 U_None) False True),
   (Jump cpu_bltz, branch_op_init B_Less (ops O_Rs O_Zero U_ToS64 U_None) False False),
   (Jump cpu_bltzl, branch_op_init B_Less (ops O_Rs O_Zero U_ToS64 U_None) False True),
   (Jump cpu_bgezal, branch_op_init B_GreaterEq (ops O_Rs O_Zero U_ToS64 U_None) True False),
   (Jump cpu_bgezall, branch_op_init B_GreaterEq (ops O_Rs O_Zero U_ToS64 U_None) True True),
   (Jump cpu_bltzal, branch_op_init B_Less (ops O_Rs O_Zero U_ToS64 U_None) True False),
   (Jump cpu_bltzall, branch_op_init B_Less (ops O_Rs O_Zero U_ToS64 U_None) True True),
   (Jump cpu_bc1f, branch_op_init B_Equal (ops O_Cop1cs O_Zero U_None U_None) False False),
   (Jump cpu_bc1fl, branch_op_init B_Equal (ops O_Cop1cs O_Zero U_None U_None) False True),
   (Jump cpu_bc1t, branch_op_init B_NotEqual (ops O_Cop1cs O_Zero U_None U_None) False False),
   (Jump cpu_bc1tl, branch_op_init B_NotEqual (ops O_Cop1cs O_Zero U_None U_None) False True)]"

definition store_ops_table :: "(instr_id \<times> store_op) list" where
  "store_ops_table = [
   (Mem cpu_sd, store_op_init S_SD O_Rt),
   (Mem cpu_sdl, store_op_init S_SDL O_Rt),
   (Mem cpu_sdr, store_op_init S_SDR O_Rt),
   (Mem cpu_sw, store_op_init S_SW O_Rt),
   (Mem cpu_swl, store_op_init S_SWL O_Rt),
   (Mem cpu_swr, store_op_init S_SWR O_Rt),
   (Mem cpu_sh, store_op_init S_SH O_Rt),
   (Mem cpu_sb, store_op_init S_SB O_Rt),
   (Mem cpu_sdc1, store_op_init S_SDC1 O_FtU64),
   (Mem cpu_swc1, store_op_init S_SWC1 O_FtU32L)]"

definition unary_ops :: "instr_id \<rightharpoonup> unary_op" where
  "unary_ops = map_of unary_ops_table"

definition binary_ops :: "instr_id \<rightharpoonup> binary_op" where
  "binary_ops = map_of binary_ops_table"

definition conditional_branch_ops :: "instr_id \<rightharpoonup> conditional_branch_op" where
  "conditional_branch_ops = map_of conditional_branch_ops_table"

definition store_ops :: "instr_id \<rightharpoonup> store_op" where
  "store_ops = map_of store_ops_table"

lemmas op_table_defs = unary_ops_table_def binary_ops_table_def
  conditional_branch_ops_table_def store_ops_table_def

section \<open>The tables are consistent\<close>

text \<open>
  The keys of the four tables, in table order. \<open>process_instruction\<close> consults the tables one
  after another, so an instruction in two of them would be translated twice.
\<close>

definition op_table_keys :: "instr_id list" where
  "op_table_keys = map fst unary_ops_table @ map fst binary_ops_table @
     map fst conditional_branch_ops_table @ map fst store_ops_table"

end
