(* ===== verification/Context.thy ===== *)
theory Context
  imports Operations
begin

text \<open>
  The data model of the recompiler, \<open>include/recompiler/context.h\<close>: the structs as records, with
  the fields under a short prefix (\<open>fn_\<close> for \<open>Function\<close>, \<open>sec_\<close> for \<open>Section\<close>, and so on), and the
  methods of \<open>Context\<close> as functions on the record \<open>recompiler_context\<close>.

  \<^item> \<open>size_t\<close> indices are \<open>nat\<close>; \<open>(size_t)-1\<close>, returned for "no such function", is \<open>None\<close>.
  \<^item> \<open>std::unordered_map\<close> from names whose \<open>size()\<close> the code uses is an association list with
    the \<open>emplace\<close> and \<open>operator[]\<close> of the library written out (\<open>emplace\<close>, \<open>assign\<close>); the one
    from addresses to function lists is a HOL map. \<open>std::set<uint32_t>\<close> is its sorted list.
  \<^item> Indexing a vector out of range is undefined behaviour in C++: the operation is \<open>None\<close>.
  \<^item> The scoped enums with a fixed underlying type (\<open>RelocType\<close>, \<open>ReplacementFlags\<close>,
    \<open>HookFlags\<close>) can hold every value of that type, so they are words with named constants.
\<close>

section \<open>Association maps\<close>

definition emplace :: "'k \<Rightarrow> 'v \<Rightarrow> ('k \<times> 'v) list \<Rightarrow> ('k \<times> 'v) list" where
  "emplace k v m = (if map_of m k = None then m @ [(k, v)] else m)"

fun assign :: "'k \<Rightarrow> 'v \<Rightarrow> ('k \<times> 'v) list \<Rightarrow> ('k \<times> 'v) list" where
  "assign k v [] = [(k, v)]"
| "assign k v ((k', v') # m) = (if k' = k then (k, v) # m else (k', v') # assign k v m)"

lemma map_of_emplace:
  "map_of (emplace k v m) x = (if map_of m k = None \<and> x = k then Some v else map_of m x)"
  by (auto simp: emplace_def map_add_def split: option.splits)

lemma map_of_assign [simp]: "map_of (assign k v m) = (map_of m)(k \<mapsto> v)"
  by (induction k v m rule: assign.induct) (auto simp: fun_eq_iff)

definition nth_opt :: "'a list \<Rightarrow> nat \<Rightarrow> 'a option" where
  "nth_opt xs i = (if i < length xs then Some (xs ! i) else None)"

lemma nth_opt_Some: "nth_opt xs i = Some x \<longleftrightarrow> i < length xs \<and> xs ! i = x"
  by (auto simp: nth_opt_def)

lemma nth_opt_None: "nth_opt xs i = None \<longleftrightarrow> length xs \<le> i"
  by (auto simp: nth_opt_def)

section \<open>The structs\<close>

record recomp_function =
  fn_vram :: u32
  fn_rom :: u32
  fn_entry_vram :: u32
  fn_words :: "u32 list"
  fn_name :: string
  fn_section_index :: u16
  fn_ignored :: bool
  fn_reimplemented :: bool
  fn_stubbed :: bool
  fn_dispatch_entry_vrams :: "u32 list"
  fn_function_hooks :: "int \<rightharpoonup> string"

text \<open>\<open>Function()\<close> value-initialized (as \<open>vector::resize\<close> does) and the constructor.\<close>

definition function_default :: recomp_function where
  "function_default = \<lparr>fn_vram = 0, fn_rom = 0, fn_entry_vram = 0, fn_words = [], fn_name = '''',
     fn_section_index = 0, fn_ignored = False, fn_reimplemented = False, fn_stubbed = False,
     fn_dispatch_entry_vrams = [], fn_function_hooks = Map.empty\<rparr>"

definition make_function ::
    "u32 \<Rightarrow> u32 \<Rightarrow> u32 list \<Rightarrow> string \<Rightarrow> u16 \<Rightarrow> bool \<Rightarrow> bool \<Rightarrow> bool \<Rightarrow> u32 \<Rightarrow> recomp_function" where
  "make_function vram rom_addr ws nm sec ign reimpl stub entry =
     \<lparr>fn_vram = vram, fn_rom = rom_addr, fn_entry_vram = (if entry \<noteq> 0 then entry else vram),
      fn_words = ws, fn_name = nm, fn_section_index = sec, fn_ignored = ign,
      fn_reimplemented = reimpl, fn_stubbed = stub, fn_dispatch_entry_vrams = [],
      fn_function_hooks = Map.empty\<rparr>"

record dispatch_alias =
  da_section_index :: u16
  da_vram :: u32
  da_rom :: u32
  da_name :: string
  da_target_function_index :: nat

record jump_table =
  jt_vram :: u32
  jt_addend_reg :: u32
  jt_rom :: u32
  jt_lw_vram :: u32
  jt_addu_vram :: u32
  jt_jr_vram :: u32
  jt_section_index :: u16
  jt_got_offset :: "u32 option"
  jt_entries :: "u32 list"

type_synonym reloc_type = u8

definition R_MIPS_NONE :: reloc_type where "R_MIPS_NONE = 0"
definition R_MIPS_16 :: reloc_type where "R_MIPS_16 = 1"
definition R_MIPS_32 :: reloc_type where "R_MIPS_32 = 2"
definition R_MIPS_REL32 :: reloc_type where "R_MIPS_REL32 = 3"
definition R_MIPS_26 :: reloc_type where "R_MIPS_26 = 4"
definition R_MIPS_HI16 :: reloc_type where "R_MIPS_HI16 = 5"
definition R_MIPS_LO16 :: reloc_type where "R_MIPS_LO16 = 6"
definition R_MIPS_GPREL16 :: reloc_type where "R_MIPS_GPREL16 = 7"

lemmas reloc_type_defs = R_MIPS_NONE_def R_MIPS_16_def R_MIPS_32_def R_MIPS_REL32_def
  R_MIPS_26_def R_MIPS_HI16_def R_MIPS_LO16_def R_MIPS_GPREL16_def

record reloc =
  rel_address :: u32
  rel_target_section_offset :: u32
  rel_symbol_index :: u32
  rel_target_section :: u16
  rel_type :: reloc_type
  rel_reference_symbol :: bool

definition SectionAbsolute :: u16 where "SectionAbsolute = -2"
definition SectionImport :: u16 where "SectionImport = -3"
definition SectionEvent :: u16 where "SectionEvent = -4"

lemmas special_section_defs = SectionAbsolute_def SectionImport_def SectionEvent_def

definition PatchSectionName :: string where "PatchSectionName = ''.recomp_patch''"
definition ForcedPatchSectionName :: string where "ForcedPatchSectionName = ''.recomp_force_patch''"
definition ExportSectionName :: string where "ExportSectionName = ''.recomp_export''"
definition EventSectionName :: string where "EventSectionName = ''.recomp_event''"
definition ImportSectionPrefix :: string where "ImportSectionPrefix = ''.recomp_import.''"
definition CallbackSectionPrefix :: string where "CallbackSectionPrefix = ''.recomp_callback.''"
definition HookSectionPrefix :: string where "HookSectionPrefix = ''.recomp_hook.''"
definition HookReturnSectionPrefix :: string where "HookReturnSectionPrefix = ''.recomp_hook_return.''"
definition DependencySelf :: string where "DependencySelf = ''.''"
definition DependencyBaseRecomp :: string where "DependencyBaseRecomp = ''*''"

record section_info =
  sec_rom_addr :: u32
  sec_ram_addr :: u32
  sec_size :: u32
  sec_bss_size :: u32
  sec_function_addrs :: "u32 list"
  sec_relocs :: "reloc list"
  sec_name :: string
  sec_bss_section_index :: u16
  sec_executable :: bool
  sec_relocatable :: bool
  sec_has_mips32_relocs :: bool
  sec_fixed_address :: bool
  sec_globally_loaded :: bool
  sec_got_ram_addr :: "u32 option"
  sec_content_hash :: u64
  sec_original_pattern_id :: u32

definition section_default :: section_info where
  "section_default = \<lparr>sec_rom_addr = 0, sec_ram_addr = 0, sec_size = 0, sec_bss_size = 0,
     sec_function_addrs = [], sec_relocs = [], sec_name = '''', sec_bss_section_index = -1,
     sec_executable = False, sec_relocatable = False, sec_has_mips32_relocs = False,
     sec_fixed_address = False, sec_globally_loaded = False, sec_got_ram_addr = None,
     sec_content_hash = 0, sec_original_pattern_id = 0xFFFFFFFF\<rparr>"

record reference_section =
  rsec_rom_addr :: u32
  rsec_ram_addr :: u32
  rsec_size :: u32
  rsec_relocatable :: bool

record reference_symbol =
  rsym_name :: string
  rsym_section_index :: u16
  rsym_section_offset :: u32
  rsym_is_function :: bool

record import_symbol =
  imp_base :: reference_symbol
  imp_dependency_index :: nat

record dependency_event =
  dev_dependency_index :: nat
  dev_event_name :: string

record event_symbol =
  ev_base :: reference_symbol

record callback =
  cb_function_index :: nat
  cb_dependency_event_index :: nat

record symbol_reference =
  sref_section_index :: u16
  sref_symbol_index :: nat

type_synonym replacement_flags = u32

definition Force :: replacement_flags where "Force = push_bit 0 1"

record function_replacement =
  rep_func_index :: u32
  rep_original_section_vrom :: u32
  rep_original_vram :: u32
  rep_flags :: replacement_flags

type_synonym hook_flags = u32

definition AtReturn :: hook_flags where "AtReturn = push_bit 0 1"

record function_hook =
  hk_func_index :: u32
  hk_original_section_vrom :: u32
  hk_original_vram :: u32
  hk_flags :: hook_flags

section \<open>The context\<close>

record recompiler_context =
  reference_sections :: "reference_section list"
  reference_symbols :: "reference_symbol list"
  reference_symbols_by_name :: "(string \<times> symbol_reference) list"
  all_reference_sections_relocatable :: bool
  sections :: "section_info list"
  ctx_functions :: "recomp_function list"
  dispatch_aliases :: "dispatch_alias list"
  section_functions :: "nat list list"
  section_dispatch_aliases :: "nat list list"
  functions_by_vram :: "u32 \<rightharpoonup> nat list"
  bss_section_to_section :: "u16 \<rightharpoonup> u16"
  rom :: bytes
  skip_validating_reference_symbols :: bool
  use_lookup_for_all_function_calls :: bool
  functions_by_name :: "(string \<times> nat) list"
  dependencies :: "string list"
  dependencies_by_name :: "(string \<times> nat) list"
  import_symbols :: "import_symbol list"
  dependency_events :: "dependency_event list"
  dependency_events_by_name :: "(string \<times> nat) list list"
  dependency_imports_by_name :: "(string \<times> nat) list list"
  replacements :: "function_replacement list"
  exported_funcs :: "nat list"
  callbacks :: "callback list"
  event_symbols :: "event_symbol list"
  hooks :: "function_hook list"
  trace_mode :: bool

text \<open>The context \<open>{}\<close>: every container empty, the flags at their default member initializers.\<close>

definition context_default :: recompiler_context where
  "context_default = \<lparr>reference_sections = [], reference_symbols = [], reference_symbols_by_name = [],
     all_reference_sections_relocatable = False, sections = [], ctx_functions = [],
     dispatch_aliases = [], section_functions = [], section_dispatch_aliases = [],
     functions_by_vram = Map.empty, bss_section_to_section = Map.empty, rom = [],
     skip_validating_reference_symbols = True, use_lookup_for_all_function_calls = False,
     functions_by_name = [], dependencies = [], dependencies_by_name = [], import_symbols = [],
     dependency_events = [], dependency_events_by_name = [], dependency_imports_by_name = [],
     replacements = [], exported_funcs = [], callbacks = [], event_symbols = [], hooks = [],
     trace_mode = False\<rparr>"

section \<open>Dependencies\<close>

definition dep_resize :: "recompiler_context \<Rightarrow> recompiler_context" where
  "dep_resize ctx = (let n = length (dependencies_by_name ctx) in
     ctx\<lparr>dependency_events_by_name := resize_list (dependency_events_by_name ctx) n [],
         dependency_imports_by_name := resize_list (dependency_imports_by_name ctx) n []\<rparr>)"

text \<open>The two statements that append one dependency, shared by the two methods below.\<close>

definition push_dependency :: "string \<Rightarrow> recompiler_context \<Rightarrow> recompiler_context" where
  "push_dependency dep ctx =
     (let dependency_index = length (dependencies_by_name ctx) in
      ctx\<lparr>dependencies := dependencies ctx @ [dep],
          dependencies_by_name := emplace dep dependency_index (dependencies_by_name ctx)\<rparr>)"

definition add_dependency :: "string \<Rightarrow> recompiler_context \<Rightarrow> bool \<times> recompiler_context" where
  "add_dependency dep ctx =
     (if map_of (dependencies_by_name ctx) dep \<noteq> None then (False, ctx)
      else (True, dep_resize (push_dependency dep ctx)))"

definition add_dependencies :: "string list \<Rightarrow> recompiler_context \<Rightarrow> bool \<times> recompiler_context" where
  "add_dependencies deps ctx =
     (if \<exists>dep\<in>set deps. map_of (dependencies_by_name ctx) dep \<noteq> None then (False, ctx)
      else (True, dep_resize (fold push_dependency deps ctx)))"

definition find_dependency :: "string \<Rightarrow> recompiler_context \<Rightarrow> nat option \<times> recompiler_context" where
  "find_dependency mod_id ctx =
     (case map_of (dependencies_by_name ctx) mod_id of
        Some i \<Rightarrow> (Some i, ctx)
      | None \<Rightarrow>
          if mod_id = DependencySelf \<or> mod_id = DependencyBaseRecomp then
            let ctx' = snd (add_dependency mod_id ctx) in
            (map_of (dependencies_by_name ctx') mod_id, ctx')
          else (None, ctx))"

section \<open>Functions and reference symbols\<close>

definition find_function_by_vram_section :: "recompiler_context \<Rightarrow> u32 \<Rightarrow> nat \<Rightarrow> nat option" where
  "find_function_by_vram_section ctx vram section_index =
     (case functions_by_vram ctx vram of
        None \<Rightarrow> None
      | Some idxs \<Rightarrow>
          find (\<lambda>i. unat (fn_section_index (ctx_functions ctx ! i)) = section_index) idxs)"

definition has_reference_symbols :: "recompiler_context \<Rightarrow> bool" where
  "has_reference_symbols ctx \<longleftrightarrow>
     reference_symbols ctx \<noteq> [] \<or> import_symbols ctx \<noteq> [] \<or> event_symbols ctx \<noteq> []"

definition is_regular_reference_section :: "u16 \<Rightarrow> bool" where
  "is_regular_reference_section section_index \<longleftrightarrow>
     section_index \<noteq> SectionImport \<and> section_index \<noteq> SectionEvent"

definition find_reference_symbol :: "recompiler_context \<Rightarrow> string \<Rightarrow> symbol_reference option" where
  "find_reference_symbol ctx symbol_name = map_of (reference_symbols_by_name ctx) symbol_name"

definition reference_symbol_exists :: "recompiler_context \<Rightarrow> string \<Rightarrow> bool" where
  "reference_symbol_exists ctx symbol_name \<longleftrightarrow> find_reference_symbol ctx symbol_name \<noteq> None"

definition find_regular_reference_symbol :: "recompiler_context \<Rightarrow> string \<Rightarrow> symbol_reference option" where
  "find_regular_reference_symbol ctx symbol_name =
     (case find_reference_symbol ctx symbol_name of
        None \<Rightarrow> None
      | Some ref \<Rightarrow> if is_regular_reference_section (sref_section_index ref) then Some ref else None)"

definition get_reference_symbol :: "recompiler_context \<Rightarrow> u16 \<Rightarrow> nat \<Rightarrow> reference_symbol option" where
  "get_reference_symbol ctx section_index symbol_index =
     (if section_index = SectionImport then map_option imp_base (nth_opt (import_symbols ctx) symbol_index)
      else if section_index = SectionEvent then map_option ev_base (nth_opt (event_symbols ctx) symbol_index)
      else nth_opt (reference_symbols ctx) symbol_index)"

definition is_reference_section_relocatable :: "recompiler_context \<Rightarrow> u16 \<Rightarrow> bool option" where
  "is_reference_section_relocatable ctx section_index =
     (if all_reference_sections_relocatable ctx then Some True
      else if section_index = SectionAbsolute then Some False
      else if section_index = SectionImport \<or> section_index = SectionEvent then Some True
      else map_option rsec_relocatable (nth_opt (reference_sections ctx) (unat section_index)))"

definition add_reference_symbol ::
    "string \<Rightarrow> u16 \<Rightarrow> u32 \<Rightarrow> bool \<Rightarrow> recompiler_context \<Rightarrow> bool \<times> recompiler_context" where
  "add_reference_symbol symbol_name section_index vram is_fn ctx =
     (let add = (\<lambda>section_vram. (True, ctx\<lparr>
           reference_symbols_by_name := emplace symbol_name
             \<lparr>sref_section_index = section_index, sref_symbol_index = length (reference_symbols ctx)\<rparr>
             (reference_symbols_by_name ctx),
           reference_symbols := reference_symbols ctx @
             [\<lparr>rsym_name = symbol_name, rsym_section_index = section_index,
               rsym_section_offset = vram - section_vram, rsym_is_function = is_fn\<rparr>]\<rparr>))
      in if section_index = SectionAbsolute then add 0
         else if unat section_index < length (reference_sections ctx)
         then add (rsec_ram_addr (reference_sections ctx ! unat section_index))
         else (False, ctx))"

definition get_reference_section_vram :: "recompiler_context \<Rightarrow> u16 \<Rightarrow> u32 option" where
  "get_reference_section_vram ctx section_index =
     (if section_index = SectionAbsolute then Some 0
      else if \<not> is_regular_reference_section section_index then Some 0
      else map_option rsec_ram_addr (nth_opt (reference_sections ctx) (unat section_index)))"

definition get_reference_section_rom :: "recompiler_context \<Rightarrow> u16 \<Rightarrow> u32 option" where
  "get_reference_section_rom ctx section_index =
     (if section_index = SectionAbsolute then Some (-1)
      else if \<not> is_regular_reference_section section_index then Some (-1)
      else map_option rsec_rom_addr (nth_opt (reference_sections ctx) (unat section_index)))"

definition copy_reference_sections_from :: "recompiler_context \<Rightarrow> recompiler_context \<Rightarrow> recompiler_context" where
  "copy_reference_sections_from rhs ctx = ctx\<lparr>reference_sections := reference_sections rhs\<rparr>"

definition set_all_reference_sections_relocatable :: "recompiler_context \<Rightarrow> recompiler_context" where
  "set_all_reference_sections_relocatable ctx = ctx\<lparr>all_reference_sections_relocatable := True\<rparr>"

section \<open>Imports, events and callbacks\<close>

definition import_symbol_of :: "string \<Rightarrow> nat \<Rightarrow> import_symbol" where
  "import_symbol_of symbol_name dependency_index =
     \<lparr>imp_base = \<lparr>rsym_name = symbol_name, rsym_section_index = SectionImport,
        rsym_section_offset = 0, rsym_is_function = True\<rparr>, imp_dependency_index = dependency_index\<rparr>"

text \<open>The per-dependency map is indexed without a check: \<open>None\<close> when the index is out of range.\<close>

definition add_import_symbol :: "string \<Rightarrow> nat \<Rightarrow> recompiler_context \<Rightarrow> recompiler_context option" where
  "add_import_symbol symbol_name dependency_index ctx =
     (if dependency_index < length (dependency_imports_by_name ctx) then
        Some (ctx\<lparr>
          dependency_imports_by_name := (dependency_imports_by_name ctx)[dependency_index :=
            assign symbol_name (length (import_symbols ctx))
              (dependency_imports_by_name ctx ! dependency_index)],
          import_symbols := import_symbols ctx @ [import_symbol_of symbol_name dependency_index]\<rparr>)
      else None)"

definition find_import_symbol :: "recompiler_context \<Rightarrow> string \<Rightarrow> nat \<Rightarrow> symbol_reference option" where
  "find_import_symbol ctx symbol_name dependency_index =
     (if length (dependencies_by_name ctx) \<le> dependency_index then None
      else map_option (\<lambda>i. \<lparr>sref_section_index = SectionImport, sref_symbol_index = i\<rparr>)
             (map_of (dependency_imports_by_name ctx ! dependency_index) symbol_name))"

definition event_symbol_of :: "string \<Rightarrow> event_symbol" where
  "event_symbol_of symbol_name =
     \<lparr>ev_base = \<lparr>rsym_name = symbol_name, rsym_section_index = SectionEvent,
        rsym_section_offset = 0, rsym_is_function = True\<rparr>\<rparr>"

definition add_event_symbol :: "string \<Rightarrow> recompiler_context \<Rightarrow> recompiler_context" where
  "add_event_symbol symbol_name ctx = ctx\<lparr>
     reference_symbols_by_name := assign symbol_name
       \<lparr>sref_section_index = SectionEvent, sref_symbol_index = length (event_symbols ctx)\<rparr>
       (reference_symbols_by_name ctx),
     event_symbols := event_symbols ctx @ [event_symbol_of symbol_name]\<rparr>"

definition find_event_symbol :: "recompiler_context \<Rightarrow> string \<Rightarrow> symbol_reference option" where
  "find_event_symbol ctx symbol_name =
     (case find_reference_symbol ctx symbol_name of
        None \<Rightarrow> None
      | Some ref \<Rightarrow> if sref_section_index ref \<noteq> SectionEvent then None else Some ref)"

definition add_dependency_event ::
    "string \<Rightarrow> nat \<Rightarrow> recompiler_context \<Rightarrow> nat option \<times> recompiler_context" where
  "add_dependency_event event_name dependency_index ctx =
     (if length (dependencies_by_name ctx) \<le> dependency_index then (None, ctx)
      else case map_of (dependency_events_by_name ctx ! dependency_index) event_name of
        Some i \<Rightarrow> (Some i, ctx)
      | None \<Rightarrow>
          let dependency_event_index = length (dependency_events ctx) in
          (Some dependency_event_index, ctx\<lparr>
             dependency_events := dependency_events ctx @
               [\<lparr>dev_dependency_index = dependency_index, dev_event_name = event_name\<rparr>],
             dependency_events_by_name := (dependency_events_by_name ctx)[dependency_index :=
               assign event_name dependency_event_index
                 (dependency_events_by_name ctx ! dependency_index)]\<rparr>))"

definition add_callback :: "nat \<Rightarrow> nat \<Rightarrow> recompiler_context \<Rightarrow> bool \<times> recompiler_context" where
  "add_callback dependency_event_index function_index ctx =
     (True, ctx\<lparr>callbacks := callbacks ctx @
        [\<lparr>cb_function_index = function_index, cb_dependency_event_index = dependency_event_index\<rparr>]\<rparr>)"

section \<open>Symbol and mod identifiers\<close>

definition is_manual_patch_symbol :: "u32 \<Rightarrow> bool" where
  "is_manual_patch_symbol vram \<longleftrightarrow> 0x8F000000 \<le> vram \<and> vram < 0x90000000"

definition isalpha_nolocale :: "char \<Rightarrow> bool" where
  "isalpha_nolocale c \<longleftrightarrow> (of_char c \<ge> (97::nat) \<and> of_char c \<le> (122::nat)) \<or>
     (of_char c \<ge> (65::nat) \<and> of_char c \<le> (90::nat))"

definition isalnum_nolocale :: "char \<Rightarrow> bool" where
  "isalnum_nolocale c \<longleftrightarrow> isalpha_nolocale c \<or> (of_char c \<ge> (48::nat) \<and> of_char c \<le> (57::nat))"

definition validate_mod_id :: "string \<Rightarrow> bool" where
  "validate_mod_id str =
     (if length str = 0 then False
      else if str = DependencySelf \<or> str = DependencyBaseRecomp then True
      else if \<not> isalpha_nolocale (hd str) \<and> hd str \<noteq> CHR ''_'' then False
      else list_all (\<lambda>c. isalnum_nolocale c \<or> c = CHR ''_'') (tl str))"

end
