(* ===== verification/Context_Invariants.thy ===== *)
theory Context_Invariants
  imports Context
begin

text \<open>
  What keeps a context consistent: every name index of \<open>Context\<close> agrees with the vector it
  indexes, and every operation of the class keeps it so.

  The locale \<open>name_index\<close> is the contract of such an index, an append-only table of distinct
  keys with stable positions. It is interpreted on the dependency table and on the table of
  dependency events, the two of them the parser of the symbol file fills.
\<close>

section \<open>The contract of a name index\<close>

locale name_index =
  fixes inv :: "'s \<Rightarrow> bool"
    and ok :: "'s \<Rightarrow> 'k \<Rightarrow> bool"
    and entries :: "'s \<Rightarrow> 'k list"
    and lookup :: "'s \<Rightarrow> 'k \<Rightarrow> nat option"
    and register :: "'k \<Rightarrow> 's \<Rightarrow> 's"
  assumes lookup_iff:
      "inv s \<Longrightarrow> ok s k \<Longrightarrow> lookup s k = Some i \<longleftrightarrow> i < length (entries s) \<and> entries s ! i = k"
    and register_inv: "inv s \<Longrightarrow> ok s k \<Longrightarrow> inv (register k s)"
    and register_ok: "inv s \<Longrightarrow> ok s k \<Longrightarrow> ok s k' \<Longrightarrow> ok (register k s) k'"
    and register_entries: "inv s \<Longrightarrow> ok s k \<Longrightarrow>
      entries (register k s) = (if k \<in> set (entries s) then entries s else entries s @ [k])"
    and entries_ok: "inv s \<Longrightarrow> k \<in> set (entries s) \<Longrightarrow> ok s k"
begin

lemma lookup_None_iff: "inv s \<Longrightarrow> ok s k \<Longrightarrow> lookup s k = None \<longleftrightarrow> k \<notin> set (entries s)"
  by (metis in_set_conv_nth lookup_iff not_Some_eq)

lemma entries_distinct: "inv s \<Longrightarrow> distinct (entries s)"
  unfolding distinct_conv_nth
proof (intro allI impI notI)
  fix i j assume inv: "inv s" and ij: "i < length (entries s)" "j < length (entries s)" "i \<noteq> j"
    and eq: "entries s ! i = entries s ! j"
  have ok: "ok s (entries s ! i)" using inv ij by (simp add: entries_ok)
  have "lookup s (entries s ! i) = Some i" using lookup_iff [OF inv ok] ij by simp
  moreover have "lookup s (entries s ! i) = Some j" using lookup_iff [OF inv ok] ij eq by simp
  ultimately show False using ij by simp
qed

lemma lookup_stable:
  "inv s \<Longrightarrow> ok s k \<Longrightarrow> ok s k' \<Longrightarrow> lookup s k = Some i \<Longrightarrow> lookup (register k' s) k = Some i"
  by (auto simp: lookup_iff register_inv register_ok register_entries nth_append)

lemma lookup_register:
  "inv s \<Longrightarrow> ok s k \<Longrightarrow>
     lookup (register k s) k = Some (case lookup s k of Some i \<Rightarrow> i | None \<Rightarrow> length (entries s))"
  by (auto simp: lookup_iff register_inv register_ok register_entries lookup_None_iff lookup_stable
      split: option.splits)

lemma fold_register:
  assumes "inv s" and "\<forall>k\<in>set ks. ok s k"
  shows "inv (fold register ks s) \<and> set (entries (fold register ks s)) = set (entries s) \<union> set ks"
  using assms
proof (induction ks arbitrary: s)
  case (Cons k ks)
  then have "inv (register k s)" and "\<forall>k'\<in>set ks. ok (register k s) k'"
    by (auto simp: register_inv register_ok)
  from Cons.IH [OF this] Cons.prems show ?case
    by (auto simp: register_entries)
qed simp

lemma fold_register_fresh:
  assumes "inv s" and "\<forall>k\<in>set ks. ok s k" and "distinct ks" and "set ks \<inter> set (entries s) = {}"
  shows "entries (fold register ks s) = entries s @ ks"
  using assms
proof (induction ks arbitrary: s)
  case (Cons k ks)
  then have "inv (register k s)" and "\<forall>k'\<in>set ks. ok (register k s) k'"
    and "entries (register k s) = entries s @ [k]"
    by (auto simp: register_inv register_ok register_entries)
  with Cons show ?case by auto
qed simp

end

section \<open>The invariant of a context\<close>

definition dependencies_wf :: "recompiler_context \<Rightarrow> bool" where
  "dependencies_wf ctx \<longleftrightarrow>
     distinct (dependencies ctx) \<and>
     dependencies_by_name ctx = zip (dependencies ctx) [0..<length (dependencies ctx)] \<and>
     length (dependency_events_by_name ctx) = length (dependencies ctx) \<and>
     length (dependency_imports_by_name ctx) = length (dependencies ctx)"

definition dependency_events_wf :: "recompiler_context \<Rightarrow> bool" where
  "dependency_events_wf ctx \<longleftrightarrow>
     (\<forall>e\<in>set (dependency_events ctx). dev_dependency_index e < length (dependencies ctx)) \<and>
     (\<forall>d<length (dependencies ctx). \<forall>nm i.
        map_of (dependency_events_by_name ctx ! d) nm = Some i \<longleftrightarrow>
        i < length (dependency_events ctx) \<and>
        dependency_events ctx ! i = \<lparr>dev_dependency_index = d, dev_event_name = nm\<rparr>)"

definition imports_wf :: "recompiler_context \<Rightarrow> bool" where
  "imports_wf ctx \<longleftrightarrow>
     (\<forall>s\<in>set (import_symbols ctx). imp_dependency_index s < length (dependencies ctx)) \<and>
     (\<forall>d<length (dependencies ctx). \<forall>nm i.
        map_of (dependency_imports_by_name ctx ! d) nm = Some i \<longrightarrow>
        i < length (import_symbols ctx) \<and> import_symbols ctx ! i = import_symbol_of nm d)"

definition reference_symbols_wf :: "recompiler_context \<Rightarrow> bool" where
  "reference_symbols_wf ctx \<longleftrightarrow>
     length (reference_sections ctx) \<le> unat SectionEvent \<and>
     (\<forall>nm ref. map_of (reference_symbols_by_name ctx) nm = Some ref \<longrightarrow>
        (\<exists>sym. get_reference_symbol ctx (sref_section_index ref) (sref_symbol_index ref) = Some sym \<and>
           rsym_name sym = nm \<and> rsym_section_index sym = sref_section_index ref))"

definition context_wf :: "recompiler_context \<Rightarrow> bool" where
  "context_wf ctx \<longleftrightarrow> dependencies_wf ctx \<and> dependency_events_wf ctx \<and> imports_wf ctx \<and>
     reference_symbols_wf ctx"

lemmas context_wf_defs = context_wf_def dependencies_wf_def dependency_events_wf_def
  imports_wf_def reference_symbols_wf_def

lemma context_wf_default: "context_wf context_default"
  by (simp add: context_wf_defs context_default_def)

lemma map_of_zip_upt:
  "distinct xs \<Longrightarrow>
     map_of (zip xs [0..<length xs]) k = Some i \<longleftrightarrow> i < length xs \<and> xs ! i = k"
  by (subst map_of_eq_Some_iff) (auto simp: set_zip)

lemma map_of_zip_upt_None:
  "map_of (zip xs [0..<length xs]) k = None \<longleftrightarrow> k \<notin> set xs"
  unfolding map_of_eq_None_iff by (simp flip: set_map)

lemma add_dependency_eq:
  assumes "dependencies_wf ctx"
  shows "add_dependency dep ctx =
    (if dep \<in> set (dependencies ctx) then (False, ctx)
     else (True, ctx\<lparr>dependencies := dependencies ctx @ [dep],
       dependencies_by_name := dependencies_by_name ctx @ [(dep, length (dependencies ctx))],
       dependency_events_by_name := dependency_events_by_name ctx @ [[]],
       dependency_imports_by_name := dependency_imports_by_name ctx @ [[]]\<rparr>))"
  using assms
  by (auto simp: add_dependency_def push_dependency_def dep_resize_def Let_def emplace_def
      dependencies_wf_def map_of_zip_upt_None resize_list_grow)

lemma zip_upt_snoc: "zip (xs @ [x]) [0..<Suc (length xs)] = zip xs [0..<length xs] @ [(x, length xs)]"
  by simp

lemma get_reference_symbol_cong:
  "reference_symbols c = reference_symbols c' \<Longrightarrow> import_symbols c = import_symbols c' \<Longrightarrow>
   event_symbols c = event_symbols c' \<Longrightarrow> get_reference_symbol c = get_reference_symbol c'"
  by (simp add: fun_eq_iff get_reference_symbol_def)

text \<open>Each part of the invariant reads a few fields only.\<close>

lemma reference_symbols_wf_frame:
  "reference_sections c = reference_sections c' \<Longrightarrow>
   reference_symbols_by_name c = reference_symbols_by_name c' \<Longrightarrow>
   reference_symbols c = reference_symbols c' \<Longrightarrow> import_symbols c = import_symbols c' \<Longrightarrow>
   event_symbols c = event_symbols c' \<Longrightarrow> reference_symbols_wf c = reference_symbols_wf c'"
  by (simp add: reference_symbols_wf_def cong: get_reference_symbol_cong)

lemma dependencies_wf_frame:
  "dependencies c = dependencies c' \<Longrightarrow> dependencies_by_name c = dependencies_by_name c' \<Longrightarrow>
   length (dependency_events_by_name c) = length (dependency_events_by_name c') \<Longrightarrow>
   length (dependency_imports_by_name c) = length (dependency_imports_by_name c') \<Longrightarrow>
   dependencies_wf c = dependencies_wf c'"
  by (simp add: dependencies_wf_def)

lemma dependency_events_wf_frame:
  "dependencies c = dependencies c' \<Longrightarrow> dependency_events c = dependency_events c' \<Longrightarrow>
   dependency_events_by_name c = dependency_events_by_name c' \<Longrightarrow>
   dependency_events_wf c = dependency_events_wf c'"
  by (simp add: dependency_events_wf_def)

lemma imports_wf_frame:
  "dependencies c = dependencies c' \<Longrightarrow> import_symbols c = import_symbols c' \<Longrightarrow>
   dependency_imports_by_name c = dependency_imports_by_name c' \<Longrightarrow> imports_wf c = imports_wf c'"
  by (simp add: imports_wf_def)

lemma add_dependency_wf:
  assumes "context_wf ctx"
  shows "context_wf (snd (add_dependency dep ctx))"
proof (cases "dep \<in> set (dependencies ctx)")
  case True
  with assms show ?thesis by (simp add: add_dependency_eq context_wf_def)
next
  case False
  let ?c = "snd (add_dependency dep ctx)"
  have dw: "dependencies_wf ctx" using assms by (simp add: context_wf_def)
  note eq = add_dependency_eq [OF dw, of dep]
  have new: "\<not> dev_dependency_index (dependency_events ctx ! i) = length (dependencies ctx)"
    if "i < length (dependency_events ctx)" for i
  proof -
    have "\<forall>e\<in>set (dependency_events ctx). dev_dependency_index e < length (dependencies ctx)"
      using assms by (simp add: context_wf_def dependency_events_wf_def)
    then show ?thesis using nth_mem [OF that] by auto
  qed
  have "dependencies_wf ?c" using dw False by (simp add: eq dependencies_wf_def)
  moreover have "dependency_events_wf ?c"
  proof -
    have lens: "length (dependency_events_by_name ctx) = length (dependencies ctx)"
      using dw by (simp add: dependencies_wf_def)
    have ev: "dependency_events_wf ctx" using assms by (simp add: context_wf_def)
    have "map_of (dependency_events_by_name ?c ! d) nm = Some i \<longleftrightarrow>
        i < length (dependency_events ?c) \<and>
        dependency_events ?c ! i = \<lparr>dev_dependency_index = d, dev_event_name = nm\<rparr>"
      if d: "d < length (dependencies ?c)" for d nm i
    proof (cases "d = length (dependencies ctx)")
      case True
      with new [of i] lens False show ?thesis by (auto simp: eq nth_append)
    next
      case neq: False
      with d False have "d < length (dependencies ctx)" by (simp add: eq)
      with ev lens False show ?thesis
        by (simp add: eq dependency_events_wf_def nth_append)
    qed
    moreover have "\<forall>e\<in>set (dependency_events ?c). dev_dependency_index e < length (dependencies ?c)"
      using ev False by (auto simp: eq dependency_events_wf_def)
    ultimately show ?thesis by (simp add: dependency_events_wf_def)
  qed
  moreover have "imports_wf ?c"
    using assms False
    by (auto simp: eq context_wf_def imports_wf_def dependencies_wf_def nth_append less_Suc_eq)
  moreover have "reference_symbols_wf ?c = reference_symbols_wf ctx"
    using False by (intro reference_symbols_wf_frame) (simp_all add: eq)
  ultimately show ?thesis using assms by (simp add: context_wf_def)
qed

section \<open>Every operation keeps the invariant\<close>

lemma push_dependency_prefix:
  assumes "dependencies_wf c0" and "distinct deps" and "set deps \<inter> set (dependencies c0) = {}"
  shows "fold push_dependency deps c0 = c0\<lparr>dependencies := dependencies c0 @ deps,
    dependencies_by_name := zip (dependencies c0 @ deps) [0..<length (dependencies c0 @ deps)]\<rparr>"
  using assms
proof (induction deps rule: rev_induct)
  case Nil
  then show ?case by (simp add: dependencies_wf_def)
next
  case (snoc d deps)
  have "map_of (zip (dependencies c0 @ deps) [0..<length (dependencies c0 @ deps)]) d = None"
    using snoc.prems by (subst map_of_zip_upt_None) auto
  with snoc show ?case
    by (simp add: push_dependency_def emplace_def Let_def del: upt_Suc
        flip: zip_upt_snoc [of "dependencies c0 @ deps" d, simplified])
qed

lemma add_dependency_shape:
  assumes "dependencies_wf ctx" and "dep \<notin> set (dependencies ctx)"
  shows "dependencies (snd (add_dependency dep ctx)) = dependencies ctx @ [dep]"
  using assms by (simp add: add_dependency_eq)

text \<open>Registering several new dependencies at once is registering them one by one.\<close>

lemmas dep_resize_eq = dep_resize_def [unfolded Let_def]

lemma add_dependencies_fold:
  assumes wf: "dependencies_wf ctx" and d: "distinct deps" "set deps \<inter> set (dependencies ctx) = {}"
  shows "add_dependencies deps ctx = (True, fold (\<lambda>d c. snd (add_dependency d c)) deps ctx)"
proof -
  have miss: "\<not> (\<exists>dep\<in>set deps. map_of (dependencies_by_name ctx) dep \<noteq> None)"
    using wf d by (auto simp: dependencies_wf_def map_of_zip_upt_None)
  have "fold (\<lambda>d c. snd (add_dependency d c)) deps ctx = dep_resize (fold push_dependency deps ctx)"
    using d
  proof (induction deps rule: rev_induct)
    case Nil
    with wf show ?case by (simp add: dep_resize_eq dependencies_wf_def resize_list_def)
  next
    case (snoc d deps)
    then have dd: "distinct deps" "set deps \<inter> set (dependencies ctx) = {}" by auto
    let ?c = "fold (\<lambda>d c. snd (add_dependency d c)) deps ctx"
    have c: "?c = dep_resize (fold push_dependency deps ctx)" using snoc.IH dd by simp
    have wfc: "dependencies_wf ?c"
      using wf dd by (auto simp: c push_dependency_prefix dep_resize_eq dependencies_wf_def)
    have "d \<notin> set (dependencies ?c)"
      using snoc.prems wf dd by (auto simp: c push_dependency_prefix dep_resize_eq)
    have pre: "fold push_dependency (deps @ [d]) ctx = ctx\<lparr>dependencies := dependencies ctx @ deps @ [d],
        dependencies_by_name := zip (dependencies ctx @ deps @ [d])
          [0..<length (dependencies ctx @ deps @ [d])]\<rparr>"
      using push_dependency_prefix [OF wf snoc.prems] by simp
    have "fold (\<lambda>d c. snd (add_dependency d c)) (deps @ [d]) ctx = snd (add_dependency d ?c)" by simp
    also have "\<dots> = dep_resize (fold push_dependency (deps @ [d]) ctx)"
      unfolding pre using \<open>d \<notin> set (dependencies ?c)\<close> wf dd
      by (simp add: add_dependency_eq [OF wfc])
        (simp add: c push_dependency_prefix dep_resize_eq dependencies_wf_def resize_list_grow
          flip: zip_upt_snoc [of "dependencies ctx @ deps" d, simplified] replicate_append_same)
    finally show ?case .
  qed
  with miss show ?thesis by (simp add: add_dependencies_def)
qed

lemma add_dependency_events_frame:
  "dependencies_wf ctx \<Longrightarrow> dependency_events (snd (add_dependency dep ctx)) = dependency_events ctx"
  by (simp add: add_dependency_eq)

lemma find_dependency_wf: "context_wf ctx \<Longrightarrow> context_wf (snd (find_dependency mod_id ctx))"
  by (auto simp: find_dependency_def Let_def add_dependency_wf split: option.splits)

lemma add_import_symbol_wf:
  assumes "context_wf ctx" and "add_import_symbol nm d ctx = Some ctx'"
  shows "context_wf ctx'"
proof -
  from assms(2) have d: "d < length (dependency_imports_by_name ctx)"
    and c: "ctx' = ctx\<lparr>dependency_imports_by_name := (dependency_imports_by_name ctx)[d :=
        assign nm (length (import_symbols ctx)) (dependency_imports_by_name ctx ! d)],
      import_symbols := import_symbols ctx @ [import_symbol_of nm d]\<rparr>"
    by (auto simp: add_import_symbol_def split: if_splits)
  have dw: "dependencies_wf ctx" and iw: "imports_wf ctx" and rw: "reference_symbols_wf ctx"
    using assms(1) by (simp_all add: context_wf_def)
  have "dependencies_wf ctx' = dependencies_wf ctx" by (rule dependencies_wf_frame) (simp_all add: c)
  moreover have "dependency_events_wf ctx' = dependency_events_wf ctx"
    by (rule dependency_events_wf_frame) (simp_all add: c)
  moreover have "imports_wf ctx'"
    unfolding imports_wf_def
  proof (intro conjI allI impI)
    have len: "length (dependency_imports_by_name ctx) = length (dependencies ctx)"
      using dw by (simp add: dependencies_wf_def)
    show "\<forall>s\<in>set (import_symbols ctx'). imp_dependency_index s < length (dependencies ctx')"
      using iw d len by (auto simp: c imports_wf_def import_symbol_of_def)
    fix d' nm' i
    assume d': "d' < length (dependencies ctx')"
      and i: "map_of (dependency_imports_by_name ctx' ! d') nm' = Some i"
    have "i < length (import_symbols ctx) \<and> import_symbols ctx ! i = import_symbol_of nm' d'"
      if "map_of (dependency_imports_by_name ctx ! d') nm' = Some i"
      using iw d' that by (simp add: c imports_wf_def)
    then show "i < length (import_symbols ctx')" "import_symbols ctx' ! i = import_symbol_of nm' d'"
      using i d d' len by (auto simp: c nth_list_update nth_append split: if_splits)
  qed
  moreover have "reference_symbols_wf ctx'"
    unfolding reference_symbols_wf_def
  proof (intro conjI allI impI)
    show "length (reference_sections ctx') \<le> unat SectionEvent"
      using rw by (simp add: c reference_symbols_wf_def)
    fix nm' ref assume "map_of (reference_symbols_by_name ctx') nm' = Some ref"
    with rw obtain sym where sym: "get_reference_symbol ctx (sref_section_index ref) (sref_symbol_index ref) = Some sym"
      "rsym_name sym = nm'" "rsym_section_index sym = sref_section_index ref"
      by (auto simp: c reference_symbols_wf_def)
    then have "get_reference_symbol ctx' (sref_section_index ref) (sref_symbol_index ref) = Some sym"
      by (auto simp: c get_reference_symbol_def nth_opt_def nth_append split: if_splits)
    with sym show "\<exists>sym. get_reference_symbol ctx' (sref_section_index ref) (sref_symbol_index ref) = Some sym \<and>
        rsym_name sym = nm' \<and> rsym_section_index sym = sref_section_index ref" by blast
  qed
  ultimately show ?thesis using assms(1) by (simp add: context_wf_def)
qed

lemma add_dependency_event_wf:
  assumes wf: "context_wf ctx"
  shows "context_wf (snd (add_dependency_event nm d ctx))"
proof (cases "d < length (dependencies_by_name ctx) \<and> map_of (dependency_events_by_name ctx ! d) nm = None")
  case False
  then show ?thesis using wf by (auto simp: add_dependency_event_def)
next
  case True
  let ?c = "snd (add_dependency_event nm d ctx)"
  have dw: "dependencies_wf ctx" and ew: "dependency_events_wf ctx" using wf by (simp_all add: context_wf_def)
  have c: "?c = ctx\<lparr>dependency_events := dependency_events ctx @
        [\<lparr>dev_dependency_index = d, dev_event_name = nm\<rparr>],
      dependency_events_by_name := (dependency_events_by_name ctx)[d :=
        assign nm (length (dependency_events ctx)) (dependency_events_by_name ctx ! d)]\<rparr>"
    using True by (simp add: add_dependency_event_def Let_def)
  have d: "d < length (dependencies ctx)" "d < length (dependency_events_by_name ctx)"
    using True dw by (auto simp: dependencies_wf_def)
  have fresh: "dependency_events ctx ! i \<noteq> \<lparr>dev_dependency_index = d, dev_event_name = nm\<rparr>"
    if "i < length (dependency_events ctx)" for i
  proof -
    have "map_of (dependency_events_by_name ctx ! d) nm = Some i \<longleftrightarrow> i < length (dependency_events ctx) \<and>
        dependency_events ctx ! i = \<lparr>dev_dependency_index = d, dev_event_name = nm\<rparr>"
      using ew d(1) by (simp add: dependency_events_wf_def)
    then show ?thesis using True that by simp
  qed
  have "dependencies_wf ?c = dependencies_wf ctx" by (rule dependencies_wf_frame) (simp_all add: c)
  moreover have "imports_wf ?c = imports_wf ctx" by (rule imports_wf_frame) (simp_all add: c)
  moreover have "reference_symbols_wf ?c = reference_symbols_wf ctx"
    by (rule reference_symbols_wf_frame) (simp_all add: c)
  moreover have "dependency_events_wf ?c"
    unfolding dependency_events_wf_def
  proof (intro conjI allI impI)
    show "\<forall>e\<in>set (dependency_events ?c). dev_dependency_index e < length (dependencies ?c)"
      using ew d by (auto simp: c dependency_events_wf_def)
    fix d' nm' i assume "d' < length (dependencies ?c)"
    then have d': "d' < length (dependencies ctx)" by (simp add: c)
    with ew have old: "map_of (dependency_events_by_name ctx ! d') nm' = Some i \<longleftrightarrow>
        i < length (dependency_events ctx) \<and>
        dependency_events ctx ! i = \<lparr>dev_dependency_index = d', dev_event_name = nm'\<rparr>"
      by (simp add: dependency_events_wf_def)
    show "map_of (dependency_events_by_name ?c ! d') nm' = Some i \<longleftrightarrow>
        i < length (dependency_events ?c) \<and>
        dependency_events ?c ! i = \<lparr>dev_dependency_index = d', dev_event_name = nm'\<rparr>"
      using old d fresh [of i]
      by (auto simp: c nth_list_update nth_append less_Suc_eq split: if_splits)
  qed
  ultimately show ?thesis using wf by (simp add: context_wf_def)
qed

lemma add_event_symbol_wf:
  assumes wf: "context_wf ctx"
  shows "context_wf (add_event_symbol nm ctx)"
proof -
  let ?c = "add_event_symbol nm ctx"
  have rw: "reference_symbols_wf ctx" using wf by (simp add: context_wf_def)
  have "dependencies_wf ?c = dependencies_wf ctx"
    by (rule dependencies_wf_frame) (simp_all add: add_event_symbol_def)
  moreover have "dependency_events_wf ?c = dependency_events_wf ctx"
    by (rule dependency_events_wf_frame) (simp_all add: add_event_symbol_def)
  moreover have "imports_wf ?c = imports_wf ctx"
    by (rule imports_wf_frame) (simp_all add: add_event_symbol_def)
  moreover have "reference_symbols_wf ?c"
    unfolding reference_symbols_wf_def
  proof (intro conjI allI impI)
    show "length (reference_sections ?c) \<le> unat SectionEvent"
      using rw by (simp add: add_event_symbol_def reference_symbols_wf_def)
    fix nm' ref assume ref: "map_of (reference_symbols_by_name ?c) nm' = Some ref"
    show "\<exists>sym. get_reference_symbol ?c (sref_section_index ref) (sref_symbol_index ref) = Some sym \<and>
        rsym_name sym = nm' \<and> rsym_section_index sym = sref_section_index ref"
    proof (cases "nm' = nm")
      case True
      with ref show ?thesis
        by (auto simp: add_event_symbol_def get_reference_symbol_def nth_opt_def special_section_defs
            event_symbol_of_def)
    next
      case False
      with ref rw obtain sym where
        sym: "get_reference_symbol ctx (sref_section_index ref) (sref_symbol_index ref) = Some sym"
        "rsym_name sym = nm'" "rsym_section_index sym = sref_section_index ref"
        by (auto simp: add_event_symbol_def reference_symbols_wf_def)
      then have "get_reference_symbol ?c (sref_section_index ref) (sref_symbol_index ref) = Some sym"
        by (auto simp: add_event_symbol_def get_reference_symbol_def nth_opt_def nth_append split: if_splits)
      with sym show ?thesis by blast
    qed
  qed
  ultimately show ?thesis using wf by (simp add: context_wf_def)
qed

lemma add_reference_symbol_wf:
  assumes wf: "context_wf ctx"
  shows "context_wf (snd (add_reference_symbol nm sec vram is_fn ctx))"
proof (cases "fst (add_reference_symbol nm sec vram is_fn ctx)")
  case False
  then show ?thesis using wf by (auto simp: add_reference_symbol_def Let_def split: if_splits)
next
  case True
  let ?c = "snd (add_reference_symbol nm sec vram is_fn ctx)"
  let ?ref = "\<lparr>sref_section_index = sec, sref_symbol_index = length (reference_symbols ctx)\<rparr>"
  have rw: "reference_symbols_wf ctx" using wf by (simp add: context_wf_def)
  from True obtain off where c: "?c = ctx\<lparr>
      reference_symbols_by_name := emplace nm ?ref (reference_symbols_by_name ctx),
      reference_symbols := reference_symbols ctx @ [\<lparr>rsym_name = nm, rsym_section_index = sec,
        rsym_section_offset = off, rsym_is_function = is_fn\<rparr>]\<rparr>"
    by (auto simp: add_reference_symbol_def Let_def split: if_splits)
  have "sec = SectionAbsolute \<or> unat sec < unat SectionEvent"
    using True rw by (auto simp: add_reference_symbol_def Let_def reference_symbols_wf_def split: if_splits)
  then have sec: "sec \<noteq> SectionImport" "sec \<noteq> SectionEvent"
    by (auto simp: special_section_defs)
  have "dependencies_wf ?c = dependencies_wf ctx" by (rule dependencies_wf_frame) (simp_all add: c)
  moreover have "dependency_events_wf ?c = dependency_events_wf ctx"
    by (rule dependency_events_wf_frame) (simp_all add: c)
  moreover have "imports_wf ?c = imports_wf ctx" by (rule imports_wf_frame) (simp_all add: c)
  moreover have "reference_symbols_wf ?c"
    unfolding reference_symbols_wf_def
  proof (intro conjI allI impI)
    show "length (reference_sections ?c) \<le> unat SectionEvent"
      using rw by (simp add: c reference_symbols_wf_def)
    fix nm' ref assume ref: "map_of (reference_symbols_by_name ?c) nm' = Some ref"
    show "\<exists>sym. get_reference_symbol ?c (sref_section_index ref) (sref_symbol_index ref) = Some sym \<and>
        rsym_name sym = nm' \<and> rsym_section_index sym = sref_section_index ref"
    proof (cases "map_of (reference_symbols_by_name ctx) nm = None \<and> nm' = nm")
      case True
      then have "ref = ?ref" using ref by (simp add: c map_of_emplace)
      with True sec show ?thesis by (simp add: c get_reference_symbol_def nth_opt_def)
    next
      case False
      with ref rw obtain sym where
        sym: "get_reference_symbol ctx (sref_section_index ref) (sref_symbol_index ref) = Some sym"
        "rsym_name sym = nm'" "rsym_section_index sym = sref_section_index ref"
        by (auto simp: c map_of_emplace reference_symbols_wf_def split: if_splits)
      then have "get_reference_symbol ?c (sref_section_index ref) (sref_symbol_index ref) = Some sym"
        by (auto simp: c get_reference_symbol_def nth_opt_def nth_append split: if_splits)
      with sym show ?thesis by blast
    qed
  qed
  ultimately show ?thesis using wf by (simp add: context_wf_def)
qed

lemma add_callback_wf: "context_wf ctx \<Longrightarrow> context_wf (snd (add_callback e f ctx))"
  using reference_symbols_wf_frame [of "snd (add_callback e f ctx)" ctx]
  by (simp add: context_wf_def add_callback_def dependencies_wf_def dependency_events_wf_def imports_wf_def)

section \<open>The two indices of the symbol file\<close>

definition event_keys :: "recompiler_context \<Rightarrow> (nat \<times> string) list" where
  "event_keys ctx = map (\<lambda>e. (dev_dependency_index e, dev_event_name e)) (dependency_events ctx)"

definition event_lookup :: "recompiler_context \<Rightarrow> nat \<times> string \<Rightarrow> nat option" where
  "event_lookup ctx k =
     (if fst k < length (dependencies_by_name ctx)
      then map_of (dependency_events_by_name ctx ! fst k) (snd k) else None)"

definition event_register :: "nat \<times> string \<Rightarrow> recompiler_context \<Rightarrow> recompiler_context" where
  "event_register k ctx = snd (add_dependency_event (snd k) (fst k) ctx)"

lemma dependencies_by_name_length: "dependencies_wf ctx \<Longrightarrow> length (dependencies_by_name ctx) = length (dependencies ctx)"
  by (simp add: dependencies_wf_def)

lemma dep_lookup_iff:
  "context_wf ctx \<Longrightarrow> map_of (dependencies_by_name ctx) k = Some i \<longleftrightarrow>
     i < length (dependencies ctx) \<and> dependencies ctx ! i = k"
  using map_of_zip_upt [of "dependencies ctx" k i] unfolding context_wf_def dependencies_wf_def
  by metis

lemma dep_register_entries:
  "context_wf ctx \<Longrightarrow> dependencies (snd (add_dependency k ctx)) =
     (if k \<in> set (dependencies ctx) then dependencies ctx else dependencies ctx @ [k])"
  by (simp add: context_wf_def add_dependency_eq)

interpretation dep_index: name_index context_wf "\<lambda>_ _. True" dependencies
  "\<lambda>ctx. map_of (dependencies_by_name ctx)" "\<lambda>dep ctx. snd (add_dependency dep ctx)"
  by unfold_locales (simp_all add: dep_lookup_iff dep_register_entries add_dependency_wf)

lemma event_register_dependencies: "dependencies (event_register k ctx) = dependencies ctx"
  by (auto simp: event_register_def add_dependency_event_def Let_def split: option.splits)

lemma event_lookup_iff:
  assumes "context_wf ctx" and "fst k < length (dependencies ctx)"
  shows "event_lookup ctx k = Some i \<longleftrightarrow> i < length (event_keys ctx) \<and> event_keys ctx ! i = k"
proof -
  have "map_of (dependency_events_by_name ctx ! fst k) (snd k) = Some i \<longleftrightarrow>
      i < length (dependency_events ctx) \<and>
      dependency_events ctx ! i = \<lparr>dev_dependency_index = fst k, dev_event_name = snd k\<rparr>"
    using assms by (simp add: context_wf_def dependency_events_wf_def)
  moreover have "length (dependencies_by_name ctx) = length (dependencies ctx)"
    using assms by (simp add: context_wf_def dependencies_by_name_length)
  ultimately show ?thesis using assms(2)
    by (cases k) (auto simp: event_lookup_def event_keys_def intro!: dependency_event.equality)
qed

interpretation event_index: name_index context_wf "\<lambda>ctx k. fst k < length (dependencies ctx)"
  event_keys event_lookup event_register
proof unfold_locales
  fix s :: recompiler_context and k :: "nat \<times> string"
  assume wf: "context_wf s" and k: "fst k < length (dependencies s)"
  have len: "length (dependencies_by_name s) = length (dependencies s)"
    using wf by (simp add: context_wf_def dependencies_by_name_length)
  have none: "map_of (dependency_events_by_name s ! fst k) (snd k) = None \<longleftrightarrow> k \<notin> set (event_keys s)"
  proof -
    have "event_lookup s k = None \<longleftrightarrow> k \<notin> set (event_keys s)"
      by (metis event_lookup_iff in_set_conv_nth k not_Some_eq wf)
    then show ?thesis using k len by (simp add: event_lookup_def)
  qed
  show "event_keys (event_register k s) =
      (if k \<in> set (event_keys s) then event_keys s else event_keys s @ [k])"
    using none k len
    by (auto simp: event_register_def add_dependency_event_def Let_def event_keys_def split: option.splits)
next
  fix s k assume "context_wf s" "k \<in> set (event_keys s)"
  then show "fst k < length (dependencies s)"
    by (auto simp: event_keys_def context_wf_def dependency_events_wf_def)
qed (simp_all add: event_lookup_iff event_register_dependencies,
     simp add: event_register_def add_dependency_event_wf)

end
