(* ===== verification/Context_Reachability.thy ===== *)
theory Context_Reachability
  imports Context_Invariants
begin

text \<open>
  The step relation of \<open>Context\<close>: which contexts any sequence of its methods can build, and what
  holds of all of them (\<open>include/recompiler/context.h\<close>).
\<close>

section \<open>Reachable contexts\<close>

text \<open>The contexts the mod pipeline can build: any sequence of the registration methods, starting from an
  empty context whose reference sections were loaded from a reference program. A section index is a
  16-bit number below the special ones, so there are at most \<open>SectionEvent\<close> sections. A list of dependencies
  registered at once has no name twice: \<open>add_dependencies\<close> does not look for that, and a list with a repeated
  name leaves an index that is not the position (\<open>repeated_dependency\<close> below).\<close>

inductive reachable_context :: "recompiler_context \<Rightarrow> bool" where
  loaded: "length rs \<le> unat SectionEvent \<Longrightarrow> reachable_context (context_default\<lparr>reference_sections := rs\<rparr>)"
| dependency_added: "reachable_context ctx \<Longrightarrow> reachable_context (snd (add_dependency dep ctx))"
| dependencies_added: "reachable_context ctx \<Longrightarrow> distinct deps \<Longrightarrow> reachable_context (snd (add_dependencies deps ctx))"
| dependency_found: "reachable_context ctx \<Longrightarrow> reachable_context (snd (find_dependency dep ctx))"
| import_added: "reachable_context ctx \<Longrightarrow> add_import_symbol nm d ctx = Some ctx' \<Longrightarrow> reachable_context ctx'"
| dependency_event_added: "reachable_context ctx \<Longrightarrow> reachable_context (snd (add_dependency_event nm d ctx))"
| event_added: "reachable_context ctx \<Longrightarrow> reachable_context (add_event_symbol nm ctx)"
| reference_added: "reachable_context ctx \<Longrightarrow> reachable_context (snd (add_reference_symbol nm sec vram is_fn ctx))"
| callback_added: "reachable_context ctx \<Longrightarrow> reachable_context (snd (add_callback e f ctx))"
| sections_copied: "reachable_context ctx \<Longrightarrow> reachable_context rhs \<Longrightarrow>
    reachable_context (copy_reference_sections_from rhs ctx)"
| made_relocatable: "reachable_context ctx \<Longrightarrow> reachable_context (set_all_reference_sections_relocatable ctx)"

lemma reachable_default: "reachable_context context_default"
  using loaded [of "[]"] by (simp add: context_default_def)

lemma loaded_wf: "length rs \<le> unat SectionEvent \<Longrightarrow> context_wf (context_default\<lparr>reference_sections := rs\<rparr>)"
  by (simp add: context_wf_defs context_default_def)

lemma copy_reference_sections_wf:
  assumes "context_wf ctx" and "context_wf rhs"
  shows "context_wf (copy_reference_sections_from rhs ctx)"
proof -
  let ?c = "copy_reference_sections_from rhs ctx"
  have "get_reference_symbol ?c = get_reference_symbol ctx"
    by (rule get_reference_symbol_cong) (simp_all add: copy_reference_sections_from_def)
  then have "reference_symbols_wf ?c"
    using assms unfolding context_wf_def reference_symbols_wf_def
    by (simp add: copy_reference_sections_from_def)
  then show ?thesis using assms(1)
    by (simp add: context_wf_def copy_reference_sections_from_def dependencies_wf_def dependency_events_wf_def imports_wf_def)
qed

lemma set_relocatable_wf: "context_wf ctx \<Longrightarrow> context_wf (set_all_reference_sections_relocatable ctx)"
  using reference_symbols_wf_frame [of "set_all_reference_sections_relocatable ctx" ctx]
  by (simp add: context_wf_def set_all_reference_sections_relocatable_def dependencies_wf_def dependency_events_wf_def imports_wf_def)

lemma dependency_clash:
  assumes "context_wf ctx"
  shows "(\<exists>dep\<in>set deps. map_of (dependencies_by_name ctx) dep \<noteq> None) \<longleftrightarrow> set deps \<inter> set (dependencies ctx) \<noteq> {}"
  unfolding dep_index.lookup_None_iff [OF assms TrueI] by blast

lemma add_dependencies_wf:
  assumes "context_wf ctx" and "distinct deps"
  shows "context_wf (snd (add_dependencies deps ctx))"
proof (cases "set deps \<inter> set (dependencies ctx) = {}")
  case True
  have "context_wf (fold (\<lambda>d c. snd (add_dependency d c)) deps ctx)"
    using assms(1) by (induction deps arbitrary: ctx) (simp_all add: add_dependency_wf)
  moreover have "dependencies_wf ctx" using assms(1) by (simp add: context_wf_def)
  ultimately show ?thesis using add_dependencies_fold [OF _ assms(2) True] by simp
next
  case False
  then show ?thesis using dependency_clash [OF assms(1)] assms(1) by (simp add: add_dependencies_def)
qed

text \<open>What a repeated name does.\<close>

lemma repeated_dependency:
  "dependencies (snd (add_dependencies [''a'', ''a''] context_default)) = [''a'', ''a'']"
  "dependencies_by_name (snd (add_dependencies [''a'', ''a''] context_default)) = [(''a'', 0)]"
  by code_simp+

lemmas context_step_wf = loaded_wf add_dependency_wf add_dependencies_wf find_dependency_wf add_import_symbol_wf
  add_dependency_event_wf add_event_symbol_wf add_reference_symbol_wf add_callback_wf
  copy_reference_sections_wf set_relocatable_wf

lemma reachable_wf: "reachable_context ctx \<Longrightarrow> context_wf ctx"
  by (induction rule: reachable_context.induct) (auto intro: context_step_wf)

text \<open>C25: in every context that is built from an empty one with at most \<open>SectionEvent\<close> reference sections by registering
  and finding dependencies (several at once with distinct names), registering dependency events, imports, events, reference symbols and
  callbacks, copying reference sections and making them relocatable, the name indices agree with the lists they
  index: dependency names are distinct and found at their position, each dependency event is found under its
  dependency and name and nowhere else, imports and reference symbols resolve to entries of their name.\<close>

theorem reachable_contexts_consistent:
  assumes "reachable_context ctx"
  shows "distinct (dependencies ctx) \<and>
    (\<forall>dep i. map_of (dependencies_by_name ctx) dep = Some i \<longleftrightarrow> i < length (dependencies ctx) \<and> dependencies ctx ! i = dep) \<and>
    distinct (event_keys ctx) \<and> imports_wf ctx \<and> reference_symbols_wf ctx"
  using reachable_wf [OF assms] dep_index.entries_distinct event_index.entries_distinct
  by (simp add: dep_lookup_iff) (simp add: context_wf_def)

lemma reachable_contexts_consistent_witness:
  defines "ctx \<equiv> add_event_symbol ''on_init'' (snd (add_dependency_event ''tick'' 0
    (snd (add_dependencies [''a'', ''b''] (snd (find_dependency ''*'' context_default))))))"
  shows "reachable_context ctx \<and> distinct (event_keys ctx) \<and> event_keys ctx = [(0, ''tick'')]"
proof -
  have r: "reachable_context ctx"
    unfolding ctx_def by (intro event_added dependency_event_added dependencies_added dependency_found reachable_default) simp
  have "event_keys ctx = [(0, ''tick'')]" unfolding ctx_def by code_simp
  then show ?thesis using r reachable_contexts_consistent [OF r] by blast
qed

lemma add_dependency_event_index:
  assumes "context_wf ctx" and "d < length (dependencies ctx)"
  shows "fst (add_dependency_event nm d ctx) =
    Some (case event_lookup ctx (d, nm) of Some i \<Rightarrow> i | None \<Rightarrow> length (event_keys ctx))"
  using assms by (auto simp: event_lookup_def add_dependency_event_def Let_def event_keys_def
      context_wf_def dependencies_wf_def split: option.splits)

text \<open>An index handed out for a dependency event points at that event and stays valid: whatever is
  registered afterwards, registering the event again gives the same index.\<close>

lemma dependency_event_index_stable:
  assumes "reachable_context ctx" and "d < length (dependencies ctx)" and "d' < length (dependencies ctx)"
    and "add_dependency_event nm d ctx = (Some i, ctx')"
  shows "i < length (dependency_events ctx') \<and>
    dependency_events ctx' ! i = \<lparr>dev_dependency_index = d, dev_event_name = nm\<rparr> \<and>
    fst (add_dependency_event nm d (snd (add_dependency_event nm' d' ctx'))) = Some i"
proof -
  let ?c = "event_register (d', nm') ctx'"
  have wf: "context_wf ctx" using assms(1) by (rule reachable_wf)
  have c': "ctx' = event_register (d, nm) ctx" using assms(4) by (simp add: event_register_def)
  have wf': "context_wf ctx'" unfolding c' using event_index.register_inv [OF wf] assms(2) by simp
  have deps: "dependencies ctx' = dependencies ctx" "dependencies ?c = dependencies ctx"
    unfolding c' by (simp_all add: event_register_dependencies)
  have key: "event_lookup ctx' (d, nm) = Some i"
    using event_index.lookup_register [OF wf, of "(d, nm)"] add_dependency_event_index [OF wf assms(2), of nm] assms(2,4)
    by (simp add: c')
  then have "event_lookup ?c (d, nm) = Some i"
    using event_index.lookup_stable [OF wf', of "(d, nm)" "(d', nm')"] assms(2,3) deps by simp
  moreover have "context_wf ?c" using event_index.register_inv [OF wf', of "(d', nm')"] assms(3) deps by simp
  ultimately have "fst (add_dependency_event nm d ?c) = Some i"
    using add_dependency_event_index [of ?c d nm] assms(2) deps by simp
  moreover have "i < length (event_keys ctx') \<and> event_keys ctx' ! i = (d, nm)"
    using event_index.lookup_iff [OF wf', of "(d, nm)" i] key assms(2) deps by simp
  ultimately show ?thesis
    by (auto simp: event_register_def event_keys_def intro: dependency_event.equality)
qed

lemma dependency_event_index_stable_example:
  defines "ctx \<equiv> snd (find_dependency ''*'' context_default)"
  shows "\<exists>ctx'. add_dependency_event ''tick'' 0 ctx = (Some 0, ctx') \<and>
    fst (add_dependency_event ''tick'' 0 (snd (add_dependency_event ''draw'' 0 ctx'))) = Some 0"
proof -
  have r: "reachable_context ctx" unfolding ctx_def by (intro dependency_found reachable_default)
  have d: "0 < length (dependencies ctx)" unfolding ctx_def by code_simp
  have "fst (add_dependency_event ''tick'' 0 ctx) = Some 0" unfolding ctx_def by code_simp
  then have e: "add_dependency_event ''tick'' 0 ctx = (Some 0, snd (add_dependency_event ''tick'' 0 ctx))"
    by (simp add: prod_eq_iff)
  show ?thesis using e dependency_event_index_stable [OF r d d e, of "''draw''"] by blast
qed

lemma reference_symbol_resolves:
  assumes "reference_symbols_wf ctx" and "find_reference_symbol ctx nm = Some ref"
  obtains sym where "get_reference_symbol ctx (sref_section_index ref) (sref_symbol_index ref) = Some sym"
    and "rsym_name sym = nm" and "rsym_section_index sym = sref_section_index ref"
  using assms by (auto simp: reference_symbols_wf_def find_reference_symbol_def)

text \<open>C26: a reference symbol that is found by name resolves, without an index out of range, to a symbol of
  that name in the section the reference names; an event symbol resolves to one of the event section.\<close>

theorem found_symbols_resolve:
  assumes "reachable_context ctx"
  shows "(find_reference_symbol ctx nm = Some ref \<longrightarrow>
      (\<exists>sym. get_reference_symbol ctx (sref_section_index ref) (sref_symbol_index ref) = Some sym \<and>
         rsym_name sym = nm \<and> rsym_section_index sym = sref_section_index ref)) \<and>
    (find_event_symbol ctx nm = Some ref \<longrightarrow>
      (\<exists>sym. get_reference_symbol ctx SectionEvent (sref_symbol_index ref) = Some sym \<and> rsym_name sym = nm)) \<and>
    (find_import_symbol ctx nm d = Some ref \<longrightarrow>
      get_reference_symbol ctx SectionImport (sref_symbol_index ref) = Some (imp_base (import_symbol_of nm d)))"
proof -
  have wf: "context_wf ctx" using assms by (rule reachable_wf)
  have r: "reference_symbols_wf ctx" using wf by (simp add: context_wf_def)
  have "get_reference_symbol ctx SectionImport (sref_symbol_index ref) = Some (imp_base (import_symbol_of nm d))"
    if f: "find_import_symbol ctx nm d = Some ref"
  proof -
    obtain z where d: "d < length (dependencies ctx)" "map_of (dependency_imports_by_name ctx ! d) nm = Some z"
      and ref: "ref = \<lparr>sref_section_index = SectionImport, sref_symbol_index = z\<rparr>"
      using f wf by (auto simp: find_import_symbol_def context_wf_def dependencies_wf_def split: if_splits)
    have "z < length (import_symbols ctx) \<and> import_symbols ctx ! z = import_symbol_of nm d"
      using wf d unfolding context_wf_def imports_wf_def by blast
    then show ?thesis by (simp add: ref get_reference_symbol_def nth_opt_def)
  qed
  moreover have ev: "find_reference_symbol ctx nm = Some ref \<and> sref_section_index ref = SectionEvent"
    if "find_event_symbol ctx nm = Some ref"
    using that by (auto simp: find_event_symbol_def split: option.splits if_splits)
  moreover have "\<exists>sym. get_reference_symbol ctx (sref_section_index ref) (sref_symbol_index ref) = Some sym \<and>
      rsym_name sym = nm \<and> rsym_section_index sym = sref_section_index ref"
    if "find_reference_symbol ctx nm = Some ref"
    using reference_symbol_resolves [OF r that] by blast
  ultimately show ?thesis by metis
qed

lemma found_symbols_resolve_witness:
  defines "ctx \<equiv> add_event_symbol ''on_init'' context_default"
  shows "\<exists>sym. get_reference_symbol ctx SectionEvent 0 = Some sym \<and> rsym_name sym = ''on_init''"
proof -
  have r: "reachable_context ctx" unfolding ctx_def by (intro event_added reachable_default)
  have "find_event_symbol ctx ''on_init'' = Some \<lparr>sref_section_index = SectionEvent, sref_symbol_index = 0\<rparr>"
    unfolding ctx_def by code_simp
  then show ?thesis using found_symbols_resolve [OF r, of "''on_init''"] by fastforce
qed

text \<open>C27: registering several new dependencies at once is registering them one by one; it is refused,
  and changes nothing, exactly when one of them exists.\<close>

theorem add_dependencies_sequential:
  assumes "reachable_context ctx" and "distinct deps"
  shows "add_dependencies deps ctx =
    (if set deps \<inter> set (dependencies ctx) = {} then (True, fold (\<lambda>d c. snd (add_dependency d c)) deps ctx)
     else (False, ctx))"
proof -
  have wf: "context_wf ctx" using assms(1) by (rule reachable_wf)
  then have d: "dependencies_wf ctx" by (simp add: context_wf_def)
  from dependency_clash [OF wf] show ?thesis
    using add_dependencies_fold [OF d assms(2)] by (auto simp: add_dependencies_def)
qed

lemma add_dependencies_sequential_witness:
  "add_dependencies [''a'', ''b''] context_default =
     (True, fold (\<lambda>d c. snd (add_dependency d c)) [''a'', ''b''] context_default)"
proof -
  have "dependencies context_default = []" by (simp add: context_default_def)
  then show ?thesis
    using add_dependencies_sequential [OF reachable_default, of "[''a'', ''b'']"] by simp
qed

end
