(* ===== verification/CGenerator.thy ===== *)
theory CGenerator
  imports Context
begin

text \<open>
  The C backend, \<open>src/cgenerator.cpp\<close>: each method of \<open>CGenerator\<close> is a function giving the
  text it prints.

  \<^item> \<open>None\<close> is the end of the program: an \<open>assert\<close> that fails (assertions enabled), an uncaught
    exception, or an index into a vector out of range.
  \<^item> Registers, shift amounts and indices are \<open>nat\<close>; \<open>std::set<uint32_t>\<close> is its sorted list.
\<close>

section \<open>Printing\<close>

definition line :: "string \<Rightarrow> string" where
  "line s = s @ [CHR 0x0A]"

definition print_lines :: "string list \<Rightarrow> string" where
  "print_lines ls = concat (map line ls)"

definition L_label :: "u32 \<Rightarrow> string" where
  "L_label vram = ''L_'' @ fmt_08X vram"

record instruction_context =
  ic_rd :: nat
  ic_rs :: nat
  ic_rt :: nat
  ic_sa :: nat
  ic_fd :: nat
  ic_fs :: nat
  ic_ft :: nat
  ic_cop1_cs :: nat
  ic_imm16 :: u16
  ic_reloc_tag_as_reference :: bool
  ic_reloc_type :: reloc_type
  ic_reloc_section_index :: u32
  ic_reloc_target_section_offset :: u32

section \<open>Notation of the operations\<close>

fun binary_op_notation :: "binary_op_type \<Rightarrow> string \<times> string" where
  "binary_op_notation B_Add32 = (''ADD32'', '''')"
| "binary_op_notation B_Sub32 = (''SUB32'', '''')"
| "binary_op_notation B_Add64 = ('''', ''+'')"
| "binary_op_notation B_Sub64 = ('''', ''-'')"
| "binary_op_notation B_AddFloat = ('''', ''+'')"
| "binary_op_notation B_AddDouble = ('''', ''+'')"
| "binary_op_notation B_SubFloat = ('''', ''-'')"
| "binary_op_notation B_SubDouble = ('''', ''-'')"
| "binary_op_notation B_MulFloat = (''MUL_S'', '''')"
| "binary_op_notation B_MulDouble = (''MUL_D'', '''')"
| "binary_op_notation B_DivFloat = (''DIV_S'', '''')"
| "binary_op_notation B_DivDouble = (''DIV_D'', '''')"
| "binary_op_notation B_And64 = ('''', ''&'')"
| "binary_op_notation B_Or64 = ('''', ''|'')"
| "binary_op_notation B_Nor64 = (''~'', ''|'')"
| "binary_op_notation B_Xor64 = ('''', ''^'')"
| "binary_op_notation B_Sll32 = (''S32'', ''<<'')"
| "binary_op_notation B_Sll64 = ('''', ''<<'')"
| "binary_op_notation B_Srl32 = (''S32'', ''>>'')"
| "binary_op_notation B_Srl64 = ('''', ''>>'')"
| "binary_op_notation B_Sra32 = (''S32'', ''>>'')"
| "binary_op_notation B_Sra64 = ('''', ''>>'')"
| "binary_op_notation B_Equal = ('''', ''=='')"
| "binary_op_notation B_NotEqual = ('''', ''!='')"
| "binary_op_notation B_Less = ('''', ''<'')"
| "binary_op_notation B_LessEq = ('''', ''<='')"
| "binary_op_notation B_Greater = ('''', ''>'')"
| "binary_op_notation B_GreaterEq = ('''', ''>='')"
| "binary_op_notation B_EqualFloat = ('''', ''=='')"
| "binary_op_notation B_LessFloat = ('''', ''<'')"
| "binary_op_notation B_LessEqFloat = ('''', ''<='')"
| "binary_op_notation B_EqualDouble = ('''', ''=='')"
| "binary_op_notation B_LessDouble = ('''', ''<'')"
| "binary_op_notation B_LessEqDouble = ('''', ''<='')"
| "binary_op_notation B_LD = (''LD'', '''')"
| "binary_op_notation B_LW = (''MEM_W'', '''')"
| "binary_op_notation B_LWU = (''MEM_WU'', '''')"
| "binary_op_notation B_LH = (''MEM_H'', '''')"
| "binary_op_notation B_LHU = (''MEM_HU'', '''')"
| "binary_op_notation B_LB = (''MEM_B'', '''')"
| "binary_op_notation B_LBU = (''MEM_BU'', '''')"
| "binary_op_notation B_LDL = (''do_ldl'', '''')"
| "binary_op_notation B_LDR = (''do_ldr'', '''')"
| "binary_op_notation B_LWL = (''do_lwl'', '''')"
| "binary_op_notation B_LWR = (''do_lwr'', '''')"
| "binary_op_notation B_True = ('''', '''')"
| "binary_op_notation B_False = ('''', '''')"
| "binary_op_notation B_COUNT = ('''', '''')"

fun unary_affixes :: "unary_op_type \<Rightarrow> string \<times> string" where
  "unary_affixes U_None = ('''', '''')"
| "unary_affixes U_ToS32 = (''S32('', '')'')"
| "unary_affixes U_ToU32 = (''U32('', '')'')"
| "unary_affixes U_ToS64 = (''SIGNED('', '')'')"
| "unary_affixes U_ToU64 = ('''', '''')"
| "unary_affixes U_Lui = (''S32(U32('', '') << 16)'')"
| "unary_affixes U_Mask5 = (''('', '' & 31)'')"
| "unary_affixes U_Mask6 = (''('', '' & 63)'')"
| "unary_affixes U_ToInt32 = (''(int32_t)'', '''')"
| "unary_affixes U_NegateFloat = (''-'', '''')"
| "unary_affixes U_NegateDouble = (''-'', '''')"
| "unary_affixes U_AbsFloat = (''fabsf('', '')'')"
| "unary_affixes U_AbsDouble = (''fabs('', '')'')"
| "unary_affixes U_SqrtFloat = (''sqrtf('', '')'')"
| "unary_affixes U_SqrtDouble = (''sqrt('', '')'')"
| "unary_affixes U_ConvertSFromW = (''CVT_S_W('', '')'')"
| "unary_affixes U_ConvertWFromS = (''CVT_W_S('', '')'')"
| "unary_affixes U_ConvertDFromW = (''CVT_D_W('', '')'')"
| "unary_affixes U_ConvertWFromD = (''CVT_W_D('', '')'')"
| "unary_affixes U_ConvertDFromS = (''CVT_D_S('', '')'')"
| "unary_affixes U_ConvertSFromD = (''CVT_S_D('', '')'')"
| "unary_affixes U_ConvertDFromL = (''CVT_D_L('', '')'')"
| "unary_affixes U_ConvertLFromD = (''CVT_L_D('', '')'')"
| "unary_affixes U_ConvertSFromL = (''CVT_S_L('', '')'')"
| "unary_affixes U_ConvertLFromS = (''CVT_L_S('', '')'')"
| "unary_affixes U_TruncateWFromS = (''TRUNC_W_S('', '')'')"
| "unary_affixes U_TruncateWFromD = (''TRUNC_W_D('', '')'')"
| "unary_affixes U_TruncateLFromS = (''TRUNC_L_S('', '')'')"
| "unary_affixes U_TruncateLFromD = (''TRUNC_L_D('', '')'')"
| "unary_affixes U_RoundWFromS = (''lroundf('', '')'')"
| "unary_affixes U_RoundWFromD = (''lround('', '')'')"
| "unary_affixes U_RoundLFromS = (''llroundf('', '')'')"
| "unary_affixes U_RoundLFromD = (''llround('', '')'')"
| "unary_affixes U_CeilWFromS = (''S32(ceilf('', ''))'')"
| "unary_affixes U_CeilWFromD = (''S32(ceil('', ''))'')"
| "unary_affixes U_CeilLFromS = (''S64(ceilf('', ''))'')"
| "unary_affixes U_CeilLFromD = (''S64(ceil('', ''))'')"
| "unary_affixes U_FloorWFromS = (''S32(floorf('', ''))'')"
| "unary_affixes U_FloorWFromD = (''S32(floor('', ''))'')"
| "unary_affixes U_FloorLFromS = (''S64(floorf('', ''))'')"
| "unary_affixes U_FloorLFromD = (''S64(floor('', ''))'')"

section \<open>Operands and expressions\<close>

definition gpr_to_string :: "nat \<Rightarrow> string" where
  "gpr_to_string gpr_index = (if gpr_index = 0 then ''0'' else ''ctx->r'' @ fmt_nat gpr_index)"

definition fpr_to_string :: "nat \<Rightarrow> string" where
  "fpr_to_string fpr_index = ''ctx->f'' @ fmt_nat fpr_index @ ''.fl''"

definition fpr_double_to_string :: "nat \<Rightarrow> string" where
  "fpr_double_to_string fpr_index = ''ctx->f'' @ fmt_nat fpr_index @ ''.d''"

definition fpr_u32l_to_string :: "nat \<Rightarrow> string" where
  "fpr_u32l_to_string fpr_index =
     (if odd fpr_index then ''ctx->f_odd[('' @ fmt_nat fpr_index @ '' - 1) * 2]''
      else ''ctx->f'' @ fmt_nat fpr_index @ ''.u32l'')"

definition fpr_u64_to_string :: "nat \<Rightarrow> string" where
  "fpr_u64_to_string fpr_index = ''ctx->f'' @ fmt_nat fpr_index @ ''.u64''"

definition is_zero_gpr_operand :: "operand \<Rightarrow> instruction_context \<Rightarrow> bool" where
  "is_zero_gpr_operand opnd ctx = (case opnd of
       O_Rd \<Rightarrow> ic_rd ctx = 0
     | O_Rs \<Rightarrow> ic_rs ctx = 0
     | O_Rt \<Rightarrow> ic_rt ctx = 0
     | _ \<Rightarrow> False)"

definition unsigned_reloc :: "instruction_context \<Rightarrow> string option" where
  "unsigned_reloc context =
     (let ref_prefix = (if ic_reloc_tag_as_reference context then ''REF_'' else '''');
          args = fmt_nat (unat (ic_reloc_section_index context)) @ '', '' @
            fmt_hash_X (unat (ic_reloc_target_section_offset context)) @ '')''
      in if ic_reloc_type context = R_MIPS_HI16 then Some (ref_prefix @ ''RELOC_HI16('' @ args)
         else if ic_reloc_type context = R_MIPS_LO16 then Some (ref_prefix @ ''RELOC_LO16('' @ args)
         else None)"

definition signed_reloc :: "instruction_context \<Rightarrow> string option" where
  "signed_reloc context = map_option ((@) ''(int16_t)'') (unsigned_reloc context)"

text \<open>The first half of \<open>get_operand_string\<close>: the operand before its pre-operation.\<close>

fun plain_operand_string :: "operand \<Rightarrow> instruction_context \<Rightarrow> string option" where
  "plain_operand_string O_Rd context = Some (gpr_to_string (ic_rd context))"
| "plain_operand_string O_Rs context = Some (gpr_to_string (ic_rs context))"
| "plain_operand_string O_Rt context = Some (gpr_to_string (ic_rt context))"
| "plain_operand_string O_Fd context = Some (fpr_to_string (ic_fd context))"
| "plain_operand_string O_Fs context = Some (fpr_to_string (ic_fs context))"
| "plain_operand_string O_Ft context = Some (fpr_to_string (ic_ft context))"
| "plain_operand_string O_FdDouble context = Some (fpr_double_to_string (ic_fd context))"
| "plain_operand_string O_FsDouble context = Some (fpr_double_to_string (ic_fs context))"
| "plain_operand_string O_FtDouble context = Some (fpr_double_to_string (ic_ft context))"
| "plain_operand_string O_FdU32L context = Some (fpr_u32l_to_string (ic_fd context))"
| "plain_operand_string O_FsU32L context = Some (fpr_u32l_to_string (ic_fs context))"
| "plain_operand_string O_FtU32L context = Some (fpr_u32l_to_string (ic_ft context))"
| "plain_operand_string O_FdU32H context = None"
| "plain_operand_string O_FsU32H context = None"
| "plain_operand_string O_FtU32H context = None"
| "plain_operand_string O_FdU64 context = Some (fpr_u64_to_string (ic_fd context))"
| "plain_operand_string O_FsU64 context = Some (fpr_u64_to_string (ic_fs context))"
| "plain_operand_string O_FtU64 context = Some (fpr_u64_to_string (ic_ft context))"
| "plain_operand_string O_ImmU16 context =
     (if ic_reloc_type context \<noteq> R_MIPS_NONE then unsigned_reloc context
      else Some (fmt_hash_X (unat (ic_imm16 context))))"
| "plain_operand_string O_ImmS16 context =
     (if ic_reloc_type context \<noteq> R_MIPS_NONE then signed_reloc context
      else Some (fmt_hash_X_signed (sint (ic_imm16 context))))"
| "plain_operand_string O_Sa context = Some (fmt_nat (ic_sa context))"
| "plain_operand_string O_Sa32 context = Some (''('' @ fmt_nat (ic_sa context) @ '' + 32)'')"
| "plain_operand_string O_Cop1cs context = Some ''c1cs''"
| "plain_operand_string O_Hi context = Some ''hi''"
| "plain_operand_string O_Lo context = Some ''lo''"
| "plain_operand_string O_Zero context = Some ''0''"

definition get_operand_string :: "operand \<Rightarrow> unary_op_type \<Rightarrow> instruction_context \<Rightarrow> string option" where
  "get_operand_string opnd operation context =
     (let (prefix, suffix) = unary_affixes operation
      in map_option (\<lambda>s. prefix @ s @ suffix) (plain_operand_string opnd context))"

definition get_notation :: "binary_op_type \<Rightarrow> string \<times> string" where
  "get_notation op_type = binary_op_notation op_type"

definition get_binary_expr_string ::
    "binary_op_type \<Rightarrow> binary_operands \<Rightarrow> instruction_context \<Rightarrow> string \<Rightarrow> string option" where
  "get_binary_expr_string type operands ctx output =
     (case (get_operand_string (operand0 operands) (operation0 operands) ctx,
            get_operand_string (operand1 operands) (operation1 operands) ctx) of
        (Some input_a, Some input_b) \<Rightarrow>
          let (func, infx) = get_notation type;
              second_is_plain_zero = (operand1 operands = O_Zero \<and> operation1 operands = U_None)
          in if type = B_Less \<and> \<not> (second_is_plain_zero \<or> operand0 operands = O_Fs \<or> operand0 operands = O_FsDouble)
               then Some (input_a @ '' '' @ infx @ '' '' @ input_b @ '' ? 1 : 0'')
             else if type = B_Equal \<and> second_is_plain_zero then Some (''!'' @ input_a)
             else if type = B_NotEqual \<and> second_is_plain_zero then Some input_a
             else if type = B_LWL \<or> type = B_LWR \<or> type = B_LDL \<or> type = B_LDR
               then Some (func @ ''(rdram, '' @ output @ '', '' @ input_a @ '', '' @ input_b @ '')'')
             else if func \<noteq> '''' \<and> infx \<noteq> ''''
               then Some (func @ ''('' @ input_a @ '' '' @ infx @ '' '' @ input_b @ '')'')
             else if func \<noteq> '''' then Some (func @ ''('' @ input_a @ '', '' @ input_b @ '')'')
             else if infx \<noteq> '''' then Some (input_a @ '' '' @ infx @ '' '' @ input_b)
             else None
      | _ \<Rightarrow> None)"

section \<open>Function calls\<close>

definition emit_call_prologue :: string where
  "emit_call_prologue = print_lines [
     ''{'',
     ''    gpr recomp_call_sp = ctx->r29;'',
     ''    uint32_t recomp_prev_host_return = ctx->host_return_target;'',
     ''    uint32_t recomp_call_host_return = (uint32_t)ctx->r31;'',
     ''    ctx->host_return_target = recomp_call_host_return;'']"

definition cf_note :: "string \<Rightarrow> string" where
  "cf_note tag = ''recomp_cf_note('' @ [CHR 0x22] @ tag @ [CHR 0x22] @
     '', (uint32_t)recomp_call_sp, recomp_prev_host_return, recomp_call_host_return, ctx);''"

definition check_sp :: string where
  "check_sp = ''if (ctx->r29 != recomp_call_sp) { '' @ cf_note ''call-sp-mismatch'' @ '' return; }''"

definition emit_call_epilogue :: string where
  "emit_call_epilogue = print_lines [
     ''    ctx->host_return_target = recomp_prev_host_return;'',
     ''    '' @ check_sp,
     ''}'']"

definition resume_at :: "string \<Rightarrow> string \<Rightarrow> u32 \<Rightarrow> string" where
  "resume_at indent tag vram = print_lines (map ((@) indent) [
     cf_note tag,
     ''ctx->tailcall_pending = 0;'',
     ''ctx->tailcall_target = 0;'',
     ''ctx->tailcall_func = 0;'',
     ''ctx->host_return_target = recomp_prev_host_return;'',
     check_sp,
     ''goto '' @ L_label vram @ '';''])"

definition emit_tailcall_handling :: "u32 list \<Rightarrow> u32 \<Rightarrow> string" where
  "emit_tailcall_handling local_labels return_vram =
     line ''    if (ctx->tailcall_pending) {'' @
     (if return_vram \<noteq> 0 then
        line (''        if (ctx->tailcall_target == 0x'' @ fmt_08X return_vram @ ''u) {'') @
        resume_at ''            '' ''call-return-tailcall'' return_vram @
        line ''        }''
      else '''') @
     (if local_labels \<noteq> [] then
        line ''        if (ctx->tailcall_target != 0) {'' @
        line ''            switch ((uint32_t)ctx->tailcall_target) {'' @
        concat (map (\<lambda>label_vram.
          line (''            case 0x'' @ fmt_08X label_vram @ ''u:'') @
          resume_at ''                '' ''call-local-tailcall'' label_vram) local_labels) @
        line ''            default: break;'' @
        line ''            }'' @
        line ''        }''
      else '''') @
     print_lines [
       ''        if (ctx->tailcall_dispatching >= 64u) {'',
       ''            '' @ cf_note ''call-bubble-dispatch'',
       ''            ctx->host_return_target = recomp_prev_host_return;'',
       ''            return;'',
       ''        }'',
       ''        recomp_handle_tailcalls(rdram, ctx);'',
       ''    }'']"

text \<open>The frame every call shares, around the text of the call.\<close>

definition call_frame :: "string \<Rightarrow> u32 list \<Rightarrow> u32 \<Rightarrow> string" where
  "call_frame call local_labels return_vram =
     emit_call_prologue @ line (''    '' @ call @ ''(rdram, ctx);'') @
     emit_tailcall_handling local_labels return_vram @ emit_call_epilogue"

definition emit_function_call_lookup :: "u32 \<Rightarrow> u32 list \<Rightarrow> u32 \<Rightarrow> string" where
  "emit_function_call_lookup addr = call_frame (''LOOKUP_FUNC(0x'' @ fmt_08X addr @ '')'')"

definition emit_function_call_by_register :: "nat \<Rightarrow> u32 list \<Rightarrow> u32 \<Rightarrow> string" where
  "emit_function_call_by_register reg = call_frame (''LOOKUP_FUNC('' @ gpr_to_string reg @ '')'')"

definition emit_function_call_reference_symbol ::
    "recompiler_context \<Rightarrow> u16 \<Rightarrow> nat \<Rightarrow> u32 list \<Rightarrow> u32 \<Rightarrow> string option" where
  "emit_function_call_reference_symbol context section_index symbol_index local_labels return_vram =
     map_option (\<lambda>symb. call_frame (rsym_name symb) local_labels return_vram)
       (get_reference_symbol context section_index symbol_index)"

definition emit_function_call :: "recompiler_context \<Rightarrow> nat \<Rightarrow> u32 list \<Rightarrow> u32 \<Rightarrow> string option" where
  "emit_function_call context function_index local_labels return_vram =
     map_option (\<lambda>f. call_frame (fn_name f) local_labels return_vram)
       (nth_opt (ctx_functions context) function_index)"

definition emit_named_function_call :: "string \<Rightarrow> u32 list \<Rightarrow> u32 \<Rightarrow> string" where
  "emit_named_function_call function_name = call_frame function_name"

section \<open>Control flow\<close>

definition emit_function_start :: "string \<Rightarrow> string" where
  "emit_function_start function_name = print_lines [
     ''RECOMP_FUNC void '' @ function_name @ ''(uint8_t* rdram, recomp_context* ctx) {'',
     ''    uint64_t hi = 0, lo = 0, result = 0;'',
     ''    int c1cs = 0;'']"

definition emit_function_end :: string where
  "emit_function_end = line '';}''"

definition emit_goto :: "string \<Rightarrow> string" where
  "emit_goto target = line (''    goto '' @ target @ '';'')"

definition emit_label :: "string \<Rightarrow> string" where
  "emit_label label_name = line (label_name @ '':'')"

definition jump_variable :: "jump_table \<Rightarrow> string" where
  "jump_variable jtbl = ''jr_addend_'' @ fmt_08X (jt_jr_vram jtbl)"

definition emit_jtbl_addend_declaration :: "jump_table \<Rightarrow> nat \<Rightarrow> string" where
  "emit_jtbl_addend_declaration jtbl reg = line (''gpr '' @ jump_variable jtbl @ '' = '' @ gpr_to_string reg @ '';'')"

definition emit_branch_condition :: "conditional_branch_op \<Rightarrow> instruction_context \<Rightarrow> string option" where
  "emit_branch_condition op ctx =
     map_option (\<lambda>expr. line (''if ('' @ expr @ '') {''))
       (get_binary_expr_string (cbr_comparison op) (cbr_operands op) ctx '''')"

definition emit_branch_close :: string where
  "emit_branch_close = line ''}''"

definition emit_switch_close :: string where
  "emit_switch_close = line ''}''"

definition emit_switch :: "jump_table \<Rightarrow> string" where
  "emit_switch jtbl = line (''switch ('' @ jump_variable jtbl @ '' >> 2) {'')"

definition emit_case :: "nat \<Rightarrow> string \<Rightarrow> string" where
  "emit_case case_index target_label =
     line (''case '' @ fmt_nat case_index @ '': goto '' @ target_label @ ''; break;'')"

definition emit_switch_error :: "u32 \<Rightarrow> u32 \<Rightarrow> string" where
  "emit_switch_error instr_vram jtbl_vram =
     line (''default: switch_error(__func__, 0x'' @ fmt_08X instr_vram @ '', 0x'' @ fmt_08X jtbl_vram @ '');'')"

definition emit_return :: "recompiler_context \<Rightarrow> string" where
  "emit_return context =
     (if trace_mode context then line ''TRACE_RETURN()'' @ ''    '' else '''') @ line ''return;''"

section \<open>Other instructions\<close>

definition emit_check_fr :: "nat \<Rightarrow> string" where
  "emit_check_fr fpr = line (''CHECK_FR(ctx, '' @ fmt_nat fpr @ '');'') @ ''    ''"

definition emit_check_nan :: "nat \<Rightarrow> bool \<Rightarrow> string" where
  "emit_check_nan fpr is_double =
     ''NAN_CHECK(ctx->f'' @ fmt_nat fpr @ ''.'' @ (if is_double then ''d'' else ''fl'') @ ''); ''"

definition emit_cop0_status_read :: "nat \<Rightarrow> string" where
  "emit_cop0_status_read reg = line (gpr_to_string reg @ '' = cop0_status_read(ctx);'')"

definition emit_cop0_status_write :: "nat \<Rightarrow> string" where
  "emit_cop0_status_write reg = ''cop0_status_write(ctx, '' @ gpr_to_string reg @ '');''"

definition emit_cop1_cs_read :: "nat \<Rightarrow> string" where
  "emit_cop1_cs_read reg = line (gpr_to_string reg @ '' = get_cop1_cs();'')"

definition emit_cop1_cs_write :: "nat \<Rightarrow> string" where
  "emit_cop1_cs_write reg = line (''set_cop1_cs('' @ gpr_to_string reg @ '');'')"

definition emit_muldiv :: "instr_id \<Rightarrow> nat \<Rightarrow> nat \<Rightarrow> string option" where
  "emit_muldiv instr reg1 reg2 =
     (let a = gpr_to_string reg1; b = gpr_to_string reg2 in
      case instr of
        Sys cpu_mult \<Rightarrow> Some (line (''result = S64(S32('' @ a @ '')) * S64(S32('' @ b @
          '')); lo = S32(result >> 0); hi = S32(result >> 32);''))
      | Sys cpu_dmult \<Rightarrow> Some (line (''DMULT(S64('' @ a @ ''), S64('' @ b @ ''), &lo, &hi);''))
      | Sys cpu_multu \<Rightarrow> Some (line (''result = U64(U32('' @ a @ '')) * U64(U32('' @ b @
          '')); lo = S32(result >> 0); hi = S32(result >> 32);''))
      | Sys cpu_dmultu \<Rightarrow> Some (line (''DMULTU(U64('' @ a @ ''), U64('' @ b @ ''), &lo, &hi);''))
      | Sys cpu_div \<Rightarrow> Some (line (''lo = S32(S64(S32('' @ a @ '')) / S64(S32('' @ b @
          ''))); hi = S32(S64(S32('' @ a @ '')) % S64(S32('' @ b @ '')));''))
      | Sys cpu_ddiv \<Rightarrow> Some (line (''DDIV(S64('' @ a @ ''), S64('' @ b @ ''), &lo, &hi);''))
      | Sys cpu_divu \<Rightarrow> Some (line (''lo = S32(U32('' @ a @ '') / U32('' @ b @
          '')); hi = S32(U32('' @ a @ '') % U32('' @ b @ ''));''))
      | Sys cpu_ddivu \<Rightarrow> Some (line (''DDIVU(U64('' @ a @ ''), U64('' @ b @ ''), &lo, &hi);''))
      | _ \<Rightarrow> None)"

definition emit_syscall :: "u32 \<Rightarrow> string" where
  "emit_syscall instr_vram = line (''recomp_syscall_handler(rdram, ctx, 0x'' @ fmt_08X instr_vram @ '');'')"

definition emit_do_break :: "u32 \<Rightarrow> string" where
  "emit_do_break instr_vram = line (''do_break('' @ fmt_nat (unat instr_vram) @ '');'')"

definition emit_pause_self :: string where
  "emit_pause_self = line ''pause_self(rdram);''"

definition emit_trigger_event :: "u32 \<Rightarrow> string" where
  "emit_trigger_event event_index =
     line (''recomp_trigger_event(rdram, ctx, base_event_index + '' @ fmt_nat (unat event_index) @ '');'')"

definition emit_comment :: "string \<Rightarrow> string" where
  "emit_comment comment = line (''// '' @ comment)"

section \<open>Operations\<close>

definition process_binary_op :: "binary_op \<Rightarrow> instruction_context \<Rightarrow> string option" where
  "process_binary_op op ctx =
     (if is_zero_gpr_operand (bin_output op) ctx then Some ''''
      else case get_operand_string (bin_output op) U_None ctx of
        None \<Rightarrow> None
      | Some output \<Rightarrow>
          map_option (\<lambda>expression. line (output @ '' = '' @ expression @ '';''))
            (get_binary_expr_string (bin_type op) (bin_operands op) ctx output))"

definition process_unary_op :: "unary_op \<Rightarrow> instruction_context \<Rightarrow> string option" where
  "process_unary_op op ctx =
     (if is_zero_gpr_operand (uno_output op) ctx then Some ''''
      else case (get_operand_string (uno_output op) U_None ctx,
                 get_operand_string (uno_input op) (uno_operation op) ctx) of
        (Some output, Some input) \<Rightarrow> Some (line (output @ '' = '' @ input @ '';''))
      | _ \<Rightarrow> None)"

datatype store_syntax = Store_Func | Store_FuncWithRdram | Store_Assignment

fun store_spelling :: "store_op_type \<Rightarrow> string \<times> store_syntax" where
  "store_spelling S_SD = (''SD'', Store_Func)"
| "store_spelling S_SDL = (''do_sdl'', Store_FuncWithRdram)"
| "store_spelling S_SDR = (''do_sdr'', Store_FuncWithRdram)"
| "store_spelling S_SW = (''MEM_W'', Store_Assignment)"
| "store_spelling S_SWL = (''do_swl'', Store_FuncWithRdram)"
| "store_spelling S_SWR = (''do_swr'', Store_FuncWithRdram)"
| "store_spelling S_SH = (''MEM_H'', Store_Assignment)"
| "store_spelling S_SB = (''MEM_B'', Store_Assignment)"
| "store_spelling S_SDC1 = (''SD'', Store_Func)"
| "store_spelling S_SWC1 = (''MEM_W'', Store_Assignment)"

definition process_store_op :: "store_op \<Rightarrow> instruction_context \<Rightarrow> string option" where
  "process_store_op op ctx =
     (case (get_operand_string O_Base U_None ctx, get_operand_string O_ImmS16 U_None ctx,
            get_operand_string (sto_value_input op) U_None ctx) of
        (Some base_str, Some imm_str, Some value_input) \<Rightarrow>
          let (func_text, syntax) = store_spelling (sto_type op) in
          Some (case syntax of
            Store_Func \<Rightarrow> line (func_text @ ''('' @ value_input @ '', '' @ imm_str @ '', '' @ base_str @ '');'')
          | Store_FuncWithRdram \<Rightarrow>
              line (func_text @ ''(rdram, '' @ imm_str @ '', '' @ base_str @ '', '' @ value_input @ '');'')
          | Store_Assignment \<Rightarrow> line (func_text @ ''('' @ imm_str @ '', '' @ base_str @ '') = '' @ value_input @ '';''))
      | _ \<Rightarrow> None)"

end
