(* ===== verification/Guest_Runtime.thy ===== *)
theory Guest_Runtime
  imports Recomp_Prelude
begin

text \<open>
  The runtime ABI of the generated code, \<open>include/recomp.h\<close>: the macros and helpers every
  translated instruction expands into.

  Guest memory is the byte array \<open>rdram\<close> of the host (little-endian), as a function from host
  offsets to bytes. A C lvalue macro such as \<open>MEM_W\<close> is a pair of functions, a read \<open>MEM_W\<close>
  and a write \<open>set_MEM_W\<close>; the signed and unsigned variants read the same bits and differ in
  the conversion to a register (\<open>scast\<close> against \<open>ucast\<close>). A \<open>gpr\<close> is \<open>uint64_t\<close>.
\<close>

type_synonym gpr = u64
type_synonym rdram = "u64 \<Rightarrow> u8"

section \<open>64-bit multiply and divide\<close>

text \<open>The limb product of the TinyCC branch, and the \<open>__int128\<close> branch, as \<open>(lo64, hi64)\<close>.\<close>

definition DMULTU_limbs :: "u64 \<Rightarrow> u64 \<Rightarrow> u64 \<times> u64" where
  "DMULTU_limbs a b =
     (let a_lo = take_bit 32 a; a_hi = drop_bit 32 a;
          b_lo = take_bit 32 b; b_hi = drop_bit 32 b;
          ll = a_lo * b_lo; lh = a_lo * b_hi; hl = a_hi * b_lo; hh = a_hi * b_hi;
          cross = drop_bit 32 ll + take_bit 32 lh + take_bit 32 hl
      in ((ll AND 0xFFFFFFFF) OR push_bit 32 cross,
          hh + drop_bit 32 lh + drop_bit 32 hl + drop_bit 32 cross))"

definition DMULT_limbs :: "u64 \<Rightarrow> u64 \<Rightarrow> u64 \<times> u64" where
  "DMULT_limbs a b =
     (let (ulo, uhi) = DMULTU_limbs a b;
          uhi1 = (if sint a < 0 then uhi - b else uhi);
          uhi2 = (if sint b < 0 then uhi1 - a else uhi1)
      in (ulo, uhi2))"

definition DMULT :: "u64 \<Rightarrow> u64 \<Rightarrow> u64 \<times> u64" where
  "DMULT a b = (let full128 = (scast a :: 128 word) * scast b
     in (ucast full128, ucast (signed_drop_bit 64 full128)))"

definition DMULTU :: "u64 \<Rightarrow> u64 \<Rightarrow> u64 \<times> u64" where
  "DMULTU a b = (let full128 = (ucast a :: 128 word) * ucast b
     in (ucast full128, ucast (drop_bit 64 full128)))"

text \<open>
  C division of \<open>int64_t\<close> truncates towards zero, and the remainder has the sign of the dividend. Dividing by zero is undefined
  behaviour, and so is a quotient that is no \<open>int64_t\<close>, also for the remainder: \<open>None\<close>.
\<close>

definition c_div :: "int \<Rightarrow> int \<Rightarrow> int" where
  "c_div a b = sgn a * sgn b * (\<bar>a\<bar> div \<bar>b\<bar>)"

definition c_rem :: "int \<Rightarrow> int \<Rightarrow> int" where
  "c_rem a b = sgn a * (\<bar>a\<bar> mod \<bar>b\<bar>)"

definition c_div_s64 :: "u64 \<Rightarrow> u64 \<Rightarrow> (u64 \<times> u64) option" where
  "c_div_s64 a b =
     (if b = 0 \<or> c_div (sint a) (sint b) \<notin> {- (2 ^ 63) ..< 2 ^ 63} then None
      else Some (word_of_int (c_div (sint a) (sint b)), word_of_int (c_rem (sint a) (sint b))))"

definition DDIV :: "u64 \<Rightarrow> u64 \<Rightarrow> (u64 \<times> u64) option" where
  "DDIV a b =
     (let overflow = (a = 0x8000000000000000 \<and> sint b = -1)
      in if overflow then Some (a, 0) else c_div_s64 a b)"

definition DDIVU :: "u64 \<Rightarrow> u64 \<Rightarrow> (u64 \<times> u64) option" where
  "DDIVU a b = (if b = 0 then None else Some (a div b, a mod b))"

section \<open>32-bit arithmetic and casts\<close>

definition SIGNED :: "u64 \<Rightarrow> int" where "SIGNED val = sint val"

definition S32 :: "u64 \<Rightarrow> u32" where "S32 val = ucast val"
definition U32 :: "u64 \<Rightarrow> u32" where "U32 val = ucast val"

definition ADD32 :: "gpr \<Rightarrow> gpr \<Rightarrow> gpr" where
  "ADD32 a b = scast (ucast (a + b) :: u32)"

definition SUB32 :: "gpr \<Rightarrow> gpr \<Rightarrow> gpr" where
  "SUB32 a b = scast (ucast (a - b) :: u32)"

section \<open>Memory accesses\<close>

definition RECOMP_MEM_MASK :: u64 where "RECOMP_MEM_MASK = 0x3FFFFFFF"

definition mem_offset :: "gpr \<Rightarrow> u64" where
  "mem_offset address = (address - 0xFFFFFFFF80000000) AND RECOMP_MEM_MASK"

text \<open>What dereferencing a host pointer of 1, 2 or 4 bytes reads and writes.\<close>

definition peek32 :: "rdram \<Rightarrow> u64 \<Rightarrow> u32" where
  "peek32 m p = le_u32 (m p) (m (p + 1)) (m (p + 2)) (m (p + 3))"

definition poke32 :: "u64 \<Rightarrow> u32 \<Rightarrow> rdram \<Rightarrow> rdram" where
  "poke32 p v m = m(p := byte_of 0 v, p + 1 := byte_of 1 v, p + 2 := byte_of 2 v, p + 3 := byte_of 3 v)"

definition peek16 :: "rdram \<Rightarrow> u64 \<Rightarrow> u16" where
  "peek16 m p = push_bit 8 (ucast (m (p + 1))) OR ucast (m p)"

definition poke16 :: "u64 \<Rightarrow> u16 \<Rightarrow> rdram \<Rightarrow> rdram" where
  "poke16 p v m = m(p := byte_of 0 v, p + 1 := byte_of 1 v)"

definition MEM_W :: "rdram \<Rightarrow> gpr \<Rightarrow> gpr \<Rightarrow> u32" where
  "MEM_W m offset reg = peek32 m (mem_offset (reg + offset))"

definition MEM_WU :: "rdram \<Rightarrow> gpr \<Rightarrow> gpr \<Rightarrow> u32" where
  "MEM_WU m offset reg = peek32 m (mem_offset (reg + offset))"

definition MEM_H :: "rdram \<Rightarrow> gpr \<Rightarrow> gpr \<Rightarrow> u16" where
  "MEM_H m offset reg = peek16 m (mem_offset ((reg + offset) XOR 2))"

definition MEM_B :: "rdram \<Rightarrow> gpr \<Rightarrow> gpr \<Rightarrow> u8" where
  "MEM_B m offset reg = m (mem_offset ((reg + offset) XOR 3))"

definition MEM_HU :: "rdram \<Rightarrow> gpr \<Rightarrow> gpr \<Rightarrow> u16" where
  "MEM_HU m offset reg = peek16 m (mem_offset ((reg + offset) XOR 2))"

definition MEM_BU :: "rdram \<Rightarrow> gpr \<Rightarrow> gpr \<Rightarrow> u8" where
  "MEM_BU m offset reg = m (mem_offset ((reg + offset) XOR 3))"

definition set_MEM_W :: "gpr \<Rightarrow> gpr \<Rightarrow> u32 \<Rightarrow> rdram \<Rightarrow> rdram" where
  "set_MEM_W offset reg v = poke32 (mem_offset (reg + offset)) v"

definition set_MEM_H :: "gpr \<Rightarrow> gpr \<Rightarrow> u16 \<Rightarrow> rdram \<Rightarrow> rdram" where
  "set_MEM_H offset reg v = poke16 (mem_offset ((reg + offset) XOR 2)) v"

definition set_MEM_B :: "gpr \<Rightarrow> gpr \<Rightarrow> u8 \<Rightarrow> rdram \<Rightarrow> rdram" where
  "set_MEM_B offset reg v m = m(mem_offset ((reg + offset) XOR 3) := v)"

definition SD :: "gpr \<Rightarrow> gpr \<Rightarrow> gpr \<Rightarrow> rdram \<Rightarrow> rdram" where
  "SD val offset reg m =
     poke32 (mem_offset (reg + offset + 0)) (ucast (drop_bit 32 val))
       (poke32 (mem_offset (reg + offset + 4)) (ucast (drop_bit 0 val)) m)"

definition load_doubleword :: "rdram \<Rightarrow> gpr \<Rightarrow> gpr \<Rightarrow> u64" where
  "load_doubleword m reg offset =
     (let lo = ucast (MEM_W m reg (offset + 4)); hi = ucast (MEM_W m reg (offset + 0))
      in push_bit 0 lo OR push_bit 32 hi)"

definition LD :: "rdram \<Rightarrow> gpr \<Rightarrow> gpr \<Rightarrow> u64" where
  "LD m offset reg = load_doubleword m offset reg"

section \<open>Unaligned accesses\<close>

definition do_lwl :: "rdram \<Rightarrow> gpr \<Rightarrow> gpr \<Rightarrow> gpr \<Rightarrow> gpr" where
  "do_lwl m initial_value offset reg =
     (let address = offset + reg;
          word_address = address AND NOT 3;
          loaded_value = MEM_W m 0 word_address;
          misalignment = address AND 3;
          masked_value = initial_value AND ucast (NOT (push_bit (unat (misalignment * 8)) 0xFFFFFFFF) :: u32);
          loaded_value' = push_bit (unat (misalignment * 8)) loaded_value
      in scast (ucast (masked_value OR ucast loaded_value') :: u32))"

definition do_lwr :: "rdram \<Rightarrow> gpr \<Rightarrow> gpr \<Rightarrow> gpr \<Rightarrow> gpr" where
  "do_lwr m initial_value offset reg =
     (let address = offset + reg;
          word_address = address AND NOT 3;
          loaded_value = MEM_W m 0 word_address;
          misalignment = address AND 3;
          masked_value = initial_value AND
            ucast (NOT (drop_bit (unat (24 - misalignment * 8)) 0xFFFFFFFF) :: u32);
          loaded_value' = drop_bit (unat (24 - misalignment * 8)) loaded_value
      in scast (ucast (masked_value OR ucast loaded_value') :: u32))"

definition do_swl :: "gpr \<Rightarrow> gpr \<Rightarrow> gpr \<Rightarrow> rdram \<Rightarrow> rdram" where
  "do_swl offset reg val m =
     (let address = offset + reg;
          word_address = address AND NOT 3;
          initial_value = MEM_W m 0 word_address;
          misalignment = address AND 3;
          masked_initial_value = initial_value AND NOT (drop_bit (unat (misalignment * 8)) 0xFFFFFFFF);
          shifted_input_value = drop_bit (unat (misalignment * 8)) (ucast val :: u32)
      in set_MEM_W 0 word_address (masked_initial_value OR shifted_input_value) m)"

definition do_swr :: "gpr \<Rightarrow> gpr \<Rightarrow> gpr \<Rightarrow> rdram \<Rightarrow> rdram" where
  "do_swr offset reg val m =
     (let address = offset + reg;
          word_address = address AND NOT 3;
          initial_value = MEM_W m 0 word_address;
          misalignment = address AND 3;
          masked_initial_value = initial_value AND NOT (push_bit (unat (24 - misalignment * 8)) 0xFFFFFFFF);
          shifted_input_value = push_bit (unat (24 - misalignment * 8)) (ucast val :: u32)
      in set_MEM_W 0 word_address (masked_initial_value OR shifted_input_value) m)"

definition do_ldl :: "rdram \<Rightarrow> gpr \<Rightarrow> gpr \<Rightarrow> gpr \<Rightarrow> gpr" where
  "do_ldl m initial_value offset reg =
     (let address = offset + reg;
          dword_address = address AND NOT 7;
          loaded_value = load_doubleword m 0 dword_address;
          misalignment = address AND 7;
          masked_value = initial_value AND NOT (push_bit (unat (misalignment * 8)) 0xFFFFFFFFFFFFFFFF);
          loaded_value' = push_bit (unat (misalignment * 8)) loaded_value
      in masked_value OR loaded_value')"

definition do_ldr :: "rdram \<Rightarrow> gpr \<Rightarrow> gpr \<Rightarrow> gpr \<Rightarrow> gpr" where
  "do_ldr m initial_value offset reg =
     (let address = offset + reg;
          dword_address = address AND NOT 7;
          loaded_value = load_doubleword m 0 dword_address;
          misalignment = address AND 7;
          masked_value = initial_value AND NOT (drop_bit (unat (56 - misalignment * 8)) 0xFFFFFFFFFFFFFFFF);
          loaded_value' = drop_bit (unat (56 - misalignment * 8)) loaded_value
      in masked_value OR loaded_value')"

definition do_sdl :: "gpr \<Rightarrow> gpr \<Rightarrow> gpr \<Rightarrow> rdram \<Rightarrow> rdram" where
  "do_sdl offset reg val m =
     (let address = offset + reg;
          dword_address = address AND NOT 7;
          initial_value = load_doubleword m 0 dword_address;
          misalignment = address AND 7;
          masked_initial_value =
            initial_value AND NOT (drop_bit (unat (misalignment * 8)) 0xFFFFFFFFFFFFFFFF);
          shifted_input_value = drop_bit (unat (misalignment * 8)) val;
          ret = masked_initial_value OR shifted_input_value;
          lo = ucast ret; hi = ucast (drop_bit 32 ret)
      in set_MEM_W 0 (dword_address + 0) hi (set_MEM_W 0 (dword_address + 4) lo m))"

definition do_sdr :: "gpr \<Rightarrow> gpr \<Rightarrow> gpr \<Rightarrow> rdram \<Rightarrow> rdram" where
  "do_sdr offset reg val m =
     (let address = offset + reg;
          dword_address = address AND NOT 7;
          initial_value = load_doubleword m 0 dword_address;
          misalignment = address AND 7;
          masked_initial_value =
            initial_value AND NOT (push_bit (unat (56 - misalignment * 8)) 0xFFFFFFFFFFFFFFFF);
          shifted_input_value = push_bit (unat (56 - misalignment * 8)) val;
          ret = masked_initial_value OR shifted_input_value;
          lo = ucast ret; hi = ucast (drop_bit 32 ret)
      in set_MEM_W 0 (dword_address + 0) hi (set_MEM_W 0 (dword_address + 4) lo m))"

section \<open>The rounding mode\<close>

datatype fe_round = FE_TONEAREST | FE_TOWARDZERO | FE_UPWARD | FE_DOWNWARD

text \<open>
  The floating-point environment holds the mode; \<open>fegetround\<close> and \<open>fesetround\<close> read and
  replace it.
\<close>

fun get_cop1_cs :: "fe_round \<Rightarrow> u32" where
  "get_cop1_cs FE_TONEAREST = 0"
| "get_cop1_cs FE_TOWARDZERO = 1"
| "get_cop1_cs FE_UPWARD = 2"
| "get_cop1_cs FE_DOWNWARD = 3"

definition set_cop1_cs :: "u32 \<Rightarrow> fe_round" where
  "set_cop1_cs val =
     (let rounding_mode = val AND 3 in
      if rounding_mode = 0 then FE_TONEAREST
      else if rounding_mode = 1 then FE_TOWARDZERO
      else if rounding_mode = 2 then FE_UPWARD
      else if rounding_mode = 3 then FE_DOWNWARD
      else FE_TONEAREST)"

section \<open>Tail calls and relocation\<close>

text \<open>
  The fields of \<open>recomp_context\<close> the tail-call protocol uses. \<open>tailcall_func\<close> is a host
  function, named by the symbol the generated code passes; \<open>None\<close> is \<open>NULL\<close>.
\<close>

record tailcall_state =
  tailcall_target :: u32
  tailcall_pending :: u32
  tailcall_func :: "string option"

definition recomp_request_tailcall :: "gpr \<Rightarrow> tailcall_state \<Rightarrow> tailcall_state" where
  "recomp_request_tailcall target ctx =
     ctx\<lparr>tailcall_target := ucast target, tailcall_func := None, tailcall_pending := 1\<rparr>"

definition recomp_request_tailcall_func :: "string \<Rightarrow> tailcall_state \<Rightarrow> tailcall_state" where
  "recomp_request_tailcall_func func ctx =
     ctx\<lparr>tailcall_target := 0, tailcall_func := Some func, tailcall_pending := 1\<rparr>"

definition recomp_request_tailcall_func_target :: "string \<Rightarrow> u32 \<Rightarrow> tailcall_state \<Rightarrow> tailcall_state" where
  "recomp_request_tailcall_func_target func target ctx =
     ctx\<lparr>tailcall_target := target, tailcall_func := Some func, tailcall_pending := 1\<rparr>"

text \<open>
  \<open>section_addresses\<close> is an \<open>int32_t\<close> array; the sum with the offset is taken as its 32-bit word.
  For a signed sum \<open>HI16\<close> shifts arithmetically, which changes bits 16 and up only: the generated
  code shifts the half left by 16, so those bits are dropped.
\<close>

definition LO16 :: "u32 \<Rightarrow> u32" where "LO16 x = x AND 0xFFFF"

definition HI16 :: "u32 \<Rightarrow> u32" where "HI16 x = drop_bit 16 x + (drop_bit 15 x AND 1)"

definition RELOC_HI16 :: "(nat \<Rightarrow> u32) \<Rightarrow> nat \<Rightarrow> u32 \<Rightarrow> u32" where
  "RELOC_HI16 section_addresses section_index offset = HI16 (section_addresses section_index + offset)"

definition RELOC_LO16 :: "(nat \<Rightarrow> u32) \<Rightarrow> nat \<Rightarrow> u32 \<Rightarrow> u32" where
  "RELOC_LO16 section_addresses section_index offset = LO16 (section_addresses section_index + offset)"

end
