(* ===== verification/Guest_Memory.thy ===== *)
theory Guest_Memory
  imports Guest_Runtime
begin

text \<open>
  Guest memory as the program sees it. \<open>recomp.h\<close> keeps every guest word in host byte order, so
  the guest byte at an address lies at its host offset with the two low bits flipped
  (\<open>guest_byte\<close>). Over that view the lemmas show that the aligned accesses are big-endian
  reads and writes, and that the pairs LWL/LWR, LDL/LDR, SWL/SWR and SDL/SDR of the unaligned
  instructions load and store exactly the 4 or 8 bytes from the unaligned address on.
\<close>

section \<open>Offsets into the memory window\<close>

lemma mem_offset_eq: "mem_offset a = take_bit 30 a"
proof -
  have c: "a - 0xFFFFFFFF80000000 = a + 0x80000000" by (simp add: diff_conv_add_uminus del: add_uminus_conv_diff)
  have "take_bit 30 (uint a + 0x80000000) = take_bit 30 (uint a)"
    by (simp add: take_bit_eq_mod flip: mod_add_eq)
  then have "take_bit 30 (a + 0x80000000) = take_bit 30 a"
    by (simp only: word_uint_eq_iff unsigned_take_bit_eq uint_word_ariths)
      (simp add: take_bit_eq_mod mod_mod_cancel)
  then show ?thesis
    unfolding mem_offset_def RECOMP_MEM_MASK_def c by (simp add: take_bit_eq_mask mask_eq_exp_minus_1)
qed

lemma aligned_and_1_2:
  fixes a :: u64
  assumes "a AND 3 = 0"
  shows "a AND 1 = 0" "a AND 2 = 0"
proof -
  have "a AND 1 = (a AND 3) AND 1" "a AND 2 = (a AND 3) AND 2" by (simp_all add: and.assoc)
  with assms show "a AND 1 = 0" "a AND 2 = 0" by simp_all
qed

lemma aligned_plus:
  fixes a :: u64
  assumes "a AND 3 = 0"
  shows "a + 1 = a XOR 1" "a + 2 = a XOR 2" "a + 3 = a XOR 3"
  using assms aligned_and_1_2 [OF assms] by (simp_all add: disjunctive_add_eq_xor)

lemma xor_word_consts [simp]:
  "((a::u64) XOR 1) XOR 3 = a XOR 2" "(a XOR 2) XOR 3 = a XOR 1" "(a XOR 3) XOR 3 = a"
  "((a::u64) XOR 1) XOR 2 = a XOR 3" "(a XOR 2) XOR 2 = a" "(a XOR 3) XOR 2 = a XOR 1"
  by (simp_all add: xor.assoc)

lemma mem_offset_xor [simp]:
  "mem_offset (a XOR 1) = mem_offset a XOR 1" "mem_offset (a XOR 2) = mem_offset a XOR 2"
  "mem_offset (a XOR 3) = mem_offset a XOR 3"
  by (simp_all add: mem_offset_eq take_bit_xor)

lemma mem_offset_aligned: "a AND 3 = 0 \<Longrightarrow> mem_offset a AND 3 = 0"
proof -
  assume "a AND 3 = 0"
  moreover have "mem_offset a AND 3 = take_bit 30 (a AND 3)" by (simp add: mem_offset_eq)
  ultimately show ?thesis by simp
qed

section \<open>Guest bytes and words\<close>

definition guest_byte :: "rdram \<Rightarrow> u64 \<Rightarrow> u8" where
  "guest_byte m a = m (mem_offset a XOR 3)"

definition guest_word :: "rdram \<Rightarrow> u64 \<Rightarrow> u32" where
  "guest_word m a = be_u32 (guest_byte m a) (guest_byte m (a + 1)) (guest_byte m (a + 2)) (guest_byte m (a + 3))"


lemma MEM_W_guest: "(reg + offset) AND 3 = 0 \<Longrightarrow> MEM_W m offset reg = guest_word m (reg + offset)"
  by (simp add: MEM_W_def peek32_def guest_word_def guest_byte_def aligned_plus mem_offset_aligned le_u32_def)

lemma MEM_HU_guest:
  assumes "(reg + offset) AND 3 = 0 \<or> (reg + offset) AND 3 = 2"
  shows "MEM_HU m offset reg = push_bit 8 (ucast (guest_byte m (reg + offset))) OR ucast (guest_byte m (reg + offset + 1))"
proof -
  let ?a = "reg + offset"
  have plus1: "b + 1 = b XOR 1" if "b AND 1 = 0" for b :: u64 using that by (simp add: disjunctive_add_eq_xor)
  have a1: "?a AND 1 = 0"
  proof -
    have "?a AND 1 = (?a AND 3) AND 1" by (simp add: and.assoc)
    with assms show ?thesis by auto
  qed
  then have "(?a XOR 2) AND 1 = 0" by (simp add: bit.conj_xor_distrib2)
  moreover have "mem_offset (?a XOR 2) AND 1 = take_bit 30 ((?a XOR 2) AND 1)"
    by (simp only: mem_offset_eq) simp
  ultimately have "mem_offset (?a XOR 2) AND 1 = 0" by simp
  with a1 show ?thesis
    by (simp add: MEM_HU_def peek16_def guest_byte_def plus1 xor.assoc)
qed

section \<open>The bytes of a word under shifts and masks\<close>

lemma byte_of_bitwise [simp]:
  "byte_of i (x AND y) = byte_of i x AND byte_of i y" "byte_of i (x OR y) = byte_of i x OR byte_of i y"
  by (rule bit_eqI; auto simp: bit_byte_of bit_simps)+

lemma byte_of_not: "8 * i + 8 \<le> LENGTH('a) \<Longrightarrow> byte_of i (NOT x :: 'a::len word) = NOT (byte_of i x)"
  by (rule bit_eqI) (auto simp: bit_byte_of bit_simps)

lemma byte_of_push_bit:
  "8 * i + 8 \<le> LENGTH('a) \<Longrightarrow>
     byte_of i (push_bit (8 * k) x :: 'a::len word) = (if k \<le> i then byte_of (i - k) x else 0)"
  by (rule bit_eqI) (auto simp: bit_byte_of bit_simps diff_mult_distrib2)

lemma byte_of_drop_bit: "byte_of i (drop_bit (8 * k) x) = byte_of (i + k) x"
  by (rule bit_eqI) (auto simp: bit_byte_of bit_simps algebra_simps)

lemma byte_of_all_ones: "byte_of i (- 1 :: 'a::len word) = (if 8 * i + 8 \<le> LENGTH('a) then - 1 else byte_of i (- 1 :: 'a word))"
  by (auto intro!: bit_eqI simp: bit_byte_of)

lemma byte_of_over: "LENGTH('a) \<le> 8 * i \<Longrightarrow> byte_of i (x :: 'a::len word) = 0"
  by (rule bit_eqI) (auto simp: bit_byte_of dest: bit_imp_le_length)

lemma byte_of_ucast:
  "8 * i + 8 \<le> LENGTH('a) \<Longrightarrow> byte_of i (ucast (x :: 'b::len word) :: 'a::len word) = byte_of i x"
  by (rule bit_eqI) (auto simp: bit_byte_of bit_simps)

lemma byte_eqI:
  fixes x y :: "'a::len word"
  assumes "\<And>i. 8 * i < LENGTH('a) \<Longrightarrow> byte_of i x = byte_of i y"
  shows "x = y"
proof (rule bit_eqI)
  fix n assume "possible_bit TYPE('a word) n"
  then have "8 * (n div 8) < LENGTH('a)" by simp
  from assms [OF this] have "bit (byte_of (n div 8) x) (n mod 8) = bit (byte_of (n div 8) y) (n mod 8)" by simp
  then show "bit x n = bit y n" by (simp add: bit_byte_of)
qed

section \<open>Unaligned loads\<close>

lemma misalignment_shift:
  fixes a :: u64
  shows "unat ((a AND 3) * 8) = 8 * unat (a AND 3)" "unat (24 - (a AND 3) * 8) = 8 * (3 - unat (a AND 3))"
    "unat ((a AND 7) * 8) = 8 * unat (a AND 7)" "unat (56 - (a AND 7) * 8) = 8 * (7 - unat (a AND 7))"
    "unat (a AND 3) < 4" "unat (a AND 7) < 8"
proof -
  have e: "a AND 3 = a mod 4" "a AND 7 = a mod 8"
    by (simp_all add: take_bit_eq_mask take_bit_eq_mod mask_eq_exp_minus_1 flip: take_bit_eq_mod [of 2 a, simplified] take_bit_eq_mod [of 3 a, simplified])
  show l: "unat (a AND 3) < 4" "unat (a AND 7) < 8" unfolding e by (simp_all add: unat_mod)
  then show "unat ((a AND 3) * 8) = 8 * unat (a AND 3)" "unat ((a AND 7) * 8) = 8 * unat (a AND 7)"
    by (simp_all add: unat_word_ariths)
  then show "unat (24 - (a AND 3) * 8) = 8 * (3 - unat (a AND 3))" "unat (56 - (a AND 7) * 8) = 8 * (7 - unat (a AND 7))"
    using l by (subst unat_sub; simp add: word_le_nat_alt)+
qed

lemma word_address_plus:
  fixes a :: u64
  shows "(a AND NOT 3) + of_nat (unat (a AND 3)) = a" "(a AND NOT 7) + of_nat (unat (a AND 7)) = a"
    "(a AND NOT 3) AND 3 = 0" "(a AND NOT 7) AND 7 = 0"
proof -
  have e: "(a AND NOT w) + (a AND w) = a" for w :: u64
  proof -
    have "(a AND NOT w) AND (a AND w) = 0" by (rule bit_eqI) (auto simp: bit_simps)
    moreover have "(a AND NOT w) OR (a AND w) = a" by (rule bit_eqI) (auto simp: bit_simps)
    ultimately show ?thesis by (simp add: disjunctive_add_eq_or)
  qed
  show "(a AND NOT 3) + of_nat (unat (a AND 3)) = a" "(a AND NOT 7) + of_nat (unat (a AND 7)) = a"
    using e [of 3] e [of 7] by simp_all
  show "(a AND NOT 3) AND 3 = 0" "(a AND NOT 7) AND 7 = 0" by (simp_all add: and.assoc)
qed

lemma less_4_cases: "(i::nat) < 4 \<Longrightarrow> i = 0 \<or> i = 1 \<or> i = 2 \<or> i = 3" by arith

lemma byte_of_guest_word:
  "i < 4 \<Longrightarrow> byte_of i (guest_word m a) = guest_byte m (a + of_nat (3 - i))"
  by (drule less_4_cases) (auto simp: guest_word_def)


lemma byte_of_aligned_word:
  "w AND 3 = 0 \<Longrightarrow> i < 4 \<Longrightarrow> byte_of i (MEM_W m 0 w) = guest_byte m (w + of_nat (3 - i))"
  by (simp add: MEM_W_guest byte_of_guest_word)

lemma aligned_8:
  fixes d :: u64
  assumes "d AND 7 = 0"
  shows "d AND 3 = 0" "(d + 4) AND 3 = 0"
proof -
  have "d AND 3 = (d AND 7) AND 3" "d AND 4 = (d AND 7) AND 4" by (simp_all add: and.assoc)
  with assms have "d AND 3 = 0" "d AND 4 = 0" by simp_all
  then show "d AND 3 = 0" "(d + 4) AND 3 = 0" by (simp_all add: disjunctive_add_eq_xor bit.conj_xor_distrib2)
qed

text \<open>The bytes of the shifts and masks the unaligned accesses use.\<close>

lemma bytes_32:
  assumes "i < 4"
  shows "byte_of i (scast (x::u32) :: u64) = byte_of i x" "byte_of i (ucast (x::u32) :: u64) = byte_of i x"
    "byte_of i (ucast (y::u64) :: u32) = byte_of i y" "byte_of i (NOT x) = NOT (byte_of i x)"
    "byte_of i (push_bit (8 * k) x) = (if k \<le> i then byte_of (i - k) x else 0)"
    "byte_of i (drop_bit (8 * k) x) = (if i + k < 4 then byte_of (i + k) x else 0)"
    "byte_of i (0xFFFFFFFF::u32) = - 1"
proof -
  show "byte_of i (scast (x::u32) :: u64) = byte_of i x"
    using assms by (intro bit_eqI) (auto simp: bit_byte_of bit_simps)
  show "byte_of i (0xFFFFFFFF::u32) = - 1"
  proof -
    have "(0xFFFFFFFF::u32) = - 1" by simp
    then show ?thesis using assms byte_of_all_ones [where 'a=32, of i] unfolding \<open>_ = - 1\<close> by simp
  qed
qed (use assms in \<open>simp_all add: byte_of_ucast byte_of_not byte_of_push_bit byte_of_drop_bit byte_of_over\<close>)

lemma bytes_64:
  assumes "i < 8"
  shows "byte_of i (NOT y :: u64) = NOT (byte_of i y)"
    "byte_of i (push_bit (8 * k) y :: u64) = (if k \<le> i then byte_of (i - k) y else 0)"
    "byte_of i (drop_bit (8 * k) y :: u64) = (if i + k < 8 then byte_of (i + k) y else 0)"
    "byte_of i (0xFFFFFFFFFFFFFFFF::u64) = - 1"
    "byte_of i (ucast (x::u32) :: u64) = (if i < 4 then byte_of i x else 0)"
proof -
  show "byte_of i (0xFFFFFFFFFFFFFFFF::u64) = - 1"
  proof -
    have "(0xFFFFFFFFFFFFFFFF::u64) = - 1" by simp
    then show ?thesis using assms byte_of_all_ones [where 'a=64, of i] unfolding \<open>_ = - 1\<close> by simp
  qed
qed (use assms in \<open>simp_all add: byte_of_ucast byte_of_not byte_of_push_bit byte_of_drop_bit byte_of_over\<close>)

lemma byte_mask_cases [simp]:
  "(x::u8) AND NOT (if P then - 1 else 0) = (if P then 0 else x)"
  "(if P then y else 0) OR (if P then z else x) = (if P then y OR z else x)"
  by simp_all

lemma byte_of_load_doubleword:
  assumes d: "d AND 7 = 0" and i: "i < 8"
  shows "byte_of i (load_doubleword m 0 d) = guest_byte m (d + of_nat (7 - i))"
proof -
  have w: "MEM_W m 0 (d + 4) = guest_word m (d + 4)" "MEM_W m 0 (d + 0) = guest_word m d"
    using aligned_8 [OF d] by (simp_all add: MEM_W_guest)
  have l: "load_doubleword m 0 d = ucast (guest_word m (d + 4)) OR push_bit (8 * 4) (ucast (guest_word m d))"
    using w by (simp add: load_doubleword_def Let_def MEM_W_def)
  have "byte_of i (load_doubleword m 0 d) =
      (if i < 4 then byte_of i (guest_word m (d + 4)) else byte_of (i - 4) (guest_word m d))"
    unfolding l byte_of_bitwise bytes_64 [OF i] using i by (auto simp: bytes_64)
  also have "\<dots> = guest_byte m (d + of_nat (7 - i))"
  proof (cases "i < 4")
    case True
    then have "(4::u64) + of_nat (3 - i) = of_nat (7 - i)" by (simp add: of_nat_diff)
    with True show ?thesis by (simp add: byte_of_guest_word add.assoc)
  next
    case False
    then have "7 - i = 3 - (i - 4)" by arith
    with False i show ?thesis by (simp add: byte_of_guest_word)
  qed
  finally show ?thesis .
qed

lemma byte_index_shift:
  "w + of_nat k = (a::u64) \<Longrightarrow> k \<le> i \<Longrightarrow> i \<le> n \<Longrightarrow> w + of_nat (n - (i - k)) = a + of_nat (n - i)"
proof -
  assume "w + of_nat k = a" and "k \<le> i" and "i \<le> n"
  then have "n - (i - k) = k + (n - i)" by arith
  with \<open>w + of_nat k = a\<close> show ?thesis by (simp only: of_nat_add add.assoc [symmetric])
qed

lemma do_lwl_byte:
  assumes i: "i < 4"
  shows "byte_of i (do_lwl m r offset reg) =
    (if unat ((reg + offset) AND 3) \<le> i then guest_byte m (reg + offset + of_nat (3 - i)) else byte_of i r)"
proof -
  let ?a = "reg + offset" let ?k = "unat (?a AND 3)" let ?w = "?a AND NOT 3"
  have "byte_of i (do_lwl m r offset reg) = (if ?k \<le> i then byte_of (i - ?k) (MEM_W m 0 ?w) else byte_of i r)"
    unfolding do_lwl_def Let_def misalignment_shift add.commute [of offset]
    unfolding byte_of_bitwise bytes_32 [OF i]
    using i by (simp add: bytes_32)
  also have "\<dots> = (if ?k \<le> i then guest_byte m (?a + of_nat (3 - i)) else byte_of i r)"
  proof -
    have i3: "i \<le> 3" using i by simp
    have "byte_of (i - ?k) (MEM_W m 0 ?w) = guest_byte m (?a + of_nat (3 - i))" if "?k \<le> i"
      unfolding byte_index_shift [OF word_address_plus(1), of ?a i 3, OF that i3, symmetric]
      using i by (intro byte_of_aligned_word word_address_plus) simp_all
    then show ?thesis by simp
  qed
  finally show ?thesis .
qed

lemma byte_index_shift':
  "w + of_nat k = (a::u64) \<Longrightarrow> i \<le> k \<Longrightarrow> k \<le> n \<Longrightarrow> w + of_nat (n - (i + (n - k))) = a - of_nat i"
proof -
  assume a: "w + of_nat k = a" and "i \<le> k" and "k \<le> n"
  then have "n - (i + (n - k)) = k - i" by arith
  with a \<open>i \<le> k\<close> show ?thesis by (auto simp: of_nat_diff algebra_simps)
qed

lemma do_lwr_byte:
  assumes i: "i < 4"
  shows "byte_of i (do_lwr m r offset reg) =
    (if i \<le> unat ((reg + offset) AND 3) then guest_byte m (reg + offset - of_nat i) else byte_of i r)"
proof -
  let ?a = "reg + offset" let ?k = "unat (?a AND 3)" let ?w = "?a AND NOT 3"
  have k: "?k \<le> 3" using misalignment_shift(5) [of ?a] by simp
  have "byte_of i (do_lwr m r offset reg) = (if i \<le> ?k then byte_of (i + (3 - ?k)) (MEM_W m 0 ?w) else byte_of i r)"
    unfolding do_lwr_def Let_def misalignment_shift add.commute [of offset]
    unfolding byte_of_bitwise bytes_32 [OF i]
    using i k by (simp add: bytes_32 less_Suc_eq_le) arith?
  also have "\<dots> = (if i \<le> ?k then guest_byte m (?a - of_nat i) else byte_of i r)"
  proof -
    have "byte_of (i + (3 - ?k)) (MEM_W m 0 ?w) = guest_byte m (?a - of_nat i)" if "i \<le> ?k"
      unfolding byte_index_shift' [OF word_address_plus(1), of i ?a 3, OF that k, symmetric]
      using that k by (intro byte_of_aligned_word word_address_plus) simp_all
    then show ?thesis by simp
  qed
  finally show ?thesis .
qed

lemma do_ldl_byte:
  assumes i: "i < 8"
  shows "byte_of i (do_ldl m r offset reg) =
    (if unat ((reg + offset) AND 7) \<le> i then guest_byte m (reg + offset + of_nat (7 - i)) else byte_of i r)"
proof -
  let ?a = "reg + offset" let ?k = "unat (?a AND 7)" let ?w = "?a AND NOT 7"
  have "byte_of i (do_ldl m r offset reg) = (if ?k \<le> i then byte_of (i - ?k) (load_doubleword m 0 ?w) else byte_of i r)"
    unfolding do_ldl_def Let_def misalignment_shift add.commute [of offset]
    unfolding byte_of_bitwise bytes_64 [OF i]
    using i by (simp add: bytes_64)
  also have "\<dots> = (if ?k \<le> i then guest_byte m (?a + of_nat (7 - i)) else byte_of i r)"
  proof -
    have i7: "i \<le> 7" using i by simp
    have "byte_of (i - ?k) (load_doubleword m 0 ?w) = guest_byte m (?a + of_nat (7 - i))" if "?k \<le> i"
      unfolding byte_index_shift [OF word_address_plus(2), of ?a i 7, OF that i7, symmetric]
      using i by (intro byte_of_load_doubleword word_address_plus) simp_all
    then show ?thesis by simp
  qed
  finally show ?thesis .
qed

lemma do_ldr_byte:
  assumes i: "i < 8"
  shows "byte_of i (do_ldr m r offset reg) =
    (if i \<le> unat ((reg + offset) AND 7) then guest_byte m (reg + offset - of_nat i) else byte_of i r)"
proof -
  let ?a = "reg + offset" let ?k = "unat (?a AND 7)" let ?w = "?a AND NOT 7"
  have k: "?k \<le> 7" using misalignment_shift(6) [of ?a] by simp
  have "byte_of i (do_ldr m r offset reg) = (if i \<le> ?k then byte_of (i + (7 - ?k)) (load_doubleword m 0 ?w) else byte_of i r)"
    unfolding do_ldr_def Let_def misalignment_shift add.commute [of offset]
    unfolding byte_of_bitwise bytes_64 [OF i]
    using i k by (simp add: bytes_64 less_Suc_eq_le) arith?
  also have "\<dots> = (if i \<le> ?k then guest_byte m (?a - of_nat i) else byte_of i r)"
  proof -
    have "byte_of (i + (7 - ?k)) (load_doubleword m 0 ?w) = guest_byte m (?a - of_nat i)" if "i \<le> ?k"
      unfolding byte_index_shift' [OF word_address_plus(2), of i ?a 7, OF that k, symmetric]
      using that k by (intro byte_of_load_doubleword word_address_plus) simp_all
    then show ?thesis by simp
  qed
  finally show ?thesis .
qed

lemma misalignment_next:
  "unat ((a + 3) AND 3) = (unat ((a::u64) AND 3) + 3) mod 4" "unat ((a + 7) AND 7) = (unat (a AND 7) + 7) mod 8"
proof -
  have m: "x AND 3 = take_bit 2 x" "x AND 7 = take_bit 3 x" for x :: u64
    by (simp_all add: take_bit_eq_mask mask_eq_exp_minus_1)
  show "unat ((a + 3) AND 3) = (unat (a AND 3) + 3) mod 4" "unat ((a + 7) AND 7) = (unat (a AND 7) + 7) mod 8"
    unfolding m unsigned_take_bit_eq unat_word_ariths by (simp_all add: take_bit_eq_mod mod_mod_cancel mod_simps)
qed

definition guest_dword :: "rdram \<Rightarrow> u64 \<Rightarrow> u64" where
  "guest_dword m a = push_bit (8 * 4) (ucast (guest_word m a)) OR ucast (guest_word m (a + 4))"

lemma byte_of_guest_dword:
  assumes i: "i < 8"
  shows "byte_of i (guest_dword m a) = guest_byte m (a + of_nat (7 - i))"
proof -
  have "byte_of i (guest_dword m a) =
      (if i < 4 then byte_of i (guest_word m (a + 4)) else byte_of (i - 4) (guest_word m a))"
    unfolding guest_dword_def byte_of_bitwise bytes_64 [OF i] using i by (auto simp: bytes_64)
  also have "\<dots> = guest_byte m (a + of_nat (7 - i))"
  proof (cases "i < 4")
    case True
    then have "(4::u64) + of_nat (3 - i) = of_nat (7 - i)" by (simp add: of_nat_diff)
    with True show ?thesis by (simp add: byte_of_guest_word add.assoc)
  next
    case False
    then have "7 - i = 3 - (i - 4)" by arith
    with False i show ?thesis by (simp add: byte_of_guest_word)
  qed
  finally show ?thesis .
qed

lemma below_previous: "k < n \<Longrightarrow> i < n \<Longrightarrow> \<not> i \<le> (k + (n - 1)) mod n \<Longrightarrow> k \<le> (i::nat)"
  by (cases "k = 0") (auto simp: mod_if split: if_splits)

lemma ucast_scast_u32 [simp]: "ucast (scast (x::u32) :: u64) = x"
  by (rule bit_eqI) (auto simp: bit_simps)

lemma lwl_lwr_bytes:
  assumes i: "i < 4"
  shows "byte_of i (do_lwr m (do_lwl m r offset reg) (offset + 3) reg) = guest_byte m (reg + offset + of_nat (3 - i))"
proof -
  let ?a = "reg + offset"
  have next3: "unat ((reg + (offset + 3)) AND 3) = (unat (?a AND 3) + 3) mod 4"
    using misalignment_next(1) [of ?a] by (simp add: algebra_simps)
  have fwd: "reg + (offset + 3) - of_nat i = ?a + of_nat (3 - i)"
    using i by (simp add: of_nat_diff algebra_simps)
  show ?thesis
  proof (cases "i \<le> unat ((reg + (offset + 3)) AND 3)")
    case True
    then show ?thesis by (simp only: do_lwr_byte [OF i] fwd if_True)
  next
    case False
    then have "unat (?a AND 3) \<le> i" using below_previous [OF misalignment_shift(5) i, of ?a] unfolding next3 by simp
    with False show ?thesis by (simp only: do_lwr_byte [OF i] do_lwl_byte [OF i] if_True if_False)
  qed
qed

lemma ldl_ldr_bytes:
  assumes i: "i < 8"
  shows "byte_of i (do_ldr m (do_ldl m r offset reg) (offset + 7) reg) = guest_byte m (reg + offset + of_nat (7 - i))"
proof -
  let ?a = "reg + offset"
  have next7: "unat ((reg + (offset + 7)) AND 7) = (unat (?a AND 7) + 7) mod 8"
    using misalignment_next(2) [of ?a] by (simp add: algebra_simps)
  have fwd: "reg + (offset + 7) - of_nat i = ?a + of_nat (7 - i)"
    using i by (simp add: of_nat_diff algebra_simps)
  show ?thesis
  proof (cases "i \<le> unat ((reg + (offset + 7)) AND 7)")
    case True
    then show ?thesis by (simp only: do_ldr_byte [OF i] fwd if_True)
  next
    case False
    then have "unat (?a AND 7) \<le> i" using below_previous [OF misalignment_shift(6) i, of ?a] unfolding next7 by simp
    with False show ?thesis by (simp only: do_ldr_byte [OF i] do_ldl_byte [OF i] if_True if_False)
  qed
qed

lemma do_lwr_sext: "do_lwr m r offset reg = scast (ucast (do_lwr m r offset reg) :: u32)"
  by (simp add: do_lwr_def Let_def)

text \<open>An LWL followed by an LWR three bytes further loads the big-endian word at any
  address, sign-extended to 64 bits, whatever the register held before.\<close>

lemma unaligned_word_load:
  "do_lwr m (do_lwl m r offset reg) (offset + 3) reg = scast (guest_word m (reg + offset))"
proof -
  let ?x = "do_lwr m (do_lwl m r offset reg) (offset + 3) reg"
  have "(ucast ?x :: u32) = guest_word m (reg + offset)"
    by (rule byte_eqI) (simp add: bytes_32 lwl_lwr_bytes byte_of_guest_word)
  then show ?thesis using do_lwr_sext [of m "do_lwl m r offset reg" "offset + 3" reg] by simp
qed

text \<open>An LDL followed by an LDR seven bytes further loads the big-endian doubleword at any address.\<close>

lemma unaligned_dword_load:
  "do_ldr m (do_ldl m r offset reg) (offset + 7) reg = guest_dword m (reg + offset)"
  by (rule byte_eqI) (simp add: ldl_ldr_bytes byte_of_guest_dword)

text \<open>C20: the two halves of an unaligned load give the big-endian value at any address: an LWL followed by an LWR three bytes further the
  sign-extended word, an LDL followed by an LDR seven bytes further the doubleword, whatever the register held before.\<close>

theorem unaligned_loads:
  "do_lwr m (do_lwl m r offset reg) (offset + 3) reg = scast (guest_word m (reg + offset)) \<and>
   do_ldr m (do_ldl m r offset reg) (offset + 7) reg = guest_dword m (reg + offset)"
  by (intro conjI unaligned_word_load unaligned_dword_load)

lemma LD_guest: "(reg + offset) AND 7 = 0 \<Longrightarrow> LD m offset reg = guest_dword m (reg + offset)"
proof -
  assume d: "(reg + offset) AND 7 = 0"
  have "LD m offset reg = load_doubleword m 0 (reg + offset)"
    by (simp add: LD_def load_doubleword_def MEM_W_def algebra_simps)
  also have "\<dots> = guest_dword m (reg + offset)"
    by (rule byte_eqI) (simp add: byte_of_load_doubleword [OF d] byte_of_guest_dword)
  finally show ?thesis .
qed

section \<open>Writing a run of guest bytes\<close>

fun guest_put :: "u64 \<Rightarrow> bytes \<Rightarrow> rdram \<Rightarrow> rdram" where
  "guest_put a [] m = m"
| "guest_put a (b # bs) m = guest_put (a + 1) bs (m(mem_offset a XOR 3 := b))"

definition be_bytes :: "nat \<Rightarrow> 'a::len word \<Rightarrow> bytes" where
  "be_bytes n w = map (\<lambda>i. byte_of i w) (rev [0..<n])"

lemma xor_left_eq [simp]: "(x::u64) XOR a = x XOR b \<longleftrightarrow> a = b"
proof
  assume "x XOR a = x XOR b"
  then have "x XOR (x XOR a) = x XOR (x XOR b)" by simp
  then show "a = b" by (simp add: xor.assoc [symmetric])
qed simp

lemma xor_right_eq [simp]: "(x::u64) XOR a = y XOR a \<longleftrightarrow> x = y"
  by (simp add: xor.commute [of _ a])

lemma mod_add_eq_less:
  fixes u :: nat
  assumes "i < n" and "j < n" and "(u + i) mod n = (u + j) mod n"
  shows "i = j"
proof (rule ccontr)
  assume "i \<noteq> j"
  then consider "i < j" | "j < i" by linarith
  then have "n dvd (max i j - min i j)"
    using assms mod_eq_dvd_iff_nat [of "u + i" "u + j" n] mod_eq_dvd_iff_nat [of "u + j" "u + i" n] by cases simp_all
  moreover have "0 < max i j - min i j" "max i j - min i j < n" using \<open>i \<noteq> j\<close> assms by auto
  ultimately show False by (auto dest: nat_dvd_not_less)
qed

lemma mem_offset_plus_eq:
  assumes "i < 2 ^ 30" and "j < 2 ^ 30"
  shows "mem_offset (a + of_nat i) = mem_offset (a + of_nat j) \<longleftrightarrow> i = j"
proof
  assume eq: "mem_offset (a + of_nat i) = mem_offset (a + of_nat j)"
  have u: "unat (mem_offset (a + of_nat k)) = (unat a + k) mod 2 ^ 30" if "k < 2 ^ 30" for k
  proof -
    have "unat (of_nat k :: u64) = k" using that by (simp add: unat_of_nat)
    then show ?thesis unfolding mem_offset_eq unsigned_take_bit_eq unat_word_ariths
      by (simp add: take_bit_eq_mod mod_mod_cancel)
  qed
  have "(unat a + i) mod 2 ^ 30 = (unat a + j) mod 2 ^ 30"
    using eq unfolding u [OF assms(1), symmetric] u [OF assms(2), symmetric] by simp
  then show "i = j" by (rule mod_add_eq_less [OF assms])
qed simp

lemma guest_put_append: "guest_put a (xs @ ys) m = guest_put (a + of_nat (length xs)) ys (guest_put a xs m)"
  by (induction xs arbitrary: a m) (simp_all add: add.assoc)


lemma guest_put_upd:
  assumes "\<And>j. j < length ys \<Longrightarrow> q \<noteq> mem_offset (b + of_nat j) XOR 3"
  shows "guest_put b ys (m(q := v)) = (guest_put b ys m)(q := v)"
  using assms
proof (induction ys arbitrary: b m)
  case (Cons y ys)
  have "q \<noteq> mem_offset b XOR 3" using Cons.prems [of 0] by simp
  then have tw: "(m(q := v))(mem_offset b XOR 3 := y) = (m(mem_offset b XOR 3 := y))(q := v)"
    by (rule fun_upd_twist)
  have "q \<noteq> mem_offset (b + 1 + of_nat j) XOR 3" if "j < length ys" for j
    using Cons.prems [of "Suc j"] that by (simp add: add.assoc)
  from Cons.IH [OF this] show ?case by (simp only: guest_put.simps tw)
qed simp

lemma guest_put_other:
  assumes "\<And>j. j < length ys \<Longrightarrow> q \<noteq> mem_offset (b + of_nat j) XOR 3"
  shows "guest_put b ys m q = m q"
proof -
  have "guest_put b ys m q = guest_put b ys (m(q := m q)) q" by simp
  also have "\<dots> = m q" by (subst guest_put_upd [OF assms]) simp_all
  finally show ?thesis .
qed

lemma guest_byte_put:
  assumes "j < 2 ^ 30" and "length bs \<le> 2 ^ 30"
  shows "guest_byte (guest_put a bs m) (a + of_nat j) = (if j < length bs then bs ! j else guest_byte m (a + of_nat j))"
  using assms
proof (induction bs arbitrary: a m j)
  case (Cons b bs)
  show ?case
  proof (cases j)
    case 0
    have "mem_offset (a + of_nat 0) \<noteq> mem_offset (a + of_nat (Suc i))" if "i < length bs" for i
      using that Cons.prems by (subst mem_offset_plus_eq) simp_all
    then have "guest_put (a + 1) bs (m(mem_offset a XOR 3 := b)) (mem_offset a XOR 3) = b"
      by (subst guest_put_other) (simp_all add: add.assoc)
    then show ?thesis using 0 by (simp add: guest_byte_def)
  next
    case (Suc i)
    have "mem_offset (a + of_nat (Suc i)) \<noteq> mem_offset (a + of_nat 0)"
      using Suc Cons.prems by (subst mem_offset_plus_eq) simp_all
    then have "guest_byte (m(mem_offset a XOR 3 := b)) (a + of_nat (Suc i)) = guest_byte m (a + of_nat (Suc i))"
      by (simp add: guest_byte_def)
    moreover have "a + of_nat (Suc i) = a + 1 + of_nat i" "Suc i < length (b # bs) \<longleftrightarrow> i < length bs" by simp_all
    moreover have "guest_byte (guest_put (a + 1) bs (m(mem_offset a XOR 3 := b))) (a + 1 + of_nat i) =
        (if i < length bs then bs ! i else guest_byte (m(mem_offset a XOR 3 := b)) (a + 1 + of_nat i))"
      using Suc Cons.prems by (intro Cons.IH) simp_all
    ultimately show ?thesis by (simp only: Suc guest_put.simps nth_Cons_Suc)
  qed
qed simp

definition guest_bytes :: "rdram \<Rightarrow> u64 \<Rightarrow> nat \<Rightarrow> bytes" where
  "guest_bytes m a n = map (\<lambda>j. guest_byte m (a + of_nat j)) [0..<n]"

lemma length_be_bytes [simp]: "length (be_bytes n w) = n"
  by (simp add: be_bytes_def)

lemma guest_bytes_put: "length bs \<le> 2 ^ 30 \<Longrightarrow> guest_bytes (guest_put a bs m) a (length bs) = bs"
  by (rule nth_equalityI) (simp_all add: guest_bytes_def guest_byte_put)

text \<open>Writing back what is there changes nothing.\<close>

lemma guest_bytes_Suc: "guest_bytes m a (Suc n) = guest_byte m a # guest_bytes m (a + 1) n"
  by (simp add: guest_bytes_def upt_conv_Cons map_Suc_upt [symmetric] add.assoc del: upt_Suc)

lemma guest_put_same: "guest_put a (guest_byte m a # bs) m = guest_put (a + 1) bs m"
  by (simp add: guest_byte_def)

lemma guest_put_guest_bytes: "guest_put a (guest_bytes m a n) m = m"
proof (induction n arbitrary: a)
  case (Suc n)
  then show ?case by (simp add: guest_bytes_Suc guest_put_same del: guest_put.simps)
qed (simp add: guest_bytes_def)

lemma guest_put_idem: "length bs \<le> 2 ^ 30 \<Longrightarrow> guest_put a bs (guest_put a bs m) = guest_put a bs m"
  using guest_put_guest_bytes [of a "guest_put a bs m" "length bs"] by (simp add: guest_bytes_put)

lemma guest_put_tail:
  assumes "length xs + n \<le> 2 ^ 30"
  shows "guest_put a (xs @ guest_bytes m (a + of_nat (length xs)) n) m = guest_put a xs m"
proof -
  let ?b = "a + of_nat (length xs)"
  have "guest_bytes (guest_put a xs m) ?b n = guest_bytes m ?b n"
  proof (rule nth_equalityI)
    fix i assume "i < length (guest_bytes (guest_put a xs m) ?b n)"
    then have i: "i < n" by (simp add: guest_bytes_def)
    have "guest_byte (guest_put a xs m) (a + of_nat (length xs + i)) = guest_byte m (a + of_nat (length xs + i))"
      using i assms by (subst guest_byte_put) simp_all
    with i show "guest_bytes (guest_put a xs m) ?b n ! i = guest_bytes m ?b n ! i"
      by (simp add: guest_bytes_def add.assoc)
  qed (simp add: guest_bytes_def)
  then show ?thesis using guest_put_guest_bytes [of ?b "guest_put a xs m" n]
    by (simp add: guest_put_append)
qed

lemma guest_put_commute:
  assumes "length xs + length ys \<le> 2 ^ 30"
  shows "guest_put a xs (guest_put (a + of_nat (length xs)) ys m) = guest_put a (xs @ ys) m"
  using assms
proof (induction xs arbitrary: a m)
  case (Cons x xs)
  let ?b = "a + of_nat (length (x # xs))"
  have "mem_offset a XOR 3 \<noteq> mem_offset (?b + of_nat j) XOR 3" if "j < length ys" for j
  proof -
    have "mem_offset (a + of_nat 0) \<noteq> mem_offset (a + of_nat (length (x # xs) + j))"
      using that Cons.prems by (subst mem_offset_plus_eq) simp_all
    then show ?thesis by (simp add: add.assoc)
  qed
  then have "(guest_put ?b ys m)(mem_offset a XOR 3 := x) = guest_put ?b ys (m(mem_offset a XOR 3 := x))"
    by (simp add: guest_put_upd)
  moreover have "?b = a + 1 + of_nat (length xs)" by simp
  moreover have "guest_put (a + 1) xs (guest_put (a + 1 + of_nat (length xs)) ys (m(mem_offset a XOR 3 := x)))
      = guest_put (a + 1) (xs @ ys) (m(mem_offset a XOR 3 := x))"
    using Cons.prems by (intro Cons.IH) simp
  ultimately show ?case by (simp only: guest_put.simps append_Cons)
qed simp

section \<open>Stores\<close>

lemma be_bytes_4: "be_bytes 4 w = [byte_of 3 w, byte_of 2 w, byte_of 1 w, byte_of 0 w]"
  by (simp add: be_bytes_def upt_rec numeral_eq_Suc)

lemma set_MEM_W_put:
  assumes "(reg + offset) AND 3 = 0"
  shows "set_MEM_W offset reg v m = guest_put (reg + offset) (be_bytes 4 v) m"
proof -
  let ?a = "reg + offset" let ?p = "mem_offset ?a"
  have sums: "?a + 1 + 1 = ?a + 2" "?a + 2 + 1 = ?a + 3" by (simp_all add: add.assoc)
  have q: "mem_offset (?a + 1) = ?p XOR 1" "mem_offset (?a + 2) = ?p XOR 2" "mem_offset (?a + 3) = ?p XOR 3"
    by (simp_all only: aligned_plus [OF assms] mem_offset_xor)
  have p: "?p + 1 = ?p XOR 1" "?p + 2 = ?p XOR 2" "?p + 3 = ?p XOR 3"
    using aligned_plus [OF mem_offset_aligned [OF assms]] by simp_all
  have ne: "?p \<noteq> ?p XOR 1" "?p \<noteq> ?p XOR 2" "?p \<noteq> ?p XOR 3"
    using xor_left_eq [of ?p 0 1] xor_left_eq [of ?p 0 2] xor_left_eq [of ?p 0 3] by simp_all
  show ?thesis
    unfolding set_MEM_W_def poke32_def be_bytes_4 guest_put.simps sums p q xor_word_consts
    using ne by (auto simp: fun_eq_iff)
qed

lemma guest_bytes_4:
  "guest_bytes m a 0 = []" "guest_bytes m a 2 = [guest_byte m a, guest_byte m (a + 1)]"
  "guest_bytes m a 3 = [guest_byte m a, guest_byte m (a + 1), guest_byte m (a + 2)]"
  by (simp_all add: guest_bytes_def upt_rec numeral_eq_Suc)

lemma guest_bytes_1: "guest_bytes m a (Suc 0) = [guest_byte m a]"
  by (simp add: guest_bytes_def)

lemma do_swl_put:
  "do_swl offset reg val m =
     guest_put (reg + offset) (take (4 - unat ((reg + offset) AND 3)) (be_bytes 4 (ucast val :: u32))) m"
proof -
  let ?a = "reg + offset" let ?k = "unat (?a AND 3)" let ?w = "?a AND NOT 3" let ?v = "ucast val :: u32"
  define V where "V = (MEM_W m 0 ?w AND NOT (drop_bit (8 * ?k) 0xFFFFFFFF)) OR drop_bit (8 * ?k) ?v"
  have "do_swl offset reg val m = set_MEM_W 0 ?w V m"
    by (simp only: do_swl_def Let_def misalignment_shift add.commute [of offset] V_def)
  also have "\<dots> = guest_put ?w (be_bytes 4 V) m"
    using set_MEM_W_put [of ?w 0 V m] word_address_plus(3) [of ?a] by simp
  finally have s: "do_swl offset reg val m = guest_put ?w (be_bytes 4 V) m" .
  have V: "byte_of i V = (if i + ?k < 4 then byte_of (i + ?k) ?v else guest_byte m (?w + of_nat (3 - i)))" if "i < 4" for i
    unfolding V_def byte_of_bitwise bytes_32 [OF that] byte_of_aligned_word [OF word_address_plus(3) that]
    using that by (simp add: bytes_32)
  have a: "?a = ?w + of_nat ?k" using word_address_plus(1) [of ?a] by simp
  have "?k < 4" by (rule misalignment_shift)
  then consider "?k = 0" | "?k = 1" | "?k = 2" | "?k = 3" by linarith
  then have "guest_put ?w (be_bytes 4 V) m = guest_put (?w + of_nat ?k) (take (4 - ?k) (be_bytes 4 ?v)) m"
    by cases (simp_all add: be_bytes_4 V guest_put_same add.assoc
      flip: numeral_2_eq_2 numeral_3_eq_3 del: guest_put.simps)
  then show ?thesis unfolding s a [symmetric] .
qed

lemma do_swr_put:
  "do_swr offset reg val m =
     guest_put ((reg + offset) AND NOT 3) (drop (3 - unat ((reg + offset) AND 3)) (be_bytes 4 (ucast val :: u32))) m"
proof -
  let ?a = "reg + offset" let ?k = "unat (?a AND 3)" let ?w = "?a AND NOT 3" let ?v = "ucast val :: u32"
  define s where "s = 3 - ?k"
  define V where "V = (MEM_W m 0 ?w AND NOT (push_bit (8 * s) 0xFFFFFFFF)) OR push_bit (8 * s) ?v"
  have "do_swr offset reg val m = set_MEM_W 0 ?w V m"
    by (simp only: do_swr_def Let_def misalignment_shift add.commute [of offset] V_def s_def)
  also have "\<dots> = guest_put ?w (be_bytes 4 V) m"
    using set_MEM_W_put [of ?w 0 V m] word_address_plus(3) [of ?a] by simp
  finally have e: "do_swr offset reg val m = guest_put ?w (be_bytes 4 V) m" .
  have V: "byte_of i V = (if s \<le> i then byte_of (i - s) ?v else guest_byte m (?w + of_nat (3 - i)))" if "i < 4" for i
    unfolding V_def byte_of_bitwise bytes_32 [OF that] byte_of_aligned_word [OF word_address_plus(3) that]
    using that by (simp add: bytes_32)
  have "s < 4" by (simp add: s_def)
  then consider "s = 0" | "s = 1" | "s = 2" | "s = 3" by linarith
  then have "be_bytes 4 V = drop s (be_bytes 4 ?v) @ guest_bytes m (?w + of_nat (4 - s)) s"
    by cases (simp_all add: be_bytes_4 V guest_bytes_4 guest_bytes_1 add.assoc
      flip: numeral_2_eq_2 numeral_3_eq_3)
  then have "guest_put ?w (be_bytes 4 V) m = guest_put ?w (drop s (be_bytes 4 ?v)) m"
    using guest_put_tail [of "drop s (be_bytes 4 ?v)" s ?w m] \<open>s < 4\<close> by simp
  then show ?thesis unfolding e s_def .
qed

text \<open>An SWL followed by an SWR three bytes further writes the four bytes of the low word of
  the register at any address, most significant first, and changes nothing else.\<close>

lemma unaligned_word_store:
  "do_swr (offset + 3) reg val (do_swl offset reg val m) = guest_put (reg + offset) (be_bytes 4 (ucast val :: u32)) m"
proof -
  let ?a = "reg + offset" let ?k = "unat (?a AND 3)" let ?k' = "unat ((?a + 3) AND 3)"
  let ?bs = "be_bytes 4 (ucast val :: u32)"
  have a3: "reg + (offset + 3) = ?a + 3" by simp
  have k': "?k' = (?k + 3) mod 4" by (rule misalignment_next)
  have w': "(?a + 3) AND NOT 3 = ?a + 3 - of_nat ?k'" using word_address_plus(1) [of "?a + 3"] by (metis add_diff_cancel)
  have eq: "do_swr (offset + 3) reg val (do_swl offset reg val m) =
      guest_put (?a + 3 - of_nat ?k') (drop (3 - ?k') ?bs) (guest_put ?a (take (4 - ?k) ?bs) m)"
    unfolding do_swl_put do_swr_put a3 w' ..
  show ?thesis
  proof (cases "?k = 0")
    case True
    then have "?k' = 3" unfolding k' by simp
    with True show ?thesis unfolding eq by (simp add: guest_put_idem)
  next
    case False
    then have k: "?k' = ?k - 1" "?k < 4" unfolding k' using misalignment_shift(5) [of ?a] by (simp_all add: mod_if)
    with False have "3 - ?k' = 4 - ?k" "?a + 3 - of_nat ?k' = ?a + of_nat (length (take (4 - ?k) ?bs))"
      by (simp_all add: of_nat_diff)
    then show ?thesis unfolding eq by (simp only: guest_put_append [symmetric] append_take_drop_id)
  qed
qed

lemma be_bytes_8:
  "be_bytes 8 w = [byte_of 7 w, byte_of 6 w, byte_of 5 w, byte_of 4 w, byte_of 3 w, byte_of 2 w, byte_of 1 w, byte_of 0 w]"
  by (simp add: be_bytes_def upt_rec numeral_eq_Suc)

text \<open>The two word stores of a doubleword, high word first in memory.\<close>

lemma set_dword_put:
  assumes d: "d AND 7 = 0"
  shows "set_MEM_W 0 (d + 0) (ucast (drop_bit 32 v)) (set_MEM_W 0 (d + 4) (ucast v) m) = guest_put d (be_bytes 8 (v::u64)) m"
proof -
  let ?h = "be_bytes 4 (ucast (drop_bit 32 v) :: u32)" let ?l = "be_bytes 4 (ucast v :: u32)"
  have "set_MEM_W 0 (d + 0) (ucast (drop_bit 32 v)) (set_MEM_W 0 (d + 4) (ucast v) m)
      = guest_put d ?h (guest_put (d + 4) ?l m)"
    using set_MEM_W_put [of d 0] set_MEM_W_put [of "d + 4" 0] aligned_8 [OF d] by simp
  also have "\<dots> = guest_put d (?h @ ?l) m"
    using guest_put_commute [of ?h ?l d m] by simp
  also have "?h @ ?l = be_bytes 8 v"
  proof -
    have "byte_of i (ucast (drop_bit 32 v) :: u32) = byte_of (i + 4) v" "byte_of i (ucast v :: u32) = byte_of i v"
      if "i < 4" for i
      using that byte_of_drop_bit [of i 4 v] by (simp_all add: bytes_32)
    then show ?thesis by (simp add: be_bytes_4 be_bytes_8)
  qed
  finally show ?thesis .
qed

lemma SD_put:
  assumes d: "(reg + offset) AND 7 = 0"
  shows "SD val offset reg m = guest_put (reg + offset) (be_bytes 8 val) m"
  using set_dword_put [OF d, of val m]
  by (simp add: SD_def set_MEM_W_def)

lemma byte_less_8: "(i::nat) < 8 \<Longrightarrow> i = 0 \<or> i = 1 \<or> i = 2 \<or> i = 3 \<or> i = 4 \<or> i = 5 \<or> i = 6 \<or> i = 7"
  by arith

lemma be_bytes_merge_high:
  assumes V: "\<And>i. i < n \<Longrightarrow> byte_of i V = (if i + k < n then byte_of (i + k) v else g (n - 1 - i))" and k: "k \<le> n"
  shows "be_bytes n V = map g [0..<k] @ take (n - k) (be_bytes n v)"
  using k by (intro nth_equalityI) (auto simp: be_bytes_def rev_nth nth_append V)

lemma be_bytes_merge_low:
  assumes V: "\<And>i. i < n \<Longrightarrow> byte_of i V = (if s \<le> i then byte_of (i - s) v else g (n - 1 - i))" and s: "s \<le> n"
  shows "be_bytes n V = drop s (be_bytes n v) @ map g [n - s..<n]"
  using s by (intro nth_equalityI) (auto simp: be_bytes_def rev_nth nth_append V add.commute)


lemma guest_put_head: "guest_put a (guest_bytes m a k @ ys) m = guest_put (a + of_nat k) ys m"
  by (simp add: guest_put_append guest_put_guest_bytes) (simp add: guest_bytes_def)

lemma guest_bytes_shift: "map (\<lambda>j. guest_byte m (a + of_nat j)) [n - s..<n] = guest_bytes m (a + of_nat (n - s)) s" if "s \<le> n"
  using that by (intro nth_equalityI) (simp_all add: guest_bytes_def algebra_simps)

lemma do_sdl_put:
  "do_sdl offset reg val m =
     guest_put (reg + offset) (take (8 - unat ((reg + offset) AND 7)) (be_bytes 8 val)) m"
proof -
  let ?a = "reg + offset" let ?k = "unat (?a AND 7)" let ?d = "?a AND NOT 7"
  define V where "V = (load_doubleword m 0 ?d AND NOT (drop_bit (8 * ?k) 0xFFFFFFFFFFFFFFFF)) OR drop_bit (8 * ?k) val"
  have k: "?k < 8" by (rule misalignment_shift)
  have "do_sdl offset reg val m =
      set_MEM_W 0 (?d + 0) (ucast (drop_bit 32 V)) (set_MEM_W 0 (?d + 4) (ucast V) m)"
    by (simp only: do_sdl_def Let_def misalignment_shift add.commute [of offset] V_def)
  then have e: "do_sdl offset reg val m = guest_put ?d (be_bytes 8 V) m"
    by (simp only: set_dword_put [OF word_address_plus(4)])
  have "byte_of i V = (if i + ?k < 8 then byte_of (i + ?k) val else guest_byte m (?d + of_nat (8 - 1 - i)))" if "i < 8" for i
    unfolding V_def byte_of_bitwise bytes_64 [OF that] byte_of_load_doubleword [OF word_address_plus(4) that]
    using that by (simp add: bytes_64)
  then have "be_bytes 8 V = guest_bytes m ?d ?k @ take (8 - ?k) (be_bytes 8 val)"
    unfolding guest_bytes_def using k by (intro be_bytes_merge_high) simp_all
  then show ?thesis unfolding e by (simp only: guest_put_head word_address_plus(2))
qed

lemma do_sdr_put:
  "do_sdr offset reg val m =
     guest_put ((reg + offset) AND NOT 7) (drop (7 - unat ((reg + offset) AND 7)) (be_bytes 8 val)) m"
proof -
  let ?a = "reg + offset" let ?d = "?a AND NOT 7"
  define s where "s = 7 - unat (?a AND 7)"
  define V where "V = (load_doubleword m 0 ?d AND NOT (push_bit (8 * s) 0xFFFFFFFFFFFFFFFF)) OR push_bit (8 * s) val"
  have s: "s < 8" by (simp add: s_def)
  have "do_sdr offset reg val m =
      set_MEM_W 0 (?d + 0) (ucast (drop_bit 32 V)) (set_MEM_W 0 (?d + 4) (ucast V) m)"
    by (simp only: do_sdr_def Let_def misalignment_shift add.commute [of offset] V_def s_def)
  then have e: "do_sdr offset reg val m = guest_put ?d (be_bytes 8 V) m"
    by (simp only: set_dword_put [OF word_address_plus(4)])
  have "byte_of i V = (if s \<le> i then byte_of (i - s) val else guest_byte m (?d + of_nat (8 - 1 - i)))" if "i < 8" for i
    unfolding V_def byte_of_bitwise bytes_64 [OF that] byte_of_load_doubleword [OF word_address_plus(4) that]
    using that by (simp add: bytes_64)
  then have "be_bytes 8 V = drop s (be_bytes 8 val) @ map (\<lambda>j. guest_byte m (?d + of_nat j)) [8 - s..<8]"
    using s by (intro be_bytes_merge_low) simp_all
  then have "be_bytes 8 V = drop s (be_bytes 8 val) @ guest_bytes m (?d + of_nat (8 - s)) s"
    using s by (simp only: guest_bytes_shift less_imp_le)
  then have "guest_put ?d (be_bytes 8 V) m = guest_put ?d (drop s (be_bytes 8 val)) m"
    using guest_put_tail [of "drop s (be_bytes 8 val)" s ?d m] s by simp
  then show ?thesis unfolding e s_def .
qed

text \<open>An SDL followed by an SDR seven bytes further writes the eight bytes of the register at
  any address and changes nothing else.\<close>

lemma unaligned_dword_store:
  "do_sdr (offset + 7) reg val (do_sdl offset reg val m) = guest_put (reg + offset) (be_bytes 8 val) m"
proof -
  let ?a = "reg + offset" let ?k = "unat (?a AND 7)" let ?k' = "unat ((?a + 7) AND 7)"
  let ?bs = "be_bytes 8 val"
  have a7: "reg + (offset + 7) = ?a + 7" by simp
  have k': "?k' = (?k + 7) mod 8" by (rule misalignment_next)
  have w': "(?a + 7) AND NOT 7 = ?a + 7 - of_nat ?k'" using word_address_plus(2) [of "?a + 7"] by (metis add_diff_cancel)
  have eq: "do_sdr (offset + 7) reg val (do_sdl offset reg val m) =
      guest_put (?a + 7 - of_nat ?k') (drop (7 - ?k') ?bs) (guest_put ?a (take (8 - ?k) ?bs) m)"
    unfolding do_sdl_put do_sdr_put a7 w' ..
  show ?thesis
  proof (cases "?k = 0")
    case True
    then have "?k' = 7" unfolding k' by simp
    with True show ?thesis unfolding eq by (simp add: guest_put_idem)
  next
    case False
    then have k: "?k' = ?k - 1" "?k < 8" unfolding k' using misalignment_shift(6) [of ?a] by (simp_all add: mod_if)
    with False have "7 - ?k' = 8 - ?k" "?a + 7 - of_nat ?k' = ?a + of_nat (length (take (8 - ?k) ?bs))"
      by (simp_all add: of_nat_diff)
    then show ?thesis unfolding eq by (simp only: guest_put_append [symmetric] append_take_drop_id)
  qed
qed

text \<open>C21: the two halves of an unaligned store write the register's bytes at any address, most significant first, and change nothing
  else: an SWL followed by an SWR three bytes further the four of its low word, an SDL followed by an SDR seven bytes further all eight.\<close>

theorem unaligned_stores:
  "do_swr (offset + 3) reg val (do_swl offset reg val m) = guest_put (reg + offset) (be_bytes 4 (ucast val :: u32)) m \<and>
   do_sdr (offset + 7) reg val (do_sdl offset reg val m) = guest_put (reg + offset) (be_bytes 8 val) m"
  by (intro conjI unaligned_word_store unaligned_dword_store)

section \<open>Aligned accesses\<close>





text \<open>An aligned word lies inside the window: no access at an aligned address leaves it.\<close>

lemma aligned_word_in_window:
  assumes "(reg + offset) AND 3 = 0"
  shows "unat (mem_offset (reg + offset)) + 3 < 2 ^ 30"
proof -
  let ?p = "mem_offset (reg + offset)"
  have al: "?p AND 3 = 0" using assms by (rule mem_offset_aligned)
  have "unat ?p < 2 ^ 30"
    unfolding mem_offset_eq by (simp only: unsigned_take_bit_eq) (simp add: take_bit_eq_mod)
  moreover have "unat ?p mod 4 = 0"
  proof -
    have "take_bit 2 ?p = 0" using al by (simp add: take_bit_eq_mask mask_eq_exp_minus_1)
    then have "take_bit 2 (unat ?p) = 0" by (simp flip: unsigned_take_bit_eq)
    then show ?thesis by (simp add: take_bit_eq_mod)
  qed
  then obtain q where "unat ?p = 4 * q" by (auto elim: dvdE simp: mod_eq_0_iff_dvd)
  ultimately show ?thesis by simp
qed

lemma unaligned_word_leaves_window: "unat (mem_offset 0xFFFFFFFFBFFFFFFF) + 3 \<ge> 2 ^ 30"
  by (simp add: mem_offset_def RECOMP_MEM_MASK_def)

end
