(* ===== verification/Guest_Arithmetic.thy ===== *)
theory Guest_Arithmetic
  imports Guest_Memory
begin

text \<open>
  The arithmetic helpers of \<open>recomp.h\<close>: the limb products agree with the 128-bit products, the
  guarded divisions are the truncating divisions wrapped to 64 bits, and the relocation halves
  put an address together again.
\<close>

section \<open>Products\<close>

lemma limb_product:
  fixes al ah bl bh B :: nat
  assumes "0 < B"
  defines "L \<equiv> al * bl" and "M \<equiv> al * bh" and "N \<equiv> ah * bl" and "H \<equiv> ah * bh"
  defines "c \<equiv> L div B + M mod B + N mod B"
  defines "lo \<equiv> L mod B + B * (c mod B)" and "hi \<equiv> H + M div B + N div B + c div B"
  shows "(al + B * ah) * (bl + B * bh) = lo + B * B * hi" and "lo < B * B"
proof -
  have d: "x = x mod B + B * (x div B)" for x by simp
  have "B * c = B * (L div B) + B * (M mod B) + B * (N mod B)" by (simp add: c_def algebra_simps)
  moreover have "B * M = B * (M mod B) + B * B * (M div B)" "B * N = B * (N mod B) + B * B * (N div B)"
    using d [of M] d [of N] by (metis distrib_left mult.assoc)+
  moreover have "B * c = B * (c mod B) + B * B * (c div B)" using d [of c] by (metis distrib_left mult.assoc)
  moreover have "L = L mod B + B * (L div B)" by simp
  moreover have "(al + B * ah) * (bl + B * bh) = L + B * M + B * N + B * B * H"
    by (simp add: L_def M_def N_def H_def algebra_simps)
  moreover have "B * B * hi = B * B * H + B * B * (M div B) + B * B * (N div B) + B * B * (c div B)"
    by (simp add: hi_def algebra_simps)
  ultimately show "(al + B * ah) * (bl + B * bh) = lo + B * B * hi" unfolding lo_def by linarith
  have "L mod B < B" "c mod B \<le> B - 1" using \<open>0 < B\<close> by (simp_all add: Suc_leI less_Suc_eq_le [symmetric])
  then have "lo < B + B * (B - 1)" unfolding lo_def by (meson add_less_le_mono mult_le_mono2)
  also have "\<dots> = B * B" using \<open>0 < B\<close> by (cases B) simp_all
  finally show "lo < B * B" .
qed

lemma unat_mult_32: "unat (a::u64) < 2 ^ 32 \<Longrightarrow> unat b < 2 ^ 32 \<Longrightarrow> unat (a * b) = unat a * unat b"
proof -
  assume "unat a < 2 ^ 32" "unat b < 2 ^ 32"
  then have "unat a * unat b < 2 ^ 32 * 2 ^ 32" by (rule mult_strict_mono) simp_all
  then show ?thesis by (simp add: unat_word_ariths)
qed

lemma unat_limbs: "unat (take_bit 32 (a::u64)) = unat a mod 2 ^ 32" "unat (drop_bit 32 a) = unat a div 2 ^ 32"
  "unat (take_bit 32 a) < 2 ^ 32" "unat (drop_bit 32 a) < 2 ^ 32"
proof -
  have "unat (take_bit 32 a) = take_bit 32 (unat a)" by (rule unsigned_take_bit_eq)
  then show t: "unat (take_bit 32 a) = unat a mod 2 ^ 32" by (simp only: take_bit_eq_mod)
  have "unat (drop_bit 32 a) = drop_bit 32 (unat a)" by (rule unat_drop_bit_eq)
  then show d: "unat (drop_bit 32 a) = unat a div 2 ^ 32" by (simp only: drop_bit_eq_div)
  show "unat (take_bit 32 a) < 2 ^ 32" unfolding t by simp
  have "unat a < 2 ^ 32 * 2 ^ 32" using unsigned_less [of a, where ?'a = nat] by simp
  then show "unat (drop_bit 32 a) < 2 ^ 32" unfolding d by (rule less_mult_imp_div_less)
qed

lemma DMULTU_unat:
  "DMULTU a b = (of_nat (unat a * unat b), of_nat (unat a * unat b div 2 ^ 64))"
proof -
  let ?p = "(ucast a :: 128 word) * ucast b"
  have "unat a * unat b < 2 ^ 64 * 2 ^ 64"
    using unsigned_less [of a, where ?'a = nat] unsigned_less [of b, where ?'a = nat] by (intro mult_strict_mono) simp_all
  then have lt: "unat a * unat b < 2 ^ 128" by simp
  have "?p = of_nat (unat a * unat b)" by simp
  then have u: "unat ?p = unat a * unat b" using lt by (simp only: unat_of_nat) (simp add: take_bit_nat_eq_self)
  have "ucast ?p = (of_nat (unat ?p) :: u64)" "ucast (drop_bit 64 ?p) = (of_nat (unat (drop_bit 64 ?p)) :: u64)"
    by simp_all
  moreover have "unat (drop_bit 64 ?p) = unat a * unat b div 2 ^ 64"
    using u by (simp only: unat_drop_bit_eq) (simp only: drop_bit_eq_div)
  ultimately show ?thesis unfolding DMULTU_def Let_def by (simp only: u)
qed

lemma of_nat_unat_u64: "of_nat (unat (x::u64)) = x"
  by simp

lemma DMULTU_limbs_nat:
  fixes a b :: u64
  defines "al \<equiv> unat (take_bit 32 a)" and "ah \<equiv> unat (drop_bit 32 a)"
    and "bl \<equiv> unat (take_bit 32 b)" and "bh \<equiv> unat (drop_bit 32 b)"
  defines "c \<equiv> al * bl div 2 ^ 32 + al * bh mod 2 ^ 32 + ah * bl mod 2 ^ 32"
  shows "DMULTU_limbs a b = (of_nat (al * bl mod 2 ^ 32 + 2 ^ 32 * (c mod 2 ^ 32)),
    of_nat (ah * bh + al * bh div 2 ^ 32 + ah * bl div 2 ^ 32 + c div 2 ^ 32))"
proof -
  let ?al = "take_bit 32 a" let ?ah = "drop_bit 32 a" let ?bl = "take_bit 32 b" let ?bh = "drop_bit 32 b"
  let ?cross = "drop_bit 32 (?al * ?bl) + take_bit 32 (?al * ?bh) + take_bit 32 (?ah * ?bl)"
  note um = unat_mult_32 [OF unat_limbs(3,3), of a b] unat_mult_32 [OF unat_limbs(3,4), of a b]
    unat_mult_32 [OF unat_limbs(4,3), of a b] unat_mult_32 [OF unat_limbs(4,4), of a b]
  note um' = um [folded al_def ah_def bl_def bh_def]
  have parts: "unat (drop_bit 32 (?al * ?bl)) = al * bl div 2 ^ 32" "unat (take_bit 32 (?al * ?bh)) = al * bh mod 2 ^ 32"
    "unat (take_bit 32 (?ah * ?bl)) = ah * bl mod 2 ^ 32" "unat (drop_bit 32 (?al * ?bh)) = al * bh div 2 ^ 32"
    "unat (drop_bit 32 (?ah * ?bl)) = ah * bl div 2 ^ 32" "unat (take_bit 32 (?al * ?bl)) = al * bl mod 2 ^ 32"
    by (simp_all only: unat_limbs(1,2) [of "_ * _"] um')
  have "al < 2 ^ 32" "bl < 2 ^ 32" unfolding al_def bl_def by (rule unat_limbs)+
  then have "al * bl < 2 ^ 32 * 2 ^ 32" by (rule mult_strict_mono) simp_all
  then have "al * bl div 2 ^ 32 < 2 ^ 32" by (rule less_mult_imp_div_less)
  moreover have "al * bh mod 2 ^ 32 < 2 ^ 32" "ah * bl mod 2 ^ 32 < 2 ^ 32" by simp_all
  ultimately have "c < 2 ^ 64" unfolding c_def by simp
  have cr: "?cross = of_nat c"
    unfolding c_def of_nat_add parts [symmetric] of_nat_unat_u64 ..
  then have uc: "unat ?cross = c" using \<open>c < 2 ^ 64\<close> by (simp only: unat_of_nat) (simp add: take_bit_nat_eq_self)
  have lo: "(?al * ?bl AND 0xFFFFFFFF) OR push_bit 32 ?cross = of_nat (al * bl mod 2 ^ 32 + 2 ^ 32 * (c mod 2 ^ 32))"
  proof -
    have m: "x AND 0xFFFFFFFF = take_bit 32 x" for x :: u64 by (simp add: take_bit_eq_mask mask_eq_exp_minus_1)
    have "take_bit 32 x AND push_bit 32 y = 0" for x y :: u64 by (rule bit_eqI) (auto simp: bit_simps)
    then have "(?al * ?bl AND 0xFFFFFFFF) OR push_bit 32 ?cross = take_bit 32 (?al * ?bl) + push_bit 32 ?cross"
      unfolding m by (simp only: disjunctive_add_eq_or)
    moreover have "push_bit 32 ?cross = push_bit 32 (take_bit 32 ?cross)" by (rule bit_eqI) (auto simp: bit_simps)
    moreover have "push_bit 32 (take_bit 32 ?cross) = 2 ^ 32 * of_nat (c mod 2 ^ 32)"
      using unat_limbs(1) [of ?cross] unfolding uc push_bit_eq_mult by (metis mult.commute of_nat_unat_u64)
    moreover have "take_bit 32 (?al * ?bl) = of_nat (al * bl mod 2 ^ 32)"
      unfolding parts [symmetric] of_nat_unat_u64 ..
    ultimately show ?thesis by (simp only: of_nat_add of_nat_mult of_nat_power of_nat_numeral)
  qed
  have "?ah * ?bh = of_nat (ah * bh)" unfolding um' [symmetric] of_nat_unat_u64 ..
  moreover have "drop_bit 32 ?cross = of_nat (c div 2 ^ 32)"
    using unat_limbs(2) [of ?cross] unfolding uc by (metis of_nat_unat_u64)
  moreover have "drop_bit 32 (?al * ?bh) = of_nat (al * bh div 2 ^ 32)" "drop_bit 32 (?ah * ?bl) = of_nat (ah * bl div 2 ^ 32)"
    unfolding parts [symmetric] of_nat_unat_u64 by (rule refl)+
  ultimately show ?thesis unfolding DMULTU_limbs_def Let_def lo by (simp only: of_nat_add)
qed

lemma DMULTU_limbs_correct: "DMULTU_limbs a b = DMULTU a b"
proof -
  let ?B = "2 ^ 32 :: nat"
  have split: "unat x = unat (take_bit 32 x) + ?B * unat (drop_bit 32 x)" for x :: u64
    unfolding unat_limbs by simp
  have "0 < ?B" by simp
  note P = limb_product [OF this, where al = "unat (take_bit 32 a)" and ah = "unat (drop_bit 32 a)"
      and bl = "unat (take_bit 32 b)" and bh = "unat (drop_bit 32 b)", folded split]
  have BB: "?B * ?B = 2 ^ 64" by simp
  have div: "unat a * unat b div 2 ^ 64 = h" "of_nat (unat a * unat b) = (of_nat l :: u64)"
    if "unat a * unat b = l + ?B * ?B * h" "l < ?B * ?B" for l h
  proof -
    show "unat a * unat b div 2 ^ 64 = h" using that unfolding BB by simp
    have z: "(of_nat (2 ^ 64) :: u64) = 0" by simp
    show "of_nat (unat a * unat b) = (of_nat l :: u64)"
      unfolding that(1) BB of_nat_add of_nat_mult z by simp
  qed
  note d = div [OF P(1) P(2)]
  show ?thesis unfolding DMULTU_unat DMULTU_limbs_nat d by simp
qed

lemma sint_uint: "sint (a::u64) = uint a - (if sint a < 0 then 2 ^ 64 else 0)"
proof -
  have m: "sint a mod 2 ^ 64 = uint a" by (simp add: uint_sint take_bit_eq_mod)
  have r: "- (2 ^ 63) \<le> sint a" "sint a < 2 ^ 63"
    using sint_greater_eq [of a] sint_lt [of a] by simp_all
  show ?thesis
  proof (cases "sint a < 0")
    case True
    have "sint a mod 2 ^ 64 = (sint a + 2 ^ 64) mod 2 ^ 64" by simp
    also have "\<dots> = sint a + 2 ^ 64" using True r by (intro mod_pos_pos_trivial) simp_all
    finally show ?thesis using m True by simp
  next
    case False
    then have "sint a mod 2 ^ 64 = sint a" using r by (intro mod_pos_pos_trivial) simp_all
    with False m show ?thesis by simp
  qed
qed

lemma DMULT_sint: "DMULT a b = (word_of_int (sint a * sint b), word_of_int (sint a * sint b div 2 ^ 64))"
proof -
  let ?p = "(scast a :: 128 word) * scast b"
  have "\<bar>sint a\<bar> \<le> 2 ^ 63" "\<bar>sint b\<bar> \<le> 2 ^ 63"
    using sint_greater_eq [of a] sint_lt [of a] sint_greater_eq [of b] sint_lt [of b] by simp_all
  then have "\<bar>sint a\<bar> * \<bar>sint b\<bar> \<le> 2 ^ 63 * 2 ^ 63" by (rule mult_mono) simp_all
  then have r: "- (2 ^ 127) \<le> sint a * sint b" "sint a * sint b < 2 ^ 127" unfolding abs_mult [symmetric] by (simp_all add: abs_le_iff)
  have "?p = word_of_int (sint a * sint b)" by simp
  then have s: "sint ?p = sint a * sint b"
    using r by (simp only: sint_sbintrunc') (simp add: signed_take_bit_int_eq_self)
  have "ucast ?p = (word_of_int (sint ?p) :: u64)"
    by (rule bit_eqI) (auto simp: bit_simps)
  moreover have "ucast (signed_drop_bit 64 ?p) = (word_of_int (sint (signed_drop_bit 64 ?p)) :: u64)"
    by (rule bit_eqI) (auto simp: bit_simps)
  moreover have "sint (signed_drop_bit 64 ?p) = sint a * sint b div 2 ^ 64"
    by (simp only: sint_signed_drop_bit_eq s drop_bit_eq_div)
  ultimately show ?thesis unfolding DMULT_def Let_def by (simp only: s)
qed

lemma DMULTU_uint: "DMULTU a b = (word_of_int (uint a * uint b), word_of_int (uint a * uint b div 2 ^ 64))"
proof -
  have e: "of_nat n = (word_of_int (int n) :: u64)" for n by simp
  have "int (unat a * unat b) = uint a * uint b" by simp
  moreover from this have "int (unat a * unat b div 2 ^ 64) = uint a * uint b div 2 ^ 64"
    unfolding zdiv_int by simp
  ultimately show ?thesis unfolding DMULTU_unat e by simp
qed

lemma DMULT_limbs_correct: "DMULT_limbs a b = DMULT a b"
proof -
  obtain na where na: "na = (if sint a < 0 then 1 else (0::int))" by simp
  obtain nb where nb: "nb = (if sint b < 0 then 1 else (0::int))" by simp
  have sa: "sint a = uint a - 2 ^ 64 * na" and sb: "sint b = uint b - 2 ^ 64 * nb"
    using sint_uint [of a] sint_uint [of b] unfolding na nb by (auto split: if_splits)
  have p: "sint a * sint b = uint a * uint b + (2 ^ 64 * (na * nb) - na * uint b - nb * uint a) * 2 ^ 64"
    unfolding sa sb by (simp add: algebra_simps)
  have z: "(word_of_int (2 ^ 64) :: u64) = 0" by simp
  have lo: "(word_of_int (sint a * sint b) :: u64) = word_of_int (uint a * uint b)"
    unfolding p of_int_add of_int_mult z by simp
  have "sint a * sint b div 2 ^ 64 = uint a * uint b div 2 ^ 64 + (2 ^ 64 * (na * nb) - na * uint b - nb * uint a)"
    unfolding p by (subst div_mult_self1) simp_all
  then have "(word_of_int (sint a * sint b div 2 ^ 64) :: u64) =
      word_of_int (uint a * uint b div 2 ^ 64) - word_of_int na * b - word_of_int nb * a"
    by (simp only: of_int_add of_int_diff of_int_mult z) simp
  then have hi: "(word_of_int (sint a * sint b div 2 ^ 64) :: u64) =
      (let u = word_of_int (uint a * uint b div 2 ^ 64); u1 = (if sint a < 0 then u - b else u)
       in if sint b < 0 then u1 - a else u1)"
    by (simp add: Let_def na nb)
  show ?thesis
    unfolding DMULT_limbs_def DMULTU_limbs_correct DMULTU_uint DMULT_sint lo hi by (simp add: Let_def)
qed

text \<open>C22: the 32-bit limb products used where the compiler has no 128-bit integer give the same
  64-bit halves as the 128-bit product, unsigned and signed.\<close>

theorem multiply_limbs_agree: "DMULTU_limbs a b = DMULTU a b \<and> DMULT_limbs a b = DMULT a b"
  by (simp add: DMULTU_limbs_correct DMULT_limbs_correct)

section \<open>Division\<close>

lemma c_div_rem: "c_div a b * b + c_rem a b = a"
proof -
  have "c_div a b * b = sgn a * (\<bar>b\<bar> * (\<bar>a\<bar> div \<bar>b\<bar>))" by (simp add: c_div_def sgn_if split: if_splits)
  then have "c_div a b * b + c_rem a b = sgn a * (\<bar>b\<bar> * (\<bar>a\<bar> div \<bar>b\<bar>) + \<bar>a\<bar> mod \<bar>b\<bar>)"
    unfolding c_rem_def by (simp only: distrib_left)
  then show ?thesis by (simp only: mult_div_mod_eq sgn_mult_abs)
qed

lemma c_rem_bound: "b \<noteq> 0 \<Longrightarrow> \<bar>c_rem a b\<bar> < \<bar>b\<bar>"
proof -
  assume b: "b \<noteq> 0"
  have "\<bar>c_rem a b\<bar> \<le> \<bar>a\<bar> mod \<bar>b\<bar>" using b by (auto simp: c_rem_def abs_mult abs_sgn_eq)
  also have "\<dots> < \<bar>b\<bar>" using b by simp
  finally show ?thesis .
qed

lemma c_rem_sign: "c_rem a b \<noteq> 0 \<Longrightarrow> sgn (c_rem a b) = sgn a"
proof -
  have "0 \<le> \<bar>a\<bar> mod \<bar>b\<bar>" by (cases "b = 0") simp_all
  then show "c_rem a b \<noteq> 0 \<Longrightarrow> sgn (c_rem a b) = sgn a" by (auto simp: c_rem_def sgn_mult)
qed

text \<open>The quotient is in range but for one case.\<close>

lemma c_div_range:
  assumes "\<bar>a\<bar> \<le> 2 ^ 63" and "\<not> (a = - (2 ^ 63) \<and> b = - 1)" and "b \<noteq> 0" and "a < 2 ^ 63"
  shows "c_div a b \<in> {- (2 ^ 63) ..< 2 ^ 63}"
proof -
  have "\<bar>a\<bar> div \<bar>b\<bar> \<le> \<bar>a\<bar> div 1" using assms(3) by (intro zdiv_mono2) simp_all
  then have q: "0 \<le> \<bar>a\<bar> div \<bar>b\<bar>" "\<bar>a\<bar> div \<bar>b\<bar> \<le> \<bar>a\<bar>" using assms(3) by (simp_all add: pos_imp_zdiv_nonneg_iff)
  have "\<bar>c_div a b\<bar> \<le> \<bar>a\<bar> div \<bar>b\<bar>" using q by (auto simp: c_div_def abs_mult abs_sgn_eq)
  moreover have "c_div a b \<noteq> 2 ^ 63"
  proof
    assume c: "c_div a b = 2 ^ 63"
    then have "\<bar>a\<bar> = 2 ^ 63" using q assms(1) \<open>\<bar>c_div a b\<bar> \<le> \<bar>a\<bar> div \<bar>b\<bar>\<close> by simp
    then have a: "a = - (2 ^ 63)" using assms(4) by simp
    then have "2 ^ 63 \<le> 2 ^ 63 div \<bar>b\<bar>" using c \<open>\<bar>c_div a b\<bar> \<le> \<bar>a\<bar> div \<bar>b\<bar>\<close> by simp
    then have "\<bar>b\<bar> = 1" using assms(3) int_div_less_self [of "2 ^ 63" "\<bar>b\<bar>"] by (cases "\<bar>b\<bar> \<le> 1") auto
    then have "b = 1" using a assms(2) by auto
    then show False using c by (simp add: a c_div_def)
  qed
  ultimately show ?thesis using q assms(1) by auto
qed

lemma sint_bounds: "\<bar>sint (a :: u64)\<bar> \<le> 2 ^ 63" "sint (a :: u64) < 2 ^ 63"
  using sint_greater_eq [of a] sint_lt [of a] by simp_all

lemma sint_least: "sint (a :: u64) = - (2 ^ 63) \<longleftrightarrow> a = 0x8000000000000000" "sint (b :: u64) = - 1 \<longleftrightarrow> b = - 1"
  by (auto intro: signed_word_eqI)

lemma DDIV_eq:
  assumes "b \<noteq> 0"
  shows "DDIV a b = Some (word_of_int (c_div (sint a) (sint b)), word_of_int (c_rem (sint a) (sint b)))"
proof (cases "a = 0x8000000000000000 \<and> sint b = - 1")
  case True
  then have "sint a = - (2 ^ 63)" by simp
  with True have "c_div (sint a) (sint b) = 2 ^ 63" "c_rem (sint a) (sint b) = 0" by (simp_all add: c_div_def c_rem_def)
  with True show ?thesis by (simp add: DDIV_def)
next
  case False
  then have "\<not> (sint a = - (2 ^ 63) \<and> sint b = - 1)" by (simp only: sint_least simp_thms)
  moreover have "sint b \<noteq> 0" using assms by (simp add: signed_eq_0_iff)
  ultimately have "c_div (sint a) (sint b) \<in> {- (2 ^ 63) ..< 2 ^ 63}" using sint_bounds by (intro c_div_range) simp_all
  with assms False show ?thesis by (auto simp: DDIV_def c_div_s64_def)
qed

lemma DDIV_correct:
  "DDIV a b = (if b = 0 then None
     else Some (word_of_int (c_div (sint a) (sint b)), word_of_int (c_rem (sint a) (sint b)))) \<and>
   DDIVU a b = (if b = 0 then None else Some (a div b, a mod b))"
  by (simp add: DDIV_eq) (simp add: DDIV_def c_div_s64_def DDIVU_def)

lemma sint_rem: "(b :: u64) \<noteq> 0 \<Longrightarrow> sint (word_of_int (c_rem (sint (a :: u64)) (sint b)) :: u64) = c_rem (sint a) (sint b)"
proof -
  assume b: "b \<noteq> 0"
  have "\<bar>c_rem (sint a) (sint b)\<bar> < \<bar>sint b\<bar>" using b by (intro c_rem_bound) (simp add: signed_eq_0_iff)
  then have "- (2 ^ 63) \<le> c_rem (sint a) (sint b)" "c_rem (sint a) (sint b) < 2 ^ 63" using sint_bounds [of b] by linarith+
  then show ?thesis by (simp only: sint_sbintrunc') (simp add: signed_take_bit_int_eq_self)
qed

text \<open>C28: the signed 64-bit division is undefined for the divisor 0 only, although the C division it is made of also is for the least
  number divided by -1; otherwise quotient times divisor plus remainder is the dividend, in 64 bits, the remainder is smaller than the
  divisor and has the sign of the dividend, and without that overflow the equation holds of the numbers themselves.\<close>

theorem DDIV_division:
  "if b = 0 then DDIV a b = None
   else case DDIV a b of
     None \<Rightarrow> False
   | Some (q, r) \<Rightarrow> q * b + r = a \<and> \<bar>sint r\<bar> < \<bar>sint b\<bar> \<and> sgn (sint r) \<in> {0, sgn (sint a)} \<and>
       (sint q * sint b + sint r = sint a \<or> a = 0x8000000000000000 \<and> b = - 1 \<and> q = a \<and> r = 0)"
proof (cases "b = 0")
  case False
  let ?q = "c_div (sint a) (sint b)" and ?r = "c_rem (sint a) (sint b)"
  have b: "sint b \<noteq> 0" using False by (simp add: signed_eq_0_iff)
  have "word_of_int ?q * b + word_of_int ?r = (word_of_int (?q * sint b + ?r) :: u64)" by simp
  then have eq: "word_of_int ?q * b + word_of_int ?r = (a :: u64)" by (simp only: c_div_rem) simp
  have sign: "sgn ?r \<in> {0, sgn (sint a)}" using c_rem_sign [of "sint a" "sint b"] by (cases "?r = 0") auto
  have exact: "sint (word_of_int ?q :: u64) * sint b + ?r = sint a \<or>
      a = 0x8000000000000000 \<and> b = - 1 \<and> (word_of_int ?q :: u64) = a \<and> (word_of_int ?r :: u64) = 0"
  proof (cases "sint a = - (2 ^ 63) \<and> sint b = - 1")
    case True
    then have "a = 0x8000000000000000" "b = - 1" by (simp_all only: sint_least)
    moreover have "?q = 2 ^ 63" "?r = 0" using True by (simp_all add: c_div_def c_rem_def)
    ultimately show ?thesis by simp
  next
    case False
    then have "?q \<in> {- (2 ^ 63) ..< 2 ^ 63}" using sint_bounds b by (intro c_div_range) simp_all
    then have "sint (word_of_int ?q :: u64) = ?q" by (simp only: sint_sbintrunc') (simp add: signed_take_bit_int_eq_self)
    then show ?thesis using c_div_rem [of "sint a" "sint b"] by simp
  qed
  show ?thesis
    using False eq sign exact c_rem_bound [OF b, of "sint a"] by (simp add: DDIV_eq sint_rem)
qed (simp add: DDIV_def c_div_s64_def)

lemma DDIV_division_witness:
  "DDIV 0x8000000000000000 (- 1) = Some (0x8000000000000000, 0) \<and> (- 3) * 2 + (- 1) = (- 7 :: u64) \<and> \<bar>sint (- 1 :: u64)\<bar> < \<bar>sint (2 :: u64)\<bar>"
proof -
  have "DDIV (- 7) 2 = Some (- 3, - 1)" by (simp add: DDIV_def c_div_s64_def c_div_def c_rem_def)
  then have "(- 3) * 2 + (- 1) = (- 7 :: u64) \<and> \<bar>sint (- 1 :: u64)\<bar> < \<bar>sint (2 :: u64)\<bar>"
    using DDIV_division [of 2 "- 7"] by simp
  moreover have "DDIV 0x8000000000000000 (- 1) = Some (0x8000000000000000, 0)" by (simp add: DDIV_def)
  ultimately show ?thesis by simp
qed

section \<open>Address halves and the rounding mode\<close>

lemma sext16:
  "scast (ucast x :: u16) = (take_bit 16 x :: u32) - push_bit 16 (of_bool (bit x 15))"
proof (cases "bit x 15")
  case True
  have "scast (ucast x :: u16) = (take_bit 16 x :: u32) OR (NOT (mask 16))"
  proof (rule bit_eqI)
    fix n assume "possible_bit TYPE(u32) n"
    consider "n < 15" | "n = 15" | "16 \<le> n" by linarith
    then show "bit (scast (ucast x :: u16) :: u32) n = bit (take_bit 16 x OR NOT (mask 16)) n"
      using True \<open>possible_bit TYPE(u32) n\<close> by cases (simp_all add: bit_simps min_def)
  qed
  also have "\<dots> = take_bit 16 x + NOT (mask 16)"
  proof -
    have "take_bit 16 x AND NOT (mask 16) = 0" by (intro bit_eqI) (auto simp: bit_simps)
    then show ?thesis by (simp only: disjunctive_add_eq_or)
  qed
  also have "(NOT (mask 16) :: u32) = - push_bit 16 1" by (simp add: mask_eq_exp_minus_1)
  finally show ?thesis using True by simp
next
  case False
  have "scast (ucast x :: u16) = take_bit 16 x"
  proof (rule bit_eqI)
    fix n assume "possible_bit TYPE(u32) n"
    consider "n < 15" | "n = 15" | "16 \<le> n" by linarith
    then show "bit (scast (ucast x :: u16) :: u32) n = bit (take_bit 16 x) n"
      using False \<open>possible_bit TYPE(u32) n\<close> by cases (simp_all add: bit_simps min_def)
  qed
  with False show ?thesis by simp
qed

text \<open>The high half shifted up plus the sign-extended low half of a relocated address is the address.\<close>

lemma HI16_LO16_sum: "push_bit 16 (HI16 x) + scast (ucast (LO16 x) :: u16) = x"
proof -
  have lo: "LO16 x = take_bit 16 x" by (simp add: LO16_def take_bit_eq_mask mask_eq_exp_minus_1)
  have b: "drop_bit 15 x AND 1 = of_bool (bit x 15)"
    by (simp add: and_one_eq bit_iff_odd_drop_bit mod_2_eq_odd)
  have "push_bit 16 (HI16 x) = push_bit 16 (drop_bit 16 x) + push_bit 16 (of_bool (bit x 15))"
    unfolding HI16_def b by (simp add: push_bit_add)
  moreover have l: "scast (ucast (LO16 x) :: u16) = take_bit 16 x - push_bit 16 (of_bool (bit x 15))"
  proof -
    have "(ucast (LO16 x) :: u16) = ucast x" unfolding lo by (intro bit_eqI) (auto simp: bit_simps)
    then show ?thesis by (simp add: sext16)
  qed
  ultimately show ?thesis using bits_ident [of 16 x] unfolding l by simp
qed

lemma unat_lt_4: "unat (v AND 3) < 4" for v :: u32
proof -
  have "v AND 3 = take_bit 2 v" by (simp add: take_bit_eq_mask mask_eq_exp_minus_1)
  then show ?thesis by (simp only: unsigned_take_bit_eq) (simp add: take_bit_eq_mod)
qed

lemma cop1_round_trip: "set_cop1_cs (get_cop1_cs r) = r \<and> get_cop1_cs (set_cop1_cs v) = v AND 3"
proof
  show "set_cop1_cs (get_cop1_cs r) = r" by (cases r) (simp_all add: set_cop1_cs_def)
  have "unat (v AND 3) < 4" using unat_lt_4 .
  then consider "unat (v AND 3) = 0" | "unat (v AND 3) = 1" | "unat (v AND 3) = 2" | "unat (v AND 3) = 3" by linarith
  then have "v AND 3 = 0 \<or> v AND 3 = 1 \<or> v AND 3 = 2 \<or> v AND 3 = 3"
    by cases (simp_all add: word_unat_eq_iff)
  then show "get_cop1_cs (set_cop1_cs v) = v AND 3"
    by (auto simp: set_cop1_cs_def Let_def)
qed

end
