(* ===== verification/Mod_Symbols.thy ===== *)
theory Mod_Symbols
  imports Context_Invariants
begin

text \<open>
  The symbol file of a mod, \<open>src/mod_symbols.cpp\<close>: the structs of the file, their layout, the
  parser \<open>parse_mod_symbols\<close> and the writer \<open>symbols_to_bin_v1\<close>.

  \<^item> The file is a list of bytes. A struct is a record; it is a row of little-endian 32-bit words
    (\<open>encode\<close>, \<open>decode\<close>), and \<open>read_struct\<close> is the bounds-checked view of several of them.
  \<^item> An operation gives \<open>Done\<close> a value, \<open>Fail\<close> (\<open>return false\<close>) or \<open>Undef\<close>: a read or write
    outside a container, undefined behaviour in C++.
  \<^item> On failure the partly filled context is dropped, since the only caller of
    \<open>parse_symbols_v1\<close> resets it; the messages printed are not modelled, and neither is running
    out of memory when a count of the header is huge.
\<close>

section \<open>The structs of the file\<close>

record file_sub_header_v1 =
  sh_num_sections :: u32
  sh_num_dependencies :: u32
  sh_num_imports :: u32
  sh_num_dependency_events :: u32
  sh_num_replacements :: u32
  sh_num_exports :: u32
  sh_num_callbacks :: u32
  sh_num_provided_events :: u32
  sh_num_hooks :: u32
  sh_string_data_size :: u32

definition FixedAddress :: u32 where "FixedAddress = push_bit 0 1"
definition GloballyLoaded :: u32 where "GloballyLoaded = push_bit 1 1"

record section_header_v1 =
  sc_flags :: u32
  sc_file_offset :: u32
  sc_vram :: u32
  sc_rom_size :: u32
  sc_bss_size :: u32
  sc_num_funcs :: u32
  sc_num_relocs :: u32

record func_v1 =
  fv_section_offset :: u32
  fv_size :: u32

definition SectionSelfVromFlagV1 :: u32 where "SectionSelfVromFlagV1 = 0x80000000"
definition SectionImportVromV1 :: u32 where "SectionImportVromV1 = 0xFFFFFFFE"
definition SectionEventVromV1 :: u32 where "SectionEventVromV1 = 0xFFFFFFFD"

record reloc_v1 =
  rv_section_offset :: u32
  rv_type :: u32
  rv_target_section_offset_or_index :: u32
  rv_target_section_vrom :: u32

record dependency_v1 =
  dv_reserved :: u8
  dv_mod_id_start :: u32
  dv_mod_id_size :: u32

record import_v1 =
  iv_name_start :: u32
  iv_name_size :: u32
  iv_dependency :: u32

record dependency_event_v1 =
  dev_name_start :: u32
  dev_name_size :: u32
  dev_dependency :: u32

record replacement_v1 =
  rpv_func_index :: u32
  rpv_original_section_vrom :: u32
  rpv_original_vram :: u32
  rpv_flags :: u32

record export_v1 =
  xv_func_index :: u32
  xv_name_start :: u32
  xv_name_size :: u32

record callback_v1 =
  cv_dependency_event_index :: u32
  cv_function_index :: u32

record event_v1 =
  ev_name_start :: u32
  ev_name_size :: u32

record hook_v1 =
  hv_func_index :: u32
  hv_original_section_vrom :: u32
  hv_original_vram :: u32
  hv_flags :: u32

section \<open>Layout\<close>

text \<open>
  Each struct with the number of its words. The three bytes of padding of \<open>DependencyV1\<close> are
  written as zero, as the value-initialized struct has them.
\<close>

definition enc_sub_header :: "file_sub_header_v1 \<Rightarrow> u32 list" where
  "enc_sub_header h = [sh_num_sections h, sh_num_dependencies h, sh_num_imports h,
     sh_num_dependency_events h, sh_num_replacements h, sh_num_exports h, sh_num_callbacks h,
     sh_num_provided_events h, sh_num_hooks h, sh_string_data_size h]"

definition dec_sub_header :: "u32 list \<Rightarrow> file_sub_header_v1" where
  "dec_sub_header ws = \<lparr>sh_num_sections = ws ! 0, sh_num_dependencies = ws ! 1, sh_num_imports = ws ! 2,
     sh_num_dependency_events = ws ! 3, sh_num_replacements = ws ! 4, sh_num_exports = ws ! 5,
     sh_num_callbacks = ws ! 6, sh_num_provided_events = ws ! 7, sh_num_hooks = ws ! 8,
     sh_string_data_size = ws ! 9\<rparr>"

definition enc_section :: "section_header_v1 \<Rightarrow> u32 list" where
  "enc_section s = [sc_flags s, sc_file_offset s, sc_vram s, sc_rom_size s, sc_bss_size s,
     sc_num_funcs s, sc_num_relocs s]"

definition dec_section :: "u32 list \<Rightarrow> section_header_v1" where
  "dec_section ws = \<lparr>sc_flags = ws ! 0, sc_file_offset = ws ! 1, sc_vram = ws ! 2, sc_rom_size = ws ! 3,
     sc_bss_size = ws ! 4, sc_num_funcs = ws ! 5, sc_num_relocs = ws ! 6\<rparr>"

definition enc_func :: "func_v1 \<Rightarrow> u32 list" where
  "enc_func f = [fv_section_offset f, fv_size f]"

definition dec_func :: "u32 list \<Rightarrow> func_v1" where
  "dec_func ws = \<lparr>fv_section_offset = ws ! 0, fv_size = ws ! 1\<rparr>"

definition enc_reloc :: "reloc_v1 \<Rightarrow> u32 list" where
  "enc_reloc r = [rv_section_offset r, rv_type r, rv_target_section_offset_or_index r, rv_target_section_vrom r]"

definition dec_reloc :: "u32 list \<Rightarrow> reloc_v1" where
  "dec_reloc ws = \<lparr>rv_section_offset = ws ! 0, rv_type = ws ! 1,
     rv_target_section_offset_or_index = ws ! 2, rv_target_section_vrom = ws ! 3\<rparr>"

definition enc_dependency :: "dependency_v1 \<Rightarrow> u32 list" where
  "enc_dependency d = [ucast (dv_reserved d), dv_mod_id_start d, dv_mod_id_size d]"

definition dec_dependency :: "u32 list \<Rightarrow> dependency_v1" where
  "dec_dependency ws = \<lparr>dv_reserved = ucast (ws ! 0), dv_mod_id_start = ws ! 1, dv_mod_id_size = ws ! 2\<rparr>"

definition enc_import :: "import_v1 \<Rightarrow> u32 list" where
  "enc_import d = [iv_name_start d, iv_name_size d, iv_dependency d]"

definition dec_import :: "u32 list \<Rightarrow> import_v1" where
  "dec_import ws = \<lparr>iv_name_start = ws ! 0, iv_name_size = ws ! 1, iv_dependency = ws ! 2\<rparr>"

definition enc_dependency_event :: "dependency_event_v1 \<Rightarrow> u32 list" where
  "enc_dependency_event d = [dev_name_start d, dev_name_size d, dev_dependency d]"

definition dec_dependency_event :: "u32 list \<Rightarrow> dependency_event_v1" where
  "dec_dependency_event ws = \<lparr>dev_name_start = ws ! 0, dev_name_size = ws ! 1, dev_dependency = ws ! 2\<rparr>"

definition enc_replacement :: "replacement_v1 \<Rightarrow> u32 list" where
  "enc_replacement r = [rpv_func_index r, rpv_original_section_vrom r, rpv_original_vram r, rpv_flags r]"

definition dec_replacement :: "u32 list \<Rightarrow> replacement_v1" where
  "dec_replacement ws = \<lparr>rpv_func_index = ws ! 0, rpv_original_section_vrom = ws ! 1,
     rpv_original_vram = ws ! 2, rpv_flags = ws ! 3\<rparr>"

definition enc_export :: "export_v1 \<Rightarrow> u32 list" where
  "enc_export x = [xv_func_index x, xv_name_start x, xv_name_size x]"

definition dec_export :: "u32 list \<Rightarrow> export_v1" where
  "dec_export ws = \<lparr>xv_func_index = ws ! 0, xv_name_start = ws ! 1, xv_name_size = ws ! 2\<rparr>"

definition enc_callback :: "callback_v1 \<Rightarrow> u32 list" where
  "enc_callback c = [cv_dependency_event_index c, cv_function_index c]"

definition dec_callback :: "u32 list \<Rightarrow> callback_v1" where
  "dec_callback ws = \<lparr>cv_dependency_event_index = ws ! 0, cv_function_index = ws ! 1\<rparr>"

definition enc_event :: "event_v1 \<Rightarrow> u32 list" where
  "enc_event e = [ev_name_start e, ev_name_size e]"

definition dec_event :: "u32 list \<Rightarrow> event_v1" where
  "dec_event ws = \<lparr>ev_name_start = ws ! 0, ev_name_size = ws ! 1\<rparr>"

definition enc_hook :: "hook_v1 \<Rightarrow> u32 list" where
  "enc_hook h = [hv_func_index h, hv_original_section_vrom h, hv_original_vram h, hv_flags h]"

definition dec_hook :: "u32 list \<Rightarrow> hook_v1" where
  "dec_hook ws = \<lparr>hv_func_index = ws ! 0, hv_original_section_vrom = ws ! 1,
     hv_original_vram = ws ! 2, hv_flags = ws ! 3\<rparr>"

lemmas layout_defs [codec_simps] = enc_sub_header_def dec_sub_header_def enc_section_def dec_section_def
  enc_func_def dec_func_def enc_reloc_def dec_reloc_def enc_dependency_def dec_dependency_def
  enc_import_def dec_import_def enc_dependency_event_def dec_dependency_event_def
  enc_replacement_def dec_replacement_def enc_export_def dec_export_def enc_callback_def
  dec_callback_def enc_event_def dec_event_def enc_hook_def dec_hook_def

section \<open>The cursor\<close>

definition word_at :: "bytes \<Rightarrow> nat \<Rightarrow> u32" where
  "word_at data p = le_u32 (data ! p) (data ! (p + 1)) (data ! (p + 2)) (data ! (p + 3))"

definition words_at :: "bytes \<Rightarrow> nat \<Rightarrow> nat \<Rightarrow> u32 list" where
  "words_at data p k = map (\<lambda>j. word_at data (p + 4 * j)) [0..<k]"

text \<open>\<open>read_struct\<close> of \<open>count\<close> structs of \<open>k\<close> words each: \<open>None\<close> is \<open>nullptr\<close>.\<close>

definition read_struct :: "nat \<Rightarrow> (u32 list \<Rightarrow> 's) \<Rightarrow> bytes \<Rightarrow> nat \<Rightarrow> nat \<Rightarrow> ('s list \<times> nat) option" where
  "read_struct k dec data cursor count =
     (if cursor + 4 * k * count > length data then None
      else Some (map (\<lambda>i. dec (words_at data (cursor + 4 * k * i) k)) [0..<count], cursor + 4 * k * count))"

text \<open>\<open>read_struct<char>\<close> of the string data: only its position matters.\<close>

definition read_chars :: "bytes \<Rightarrow> nat \<Rightarrow> nat \<Rightarrow> (nat \<times> nat) option" where
  "read_chars data cursor count =
     (if cursor + count > length data then None else Some (cursor, cursor + count))"

definition bytes_of_chars :: "string \<Rightarrow> bytes" where
  "bytes_of_chars s = map of_char s"

definition chars_of_bytes :: "bytes \<Rightarrow> string" where
  "chars_of_bytes bs = map (\<lambda>b. char_of (unat b)) bs"

definition good_magic :: bytes where
  "good_magic = bytes_of_chars ''N64RSYMS''"

definition magic_matches :: "bytes \<Rightarrow> bool" where
  "magic_matches magic \<longleftrightarrow> take 8 magic = good_magic"

definition align_up_4 :: "u32 \<Rightarrow> u32" where
  "align_up_4 value = (value + 3) AND NOT 3"

section \<open>Parsing: sections\<close>

definition upd_section :: "nat \<Rightarrow> (section_info \<Rightarrow> section_info) \<Rightarrow> recompiler_context \<Rightarrow> recompiler_context" where
  "upd_section i f ctx = ctx\<lparr>sections := (sections ctx)[i := f (sections ctx ! i)]\<rparr>"

definition upd_function :: "nat \<Rightarrow> (recomp_function \<Rightarrow> recomp_function) \<Rightarrow> recompiler_context \<Rightarrow> recompiler_context" where
  "upd_function i f ctx = ctx\<lparr>ctx_functions := (ctx_functions ctx)[i := f (ctx_functions ctx ! i)]\<rparr>"

text \<open>The body of the loop over the functions of a section; the local section is read back from the context.\<close>

definition parse_func :: "nat \<Rightarrow> nat \<Rightarrow> nat \<Rightarrow> func_v1 \<Rightarrow> recompiler_context \<Rightarrow> recompiler_context outcome" where
  "parse_func section_index start_func_index func_index f mod_context =
     (let cur_section = sections mod_context ! section_index;
          func_rom_addr = sec_rom_addr cur_section + fv_section_offset f;
          vram = sec_ram_addr cur_section + fv_section_offset f;
          i = start_func_index + func_index
      in if func_rom_addr AND 3 \<noteq> 0 then Fail
         else if fv_size f AND 3 \<noteq> 0 then Fail
         else Done ((upd_function i (\<lambda>cur_func. cur_func\<lparr>
               fn_vram := vram,
               fn_rom := sec_rom_addr cur_section + fv_section_offset f,
               fn_words := resize_list (fn_words cur_func) (unat (fv_size f) div 4) 0,
               fn_section_index := word_of_nat section_index\<rparr>) mod_context)
             \<lparr>functions_by_vram := (functions_by_vram mod_context)(vram \<mapsto>
                (case functions_by_vram mod_context vram of None \<Rightarrow> [] | Some l \<Rightarrow> l) @ [i])\<rparr>))"

text \<open>The four kinds of target a relocation can have: section, offset, symbol index, reference flag.\<close>

definition reloc_target ::
    "(u32 \<rightharpoonup> u16) \<Rightarrow> nat \<Rightarrow> reloc_v1 \<Rightarrow> (u16 \<times> u32 \<times> u32 \<times> bool) outcome" where
  "reloc_target sections_by_vrom num_sections reloc_in =
     (let target_section_vrom = rv_target_section_vrom reloc_in; off = rv_target_section_offset_or_index reloc_in in
      if target_section_vrom = SectionImportVromV1 then Done (SectionImport, 0, off, True)
      else if target_section_vrom = SectionEventVromV1 then Done (SectionEvent, 0, off, True)
      else if target_section_vrom AND SectionSelfVromFlagV1 \<noteq> 0 then
        let reloc_target_section = ucast (target_section_vrom AND NOT SectionSelfVromFlagV1) :: u16 in
        if num_sections \<le> unat reloc_target_section then Fail
        else Done (reloc_target_section, off, 0, False)
      else case sections_by_vrom target_section_vrom of
        None \<Rightarrow> Fail
      | Some sec \<Rightarrow> Done (sec, off, 0, True))"

definition parse_reloc ::
    "(u32 \<rightharpoonup> u16) \<Rightarrow> nat \<Rightarrow> nat \<Rightarrow> reloc_v1 \<Rightarrow> recompiler_context \<Rightarrow> recompiler_context outcome" where
  "parse_reloc sections_by_vrom section_index reloc_index reloc_in mod_context =
     (let cur_section = sections mod_context ! section_index in
      and_then (reloc_target sections_by_vrom (length (sections mod_context)) reloc_in)
        (\<lambda>(target_section, target_offset, symbol_index, reference_symbol).
           Done (upd_section section_index (\<lambda>s. s\<lparr>sec_relocs := (sec_relocs s)[reloc_index :=
             \<lparr>rel_address = sec_ram_addr cur_section + rv_section_offset reloc_in,
              rel_target_section_offset = target_offset,
              rel_symbol_index = symbol_index,
              rel_target_section = target_section,
              rel_type = ucast (rv_type reloc_in),
              rel_reference_symbol = reference_symbol\<rparr>]\<rparr>) mod_context)))"

definition reloc_default :: reloc where
  "reloc_default = \<lparr>rel_address = 0, rel_target_section_offset = 0, rel_symbol_index = 0,
     rel_target_section = 0, rel_type = 0, rel_reference_symbol = False\<rparr>"

definition fill_section :: "section_header_v1 \<Rightarrow> nat \<Rightarrow> section_info \<Rightarrow> section_info" where
  "fill_section h section_index s = s\<lparr>
     sec_rom_addr := sc_file_offset h, sec_ram_addr := sc_vram h, sec_size := sc_rom_size h,
     sec_bss_size := sc_bss_size h, sec_name := ''mod_section_'' @ fmt_nat section_index,
     sec_relocatable := True, sec_fixed_address := (sc_flags h AND FixedAddress \<noteq> 0),
     sec_globally_loaded := (sc_flags h AND GloballyLoaded \<noteq> 0)\<rparr>"

text \<open>The functions and relocations of a section, after its header.\<close>

definition parse_section_rows ::
    "bytes \<Rightarrow> (u32 \<rightharpoonup> u16) \<Rightarrow> nat \<Rightarrow> section_header_v1 \<Rightarrow> recompiler_context \<Rightarrow> nat \<Rightarrow> (recompiler_context \<times> nat) outcome" where
  "parse_section_rows data sections_by_vrom section_index h ctx1 cursor =
     and_then (or_fail (read_struct 2 dec_func data cursor (unat (sc_num_funcs h)))) (\<lambda>(funcs, cursor).
     and_then (or_fail (read_struct 4 dec_reloc data cursor (unat (sc_num_relocs h)))) (\<lambda>(relocs, cursor).
     let start_func_index = length (ctx_functions ctx1);
         ctx2 = ctx1\<lparr>ctx_functions := resize_list (ctx_functions ctx1)
           (start_func_index + unat (sc_num_funcs h)) function_default\<rparr>;
         ctx3 = upd_section section_index (\<lambda>s. s\<lparr>sec_relocs :=
           resize_list (sec_relocs s) (unat (sc_num_relocs h)) reloc_default\<rparr>) ctx2
     in and_then (for_each 0 funcs (parse_func section_index start_func_index) ctx3) (\<lambda>ctx4.
        and_then (for_each 0 relocs (parse_reloc sections_by_vrom section_index) ctx4) (\<lambda>ctx5.
        Done (ctx5, cursor)))))"

definition parse_section ::
    "bytes \<Rightarrow> (u32 \<rightharpoonup> u16) \<Rightarrow> nat \<Rightarrow> recompiler_context \<times> nat \<Rightarrow> (recompiler_context \<times> nat) outcome" where
  "parse_section data sections_by_vrom section_index st =
     (let (mod_context, cursor) = st in
      and_then (or_fail (read_struct 7 dec_section data cursor 1)) (\<lambda>(hs, cursor).
      let h = hs ! 0;
          fixed_address = (sc_flags h AND FixedAddress \<noteq> 0);
          globally_loaded = (sc_flags h AND GloballyLoaded \<noteq> 0);
          ctx1 = upd_section section_index (fill_section h section_index) mod_context
      in if fixed_address \<and> \<not> globally_loaded then Fail
         else if globally_loaded \<and> \<not> fixed_address then Fail
         else parse_section_rows data sections_by_vrom section_index h ctx1 cursor))"

section \<open>Parsing: names and symbols\<close>

text \<open>
  A name of the string data: \<open>Fail\<close> when the 32-bit sum of start and size is past its end. The
  sum may wrap; then the view starts or reaches outside the string data, and \<open>Undef\<close> is a view
  that leaves the buffer of the file.
\<close>

definition string_view :: "bytes \<Rightarrow> nat \<Rightarrow> nat \<Rightarrow> u32 \<Rightarrow> u32 \<Rightarrow> string outcome" where
  "string_view data string_data string_data_size name_start name_size =
     (if unat (name_start + name_size) > string_data_size then Fail
      else if string_data + unat name_start + unat name_size \<le> length data
      then Done (chars_of_bytes (slice data (string_data + unat name_start) (unat name_size)))
      else Undef)"

definition parse_dependency ::
    "bytes \<Rightarrow> nat \<Rightarrow> nat \<Rightarrow> nat \<Rightarrow> dependency_v1 \<Rightarrow> recompiler_context \<Rightarrow> recompiler_context outcome" where
  "parse_dependency data string_data string_data_size dependency_index d mod_context =
     and_then (string_view data string_data string_data_size (dv_mod_id_start d) (dv_mod_id_size d))
       (\<lambda>mod_id. Done (snd (add_dependency mod_id mod_context)))"

definition parse_import ::
    "bytes \<Rightarrow> nat \<Rightarrow> nat \<Rightarrow> nat \<Rightarrow> nat \<Rightarrow> import_v1 \<Rightarrow> recompiler_context \<Rightarrow> recompiler_context outcome" where
  "parse_import data string_data string_data_size num_dependencies import_index d mod_context =
     (if unat (iv_name_start d + iv_name_size d) > string_data_size then Fail
      else if num_dependencies \<le> unat (iv_dependency d) then Fail
      else and_then (string_view data string_data string_data_size (iv_name_start d) (iv_name_size d))
        (\<lambda>import_name. or_undef (add_import_symbol import_name (unat (iv_dependency d)) mod_context)))"

definition parse_dependency_event ::
    "bytes \<Rightarrow> nat \<Rightarrow> nat \<Rightarrow> nat \<Rightarrow> dependency_event_v1 \<Rightarrow> recompiler_context \<Rightarrow> recompiler_context outcome" where
  "parse_dependency_event data string_data string_data_size dependency_event_index d mod_context =
     and_then (string_view data string_data string_data_size (dev_name_start d) (dev_name_size d))
       (\<lambda>event_name. Done (snd (add_dependency_event event_name (unat (dev_dependency d)) mod_context)))"

definition parse_replacement ::
    "nat \<Rightarrow> replacement_v1 \<Rightarrow> recompiler_context \<Rightarrow> recompiler_context outcome" where
  "parse_replacement replacement_index r mod_context =
     Done (mod_context\<lparr>replacements := (replacements mod_context)[replacement_index :=
       \<lparr>rep_func_index = rpv_func_index r, rep_original_section_vrom = rpv_original_section_vrom r,
        rep_original_vram = rpv_original_vram r, rep_flags = rpv_flags r\<rparr>]\<rparr>)"

definition parse_export ::
    "bytes \<Rightarrow> nat \<Rightarrow> nat \<Rightarrow> nat \<Rightarrow> export_v1 \<Rightarrow> recompiler_context \<Rightarrow> recompiler_context outcome" where
  "parse_export data string_data string_data_size export_index x mod_context =
     (let func_index = unat (xv_func_index x) in
      if length (ctx_functions mod_context) \<le> func_index then Fail
      else and_then (string_view data string_data string_data_size (xv_name_start x) (xv_name_size x))
        (\<lambda>export_name.
          if fn_name (ctx_functions mod_context ! func_index) \<noteq> '''' then Fail
          else Done (upd_function func_index (\<lambda>f. f\<lparr>fn_name := export_name\<rparr>)
            (mod_context\<lparr>exported_funcs := (exported_funcs mod_context)[export_index := func_index]\<rparr>))))"

definition parse_callback ::
    "nat \<Rightarrow> nat \<Rightarrow> callback_v1 \<Rightarrow> recompiler_context \<Rightarrow> recompiler_context outcome" where
  "parse_callback num_dependency_events callback_index c mod_context =
     (if num_dependency_events \<le> unat (cv_dependency_event_index c) then Fail
      else if length (ctx_functions mod_context) \<le> unat (cv_function_index c) then Fail
      else let (ok, ctx) = add_callback (unat (cv_dependency_event_index c)) (unat (cv_function_index c)) mod_context
        in if ok then Done ctx else Fail)"

definition parse_event ::
    "bytes \<Rightarrow> nat \<Rightarrow> nat \<Rightarrow> nat \<Rightarrow> event_v1 \<Rightarrow> recompiler_context \<Rightarrow> recompiler_context outcome" where
  "parse_event data string_data string_data_size event_index e mod_context =
     and_then (string_view data string_data string_data_size (ev_name_start e) (ev_name_size e))
       (\<lambda>name. Done (add_event_symbol name mod_context))"

definition parse_hook :: "nat \<Rightarrow> hook_v1 \<Rightarrow> recompiler_context \<Rightarrow> recompiler_context outcome" where
  "parse_hook hook_index h mod_context =
     Done (mod_context\<lparr>hooks := hooks mod_context @
       [\<lparr>hk_func_index = hv_func_index h, hk_original_section_vrom = hv_original_section_vrom h,
         hk_original_vram = hv_original_vram h, hk_flags = hv_flags h\<rparr>]\<rparr>)"

section \<open>The parser\<close>

definition resize_header_vectors :: "file_sub_header_v1 \<Rightarrow> recompiler_context \<Rightarrow> recompiler_context" where
  "resize_header_vectors h mod_context = mod_context\<lparr>
     sections := resize_list (sections mod_context) (unat (sh_num_sections h)) section_default,
     replacements := resize_list (replacements mod_context) (unat (sh_num_replacements h))
       \<lparr>rep_func_index = 0, rep_original_section_vrom = 0, rep_original_vram = 0, rep_flags = 0\<rparr>,
     exported_funcs := resize_list (exported_funcs mod_context) (unat (sh_num_exports h)) 0\<rparr>"

text \<open>Reading one table of structs and running its loop body over it.\<close>

definition read_table ::
    "nat \<Rightarrow> (u32 list \<Rightarrow> 's) \<Rightarrow> bytes \<Rightarrow> u32 \<Rightarrow> (nat \<Rightarrow> 's \<Rightarrow> recompiler_context \<Rightarrow> recompiler_context outcome) \<Rightarrow>
     recompiler_context \<times> nat \<Rightarrow> (recompiler_context \<times> nat) outcome" where
  "read_table k dec data count body st =
     (let (mod_context, cursor) = st in
      and_then (or_fail (read_struct k dec data cursor (unat count))) (\<lambda>(rows, cursor).
      and_then (for_each 0 rows body mod_context) (\<lambda>ctx. Done (ctx, cursor))))"

text \<open>The tables after the sections, in the order of the file.\<close>

definition parse_tables ::
    "bytes \<Rightarrow> nat \<Rightarrow> file_sub_header_v1 \<Rightarrow> recompiler_context \<times> nat \<Rightarrow> recompiler_context outcome" where
  "parse_tables data str h st =
     (let n = unat (sh_string_data_size h) in
     and_then (read_table 3 dec_dependency data (sh_num_dependencies h) (parse_dependency data str n) st) (\<lambda>st.
     and_then (read_table 3 dec_import data (sh_num_imports h)
       (parse_import data str n (unat (sh_num_dependencies h))) st) (\<lambda>st.
     and_then (read_table 3 dec_dependency_event data (sh_num_dependency_events h)
       (parse_dependency_event data str n) st) (\<lambda>st.
     and_then (read_table 4 dec_replacement data (sh_num_replacements h) parse_replacement st) (\<lambda>st.
     and_then (read_table 3 dec_export data (sh_num_exports h) (parse_export data str n) st) (\<lambda>st.
     and_then (read_table 2 dec_callback data (sh_num_callbacks h)
       (parse_callback (unat (sh_num_dependency_events h))) st) (\<lambda>st.
     and_then (read_table 2 dec_event data (sh_num_provided_events h) (parse_event data str n) st) (\<lambda>st.
     and_then (read_table 4 dec_hook data (sh_num_hooks h) parse_hook st) (\<lambda>(ctx, cursor).
     if cursor = length data then Done ctx else Fail)))))))))"

definition parse_symbols_v1 ::
    "bytes \<Rightarrow> (u32 \<rightharpoonup> u16) \<Rightarrow> recompiler_context \<Rightarrow> recompiler_context outcome" where
  "parse_symbols_v1 data sections_by_vrom mod_context =
     and_then (or_fail (read_struct 10 dec_sub_header data 12 1)) (\<lambda>(hs, cursor).
     let h = hs ! 0 in
     if sh_string_data_size h AND 3 \<noteq> 0 then Fail
     else and_then (or_fail (read_chars data cursor (unat (sh_string_data_size h)))) (\<lambda>(str, cursor).
     and_then (for_each 0 [0..<unat (sh_num_sections h)]
       (\<lambda>i _. parse_section data sections_by_vrom i) (resize_header_vectors h mod_context, cursor))
     (parse_tables data str h)))"

datatype mod_symbols_error = Good | NotASymbolFile | UnknownSymbolFileVersion | CorruptSymbolFile | FunctionOutOfBounds

text \<open>The words of the functions are copied from the mod binary, in host byte order; \<open>None\<close> is a function outside it.\<close>

definition copy_function_words :: "bytes \<Rightarrow> recomp_function \<Rightarrow> recomp_function option" where
  "copy_function_words binary cur_func =
     (if unat (fn_rom cur_func) + length (fn_words cur_func) * 4 > length binary then None
      else Some (cur_func\<lparr>fn_words := words_at binary (unat (fn_rom cur_func)) (length (fn_words cur_func))\<rparr>))"

definition parse_mod_symbols ::
    "bytes \<Rightarrow> bytes \<Rightarrow> (u32 \<rightharpoonup> u16) \<Rightarrow> (mod_symbols_error \<times> recompiler_context) outcome" where
  "parse_mod_symbols data binary sections_by_vrom =
     (if 12 > length data then Done (NotASymbolFile, context_default)
      else if \<not> magic_matches data then Done (NotASymbolFile, context_default)
      else if word_at data 8 \<noteq> 1 then Done (UnknownSymbolFileVersion, context_default)
      else case parse_symbols_v1 data sections_by_vrom context_default of
        Undef \<Rightarrow> Undef
      | Fail \<Rightarrow> Done (CorruptSymbolFile, context_default)
      | Done ctx \<Rightarrow>
          if \<exists>f\<in>set (ctx_functions ctx). copy_function_words binary f = None
          then Done (FunctionOutOfBounds, context_default)
          else Done (Good, ctx\<lparr>ctx_functions := map (the \<circ> copy_function_words binary) (ctx_functions ctx)\<rparr>))"

section \<open>The writer\<close>

text \<open>Appending names to the string data: the bytes and the position of each name from \<open>start\<close> on.\<close>

fun append_names :: "nat \<Rightarrow> string list \<Rightarrow> bytes \<times> u32 list" where
  "append_names start [] = ([], [])"
| "append_names start (nm # nms) =
     (let (bs, ps) = append_names (start + length nm) nms
      in (bytes_of_chars nm @ bs, word_of_nat start # ps))"

definition struct_bytes :: "u32 list \<Rightarrow> bytes" where
  "struct_bytes ws = concat (map le_bytes ws)"

text \<open>The dependencies in the order of their indices; an index out of range is undefined behaviour.\<close>

definition order_dependencies :: "(string \<times> nat) list \<Rightarrow> string list outcome" where
  "order_dependencies by_name =
     for_each 0 by_name (\<lambda>_ (dependency, dependency_index) ordered.
       if dependency_index < length ordered then Done (ordered[dependency_index := dependency]) else Undef)
     (replicate (length by_name) '''')"

definition write_func :: "recompiler_context \<Rightarrow> section_info \<Rightarrow> nat \<Rightarrow> bytes outcome" where
  "write_func context cur_section func_index =
     and_then (or_undef (nth_opt (ctx_functions context) func_index)) (\<lambda>cur_func.
       Done (struct_bytes (enc_func
         \<lparr>fv_section_offset = fn_vram cur_func - sec_ram_addr cur_section,
          fv_size = word_of_nat (length (fn_words cur_func) * 4)\<rparr>)))"

text \<open>\<open>Fail\<close> is the internal error, where the writer returns an empty vector.\<close>

definition write_reloc :: "recompiler_context \<Rightarrow> section_info \<Rightarrow> reloc \<Rightarrow> bytes outcome" where
  "write_reloc context cur_section cur_reloc =
     (let entry = (\<lambda>offset_or_index vrom. Done (struct_bytes (enc_reloc
            \<lparr>rv_section_offset = rel_address cur_reloc - sec_ram_addr cur_section,
             rv_type = ucast (rel_type cur_reloc),
             rv_target_section_offset_or_index = offset_or_index,
             rv_target_section_vrom = vrom\<rparr>)))
      in if rel_target_section cur_reloc = SectionAbsolute then Fail
         else if rel_target_section cur_reloc = SectionImport
           then entry (rel_symbol_index cur_reloc) SectionImportVromV1
         else if rel_target_section cur_reloc = SectionEvent
           then entry (rel_symbol_index cur_reloc) SectionEventVromV1
         else if rel_reference_symbol cur_reloc
           then and_then (or_undef (get_reference_section_rom context (rel_target_section cur_reloc)))
             (entry (rel_target_section_offset cur_reloc))
         else if length (sections context) \<le> unat (rel_target_section cur_reloc) then Fail
         else entry (rel_target_section_offset cur_reloc) (SectionSelfVromFlagV1 OR ucast (rel_target_section cur_reloc)))"

text \<open>A loop that appends what its body writes for each element.\<close>

fun write_all :: "('a \<Rightarrow> bytes outcome) \<Rightarrow> 'a list \<Rightarrow> bytes outcome" where
  "write_all w [] = Done []"
| "write_all w (x # xs) = and_then (w x) (\<lambda>bs. and_then (write_all w xs) (\<lambda>bs'. Done (bs @ bs')))"

definition write_section :: "recompiler_context \<Rightarrow> nat \<Rightarrow> bytes outcome" where
  "write_section context section_index =
     (let cur_section = sections context ! section_index in
      and_then (or_undef (nth_opt (section_functions context) section_index)) (\<lambda>func_indices.
      and_then (write_all (write_func context cur_section) func_indices) (\<lambda>funcs.
      and_then (write_all (write_reloc context cur_section) (sec_relocs cur_section)) (\<lambda>relocs.
      Done (struct_bytes (enc_section
        \<lparr>sc_flags = 0, sc_file_offset = sec_rom_addr cur_section, sc_vram = sec_ram_addr cur_section,
         sc_rom_size = sec_size cur_section, sc_bss_size = sec_bss_size cur_section,
         sc_num_funcs = word_of_nat (length func_indices),
         sc_num_relocs = word_of_nat (length (sec_relocs cur_section))\<rparr>) @ funcs @ relocs)))))"

definition replacement_out :: "function_replacement \<Rightarrow> replacement_v1" where
  "replacement_out r = \<lparr>rpv_func_index = rep_func_index r, rpv_original_section_vrom = rep_original_section_vrom r,
     rpv_original_vram = rep_original_vram r, rpv_flags = (if rep_flags r AND Force = Force then 1 else 0)\<rparr>"

definition hook_out :: "function_hook \<Rightarrow> hook_v1" where
  "hook_out h = \<lparr>hv_func_index = hk_func_index h, hv_original_section_vrom = hk_original_section_vrom h,
     hv_original_vram = hk_original_vram h, hv_flags = (if hk_flags h AND AtReturn = AtReturn then 1 else 0)\<rparr>"

definition callback_out :: "callback \<Rightarrow> callback_v1" where
  "callback_out c = \<lparr>cv_dependency_event_index = word_of_nat (cb_dependency_event_index c),
     cv_function_index = word_of_nat (cb_function_index c)\<rparr>"

text \<open>
  \<open>symbols_to_bin_v1\<close>. The names go into the string data in the order dependencies, imports,
  dependency events, exports, events; \<open>positions\<close> holds where each starts.
\<close>

definition symbols_to_bin_v1 :: "recompiler_context \<Rightarrow> bytes outcome" where
  "symbols_to_bin_v1 context =
     and_then (order_dependencies (dependencies_by_name context)) (\<lambda>dependencies_ordered.
     if \<exists>i\<in>set (exported_funcs context). length (ctx_functions context) \<le> i then Undef else
     let import_names = map (rsym_name \<circ> imp_base) (import_symbols context);
         dependency_event_names = map dev_event_name (dependency_events context);
         export_names = map (\<lambda>i. fn_name (ctx_functions context ! i)) (exported_funcs context);
         event_names = map (rsym_name \<circ> ev_base) (event_symbols context);
         (strings, positions) = append_names 0
           (dependencies_ordered @ import_names @ dependency_event_names @ export_names @ event_names);
         nd = length dependencies_ordered; ni = length import_names; ne = length dependency_event_names;
         nx = length export_names;
         strings_size = align_up_4 (word_of_nat (length strings));
         sub_header = \<lparr>sh_num_sections = word_of_nat (length (sections context)),
           sh_num_dependencies = word_of_nat nd, sh_num_imports = word_of_nat ni,
           sh_num_dependency_events = word_of_nat ne,
           sh_num_replacements = word_of_nat (length (replacements context)),
           sh_num_exports = word_of_nat nx, sh_num_callbacks = word_of_nat (length (callbacks context)),
           sh_num_provided_events = word_of_nat (length event_names),
           sh_num_hooks = word_of_nat (length (hooks context)), sh_string_data_size = strings_size\<rparr>;
         dependency_out = (\<lambda>(p, nm). struct_bytes (enc_dependency
           \<lparr>dv_reserved = 0, dv_mod_id_start = p, dv_mod_id_size = word_of_nat (length nm)\<rparr>));
         import_out = (\<lambda>(p, s). struct_bytes (enc_import
           \<lparr>iv_name_start = p, iv_name_size = word_of_nat (length (rsym_name (imp_base s))),
            iv_dependency = word_of_nat (imp_dependency_index s)\<rparr>));
         dependency_event_out = (\<lambda>(p, e). struct_bytes (enc_dependency_event
           \<lparr>dev_name_start = p, dev_name_size = word_of_nat (length (dev_event_name e)),
            dev_dependency = word_of_nat (dev_dependency_index e)\<rparr>));
         export_out = (\<lambda>(p, i). struct_bytes (enc_export
           \<lparr>xv_func_index = word_of_nat i, xv_name_start = p,
            xv_name_size = word_of_nat (length (fn_name (ctx_functions context ! i)))\<rparr>));
         event_out = (\<lambda>(p, nm). struct_bytes (enc_event
           \<lparr>ev_name_start = p, ev_name_size = word_of_nat (length nm)\<rparr>))
     in case write_all (write_section context) [0..<length (sections context)] of
          Undef \<Rightarrow> Undef
        | Fail \<Rightarrow> Done []
        | Done section_bytes \<Rightarrow> Done (
            good_magic @ le_bytes 1 @ struct_bytes (enc_sub_header sub_header) @
            resize_list strings (unat strings_size) 0 @ section_bytes @
            concat (map dependency_out (zip (take nd positions) dependencies_ordered)) @
            concat (map import_out (zip (take ni (drop nd positions)) (import_symbols context))) @
            concat (map dependency_event_out (zip (take ne (drop (nd + ni) positions)) (dependency_events context))) @
            concat (map (struct_bytes \<circ> enc_replacement \<circ> replacement_out) (replacements context)) @
            concat (map export_out (zip (take nx (drop (nd + ni + ne) positions)) (exported_funcs context))) @
            concat (map (struct_bytes \<circ> enc_callback \<circ> callback_out) (callbacks context)) @
            concat (map event_out (zip (drop (nd + ni + ne + nx) positions) event_names)) @
            concat (map (struct_bytes \<circ> enc_hook \<circ> hook_out) (hooks context))))"

section \<open>The layout is a codec\<close>

lemma length_struct_bytes [simp]: "length (struct_bytes ws) = 4 * length ws"
  by (induction ws) (simp_all add: struct_bytes_def)

lemma word_at_struct: "word_at (pre @ le_bytes w @ post) (length pre) = w"
  using le_u32_byte_of [of w] by (simp add: word_at_def le_bytes_def nth_append)

lemma words_at_Suc: "words_at data p (Suc k) = word_at data p # words_at data (p + 4) k"
proof -
  have "[0..<Suc k] = 0 # map Suc [0..<k]" by (simp add: upt_conv_Cons map_Suc_upt)
  then show ?thesis unfolding words_at_def by (simp add: o_def add.assoc del: upt_Suc)
qed

lemma words_at_struct: "words_at (pre @ struct_bytes ws @ post) (length pre) (length ws) = ws"
proof (induction ws arbitrary: pre)
  case Nil
  then show ?case by (simp add: words_at_def)
next
  case (Cons w ws)
  have e: "pre @ struct_bytes (w # ws) @ post = (pre @ le_bytes w) @ struct_bytes ws @ post"
    by (simp add: struct_bytes_def)
  have "word_at (pre @ struct_bytes (w # ws) @ post) (length pre) = w"
    using word_at_struct [of pre w "struct_bytes ws @ post"] by (simp add: struct_bytes_def)
  moreover have "words_at (pre @ struct_bytes (w # ws) @ post) (length pre + 4) (length ws) = ws"
    unfolding e using Cons.IH [of "pre @ le_bytes w"] by simp
  ultimately show ?case by (simp add: words_at_Suc)
qed

locale fixed_codec =
  fixes k :: nat and enc :: "'s \<Rightarrow> u32 list" and dec :: "u32 list \<Rightarrow> 's"
  assumes enc_length: "length (enc s) = k" and dec_enc: "dec (enc s) = s"
begin

lemma rows_read_back:
  "map (\<lambda>i. dec (words_at (pre @ concat (map (struct_bytes \<circ> enc) xs) @ post) (length pre + 4 * k * i) k)) [0..<length xs] = xs"
proof (induction xs arbitrary: pre)
  case (Cons x xs)
  let ?d = "pre @ concat (map (struct_bytes \<circ> enc) (x # xs)) @ post"
  have e: "?d = (pre @ struct_bytes (enc x)) @ concat (map (struct_bytes \<circ> enc) xs) @ post" by simp
  have l: "length (pre @ struct_bytes (enc x)) = length pre + 4 * k" by (simp add: enc_length)
  have "words_at ?d (length pre) k = enc x"
    using words_at_struct [of pre "enc x"] by (simp add: enc_length)
  moreover have "map (\<lambda>i. dec (words_at ?d (length pre + 4 * k * Suc i) k)) [0..<length xs] = xs"
    using Cons.IH [of "pre @ struct_bytes (enc x)"] unfolding e l by (simp add: algebra_simps o_def)
  ultimately show ?case by (simp only: length_Cons map_upt_Suc mult_0_right add_0_right dec_enc)
qed simp

lemma length_rows: "length (concat (map (struct_bytes \<circ> enc) xs)) = 4 * k * length xs"
  by (induction xs) (simp_all add: enc_length algebra_simps)

lemma read_back:
  "read_struct k dec (pre @ concat (map (struct_bytes \<circ> enc) xs) @ post) (length pre) (length xs) =
     Some (xs, length pre + 4 * k * length xs)"
  unfolding read_struct_def rows_read_back by (simp add: length_rows)

end

interpretation sub_header: fixed_codec 10 enc_sub_header dec_sub_header
  by unfold_locales (simp_all add: codec_simps)
interpretation section_header: fixed_codec 7 enc_section dec_section
  by unfold_locales (simp_all add: codec_simps)
interpretation func: fixed_codec 2 enc_func dec_func
  by unfold_locales (simp_all add: codec_simps)
interpretation reloc: fixed_codec 4 enc_reloc dec_reloc
  by unfold_locales (simp_all add: codec_simps)
lemma ucast_ucast_u8 [simp]: "ucast (ucast (b::u8) :: u32) = b"
  by (rule bit_eqI) (auto simp: bit_simps)

interpretation dependency: fixed_codec 3 enc_dependency dec_dependency
  by unfold_locales (simp_all add: codec_simps)
interpretation import_row: fixed_codec 3 enc_import dec_import
  by unfold_locales (simp_all add: codec_simps)
interpretation dependency_event_row: fixed_codec 3 enc_dependency_event dec_dependency_event
  by unfold_locales (simp_all add: codec_simps)
interpretation replacement_row: fixed_codec 4 enc_replacement dec_replacement
  by unfold_locales (simp_all add: codec_simps)
interpretation export_row: fixed_codec 3 enc_export dec_export
  by unfold_locales (simp_all add: codec_simps)
interpretation callback_row: fixed_codec 2 enc_callback dec_callback
  by unfold_locales (simp_all add: codec_simps)
interpretation event_row: fixed_codec 2 enc_event dec_event
  by unfold_locales (simp_all add: codec_simps)
interpretation hook_row: fixed_codec 4 enc_hook dec_hook
  by unfold_locales (simp_all add: codec_simps)

section \<open>What a parsed file satisfies\<close>

lemma or_fail_Done [simp]: "or_fail r = Done x \<longleftrightarrow> r = Some x"
  by (cases r) (simp_all add: or_fail_def)

lemma or_undef_Done [simp]: "or_undef r = Done x \<longleftrightarrow> r = Some x"
  by (cases r) (simp_all add: or_undef_def)

lemma for_each_inv:
  assumes "for_each i xs body s = Done s'" and "I s"
    and "\<And>j x t t'. I t \<Longrightarrow> x \<in> set xs \<Longrightarrow> body j x t = Done t' \<Longrightarrow> I t'"
  shows "I s'"
  using assms
proof (induction xs arbitrary: i s)
  case (Cons x xs)
  from Cons.prems(1) obtain t where t: "body i x s = Done t" "for_each (i + 1) xs body t = Done s'"
    by (auto simp: and_then_Done)
  have "I t" by (rule Cons.prems(3) [OF Cons.prems(2) _ t(1)]) simp
  then show ?case by (rule Cons.IH [OF t(2)]) (rule Cons.prems(3), simp_all)
qed simp

lemma read_table_inv:
  assumes "read_table k dec data count body st = Done st'" and "I (fst st)"
    and "\<And>j x t t'. I t \<Longrightarrow> body j x t = Done t' \<Longrightarrow> I t'"
  shows "I (fst st')"
proof -
  obtain c p where st: "st = (c, p)" by (cases st)
  have "and_then (or_fail (read_struct k dec data p (unat count)))
      (\<lambda>(rows, q). and_then (for_each 0 rows body c) (\<lambda>c'. Done (c', q))) = Done st'"
    using assms(1) unfolding read_table_def st by simp
  then obtain rq where rq: "(\<lambda>(rows, q). and_then (for_each 0 rows body c) (\<lambda>c'. Done (c', q))) rq = Done st'"
    unfolding and_then_Done by blast
  obtain rows q where "rq = (rows, q)" by (cases rq)
  with rq have "and_then (for_each 0 rows body c) (\<lambda>c'. Done (c', q)) = Done st'" by simp
  then obtain c' where "for_each 0 rows body c = Done c'" and st': "Done (c', q) = Done st'"
    unfolding and_then_Done by blast
  have "I c'" by (rule for_each_inv [OF \<open>for_each 0 rows body c = Done c'\<close>]) (use assms(2) st in simp, erule assms(3))
  then show ?thesis using st' by auto
qed

definition reloc_ok :: "(u32 \<rightharpoonup> u16) \<Rightarrow> nat \<Rightarrow> reloc \<Rightarrow> bool" where
  "reloc_ok sections_by_vrom num_sections r \<longleftrightarrow>
     (if rel_reference_symbol r
      then rel_target_section r = SectionImport \<or> rel_target_section r = SectionEvent \<or>
        rel_target_section r \<in> ran sections_by_vrom
      else unat (rel_target_section r) < num_sections)"

definition parsed_ok :: "(u32 \<rightharpoonup> u16) \<Rightarrow> recompiler_context \<Rightarrow> bool" where
  "parsed_ok sections_by_vrom ctx \<longleftrightarrow> context_wf ctx \<and>
     (\<forall>c\<in>set (callbacks ctx). cb_function_index c < length (ctx_functions ctx)) \<and>
     (\<forall>s\<in>set (sections ctx). sec_fixed_address s = sec_globally_loaded s \<and>
        (\<forall>r\<in>set (sec_relocs s). reloc_ok sections_by_vrom (length (sections ctx)) r))"

text \<open>The parts of the invariant that do not read a field that an operation changes.\<close>

lemma context_wf_frame:
  "dependencies c = dependencies c' \<Longrightarrow> dependencies_by_name c = dependencies_by_name c' \<Longrightarrow>
   dependency_events c = dependency_events c' \<Longrightarrow>
   dependency_events_by_name c = dependency_events_by_name c' \<Longrightarrow>
   dependency_imports_by_name c = dependency_imports_by_name c' \<Longrightarrow>
   import_symbols c = import_symbols c' \<Longrightarrow> event_symbols c = event_symbols c' \<Longrightarrow>
   reference_sections c = reference_sections c' \<Longrightarrow> reference_symbols c = reference_symbols c' \<Longrightarrow>
   reference_symbols_by_name c = reference_symbols_by_name c' \<Longrightarrow> context_wf c = context_wf c'"
  unfolding context_wf_def
  using dependencies_wf_frame [of c c'] dependency_events_wf_frame [of c c'] imports_wf_frame [of c c']
    reference_symbols_wf_frame [of c c'] by simp

lemma context_wf_upd [simp]:
  "context_wf (c\<lparr>replacements := x1\<rparr>) = context_wf c" "context_wf (c\<lparr>exported_funcs := x2\<rparr>) = context_wf c"
  "context_wf (c\<lparr>hooks := x3\<rparr>) = context_wf c" "context_wf (c\<lparr>sections := x4\<rparr>) = context_wf c"
  "context_wf (c\<lparr>ctx_functions := x5\<rparr>) = context_wf c" "context_wf (c\<lparr>functions_by_vram := x6\<rparr>) = context_wf c"
  by (rule context_wf_frame; simp)+

lemma parsed_ok_symbols:
  assumes "parsed_ok sbv c" and "context_wf c'"
    and "callbacks c' = callbacks c" and "length (ctx_functions c') = length (ctx_functions c)" and "sections c' = sections c"
  shows "parsed_ok sbv c'"
  using assms by (simp add: parsed_ok_def)

lemma add_dependency_same [simp]:
  "callbacks (snd (add_dependency d c)) = callbacks c" "ctx_functions (snd (add_dependency d c)) = ctx_functions c"
  "sections (snd (add_dependency d c)) = sections c"
  by (simp_all add: add_dependency_def push_dependency_def dep_resize_def Let_def)

lemma add_dependency_event_same [simp]:
  "callbacks (snd (add_dependency_event e d c)) = callbacks c"
  "ctx_functions (snd (add_dependency_event e d c)) = ctx_functions c"
  "sections (snd (add_dependency_event e d c)) = sections c"
  by (auto simp: add_dependency_event_def Let_def split: option.split)

lemma parse_dependency_ok: "parsed_ok sbv c \<Longrightarrow> parse_dependency data p n i d c = Done c' \<Longrightarrow> parsed_ok sbv c'"
  by (auto simp: parse_dependency_def and_then_Done parsed_ok_def intro: add_dependency_wf)

lemma parse_dependency_event_ok:
  "parsed_ok sbv c \<Longrightarrow> parse_dependency_event data p n i d c = Done c' \<Longrightarrow> parsed_ok sbv c'"
  by (auto simp: parse_dependency_event_def and_then_Done parsed_ok_def intro: add_dependency_event_wf)

lemma parse_import_ok: "parsed_ok sbv c \<Longrightarrow> parse_import data p n m i d c = Done c' \<Longrightarrow> parsed_ok sbv c'"
proof -
  assume ok: "parsed_ok sbv c" and d: "parse_import data p n m i d c = Done c'"
  then obtain nm k where a: "add_import_symbol nm k c = Some c'"
    by (auto simp: parse_import_def and_then_Done split: if_splits)
  then have "callbacks c' = callbacks c" "ctx_functions c' = ctx_functions c" "sections c' = sections c"
    by (auto simp: add_import_symbol_def split: if_splits)
  moreover have "context_wf c'" using add_import_symbol_wf [OF _ a] ok by (simp add: parsed_ok_def)
  ultimately show ?thesis using ok by (simp add: parsed_ok_def)
qed

lemma parse_event_ok: "parsed_ok sbv c \<Longrightarrow> parse_event data p n i d c = Done c' \<Longrightarrow> parsed_ok sbv c'"
  by (auto simp: parse_event_def and_then_Done parsed_ok_def add_event_symbol_def [of _ c]
      dest: add_event_symbol_wf)

lemma parse_replacement_ok: "parsed_ok sbv c \<Longrightarrow> parse_replacement i r c = Done c' \<Longrightarrow> parsed_ok sbv c'"
  by (auto simp: parse_replacement_def parsed_ok_def)

lemma parse_hook_ok: "parsed_ok sbv c \<Longrightarrow> parse_hook i r c = Done c' \<Longrightarrow> parsed_ok sbv c'"
  by (auto simp: parse_hook_def parsed_ok_def)

lemma parse_export_ok: "parsed_ok sbv c \<Longrightarrow> parse_export data p n i x c = Done c' \<Longrightarrow> parsed_ok sbv c'"
  by (auto simp: parse_export_def Let_def and_then_Done upd_function_def parsed_ok_def split: if_splits)

lemma parse_callback_ok: "parsed_ok sbv c \<Longrightarrow> parse_callback n i x c = Done c' \<Longrightarrow> parsed_ok sbv c'"
  using add_callback_wf [of c "unat (cv_dependency_event_index x)" "unat (cv_function_index x)"]
  by (auto simp: parse_callback_def add_callback_def parsed_ok_def split: if_splits)

lemma reloc_target_ok:
  "reloc_target sbv n r = Done (sec, off, smi, rf) \<Longrightarrow>
     reloc_ok sbv n \<lparr>rel_address = a, rel_target_section_offset = off, rel_symbol_index = smi,
       rel_target_section = sec, rel_type = t, rel_reference_symbol = rf\<rparr>"
  by (auto simp: reloc_target_def reloc_ok_def Let_def intro: ranI split: if_splits option.splits)

lemma parse_func_ok: "parsed_ok sbv c \<Longrightarrow> parse_func s st i x c = Done c' \<Longrightarrow> parsed_ok sbv c'"
  by (auto simp: parse_func_def Let_def upd_function_def parsed_ok_def split: if_splits)

lemma parsed_ok_upd_section:
  assumes "parsed_ok sbv c" and "i < length (sections c)"
    and "sec_fixed_address (f (sections c ! i)) = sec_globally_loaded (f (sections c ! i))"
    and "\<forall>r\<in>set (sec_relocs (f (sections c ! i))). reloc_ok sbv (length (sections c)) r"
  shows "parsed_ok sbv (upd_section i f c)"
  using assms unfolding parsed_ok_def upd_section_def by (auto dest!: set_update_subset_insert [THEN subsetD])

lemma parse_reloc_ok:
  assumes "parsed_ok sbv c" and "s < length (sections c)" and "parse_reloc sbv s i x c = Done c'"
  shows "parsed_ok sbv c' \<and> length (sections c') = length (sections c)"
proof -
  obtain sec off smi rf where t: "reloc_target sbv (length (sections c)) x = Done (sec, off, smi, rf)"
    and c': "c' = upd_section s (\<lambda>y. y\<lparr>sec_relocs := (sec_relocs y)[i :=
      \<lparr>rel_address = sec_ram_addr (sections c ! s) + rv_section_offset x, rel_target_section_offset = off,
       rel_symbol_index = smi, rel_target_section = sec, rel_type = ucast (rv_type x),
       rel_reference_symbol = rf\<rparr>]\<rparr>) c"
    using assms(3) by (auto simp: parse_reloc_def Let_def and_then_Done)
  have "sections c ! s \<in> set (sections c)" using assms(2) by simp
  with assms(1) have "sec_fixed_address (sections c ! s) = sec_globally_loaded (sections c ! s)"
    "\<forall>r\<in>set (sec_relocs (sections c ! s)). reloc_ok sbv (length (sections c)) r"
    by (auto simp: parsed_ok_def)
  then have "parsed_ok sbv c'" unfolding c'
    using reloc_target_ok [OF t] by (intro parsed_ok_upd_section assms) (auto dest!: set_update_subset_insert [THEN subsetD])
  then show ?thesis by (simp add: c' upd_section_def)
qed


lemma parse_relocs_ok:
  assumes "parsed_ok sbv c" and "s < length (sections c)" and "for_each 0 rs (parse_reloc sbv s) c = Done c'"
  shows "parsed_ok sbv c'"
proof -
  have "parsed_ok sbv c' \<and> length (sections c') = length (sections c)"
    by (rule for_each_inv [OF assms(3)]) (use assms in simp, metis assms(2) parse_reloc_ok)
  then show ?thesis by simp
qed

lemma parse_func_sections: "parse_func s st i x c = Done c' \<Longrightarrow> sections c' = sections c"
  by (auto simp: parse_func_def Let_def upd_function_def split: if_splits)

lemma parse_funcs_ok:
  "parsed_ok sbv c \<Longrightarrow> for_each 0 fs (parse_func s st) c = Done c' \<Longrightarrow> parsed_ok sbv c' \<and> sections c' = sections c"
  by (rule for_each_inv [where I = "\<lambda>t. parsed_ok sbv t \<and> sections t = sections c"])
    (auto dest: parse_func_ok parse_func_sections)

lemma reloc_default_ok: "0 < n \<Longrightarrow> reloc_ok sbv n reloc_default"
  by (simp add: reloc_ok_def reloc_default_def)

lemma parse_section_rows_ok:
  assumes ok: "parsed_ok sbv c" and i: "i < length (sections c)"
    and d: "parse_section_rows data sbv i h c p = Done (c', p')"
  shows "parsed_ok sbv c' \<and> length (sections c') = length (sections c)"
proof -
  define c2 where "c2 = c\<lparr>ctx_functions := resize_list (ctx_functions c)
      (length (ctx_functions c) + unat (sc_num_funcs h)) function_default\<rparr>"
  define c3 where "c3 = upd_section i (\<lambda>s. s\<lparr>sec_relocs :=
      resize_list (sec_relocs s) (unat (sc_num_relocs h)) reloc_default\<rparr>) c2"
  obtain funcs relocs c4 where f: "for_each 0 funcs (parse_func i (length (ctx_functions c))) c3 = Done c4"
    and r: "for_each 0 relocs (parse_reloc sbv i) c4 = Done c'"
    using d unfolding parse_section_rows_def Let_def c2_def [symmetric] c3_def [symmetric]
    by (auto simp: and_then_Done split: prod.splits)
  have c2: "parsed_ok sbv c2" using ok by (auto simp: parsed_ok_def c2_def)
  have s2: "sections c2 = sections c" by (simp add: c2_def)
  have "sections c ! i \<in> set (sections c)" using i by simp
  then have "sec_fixed_address (sections c ! i) = sec_globally_loaded (sections c ! i)"
    "\<forall>r\<in>set (sec_relocs (sections c ! i)). reloc_ok sbv (length (sections c)) r"
    using ok by (auto simp: parsed_ok_def)
  moreover have "reloc_ok sbv (length (sections c)) reloc_default" using i by (intro reloc_default_ok) auto
  ultimately have "parsed_ok sbv c3" unfolding c3_def
    using i by (intro parsed_ok_upd_section c2) (auto simp: s2 resize_list_def dest: in_set_takeD)
  then have c4: "parsed_ok sbv c4" "sections c4 = sections c3" using parse_funcs_ok f by blast+
  have l3: "length (sections c3) = length (sections c)" by (simp add: c3_def upd_section_def s2)
  have "parsed_ok sbv c' \<and> length (sections c') = length (sections c)"
    by (rule for_each_inv [OF r]) (use c4 l3 in simp, metis i parse_reloc_ok)
  then show ?thesis .
qed

lemma parse_section_ok:
  assumes ok: "parsed_ok sbv c" and i: "i < length (sections c)"
    and d: "parse_section data sbv i (c, p) = Done (c', p')"
  shows "parsed_ok sbv c' \<and> length (sections c') = length (sections c)"
proof -
  obtain h q where fl: "(sc_flags h AND FixedAddress \<noteq> 0) = (sc_flags h AND GloballyLoaded \<noteq> 0)"
    and r: "parse_section_rows data sbv i h (upd_section i (fill_section h i) c) q = Done (c', p')"
    using d unfolding parse_section_def Let_def
    by (auto simp: and_then_Done split: prod.splits if_splits)
  let ?c = "upd_section i (fill_section h i) c"
  have "sections c ! i \<in> set (sections c)" using i by simp
  then have "\<forall>r\<in>set (sec_relocs (sections c ! i)). reloc_ok sbv (length (sections c)) r"
    using ok by (auto simp: parsed_ok_def)
  then have "parsed_ok sbv ?c" using fl i by (intro parsed_ok_upd_section ok) (simp_all add: fill_section_def)
  moreover have "length (sections ?c) = length (sections c)" by (simp add: upd_section_def)
  ultimately show ?thesis using parse_section_rows_ok [OF _ _ r] i by simp
qed

lemma parse_sections_ok:
  assumes "parsed_ok sbv c" and "n \<le> length (sections c)"
    and "for_each 0 [0..<n] (\<lambda>i _. parse_section data sbv i) (c, p) = Done (c', p')"
  shows "parsed_ok sbv c'"
proof -
  have "parsed_ok sbv (fst t) \<and> n \<le> length (sections (fst t))"
    if "for_each i xs (\<lambda>i _. parse_section data sbv i) s = Done t" "i + length xs \<le> n"
      "parsed_ok sbv (fst s) \<and> n \<le> length (sections (fst s))" for i and xs :: "nat list" and s t
    using that
  proof (induction xs arbitrary: i s)
    case (Cons x xs)
    from Cons.prems(1) obtain u where u: "parse_section data sbv i s = Done u"
        "for_each (i + 1) xs (\<lambda>i _. parse_section data sbv i) u = Done t"
      by (auto simp: and_then_Done)
    have "parsed_ok sbv (fst u) \<and> length (sections (fst u)) = length (sections (fst s))"
      using Cons.prems(2,3) u(1) by (intro parse_section_ok [of sbv "fst s" i data "snd s" "fst u" "snd u"]) simp_all
    with Cons.prems(2,3) show ?case by (intro Cons.IH [OF u(2)]) simp_all
  qed simp
  from this [OF assms(3)] assms(1,2) show ?thesis by simp
qed

lemma resize_header_ok: "parsed_ok sbv (resize_header_vectors h context_default)"
proof -
  have "context_wf (resize_header_vectors h context_default)"
    unfolding resize_header_vectors_def by (simp add: context_wf_default)
  moreover have "sections (resize_header_vectors h context_default) = replicate (unat (sh_num_sections h)) section_default"
    by (simp add: resize_header_vectors_def context_default_def resize_list_def)
  moreover have "callbacks (resize_header_vectors h context_default) = []"
    by (simp add: resize_header_vectors_def context_default_def)
  ultimately show ?thesis by (simp add: parsed_ok_def section_default_def)
qed

lemma table_stage:
  assumes "and_then (read_table k dec data count body st) f = Done y" and "parsed_ok sbv (fst st)"
    and "\<And>j x t t'. parsed_ok sbv t \<Longrightarrow> body j x t = Done t' \<Longrightarrow> parsed_ok sbv t'"
    and "\<And>st'. f st' = Done y \<Longrightarrow> parsed_ok sbv (fst st') \<Longrightarrow> P"
  shows P
  using assms(1)
proof (rule and_thenE)
  fix st' assume r: "read_table k dec data count body st = Done st'" and f: "f st' = Done y"
  show P by (rule assms(4) [OF f read_table_inv [where I = "parsed_ok sbv", OF r assms(2,3)]])
qed

lemma parse_tables_ok:
  assumes "parse_tables data str h st = Done ctx" and "parsed_ok sbv (fst st)"
  shows "parsed_ok sbv ctx"
  using assms unfolding parse_tables_def Let_def
  apply -
  apply (erule (1) table_stage, erule (1) parse_dependency_ok)
  apply (erule (1) table_stage, erule (1) parse_import_ok)
  apply (erule (1) table_stage, erule (1) parse_dependency_event_ok)
  apply (erule (1) table_stage, erule (1) parse_replacement_ok)
  apply (erule (1) table_stage, erule (1) parse_export_ok)
  apply (erule (1) table_stage, erule (1) parse_callback_ok)
  apply (erule (1) table_stage, erule (1) parse_event_ok)
  apply (erule (1) table_stage, erule (1) parse_hook_ok)
  by (auto split: if_splits)

lemma parse_symbols_v1_ok:
  assumes "parse_symbols_v1 data sbv context_default = Done ctx"
  shows "parsed_ok sbv ctx"
proof -
  obtain h cur str st where st: "for_each 0 [0..<unat (sh_num_sections h)]
      (\<lambda>i _. parse_section data sbv i) (resize_header_vectors h context_default, cur) = Done st"
    and t: "parse_tables data str h st = Done ctx"
    using assms unfolding parse_symbols_v1_def Let_def
    by (auto split: prod.splits if_splits elim!: and_thenE)
  obtain c p where cp: "st = (c, p)" by (cases st)
  have "parsed_ok sbv c"
    by (rule parse_sections_ok [OF resize_header_ok _ st [unfolded cp]]) (simp add: resize_header_vectors_def)
  then show ?thesis using parse_tables_ok [OF t] by (simp add: cp)
qed

text \<open>C19: a file that is accepted gives a context whose name indices are consistent; every relocation that is no reference targets
  an existing section, and every other one the imports, the events or a section of the table of reference sections; every callback runs
  an existing function; the sections are fixed exactly when globally loaded; each function's words are those of the mod
  binary at its offset, inside the binary. A file that is rejected leaves the empty context. (The dependency event of a callback, the symbol
  index of a relocation to an import or event, and the function index of a replacement or hook are not checked by the parser.)\<close>

theorem parse_mod_symbols_sound:
  assumes "parse_mod_symbols data binary sections_by_vrom = Done (err, ctx)"
  shows "(err = Good \<longrightarrow> parsed_ok sections_by_vrom ctx \<and>
      (\<forall>f\<in>set (ctx_functions ctx). unat (fn_rom f) + 4 * length (fn_words f) \<le> length binary \<and>
         fn_words f = words_at binary (unat (fn_rom f)) (length (fn_words f)))) \<and>
    (err \<noteq> Good \<longrightarrow> ctx = context_default)"
proof (cases "err = Good")
  case True
  then obtain c where p: "parse_symbols_v1 data sections_by_vrom context_default = Done c"
    and n: "\<forall>f\<in>set (ctx_functions c). copy_function_words binary f \<noteq> None"
    and c: "ctx = c\<lparr>ctx_functions := map (the \<circ> copy_function_words binary) (ctx_functions c)\<rparr>"
    using assms by (auto simp: parse_mod_symbols_def split: if_splits outcome.splits)
  have "parsed_ok sections_by_vrom c" using p by (rule parse_symbols_v1_ok)
  then have "parsed_ok sections_by_vrom ctx" by (simp add: c parsed_ok_def)
  moreover have "unat (fn_rom g) + 4 * length (fn_words g) \<le> length binary \<and>
      fn_words g = words_at binary (unat (fn_rom g)) (length (fn_words g))" if gin: "g \<in> set (ctx_functions ctx)" for g
  proof -
    obtain f where f: "f \<in> set (ctx_functions c)" and g: "g = the (copy_function_words binary f)"
      using gin by (auto simp: c)
    have "copy_function_words binary f \<noteq> None" using n f by blast
    then show ?thesis unfolding g
      by (auto simp: copy_function_words_def words_at_def split: if_splits)
  qed
  ultimately show ?thesis using True by simp
next
  case False
  then show ?thesis using assms by (auto simp: parse_mod_symbols_def split: if_splits outcome.splits)
qed

section \<open>Small files\<close>

text \<open>Files with the string \<open>a\<close>, dependency rows and import rows: one that is accepted, and one that
  names its dependency twice and imports from the second entry.\<close>

definition dependency_a :: dependency_v1 where
  "dependency_a = \<lparr>dv_reserved = 0, dv_mod_id_start = 0, dv_mod_id_size = 1\<rparr>"

definition file_header :: "nat \<Rightarrow> nat \<Rightarrow> file_sub_header_v1" where
  "file_header deps imps = \<lparr>sh_num_sections = 0, sh_num_dependencies = word_of_nat deps, sh_num_imports = word_of_nat imps,
     sh_num_dependency_events = 0, sh_num_replacements = 0, sh_num_exports = 0, sh_num_callbacks = 0,
     sh_num_provided_events = 0, sh_num_hooks = 0, sh_string_data_size = 4\<rparr>"

definition names_file :: "dependency_v1 list \<Rightarrow> import_v1 list \<Rightarrow> bytes" where
  "names_file ds is =
     (good_magic @ le_bytes 1) @ concat (map (struct_bytes \<circ> enc_sub_header) [file_header (length ds) (length is)]) @
     [97, 0, 0, 0] @ concat (map (struct_bytes \<circ> enc_dependency) ds) @
     concat (map (struct_bytes \<circ> enc_import) is)"

definition import_from :: "u32 \<Rightarrow> import_v1" where
  "import_from d = \<lparr>iv_name_start = 0, iv_name_size = 1, iv_dependency = d\<rparr>"

definition duplicate_dependency_file :: bytes where
  "duplicate_dependency_file = names_file [dependency_a, dependency_a] [import_from 1]"

lemma char_of_97: "char_of (97 :: nat) = CHR ''a''"
  by code_simp

lemma names_file_lengths: "length good_magic = 8" "length (concat (map (struct_bytes \<circ> enc_sub_header) [h])) = 40"
  "length (concat (map (struct_bytes \<circ> enc_dependency) ds)) = 12 * length ds"
  "length (concat (map (struct_bytes \<circ> enc_import) is)) = 12 * length is"
  by (simp_all add: good_magic_def bytes_of_chars_def enc_sub_header_def length_concat comp_def
      enc_dependency_def enc_import_def sum_list_triv)

lemma names_file_reads:
  fixes ds "is"
  defines "d \<equiv> names_file ds is"
  shows "length d = 56 + 12 * length ds + 12 * length is" "magic_matches d"
  "word_at d 8 = 1"
  "read_struct 10 dec_sub_header d 12 1 = Some ([file_header (length ds) (length is)], 52)"
  "read_chars d 52 4 = Some (52, 56)"
  "read_struct 3 dec_dependency d 56 (length ds) = Some (ds, 56 + 12 * length ds)"
  "read_struct 3 dec_import d (56 + 12 * length ds) (length is) = Some (is, 56 + 12 * length ds + 12 * length is)"
  "string_view d 52 4 0 1 = Done ''a''"
proof -
  let ?pre = "good_magic @ le_bytes 1" and ?h = "file_header (length ds) (length is)"
  let ?hs = "concat (map (struct_bytes \<circ> enc_sub_header) [?h])"
  let ?ds = "concat (map (struct_bytes \<circ> enc_dependency) ds)"
  let ?is = "concat (map (struct_bytes \<circ> enc_import) is)"
  have ld: "length d = 56 + 12 * length ds + 12 * length is"
    unfolding d_def names_file_def length_append names_file_lengths by simp
  then show "length d = 56 + 12 * length ds + 12 * length is" .
  show "magic_matches d" by (simp add: magic_matches_def d_def names_file_def names_file_lengths)
  have "d = good_magic @ le_bytes 1 @ ?hs @ [97, 0, 0, 0] @ ?ds @ ?is" by (simp add: d_def names_file_def)
  then show "word_at d 8 = 1" using word_at_struct [of good_magic 1] names_file_lengths(1) by metis
  show "read_struct 10 dec_sub_header d 12 1 = Some ([?h], 52)"
    using sub_header.read_back [of ?pre "[?h]" "[97, 0, 0, 0] @ ?ds @ ?is"] names_file_lengths(1)
    unfolding d_def names_file_def by simp
  show "read_chars d 52 4 = Some (52, 56)" by (simp add: read_chars_def ld)
  show "read_struct 3 dec_dependency d 56 (length ds) = Some (ds, 56 + 12 * length ds)"
    using dependency.read_back [of "?pre @ ?hs @ [97, 0, 0, 0]" ds ?is] names_file_lengths(1) names_file_lengths(2)[of ?h]
    unfolding d_def names_file_def by (simp add: mult.commute)
  show "read_struct 3 dec_import d (56 + 12 * length ds) (length is) = Some (is, 56 + 12 * length ds + 12 * length is)"
    using import_row.read_back [of "?pre @ ?hs @ [97, 0, 0, 0] @ ?ds" "is" "[]"] names_file_lengths(1) names_file_lengths(2)[of ?h] names_file_lengths(3)[of ds]
    unfolding d_def names_file_def by (simp add: mult.commute add.assoc)
  have "slice ((?pre @ ?hs) @ [97, 0, 0, 0] @ ?ds @ ?is) (length (?pre @ ?hs) + 0) 1 = slice ([97, 0, 0, 0] @ ?ds @ ?is) 0 1"
    by (rule slice_append_right)
  then have "slice d 52 1 = [97]" using names_file_lengths(1) names_file_lengths(2)[of ?h] by (simp add: d_def names_file_def slice_def)
  then show "string_view d 52 4 0 1 = Done ''a''" by (simp add: string_view_def ld chars_of_bytes_def char_of_97)
qed

lemma read_struct_none: "cursor \<le> length data \<Longrightarrow> read_struct k dec data cursor 0 = Some ([], cursor)"
  by (simp add: read_struct_def)

lemmas names_file_run = read_struct_none or_fail_def parse_tables_def read_table_def parse_symbols_v1_def file_header_def
  parse_dependency_def parse_import_def dependency_a_def import_from_def add_dependency_def push_dependency_def
  emplace_def dep_resize_def resize_list_def add_import_symbol_def or_undef_def resize_header_vectors_def
  context_default_def

lemma parse_mod_symbols_sound_witness:
  "\<exists>ctx. parse_mod_symbols (names_file [dependency_a] [import_from 0]) [] Map.empty = Done (Good, ctx) \<and>
     parsed_ok Map.empty ctx \<and> dependencies ctx = [''a''] \<and> length (import_symbols ctx) = 1"
proof -
  let ?d = "names_file [dependency_a] [import_from 0]"
  note r = names_file_reads [of "[dependency_a]" "[import_from 0]", simplified]
  have "\<exists>c. parse_symbols_v1 ?d Map.empty context_default = Done c \<and>
      dependencies c = [''a''] \<and> length (import_symbols c) = 1 \<and> ctx_functions c = []"
    using r by (simp add: names_file_run)
  then obtain c where c: "parse_symbols_v1 ?d Map.empty context_default = Done c"
    and p: "dependencies c = [''a'']" "length (import_symbols c) = 1" "ctx_functions c = []" by blast
  then have m: "parse_mod_symbols ?d [] Map.empty = Done (Good, c)"
    using r by (simp add: parse_mod_symbols_def)
  show ?thesis using m p parse_mod_symbols_sound [OF m] by blast
qed

text \<open>A file whose dependency list repeats a name and that imports from the repeated entry passes
  every check of the parser and then makes it index a vector out of range.\<close>

lemma duplicate_dependency_undefined:
  "parse_mod_symbols duplicate_dependency_file binary sections_by_vrom = Undef"
proof -
  note r = names_file_reads [of "[dependency_a, dependency_a]" "[import_from 1]", folded duplicate_dependency_file_def, simplified, folded numeral_2_eq_2]
  have "parse_symbols_v1 duplicate_dependency_file sections_by_vrom context_default = Undef"
    using r by (simp add: names_file_run)
  then show ?thesis using r by (simp add: parse_mod_symbols_def)
qed

end
