(* ===== verification/Yay0.thy ===== *)
theory Yay0
  imports Recomp_Prelude
begin

text \<open>
  The decompressors of \<open>src/compression/\<close>: the Yay0 stream decoder and the PERS-SZP wrapper.

  A function that takes a buffer and an output vector and returns a \<open>bool\<close> gives
  \<open>Some (result, out)\<close>; \<open>None\<close> stands for a read or write outside a buffer, which is undefined
  behaviour in C++. The theorems show that it does not happen, on any input.
\<close>

section \<open>Checked accesses\<close>

definition read_at :: "bytes \<Rightarrow> nat \<Rightarrow> u8 option" where
  "read_at d i = (if i < length d then Some (d ! i) else None)"

definition read_be_u32 :: "bytes \<Rightarrow> nat \<Rightarrow> u32 option" where
  "read_be_u32 d p =
     (if p + 4 \<le> length d then Some (be_u32 (d ! p) (d ! (p + 1)) (d ! (p + 2)) (d ! (p + 3))) else None)"

definition read_be_u16 :: "bytes \<Rightarrow> nat \<Rightarrow> u16 option" where
  "read_be_u16 d p =
     (if p + 2 \<le> length d then Some (push_bit 8 (ucast (d ! p)) OR ucast (d ! (p + 1))) else None)"

definition write_at :: "bytes \<Rightarrow> nat \<Rightarrow> u8 \<Rightarrow> bytes option" where
  "write_at d i b = (if i < length d then Some (d[i := b]) else None)"

definition ascii :: "string \<Rightarrow> bytes" where
  "ascii s = map of_char s"

section \<open>The Yay0 decoder\<close>

record yay0_state =
  y_out :: bytes
  out_pos :: nat
  cmd_pos :: nat
  link_pos :: nat
  data_pos :: nat
  cmd :: u32
  cmd_bits :: nat

text \<open>
  One iteration of a loop: undefined behaviour, \<open>return false\<close> with the vector as it is, or
  the next state.
\<close>

datatype yay0_result = Bad_access | Rejected bytes | Next yay0_state

text \<open>The inner \<open>for\<close> loop, \<open>count\<close> times; \<open>decomp_size\<close> is the size the vector was assigned.\<close>

fun copy_loop :: "nat \<Rightarrow> nat \<Rightarrow> nat \<Rightarrow> yay0_state \<Rightarrow> yay0_result" where
  "copy_loop decomp_size 0 ref_pos st = Next st"
| "copy_loop decomp_size (Suc count) ref_pos st =
     (if decomp_size \<le> out_pos st then Rejected (y_out st)
      else case read_at (y_out st) ref_pos of
        None \<Rightarrow> Bad_access
      | Some b \<Rightarrow> case write_at (y_out st) (out_pos st) b of
          None \<Rightarrow> Bad_access
        | Some out \<Rightarrow> copy_loop decomp_size count (ref_pos + 1) (st\<lparr>y_out := out, out_pos := out_pos st + 1\<rparr>))"

definition fetch_cmd :: "bytes \<Rightarrow> yay0_state \<Rightarrow> yay0_result" where
  "fetch_cmd data st =
     (if cmd_bits st = 0 then
        if length data < cmd_pos st + 4 then Rejected (y_out st)
        else case read_be_u32 data (cmd_pos st) of
          None \<Rightarrow> Bad_access
        | Some c \<Rightarrow> Next (st\<lparr>cmd := c, cmd_pos := cmd_pos st + 4, cmd_bits := 32\<rparr>)
      else Next st)"

definition literal :: "bytes \<Rightarrow> yay0_state \<Rightarrow> yay0_result" where
  "literal data st =
     (if length data \<le> data_pos st then Rejected (y_out st)
      else case read_at data (data_pos st) of
        None \<Rightarrow> Bad_access
      | Some b \<Rightarrow> case write_at (y_out st) (out_pos st) b of
          None \<Rightarrow> Bad_access
        | Some out \<Rightarrow> Next (st\<lparr>y_out := out, out_pos := out_pos st + 1, data_pos := data_pos st + 1\<rparr>))"

definition back_reference :: "bytes \<Rightarrow> nat \<Rightarrow> yay0_state \<Rightarrow> yay0_result" where
  "back_reference data decomp_size st =
     (if length data < link_pos st + 2 then Rejected (y_out st)
      else case read_be_u16 data (link_pos st) of
        None \<Rightarrow> Bad_access
      | Some link \<Rightarrow>
          let st1 = st\<lparr>link_pos := link_pos st + 2\<rparr>;
              offset = unat (link AND 0x0FFF);
              nibble = unat (drop_bit 12 link);
              copy = (\<lambda>count st2. if out_pos st2 < offset + 1 then Rejected (y_out st2)
                 else copy_loop decomp_size count (out_pos st2 - offset - 1) st2)
          in if nibble = 0 then
               if length data \<le> data_pos st1 then Rejected (y_out st1)
               else case read_at data (data_pos st1) of
                 None \<Rightarrow> Bad_access
               | Some b \<Rightarrow> copy (unat b + 0x12) (st1\<lparr>data_pos := data_pos st1 + 1\<rparr>)
             else copy (nibble + 2) st1)"

definition shift_cmd :: "yay0_state \<Rightarrow> yay0_state" where
  "shift_cmd st = st\<lparr>cmd := push_bit 1 (cmd st), cmd_bits := cmd_bits st - 1\<rparr>"

definition yay0_step :: "bytes \<Rightarrow> nat \<Rightarrow> yay0_state \<Rightarrow> yay0_result" where
  "yay0_step data decomp_size st =
     (case fetch_cmd data st of
        Next st1 \<Rightarrow>
          (case (if cmd st1 AND 0x80000000 \<noteq> 0 then literal data st1
                 else back_reference data decomp_size st1) of
             Next st2 \<Rightarrow> Next (shift_cmd st2)
           | r \<Rightarrow> r)
      | r \<Rightarrow> r)"

text \<open>Each iteration writes at least one byte, so the loop ends.\<close>

lemma copy_loop_progress: "copy_loop n c r st = Next st' \<Longrightarrow> out_pos st' = out_pos st + c"
  by (induction n c r st rule: copy_loop.induct) (auto split: if_splits option.splits)

lemma yay0_step_progress:
  assumes "yay0_step data n st = Next st'"
  shows "out_pos st < out_pos st'"
proof -
  obtain st1 st2 where f: "fetch_cmd data st = Next st1" and st': "st' = shift_cmd st2"
    and s: "(if cmd st1 AND 0x80000000 \<noteq> 0 then literal data st1 else back_reference data n st1) = Next st2"
    using assms by (auto simp: yay0_step_def split: yay0_result.splits)
  have "out_pos st1 = out_pos st" using f by (auto simp: fetch_cmd_def split: if_splits option.splits)
  moreover have "out_pos st1 < out_pos st2" using s
    by (auto simp: literal_def back_reference_def Let_def dest!: copy_loop_progress
        split: if_splits option.splits)
  ultimately show ?thesis by (simp add: st' shift_cmd_def)
qed

function yay0_loop :: "bytes \<Rightarrow> nat \<Rightarrow> yay0_state \<Rightarrow> (bool \<times> bytes) option" where
  "yay0_loop data decomp_size st =
     (if out_pos st < decomp_size then
        case yay0_step data decomp_size st of
          Bad_access \<Rightarrow> None
        | Rejected out \<Rightarrow> Some (False, out)
        | Next st' \<Rightarrow> yay0_loop data decomp_size st'
      else Some (out_pos st = decomp_size, y_out st))"
  by pat_completeness auto

termination
  by (relation "measure (\<lambda>(data, n, st). n - out_pos st)") (auto dest: yay0_step_progress)

declare yay0_loop.simps [simp del]

text \<open>
  \<open>out\<close> is the vector passed in, which an early rejection leaves as it is. \<open>memcmp\<close> reads up to
  its length; the size test before it covers that.
\<close>

definition yay0_decompress :: "bytes \<Rightarrow> bytes \<Rightarrow> (bool \<times> bytes) option" where
  "yay0_decompress data out =
     (if length data < 16 then Some (False, out)
      else if take 4 data \<noteq> ascii ''Yay0'' then Some (False, out)
      else case (read_be_u32 data 4, read_be_u32 data 8, read_be_u32 data 12) of
        (Some decomp_size, Some link_table_off, Some data_off) \<Rightarrow>
          if length data \<le> unat link_table_off \<or> length data \<le> unat data_off then Some (False, out)
          else yay0_loop data (unat decomp_size)
                 \<lparr>y_out = replicate (unat decomp_size) 0, out_pos = 0, cmd_pos = 16,
                  link_pos = unat link_table_off, data_pos = unat data_off, cmd = 0, cmd_bits = 0\<rparr>
      | _ \<Rightarrow> None)"

section \<open>The PERS-SZP wrapper\<close>

definition pers_szp_decompress :: "bytes \<Rightarrow> bytes \<Rightarrow> (bool \<times> bytes) option" where
  "pers_szp_decompress data out =
     (if length data < 0x18 then Some (False, out)
      else if take 8 data \<noteq> ascii ''PERS-SZP'' then Some (False, out)
      else case (read_be_u32 data 0x08, read_be_u32 data 0x0C, read_be_u32 data 0x10) of
        (Some payload_off, Some decomp_size_a, Some decomp_size_b) \<Rightarrow>
          if payload_off \<noteq> 0x18 \<or> decomp_size_a \<noteq> decomp_size_b then Some (False, out)
          else if length data \<le> unat payload_off then Some (False, out)
          else (case yay0_decompress (drop (unat payload_off) data) out of
              None \<Rightarrow> None
            | Some (ok, out') \<Rightarrow>
                if \<not> ok then Some (False, out')
                else if length out' \<noteq> unat decomp_size_a then Some (False, out')
                else Some (True, out'))
      | _ \<Rightarrow> None)"

section \<open>Memory safety\<close>

lemma checked_reads:
  "read_at d i = None \<longleftrightarrow> length d \<le> i" "write_at d i b = None \<longleftrightarrow> length d \<le> i"
  "read_be_u32 d p = None \<longleftrightarrow> length d < p + 4" "read_be_u16 d p = None \<longleftrightarrow> length d < p + 2"
  by (auto simp: read_at_def write_at_def read_be_u32_def read_be_u16_def)

lemma write_at_length: "write_at d i b = Some d' \<Longrightarrow> length d' = length d"
  by (auto simp: write_at_def split: if_splits)

text \<open>What a step may give when the vector has the size \<open>n\<close> it was assigned.\<close>

definition size_kept :: "nat \<Rightarrow> yay0_result \<Rightarrow> bool" where
  "size_kept n r = (case r of Bad_access \<Rightarrow> False | Rejected out \<Rightarrow> True | Next st \<Rightarrow> length (y_out st) = n)"

lemma size_kept_simps [simp]:
  "\<not> size_kept n Bad_access" "size_kept n (Rejected out)" "size_kept n (Next st) \<longleftrightarrow> length (y_out st) = n"
  by (simp_all add: size_kept_def)

lemma copy_loop_safe:
  "length (y_out st) = n \<Longrightarrow> ref_pos < out_pos st \<Longrightarrow> size_kept n (copy_loop n c ref_pos st)"
proof (induction n c ref_pos st rule: copy_loop.induct)
  case (2 n c r st)
  show ?case
  proof (cases "n \<le> out_pos st")
    case False
    then have r: "r < length (y_out st)" and p: "out_pos st < length (y_out st)" using 2 by simp_all
    then have e: "read_at (y_out st) r = Some (y_out st ! r)"
      "write_at (y_out st) (out_pos st) (y_out st ! r) = Some ((y_out st)[out_pos st := y_out st ! r])"
      by (simp_all add: read_at_def write_at_def)
    show ?thesis using 2 False e by simp
  qed simp
qed simp

lemma fetch_cmd_safe:
  "length (y_out st) = n \<Longrightarrow> size_kept n (fetch_cmd data st)"
  "fetch_cmd data st = Next st' \<Longrightarrow> y_out st' = y_out st \<and> out_pos st' = out_pos st"
  by (auto simp: fetch_cmd_def checked_reads not_less split: option.splits if_splits)

lemma literal_safe:
  "length (y_out st) = n \<Longrightarrow> out_pos st < n \<Longrightarrow> size_kept n (literal data st)"
  by (auto simp: literal_def checked_reads not_le dest: write_at_length split: option.splits if_splits)

lemma back_reference_safe:
  assumes "length (y_out st) = n"
  shows "size_kept n (back_reference data n st)"
proof (cases "length data < link_pos st + 2")
  case False
  then obtain link where l: "read_be_u16 data (link_pos st) = Some link" by (auto simp: read_be_u16_def)
  with False assms show ?thesis
    by (auto simp: back_reference_def Let_def checked_reads simp del: copy_loop.simps
        intro!: copy_loop_safe split: option.split)
qed (simp add: back_reference_def)

lemma yay0_step_safe:
  assumes "length (y_out st) = n" and "out_pos st < n"
  shows "size_kept n (yay0_step data n st)"
proof (cases "fetch_cmd data st")
  case (Next st1)
  let ?r = "if cmd st1 AND 0x80000000 \<noteq> 0 then literal data st1 else back_reference data n st1"
  have "length (y_out st1) = n" "out_pos st1 < n" using fetch_cmd_safe(2) [OF Next] assms by simp_all
  then have "size_kept n ?r" by (simp only: literal_safe back_reference_safe split: if_split) simp
  then show ?thesis by (cases ?r) (simp_all only: yay0_step_def Next yay0_result.case size_kept_simps shift_cmd_def, simp_all)
qed (use fetch_cmd_safe(1) [OF assms(1), of data] in \<open>simp_all add: yay0_step_def\<close>)

lemma yay0_loop_safe:
  "length (y_out st) = n \<Longrightarrow> \<exists>ok out. yay0_loop data n st = Some (ok, out) \<and> (ok \<longrightarrow> length out = n)"
proof (induction data n st rule: yay0_loop.induct)
  case (1 data n st)
  show ?case
  proof (cases "out_pos st < n")
    case True
    show ?thesis
    proof (cases "yay0_step data n st")
      case Bad_access
      with yay0_step_safe [OF 1(2) True, of data] show ?thesis by simp
    next
      case (Rejected out)
      with True show ?thesis by (intro exI [of _ False]) (simp add: yay0_loop.simps)
    next
      case (Next st')
      with yay0_step_safe [OF 1(2) True, of data] have "length (y_out st') = n" by simp
      from 1(1) [OF True Next this] show ?thesis using True Next by (simp add: yay0_loop.simps [of data n st])
    qed
  next
    case False
    with 1(2) show ?thesis by (simp add: yay0_loop.simps [of data n st])
  qed
qed

lemma yay0_decompress_cases:
  "\<exists>ok out'. yay0_decompress data out = Some (ok, out') \<and>
     (ok \<longrightarrow> read_be_u32 data 4 = Some (word_of_nat (length out')) \<and> length out' < 2 ^ 32)"
proof (cases "length data < 16 \<or> take 4 data \<noteq> ascii ''Yay0''")
  case True
  then show ?thesis by (auto simp: yay0_decompress_def)
next
  case False
  then obtain a b c where r: "read_be_u32 data 4 = Some a" "read_be_u32 data 8 = Some b" "read_be_u32 data 12 = Some c"
    by (auto simp: read_be_u32_def)
  let ?st = "\<lparr>y_out = replicate (unat a) 0, out_pos = 0, cmd_pos = 16, link_pos = unat b, data_pos = unat c, cmd = 0, cmd_bits = 0\<rparr>"
  obtain ok out' where "yay0_loop data (unat a) ?st = Some (ok, out')" "ok \<longrightarrow> length out' = unat a"
    using yay0_loop_safe [of ?st "unat a" data] by auto
  with False r show ?thesis
    using unsigned_less [of a, where ?'a = nat] by (auto simp: yay0_decompress_def)
qed

text \<open>C23: the decoder never reads or writes outside its buffers, on any input; when it reports
  success the output has exactly the length the stream header announces.\<close>

theorem yay0_decompress_safe:
  "yay0_decompress data out \<noteq> None \<and>
   (fst (the (yay0_decompress data out)) \<longrightarrow>
      read_be_u32 data 4 = Some (word_of_nat (length (snd (the (yay0_decompress data out))))))"
  using yay0_decompress_cases [of data out] by auto

text \<open>C24: the PERS-SZP wrapper never accesses memory outside its buffer, and it succeeds with an output exactly when the
  file has the magic bytes and more than a header, its payload begins at 0x18, its two sizes agree, the Yay0 decoder succeeds on the payload
  with that output, and the output has the announced length.\<close>

theorem pers_szp_decompress_safe:
  "pers_szp_decompress data out \<noteq> None \<and>
   (pers_szp_decompress data out = Some (True, out') \<longleftrightarrow>
      take 8 data = ascii ''PERS-SZP'' \<and> 0x18 < length data \<and> read_be_u32 data 0x08 = Some 0x18 \<and>
      read_be_u32 data 0x0C = read_be_u32 data 0x10 \<and> map_option unat (read_be_u32 data 0x0C) = Some (length out') \<and>
      yay0_decompress (drop 0x18 data) out = Some (True, out'))"
proof -
  obtain ok res where y: "yay0_decompress (drop 0x18 data) out = Some (ok, res)"
    using yay0_decompress_cases [of "drop 0x18 data" out] by auto
  show ?thesis
  proof (cases "length data < 0x18 \<or> take 8 data \<noteq> ascii ''PERS-SZP''")
    case True
    then show ?thesis by (auto simp: pers_szp_decompress_def)
  next
    case False
    then obtain a b c where "read_be_u32 data 0x08 = Some a" "read_be_u32 data 0x0C = Some b" "read_be_u32 data 0x10 = Some c"
      by (auto simp: read_be_u32_def)
    with False y show ?thesis by (auto simp: pers_szp_decompress_def)
  qed
qed

section \<open>The format: literals and back-references\<close>

text \<open>
  The specification of the format. A token is a literal byte or a back-reference; \<open>expand\<close>
  executes tokens on the output so far, a back-reference copying byte by byte, so that it may
  read bytes it has just written. \<open>yay0_stream\<close> lays tokens out as the header describes.
\<close>

datatype lz_token = Lit u8 | Ref nat nat

fun lz_copy :: "nat \<Rightarrow> nat \<Rightarrow> bytes \<Rightarrow> bytes" where
  "lz_copy 0 offset out = out"
| "lz_copy (Suc n) offset out = lz_copy n offset (out @ [out ! (length out - offset - 1)])"

fun expand :: "lz_token list \<Rightarrow> bytes \<Rightarrow> bytes" where
  "expand [] out = out"
| "expand (Lit b # ts) out = expand ts (out @ [b])"
| "expand (Ref offset count # ts) out = expand ts (lz_copy count offset out)"

fun lz_valid :: "lz_token list \<Rightarrow> nat \<Rightarrow> bool" where
  "lz_valid [] n = True"
| "lz_valid (Lit b # ts) n = lz_valid ts (n + 1)"
| "lz_valid (Ref offset count # ts) n \<longleftrightarrow>
     offset < 4096 \<and> 3 \<le> count \<and> count \<le> 273 \<and> offset + 1 \<le> n \<and> lz_valid ts (n + count)"

fun is_lit :: "lz_token \<Rightarrow> bool" where
  "is_lit (Lit b) = True"
| "is_lit (Ref offset count) = False"

definition be_u32_bytes :: "u32 \<Rightarrow> bytes" where
  "be_u32_bytes w = [byte_of 3 w, byte_of 2 w, byte_of 1 w, byte_of 0 w]"

definition link_word :: "nat \<Rightarrow> nat \<Rightarrow> u16" where
  "link_word offset count = word_of_nat ((if count \<le> 17 then count - 2 else 0) * 4096 + offset)"

fun link_bytes :: "lz_token \<Rightarrow> bytes" where
  "link_bytes (Lit b) = []"
| "link_bytes (Ref offset count) = [byte_of 1 (link_word offset count), byte_of 0 (link_word offset count)]"

fun data_bytes :: "lz_token \<Rightarrow> bytes" where
  "data_bytes (Lit b) = [b]"
| "data_bytes (Ref offset count) = (if count \<le> 17 then [] else [word_of_nat (count - 18)])"

definition ctl_word :: "lz_token list \<Rightarrow> u32" where
  "ctl_word ts = horner_sum of_bool 2 (map (\<lambda>i. 31 - i < length ts \<and> is_lit (ts ! (31 - i))) [0..<32])"

function ctl_bytes :: "lz_token list \<Rightarrow> bytes" where
  "ctl_bytes ts = (if ts = [] then [] else be_u32_bytes (ctl_word ts) @ ctl_bytes (drop 32 ts))"
  by auto
termination by (relation "measure length") auto

declare ctl_bytes.simps [simp del]

definition yay0_stream :: "lz_token list \<Rightarrow> bytes" where
  "yay0_stream ts =
     (let ctl = ctl_bytes ts; links = concat (map link_bytes ts); lits = concat (map data_bytes ts);
          link_off = 16 + length ctl; data_off = link_off + length links
      in ascii ''Yay0'' @ be_u32_bytes (word_of_nat (length (expand ts []))) @
         be_u32_bytes (word_of_nat link_off) @ be_u32_bytes (word_of_nat data_off) @ ctl @ links @ lits)"

lemma lz_copy_length [simp]: "length (lz_copy n offset out) = length out + n"
  by (induction n offset out rule: lz_copy.induct) simp_all

lemma expand_length_mono: "length out \<le> length (expand ts out)"
proof (induction ts out rule: expand.induct)
  case (3 offset count ts out)
  then show ?case by simp
qed simp_all

lemma bit_ctl_word: "i < 32 \<Longrightarrow> bit (ctl_word ts) (31 - i) \<longleftrightarrow> i < length ts \<and> is_lit (ts ! i)"
  by (auto simp add: ctl_word_def bit_horner_sum_bit_word_iff)

lemma unat_link_word:
  assumes "offset < 4096" and "3 \<le> count"
  shows "unat (link_word offset count AND 0x0FFF) = offset"
    "unat (drop_bit 12 (link_word offset count)) = (if count \<le> 17 then count - 2 else 0)"
proof -
  let ?n = "if count \<le> 17 then count - 2 else 0"
  have "?n \<le> 15" by auto
  then have "?n * 4096 \<le> 15 * 4096" by (rule mult_le_mono1)
  then have "?n * 4096 + offset < 2 ^ 16" using assms(1) by simp
  then have u: "unat (link_word offset count) = ?n * 4096 + offset"
    unfolding link_word_def by (simp only: unat_of_nat) (simp add: take_bit_nat_eq_self)
  have "link_word offset count AND 0x0FFF = take_bit 12 (link_word offset count)"
    by (simp add: take_bit_eq_mask mask_eq_exp_minus_1)
  then have "unat (link_word offset count AND 0x0FFF) = take_bit 12 (unat (link_word offset count))"
    by (simp only: unsigned_take_bit_eq)
  then show "unat (link_word offset count AND 0x0FFF) = offset"
    using assms by (simp add: u take_bit_eq_mod)
  show "unat (drop_bit 12 (link_word offset count)) = ?n"
    using assms by (subst unat_drop_bit_eq) (simp add: u drop_bit_eq_div)
qed

lemma be_u16_bytes: "push_bit 8 (ucast (byte_of 1 w)) OR ucast (byte_of 0 w) = (w :: u16)"
  by (rule bit_eqI) (auto simp: bit_simps bit_byte_of)

lemma drop_ConsD: "drop p d = x # rest \<Longrightarrow> p < length d \<and> d ! p = x \<and> drop (Suc p) d = rest"
proof -
  assume d: "drop p d = x # rest"
  then have "p < length d" by (cases "p < length d") simp_all
  with d show ?thesis by (simp add: Cons_nth_drop_Suc [symmetric])
qed

lemma read_u32_bytes:
  assumes "drop p d = be_u32_bytes w @ rest"
  shows "read_be_u32 d p = Some w" and "p + 4 \<le> length d" and "drop (p + 4) d = rest"
proof -
  have 0: "p < length d \<and> d ! p = byte_of 3 w \<and> drop (Suc p) d = byte_of 2 w # byte_of 1 w # byte_of 0 w # rest"
    using assms by (intro drop_ConsD) (simp add: be_u32_bytes_def)
  have 1: "Suc p < length d \<and> d ! Suc p = byte_of 2 w \<and> drop (Suc (Suc p)) d = byte_of 1 w # byte_of 0 w # rest"
    using 0 by (intro drop_ConsD) simp
  have 2: "Suc (Suc p) < length d \<and> d ! Suc (Suc p) = byte_of 1 w \<and> drop (Suc (Suc (Suc p))) d = byte_of 0 w # rest"
    using 1 by (intro drop_ConsD) simp
  have 3: "Suc (Suc (Suc p)) < length d \<and> d ! Suc (Suc (Suc p)) = byte_of 0 w \<and> drop (Suc (Suc (Suc (Suc p)))) d = rest"
    using 2 by (intro drop_ConsD) simp
  have e: "p + 1 = Suc p" "p + 2 = Suc (Suc p)" "p + 3 = Suc (Suc (Suc p))" "p + 4 = Suc (Suc (Suc (Suc p)))" by simp_all
  show "p + 4 \<le> length d" "drop (p + 4) d = rest" using 3 unfolding e by simp_all
  then show "read_be_u32 d p = Some w" unfolding read_be_u32_def using 0 1 2 3 by (simp add: e)
qed

lemma read_u16_bytes:
  assumes "drop p d = byte_of 1 w # byte_of 0 w # rest"
  shows "read_be_u16 d p = Some (w :: u16)" and "p + 2 \<le> length d" and "drop (p + 2) d = rest"
proof -
  have 0: "p < length d \<and> d ! p = byte_of 1 w \<and> drop (Suc p) d = byte_of 0 w # rest"
    using assms by (intro drop_ConsD) simp
  have 1: "Suc p < length d \<and> d ! Suc p = byte_of 0 w \<and> drop (Suc (Suc p)) d = rest"
    using 0 by (intro drop_ConsD) simp
  have e: "p + 1 = Suc p" "p + 2 = Suc (Suc p)" by simp_all
  show "p + 2 \<le> length d" "drop (p + 2) d = rest" using 1 unfolding e by simp_all
  then show "read_be_u16 d p = Some w" unfolding read_be_u16_def using 0 1 be_u16_bytes [of w] by (simp add: e)
qed

text \<open>The vector while decoding: the output so far and zeros up to the final size.\<close>

definition pad_to :: "nat \<Rightarrow> bytes \<Rightarrow> bytes" where
  "pad_to n out = out @ replicate (n - length out) 0"

lemma pad_to_write: "length out < n \<Longrightarrow> write_at (pad_to n out) (length out) b = Some (pad_to n (out @ [b]))"
proof -
  assume l: "length out < n"
  then obtain k where k: "n - length out = Suc k" by (metis Suc_diff_Suc)
  then have "n - length (out @ [b]) = k" by simp
  with k l show ?thesis by (simp add: write_at_def pad_to_def list_update_append)
qed

lemma pad_to_read: "i < length out \<Longrightarrow> read_at (pad_to n out) i = Some (out ! i)"
  by (simp add: read_at_def pad_to_def nth_append)

lemma copy_loop_lz:
  assumes "y_out st = pad_to n out" and "out_pos st = length out" and "offset < length out" and "length out + c \<le> n"
  shows "copy_loop n c (length out - offset - 1) st =
    Next (st\<lparr>y_out := pad_to n (lz_copy c offset out), out_pos := length out + c\<rparr>)"
  using assms
proof (induction c arbitrary: out st)
  case 0
  then show ?case by simp
next
  case (Suc c)
  let ?b = "out ! (length out - offset - 1)" let ?out = "out @ [?b]"
  let ?st = "st\<lparr>y_out := pad_to n ?out, out_pos := out_pos st + 1\<rparr>"
  have "copy_loop n c (length ?out - offset - 1) ?st =
      Next (?st\<lparr>y_out := pad_to n (lz_copy c offset ?out), out_pos := length ?out + c\<rparr>)"
    using Suc.prems by (intro Suc.IH) simp_all
  moreover have "length ?out - offset - 1 = length out - offset - 1 + 1" using Suc.prems by simp
  ultimately show ?case using Suc.prems by (simp add: pad_to_read pad_to_write)
qed


definition stream_inv :: "bytes \<Rightarrow> nat \<Rightarrow> lz_token list \<Rightarrow> bytes \<Rightarrow> yay0_state \<Rightarrow> bool" where
  "stream_inv data n ts out st \<longleftrightarrow>
     y_out st = pad_to n out \<and> out_pos st = length out \<and> cmd_bits st \<le> 32 \<and>
     (\<forall>i<cmd_bits st. i < length ts \<longrightarrow> bit (cmd st) (31 - i) = is_lit (ts ! i)) \<and>
     (\<exists>rest. drop (cmd_pos st) data = ctl_bytes (drop (cmd_bits st) ts) @ rest) \<and>
     (\<exists>rest. drop (link_pos st) data = concat (map link_bytes ts) @ rest) \<and>
     (\<exists>rest. drop (data_pos st) data = concat (map data_bytes ts) @ rest)"

lemma fetch_cmd_stream:
  assumes inv: "stream_inv data n ts out st" and ts: "ts \<noteq> []"
  shows "\<exists>st1. fetch_cmd data st = Next st1 \<and> stream_inv data n ts out st1 \<and> 0 < cmd_bits st1"
proof (cases "cmd_bits st = 0")
  case True
  then obtain rest where d: "drop (cmd_pos st) data = be_u32_bytes (ctl_word ts) @ ctl_bytes (drop 32 ts) @ rest"
    using inv ts by (auto simp: stream_inv_def ctl_bytes.simps [of ts])
  note r = read_u32_bytes [OF d]
  let ?st = "st\<lparr>cmd := ctl_word ts, cmd_pos := cmd_pos st + 4, cmd_bits := 32\<rparr>"
  have "fetch_cmd data st = Next ?st" using True r by (simp add: fetch_cmd_def)
  moreover have "stream_inv data n ts out ?st" using inv r(3) by (auto simp: stream_inv_def bit_ctl_word)
  ultimately show ?thesis by auto
next
  case False
  then show ?thesis using inv by (simp add: fetch_cmd_def)
qed

lemma top_bit: "(c::u32) AND 0x80000000 \<noteq> 0 \<longleftrightarrow> bit c 31"
  using and_exp_eq_0_iff_not_bit [of c 31] by simp

lemma shift_cmd_stream:
  assumes "y_out st = pad_to n out" and "out_pos st = length out" and "0 < cmd_bits st" and "cmd_bits st \<le> 32"
    and bits: "\<forall>i<cmd_bits st. i < length (t # ts) \<longrightarrow> bit (cmd st) (31 - i) = is_lit ((t # ts) ! i)"
    and "\<exists>rest. drop (cmd_pos st) data = ctl_bytes (drop (cmd_bits st) (t # ts)) @ rest"
    and "\<exists>rest. drop (link_pos st) data = concat (map link_bytes ts) @ rest"
    and "\<exists>rest. drop (data_pos st) data = concat (map data_bytes ts) @ rest"
  shows "stream_inv data n ts out (shift_cmd st)"
proof -
  have "bit (push_bit 1 (cmd st)) (31 - i) = is_lit (ts ! i)" if "i < cmd_bits st - 1" "i < length ts" for i
  proof -
    have i: "31 - i = Suc (31 - Suc i)" using that assms(4) by arith
    have "bit (push_bit 1 (cmd st)) (31 - i) = bit (cmd st) (31 - Suc i)"
      unfolding i bit_push_bit_iff by auto
    also have "\<dots> = is_lit (ts ! i)" using bits [rule_format, of "Suc i"] that by simp
    finally show ?thesis .
  qed
  moreover have "drop (cmd_bits st) (t # ts) = drop (cmd_bits st - 1) ts" using assms(3) by (cases "cmd_bits st") simp_all
  ultimately show ?thesis using assms by (auto simp: stream_inv_def shift_cmd_def)
qed

lemma step_stream:
  assumes inv: "stream_inv data n (t # ts) out st" and valid: "lz_valid (t # ts) (length out)"
    and n: "length (expand [t] out) \<le> n"
  shows "\<exists>st'. yay0_step data n st = Next st' \<and> stream_inv data n ts (expand [t] out) st'"
proof -
  obtain st1 where f: "fetch_cmd data st = Next st1" and i1: "stream_inv data n (t # ts) out st1" and pos: "0 < cmd_bits st1"
    using fetch_cmd_stream [OF inv] by auto
  have lit: "cmd st1 AND 0x80000000 \<noteq> 0 \<longleftrightarrow> is_lit t"
    using i1 pos unfolding top_bit by (force simp: stream_inv_def)
  note i1' = i1 [unfolded stream_inv_def]
  show ?thesis
  proof (cases t)
    case (Lit b)
    then obtain rest where d: "drop (data_pos st1) data = b # concat (map data_bytes ts) @ rest" using i1' by auto
    note dd = drop_ConsD [OF d]
    have b: "data ! data_pos st1 = b" "data_pos st1 < length data" using dd by simp_all
    let ?st = "st1\<lparr>y_out := pad_to n (out @ [b]), out_pos := out_pos st1 + 1, data_pos := data_pos st1 + 1\<rparr>"
    have r: "read_at data (data_pos st1) = Some b" using b by (simp add: read_at_def)
    have w: "write_at (y_out st1) (out_pos st1) b = Some (pad_to n (out @ [b]))"
      using i1' n Lit by (simp add: pad_to_write)
    have "literal data st1 = Next ?st" using b(2) r w by (simp add: literal_def)
    moreover have "stream_inv data n ts (out @ [b]) (shift_cmd ?st)"
      using i1' pos dd Lit by (intro shift_cmd_stream [where t = t]) auto
    ultimately show ?thesis using f lit Lit by (simp add: yay0_step_def)
  next
    case (Ref offset count)
    have v: "offset < 4096" "3 \<le> count" "count \<le> 273" "offset < length out" using valid Ref by simp_all
    let ?l = "link_word offset count"
    obtain rest where d: "drop (link_pos st1) data = byte_of 1 ?l # byte_of 0 ?l # concat (map link_bytes ts) @ rest"
      using i1' Ref by auto
    note dd = read_u16_bytes [OF d] and un = unat_link_word [OF v(1,2)]
    have cp: "copy_loop n count (length out - offset - 1) s =
        Next (s\<lparr>y_out := pad_to n (lz_copy count offset out), out_pos := length out + count\<rparr>)"
      if "y_out s = y_out st1" "out_pos s = out_pos st1" for s
      using that i1' v n Ref by (intro copy_loop_lz) simp_all
    show ?thesis
    proof (cases "count \<le> 17")
      case True
      let ?st = "st1\<lparr>link_pos := link_pos st1 + 2, y_out := pad_to n (lz_copy count offset out), out_pos := length out + count\<rparr>"
      have c: "Suc (Suc (count - 2)) = count" using v by simp
      have "back_reference data n st1 = Next ?st"
        using True dd un v i1' c cp [of "st1\<lparr>link_pos := link_pos st1 + 2\<rparr>"]
        by (simp add: back_reference_def Let_def not_less del: copy_loop.simps)
      moreover have "stream_inv data n ts (lz_copy count offset out) (shift_cmd ?st)"
        using i1' pos dd Ref True by (intro shift_cmd_stream [where t = t]) auto
      ultimately show ?thesis using f lit Ref by (simp add: yay0_step_def)
    next
      case False
      then obtain rest' where d': "drop (data_pos st1) data = word_of_nat (count - 18) # concat (map data_bytes ts) @ rest'"
        using i1' Ref by auto
      obtain B :: u8 where B: "B = word_of_nat (count - 18)" by simp
      note dd' = drop_ConsD [OF d' [folded B]]
      let ?st = "st1\<lparr>link_pos := link_pos st1 + 2, data_pos := data_pos st1 + 1,
        y_out := pad_to n (lz_copy count offset out), out_pos := length out + count\<rparr>"
      have r: "read_at data (data_pos st1) = Some B" using dd' by (simp add: read_at_def)
      have "unat (word_of_nat (count - 18) :: u8) = count - 18" using v by (simp add: unat_of_nat take_bit_nat_eq_self)
      then have c: "unat B + 18 = count" using False unfolding B by simp
      have "back_reference data n st1 = Next ?st"
        using False dd dd' r un v i1' c cp [of "st1\<lparr>link_pos := link_pos st1 + 2, data_pos := data_pos st1 + 1\<rparr>"]
        by (simp add: back_reference_def Let_def not_less not_le del: copy_loop.simps)
      moreover have "stream_inv data n ts (lz_copy count offset out) (shift_cmd ?st)"
        using i1' pos dd dd' Ref False by (intro shift_cmd_stream [where t = t]) auto
      ultimately show ?thesis using f lit Ref by (simp add: yay0_step_def)
    qed
  qed
qed

lemma loop_stream:
  "stream_inv data (length (expand ts out)) ts out st \<Longrightarrow> lz_valid ts (length out) \<Longrightarrow>
     yay0_loop data (length (expand ts out)) st = Some (True, expand ts out)"
proof (induction ts arbitrary: out st)
  case Nil
  then show ?case by (simp add: stream_inv_def yay0_loop.simps pad_to_def)
next
  case (Cons t ts)
  let ?n = "length (expand (t # ts) out)"
  have e: "expand (t # ts) out = expand ts (expand [t] out)" by (cases t) simp_all
  have "length (expand [t] out) \<le> ?n" unfolding e by (rule expand_length_mono)
  from step_stream [OF Cons.prems this] obtain st'
    where st': "yay0_step data ?n st = Next st'" "stream_inv data ?n ts (expand [t] out) st'" by auto
  have v: "lz_valid ts (length (expand [t] out))" using Cons.prems(2) by (cases t) simp_all
  have "length out < length (expand [t] out)" using Cons.prems(2) by (cases t) simp_all
  then have "out_pos st < ?n" using Cons.prems(1) expand_length_mono [of "expand [t] out" ts]
    unfolding e by (simp add: stream_inv_def)
  with Cons.IH [OF st'(2) [unfolded e] v] st'(1) show ?case
    unfolding e by (simp add: yay0_loop.simps [of _ _ st])
qed

lemma length_be_u32_bytes [simp]: "length (be_u32_bytes w) = 4"
  by (simp add: be_u32_bytes_def)

lemma length_yay0_stream:
  "length (yay0_stream ts) = 16 + length (ctl_bytes ts) + length (concat (map link_bytes ts)) + length (concat (map data_bytes ts))"
  by (simp add: yay0_stream_def Let_def ascii_def)

lemma yay0_decompress_header:
  assumes "take 4 data = ascii ''Yay0''" and "16 \<le> length data" and "read_be_u32 data 4 = Some a"
    and "read_be_u32 data 8 = Some b" and "read_be_u32 data 12 = Some c"
    and "unat b < length data" and "unat c < length data"
  shows "yay0_decompress data out = yay0_loop data (unat a)
    \<lparr>y_out = replicate (unat a) 0, out_pos = 0, cmd_pos = 16, link_pos = unat b, data_pos = unat c, cmd = 0, cmd_bits = 0\<rparr>"
  using assms by (simp add: yay0_decompress_def)

text \<open>C6: the decoder implements the format. For every token list whose back-references point into
  the output before them, decoding the stream that lays it out succeeds and gives the bytes the
  tokens expand to, overlapping copies included.\<close>

theorem yay0_decodes_stream:
  assumes "ts \<noteq> []" and valid: "lz_valid ts 0" and "length (expand ts []) < 2 ^ 32"
    and "length (yay0_stream ts) < 2 ^ 32"
  shows "yay0_decompress (yay0_stream ts) out = Some (True, expand ts [])"
proof -
  let ?data = "yay0_stream ts" let ?n = "length (expand ts [])"
  let ?ctl = "ctl_bytes ts" let ?links = "concat (map link_bytes ts)" let ?lits = "concat (map data_bytes ts)"
  let ?link_off = "16 + length ?ctl" let ?data_off = "?link_off + length ?links"
  have s: "?data = ascii ''Yay0'' @ be_u32_bytes (word_of_nat ?n) @ be_u32_bytes (word_of_nat ?link_off) @
      be_u32_bytes (word_of_nat ?data_off) @ ?ctl @ ?links @ ?lits"
    by (simp add: yay0_stream_def Let_def)
  have a4: "length (ascii ''Yay0'') = 4" by (simp add: ascii_def)
  obtain b ts' where "ts = Lit b # ts'" using assms(1) valid by (cases ts; cases "hd ts") auto
  then have lits: "?lits \<noteq> []" by simp
  have u: "unat (word_of_nat k :: u32) = k" if "k < 2 ^ 32" for k
    using that by (simp only: unat_of_nat) (simp add: take_bit_nat_eq_self)
  have bounds: "?link_off < 2 ^ 32" "?data_off < 2 ^ 32" "?link_off < length ?data" "?data_off < length ?data"
    using assms(4) lits unfolding length_yay0_stream by simp_all
  have hd: "take 4 ?data = ascii ''Yay0''" "16 \<le> length ?data" by (simp_all add: s a4)
  have rd: "read_be_u32 ?data 4 = Some (word_of_nat ?n)" "read_be_u32 ?data 8 = Some (word_of_nat ?link_off)"
    "read_be_u32 ?data 12 = Some (word_of_nat ?data_off)"
    by (rule read_u32_bytes(1); simp add: s a4; fail)+
  let ?st = "\<lparr>y_out = replicate ?n 0, out_pos = 0, cmd_pos = 16, link_pos = ?link_off,
      data_pos = ?data_off, cmd = 0, cmd_bits = 0\<rparr>"
  have "stream_inv ?data ?n ts [] ?st"
    by (simp add: stream_inv_def pad_to_def s a4)
  then have l: "yay0_loop ?data ?n ?st = Some (True, expand ts [])"
    using loop_stream [of ?data ts "[]"] valid by simp
  show ?thesis
    using yay0_decompress_header [OF hd rd, of out] bounds l
    unfolding u [OF bounds(1)] u [OF bounds(2)] u [OF assms(3)] by simp
qed

lemma yay0_decodes_stream_witness:
  "yay0_decompress (yay0_stream [Lit 0x41, Lit 0x42, Ref 1 5, Lit 0x43]) [] = Some (True, [0x41, 0x42, 0x41, 0x42, 0x41, 0x42, 0x41, 0x43])"
proof -
  let ?ts = "[Lit 0x41, Lit 0x42, Ref 1 5, Lit 0x43]"
  have e: "expand ?ts [] = [0x41, 0x42, 0x41, 0x42, 0x41, 0x42, 0x41, 0x43]"
    by (simp add: numeral_eq_Suc)
  have "yay0_decompress (yay0_stream ?ts) [] = Some (True, expand ?ts [])"
  proof (rule yay0_decodes_stream)
    show "length (yay0_stream ?ts) < 2 ^ 32" by (simp add: length_yay0_stream ctl_bytes.simps)
    show "length (expand ?ts []) < 2 ^ 32" unfolding e by simp
  qed simp_all
  then show ?thesis unfolding e .
qed

section \<open>Two small files\<close>

definition literal_file :: bytes where
  "literal_file = ascii ''Yay0'' @ [0, 0, 0, 1, 0, 0, 0, 20, 0, 0, 0, 20, 0x80, 0, 0, 0, 0x41]"

definition szp_file :: bytes where
  "szp_file = ascii ''PERS-SZP'' @ [0, 0, 0, 0x18, 0, 0, 0, 1, 0, 0, 0, 1, 0, 0, 0, 0] @ literal_file"

lemma small_files_decode:
  "yay0_decompress literal_file [] = Some (True, [0x41])"
  "pers_szp_decompress szp_file [] = Some (True, [0x41])"
  by code_simp+

lemma yay0_decompress_safe_witness:
  "yay0_decompress literal_file [] = Some (True, [0x41]) \<and> read_be_u32 literal_file 4 = Some 1"
  using yay0_decompress_safe [of literal_file "[]"] small_files_decode by simp

lemma pers_szp_decompress_safe_witness:
  "yay0_decompress (drop 0x18 szp_file) [] = Some (True, [0x41]) \<and> read_be_u32 szp_file 0x08 = Some 0x18"
  using pers_szp_decompress_safe [of szp_file "[]" "[0x41]"] small_files_decode by simp

end
