(* ===== verification/Instruction.thy ===== *)
theory Instruction
  imports Operations
begin

text \<open>
  A decoded instruction. Decoding is done by the rabbitizer library, which is not part of the
  sources: an instruction is the record of what the recompiler asks of
  \<open>rabbitizer::InstructionCpu\<close>, and the constructor \<open>InstructionCpu(word, vram)\<close> is a parameter of the
  definitions that decode.
\<close>

record instruction =
  in_vram :: u32
  in_id :: instr_id
  in_rd :: nat
  in_rs :: nat
  in_rt :: nat
  in_sa :: nat
  in_fd :: nat
  in_fs :: nat
  in_ft :: nat
  in_cop1_cs :: nat
  in_cop0d :: nat
  in_imm :: u16
  in_modifies_rd :: bool
  in_modifies_rt :: bool
  in_is_branch :: bool
  in_is_jump :: bool
  in_is_valid :: bool
  in_has_branch_label :: bool
  in_branch_vram :: u32
  in_opcode_name :: string
  in_disassemble :: "string option \<Rightarrow> string"

text \<open>The fields are \<open>getVram\<close>, \<open>getUniqueId\<close>, \<open>GetO32_rd\<close>, \<dots>, \<open>Get_sa\<close>, \<open>GetO32_fd\<close>, \<dots>,
  \<open>Get_cop1cs\<close>, \<open>Get_cop0d\<close>, \<open>Get_immediate\<close>, \<open>modifiesRd\<close>, \<open>modifiesRt\<close>, \<open>isBranch\<close>, \<open>isJump\<close>,
  \<open>isValid\<close>, \<open>hasOperandAlias(cpu_branch_target_label)\<close>, \<open>getBranchVramGeneric\<close>,
  \<open>getOpcodeName\<close> and \<open>disassemble(0, label)\<close>, in this order.\<close>

type_synonym decoder = "u32 \<Rightarrow> u32 \<Rightarrow> instruction"

abbreviation "GPR_zero \<equiv> 0 :: nat"
abbreviation "GPR_gp \<equiv> 28 :: nat"
abbreviation "GPR_sp \<equiv> 29 :: nat"
abbreviation "GPR_ra \<equiv> 31 :: nat"

text \<open>An instruction with nothing but an id and an address.\<close>

definition plain_instruction :: "instr_id \<Rightarrow> u32 \<Rightarrow> instruction" where
  "plain_instruction i v = \<lparr>in_vram = v, in_id = i, in_rd = 0, in_rs = 0, in_rt = 0, in_sa = 0,
     in_fd = 0, in_fs = 0, in_ft = 0, in_cop1_cs = 0, in_cop0d = 0, in_imm = 0,
     in_modifies_rd = False, in_modifies_rt = False, in_is_branch = False, in_is_jump = False,
     in_is_valid = True, in_has_branch_label = False, in_branch_vram = 0, in_opcode_name = '''',
     in_disassemble = (\<lambda>_. '''')\<rparr>"

end
