(* ===== verification/Analysis.thy ===== *)
theory Analysis
  imports Instruction Context
begin

text \<open>
  Static analysis, \<open>src/analysis.cpp\<close>: the register tracking that finds jump tables, the sizing of
  the tables, and the control-flow walk that finds where a function ends.

  \<^item> The state of the tracker is the record \<open>tracker\<close>: a \<open>RegState\<close> per register, the tracked stack
    slots and the jump tables found so far. \<open>None\<close> is \<open>return false\<close>.
  \<^item> The ROM image is a list of bytes. A read outside it is \<open>Undef\<close>; so is any read of an image of 4 GiB or more,
    which the model does not cover.
  \<^item> The messages printed to the standard streams are not modelled.
\<close>

section \<open>Decoding helpers\<close>

text \<open>\<open>read_be_u32_local\<close>; the callers check the bounds.\<close>

definition read_be_u32_local :: "bytes \<Rightarrow> nat \<Rightarrow> u32" where
  "read_be_u32_local body off = be_u32 (body ! off) (body ! (off + 1)) (body ! (off + 2)) (body ! (off + 3))"

definition decode_conditional_branch_target :: "u32 \<Rightarrow> u32 \<Rightarrow> u32 option" where
  "decode_conditional_branch_target insn_word pc =
     (let op = drop_bit 26 insn_word AND 0x3F;
          is_conditional_branch =
            (if op = 0x01 then
               let rt = drop_bit 16 insn_word AND 0x1F
               in rt = 0x00 \<or> rt = 0x01 \<or> rt = 0x02 \<or> rt = 0x03 \<or> rt = 0x10 \<or> rt = 0x11 \<or> rt = 0x12 \<or> rt = 0x13
             else if (op \<ge> 0x04 \<and> op \<le> 0x07) \<or> (op \<ge> 0x14 \<and> op \<le> 0x17) then True
             else if op = 0x11 then drop_bit 21 insn_word AND 0x1F = 0x08
             else False)
      in if \<not> is_conditional_branch then None
         else Some (pc + 4 + push_bit 2 (scast (ucast (insn_word AND 0xFFFF) :: u16))))"

section \<open>Register tracking\<close>

record reg_state =
  prev_lui :: u32
  prev_addiu_vram :: u32
  prev_addu_vram :: u32
  prev_addend_reg :: nat
  prev_got_offset :: u32
  valid_lui :: bool
  valid_addiu :: bool
  valid_addend :: bool
  valid_got_offset :: bool
  loaded_lw_vram :: u32
  loaded_addu_vram :: u32
  loaded_address :: u32
  loaded_addend_reg :: nat
  valid_loaded :: bool
  valid_got_loaded :: bool

definition invalid_reg :: reg_state where
  "invalid_reg = \<lparr>prev_lui = 0, prev_addiu_vram = 0, prev_addu_vram = 0, prev_addend_reg = 0,
     prev_got_offset = 0, valid_lui = False, valid_addiu = False, valid_addend = False,
     valid_got_offset = False, loaded_lw_vram = 0, loaded_addu_vram = 0, loaded_address = 0,
     loaded_addend_reg = 0, valid_loaded = False, valid_got_loaded = False\<rparr>"

record tracker =
  regs :: "nat \<Rightarrow> reg_state"
  stack_states :: "reg_state list"
  jump_tables :: "jump_table list"

definition tracker_init :: tracker where
  "tracker_init = \<lparr>regs = (\<lambda>_. invalid_reg), stack_states = [], jump_tables = []\<rparr>"

definition sext_imm :: "u16 \<Rightarrow> u32" where
  "sext_imm imm = scast imm"

definition check_move :: "nat \<Rightarrow> nat \<Rightarrow> nat \<Rightarrow> (nat \<Rightarrow> reg_state) \<Rightarrow> (nat \<Rightarrow> reg_state)" where
  "check_move rd rs rt rg =
     (if rs = 0 then rg(rd := rg rt)
      else if rt = 0 then rg(rd := rg rs)
      else rg(rd := invalid_reg))"

definition track_lui :: "instruction \<Rightarrow> (nat \<Rightarrow> reg_state) \<Rightarrow> (nat \<Rightarrow> reg_state)" where
  "track_lui instr rg =
     rg(in_rt instr := invalid_reg\<lparr>prev_lui := push_bit 16 (sext_imm (in_imm instr)), valid_lui := True\<rparr>)"

definition track_addiu :: "instruction \<Rightarrow> (nat \<Rightarrow> reg_state) \<Rightarrow> (nat \<Rightarrow> reg_state)" where
  "track_addiu instr rg =
     (let copy = rg (in_rs instr)
      in rg(in_rt instr :=
           (if \<not> valid_addiu copy
            then copy\<lparr>prev_addiu_vram := sext_imm (in_imm instr), valid_addiu := True\<rparr>
            else invalid_reg)))"

definition with_addend :: "nat \<Rightarrow> u32 \<Rightarrow> reg_state \<Rightarrow> reg_state" where
  "with_addend addend_reg vram st =
     st\<lparr>valid_addend := True, prev_addend_reg := addend_reg, prev_addu_vram := vram\<rparr>"

definition track_addu :: "instruction \<Rightarrow> (nat \<Rightarrow> reg_state) \<Rightarrow> (nat \<Rightarrow> reg_state)" where
  "track_addu instr rg =
     (let rd = in_rd instr; rs = in_rs instr; rt = in_rt instr
      in if valid_got_offset (rg rs) \<noteq> valid_got_offset (rg rt) then
           let got_reg = (if valid_got_offset (rg rs) then rs else rt);
               addend_reg = (if valid_got_offset (rg rs) then rt else rs)
           in rg(rd := with_addend addend_reg (in_vram instr) (rg got_reg))
         else if (rs = GPR_gp \<or> rt = GPR_gp) \<and> valid_got_loaded (rg rs) \<noteq> valid_got_loaded (rg rt) then
           rg(rd := rg (if valid_got_loaded (rg rs) then rs else rt))
         else if valid_lui (rg rs) \<noteq> valid_lui (rg rt) then
           let lui_reg = (if valid_lui (rg rs) then rs else rt);
               addend_reg = (if valid_lui (rg rs) then rt else rs)
           in rg(rd := with_addend addend_reg (in_vram instr) (rg lui_reg))
         else (check_move rd rs rt rg)(rd := invalid_reg))"

text \<open>The checks on a stack offset and the slot it names, after growing the tracked stack.\<close>

definition stack_slot :: "u16 \<Rightarrow> reg_state list \<Rightarrow> (nat \<times> reg_state list) option" where
  "stack_slot imm stk =
     (if imm AND 3 \<noteq> 0 then None
      else if sint imm < 0 then None
      else let stack_offset = unat imm div 4
           in Some (stack_offset,
                if length stk \<le> stack_offset then resize_list stk (stack_offset + 1) invalid_reg else stk))"

definition track_sw :: "instruction \<Rightarrow> tracker \<Rightarrow> tracker option" where
  "track_sw instr tr =
     (if in_rs instr = GPR_sp then
        case stack_slot (in_imm instr) (stack_states tr) of
          None \<Rightarrow> None
        | Some (slot, stk) \<Rightarrow> Some (tr\<lparr>stack_states := stk[slot := regs tr (in_rt instr)]\<rparr>)
      else Some tr)"

definition load_from_table :: "instruction \<Rightarrow> reg_state \<Rightarrow> reg_state" where
  "load_from_table instr base =
     (let imm = in_imm instr; nonzero_immediate = (imm \<noteq> 0)
      in if \<not> (nonzero_immediate \<and> valid_addiu base) then
           let lo16 = (if nonzero_immediate then sext_imm imm else prev_addiu_vram base)
           in invalid_reg\<lparr>valid_loaded := True, loaded_lw_vram := in_vram instr,
                loaded_address := prev_lui base + lo16, loaded_addend_reg := prev_addend_reg base,
                loaded_addu_vram := prev_addu_vram base\<rparr>
         else invalid_reg)"

definition track_lw :: "bool \<Rightarrow> instruction \<Rightarrow> tracker \<Rightarrow> tracker option" where
  "track_lw is_got_addr_defined instr tr =
     (let rt = in_rt instr; base = in_rs instr; b = regs tr base
      in if base = GPR_sp then
           case stack_slot (in_imm instr) (stack_states tr) of
             None \<Rightarrow> None
           | Some (slot, stk) \<Rightarrow> Some (tr\<lparr>stack_states := stk, regs := (regs tr)(rt := stk ! slot)\<rparr>)
         else if valid_lui b \<and> valid_addend b then
           Some (tr\<lparr>regs := (regs tr)(rt := load_from_table instr b)\<rparr>)
         else if valid_got_offset b \<and> valid_addend b then
           Some (tr\<lparr>regs := (regs tr)(rt := invalid_reg\<lparr>valid_got_loaded := True,
             loaded_lw_vram := in_vram instr, loaded_address := ucast (in_imm instr),
             loaded_addend_reg := prev_addend_reg b, loaded_addu_vram := prev_addu_vram b,
             prev_got_offset := prev_got_offset b\<rparr>)\<rparr>)
         else if base = GPR_gp \<and> is_got_addr_defined then
           Some (tr\<lparr>regs := (regs tr)(rt := invalid_reg\<lparr>prev_got_offset := ucast (in_imm instr),
             valid_got_offset := True\<rparr>)\<rparr>)
         else Some (tr\<lparr>regs := (regs tr)(rt := invalid_reg)\<rparr>))"

definition found_table :: "instruction \<Rightarrow> reg_state \<Rightarrow> u32 option \<Rightarrow> jump_table" where
  "found_table instr st got_offset =
     \<lparr>jt_vram = loaded_address st, jt_addend_reg = word_of_nat (loaded_addend_reg st), jt_rom = 0,
      jt_lw_vram = loaded_lw_vram st, jt_addu_vram = loaded_addu_vram st, jt_jr_vram = in_vram instr,
      jt_section_index = 0, jt_got_offset = got_offset, jt_entries = []\<rparr>"

definition track_jr :: "instruction \<Rightarrow> tracker \<Rightarrow> tracker" where
  "track_jr instr tr =
     (let st = regs tr (in_rs instr)
      in if in_rs instr = GPR_ra then tr
         else if valid_loaded st then tr\<lparr>jump_tables := jump_tables tr @ [found_table instr st None]\<rparr>
         else if valid_got_loaded st then
           tr\<lparr>jump_tables := jump_tables tr @ [found_table instr st (Some (prev_got_offset st))]\<rparr>
         else tr)"

definition track_other :: "instruction \<Rightarrow> (nat \<Rightarrow> reg_state) \<Rightarrow> (nat \<Rightarrow> reg_state)" where
  "track_other instr rg =
     (let rg1 = (if in_modifies_rd instr then rg(in_rd instr := invalid_reg) else rg)
      in if in_modifies_rt instr then rg1(in_rt instr := invalid_reg) else rg1)"

definition analyze_instruction :: "bool \<Rightarrow> instruction \<Rightarrow> tracker \<Rightarrow> tracker option" where
  "analyze_instruction is_got_addr_defined instr tr =
     (if in_id instr = Alu cpu_lui then Some (tr\<lparr>regs := track_lui instr (regs tr)\<rparr>)
      else if in_id instr = Alu cpu_addiu then Some (tr\<lparr>regs := track_addiu instr (regs tr)\<rparr>)
      else if in_id instr = Alu cpu_addu then Some (tr\<lparr>regs := track_addu instr (regs tr)\<rparr>)
      else if in_id instr = Alu cpu_daddu \<or> in_id instr = Alu cpu_or then
        Some (tr\<lparr>regs := check_move (in_rd instr) (in_rs instr) (in_rt instr) (regs tr)\<rparr>)
      else if in_id instr = Mem cpu_sw then track_sw instr tr
      else if in_id instr = Mem cpu_lw then track_lw is_got_addr_defined instr tr
      else if in_id instr = Jump cpu_jr then Some (track_jr instr tr)
      else Some (tr\<lparr>regs := track_other instr (regs tr)\<rparr>))"

fun analyze_instructions :: "bool \<Rightarrow> instruction list \<Rightarrow> tracker \<Rightarrow> tracker option" where
  "analyze_instructions got [] tr = Some tr"
| "analyze_instructions got (instr # instrs) tr =
     (case analyze_instruction got instr tr of
        None \<Rightarrow> None
      | Some tr' \<Rightarrow> analyze_instructions got instrs tr')"

section \<open>The jump tables of a function\<close>

text \<open>The big-endian word of the ROM at an address: \<open>byteswap\<close> of a read on a little-endian host.\<close>

definition rom_word :: "bytes \<Rightarrow> u32 \<Rightarrow> u32 option" where
  "rom_word rom_image a =
     (if unat a + 4 \<le> length rom_image \<and> length rom_image < 2 ^ 32
      then Some (read_be_u32_local rom_image (unat a)) else None)"

text \<open>The sizing loop: entries are collected up to the next table or the first word that is no address
  of the function. \<open>delta\<close> is \<open>func.rom - func.vram\<close> and \<open>bias\<close> the GOT address to add.\<close>

function table_entries :: "bytes \<Rightarrow> recomp_function \<Rightarrow> u32 \<Rightarrow> u32 \<Rightarrow> u32 \<Rightarrow> u32 list outcome" where
  "table_entries rom_image func bias end_address vram =
     (if vram < end_address then
        case rom_word rom_image (vram + fn_rom func - fn_vram func) of
          None \<Rightarrow> Undef
        | Some w \<Rightarrow>
            let jtbl_word = w + bias
            in if jtbl_word < fn_vram func \<or> unat (fn_vram func) + length (fn_words func) * 4 \<le> unat jtbl_word
               then Done []
               else and_then (table_entries rom_image func bias end_address (vram + 4)) (\<lambda>es. Done (jtbl_word # es))
      else Done [])"
  by pat_completeness auto
termination
proof (relation "measure (\<lambda>(rom_image, func, bias, end_address, vram). 2 ^ 32 - unat (vram + fn_rom func - fn_vram func))")
  fix rom_image func and bias end_address vram w jtbl_word :: u32
  let ?a = "vram + fn_rom func - fn_vram func"
  assume "rom_word rom_image ?a = Some w"
  then have a: "unat ?a + 4 < 2 ^ 32" by (auto simp: rom_word_def split: if_splits)
  have "unat (?a + 4) = unat ?a + 4"
    using a by (subst unat_add_lem [THEN iffD1]) simp_all
  moreover have "vram + 4 + fn_rom func - fn_vram func = ?a + 4" by (simp add: algebra_simps)
  ultimately have "unat (vram + 4 + fn_rom func - fn_vram func) = unat ?a + 4" by metis
  then show "((rom_image, func, bias, end_address, vram + 4), (rom_image, func, bias, end_address, vram))
      \<in> measure (\<lambda>(rom_image, func, bias, end_address, vram). 2 ^ 32 - unat (vram + fn_rom func - fn_vram func))"
    using a by simp
qed simp

declare table_entries.simps [simp del]

definition absolute_table :: "bytes \<Rightarrow> recomp_function \<Rightarrow> section_info \<Rightarrow> u32 \<Rightarrow> jump_table \<Rightarrow> jump_table outcome" where
  "absolute_table rom_image func section got_ram_addr jt =
     (case jt_got_offset jt of
        None \<Rightarrow> Done jt
      | Some got_offset \<Rightarrow>
          let got_rom_addr = got_ram_addr + fn_rom func - fn_vram func
          in and_then (or_undef (rom_word rom_image (got_rom_addr + got_offset)))
               (\<lambda>got_word. Done (jt\<lparr>jt_vram := jt_vram jt + (sec_ram_addr section + got_word)\<rparr>)))"

fun map_outcome :: "('a \<Rightarrow> 'b outcome) \<Rightarrow> 'a list \<Rightarrow> 'b list outcome" where
  "map_outcome f [] = Done []"
| "map_outcome f (x # xs) = and_then (f x) (\<lambda>y. and_then (map_outcome f xs) (\<lambda>ys. Done (y # ys)))"

definition size_table :: "bytes \<Rightarrow> recomp_function \<Rightarrow> u32 option \<Rightarrow> u32 \<Rightarrow> jump_table \<Rightarrow> jump_table outcome" where
  "size_table rom_image func got_ram_addr end_address jt =
     (let bias = (case (jt_got_offset jt, got_ram_addr) of (Some _, Some g) \<Rightarrow> g | _ \<Rightarrow> 0)
      in and_then (table_entries rom_image func bias end_address (jt_vram jt)) (\<lambda>es.
           if es = [] then Fail
           else Done (jt\<lparr>jt_rom := jt_vram jt + fn_rom func - fn_vram func,
             jt_section_index := fn_section_index func, jt_entries := es\<rparr>)))"

fun size_tables :: "bytes \<Rightarrow> recomp_function \<Rightarrow> u32 option \<Rightarrow> jump_table list \<Rightarrow> jump_table list outcome" where
  "size_tables rom_image func got [] = Done []"
| "size_tables rom_image func got (jt # jts) =
     and_then (size_table rom_image func got (case jts of [] \<Rightarrow> -1 | next # _ \<Rightarrow> jt_vram next) jt) (\<lambda>jt'.
     and_then (size_tables rom_image func got jts) (\<lambda>jts'. Done (jt' # jts')))"

text \<open>\<open>std::sort\<close> does not fix the order of tables at the same address; \<open>sort_key\<close> keeps it. It makes no
  difference: tables at the same address are refused below, in any order.\<close>

definition analyze_function ::
    "recompiler_context \<Rightarrow> recomp_function \<Rightarrow> instruction list \<Rightarrow> jump_table list outcome" where
  "analyze_function ctx func instrs =
     and_then (or_undef (nth_opt (sections ctx) (unat (fn_section_index func)))) (\<lambda>section.
     and_then (or_fail (analyze_instructions (sec_got_ram_addr section \<noteq> None) instrs tracker_init)) (\<lambda>tr.
     and_then (case sec_got_ram_addr section of
                 None \<Rightarrow> Done (jump_tables tr)
               | Some g \<Rightarrow> map_outcome (absolute_table (rom ctx) func section g) (jump_tables tr)) (\<lambda>jts.
     size_tables (rom ctx) func (sec_got_ram_addr section) (sort_key jt_vram jts))))"

section \<open>The bounds of a function\<close>

function read_jump_table_targets :: "bytes \<Rightarrow> u32 \<Rightarrow> nat \<Rightarrow> nat list" where
  "read_jump_table_targets body vram_base jtbl_off =
     (if jtbl_off + 4 \<le> length body then
        let entry = read_be_u32_local body jtbl_off
        in if entry < vram_base \<or> unat vram_base + length body \<le> unat entry then []
           else let target_off = unat (entry - vram_base)
             in if target_off mod 4 \<noteq> 0 then []
                else target_off # read_jump_table_targets body vram_base (jtbl_off + 4)
      else [])"
  by pat_completeness auto
termination by (relation "measure (\<lambda>(body, vram_base, jtbl_off). length body - jtbl_off)") auto

declare read_jump_table_targets.simps [simp del]

definition jump_table_targets :: "bytes \<Rightarrow> u32 \<Rightarrow> u32 \<Rightarrow> nat list" where
  "jump_table_targets body vram_base jtbl_vram =
     (if jtbl_vram < vram_base then []
      else if length body \<le> unat (jtbl_vram - vram_base) then []
      else read_jump_table_targets body vram_base (unat (jtbl_vram - vram_base)))"

text \<open>The walk: the offsets decoded so far, the largest of them and the worklist, last element first.\<close>

record walk_state =
  visited :: "nat set"
  max_reached :: nat
  worklist :: "nat list"

definition reach :: "nat \<Rightarrow> walk_state \<Rightarrow> walk_state" where
  "reach off st = st\<lparr>visited := insert off (visited st), max_reached := max off (max_reached st)\<rparr>"

definition reach_delay :: "bytes \<Rightarrow> nat \<Rightarrow> walk_state \<Rightarrow> walk_state" where
  "reach_delay body delay st = (if delay + 4 \<le> length body then reach delay st else st)"

definition push_targets :: "nat list \<Rightarrow> walk_state \<Rightarrow> walk_state" where
  "push_targets targets st =
     st\<lparr>worklist := fold (\<lambda>t w. if t \<in> visited st then w else t # w) targets (worklist st)\<rparr>"

text \<open>A branch's target: the operand rabbitizer knows about, or the bits of a conditional branch.\<close>

definition branch_target :: "instruction \<Rightarrow> u32 \<Rightarrow> u32 option" where
  "branch_target instr insn_word =
     (if in_has_branch_label instr then Some (in_branch_vram instr)
      else decode_conditional_branch_target insn_word (in_vram instr))"

definition push_branch :: "bytes \<Rightarrow> u32 \<Rightarrow> u32 option \<Rightarrow> walk_state \<Rightarrow> walk_state" where
  "push_branch body vram_base target st =
     (case target of
        None \<Rightarrow> st
      | Some v \<Rightarrow> if vram_base \<le> v \<and> unat v < unat vram_base + length body
          then push_targets [unat (v - vram_base)] st else st)"

datatype ('e, 'a) checked = Refused 'e | Accepted 'a

definition refused_instruction :: "u32 \<Rightarrow> nat \<Rightarrow> u32 \<Rightarrow> string" where
  "refused_instruction insn_word cursor vram =
     ''analyze_instruction rejected insn 0x'' @ fmt_08X insn_word @ '' at offset 0x'' @ hex_nat cursor @
     '' (vram 0x'' @ fmt_08X vram @ '')''"

definition em_dash :: string where
  "em_dash = [CHR 0xE2, CHR 0x80, CHR 0x94]"

definition refused_table :: "nat \<Rightarrow> u32 \<Rightarrow> string" where
  "refused_table cursor vram =
     ''indirect jr at offset 0x'' @ hex_nat cursor @ '' '' @ em_dash @ '' jump table at vram 0x'' @ fmt_08X vram @
     '' has no valid entries (first entry would point outside body)''"

text \<open>One instruction of a basic block: the block ends, or goes on at another offset.\<close>

datatype block_step = Block_end "(string, walk_state) checked" | Next nat tracker walk_state

definition scan_instruction :: "decoder \<Rightarrow> bytes \<Rightarrow> u32 \<Rightarrow> nat \<Rightarrow> tracker \<Rightarrow> walk_state \<Rightarrow> block_step" where
  "scan_instruction decode body vram_base cursor tr st =
     (let st1 = reach cursor st;
          insn_word = read_be_u32_local body cursor;
          instr = decode insn_word (vram_base + word_of_nat cursor);
          delay = cursor + 4
      in case analyze_instruction False instr tr of
           None \<Rightarrow> Block_end (Refused (refused_instruction insn_word cursor (vram_base + word_of_nat cursor)))
         | Some tr1 \<Rightarrow>
             if in_id instr = Jump cpu_jr then
               let st2 = reach_delay body delay st1
               in if in_rs instr = GPR_ra then Block_end (Accepted st2)
                  else if jump_tables tr1 = [] then Block_end (Accepted st2)
                  else
                    let jt_at = jt_vram (last (jump_tables tr1));
                        targets = jump_table_targets body vram_base jt_at
                    in if targets = [] then Block_end (Refused (refused_table cursor jt_at))
                       else Block_end (Accepted (push_targets targets st2))
             else if in_id instr = Jump cpu_j then Block_end (Accepted (reach_delay body delay st1))
             else if in_id instr = Jump cpu_jal then Next (delay + 4) tr1 (reach_delay body delay st1)
             else if in_is_branch instr then
               Next (delay + 4) tr1
                 (push_branch body vram_base (branch_target instr insn_word) (reach_delay body delay st1))
             else Next (cursor + 4) tr1 st1)"

definition unvisited :: "bytes \<Rightarrow> walk_state \<Rightarrow> nat" where
  "unvisited body st = card ({..<length body} - visited st)"

lemma visited_simps [simp]:
  "visited (reach off st) = insert off (visited st)"
  "visited (push_targets ts st) = visited st"
  "visited (push_branch body vram_base target st) = visited st"
  "visited (reach_delay body d st) = (if d + 4 \<le> length body then insert d (visited st) else visited st)"
  by (auto simp: reach_def push_targets_def push_branch_def reach_delay_def split: option.splits)

lemma unvisited_less:
  assumes "cursor < length body" and "cursor \<notin> visited st" and "insert cursor (visited st) \<subseteq> visited st'"
  shows "unvisited body st' < unvisited body st"
  unfolding unvisited_def using assms by (intro psubset_card_mono) auto

lemma scan_instruction_visits:
  "scan_instruction decode body vram_base cursor tr st = Next c tr' st' \<Longrightarrow> insert cursor (visited st) \<subseteq> visited st'"
  "scan_instruction decode body vram_base cursor tr st = Block_end (Accepted st') \<Longrightarrow> insert cursor (visited st) \<subseteq> visited st'"
  by (auto simp: scan_instruction_def Let_def split: option.splits if_splits)

text \<open>One basic block, with its own register states.\<close>

function scan_block :: "decoder \<Rightarrow> bytes \<Rightarrow> u32 \<Rightarrow> nat \<Rightarrow> tracker \<Rightarrow> walk_state \<Rightarrow> (string, walk_state) checked" where
  "scan_block decode body vram_base cursor tr st =
     (if cursor + 4 \<le> length body \<and> cursor \<notin> visited st then
        case scan_instruction decode body vram_base cursor tr st of
          Block_end r \<Rightarrow> r
        | Next cursor' tr' st' \<Rightarrow> scan_block decode body vram_base cursor' tr' st'
      else Accepted st)"
  by pat_completeness auto
termination
proof (relation "measure (\<lambda>(decode, body, vram_base, cursor, tr, st). unvisited body st)")
  fix decode body vram_base cursor tr st cursor' tr' st'
  assume "cursor + 4 \<le> length body \<and> cursor \<notin> visited st"
    and "scan_instruction decode body vram_base cursor tr st = Next cursor' tr' st'"
  then show "((decode, body, vram_base, cursor', tr', st'), decode, body, vram_base, cursor, tr, st)
      \<in> measure (\<lambda>(decode, body, vram_base, cursor, tr, st). unvisited body st)"
    using unvisited_less [of cursor body st st'] scan_instruction_visits(1) by simp
qed simp

declare scan_block.simps [simp del]

lemma scan_block_grows:
  "scan_block decode body vram_base cursor tr st = Accepted st' \<Longrightarrow> visited st \<subseteq> visited st' \<and>
   (cursor + 4 \<le> length body \<longrightarrow> cursor \<in> visited st') \<and> (length body < cursor + 4 \<longrightarrow> st' = st)"
proof (induction decode body vram_base cursor tr st arbitrary: st' rule: scan_block.induct)
  case (1 decode body vram_base cursor tr st)
  show ?case
  proof (cases "cursor + 4 \<le> length body \<and> cursor \<notin> visited st")
    case False
    then show ?thesis using "1.prems" by (auto simp: scan_block.simps [of _ _ _ cursor])
  next
    case True
    show ?thesis
    proof (cases "scan_instruction decode body vram_base cursor tr st")
      case (Block_end r)
      then show ?thesis
        using "1.prems" True scan_instruction_visits(2) by (auto simp: scan_block.simps [of _ _ _ cursor])
    next
      case (Next c tr' st1)
      then show ?thesis
        using "1.prems" True "1.IH" [OF True Next, of st'] scan_instruction_visits(1) [OF Next]
        by (auto simp: scan_block.simps [of _ _ _ cursor])
    qed
  qed
qed

function walk :: "decoder \<Rightarrow> bytes \<Rightarrow> u32 \<Rightarrow> walk_state \<Rightarrow> (string, walk_state) checked" where
  "walk decode body vram_base st =
     (case worklist st of
        [] \<Rightarrow> Accepted st
      | off # rest \<Rightarrow>
          let st1 = st\<lparr>worklist := rest\<rparr>
          in if off \<in> visited st then walk decode body vram_base st1
             else case scan_block decode body vram_base off tracker_init st1 of
                 Refused e \<Rightarrow> Refused e
               | Accepted st2 \<Rightarrow> walk decode body vram_base st2)"
  by pat_completeness auto
termination
proof (relation "measures [\<lambda>(decode, body, vram_base, st). unvisited body st, \<lambda>(decode, body, vram_base, st). length (worklist st)]")
  fix decode body vram_base st off rest st1 st2
  assume w: "worklist st = off # rest" and st1: "st1 = st\<lparr>worklist := rest\<rparr>" and off: "off \<notin> visited st"
    and s: "scan_block decode body vram_base off tracker_init st1 = Accepted st2"
  note g = scan_block_grows [OF s]
  show "((decode, body, vram_base, st2), decode, body, vram_base, st) \<in>
      measures [\<lambda>(decode, body, vram_base, st). unvisited body st, \<lambda>(decode, body, vram_base, st). length (worklist st)]"
  proof (cases "off + 4 \<le> length body")
    case True
    then have "unvisited body st2 < unvisited body st" using g off st1 by (intro unvisited_less [of off]) auto
    then show ?thesis by simp
  next
    case False
    then show ?thesis using g st1 w by (simp add: unvisited_def)
  qed
qed (auto simp: unvisited_def)

declare walk.simps [simp del]

definition past_end :: "u32 \<Rightarrow> nat \<Rightarrow> string" where
  "past_end entry_offset bytes_size =
     ''entry_offset 0x'' @ hex_nat (unat entry_offset) @ '' past body end 0x'' @ hex_nat bytes_size"

definition discover_function_bounds :: "decoder \<Rightarrow> bytes \<Rightarrow> u32 \<Rightarrow> u32 \<Rightarrow> (string, nat) checked" where
  "discover_function_bounds decode body vram_base entry_offset =
     (if length body < unat (entry_offset + 4) then Refused (past_end entry_offset (length body))
      else case walk decode body vram_base
                  \<lparr>visited = {}, max_reached = unat entry_offset, worklist = [unat entry_offset]\<rparr> of
        Refused e \<Rightarrow> Refused e
      | Accepted st \<Rightarrow>
          let end_off = min (max_reached st + 4) (length body)
          in if end_off \<le> unat entry_offset then Refused ''no reachable instructions found at entry''
             else Accepted (end_off - unat entry_offset))"

end
