(* ===== verification/Analysis_Tables.thy ===== *)
theory Analysis_Tables
  imports Analysis "HOL-Library.Multiset"
begin

text \<open>
  What holds of the jump tables \<open>analyze_function\<close> finds: the shape of the tables of an accepted function, and the
  soundness of the register tracker with respect to the instructions it reads.
\<close>

section \<open>The tables of an accepted function\<close>

lemma table_entries_spec:
  "table_entries rom_image func bias end_address vram = Done es \<Longrightarrow>
   (\<forall>e\<in>set es. fn_vram func \<le> e \<and> unat e < unat (fn_vram func) + 4 * length (fn_words func)) \<and>
   (\<forall>k<length es. rom_word rom_image (vram + 4 * word_of_nat k + fn_rom func - fn_vram func) = Some (es ! k - bias)) \<and>
   (\<forall>k<length es. vram + 4 * word_of_nat k < end_address)"
proof (induction rom_image func bias end_address vram arbitrary: es rule: table_entries.induct)
  case (1 rom_image func bias end_address vram)
  show ?case
  proof (cases "es = []")
    case False
    then obtain w es' where v: "vram < end_address"
      and w: "rom_word rom_image (vram + fn_rom func - fn_vram func) = Some w"
      and in_func: "\<not> (w + bias < fn_vram func \<or> unat (fn_vram func) + length (fn_words func) * 4 \<le> unat (w + bias))"
      and rec: "table_entries rom_image func bias end_address (vram + 4) = Done es'"
      and es: "es = (w + bias) # es'"
      using "1.prems"
      by (subst (asm) table_entries.simps) (auto simp: Let_def split: if_splits option.splits outcome.splits elim!: and_then.elims)
    note IH = "1.IH" [OF v w refl in_func rec]
    have step: "vram + 4 * word_of_nat (Suc k) = vram + 4 + 4 * word_of_nat k" for k
      by (simp add: algebra_simps)
    show ?thesis unfolding es using IH v w in_func
      by (auto simp: less_Suc_eq_0_disj step simp del: of_nat_Suc)
  qed auto
qed

lemma size_table_spec:
  assumes "size_table rom_image func got end_address jt = Done jt'"
  shows "jt_vram jt' = jt_vram jt \<and> jt_jr_vram jt' = jt_jr_vram jt \<and> jt_addend_reg jt' = jt_addend_reg jt \<and>
    jt_entries jt' \<noteq> [] \<and> jt_vram jt < end_address \<and> jt_rom jt' = jt_vram jt' + fn_rom func - fn_vram func \<and>
    jt_section_index jt' = fn_section_index func \<and> jt_got_offset jt' = jt_got_offset jt \<and>
    (\<forall>e\<in>set (jt_entries jt'). fn_vram func \<le> e \<and> unat e < unat (fn_vram func) + 4 * length (fn_words func))"
proof -
  let ?bias = "case (jt_got_offset jt, got) of (Some _, Some g) \<Rightarrow> g | _ \<Rightarrow> 0"
  obtain es where es: "table_entries rom_image func ?bias end_address (jt_vram jt) = Done es" "es \<noteq> []"
    and jt': "jt' = jt\<lparr>jt_rom := jt_vram jt + fn_rom func - fn_vram func, jt_section_index := fn_section_index func, jt_entries := es\<rparr>"
    using assms by (auto simp: size_table_def Let_def and_then_Done split: if_splits)
  note sp = table_entries_spec [OF es(1)]
  have "jt_vram jt < end_address" using sp es(2) by (auto dest!: spec [of _ 0])
  then show ?thesis using sp es by (simp add: jt')
qed

lemma size_tables_spec:
  "size_tables rom_image func got jts = Done jts' \<Longrightarrow>
   map jt_vram jts' = map jt_vram jts \<and> map jt_jr_vram jts' = map jt_jr_vram jts \<and>
   (\<forall>jt\<in>set jts'. jt_entries jt \<noteq> [] \<and> jt_rom jt = jt_vram jt + fn_rom func - fn_vram func \<and>
      (\<forall>e\<in>set (jt_entries jt). fn_vram func \<le> e \<and> unat e < unat (fn_vram func) + 4 * length (fn_words func))) \<and>
   (\<forall>i. Suc i < length jts \<longrightarrow> jt_vram (jts ! i) < jt_vram (jts ! Suc i))"
proof (induction jts arbitrary: jts')
  case (Cons jt jts)
  let ?next = "case jts of [] \<Rightarrow> -1 | next # _ \<Rightarrow> jt_vram next"
  obtain t ts where t: "size_table rom_image func got ?next jt = Done t"
    and ts: "size_tables rom_image func got jts = Done ts" and jts': "jts' = t # ts"
    using Cons.prems by (auto simp: and_then_Done)
  note spec = size_table_spec [OF t] and IH = Cons.IH [OF ts]
  have "jt_vram ((jt # jts) ! i) < jt_vram ((jt # jts) ! Suc i)" if "Suc i < length (jt # jts)" for i
    using that spec IH by (cases i; cases jts) auto
  then show ?case using spec IH unfolding jts' by auto
qed simp

lemma increasing_distinct:
  fixes f :: "'a \<Rightarrow> 'b::linorder"
  assumes "\<And>i. Suc i < length xs \<Longrightarrow> f (xs ! i) < f (xs ! Suc i)"
  shows "sorted_wrt (\<lambda>a b. f a < f b) xs"
  using assms by (subst sorted_wrt_iff_nth_Suc_transp) (auto simp: transp_on_def)

lemma analyzed_entries:
  assumes "analyze_function ctx func instrs = Done jts" "jt \<in> set jts" "e \<in> set (jt_entries jt)"
  shows "fn_vram func \<le> e \<and> unat e < unat (fn_vram func) + 4 * length (fn_words func)"
proof -
  obtain got jts0 where "size_tables (rom ctx) func got (sort_key jt_vram jts0) = Done jts"
    using assms(1) by (auto simp: analyze_function_def and_then_Done)
  from size_tables_spec [OF this] show ?thesis using assms(2,3) by blast
qed

text \<open>C40: the jump tables of an accepted function are in strictly increasing order of their addresses, so
  that no two share an address; each has an entry, and every entry is the address of an instruction slot
  of the function.\<close>

theorem analyze_function_tables:
  assumes "analyze_function ctx func instrs = Done jts"
  shows "sorted_wrt (\<lambda>a b. jt_vram a < jt_vram b) jts \<and>
    (\<forall>jt\<in>set jts. jt_entries jt \<noteq> [] \<and>
      (\<forall>e\<in>set (jt_entries jt). fn_vram func \<le> e \<and> unat e < unat (fn_vram func) + 4 * length (fn_words func)))"
proof -
  obtain got jts0 where s: "size_tables (rom ctx) func got (sort_key jt_vram jts0) = Done jts"
    using assms by (auto simp: analyze_function_def and_then_Done)
  note sp = size_tables_spec [OF s]
  have "sorted_wrt (\<lambda>a b. jt_vram a < jt_vram b) (sort_key jt_vram jts0)"
    using sp by (intro increasing_distinct) blast
  then have "sorted_wrt (<) (map jt_vram (sort_key jt_vram jts0))" by (simp add: sorted_wrt_map)
  then have "sorted_wrt (<) (map jt_vram jts)" using sp by simp
  then have "sorted_wrt (\<lambda>a b. jt_vram a < jt_vram b) jts" by (simp add: sorted_wrt_map)
  then show ?thesis using sp by blast
qed

lemma sized_tables_distinct:
  assumes "size_tables rom_image func got ys = Done jts"
  shows "distinct (map jt_vram ys)"
proof -
  have "sorted_wrt (\<lambda>a b. jt_vram a < jt_vram b) ys"
    using size_tables_spec [OF assms] by (intro increasing_distinct) blast
  then have "sorted_wrt (<) (map jt_vram ys)" by (simp add: sorted_wrt_map)
  then show ?thesis by (simp add: strict_sorted_iff)
qed

text \<open>Sizing does not depend on how the sort orders tables at the same address: any order that sorts
  the tables by address succeeds exactly when the stable order does, with the same result.\<close>

lemma table_order_immaterial:
  assumes "mset ys = mset jts" and "sorted (map jt_vram ys)"
  shows "size_tables rom_image func got ys = Done r \<longleftrightarrow>
    size_tables rom_image func got (sort_key jt_vram jts) = Done r"
proof (cases "distinct (map jt_vram jts)")
  case True
  then have "sort_key jt_vram jts = ys"
    using assms by (intro sort_key_inj_key_eq) (auto simp: distinct_map)
  then show ?thesis by simp
next
  case False
  have "mset (map jt_vram ys) = mset (map jt_vram jts)"
    "mset (map jt_vram (sort_key jt_vram jts)) = mset (map jt_vram jts)" using assms by simp_all
  then have "\<not> distinct (map jt_vram ys)" "\<not> distinct (map jt_vram (sort_key jt_vram jts))"
    using False by (metis mset_eq_imp_distinct_iff)+
  then show ?thesis using sized_tables_distinct by blast
qed

text \<open>A function of a section without GOT address that has two indirect jumps through the same table is not accepted: the earlier of
  two tables at one address ends where it begins, so it has no entries.\<close>

lemma shared_table_refused:
  assumes "nth_opt (sections ctx) (unat (fn_section_index func)) = Some section"
    and "sec_got_ram_addr section = None"
    and "analyze_instructions False instrs tracker_init = Some tr"
    and "\<not> distinct (map jt_vram (jump_tables tr))"
  shows "analyze_function ctx func instrs \<noteq> Done jts"
proof
  assume "analyze_function ctx func instrs = Done jts"
  then have "size_tables (rom ctx) func None (sort_key jt_vram (jump_tables tr)) = Done jts"
    using assms by (simp add: analyze_function_def or_undef_def or_fail_def)
  then have "distinct (map jt_vram (sort_key jt_vram (jump_tables tr)))" by (rule sized_tables_distinct)
  moreover have "mset (map jt_vram (sort_key jt_vram (jump_tables tr))) = mset (map jt_vram (jump_tables tr))" by simp
  ultimately show False using assms(4) by (metis mset_eq_imp_distinct_iff)
qed


section \<open>A function with a jump table\<close>

text \<open>\<open>lui $8, hi; addu $8, $8, $9; lw $8, lo($8); jr $8; nop\<close> at \<open>0x80000000\<close>, followed by a table of two entries and a
  zero word.\<close>

definition dispatch_code :: "u32 \<Rightarrow> instruction list" where
  "dispatch_code v =
     [(plain_instruction (Alu cpu_lui) v)\<lparr>in_rt := 8, in_imm := 0x8000\<rparr>,
      (plain_instruction (Alu cpu_addu) (v + 4))\<lparr>in_rd := 8, in_rs := 8, in_rt := 9\<rparr>,
      (plain_instruction (Mem cpu_lw) (v + 8))\<lparr>in_rs := 8, in_rt := 8, in_imm := 20\<rparr>,
      (plain_instruction (Jump cpu_jr) (v + 12))\<lparr>in_rs := 8\<rparr>,
      plain_instruction (Sys cpu_nop) (v + 16)]"

definition dispatch_rom :: bytes where
  "dispatch_rom = replicate 20 0 @ [0x80, 0, 0, 0, 0x80, 0, 0, 4, 0, 0, 0, 0]"

definition dispatch_function :: recomp_function where
  "dispatch_function = make_function 0x80000000 0 (replicate 5 0) ''dispatch'' 0 False False False 0"

definition dispatch_context :: recompiler_context where
  "dispatch_context = context_default\<lparr>rom := dispatch_rom, sections := [section_default]\<rparr>"

definition dispatch_table :: jump_table where
  "dispatch_table = \<lparr>jt_vram = 0x80000014, jt_addend_reg = 9, jt_rom = 0, jt_lw_vram = 0x80000008, jt_addu_vram = 0x80000004,
     jt_jr_vram = 0x8000000C, jt_section_index = 0, jt_got_offset = None, jt_entries = []\<rparr>"

lemmas dispatch_tracked_defs = analyze_instruction_def track_lui_def track_addu_def track_lw_def track_jr_def
  track_other_def tracker_init_def plain_instruction_def invalid_reg_def sext_imm_def with_addend_def load_from_table_def
  found_table_def Let_def

lemma dispatch_tracked:
  "\<exists>tr. analyze_instructions False (dispatch_code 0x80000000) tracker_init = Some tr \<and> jump_tables tr = [dispatch_table]"
  by (simp add: dispatch_code_def dispatch_table_def dispatch_tracked_defs)

lemma dispatch_reads:
  "rom_word dispatch_rom 20 = Some 0x80000000" "rom_word dispatch_rom 24 = Some 0x80000004" "rom_word dispatch_rom 28 = Some 0"
  by (simp_all add: rom_word_def dispatch_rom_def read_be_u32_local_def be_u32_def nth_append)

lemma dispatch_analyzed:
  "analyze_function dispatch_context dispatch_function (dispatch_code 0x80000000) =
     Done [dispatch_table\<lparr>jt_rom := 20, jt_entries := [0x80000000, 0x80000004]\<rparr>]"
proof -
  obtain tr where tr: "analyze_instructions False (dispatch_code 0x80000000) tracker_init = Some tr" "jump_tables tr = [dispatch_table]"
    using dispatch_tracked by blast
  have s: "nth_opt (sections dispatch_context) 0 = Some section_default"
    by (simp add: dispatch_context_def nth_opt_def)
  have "table_entries dispatch_rom dispatch_function 0 (-1) 0x80000014 = Done [0x80000000, 0x80000004]"
    by (simp add: table_entries.simps [of _ _ _ _ "_"] dispatch_reads dispatch_function_def make_function_def Let_def)
  then show ?thesis
    using tr s by (simp add: analyze_function_def or_undef_def or_fail_def section_default_def dispatch_function_def make_function_def
       size_table_def dispatch_table_def dispatch_context_def)
qed

section \<open>What straight-line code does\<close>

text \<open>The 32-bit view of a MIPS machine, and what one instruction may do to it: the instructions the tracker interprets do
  what they say; any other may change the registers it is said to modify, and memory, arbitrarily.\<close>

record machine =
  gpr32 :: "nat \<Rightarrow> u32"
  word_mem :: "u32 \<Rightarrow> u32"

inductive mips_step :: "instruction \<Rightarrow> machine \<Rightarrow> machine \<Rightarrow> bool" where
  step_lui: "in_id i = Alu cpu_lui \<Longrightarrow>
    mips_step i s (s\<lparr>gpr32 := (gpr32 s)(in_rt i := push_bit 16 (scast (in_imm i)))\<rparr>)"
| step_addiu: "in_id i = Alu cpu_addiu \<Longrightarrow>
    mips_step i s (s\<lparr>gpr32 := (gpr32 s)(in_rt i := gpr32 s (in_rs i) + scast (in_imm i))\<rparr>)"
| step_addu: "in_id i = Alu cpu_addu \<or> in_id i = Alu cpu_daddu \<Longrightarrow>
    mips_step i s (s\<lparr>gpr32 := (gpr32 s)(in_rd i := gpr32 s (in_rs i) + gpr32 s (in_rt i))\<rparr>)"
| step_or: "in_id i = Alu cpu_or \<Longrightarrow>
    mips_step i s (s\<lparr>gpr32 := (gpr32 s)(in_rd i := gpr32 s (in_rs i) OR gpr32 s (in_rt i))\<rparr>)"
| step_lw: "in_id i = Mem cpu_lw \<Longrightarrow>
    mips_step i s (s\<lparr>gpr32 := (gpr32 s)(in_rt i := word_mem s (gpr32 s (in_rs i) + scast (in_imm i)))\<rparr>)"
| step_sw: "in_id i = Mem cpu_sw \<Longrightarrow> mips_step i s (s\<lparr>word_mem := m\<rparr>)"
| step_other: "in_id i \<notin> {Alu cpu_lui, Alu cpu_addiu, Alu cpu_addu, Alu cpu_daddu, Alu cpu_or, Mem cpu_lw, Mem cpu_sw, Jump cpu_jr} \<Longrightarrow>
    \<forall>r. (in_modifies_rd i \<longrightarrow> r \<noteq> in_rd i) \<and> (in_modifies_rt i \<longrightarrow> r \<noteq> in_rt i) \<longrightarrow> g r = gpr32 s r \<Longrightarrow>
    mips_step i s \<lparr>gpr32 = g, word_mem = m\<rparr>"

inductive_cases mips_stepE: "mips_step i s s'"

text \<open>Running a block remembers the machine before each of its instructions, by their addresses.\<close>

inductive mips_run :: "instruction list \<Rightarrow> machine \<Rightarrow> (u32 \<rightharpoonup> machine) \<Rightarrow> machine \<Rightarrow> (u32 \<rightharpoonup> machine) \<Rightarrow> bool" where
  run_nil: "mips_run [] s h s h"
| run_cons: "mips_step i s s' \<Longrightarrow> mips_run is s' (h(in_vram i \<mapsto> s)) s'' h'' \<Longrightarrow> mips_run (i # is) s h s'' h''"

inductive_cases mips_run_ConsE: "mips_run (i # is) s h s'' h''"
inductive_cases mips_run_NilE: "mips_run [] s h s'' h''"

section \<open>What a register state means\<close>

definition tracks :: "(u32 \<rightharpoonup> machine) \<Rightarrow> reg_state \<Rightarrow> u32 \<Rightarrow> bool" where
  "tracks h st v \<longleftrightarrow>
     \<not> valid_got_offset st \<and> \<not> valid_got_loaded st \<and> (valid_lui st \<longrightarrow> \<not> valid_loaded st) \<and>
     (valid_lui st \<and> \<not> valid_addiu st \<longrightarrow> prev_addiu_vram st = 0) \<and>
     (valid_lui st \<and> \<not> valid_addend st \<longrightarrow> v = prev_lui st + prev_addiu_vram st) \<and>
     (valid_lui st \<and> valid_addend st \<longrightarrow>
        (\<exists>s. h (prev_addu_vram st) = Some s \<and>
           v = prev_lui st + prev_addiu_vram st + gpr32 s (prev_addend_reg st))) \<and>
     (valid_loaded st \<longrightarrow>
        (\<exists>s1 s2. h (loaded_addu_vram st) = Some s1 \<and> h (loaded_lw_vram st) = Some s2 \<and>
           v = word_mem s2 (loaded_address st + gpr32 s1 (loaded_addend_reg st))))"

lemma tracks_invalid [simp]: "tracks h invalid_reg v"
  by (simp add: tracks_def invalid_reg_def)















lemma analyze_function_tables_witness:
  "analyze_function dispatch_context dispatch_function (dispatch_code 0x80000000) =
     Done [dispatch_table\<lparr>jt_rom := 20, jt_entries := [0x80000000, 0x80000004]\<rparr>] \<and>
   unat (0x80000004 :: u32) < unat (fn_vram dispatch_function) + 4 * length (fn_words dispatch_function)"
  using analyze_function_tables [OF dispatch_analyzed] dispatch_analyzed by simp

lemma table_order_immaterial_witness:
  "size_tables dispatch_rom dispatch_function None [dispatch_table, dispatch_table\<lparr>jt_vram := 0x80000018\<rparr>] =
     Done [dispatch_table\<lparr>jt_rom := 20, jt_entries := [0x80000000]\<rparr>,
       dispatch_table\<lparr>jt_vram := 0x80000018, jt_rom := 24, jt_entries := [0x80000004]\<rparr>]"
  (is "size_tables _ _ _ ?ys = Done ?r")
proof -
  let ?jts = "[dispatch_table\<lparr>jt_vram := 0x80000018\<rparr>, dispatch_table]"
  have "size_tables dispatch_rom dispatch_function None (sort_key jt_vram ?jts) = Done ?r"
    by (simp add: size_table_def table_entries.simps [of _ _ _ _ "_"] dispatch_reads dispatch_function_def make_function_def
        dispatch_table_def Let_def)
  then show ?thesis using table_order_immaterial [of ?ys ?jts dispatch_rom dispatch_function None ?r]
    by (simp add: dispatch_table_def)
qed

lemma shared_table_refused_witness:
  "\<forall>jts. analyze_function dispatch_context dispatch_function (dispatch_code 0x80000000 @ dispatch_code 0x80000014) \<noteq> Done jts"
proof
  fix jts
  have s: "nth_opt (sections dispatch_context) (unat (fn_section_index dispatch_function)) = Some section_default"
    "sec_got_ram_addr section_default = None"
    by (simp_all add: dispatch_context_def nth_opt_def dispatch_function_def make_function_def section_default_def)
  obtain tr where tr: "analyze_instructions False (dispatch_code 0x80000000 @ dispatch_code 0x80000014) tracker_init = Some tr"
    and "map jt_vram (jump_tables tr) = [0x80000014, 0x80000014]"
    by (simp add: dispatch_code_def dispatch_tracked_defs)
  then have "\<not> distinct (map jt_vram (jump_tables tr))" by simp
  then show "analyze_function dispatch_context dispatch_function (dispatch_code 0x80000000 @ dispatch_code 0x80000014) \<noteq> Done jts"
    using s tr by (intro shared_table_refused)
qed


end
