(* ===== verification/Function_Bounds.thy ===== *)
theory Function_Bounds
  imports Analysis
begin

text \<open>
  What holds of \<open>discover_function_bounds\<close>: the size it finds is inside the body, a whole number of instructions, and
  covers the reachable code. The walk's invariants share the locale \<open>walk_invariant\<close>: what one decoded instruction keeps,
  a block keeps and the whole walk keeps.
\<close>

section \<open>What the walk has reached\<close>

definition in_body :: "bytes \<Rightarrow> nat \<Rightarrow> walk_state \<Rightarrow> bool" where
  "in_body body entry st \<longleftrightarrow>
     (\<forall>p\<in>visited st. p + 4 \<le> length body \<and> p \<le> max_reached st) \<and>
     entry \<le> max_reached st \<and> (max_reached st = entry \<or> max_reached st \<in> visited st)"

definition walk_aligned :: "walk_state \<Rightarrow> bool" where
  "walk_aligned st \<longleftrightarrow> max_reached st mod 4 = 0 \<and> (\<forall>p\<in>set (worklist st). p mod 4 = 0)"

lemma reach_in_body: "in_body body entry st \<Longrightarrow> off + 4 \<le> length body \<Longrightarrow> in_body body entry (reach off st)"
  by (auto simp: in_body_def reach_def max_def)

lemma reach_delay_in_body: "in_body body entry st \<Longrightarrow> in_body body entry (reach_delay body d st)"
  by (simp add: reach_delay_def reach_in_body)

lemma push_in_body [simp]:
  "in_body body entry (push_targets ts st) = in_body body entry st"
  "in_body body entry (push_branch body vram_base target st) = in_body body entry st"
  by (auto simp: in_body_def push_targets_def push_branch_def split: option.splits)

lemma worklist_push_targets [simp]:
  "worklist (push_targets ts st) = rev (filter (\<lambda>t. t \<notin> visited st) ts) @ worklist st"
proof -
  have "fold (\<lambda>t w. if t \<in> V then w else t # w) ts ws = rev (filter (\<lambda>t. t \<notin> V) ts) @ ws" for V :: "nat set" and ws
    by (induction ts arbitrary: ws) simp_all
  then show ?thesis by (simp add: push_targets_def)
qed

lemma worklist_simps [simp]:
  "worklist (reach off st) = worklist st" "worklist (reach_delay body d st) = worklist st"
  by (simp_all add: reach_def reach_delay_def)

text \<open>An invariant of the step is an invariant of the block and of the walk; \<open>Some cursor\<close> is the offset the block is at.\<close>

locale walk_invariant =
  fixes decode :: decoder and body :: bytes and vram_base :: u32
    and I :: "nat option \<Rightarrow> walk_state \<Rightarrow> bool"
  assumes step: "cursor + 4 \<le> length body \<Longrightarrow> cursor \<notin> visited st \<Longrightarrow> I (Some cursor) st \<Longrightarrow>
      scan_instruction decode body vram_base cursor tr st = Next c tr' st' \<Longrightarrow> I (Some c) st'"
    and block_end: "cursor + 4 \<le> length body \<Longrightarrow> cursor \<notin> visited st \<Longrightarrow> I (Some cursor) st \<Longrightarrow>
      scan_instruction decode body vram_base cursor tr st = Block_end (Accepted st') \<Longrightarrow> I None st'"
    and stop: "length body < cursor + 4 \<or> cursor \<in> visited st \<Longrightarrow> I (Some cursor) st \<Longrightarrow> I None st"
    and pop: "worklist st = off # rest \<Longrightarrow> I None st \<Longrightarrow> I (Some off) (st\<lparr>worklist := rest\<rparr>)"
begin

lemma scan_block_invariant:
  "scan_block decode body vram_base cursor tr st = Accepted st' \<Longrightarrow> I (Some cursor) st \<Longrightarrow> I None st'"
proof (induction "unvisited body st" arbitrary: cursor tr st rule: less_induct)
  case less
  show ?case
  proof (cases "cursor + 4 \<le> length body \<and> cursor \<notin> visited st")
    case False
    then have "st' = st" using less.prems(1) by (auto simp: scan_block.simps [of _ _ _ cursor])
    then show ?thesis using False less.prems(2) stop [of cursor st] by auto
  next
    case True
    then have r: "scan_block decode body vram_base cursor tr st =
        (case scan_instruction decode body vram_base cursor tr st of
           Block_end r \<Rightarrow> r | Next c tr' st1 \<Rightarrow> scan_block decode body vram_base c tr' st1)"
      by (simp add: scan_block.simps [of _ _ _ cursor])
    show ?thesis
    proof (cases "scan_instruction decode body vram_base cursor tr st")
      case (Block_end r)
      then show ?thesis using r less.prems True block_end [of cursor st tr st'] by simp
    next
      case (Next c tr' st1)
      have "unvisited body st1 < unvisited body st"
        using True scan_instruction_visits(1) [OF Next] by (intro unvisited_less [of cursor]) simp_all
      then show ?thesis
        using less.hyps [of st1 c tr'] r Next less.prems True step [OF _ _ less.prems(2) Next] by simp
    qed
  qed
qed

lemma walk_invariant_aux:
  "walk d b v st = Accepted st' \<Longrightarrow> d = decode \<Longrightarrow> b = body \<Longrightarrow> v = vram_base \<Longrightarrow> I None st \<Longrightarrow> I None st' \<and> worklist st' = []"
proof (induction d b v st arbitrary: st' rule: walk.induct)
  case (1 d b v st)
  show ?case
  proof (cases "worklist st")
    case Nil
    then show ?thesis using "1.prems" by (simp add: walk.simps [of _ _ _ st])
  next
    case (Cons off rest)
    let ?st1 = "st\<lparr>worklist := rest\<rparr>"
    have I1: "I (Some off) ?st1" using pop [OF Cons] "1.prems" by simp
    show ?thesis
    proof (cases "off \<in> visited st")
      case True
      then have "walk d b v ?st1 = Accepted st'" using "1.prems"(1) Cons by (simp add: walk.simps [of _ _ _ st])
      moreover have "I None ?st1" using stop [of off ?st1] True I1 by simp
      ultimately show ?thesis using "1.IH"(1) [OF Cons refl True] "1.prems" by simp
    next
      case False
      then obtain st2 where s: "scan_block d b v off tracker_init ?st1 = Accepted st2" and w: "walk d b v st2 = Accepted st'"
        using "1.prems"(1) Cons by (auto simp: walk.simps [of _ _ _ st] Let_def split: checked.splits)
      have "I None st2" using scan_block_invariant [of off tracker_init ?st1 st2] s I1 "1.prems" by simp
      then show ?thesis using "1.IH"(2) [OF Cons refl False s w] "1.prems" by simp
    qed
  qed
qed

lemmas walk_invariant = walk_invariant_aux [OF _ refl refl refl]

end

interpretation bounds: walk_invariant decode body vram_base "\<lambda>_. in_body body entry" for decode body vram_base entry
proof unfold_locales
  fix cursor tr st c tr' st'
  assume "cursor + 4 \<le> length body" "in_body body entry st"
  then show "scan_instruction decode body vram_base cursor tr st = Next c tr' st' \<Longrightarrow> in_body body entry st'"
    and "scan_instruction decode body vram_base cursor tr st = Block_end (Accepted st') \<Longrightarrow> in_body body entry st'"
    by (auto simp: scan_instruction_def Let_def reach_in_body reach_delay_in_body split: option.splits if_splits)
qed (simp_all add: in_body_def)

lemma discovered_walk:
  assumes "discover_function_bounds decode body vram_base entry_offset = Accepted sz"
    and "unat entry_offset + 4 < 2 ^ 32"
  obtains st where "walk decode body vram_base
      \<lparr>visited = {}, max_reached = unat entry_offset, worklist = [unat entry_offset]\<rparr> = Accepted st"
    and "unat entry_offset + 4 \<le> length body" and "in_body body (unat entry_offset) st"
    and "unat entry_offset + sz = max_reached st + 4"
proof -
  let ?st = "\<lparr>visited = {}, max_reached = unat entry_offset, worklist = [unat entry_offset]\<rparr>"
  have "unat (entry_offset + 4) = unat entry_offset + 4"
    using assms(2) by (subst unat_add_lem [THEN iffD1]) simp_all
  then obtain st where e: "unat entry_offset + 4 \<le> length body" and w: "walk decode body vram_base ?st = Accepted st"
    and sz: "sz = min (max_reached st + 4) (length body) - unat entry_offset"
    using assms(1) by (auto simp: discover_function_bounds_def Let_def split: if_splits checked.splits)
  have i: "in_body body (unat entry_offset) st"
    using bounds.walk_invariant [OF w] by (simp add: in_body_def)
  then have "unat entry_offset + sz = max_reached st + 4" using e sz by (auto simp: in_body_def min_def)
  with that e w i show ?thesis by blast
qed

lemma discovered_bounds:
  assumes "discover_function_bounds decode body vram_base entry_offset = Accepted sz"
    and "unat entry_offset + 4 < 2 ^ 32"
  shows "4 \<le> sz \<and> unat entry_offset + sz \<le> length body"
proof (rule discovered_walk [OF assms])
  fix st
  assume "unat entry_offset + 4 \<le> length body" "in_body body (unat entry_offset) st"
    "unat entry_offset + sz = max_reached st + 4"
  then show ?thesis by (auto simp: in_body_def)
qed

section \<open>The size is a whole number of instructions\<close>

text \<open>What rabbitizer documents of the decoder: an instruction knows its address, and a branch's target is a whole
  number of words from it.\<close>

definition branches_aligned :: "decoder \<Rightarrow> bool" where
  "branches_aligned decode \<longleftrightarrow>
     (\<forall>w v. in_vram (decode w v) = v \<and>
        (in_has_branch_label (decode w v) \<longrightarrow> unat (in_branch_vram (decode w v) - v) mod 4 = 0))"

lemma unat_add_mod_4: "unat (a + b :: u32) mod 4 = (unat a + unat b) mod 4"
proof -
  have "(unat a + unat b) mod 2 ^ 32 mod 4 = (unat a + unat b) mod (4 :: nat)"
    by (rule mod_mod_cancel) simp
  then show ?thesis by (simp add: unat_word_ariths)
qed

lemma unat_next_mod_4: "unat (4 + push_bit 2 imm :: u32) mod 4 = 0"
proof -
  have "unat (imm * 4) mod 4 = 0"
    using mod_mod_cancel [of 4 "2 ^ 32" "unat imm * 4"] by (simp add: unat_word_ariths)
  then show ?thesis by (simp add: unat_add_mod_4 push_bit_eq_mult mod_add_eq [symmetric] del: mod_add_eq)
qed

lemma branch_target_aligned:
  assumes "branches_aligned decode" and c: "c mod 4 = 0"
    and t: "branch_target (decode w (base + word_of_nat c)) w = Some t"
  shows "unat (t - base) mod 4 = 0"
proof -
  let ?i = "decode w (base + word_of_nat c)"
  have v: "in_vram ?i = base + word_of_nat c" using assms(1) by (simp add: branches_aligned_def)
  have uc: "unat (word_of_nat c :: u32) mod 4 = 0"
    using c mod_mod_cancel [of 4 "2 ^ 32" c] by (simp add: unat_of_nat)
  have sum: "unat (word_of_nat c + x :: u32) mod 4 = 0" if "unat x mod 4 = 0" for x
    using uc that by (simp add: unat_add_mod_4 mod_add_eq [symmetric] del: mod_add_eq) 
  show ?thesis
  proof (cases "in_has_branch_label ?i")
    case True
    then have "unat (t - (base + word_of_nat c)) mod 4 = 0"
      using assms(1) t by (auto simp: branch_target_def branches_aligned_def)
    from sum [OF this] show ?thesis by (simp add: algebra_simps)
  next
    case False
    then obtain imm :: u32 where "t = base + word_of_nat c + 4 + push_bit 2 imm"
      using t v by (auto simp: branch_target_def decode_conditional_branch_target_def Let_def split: if_splits)
    then have "t - base = word_of_nat c + (4 + push_bit 2 imm)" by (simp add: algebra_simps)
    then show ?thesis using sum [OF unat_next_mod_4] by simp
  qed
qed

lemma jump_table_targets_aligned: "t \<in> set (jump_table_targets body base v) \<Longrightarrow> t mod 4 = 0"
proof -
  have "t \<in> set (read_jump_table_targets body base off) \<Longrightarrow> t mod 4 = 0" for off
  proof (induction body base off rule: read_jump_table_targets.induct)
    case (1 body base off)
    then show ?case by (subst (asm) read_jump_table_targets.simps) (auto simp: Let_def split: if_splits)
  qed
  then show "t \<in> set (jump_table_targets body base v) \<Longrightarrow> ?thesis"
    by (auto simp: jump_table_targets_def split: if_splits)
qed


abbreviation at_cursor :: "nat option \<Rightarrow> nat set" where
  "at_cursor c \<equiv> (case c of None \<Rightarrow> {} | Some x \<Rightarrow> {x})"

lemma reach_aligned: "max_reached st mod 4 = 0 \<Longrightarrow> off mod 4 = 0 \<Longrightarrow> max_reached (reach off st) mod 4 = 0"
  by (simp add: reach_def max_def)

lemma reach_delay_aligned: "max_reached st mod 4 = 0 \<Longrightarrow> d mod 4 = 0 \<Longrightarrow> max_reached (reach_delay body d st) mod 4 = 0"
  by (simp add: reach_delay_def reach_aligned)

lemma push_max_reached [simp]:
  "max_reached (push_targets ts st) = max_reached st" "max_reached (push_branch body base target st) = max_reached st"
  by (simp_all add: push_targets_def push_branch_def split: option.splits)

lemma push_branch_aligned:
  assumes "walk_aligned st" and "\<And>t. target = Some t \<Longrightarrow> unat (t - base) mod 4 = 0"
  shows "walk_aligned (push_branch body base target st)"
  using assms by (auto simp: walk_aligned_def push_branch_def split: option.splits)

lemma walk_aligned_reach:
  "walk_aligned st \<Longrightarrow> off mod 4 = 0 \<Longrightarrow> walk_aligned (reach off st)"
  "walk_aligned st \<Longrightarrow> d mod 4 = 0 \<Longrightarrow> walk_aligned (reach_delay body d st)"
  "walk_aligned st \<Longrightarrow> \<forall>t\<in>set ts. t mod 4 = 0 \<Longrightarrow> walk_aligned (push_targets ts st)"
  by (auto simp: walk_aligned_def reach_aligned reach_delay_aligned)

lemma aligned_invariant:
  assumes "branches_aligned decode"
  shows "walk_invariant decode body vram_base (\<lambda>c st. walk_aligned st \<and> (\<forall>x\<in>at_cursor c. x mod 4 = 0))"
proof
  fix cursor tr st c tr' st'
  assume I: "walk_aligned st \<and> (\<forall>x\<in>at_cursor (Some cursor). x mod 4 = 0)"
  have m: "(cursor + 4) mod 4 = 0" "(cursor + 8) mod 4 = 0" "(cursor + 4 + 4) mod 4 = 0" "cursor mod 4 = 0"
    using I by (simp_all add: mod_add_eq [symmetric] del: mod_add_eq)
  let ?w = "read_be_u32_local body cursor"
  note b = push_branch_aligned [OF _ branch_target_aligned [OF assms m(4), of ?w vram_base]]
  show "walk_aligned st' \<and> (\<forall>x\<in>at_cursor (Some c). x mod 4 = 0)"
    if "scan_instruction decode body vram_base cursor tr st = Next c tr' st'"
    using that I m by (auto simp: scan_instruction_def Let_def walk_aligned_reach b split: option.splits if_splits)
  show "walk_aligned st' \<and> (\<forall>x\<in>at_cursor None. x mod 4 = 0)"
    if "scan_instruction decode body vram_base cursor tr st = Block_end (Accepted st')"
    using that I m by (auto simp: scan_instruction_def Let_def walk_aligned_reach jump_table_targets_aligned split: option.splits if_splits)
qed (auto simp: walk_aligned_def)

text \<open>The size found for a function at an aligned entry is a whole number of instructions, as its header
  promises, if the decoder's branch targets are.\<close>

lemma discovered_size_aligned:
  assumes "discover_function_bounds decode body vram_base entry_offset = Accepted sz"
    and "branches_aligned decode" and "unat entry_offset mod 4 = 0" and "unat entry_offset + 4 < 2 ^ 32"
  shows "sz mod 4 = 0"
proof -
  let ?st = "\<lparr>visited = {}, max_reached = unat entry_offset, worklist = [unat entry_offset]\<rparr>"
  obtain st where w: "walk decode body vram_base ?st = Accepted st"
    and sz: "unat entry_offset + sz = max_reached st + 4"
    using discovered_walk [OF assms(1,4)] by blast
  have "max_reached st mod 4 = 0"
    using walk_invariant.walk_invariant [OF aligned_invariant [OF assms(2)] w] assms(3) by (simp add: walk_aligned_def)
  then have "(unat entry_offset + sz) mod 4 = 0" unfolding sz by simp
  then show ?thesis using assms(3) by (metis add.left_neutral mod_add_left_eq)
qed

section \<open>The size covers what is reachable\<close>

definition is_control :: "instruction \<Rightarrow> bool" where
  "is_control i \<longleftrightarrow> in_id i \<in> {Jump cpu_jr, Jump cpu_j, Jump cpu_jal} \<or> in_is_branch i"

text \<open>Where control can be after the instruction at an offset, and its delay slot if it has one; jumps through a register are not
  followed here.\<close>

definition successors :: "decoder \<Rightarrow> bytes \<Rightarrow> u32 \<Rightarrow> nat \<Rightarrow> nat set" where
  "successors decode body base p =
     (let w = read_be_u32_local body p; i = decode w (base + word_of_nat p)
      in if in_id i = Jump cpu_jr \<or> in_id i = Jump cpu_j then {}
         else if in_id i = Jump cpu_jal then {p + 8}
         else if in_is_branch i then
           insert (p + 8) (case branch_target i w of
             None \<Rightarrow> {}
           | Some v \<Rightarrow> if base \<le> v \<and> unat v < unat base + length body then {unat (v - base)} else {})
         else {p + 4})"

inductive reachable_code :: "decoder \<Rightarrow> bytes \<Rightarrow> u32 \<Rightarrow> nat \<Rightarrow> nat \<Rightarrow> bool"
  for decode body base entry where
  code_entry: "reachable_code decode body base entry entry"
| code_step: "reachable_code decode body base entry p \<Longrightarrow> p + 4 \<le> length body \<Longrightarrow> q \<in> successors decode body base p \<Longrightarrow>
    reachable_code decode body base entry q"

definition in_delay_slot :: "decoder \<Rightarrow> bytes \<Rightarrow> u32 \<Rightarrow> nat \<Rightarrow> bool" where
  "in_delay_slot decode body base p \<longleftrightarrow>
     4 \<le> p \<and> is_control (decode (read_be_u32_local body (p - 4)) (base + word_of_nat (p - 4)))"

definition closed_under_flow :: "decoder \<Rightarrow> bytes \<Rightarrow> u32 \<Rightarrow> nat \<Rightarrow> nat option \<Rightarrow> walk_state \<Rightarrow> bool" where
  "closed_under_flow decode body base entry c st \<longleftrightarrow>
     (let pending = visited st \<union> set (worklist st) \<union> at_cursor c
      in (entry + 4 \<le> length body \<longrightarrow> entry \<in> pending) \<and>
         (\<forall>p\<in>visited st. in_delay_slot decode body base p \<or>
            (\<forall>q\<in>successors decode body base p. q + 4 \<le> length body \<longrightarrow> q \<in> pending)))"

lemma closed_mono:
  assumes "closed_under_flow decode body base entry c st" and "visited st \<union> set (worklist st) \<union> at_cursor c \<subseteq>
      visited st' \<union> set (worklist st') \<union> at_cursor c' \<union> {x. length body < x + 4}"
    and "\<forall>p\<in>visited st' - visited st. in_delay_slot decode body base p \<or>
      (\<forall>q\<in>successors decode body base p. q + 4 \<le> length body \<longrightarrow> q \<in> visited st' \<union> set (worklist st') \<union> at_cursor c')"
  shows "closed_under_flow decode body base entry c' st'"
proof -
  have k: "q \<in> visited st' \<union> set (worklist st') \<union> at_cursor c'"
    if "q \<in> visited st \<union> set (worklist st) \<union> at_cursor c" "q + 4 \<le> length body" for q
    using assms(2) that by (metis (mono_tags, lifting) Un_iff mem_Collect_eq not_le subsetD)
  show ?thesis unfolding closed_under_flow_def Let_def
    using assms(1,3) k unfolding closed_under_flow_def Let_def by blast
qed

lemma worklist_push_branch:
  "worklist (push_branch body base target st) =
     (case target of
        None \<Rightarrow> worklist st
      | Some v \<Rightarrow> if base \<le> v \<and> unat v < unat base + length body \<and> unat (v - base) \<notin> visited st
          then unat (v - base) # worklist st else worklist st)"
  by (auto simp: push_branch_def split: option.splits)

lemma delay_slot_after: "is_control (decode (read_be_u32_local body p) (base + word_of_nat p)) \<Longrightarrow> in_delay_slot decode body base (p + 4)"
  by (simp add: in_delay_slot_def)

text \<open>After one instruction is decoded, it and at most its delay slot are new, and what follows it is pending.\<close>

lemma scan_instruction_flow:
  assumes "scan_instruction decode body base cursor tr st = Next c tr' st' \<and> cu = Some c \<or>
      scan_instruction decode body base cursor tr st = Block_end (Accepted st') \<and> cu = None"
  shows "set (worklist st) \<subseteq> set (worklist st')" and "insert cursor (visited st) \<subseteq> visited st'"
    and "visited st' \<subseteq> insert cursor (visited st) \<union> {p. in_delay_slot decode body base p}"
    and "successors decode body base cursor \<subseteq> visited st' \<union> set (worklist st') \<union> at_cursor cu"
proof -
  show "set (worklist st) \<subseteq> set (worklist st')"
    using assms by (auto simp: scan_instruction_def Let_def worklist_push_branch split: option.splits if_splits)
  show "insert cursor (visited st) \<subseteq> visited st'"
    using assms scan_instruction_visits by blast
  show "visited st' \<subseteq> insert cursor (visited st) \<union> {p. in_delay_slot decode body base p}"
    using assms delay_slot_after [of decode body cursor base]
    by (auto simp: scan_instruction_def Let_def is_control_def split: option.splits if_splits)
  show "successors decode body base cursor \<subseteq> visited st' \<union> set (worklist st') \<union> at_cursor cu"
    using assms by (auto simp: scan_instruction_def Let_def successors_def worklist_push_branch split: option.splits if_splits)
qed

lemma scan_instruction_closed:
  assumes s: "scan_instruction decode body base cursor tr st = Next c tr' st' \<and> cu = Some c \<or>
      scan_instruction decode body base cursor tr st = Block_end (Accepted st') \<and> cu = None"
    and I: "closed_under_flow decode body base entry (Some cursor) st"
  shows "closed_under_flow decode body base entry cu st'"
proof (rule closed_mono [OF I])
  note f = scan_instruction_flow [OF s]
  show "visited st \<union> set (worklist st) \<union> at_cursor (Some cursor) \<subseteq>
      visited st' \<union> set (worklist st') \<union> at_cursor cu \<union> {x. length body < x + 4}" using f(1,2) by auto
  show "\<forall>p\<in>visited st' - visited st. in_delay_slot decode body base p \<or>
      (\<forall>q\<in>successors decode body base p. q + 4 \<le> length body \<longrightarrow> q \<in> visited st' \<union> set (worklist st') \<union> at_cursor cu)"
    using f(3,4) by blast
qed

interpretation flow: walk_invariant decode body base "closed_under_flow decode body base entry" for decode body base entry
proof
  show "closed_under_flow decode body base entry None st"
    if "length body < cursor + 4 \<or> cursor \<in> visited st" "closed_under_flow decode body base entry (Some cursor) st" for cursor st
    using that by (intro closed_mono [OF that(2)]) auto
  show "closed_under_flow decode body base entry (Some off) (st\<lparr>worklist := rest\<rparr>)"
    if "worklist st = off # rest" "closed_under_flow decode body base entry None st" for st off rest
    using that by (intro closed_mono [OF that(2)]) auto
qed (blast intro: scan_instruction_closed)+

text \<open>C39: the size found for a function covers its code. Every instruction that can be reached from the entry by
  falling through, returning from calls and taking branches lies within it, and so does its delay slot, provided
  that nothing branches into a delay slot.\<close>

theorem discovered_size_covers:
  assumes "discover_function_bounds decode body vram_base entry_offset = Accepted sz"
    and "unat entry_offset + 4 < 2 ^ 32"
    and "\<forall>q. reachable_code decode body vram_base (unat entry_offset) q \<longrightarrow> \<not> in_delay_slot decode body vram_base q"
    and "reachable_code decode body vram_base (unat entry_offset) p" and "p + 4 \<le> length body"
  shows "p + 4 \<le> unat entry_offset + sz"
proof -
  let ?e = "unat entry_offset"
  let ?st = "\<lparr>visited = {}, max_reached = ?e, worklist = [?e]\<rparr>"
  obtain st where w: "walk decode body vram_base ?st = Accepted st" and i: "in_body body ?e st"
    and sz: "?e + sz = max_reached st + 4"
    using discovered_walk [OF assms(1,2)] by blast
  have "closed_under_flow decode body vram_base ?e None ?st" by (simp add: closed_under_flow_def)
  from flow.walk_invariant [OF w this]
  have cl: "closed_under_flow decode body vram_base ?e None st" and nil: "worklist st = []" by simp_all
  have "p \<in> visited st" using assms(4,5)
  proof (induction rule: reachable_code.induct)
    case code_entry
    then show ?case using cl nil by (simp add: closed_under_flow_def Let_def)
  next
    case (code_step p q)
    then have "p \<in> visited st" "\<not> in_delay_slot decode body vram_base p" using assms(3) by auto
    then show ?case using code_step.hyps code_step.prems cl nil by (auto simp: closed_under_flow_def Let_def)
  qed
  then show ?thesis using i sz by (auto simp: in_body_def)
qed


section \<open>A decoder of three instructions\<close>

text \<open>\<open>beq\<close>, \<open>jr $ra\<close>, and everything else as \<open>nop\<close>, from their encodings.\<close>

definition small_decoder :: decoder where
  "small_decoder w v =
     (if drop_bit 26 w = 4 then
        (plain_instruction (Jump cpu_beq) v)\<lparr>in_is_branch := True, in_has_branch_label := True,
          in_branch_vram := v + 4 + push_bit 2 (scast (ucast w :: u16))\<rparr>
      else if w = 0x03E00008 then (plain_instruction (Jump cpu_jr) v)\<lparr>in_rs := 31\<rparr>
      else plain_instruction (Sys cpu_nop) v)"

text \<open>\<open>beq $0, $0, 12; nop; jr $ra; nop; jr $ra; nop\<close>: the branch goes to the delay slot of the first return.\<close>

definition slot_body :: bytes where
  "slot_body = [0x10, 0, 0, 2, 0, 0, 0, 0, 0x03, 0xE0, 0, 0x08, 0, 0, 0, 0, 0x03, 0xE0, 0, 0x08, 0, 0, 0, 0]"

text \<open>The same with the branch to the second return.\<close>

definition skip_body :: bytes where
  "skip_body = slot_body[3 := 3]"

lemma small_bounds:
  "discover_function_bounds small_decoder slot_body 0 0 = Accepted 16"
  "discover_function_bounds small_decoder skip_body 0 0 = Accepted 24"
  by code_simp+

lemma small_successors:
  "successors small_decoder skip_body 0 0 = {8, 16}" "successors small_decoder skip_body 0 8 = {}"
  "successors small_decoder skip_body 0 16 = {}"
  "successors small_decoder slot_body 0 0 = {8, 12}" "successors small_decoder slot_body 0 12 = {16}"
  "\<not> in_delay_slot small_decoder skip_body 0 0" "\<not> in_delay_slot small_decoder skip_body 0 8"
  "\<not> in_delay_slot small_decoder skip_body 0 16"
  "length skip_body = 24" "length slot_body = 24"
  by code_simp+

lemma skip_body_reachable: "reachable_code small_decoder skip_body 0 0 q \<Longrightarrow> q \<in> {0, 8, 16}"
  by (induction rule: reachable_code.induct) (auto simp: small_successors)

lemma discovered_size_covers_witness: "reachable_code small_decoder skip_body 0 0 16 \<and> (16 :: nat) + 4 \<le> 0 + 24"
proof -
  have r: "reachable_code small_decoder skip_body 0 0 16"
    by (rule code_step [OF code_entry]) (simp_all add: small_successors)
  have "\<forall>q. reachable_code small_decoder skip_body 0 0 q \<longrightarrow> \<not> in_delay_slot small_decoder skip_body 0 q"
    by (auto dest!: skip_body_reachable simp: small_successors)
  then show ?thesis
    using discovered_size_covers [OF small_bounds(2), of 16] r by (simp add: small_successors)
qed

text \<open>An example of a branch into a delay slot that loses code: the walk has already marked the slot, so it does not go on from it,
  and the size it finds ends before an instruction the branch leads to.\<close>

lemma branch_into_delay_slot_lost:
  "discover_function_bounds small_decoder slot_body 0 0 = Accepted 16 \<and>
   reachable_code small_decoder slot_body 0 0 16 \<and> 16 + 4 \<le> length slot_body"
proof -
  have "reachable_code small_decoder slot_body 0 0 12"
    by (rule code_step [OF code_entry]) (simp_all add: small_successors)
  then have "reachable_code small_decoder slot_body 0 0 16"
    by (rule code_step) (simp_all add: small_successors)
  then show ?thesis using small_bounds by (simp add: small_successors)
qed

end
