(* ===== verification/Call_Resolution.thy ===== *)
theory Call_Resolution
  imports Analysis "HOL-Library.Monad_Syntax"
begin

text \<open>
  Where a call or branch goes, the first part of \<open>src/recompilation.cpp\<close>: the address windows of a section, the
  resolution of a call target, and the tests that decide which functions can be named.

  \<^item> \<open>None\<close> is an index out of range.
  \<^item> The out-parameters of \<open>resolve_jal\<close> are carried by the constructors of its result: \<open>Match\<close> has the
    function, \<open>CreateStatic\<close> the section. The callers start the latter at the section they pass in, which is what the
    other results leave in it (\<open>static_section\<close>).
\<close>

datatype jal_resolution = NoMatch | Match nat | CreateStatic nat | Ambiguous | Error

section \<open>The address windows of a section\<close>

definition in_window :: "u32 \<Rightarrow> u32 \<Rightarrow> u32 \<Rightarrow> bool" where
  "in_window start window_size target \<longleftrightarrow> start \<le> target \<and> target < start + window_size"

definition has_no_code :: "section_info \<Rightarrow> recomp_function \<Rightarrow> bool" where
  "has_no_code section func \<longleftrightarrow>
     fn_words func = [] \<and> \<not> fn_reimplemented func \<or>
     fn_rom func < sec_rom_addr section \<or>
     unat (fn_rom func) \<ge> unat (sec_rom_addr section) + unat (sec_size section)"

definition candidate_base :: "section_info \<Rightarrow> recomp_function \<Rightarrow> u32" where
  "candidate_base section func = fn_vram func - (fn_rom func - sec_rom_addr section)"

fun infer_base :: "recompiler_context \<Rightarrow> section_info \<Rightarrow> nat list \<Rightarrow> u32 option \<Rightarrow> u32 option" where
  "infer_base ctx section [] found = Some (case found of None \<Rightarrow> sec_ram_addr section | Some b \<Rightarrow> b)"
| "infer_base ctx section (func_index # rest) found =
     (case nth_opt (ctx_functions ctx) func_index of
        None \<Rightarrow> None
      | Some func \<Rightarrow>
          if has_no_code section func then infer_base ctx section rest found
          else (case found of
              None \<Rightarrow> infer_base ctx section rest (Some (candidate_base section func))
            | Some b \<Rightarrow>
                if b \<noteq> candidate_base section func then Some (sec_ram_addr section)
                else infer_base ctx section rest found))"

definition infer_recomp_section_encoded_vram_base :: "recompiler_context \<Rightarrow> nat \<Rightarrow> u32 option" where
  "infer_recomp_section_encoded_vram_base ctx section_index =
     (if length (sections ctx) \<le> section_index \<or> length (section_functions ctx) \<le> section_index then Some 0
      else infer_base ctx (sections ctx ! section_index) (section_functions ctx ! section_index) None)"

text \<open>The test for either window, the encoded one and the canonical one.\<close>

definition section_contains :: "recompiler_context \<Rightarrow> nat \<Rightarrow> u32 \<Rightarrow> bool option" where
  "section_contains ctx section_index target = do {
     section \<leftarrow> nth_opt (sections ctx) section_index;
     base \<leftarrow> infer_recomp_section_encoded_vram_base ctx section_index;
     Some (in_window base (sec_size section) target \<or>
           in_window (sec_ram_addr section) (sec_size section) target)}"

section \<open>Resolving a call\<close>

definition usable_target :: "recomp_function \<Rightarrow> bool" where
  "usable_target func \<longleftrightarrow> fn_words func \<noteq> [] \<or> is_manual_patch_symbol (fn_vram func)"

text \<open>The loop over the symbols at the target: whether one is in the caller's section, and the matches.\<close>

fun collect_matches :: "recompiler_context \<Rightarrow> nat \<Rightarrow> nat list \<Rightarrow> nat list \<Rightarrow> (bool \<times> nat list) option" where
  "collect_matches ctx cur_section_index [] matched = Some (False, matched)"
| "collect_matches ctx cur_section_index (i # rest) matched =
     (case nth_opt (ctx_functions ctx) i of
        None \<Rightarrow> None
      | Some func \<Rightarrow>
          if \<not> usable_target func then collect_matches ctx cur_section_index rest matched
          else if unat (fn_section_index func) = cur_section_index then Some (True, [i])
          else (case nth_opt (sections ctx) (unat (fn_section_index func)) of
              None \<Rightarrow> None
            | Some section \<Rightarrow>
                collect_matches ctx cur_section_index rest
                  (if sec_relocatable section then matched else matched @ [i])))"

datatype containment = Nowhere | Inside nat | Several

fun find_containing :: "recompiler_context \<Rightarrow> u32 \<Rightarrow> nat list \<Rightarrow> containment \<Rightarrow> containment option" where
  "find_containing ctx target [] found = Some found"
| "find_containing ctx target (section_index # rest) found =
     (case section_contains ctx section_index target of
        None \<Rightarrow> None
      | Some False \<Rightarrow> find_containing ctx target rest found
      | Some True \<Rightarrow>
          (if found \<noteq> Nowhere then Some Several
           else find_containing ctx target rest (Inside section_index)))"

definition target_in_section :: "recompiler_context \<Rightarrow> u32 \<Rightarrow> nat \<Rightarrow> nat option" where
  "target_in_section ctx target containing_section =
     find (\<lambda>i. let func = ctx_functions ctx ! i in
         fn_vram func = target \<and> unat (fn_section_index func) = containing_section \<and>
         (fn_words func \<noteq> [] \<or> fn_reimplemented func \<or> is_manual_patch_symbol (fn_vram func)))
       [0..<length (ctx_functions ctx)]"

definition resolve_elsewhere :: "recompiler_context \<Rightarrow> u32 \<Rightarrow> nat list \<Rightarrow> jal_resolution option" where
  "resolve_elsewhere ctx target matched =
     (case matched of
        [] \<Rightarrow> do {
          c \<leftarrow> find_containing ctx target [0..<length (sections ctx)] Nowhere;
          Some (case c of
              Several \<Rightarrow> Ambiguous
            | Nowhere \<Rightarrow> NoMatch
            | Inside s \<Rightarrow> (case target_in_section ctx target s of Some i \<Rightarrow> Match i | None \<Rightarrow> CreateStatic s))}
      | [i] \<Rightarrow> Some (Match i)
      | _ \<Rightarrow> Some Ambiguous)"

definition resolve_jal :: "recompiler_context \<Rightarrow> nat \<Rightarrow> u32 \<Rightarrow> jal_resolution option" where
  "resolve_jal ctx cur_section_index target =
     (if use_lookup_for_all_function_calls ctx then Some Ambiguous
      else do {
        in_current_section \<leftarrow> section_contains ctx cur_section_index target;
        (exact_match_found, matched) \<leftarrow>
          (case functions_by_vram ctx target of
             None \<Rightarrow> Some (False, [])
           | Some idxs \<Rightarrow> collect_matches ctx cur_section_index idxs []);
        if in_current_section then
          Some (if exact_match_found then Match (hd matched) else CreateStatic cur_section_index)
        else resolve_elsewhere ctx target matched})"

definition static_section :: "jal_resolution \<Rightarrow> nat \<Rightarrow> nat" where
  "static_section r cur_section_index = (case r of CreateStatic s \<Rightarrow> s | _ \<Rightarrow> cur_section_index)"

section \<open>Code entry points\<close>

definition discover_static_code_entrypoint :: "decoder \<Rightarrow> recompiler_context \<Rightarrow> nat \<Rightarrow> u32 \<Rightarrow> bool option" where
  "discover_static_code_entrypoint decode ctx section_index target =
     (case nth_opt (sections ctx) section_index of
        None \<Rightarrow> Some False
      | Some section \<Rightarrow>
          if \<not> sec_executable section \<or> target AND 3 \<noteq> 0 then Some False
          else do {
            section_start \<leftarrow> infer_recomp_section_encoded_vram_base ctx section_index;
            let uses_encoded = in_window section_start (sec_size section) target;
            let uses_link = in_window (sec_ram_addr section) (sec_size section) target;
            let decode_base = (if uses_encoded then section_start else sec_ram_addr section);
            Some (
              if \<not> uses_encoded \<and> \<not> uses_link then False
              else if length (rom ctx) < unat (sec_rom_addr section) + unat (sec_size section) then False
              else (case discover_function_bounds decode
                        (slice (rom ctx) (unat (sec_rom_addr section)) (unat (sec_size section)))
                        decode_base (target - decode_base) of
                  Refused _ \<Rightarrow> False
                | Accepted discovered_size \<Rightarrow> discovered_size \<noteq> 0))})"

definition section_has_backing_rom :: "recompiler_context \<Rightarrow> nat \<Rightarrow> bool" where
  "section_has_backing_rom ctx section_index =
     (case nth_opt (sections ctx) section_index of
        None \<Rightarrow> False
      | Some section \<Rightarrow> unat (sec_rom_addr section) + unat (sec_size section) \<le> length (rom ctx))"

definition static_entry_requested :: "u32 list list \<Rightarrow> nat \<Rightarrow> u32 \<Rightarrow> bool" where
  "static_entry_requested static_funcs_out section_index target =
     (case nth_opt static_funcs_out section_index of
        None \<Rightarrow> False
      | Some vrams \<Rightarrow> target \<in> set vrams)"

definition function_can_be_called_by_name :: "recomp_function \<Rightarrow> bool" where
  "function_can_be_called_by_name func \<longleftrightarrow>
     fn_reimplemented func \<or>
     \<not> fn_ignored func \<and> (fn_words func \<noteq> [] \<or> is_manual_patch_symbol (fn_vram func))"

text \<open>\<open>Some None\<close> is \<open>(size_t)-1\<close>; the loop stops at the first callable function of the section.\<close>

fun first_callable :: "recompiler_context \<Rightarrow> nat \<Rightarrow> nat list \<Rightarrow> nat option option" where
  "first_callable ctx section_index [] = Some None"
| "first_callable ctx section_index (i # rest) =
     (case nth_opt (ctx_functions ctx) i of
        None \<Rightarrow> None
      | Some candidate \<Rightarrow>
          if unat (fn_section_index candidate) = section_index \<and> function_can_be_called_by_name candidate
          then Some (Some i) else first_callable ctx section_index rest)"

definition find_callable_function_in_section :: "recompiler_context \<Rightarrow> u32 \<Rightarrow> nat \<Rightarrow> nat option option" where
  "find_callable_function_in_section ctx target section_index =
     (case functions_by_vram ctx target of
        None \<Rightarrow> Some None
      | Some idxs \<Rightarrow> first_callable ctx section_index idxs)"

section \<open>Falling through\<close>

definition control_instruction_allows_fallthrough :: "instruction \<Rightarrow> bool" where
  "control_instruction_allows_fallthrough instr =
     (case in_id instr of
        Jump cpu_j \<Rightarrow> False
      | Jump cpu_b \<Rightarrow> False
      | Jump cpu_jr \<Rightarrow> False
      | Sys cpu_syscall \<Rightarrow> False
      | Sys cpu_break \<Rightarrow> False
      | Jump cpu_jalr \<Rightarrow> in_rd instr = GPR_ra
      | _ \<Rightarrow> True)"

definition function_end_allows_fallthrough :: "instruction list \<Rightarrow> bool" where
  "function_end_allows_fallthrough instrs =
     (if instrs = [] then False
      else let previous = instrs ! (length instrs - 2) in
        if 2 \<le> length instrs \<and> (in_is_branch previous \<or> in_is_jump previous)
        then control_instruction_allows_fallthrough previous
        else control_instruction_allows_fallthrough (last instrs))"

end
