(* ===== verification/Resolution_Soundness.thy ===== *)
theory Resolution_Soundness
  imports Call_Resolution
begin

text \<open>What the resolution of a call target promises.\<close>

text \<open>The map from addresses to functions lists functions at that address.\<close>

definition vram_index_ok :: "recompiler_context \<Rightarrow> bool" where
  "vram_index_ok ctx \<longleftrightarrow>
     (\<forall>target idxs. functions_by_vram ctx target = Some idxs \<longrightarrow>
        (\<forall>i\<in>set idxs. i < length (ctx_functions ctx) \<and> fn_vram (ctx_functions ctx ! i) = target))"

definition section_of :: "recompiler_context \<Rightarrow> nat \<Rightarrow> nat" where
  "section_of ctx i = unat (fn_section_index (ctx_functions ctx ! i))"

text \<open>A function at the target that can stand for it from another section: it has code and does not move.\<close>

definition fixed_candidate :: "recompiler_context \<Rightarrow> nat \<Rightarrow> bool" where
  "fixed_candidate ctx i \<longleftrightarrow>
     usable_target (ctx_functions ctx ! i) \<and> \<not> sec_relocatable (sections ctx ! section_of ctx i)"

definition functions_at :: "recompiler_context \<Rightarrow> u32 \<Rightarrow> nat list" where
  "functions_at ctx target = (case functions_by_vram ctx target of None \<Rightarrow> [] | Some idxs \<Rightarrow> idxs)"

lemma collect_matches_spec:
  "collect_matches ctx cur idxs ms = Some (exact, matched) \<Longrightarrow>
   (if exact then \<exists>i\<in>set idxs. matched = [i] \<and> usable_target (ctx_functions ctx ! i) \<and> section_of ctx i = cur
    else matched = ms @ filter (fixed_candidate ctx) idxs \<and>
      (\<forall>i\<in>set idxs. usable_target (ctx_functions ctx ! i) \<longrightarrow> section_of ctx i \<noteq> cur))"
proof (induction idxs arbitrary: ms)
  case (Cons i idxs)
  from Cons.prems show ?case
    by (auto simp: nth_opt_def section_of_def fixed_candidate_def [of ctx i] split: if_splits dest!: Cons.IH)
qed simp

lemma find_containing_spec:
  "find_containing ctx target ss found = Some c \<Longrightarrow> distinct ss \<Longrightarrow>
   found \<noteq> Several \<Longrightarrow> (\<forall>s. found = Inside s \<longrightarrow> s \<notin> set ss \<and> section_contains ctx s target = Some True) \<Longrightarrow>
   (case c of
      Nowhere \<Rightarrow> found = Nowhere \<and> (\<forall>s\<in>set ss. section_contains ctx s target = Some False)
    | Inside s \<Rightarrow> section_contains ctx s target = Some True \<and> (found = Inside s \<or> found = Nowhere \<and> s \<in> set ss)
    | Several \<Rightarrow> \<exists>a b. a \<noteq> b \<and> section_contains ctx a target = Some True \<and> section_contains ctx b target = Some True)"
proof (induction ss arbitrary: found)
  case Nil
  then show ?case by (cases c) auto
next
  case (Cons s ss)
  show ?case
  proof (cases "section_contains ctx s target")
    case None
    then show ?thesis using Cons.prems(1) by simp
  next
    case (Some inside)
    show ?thesis
    proof (cases inside)
      case False
      then have run: "find_containing ctx target ss found = Some c" using Cons.prems(1) Some by simp
      show ?thesis using Cons.IH [OF run] Cons.prems(2-) Some False by (cases c) auto
    next
      case True
      show ?thesis
      proof (cases found)
        case Nowhere
        then have run: "find_containing ctx target ss (Inside s) = Some c" using Cons.prems(1) Some True by simp
        show ?thesis using Cons.IH [OF run] Cons.prems(2-) Some True Nowhere by (cases c) auto
      next
        case (Inside a)
        then have "c = Several" using Cons.prems(1) Some True by simp
        moreover have "a \<noteq> s" "section_contains ctx a target = Some True" using Cons.prems(4) Inside by auto
        ultimately show ?thesis using Some True by auto
      qed (use Cons.prems(3) in simp)
    qed
  qed
qed

lemma target_in_section_spec:
  "target_in_section ctx target s = Some i \<Longrightarrow>
     i < length (ctx_functions ctx) \<and> fn_vram (ctx_functions ctx ! i) = target \<and> section_of ctx i = s \<and>
     (usable_target (ctx_functions ctx ! i) \<or> fn_reimplemented (ctx_functions ctx ! i))"
  "target_in_section ctx target s = None \<Longrightarrow> i < length (ctx_functions ctx) \<Longrightarrow>
     fn_vram (ctx_functions ctx ! i) = target \<Longrightarrow> section_of ctx i = s \<Longrightarrow> \<not> usable_target (ctx_functions ctx ! i)"
  by (auto simp: target_in_section_def Let_def find_Some_iff find_None_iff usable_target_def section_of_def)

text \<open>C3: what a resolved call means. A match is a function at the target that has code, in the caller's section, in a section
  that does not move, or in the one section that contains the target. A static function is made only in a section that
  contains the target and has no usable function there. No match means that no section contains the target and no
  function at it can stand for it; ambiguity, that calls are looked up anyway, that two functions compete, or that two sections
  contain the target.\<close>

theorem resolve_jal_sound:
  assumes index: "vram_index_ok ctx" and run: "resolve_jal ctx cur target = Some r"
  shows "case r of
      Match i \<Rightarrow> i < length (ctx_functions ctx) \<and> fn_vram (ctx_functions ctx ! i) = target \<and>
        (usable_target (ctx_functions ctx ! i) \<or> fn_reimplemented (ctx_functions ctx ! i)) \<and>
        (section_of ctx i = cur \<or> \<not> sec_relocatable (sections ctx ! section_of ctx i) \<or>
         section_contains ctx (section_of ctx i) target = Some True)
    | CreateStatic s \<Rightarrow> section_contains ctx s target = Some True \<and>
        (\<forall>i\<in>set (functions_at ctx target). section_of ctx i = s \<longrightarrow> \<not> usable_target (ctx_functions ctx ! i))
    | NoMatch \<Rightarrow> (\<forall>s<length (sections ctx). section_contains ctx s target = Some False) \<and>
        (\<forall>i\<in>set (functions_at ctx target). section_of ctx i \<noteq> cur \<longrightarrow> \<not> fixed_candidate ctx i)
    | Ambiguous \<Rightarrow> use_lookup_for_all_function_calls ctx \<or>
        2 \<le> length (filter (fixed_candidate ctx) (functions_at ctx target)) \<or>
        (\<exists>a b. a \<noteq> b \<and> section_contains ctx a target = Some True \<and> section_contains ctx b target = Some True)
    | Error \<Rightarrow> False"
proof (cases "use_lookup_for_all_function_calls ctx")
  case True
  then show ?thesis using run by (auto simp: resolve_jal_def)
next
  case False
  have at: "i < length (ctx_functions ctx) \<and> fn_vram (ctx_functions ctx ! i) = target"
    if "i \<in> set (functions_at ctx target)" for i
    using index that by (cases "functions_by_vram ctx target") (auto simp: vram_index_ok_def functions_at_def)
  obtain inside exact matched where inside: "section_contains ctx cur target = Some inside"
    and matches: "collect_matches ctx cur (functions_at ctx target) [] = Some (exact, matched)"
    and r: "(if inside then Some (if exact then Match (hd matched) else CreateStatic cur)
             else resolve_elsewhere ctx target matched) = Some r"
    using run False unfolding resolve_jal_def functions_at_def
    by (auto split: option.splits bind_splits)
  note spec = collect_matches_spec [OF matches]
  show ?thesis
  proof (cases inside)
    case True
    then show ?thesis using r spec inside at by (auto split: if_splits)
  next
    case outside: False
    then have r: "resolve_elsewhere ctx target matched = Some r" using r by simp
    have single: "i \<in> set (functions_at ctx target) \<and> usable_target (ctx_functions ctx ! i) \<and>
        (section_of ctx i = cur \<or> \<not> sec_relocatable (sections ctx ! section_of ctx i))" if "i \<in> set matched" for i
      using spec that by (auto simp: fixed_candidate_def split: if_splits)
    consider "matched = []" | i where "matched = [i]" | i j rest where "matched = i # j # rest"
      by (cases matched rule: remdups_adj.cases) auto
    then show ?thesis
    proof cases
      case 1
      then have exact: "\<not> exact" using spec by auto
      from 1 r obtain c where c: "find_containing ctx target [0..<length (sections ctx)] Nowhere = Some c"
        and rc: "r = (case c of Several \<Rightarrow> Ambiguous | Nowhere \<Rightarrow> NoMatch
            | Inside s \<Rightarrow> (case target_in_section ctx target s of Some i \<Rightarrow> Match i | None \<Rightarrow> CreateStatic s))"
        by (auto simp: resolve_elsewhere_def split: bind_splits)
      have none: "\<not> fixed_candidate ctx i" if "i \<in> set (functions_at ctx target)" for i
        using spec exact 1 that by (auto simp: filter_empty_conv empty_filter_conv)
      show ?thesis
      proof (cases c)
        case Nowhere
        then show ?thesis using find_containing_spec [OF c] rc none by auto
      next
        case (Inside s)
        then show ?thesis using find_containing_spec [OF c] rc at target_in_section_spec
          by (auto split: option.splits)
      next
        case Several
        then show ?thesis using find_containing_spec [OF c] rc by auto
      qed
    next
      case 2
      then show ?thesis using r single at by (auto simp: resolve_elsewhere_def)
    next
      case 3
      then have "\<not> exact" using spec by auto
      then have "filter (fixed_candidate ctx) (functions_at ctx target) = i # j # rest" using spec 3 by simp
      then show ?thesis using r 3 by (auto simp: resolve_elsewhere_def)
    qed
  qed
qed

text \<open>Two sections, the second loaded at another address than it is linked for; a call into it from the first.\<close>

definition overlay_context :: recompiler_context where
  "overlay_context = context_default\<lparr>
     sections := [section_default\<lparr>sec_size := 16\<rparr>, section_default\<lparr>sec_rom_addr := 16, sec_ram_addr := 64, sec_size := 16\<rparr>],
     ctx_functions := [make_function 32 16 [1] ''overlay'' 1 False False False 0],
     section_functions := [[], [0]], functions_by_vram := [32 \<mapsto> [0]]\<rparr>"

lemma resolve_jal_sound_witness:
  "vram_index_ok overlay_context \<and> resolve_jal overlay_context 0 32 = Some (Match 0) \<and>
   resolve_jal overlay_context 0 36 = Some (CreateStatic 1) \<and>
   section_contains overlay_context 1 36 = Some True"
proof -
  have ok: "vram_index_ok overlay_context"
    by (auto simp: vram_index_ok_def overlay_context_def context_default_def make_function_def)
  have match: "resolve_jal overlay_context 0 32 = Some (Match 0)" by code_simp
  have static: "resolve_jal overlay_context 0 36 = Some (CreateStatic 1)" by code_simp
  from resolve_jal_sound [OF ok static] ok match static show ?thesis by simp
qed

section \<open>The base a section was linked at\<close>

lemma infer_base_found:
  assumes "\<forall>i\<in>set idxs. i < length (ctx_functions ctx)"
  shows "infer_base ctx section idxs (Some b) =
    Some (if \<forall>i\<in>set idxs. has_no_code section (ctx_functions ctx ! i) \<or> candidate_base section (ctx_functions ctx ! i) = b
          then b else sec_ram_addr section)"
  using assms by (induction idxs) (auto simp: nth_opt_def)

text \<open>C5: the encoded base of a section is the one its functions agree on, by their places in the image; when they do not agree, or
  none has code, it is the address the section is linked for.\<close>

theorem encoded_base_agreed:
  assumes "section_index < length (sections ctx)" "section_index < length (section_functions ctx)"
    and "\<forall>i\<in>set (section_functions ctx ! section_index). i < length (ctx_functions ctx)"
  shows "infer_recomp_section_encoded_vram_base ctx section_index =
    Some (let section = sections ctx ! section_index;
              coded = filter (\<lambda>f. \<not> has_no_code section f) (map ((!) (ctx_functions ctx)) (section_functions ctx ! section_index))
          in if \<exists>b. set (map (candidate_base section) coded) = {b} then candidate_base section (hd coded)
             else sec_ram_addr section)"
proof -
  let ?sec = "sections ctx ! section_index"
  have "infer_base ctx ?sec idxs None =
    Some (let coded = filter (\<lambda>f. \<not> has_no_code ?sec f) (map ((!) (ctx_functions ctx)) idxs)
          in if \<exists>b. set (map (candidate_base ?sec) coded) = {b} then candidate_base ?sec (hd coded) else sec_ram_addr ?sec)"
    if "\<forall>i\<in>set idxs. i < length (ctx_functions ctx)" for idxs
    using that
  proof (induction idxs)
    case (Cons i idxs)
    let ?f = "ctx_functions ctx ! i"
    show ?case
    proof (cases "has_no_code ?sec ?f")
      case True
      then show ?thesis using Cons by (simp add: nth_opt_def)
    next
      case False
      have "(\<exists>b. set (map (candidate_base ?sec) (?f # filter (\<lambda>f. \<not> has_no_code ?sec f) (map ((!) (ctx_functions ctx)) idxs))) = {b}) \<longleftrightarrow>
          (\<forall>j\<in>set idxs. has_no_code ?sec (ctx_functions ctx ! j) \<or> candidate_base ?sec (ctx_functions ctx ! j) = candidate_base ?sec ?f)"
        by auto
      then show ?thesis using Cons.prems False infer_base_found [of idxs ctx ?sec "candidate_base ?sec ?f"]
        by (simp add: nth_opt_def) blast
    qed
  qed simp
  with assms(3) show ?thesis using assms(1,2)
    by (simp add: infer_recomp_section_encoded_vram_base_def Let_def)
qed

lemma encoded_base_agreed_witness:
  "infer_recomp_section_encoded_vram_base overlay_context 1 = Some 32 \<and> sec_ram_addr (sections overlay_context ! 1) = 64"
  using encoded_base_agreed [of 1 overlay_context]
  by (simp add: overlay_context_def context_default_def make_function_def section_default_def has_no_code_def candidate_base_def)

end
