(* ===== verification/Emission.thy ===== *)
theory Emission
  imports CGenerator
begin

text \<open>
  How the text of a function is put together. The output is a list of pieces, so that its labels and
  jumps stay visible; \<open>render\<close> gives the characters, and the emitters of \<open>cgenerator.cpp\<close> that print jumps or
  labels are given as pieces that render to what \<open>CGenerator\<close> says they print.

  An emitter is a statement of the translation: it extends the state and gives the \<open>bool\<close> the C++ lambda returns;
  \<open>None\<close> is the end of the program (a failed assertion, an exception, an index out of range).
\<close>

section \<open>Pieces of text\<close>

datatype piece = Text string | Goto string | Label string

fun render_piece :: "piece \<Rightarrow> string" where
  "render_piece (Text s) = s"
| "render_piece (Goto l) = ''goto '' @ l @ '';''"
| "render_piece (Label l) = l @ '':''"

definition render :: "piece list \<Rightarrow> string" where
  "render ps = concat (map render_piece ps)"

fun goto_of :: "piece \<Rightarrow> string list" where
  "goto_of (Goto l) = [l]"
| "goto_of _ = []"

fun label_of :: "piece \<Rightarrow> string list" where
  "label_of (Label l) = [l]"
| "label_of _ = []"

definition gotos :: "piece list \<Rightarrow> string list" where
  "gotos ps = concat (map goto_of ps)"

definition labels :: "piece list \<Rightarrow> string list" where
  "labels ps = concat (map label_of ps)"

lemma render_simps [simp]:
  "render [] = ''''" "render (p # ps) = render_piece p @ render ps" "render (ps @ qs) = render ps @ render qs"
  by (simp_all add: render_def)

lemma gotos_simps [simp]:
  "gotos [] = []" "gotos (p # ps) = goto_of p @ gotos ps" "gotos (ps @ qs) = gotos ps @ gotos qs"
  "gotos (concat pss) = concat (map gotos pss)"
  by (simp_all add: gotos_def) (induction pss; simp add: gotos_def)

lemma labels_simps [simp]:
  "labels [] = []" "labels (p # ps) = label_of p @ labels ps" "labels (ps @ qs) = labels ps @ labels qs"
  "labels (concat pss) = concat (map labels pss)"
  by (simp_all add: labels_def) (induction pss; simp add: labels_def)

definition newline :: string where
  "newline = [CHR 0x0A]"

definition text_line :: "string \<Rightarrow> piece list" where
  "text_line s = [Text (line s)]"

definition goto_pieces :: "string \<Rightarrow> piece list" where
  "goto_pieces target = [Text ''    '', Goto target, Text newline]"

definition label_pieces :: "string \<Rightarrow> piece list" where
  "label_pieces label_name = [Label label_name, Text newline]"

definition case_pieces :: "nat \<Rightarrow> string \<Rightarrow> piece list" where
  "case_pieces case_index target_label =
     [Text (''case '' @ fmt_nat case_index @ '': ''), Goto target_label, Text ('' break;'' @ newline)]"

text \<open>A \<open>case\<close> of a dispatch switch on an address.\<close>

definition dispatch_case_pieces :: "string \<Rightarrow> u32 \<Rightarrow> piece list" where
  "dispatch_case_pieces indent vram =
     [Text (indent @ ''case 0x'' @ fmt_08X vram @ ''u: ''), Goto (L_label vram), Text newline]"

definition resume_pieces :: "string \<Rightarrow> string \<Rightarrow> u32 \<Rightarrow> piece list" where
  "resume_pieces indent tag vram =
     [Text (print_lines (map ((@) indent) [
        cf_note tag,
        ''ctx->tailcall_pending = 0;'',
        ''ctx->tailcall_target = 0;'',
        ''ctx->tailcall_func = 0;'',
        ''ctx->host_return_target = recomp_prev_host_return;'',
        check_sp]) @ indent),
      Goto (L_label vram), Text newline]"

definition tailcall_pieces :: "u32 list \<Rightarrow> u32 \<Rightarrow> piece list" where
  "tailcall_pieces local_labels return_vram =
     [Text (line ''    if (ctx->tailcall_pending) {'')] @
     (if return_vram \<noteq> 0 then
        [Text (line (''        if (ctx->tailcall_target == 0x'' @ fmt_08X return_vram @ ''u) {''))] @
        resume_pieces ''            '' ''call-return-tailcall'' return_vram @
        [Text (line ''        }'')]
      else []) @
     (if local_labels \<noteq> [] then
        [Text (line ''        if (ctx->tailcall_target != 0) {'' @
           line ''            switch ((uint32_t)ctx->tailcall_target) {'')] @
        concat (map (\<lambda>label_vram.
          Text (line (''            case 0x'' @ fmt_08X label_vram @ ''u:'')) #
          resume_pieces ''                '' ''call-local-tailcall'' label_vram) local_labels) @
        [Text (line ''            default: break;'' @ line ''            }'' @ line ''        }'')]
      else []) @
     [Text (print_lines [
       ''        if (ctx->tailcall_dispatching >= 64u) {'',
       ''            '' @ cf_note ''call-bubble-dispatch'',
       ''            ctx->host_return_target = recomp_prev_host_return;'',
       ''            return;'',
       ''        }'',
       ''        recomp_handle_tailcalls(rdram, ctx);'',
       ''    }''])]"

definition frame_pieces :: "string \<Rightarrow> u32 list \<Rightarrow> u32 \<Rightarrow> piece list" where
  "frame_pieces call local_labels return_vram =
     [Text (emit_call_prologue @ line (''    '' @ call @ ''(rdram, ctx);''))] @
     tailcall_pieces local_labels return_vram @ [Text emit_call_epilogue]"

text \<open>The pieces print what the generator prints.\<close>

lemma render_goto [simp]: "render (goto_pieces t) = emit_goto t"
  by (simp add: goto_pieces_def emit_goto_def line_def newline_def)

lemma render_label [simp]: "render (label_pieces l) = emit_label l"
  by (simp add: label_pieces_def emit_label_def line_def newline_def)

lemma render_case [simp]: "render (case_pieces i l) = emit_case i l"
  by (simp add: case_pieces_def emit_case_def line_def newline_def)

lemma render_resume [simp]: "render (resume_pieces indent tag vram) = resume_at indent tag vram"
  by (simp add: resume_pieces_def resume_at_def print_lines_def line_def newline_def)

lemma render_tailcall [simp]: "render (tailcall_pieces ls r) = emit_tailcall_handling ls r"
proof -
  have "render (concat (map f ls)) = concat (map (\<lambda>x. render (f x)) ls)" for f :: "u32 \<Rightarrow> piece list"
    by (induction ls) simp_all
  then show ?thesis by (simp add: tailcall_pieces_def emit_tailcall_handling_def)
qed

lemma render_frame [simp]: "render (frame_pieces call ls r) = call_frame call ls r"
  by (simp add: frame_pieces_def call_frame_def)

section \<open>Emitters\<close>

record emit_state =
  out :: "piece list"
  static_funcs :: "u32 list list"
  needs_link_branch :: bool
  is_branch_likely :: bool

type_synonym emitter = "emit_state \<Rightarrow> (bool \<times> emit_state) option"

definition put :: "piece list \<Rightarrow> emitter" where
  "put ps st = Some (True, st\<lparr>out := out st @ ps\<rparr>)"

definition skip :: emitter where
  "skip st = Some (True, st)"

definition give_up :: emitter where
  "give_up st = Some (False, st)"

definition crash :: emitter where
  "crash st = None"

text \<open>A sequence of statements, each ending the sequence when it fails.\<close>

fun chain :: "emitter list \<Rightarrow> emitter" where
  "chain [] st = Some (True, st)"
| "chain (f # fs) st =
     (case f st of
        None \<Rightarrow> None
      | Some (ok, st') \<Rightarrow> if ok then chain fs st' else Some (False, st'))"

definition only_if :: "bool \<Rightarrow> emitter \<Rightarrow> emitter" where
  "only_if b f = (if b then f else skip)"

definition demand :: "'a option \<Rightarrow> ('a \<Rightarrow> emitter) \<Rightarrow> emitter" where
  "demand x f = (case x of None \<Rightarrow> crash | Some y \<Rightarrow> f y)"

text \<open>A call whose result is not looked at.\<close>

definition ignore_result :: "emitter \<Rightarrow> emitter" where
  "ignore_result f st = (case f st of None \<Rightarrow> None | Some (_, st') \<Rightarrow> Some (True, st'))"

definition set_needs_link :: "bool \<Rightarrow> emitter" where
  "set_needs_link b st = Some (True, st\<lparr>needs_link_branch := b\<rparr>)"

definition set_branch_likely :: "bool \<Rightarrow> emitter" where
  "set_branch_likely b st = Some (True, st\<lparr>is_branch_likely := b\<rparr>)"

text \<open>\<open>static_funcs_out[section].push_back(vram)\<close>.\<close>

definition push_static :: "nat \<Rightarrow> u32 \<Rightarrow> emitter" where
  "push_static section_index vram st =
     (if section_index < length (static_funcs st)
      then Some (True, st\<lparr>static_funcs := (static_funcs st)[section_index := static_funcs st ! section_index @ [vram]]\<rparr>)
      else None)"

definition indent_line :: emitter where
  "indent_line = put [Text ''    '']"

definition put_line :: "string \<Rightarrow> emitter" where
  "put_line s = put (text_line s)"

definition put_text :: "string \<Rightarrow> emitter" where
  "put_text s = put [Text s]"

end
