(* ===== verification/Translation.thy ===== *)
theory Translation
  imports Emission Call_Resolution
begin

text \<open>
  The translation of one instruction, \<open>process_instruction\<close> of \<open>src/recompilation.cpp\<close>, without its recursion:
  what it captures, the relocation of the instruction, and the statements its lambdas emit. The generator
  is \<open>CGenerator\<close>; the warnings printed to the standard streams are not modelled.

  \<^item> \<open>translation\<close> holds the arguments shared by all instructions of a function, \<open>site\<close> the locals of one call.
    The recursive call for a delay slot is the component \<open>s_next\<close> of the site: given \<open>use_indent\<close> and the
    relocation index, it emits the next instruction.
  \<^item> \<open>std::set<uint32_t>\<close> is its sorted list; \<open>(size_t)-1\<close> as a symbol index is \<open>None\<close>.
\<close>

record translation =
  tr_ctx :: recompiler_context
  tr_func :: recomp_function
  tr_func_index :: nat
  tr_tables :: "jump_table list"
  tr_jtbl_lw :: "u32 list"
  tr_branch_labels :: "u32 list"
  tr_local_labels :: "u32 list"
  tr_instructions :: "instruction list"
  tr_tag_reference :: bool
  tr_decode :: decoder

definition func_vram_end :: "recomp_function \<Rightarrow> u32" where
  "func_vram_end func = fn_vram func + of_nat (length (fn_words func) * 4)"

definition in_function :: "recomp_function \<Rightarrow> u32 \<Rightarrow> bool" where
  "in_function func vram \<longleftrightarrow> fn_vram func \<le> vram \<and> vram < func_vram_end func"

section \<open>Relocations\<close>

record reloc_use =
  ru_has_reloc :: bool
  ru_type :: reloc_type
  ru_section :: u32
  ru_offset :: u32
  ru_symbol :: "nat option"

definition no_reloc :: reloc_use where
  "no_reloc = \<lparr>ru_has_reloc = False, ru_type = R_MIPS_NONE, ru_section = 0, ru_offset = 0, ru_symbol = None\<rparr>"

text \<open>The target section of a relocation against a bss section is its parent; the offset moves with it.\<close>

definition remap_bss :: "recompiler_context \<Rightarrow> reloc \<Rightarrow> (u32 \<times> u32) option" where
  "remap_bss ctx rel =
     (case bss_section_to_section ctx (rel_target_section rel) of
        None \<Rightarrow> Some (ucast (rel_target_section rel), 0)
      | Some parent \<Rightarrow> do {
          bss_section \<leftarrow> nth_opt (sections ctx) (unat (rel_target_section rel));
          parent_section \<leftarrow> nth_opt (sections ctx) (unat parent);
          Some (ucast parent, sec_ram_addr bss_section - sec_ram_addr parent_section)})"

text \<open>An absolute target strictly inside a relocatable section becomes relative to that section.\<close>

definition strictly_inside :: "section_info \<Rightarrow> u32 \<Rightarrow> bool" where
  "strictly_inside section addr \<longleftrightarrow>
     sec_relocatable section \<and> sec_ram_addr section < addr \<and>
     addr < sec_ram_addr section + sec_size section"

definition remap_absolute :: "recompiler_context \<Rightarrow> reloc \<Rightarrow> u32 \<times> u32 \<Rightarrow> u32 \<times> u32" where
  "remap_absolute ctx rel target =
     (if fst target = ucast SectionAbsolute \<and> \<not> rel_reference_symbol rel then
        (case find (\<lambda>si. strictly_inside (sections ctx ! si) (rel_target_section_offset rel))
                [0..<length (sections ctx)] of
           None \<Rightarrow> target
         | Some si \<Rightarrow> (of_nat si, 0 - sec_ram_addr (sections ctx ! si)))
      else target)"

text \<open>Whether the target moves at run time; a reference to the very base of a section does not count.\<close>

definition target_relocatable :: "recompiler_context \<Rightarrow> reloc \<Rightarrow> u32 \<times> u32 \<Rightarrow> bool option" where
  "target_relocatable ctx rel target =
     (if \<not> rel_reference_symbol rel \<and> fst target \<noteq> ucast SectionAbsolute then do {
        target_section \<leftarrow> nth_opt (sections ctx) (unat (fst target));
        Some (sec_relocatable target_section \<and>
          \<not> ((rel_type rel = R_MIPS_HI16 \<or> rel_type rel = R_MIPS_LO16) \<and>
              rel_target_section_offset rel + snd target = 0))}
      else Some False)"

definition reference_reloc :: "recompiler_context \<Rightarrow> reloc \<Rightarrow> reloc_use \<Rightarrow> reloc_use option" where
  "reference_reloc ctx rel use =
     (let use' = use\<lparr>ru_symbol := Some (unat (rel_symbol_index rel))\<rparr> in
      if is_regular_reference_section (rel_target_section rel) \<or> ru_section use = ucast SectionAbsolute then do {
        ref_section_relocatable \<leftarrow> is_reference_section_relocatable ctx (rel_target_section rel);
        Some (if \<not> ref_section_relocatable \<and> (ru_type use = R_MIPS_HI16 \<or> ru_type use = R_MIPS_LO16)
              then use\<lparr>ru_type := R_MIPS_NONE\<rparr> else use')}
      else Some use')"

definition use_reloc :: "recompiler_context \<Rightarrow> reloc \<Rightarrow> reloc_use option" where
  "use_reloc ctx rel = do {
     bss_target \<leftarrow> remap_bss ctx rel;
     let target = remap_absolute ctx rel bss_target;
     relocatable \<leftarrow> target_relocatable ctx rel target;
     let unused = no_reloc\<lparr>ru_has_reloc := True, ru_section := fst target\<rparr>;
     if relocatable \<or> rel_reference_symbol rel then
       (let use = unused\<lparr>ru_type := rel_type rel, ru_offset := rel_target_section_offset rel + snd target\<rparr>
        in if rel_reference_symbol rel \<and>
              (rel_type rel = R_MIPS_HI16 \<or> rel_type rel = R_MIPS_LO16 \<or> rel_type rel = R_MIPS_26)
           then reference_reloc ctx rel use else Some use)
     else Some unused}"

definition find_reloc :: "recompiler_context \<Rightarrow> section_info \<Rightarrow> nat \<Rightarrow> u32 \<Rightarrow> reloc_use option" where
  "find_reloc ctx section reloc_index instr_vram =
     (if sec_relocs section = [] then Some no_reloc
      else do {
        rel \<leftarrow> nth_opt (sec_relocs section) reloc_index;
        if rel_address rel = instr_vram then use_reloc ctx rel else Some no_reloc})"

section \<open>The site of an instruction\<close>

record site =
  s_tr :: translation
  s_section :: section_info
  s_index :: nat
  s_instr :: instruction
  s_reloc_index :: nat
  s_reloc :: reloc_use
  s_link_index :: nat
  s_next :: "bool \<Rightarrow> nat \<Rightarrow> emitter"

definition s_vram :: "site \<Rightarrow> u32" where
  "s_vram s = in_vram (s_instr s)"

definition s_func :: "site \<Rightarrow> recomp_function" where
  "s_func s = tr_func (s_tr s)"

definition s_ctx :: "site \<Rightarrow> recompiler_context" where
  "s_ctx s = tr_ctx (s_tr s)"

definition s_section_index :: "site \<Rightarrow> nat" where
  "s_section_index s = unat (fn_section_index (s_func s))"

definition after_label :: "nat \<Rightarrow> string" where
  "after_label link_branch_index = ''after_'' @ fmt_nat link_branch_index"

definition static_name :: "nat \<Rightarrow> u32 \<Rightarrow> string" where
  "static_name section_index vram = ''static_'' @ fmt_nat section_index @ ''_'' @ fmt_08X vram"

text \<open>\<open>indent_line\<close> and a printed line.\<close>

definition indented :: "string \<Rightarrow> emitter" where
  "indented s = put [Text (''    '' @ line s)]"

definition trace_return :: "site \<Rightarrow> string \<Rightarrow> emitter" where
  "trace_return s indent = only_if (trace_mode (s_ctx s)) (indented (indent @ ''TRACE_RETURN()''))"

definition get_local_tailcall_labels :: "site \<Rightarrow> u32 list" where
  "get_local_tailcall_labels s = filter (in_function (s_func s)) (tr_local_labels (s_tr s))"

definition get_call_return_label :: "site \<Rightarrow> u32" where
  "get_call_return_label s =
     (let ret = s_vram s + 8 in if ret \<in> set (tr_branch_labels (s_tr s)) then ret else 0)"

definition frame_of :: "site \<Rightarrow> string \<Rightarrow> emitter" where
  "frame_of s call = put (frame_pieces call (get_local_tailcall_labels s) (get_call_return_label s))"

text \<open>The flags of the instruction survive its delay slot, which has flags of its own.\<close>

definition keep_flags :: "emitter \<Rightarrow> emitter" where
  "keep_flags f st =
     (case f st of
        None \<Rightarrow> None
      | Some (ok, st') \<Rightarrow>
          Some (ok, st'\<lparr>needs_link_branch := needs_link_branch st, is_branch_likely := is_branch_likely st\<rparr>))"

definition next_reloc_index :: "site \<Rightarrow> nat" where
  "next_reloc_index s =
     (let relocs = sec_relocs (s_section s); i = s_reloc_index s in
      if i + 1 < length relocs \<and> s_vram s + 4 > rel_address (relocs ! i) then i + 1 else i)"

definition emit_delay_slot :: "site \<Rightarrow> bool \<Rightarrow> emitter" where
  "emit_delay_slot s use_indent =
     (if s_index s \<ge> length (tr_instructions (s_tr s)) - 1 then give_up
      else keep_flags (s_next s use_indent (next_reloc_index s)))"

definition when_link :: "emitter \<Rightarrow> emitter" where
  "when_link f st = (if needs_link_branch st then f st else Some (True, st))"

definition emit_link_continuation :: "site \<Rightarrow> emitter" where
  "emit_link_continuation s = when_link (put (Text ''    '' # goto_pieces (after_label (s_link_index s))))"

section \<open>Returns, jumps and tail calls\<close>

definition hex_u :: "u32 \<Rightarrow> string" where
  "hex_u w = ''0x'' @ fmt_08X w @ ''u''"

text \<open>The local dispatch of \<open>jr $ra\<close>: a switch over the labels of the function, when there is one.\<close>

definition local_dispatch :: "site \<Rightarrow> string \<Rightarrow> emitter" where
  "local_dispatch s target_var =
     (let dispatched = filter (in_function (s_func s)) (tr_branch_labels (s_tr s)) in
      only_if (dispatched \<noteq> []) (chain [
        indented (''switch ('' @ target_var @ '') {''),
        put (concat (map (dispatch_case_pieces ''    '') dispatched)),
        indented ''default: break;'',
        indented ''}'']))"

definition emit_jr_ra_return :: "site \<Rightarrow> emitter" where
  "emit_jr_ra_return s =
     (let target = ''jr_target_'' @ fmt_08X (s_vram s);
          target_vram = ''jr_target_vram_'' @ fmt_08X (s_vram s)
      in chain [
        indented ''{'',
        indented (''gpr '' @ target @ '' = ctx->r31;''),
        emit_delay_slot s False,
        indented (''uint32_t '' @ target_vram @ '' = U32('' @ target @ '');''),
        indented ''{'',
        indented (''uint32_t jr_section_base = (uint32_t)section_addresses['' @ fmt_nat (s_section_index s) @ ''];''),
        indented (''uint32_t jr_section_offset = '' @ target_vram @ '' - jr_section_base;''),
        indented (''if (jr_section_base != '' @ hex_u (sec_ram_addr (s_section s)) @
          '' && jr_section_offset < '' @ hex_u (sec_size (s_section s)) @ '') {''),
        indented (target_vram @ '' = '' @ hex_u (sec_ram_addr (s_section s)) @ '' + jr_section_offset;''),
        indented ''}'',
        indented ''}'',
        local_dispatch s target_vram,
        indented (''if ('' @ target_vram @ '' != ctx->host_return_target) {''),
        indented (''    recomp_request_tailcall(ctx, (gpr)(int32_t)'' @ target_vram @ '');''),
        trace_return s ''    '',
        indented ''    return;'',
        indented ''}'',
        indent_line,
        put_text (emit_return (s_ctx s)),
        indented ''}'',
        emit_link_continuation s])"

definition emit_goto_with_slot :: "site \<Rightarrow> string \<Rightarrow> emitter" where
  "emit_goto_with_slot s target = chain [
     emit_delay_slot s False,
     put (Text ''    '' # goto_pieces target),
     emit_link_continuation s]"

definition emit_call_by_register :: "site \<Rightarrow> nat \<Rightarrow> emitter" where
  "emit_call_by_register s reg = chain [
     emit_delay_slot s False,
     indent_line,
     frame_of s (''LOOKUP_FUNC('' @ gpr_to_string reg @ '')''),
     emit_link_continuation s]"

definition emit_tailcall_by_register :: "site \<Rightarrow> nat \<Rightarrow> emitter" where
  "emit_tailcall_by_register s reg = chain [
     emit_delay_slot s False,
     indented (''recomp_request_tailcall(ctx, (gpr)(int32_t)'' @ gpr_to_string reg @ '');''),
     trace_return s '''',
     indented ''return;'']"

text \<open>The two tail calls to a known address share all but the request.\<close>

definition tailcall_to :: "site \<Rightarrow> u32 \<Rightarrow> string \<Rightarrow> emitter" where
  "tailcall_to s target request = chain [
     emit_delay_slot s False,
     indented (''if ('' @ hex_u target @ '' == ctx->host_return_target) {''),
     trace_return s ''    '',
     indented ''    return;'',
     indented ''}'',
     indented request,
     trace_return s '''',
     indented ''return;'']"

definition emit_tailcall_by_address :: "site \<Rightarrow> u32 \<Rightarrow> emitter" where
  "emit_tailcall_by_address s target =
     tailcall_to s target (''recomp_request_tailcall(ctx, (gpr)(int32_t)'' @ hex_u target @ '');'')"

definition emit_tailcall_by_function :: "site \<Rightarrow> string \<Rightarrow> u32 \<Rightarrow> emitter" where
  "emit_tailcall_by_function s target_name target =
     tailcall_to s target
       (''recomp_request_tailcall_func_target(ctx, '' @ target_name @ '', '' @ hex_u target @ '');'')"

end
