(* ===== verification/Recompilation.thy ===== *)
theory Recompilation
  imports Translation
begin

text \<open>
  The rest of \<open>src/recompilation.cpp\<close>: calls and branches, the cases of \<open>process_instruction\<close>, and
  \<open>recompile_function\<close>. The recursion of \<open>process_instruction\<close> into a delay slot is a recursion over the
  instructions that are left (\<open>process_from\<close>).
\<close>

definition with_state :: "(emit_state \<Rightarrow> emitter) \<Rightarrow> emitter" where
  "with_state f st = f st st"

section \<open>Calls\<close>

definition call_statement :: "site \<Rightarrow> emitter \<Rightarrow> emitter" where
  "call_statement s call = chain [
     set_needs_link True,
     emit_delay_slot s False,
     indent_line,
     call,
     emit_link_continuation s]"

text \<open>A call through a reference symbol: no addend, unless the symbols are not validated.\<close>

definition reference_addend_ok :: "site \<Rightarrow> nat \<Rightarrow> bool option" where
  "reference_addend_ok s symbol_index =
     (if skip_validating_reference_symbols (s_ctx s) then Some True
      else map_option (\<lambda>ref. rsym_section_offset ref = ru_offset (s_reloc s))
             (get_reference_symbol (s_ctx s) (ucast (ru_section (s_reloc s))) symbol_index))"

definition call_reference_symbol :: "site \<Rightarrow> nat \<Rightarrow> emitter" where
  "call_reference_symbol s symbol_index =
     (if ru_type (s_reloc s) \<noteq> R_MIPS_26 then give_up
      else demand (reference_addend_ok s symbol_index) (\<lambda>ok.
        if \<not> ok then give_up
        else call_statement s
          (demand (get_reference_symbol (s_ctx s) (ucast (ru_section (s_reloc s))) symbol_index)
             (\<lambda>symb. frame_of s (rsym_name symb)))))"

definition call_target_section :: "site \<Rightarrow> nat" where
  "call_target_section s =
     (if ru_has_reloc (s_reloc s) \<and> unat (ru_section (s_reloc s)) < length (sections (s_ctx s))
      then unat (ru_section (s_reloc s)) else s_section_index s)"

definition call_resolved :: "site \<Rightarrow> u32 \<Rightarrow> jal_resolution \<Rightarrow> emitter" where
  "call_resolved s target r =
     (case r of
        NoMatch \<Rightarrow> indented (''recomp_unhandled_call(rdram, ctx, '' @ hex_u (s_vram s) @ '', '' @ hex_u target @ '');'')
      | Match i \<Rightarrow> demand (nth_opt (ctx_functions (s_ctx s)) i) (\<lambda>f. call_statement s (frame_of s (fn_name f)))
      | CreateStatic k \<Rightarrow> chain [push_static k target, call_statement s (frame_of s (static_name k target))]
      | Ambiguous \<Rightarrow> call_statement s (frame_of s (''LOOKUP_FUNC(0x'' @ fmt_08X target @ '')''))
      | Error \<Rightarrow> give_up)"

definition emit_call_by_address :: "site \<Rightarrow> u32 \<Rightarrow> emitter" where
  "emit_call_by_address s target =
     (if ru_section (s_reloc s) = ucast SectionEvent then
        call_statement s (put_text (emit_trigger_event
          (case ru_symbol (s_reloc s) of None \<Rightarrow> - 1 | Some n \<Rightarrow> of_nat n)))
      else case ru_symbol (s_reloc s) of
        Some symbol_index \<Rightarrow> call_reference_symbol s symbol_index
      | None \<Rightarrow> demand (resolve_jal (s_ctx s) (call_target_section s) target) (call_resolved s target))"

section \<open>Branches\<close>

fun contained_in_some :: "recompiler_context \<Rightarrow> u32 \<Rightarrow> nat list \<Rightarrow> bool option" where
  "contained_in_some ctx target [] = Some False"
| "contained_in_some ctx target (i # rest) =
     (case nth_opt (ctx_functions ctx) i of
        None \<Rightarrow> None
      | Some func \<Rightarrow>
          if fn_words func \<noteq> [] \<and> fn_vram func < target \<and> target < func_vram_end func then Some True
          else contained_in_some ctx target rest)"

definition target_contained_in_function :: "recompiler_context \<Rightarrow> nat \<Rightarrow> u32 \<Rightarrow> bool option" where
  "target_contained_in_function ctx section_index target =
     (if section_index < length (section_functions ctx)
      then contained_in_some ctx target (section_functions ctx ! section_index) else Some False)"

definition can_create_static_branch :: "site \<Rightarrow> nat \<Rightarrow> u32 \<Rightarrow> bool \<Rightarrow> u32 list list \<Rightarrow> bool option" where
  "can_create_static_branch s k target within static_funcs_out =
     (case nth_opt (sections (s_ctx s)) k of
        None \<Rightarrow> Some False
      | Some section \<Rightarrow>
          if \<not> section_has_backing_rom (s_ctx s) k then Some False
          else if within \<or> static_entry_requested static_funcs_out k target then Some True
          else if \<not> sec_relocatable section then Some False
          else discover_static_code_entrypoint (tr_decode (s_tr s)) (s_ctx s) k target)"

definition unhandled_branch :: "site \<Rightarrow> u32 \<Rightarrow> emitter" where
  "unhandled_branch s target = chain [
     emit_delay_slot s True,
     indented (''    recomp_unhandled_branch(rdram, ctx, '' @ hex_u (s_vram s) @ '', '' @ hex_u target @ '');''),
     indent_line, indent_line,
     put_text (emit_return (s_ctx s))]"

definition branch_outside :: "site \<Rightarrow> u32 \<Rightarrow> jal_resolution \<Rightarrow> emitter" where
  "branch_outside s target r =
     demand (target_contained_in_function (s_ctx s) (static_section r (s_section_index s)) target) (\<lambda>within.
       case r of
         Match i \<Rightarrow> demand (nth_opt (ctx_functions (s_ctx s)) i) (\<lambda>f. emit_tailcall_by_function s (fn_name f) target)
       | CreateStatic k \<Rightarrow> with_state (\<lambda>st.
           demand (can_create_static_branch s k target within (static_funcs st)) (\<lambda>can_create.
             if can_create
             then chain [push_static k target, emit_tailcall_by_function s (static_name k target) target]
             else unhandled_branch s target))
       | Ambiguous \<Rightarrow> emit_tailcall_by_address s target
       | _ \<Rightarrow> unhandled_branch s target)"

definition loop_checkpoint :: "u32 \<Rightarrow> string" where
  "loop_checkpoint vram = ''RECOMP_LOOP_CHECKPOINT_VRAM('' @ hex_u vram @ '')''"

definition emit_branch_tree :: "site \<Rightarrow> u32 \<Rightarrow> emitter" where
  "emit_branch_tree s target =
     (if \<not> in_function (s_func s) target then
        demand (resolve_jal (s_ctx s) (s_section_index s) target) (branch_outside s target)
      else chain [
        emit_delay_slot s True,
        only_if (target \<le> s_vram s)
          (indented (''    '' @ loop_checkpoint (s_vram s))),
        put (Text ''        '' # goto_pieces (L_label target)),
        when_link (put (Text ''        '' # goto_pieces (after_label (s_link_index s))))])"

section \<open>The cases of the switch\<close>

text \<open>The write of the return address, which is also remembered as an entry of the section.\<close>

definition write_link :: "site \<Rightarrow> nat \<Rightarrow> emitter" where
  "write_link s reg =
     (let link_target = s_vram s + 8;
          section_start = unat (sec_ram_addr (s_section s));
          section_end = section_start + unat (sec_size (s_section s))
      in chain [
        indented (''ctx->r'' @ fmt_nat reg @ '' = '' @ hex_u link_target @ '';''),
        only_if (section_start \<le> unat link_target \<and> unat link_target < section_end)
          (push_static (s_section_index s) link_target)])"

definition reserved_cop0 :: "nat \<Rightarrow> bool" where
  "reserved_cop0 reg \<longleftrightarrow> 21 \<le> reg \<and> reg \<le> 25 \<or> reg = 31"

abbreviation "COP0_Status \<equiv> 12 :: nat"

definition translate_mfc0 :: "site \<Rightarrow> emitter" where
  "translate_mfc0 s =
     (let reg = in_cop0d (s_instr s); rt = in_rt (s_instr s) in
      if reg = COP0_Status then chain [indent_line, put_text (emit_cop0_status_read rt)]
      else if reserved_cop0 reg then
        indented (''ctx->r'' @ fmt_nat rt @ '' = recomp_unhandled_cop0_read(rdram, ctx, '' @ hex_u (s_vram s) @
          '', '' @ fmt_nat reg @ '');'')
      else indented (''ctx->r'' @ fmt_nat rt @ '' = (int32_t)ctx->cop0_regs['' @ fmt_nat reg @ ''];''))"

definition translate_mtc0 :: "site \<Rightarrow> emitter" where
  "translate_mtc0 s =
     (let reg = in_cop0d (s_instr s); rt = in_rt (s_instr s) in
      if reg = COP0_Status then chain [indent_line, put_text (emit_cop0_status_write rt)]
      else if reserved_cop0 reg then
        indented (''recomp_unhandled_cop0_write(rdram, ctx, '' @ hex_u (s_vram s) @ '', '' @ fmt_nat reg @
          '', ctx->r'' @ fmt_nat rt @ '');'')
      else indented (''ctx->cop0_regs['' @ fmt_nat reg @ ''] = (uint32_t)ctx->r'' @ fmt_nat rt @ '';''))"

definition translate_addu :: "site \<Rightarrow> emitter" where
  "translate_addu s =
     (case find (\<lambda>jtbl. jt_addu_vram jtbl = s_vram s) (tr_tables (s_tr s)) of
        None \<Rightarrow> skip
      | Some cur_jtbl \<Rightarrow> chain [
          indent_line,
          put_text (emit_jtbl_addend_declaration cur_jtbl (unat (jt_addend_reg cur_jtbl)))])"

definition translate_muldiv :: "site \<Rightarrow> emitter" where
  "translate_muldiv s = chain [
     indent_line,
     demand (emit_muldiv (in_id (s_instr s)) (in_rs (s_instr s)) (in_rt (s_instr s))) put_text]"

definition translate_jal :: "site \<Rightarrow> emitter" where
  "translate_jal s =
     (let branch_target = in_branch_vram (s_instr s) in chain [
        write_link s GPR_ra,
        (if in_function (s_func s) branch_target then emit_goto_with_slot s (L_label branch_target)
         else emit_call_by_address s branch_target)])"

definition translate_jalr :: "site \<Rightarrow> emitter" where
  "translate_jalr s =
     (let rd = in_rd (s_instr s); rs = in_rs (s_instr s) in
      if rd \<noteq> GPR_ra then chain [
        only_if (rd \<noteq> 0) (write_link s rd),
        emit_tailcall_by_register s rs]
      else chain [
        write_link s GPR_ra,
        set_needs_link True,
        emit_call_by_register s rs])"

definition translate_j :: "site \<Rightarrow> emitter" where
  "translate_j s =
     (let branch_target = in_branch_vram (s_instr s) in
      if branch_target = s_vram s then chain [indent_line, put_text emit_pause_self]
      else emit_branch_tree s branch_target)"

definition translate_switch :: "site \<Rightarrow> jump_table \<Rightarrow> emitter" where
  "translate_switch s cur_jtbl = chain [
     emit_delay_slot s False,
     indent_line,
     put_text (emit_switch cur_jtbl),
     put (concat (map (\<lambda>(entry_index, entry). Text ''        '' # case_pieces entry_index (L_label entry))
            (enumerate 0 (jt_entries cur_jtbl)))),
     indent_line, indent_line,
     put_text (emit_switch_error (s_vram s) (jt_vram cur_jtbl)),
     indent_line,
     put_text emit_switch_close]"

definition remember_fallthrough :: "site \<Rightarrow> emitter" where
  "remember_fallthrough s =
     (let fallthrough_target = s_vram s + 8;
          func = s_func s;
          fallthrough_index = unat ((fallthrough_target - fn_vram func) div 4)
      in only_if (fn_vram func < fallthrough_target \<and> fallthrough_target < func_vram_end func \<and>
           fallthrough_index < length (tr_instructions (s_tr s)) \<and>
           in_is_valid (tr_instructions (s_tr s) ! fallthrough_index))
         (push_static (s_section_index s) fallthrough_target))"

definition translate_jr :: "site \<Rightarrow> emitter" where
  "translate_jr s =
     (let rs = in_rs (s_instr s) in
      if rs = GPR_ra then emit_jr_ra_return s
      else case find (\<lambda>jtbl. jt_jr_vram jtbl = s_vram s) (tr_tables (s_tr s)) of
        Some cur_jtbl \<Rightarrow> translate_switch s cur_jtbl
      | None \<Rightarrow> chain [
          remember_fallthrough s,
          ignore_result (emit_tailcall_by_register s rs)])"

definition translate_syscall :: "site \<Rightarrow> emitter" where
  "translate_syscall s = chain [
     indent_line,
     put_text (emit_syscall (s_vram s)),
     indent_line,
     put_text (emit_return (s_ctx s))]"

definition translate_cop1_control :: "site \<Rightarrow> string \<Rightarrow> emitter" where
  "translate_cop1_control s access =
     (if in_cop1_cs (s_instr s) \<noteq> 31 then give_up else chain [indent_line, put_text access])"

text \<open>\<open>None\<close> is the default case: not handled by the switch.\<close>

definition special_case :: "site \<Rightarrow> instr_id \<Rightarrow> emitter option" where
  "special_case s instr_id =
     (case instr_id of
        Sys cpu_nop \<Rightarrow> Some (put_line '''')
      | Sys cpu_cache \<Rightarrow> Some (put_line '''')
      | Sys cpu_mfc0 \<Rightarrow> Some (translate_mfc0 s)
      | Sys cpu_mtc0 \<Rightarrow> Some (translate_mtc0 s)
      | Alu cpu_add \<Rightarrow> Some (translate_addu s)
      | Alu cpu_addu \<Rightarrow> Some (translate_addu s)
      | Sys cpu_syscall \<Rightarrow> Some (translate_syscall s)
      | Sys cpu_break \<Rightarrow> Some (chain [indent_line, put_text (emit_do_break (s_vram s))])
      | Sys cpu_ctc1 \<Rightarrow> Some (translate_cop1_control s (emit_cop1_cs_write (in_rt (s_instr s))))
      | Sys cpu_cfc1 \<Rightarrow> Some (translate_cop1_control s (emit_cop1_cs_read (in_rt (s_instr s))))
      | Sys _ \<Rightarrow> Some (translate_muldiv s)
      | Jump cpu_jal \<Rightarrow> Some (translate_jal s)
      | Jump cpu_jalr \<Rightarrow> Some (translate_jalr s)
      | Jump cpu_j \<Rightarrow> Some (translate_j s)
      | Jump cpu_b \<Rightarrow> Some (translate_j s)
      | Jump cpu_jr \<Rightarrow> Some (translate_jr s)
      | _ \<Rightarrow> None)"

section \<open>The tables\<close>

definition instruction_context_of :: "site \<Rightarrow> instruction_context" where
  "instruction_context_of s =
     (let i = s_instr s; use = s_reloc s in
      \<lparr>ic_rd = in_rd i, ic_rs = in_rs i, ic_rt = in_rt i, ic_sa = in_sa i,
       ic_fd = in_fd i, ic_fs = in_fs i, ic_ft = in_ft i, ic_cop1_cs = in_cop1_cs i, ic_imm16 = in_imm i,
       ic_reloc_tag_as_reference = (ru_symbol use \<noteq> None \<and> tr_tag_reference (s_tr s)),
       ic_reloc_type = ru_type use,
       ic_reloc_section_index = ru_section use,
       ic_reloc_target_section_offset = ru_offset use\<rparr>)"

definition do_check_fr :: "instruction_context \<Rightarrow> operand \<Rightarrow> string" where
  "do_check_fr ctx opnd =
     (if opnd \<in> {O_Fd, O_FdDouble, O_FdU32L, O_FdU32H, O_FdU64} then emit_check_fr (ic_fd ctx)
      else if opnd \<in> {O_Fs, O_FsDouble, O_FsU32L, O_FsU32H, O_FsU64} then emit_check_fr (ic_fs ctx)
      else if opnd \<in> {O_Ft, O_FtDouble, O_FtU32L, O_FtU32H, O_FtU64} then emit_check_fr (ic_ft ctx)
      else '''')"

definition do_check_nan :: "instruction_context \<Rightarrow> operand \<Rightarrow> string" where
  "do_check_nan ctx opnd =
     (case opnd of
        O_Fd \<Rightarrow> emit_check_nan (ic_fd ctx) False
      | O_Fs \<Rightarrow> emit_check_nan (ic_fs ctx) False
      | O_Ft \<Rightarrow> emit_check_nan (ic_ft ctx) False
      | O_FdDouble \<Rightarrow> emit_check_nan (ic_fd ctx) True
      | O_FsDouble \<Rightarrow> emit_check_nan (ic_fs ctx) True
      | O_FtDouble \<Rightarrow> emit_check_nan (ic_ft ctx) True
      | _ \<Rightarrow> '''')"

definition translate_binary :: "site \<Rightarrow> binary_op \<Rightarrow> emitter" where
  "translate_binary s op =
     (let ctx = instruction_context_of s; a = operand0 (bin_operands op); b = operand1 (bin_operands op) in
      chain [
        indent_line,
        only_if (bin_check_fr op)
          (put_text (do_check_fr ctx (bin_output op) @ do_check_fr ctx a @ do_check_fr ctx b)),
        only_if (bin_check_nan op)
          (chain [put_text (do_check_nan ctx a @ do_check_nan ctx b), put_line '''', indent_line]),
        demand (process_binary_op op ctx) put_text])"

definition translate_unary :: "site \<Rightarrow> unary_op \<Rightarrow> emitter" where
  "translate_unary s op =
     (let ctx = instruction_context_of s in
      chain [
        indent_line,
        only_if (uno_check_fr op) (put_text (do_check_fr ctx (uno_output op) @ do_check_fr ctx (uno_input op))),
        only_if (uno_check_nan op) (chain [put_text (do_check_nan ctx (uno_input op)), put_line '''', indent_line]),
        demand (process_unary_op op ctx) put_text])"

definition translate_branch :: "site \<Rightarrow> conditional_branch_op \<Rightarrow> emitter" where
  "translate_branch s op =
     (let branch_target = in_branch_vram (s_instr s) in
      chain [
        only_if (cbr_link op) (write_link s GPR_ra),
        indent_line,
        demand (emit_branch_condition op (instruction_context_of s)) put_text,
        indent_line,
        (if \<not> cbr_link op \<or> in_function (s_func s) branch_target then emit_branch_tree s branch_target
         else emit_call_by_address s branch_target),
        indent_line,
        put_text emit_branch_close,
        set_branch_likely (cbr_likely op)])"

definition translate_store :: "site \<Rightarrow> store_op \<Rightarrow> emitter" where
  "translate_store s op =
     (let ctx = instruction_context_of s in
      chain [
        indent_line,
        only_if (sto_type op = S_SDC1) (put_text (do_check_fr ctx (sto_value_input op))),
        demand (process_store_op op ctx) put_text])"

definition table_case :: "('a \<Rightarrow> emitter) \<Rightarrow> 'a option \<Rightarrow> emitter" where
  "table_case f op = (case op of None \<Rightarrow> skip | Some x \<Rightarrow> f x)"

definition is_handled :: "instr_id \<Rightarrow> site \<Rightarrow> bool" where
  "is_handled instr_id s \<longleftrightarrow>
     special_case s instr_id \<noteq> None \<or> binary_ops instr_id \<noteq> None \<or> unary_ops instr_id \<noteq> None \<or>
     conditional_branch_ops instr_id \<noteq> None \<or> store_ops instr_id \<noteq> None"

definition unhandled_instruction :: "site \<Rightarrow> emitter" where
  "unhandled_instruction s =
     indented (''recomp_unhandled_instruction(rdram, ctx, '' @ hex_u (s_vram s) @ '', '' @ [CHR 0x22] @
       in_opcode_name (s_instr s) @ [CHR 0x22] @ '');'')"

text \<open>From the second indentation to the end of \<open>process_instruction\<close>; \<open>instr_id\<close> is the id after the rewriting
  of table loads.\<close>

definition translate_site :: "site \<Rightarrow> instr_id \<Rightarrow> bool \<Rightarrow> bool \<Rightarrow> emitter" where
  "translate_site s instr_id indent emit_link_branch = chain [
     only_if indent indent_line,
     table_case (\<lambda>f. f) (special_case s instr_id),
     table_case (translate_binary s) (binary_ops instr_id),
     table_case (translate_unary s) (unary_ops instr_id),
     table_case (translate_branch s) (conditional_branch_ops instr_id),
     table_case (translate_store s) (store_ops instr_id),
     only_if (\<not> is_handled instr_id s) (unhandled_instruction s),
     only_if emit_link_branch (put (Text ''    '' # label_pieces (after_label (s_link_index s))))]"

section \<open>One instruction\<close>

definition emit_hook :: "translation \<Rightarrow> int \<Rightarrow> bool \<Rightarrow> emitter" where
  "emit_hook tr index indent =
     (case fn_function_hooks (tr_func tr) index of
        None \<Rightarrow> skip
      | Some hook_text \<Rightarrow> chain [indented hook_text, only_if indent indent_line])"

definition instruction_comment :: "instruction \<Rightarrow> string" where
  "instruction_comment instr =
     emit_comment (''0x'' @ fmt_08X (in_vram instr) @ '': '' @
       in_disassemble instr
         (if in_is_branch instr \<or> in_id instr = Jump cpu_j then Some (L_label (in_branch_vram instr))
          else if in_id instr = Jump cpu_jal then Some (''0x'' @ fmt_08X (in_branch_vram instr))
          else None))"

text \<open>A load that reads a jump table entry becomes an \<open>addiu\<close>; the assertion is that it is a \<open>lw\<close>.\<close>

definition effective_id :: "translation \<Rightarrow> instruction \<Rightarrow> instr_id option" where
  "effective_id tr instr =
     (if in_vram instr \<in> set (tr_jtbl_lw tr)
      then (if in_id instr = Mem cpu_lw then Some (Alu cpu_addiu) else None)
      else Some (in_id instr))"

primrec process_from ::
    "instruction list \<Rightarrow> translation \<Rightarrow> nat \<Rightarrow> bool \<Rightarrow> bool \<Rightarrow> nat \<Rightarrow> nat \<Rightarrow> emitter" where
  "process_from [] tr instr_index indent emit_link_branch link_branch_index reloc_index = crash"
| "process_from (instr # rest) tr instr_index indent emit_link_branch link_branch_index reloc_index =
     demand (nth_opt (sections (tr_ctx tr)) (unat (fn_section_index (tr_func tr)))) (\<lambda>section.
     chain [
       set_needs_link False,
       set_branch_likely False,
       emit_hook tr (int instr_index) indent,
       indent_line,
       put_text (instruction_comment instr),
       demand (effective_id tr instr) (\<lambda>instr_id.
       demand (find_reloc (tr_ctx tr) section reloc_index (in_vram instr)) (\<lambda>use.
         translate_site
           \<lparr>s_tr = tr, s_section = section, s_index = instr_index, s_instr = instr,
            s_reloc_index = reloc_index, s_reloc = use, s_link_index = link_branch_index,
            s_next = (\<lambda>use_indent next_reloc.
              process_from rest tr (instr_index + 1) use_indent False link_branch_index next_reloc)\<rparr>
           instr_id indent emit_link_branch))])"

definition process_instruction :: "translation \<Rightarrow> nat \<Rightarrow> bool \<Rightarrow> bool \<Rightarrow> nat \<Rightarrow> nat \<Rightarrow> emitter" where
  "process_instruction tr instr_index = process_from (drop instr_index (tr_instructions tr)) tr instr_index"

end
