(* ===== verification/Function_Translation.thy ===== *)
theory Function_Translation
  imports Recompilation
begin

text \<open>
  \<open>recompile_function\<close> of \<open>src/recompilation.cpp\<close>: the labels of a function, the walk over its instructions, and
  the entry point that prints nothing when the translation fails.
\<close>

text \<open>A \<open>std::set\<close> of addresses with the given elements.\<close>

definition address_set :: "u32 list \<Rightarrow> u32 list" where
  "address_set vs = sort (remdups vs)"

lemma set_address_set [simp]: "set (address_set vs) = set vs"
  by (simp add: address_set_def)

lemma sorted_address_set [simp]: "sorted (address_set vs)" "distinct (address_set vs)"
  by (simp_all add: address_set_def)

section \<open>The labels of a function\<close>

definition dispatch_labels :: "recomp_function \<Rightarrow> u32 list" where
  "dispatch_labels func =
     filter (\<lambda>v. fn_vram func < v \<and> v < func_vram_end func) (fn_dispatch_entry_vrams func)"

definition has_other_entry :: "recomp_function \<Rightarrow> bool" where
  "has_other_entry func \<longleftrightarrow> fn_entry_vram func \<noteq> 0 \<and> fn_entry_vram func \<noteq> fn_vram func"

text \<open>The words decoded one after another, each with its address.\<close>

primrec decode_words :: "decoder \<Rightarrow> u32 \<Rightarrow> u32 list \<Rightarrow> instruction list" where
  "decode_words decode vram [] = []"
| "decode_words decode vram (w # ws) = decode (byteswap w) vram # decode_words decode (vram + 4) ws"

definition is_linking :: "instruction \<Rightarrow> bool" where
  "is_linking instr \<longleftrightarrow>
     (case conditional_branch_ops (in_id instr) of Some op \<Rightarrow> cbr_link op | None \<Rightarrow> False) \<or> in_id instr = Jump cpu_jal"

definition instruction_labels :: "recomp_function \<Rightarrow> u32 \<Rightarrow> instruction \<Rightarrow> u32 list" where
  "instruction_labels func vram instr =
     (let target = in_branch_vram instr;
          return_label = (if in_function func (vram + 8) then [vram + 8] else [])
      in (if in_is_branch instr \<or> in_id instr = Jump cpu_j then [target] else []) @
         (if is_linking instr then (if in_function func target then [target] else []) @ return_label
          else if in_id instr = Jump cpu_jalr \<and> in_rd instr = GPR_ra then return_label else []))"

primrec all_instruction_labels :: "recomp_function \<Rightarrow> u32 \<Rightarrow> instruction list \<Rightarrow> u32 list" where
  "all_instruction_labels func vram [] = []"
| "all_instruction_labels func vram (i # is) =
     instruction_labels func vram i @ all_instruction_labels func (vram + 4) is"

definition starts_with :: "string \<Rightarrow> string \<Rightarrow> bool" where
  "starts_with prefix s \<longleftrightarrow> take (length prefix) s = prefix"

text \<open>The entries of the section that fall into the function; more than 256 of them count as none.\<close>

definition static_local_labels :: "recomp_function \<Rightarrow> u32 list list \<Rightarrow> u32 list" where
  "static_local_labels func static_funcs_out =
     (if unat (fn_section_index func) < length static_funcs_out \<and>
         \<not> starts_with ''static_'' (fn_name func) \<and>
         length (fn_words func) * 4 \<le> 0x2000
      then (let vs = remdups (filter (\<lambda>v. fn_vram func < v \<and> v < func_vram_end func)
                        (static_funcs_out ! unat (fn_section_index func)))
            in if length vs > 256 then [] else vs)
      else [])"

definition all_labels :: "recomp_function \<Rightarrow> instruction list \<Rightarrow> jump_table list \<Rightarrow> u32 list list \<Rightarrow> u32 list" where
  "all_labels func instrs tables static_funcs_out =
     dispatch_labels func @ (if has_other_entry func then [fn_entry_vram func] else []) @
     all_instruction_labels func (fn_vram func) instrs @
     concat (map jt_entries tables) @ static_local_labels func static_funcs_out"

definition branch_labels_of ::
    "recomp_function \<Rightarrow> instruction list \<Rightarrow> jump_table list \<Rightarrow> u32 list list \<Rightarrow> u32 list" where
  "branch_labels_of func instrs tables static_funcs_out =
     filter (\<lambda>l. in_function func l \<and> l \<noteq> fn_vram func)
       (address_set (all_labels func instrs tables static_funcs_out))"

definition local_tailcall_labels_of :: "recomp_function \<Rightarrow> u32 list list \<Rightarrow> u32 list" where
  "local_tailcall_labels_of func static_funcs_out =
     filter (in_function func) (address_set (static_local_labels func static_funcs_out))"

section \<open>The walk over the instructions\<close>

function advance_reloc :: "reloc list \<Rightarrow> u32 \<Rightarrow> nat \<Rightarrow> nat" where
  "advance_reloc relocs vram reloc_index =
     (if reloc_index + 1 < length relocs \<and> rel_address (relocs ! reloc_index) < vram
      then advance_reloc relocs vram (reloc_index + 1) else reloc_index)"
  by auto
termination by (relation "measure (\<lambda>(relocs, vram, i). length relocs - i)") auto

declare advance_reloc.simps [simp del]

definition skip_label :: "nat \<Rightarrow> string" where
  "skip_label n = ''skip_'' @ fmt_nat n"

record loop_state =
  lp_vram :: u32
  lp_labels :: "u32 list"
  lp_num_link :: nat
  lp_num_likely :: nat
  lp_in_likely :: bool
  lp_reloc_index :: nat

definition at_label :: "loop_state \<Rightarrow> bool" where
  "at_label lp \<longleftrightarrow> lp_labels lp \<noteq> [] \<and> hd (lp_labels lp) \<le> lp_vram lp"

definition next_loop_state :: "reloc list \<Rightarrow> bool \<Rightarrow> bool \<Rightarrow> loop_state \<Rightarrow> loop_state" where
  "next_loop_state relocs had_link branch_likely lp =
     \<lparr>lp_vram = lp_vram lp + 4,
      lp_labels = (if at_label lp then tl (lp_labels lp) else lp_labels lp),
      lp_num_link = (if had_link then lp_num_link lp + 1 else lp_num_link lp),
      lp_num_likely = (if lp_in_likely lp then lp_num_likely lp + 1 else lp_num_likely lp),
      lp_in_likely = branch_likely,
      lp_reloc_index = advance_reloc relocs (lp_vram lp) (lp_reloc_index lp)\<rparr>"

definition loop_body :: "translation \<Rightarrow> reloc list \<Rightarrow> nat \<Rightarrow> loop_state \<Rightarrow> bool \<Rightarrow> emitter" where
  "loop_body tr relocs instr_index lp had_link = chain [
     only_if (lp_in_likely lp) (put (goto_pieces (skip_label (lp_num_likely lp)))),
     only_if (at_label lp) (put (label_pieces (L_label (hd (lp_labels lp))))),
     process_instruction tr instr_index False had_link (lp_num_link lp)
       (advance_reloc relocs (lp_vram lp) (lp_reloc_index lp)),
     only_if (lp_in_likely lp) (put (Text ''    '' # label_pieces (skip_label (lp_num_likely lp))))]"

text \<open>The instructions from \<open>instr_index\<close> on; the first argument counts them.\<close>

primrec translate_loop :: "nat \<Rightarrow> translation \<Rightarrow> reloc list \<Rightarrow> nat \<Rightarrow> loop_state \<Rightarrow> emitter" where
  "translate_loop 0 tr relocs instr_index lp = skip"
| "translate_loop (Suc n) tr relocs instr_index lp =
     with_state (\<lambda>before. chain [
       loop_body tr relocs instr_index lp (needs_link_branch before),
       with_state (\<lambda>after.
         translate_loop n tr relocs (instr_index + 1)
           (next_loop_state relocs (needs_link_branch before) (is_branch_likely after) lp))])"

definition translate_instructions :: "translation \<Rightarrow> emitter" where
  "translate_instructions tr =
     demand (nth_opt (sections (tr_ctx tr)) (unat (fn_section_index (tr_func tr)))) (\<lambda>section.
       translate_loop (length (tr_instructions tr)) tr (sec_relocs section) 0
         \<lparr>lp_vram = fn_vram (tr_func tr), lp_labels = tr_branch_labels tr, lp_num_link = 0,
          lp_num_likely = 0, lp_in_likely = False, lp_reloc_index = 0\<rparr>)"

section \<open>The function\<close>

definition dispatch_switch :: "recomp_function \<Rightarrow> emitter" where
  "dispatch_switch func =
     only_if (fn_dispatch_entry_vrams func \<noteq> []) (put (
       [Text (print_lines [
          ''    if (ctx->dispatch_entry_target != 0) {'',
          ''        uint32_t recomp_dispatch_entry = ctx->dispatch_entry_target;'',
          ''        ctx->dispatch_entry_target = 0;'',
          ''        switch (recomp_dispatch_entry) {''])] @
       concat (map (dispatch_case_pieces ''        '') (dispatch_labels func)) @
       [Text (print_lines [
          ''        default:'',
          ''            ctx->dispatch_entry_rejected = 1;'',
          ''            ctx->dispatch_entry_rejected_target = recomp_dispatch_entry;'',
          ''            return;'',
          ''        }'',
          ''    }''])]))"

definition entry_goto :: "recomp_function \<Rightarrow> emitter" where
  "entry_goto func = only_if (has_other_entry func) (put (goto_pieces (L_label (fn_entry_vram func))))"

definition emit_fallthrough :: "recompiler_context \<Rightarrow> nat \<Rightarrow> recomp_function \<Rightarrow> emitter" where
  "emit_fallthrough ctx func_index func =
     (let fallthrough_vram = func_vram_end func;
          trace = (\<lambda>indent. only_if (trace_mode ctx) (indented (indent @ ''TRACE_RETURN()'')))
      in demand (find_callable_function_in_section ctx fallthrough_vram (unat (fn_section_index func))) (\<lambda>found.
         case found of
           None \<Rightarrow> skip
         | Some i \<Rightarrow> demand (nth_opt (ctx_functions ctx) i) (\<lambda>target.
             only_if (i \<noteq> func_index) (chain [
               indented (''if ('' @ hex_u fallthrough_vram @ '' == ctx->host_return_target) {''),
               trace ''    '',
               indented ''    return;'',
               indented ''}'',
               indented (if fn_words target \<noteq> []
                 then ''recomp_request_tailcall_func_target(ctx, '' @ fn_name target @ '', '' @ hex_u fallthrough_vram @ '');''
                 else ''recomp_request_tailcall(ctx, (gpr)(int32_t)'' @ hex_u fallthrough_vram @ '');''),
               trace '''',
               indented ''return;'']))))"

definition translation_of ::
    "decoder \<Rightarrow> recompiler_context \<Rightarrow> nat \<Rightarrow> bool \<Rightarrow> jump_table list \<Rightarrow> u32 list list \<Rightarrow> translation" where
  "translation_of decode ctx func_index tag_reference_relocs tables static_funcs_out =
     (let func = ctx_functions ctx ! func_index;
          instrs = decode_words decode (fn_vram func) (fn_words func)
      in \<lparr>tr_ctx = ctx, tr_func = func, tr_func_index = func_index, tr_tables = tables,
          tr_jtbl_lw = map jt_lw_vram tables,
          tr_branch_labels = branch_labels_of func instrs tables static_funcs_out,
          tr_local_labels = local_tailcall_labels_of func static_funcs_out,
          tr_instructions = instrs,
          tr_tag_reference = tag_reference_relocs, tr_decode = decode\<rparr>)"

definition function_body :: "decoder \<Rightarrow> recompiler_context \<Rightarrow> nat \<Rightarrow> recomp_function \<Rightarrow> bool \<Rightarrow> emitter" where
  "function_body decode ctx func_index func tag_reference_relocs = chain [
     dispatch_switch func,
     entry_goto func,
     (case fn_function_hooks func (- 1) of None \<Rightarrow> skip | Some hook_text \<Rightarrow> indented hook_text),
     put (label_pieces (L_label (fn_vram func))),
     (let instrs = decode_words decode (fn_vram func) (fn_words func) in
      case analyze_function ctx func instrs of
        Undef \<Rightarrow> crash
      | Fail \<Rightarrow> give_up
      | Done tables \<Rightarrow> chain [
          with_state (\<lambda>st. translate_instructions
            (translation_of decode ctx func_index tag_reference_relocs tables (static_funcs st))),
          only_if (function_end_allows_fallthrough instrs) (emit_fallthrough ctx func_index func)])]"

definition recompile_function_impl :: "decoder \<Rightarrow> recompiler_context \<Rightarrow> nat \<Rightarrow> bool \<Rightarrow> emitter" where
  "recompile_function_impl decode ctx func_index tag_reference_relocs =
     demand (nth_opt (ctx_functions ctx) func_index) (\<lambda>func. chain [
       put_text (emit_function_start (fn_name func)),
       only_if (trace_mode ctx) (indented ''TRACE_ENTRY()''),
       only_if (\<not> fn_stubbed func) (function_body decode ctx func_index func tag_reference_relocs),
       put_text emit_function_end])"

text \<open>The public entry point: whether it succeeded, what it adds to the output file, and the static functions
  requested so far. Those stay requested when the translation fails.\<close>

definition start_emitting :: "u32 list list \<Rightarrow> emit_state" where
  "start_emitting static_funcs_out =
     \<lparr>out = [], static_funcs = static_funcs_out, needs_link_branch = False, is_branch_likely = False\<rparr>"

definition recompile_function ::
    "decoder \<Rightarrow> recompiler_context \<Rightarrow> nat \<Rightarrow> u32 list list \<Rightarrow> bool \<Rightarrow> (bool \<times> string \<times> u32 list list) option" where
  "recompile_function decode ctx func_index static_funcs_out tag_reference_relocs =
     map_option (\<lambda>(ok, st). (ok, if ok then render (out st) else '''', static_funcs st))
       (recompile_function_impl decode ctx func_index tag_reference_relocs (start_emitting static_funcs_out))"

end
