(* ===== verification/Statement_Rules.thy ===== *)
theory Statement_Rules
  imports Function_Translation
begin

text \<open>
  Rules for the statements of the translator. A reflexive and transitive relation between the states before and
  after a statement holds of a composed statement when it holds of its parts; the theorems about emitted code
  instantiate the relation.
\<close>

section \<open>Statements and relations\<close>

definition obeys :: "(emit_state \<Rightarrow> emit_state \<Rightarrow> bool) \<Rightarrow> emitter \<Rightarrow> bool" where
  "obeys R f \<longleftrightarrow> (\<forall>st ok st'. f st = Some (ok, st') \<longrightarrow> R st st')"

lemma obeysI: "(\<And>st ok st'. f st = Some (ok, st') \<Longrightarrow> R st st') \<Longrightarrow> obeys R f"
  by (simp add: obeys_def)

lemma obeysD: "obeys R f \<Longrightarrow> f st = Some (ok, st') \<Longrightarrow> R st st'"
  by (simp add: obeys_def)

lemma obeys_mono: "obeys R f \<Longrightarrow> (\<And>st st'. R st st' \<Longrightarrow> R' st st') \<Longrightarrow> obeys R' f"
  unfolding obeys_def by blast

locale statement_relation =
  fixes R :: "emit_state \<Rightarrow> emit_state \<Rightarrow> bool"
  assumes refl: "R st st"
    and trans: "R st1 st2 \<Longrightarrow> R st2 st3 \<Longrightarrow> R st1 st3"
begin

lemma obeys_skip: "obeys R skip"
  by (simp add: obeys_def skip_def refl)

lemma obeys_give_up: "obeys R give_up"
  by (simp add: obeys_def give_up_def refl)

lemma obeys_crash: "obeys R crash"
  by (simp add: obeys_def crash_def)

lemma obeys_chain: "(\<And>f. f \<in> set fs \<Longrightarrow> obeys R f) \<Longrightarrow> obeys R (chain fs)"
proof (induction fs)
  case Nil
  show ?case by (simp add: obeys_def refl)
next
  case (Cons f fs)
  have f: "obeys R f" and fs: "obeys R (chain fs)" using Cons by auto
  show ?case
  proof (rule obeysI)
    fix st ok st' assume "chain (f # fs) st = Some (ok, st')"
    then obtain ok1 st1 where 1: "f st = Some (ok1, st1)"
      and 2: "(if ok1 then chain fs st1 else Some (False, st1)) = Some (ok, st')"
      by (auto split: option.splits)
    show "R st st'"
    proof (cases ok1)
      case True
      with 2 have "chain fs st1 = Some (ok, st')" by simp
      then show ?thesis by (rule trans [OF obeysD [OF f 1] obeysD [OF fs]])
    next
      case False
      with 2 have "st' = st1" by simp
      then show ?thesis using obeysD [OF f 1] by simp
    qed
  qed
qed

lemma obeys_only_if: "(b \<Longrightarrow> obeys R f) \<Longrightarrow> obeys R (only_if b f)"
  by (simp add: only_if_def obeys_skip)

lemma obeys_demand: "(\<And>y. x = Some y \<Longrightarrow> obeys R (f y)) \<Longrightarrow> obeys R (demand x f)"
  by (auto simp: demand_def obeys_crash split: option.split)

lemma obeys_ignore_result: "obeys R f \<Longrightarrow> obeys R (ignore_result f)"
  by (auto simp: obeys_def ignore_result_def split: option.splits)

lemma obeys_with_state: "(\<And>st. obeys R (f st)) \<Longrightarrow> obeys R (with_state f)"
  by (auto simp: obeys_def with_state_def)

lemma obeys_table_case: "(\<And>x. op = Some x \<Longrightarrow> obeys R (f x)) \<Longrightarrow> obeys R (table_case f op)"
  by (auto simp: table_case_def obeys_skip split: option.split)

lemmas obeys_rules = obeys_skip obeys_give_up obeys_crash obeys_chain obeys_only_if obeys_demand
  obeys_ignore_result obeys_with_state obeys_table_case

end

section \<open>Statements that always succeed\<close>

definition always_ok :: "emitter \<Rightarrow> bool" where
  "always_ok f \<longleftrightarrow> (\<forall>st. \<exists>st'. f st = Some (True, st'))"

lemma always_basic [simp]: "always_ok (put ps)" "always_ok skip" "always_ok (set_needs_link b)"
  "always_ok (set_branch_likely b)"
  by (simp_all add: always_ok_def put_def skip_def set_needs_link_def set_branch_likely_def)

lemma always_text [simp]: "always_ok (put_text s)" "always_ok (put_line s)" "always_ok indent_line" "always_ok (indented s)"
  by (simp_all add: put_text_def put_line_def indent_line_def indented_def)

lemma always_only_if [simp]: "(b \<Longrightarrow> always_ok f) \<Longrightarrow> always_ok (only_if b f)"
  by (simp add: only_if_def)

lemma always_chain: "(\<And>f. f \<in> set fs \<Longrightarrow> always_ok f) \<Longrightarrow> always_ok (chain fs)"
proof (induction fs)
  case (Cons f fs)
  then have "always_ok f" "always_ok (chain fs)" by auto
  show ?case unfolding always_ok_def
  proof
    fix st
    from \<open>always_ok f\<close> obtain st1 where 1: "f st = Some (True, st1)" unfolding always_ok_def by blast
    from \<open>always_ok (chain fs)\<close> obtain st2 where "chain fs st1 = Some (True, st2)" unfolding always_ok_def by blast
    with 1 have "chain (f # fs) st = Some (True, st2)" by simp
    then show "\<exists>st'. chain (f # fs) st = Some (True, st')" ..
  qed
qed (simp add: always_ok_def)

lemma chain_append: "chain fs st = Some (True, st1) \<Longrightarrow> chain (fs @ gs) st = chain gs st1"
  by (induction fs arbitrary: st) (auto split: option.splits if_splits)

section \<open>Statements that emit no jump\<close>

text \<open>The state after a statement without jumps: more text, the same link flag.\<close>

definition quiet :: "emit_state \<Rightarrow> emit_state \<Rightarrow> bool" where
  "quiet st st' \<longleftrightarrow>
     needs_link_branch st' = needs_link_branch st \<and> (\<exists>ps. out st' = out st @ ps \<and> gotos ps = [])"

interpretation quiet: statement_relation quiet
proof
  show "quiet st st" for st by (simp add: quiet_def)
next
  fix a b c assume "quiet a b" and "quiet b c"
  then show "quiet a c" unfolding quiet_def by (metis append.assoc append.right_neutral gotos_simps(3))
qed

lemma quiet_put [intro]: "gotos ps = [] \<Longrightarrow> obeys quiet (put ps)"
  by (auto simp: obeys_def put_def quiet_def)

lemma quiet_put_text [intro, simp]: "obeys quiet (put_text s)"
  by (auto simp: put_text_def)

lemma quiet_put_line [intro, simp]: "obeys quiet (put_line s)"
  by (auto simp: put_line_def text_line_def)

lemma quiet_indent_line [intro, simp]: "obeys quiet indent_line"
  by (auto simp: indent_line_def)

lemma quiet_indented [intro, simp]: "obeys quiet (indented s)"
  by (auto simp: indented_def)

lemma quiet_set_likely [intro, simp]: "obeys quiet (set_branch_likely b)"
  by (auto simp: obeys_def set_branch_likely_def quiet_def)

lemma quiet_push_static [intro, simp]: "obeys quiet (push_static k v)"
  by (auto simp: obeys_def push_static_def quiet_def split: if_splits)

section \<open>Statements that emit known jumps\<close>

text \<open>
  The jumps added go to labels of \<open>G\<close>, or to the link label \<open>a\<close> when the link flag is set in the end; the flag
  is never taken back.
\<close>

definition jumps :: "string set \<Rightarrow> string \<Rightarrow> emit_state \<Rightarrow> emit_state \<Rightarrow> bool" where
  "jumps G a st st' \<longleftrightarrow>
     (needs_link_branch st \<longrightarrow> needs_link_branch st') \<and>
     (\<exists>ps. out st' = out st @ ps \<and> set (gotos ps) \<subseteq> G \<union> (if needs_link_branch st' then {a} else {}))"

interpretation jumps: statement_relation "jumps G a" for G a
proof
  show "jumps G a st st" for st by (simp add: jumps_def)
next
  fix x y z assume xy: "jumps G a x y" and yz: "jumps G a y z"
  from xy obtain ps where 1: "out y = out x @ ps" "set (gotos ps) \<subseteq> G \<union> (if needs_link_branch y then {a} else {})"
    unfolding jumps_def by blast
  from yz obtain qs where 2: "out z = out y @ qs" "set (gotos qs) \<subseteq> G \<union> (if needs_link_branch z then {a} else {})"
    unfolding jumps_def by blast
  have mono: "needs_link_branch y \<longrightarrow> needs_link_branch z" "needs_link_branch x \<longrightarrow> needs_link_branch y"
    using xy yz by (simp_all add: jumps_def)
  have "out z = out x @ (ps @ qs)" using 1 2 by simp
  moreover have "set (gotos (ps @ qs)) \<subseteq> G \<union> (if needs_link_branch z then {a} else {})"
    using 1(2) 2(2) mono by (auto split: if_splits)
  ultimately show "jumps G a x z" unfolding jumps_def using mono by blast
qed

lemma quiet_jumps: "quiet st st' \<Longrightarrow> jumps G a st st'"
  unfolding quiet_def jumps_def by (metis empty_set empty_subsetI)

lemma jumps_quiet: "obeys quiet f \<Longrightarrow> obeys (jumps G a) f"
  by (rule obeys_mono, assumption, rule quiet_jumps)

lemma jumps_put: "set (gotos ps) \<subseteq> G \<Longrightarrow> obeys (jumps G a) (put ps)"
  by (auto simp: obeys_def put_def jumps_def)

lemma jumps_set_needs_link: "obeys (jumps G a) (set_needs_link True)"
  by (auto simp: obeys_def set_needs_link_def jumps_def)

lemma jumps_when_link: "set (gotos ps) \<subseteq> {a} \<Longrightarrow> obeys (jumps G a) (when_link (put ps))"
  by (auto simp: obeys_def put_def jumps_def when_link_def split: if_splits)

section \<open>Jumps of the generator\<close>

lemma gotos_text_line [simp]: "gotos (text_line s) = []"
  by (simp add: text_line_def)

lemma gotos_pieces [simp]: "gotos (goto_pieces l) = [l]" "gotos (label_pieces l) = []"
  "gotos (case_pieces i l) = [l]" "gotos (dispatch_case_pieces ind v) = [L_label v]"
  "gotos (resume_pieces ind tag v) = [L_label v]"
  by (simp_all add: goto_pieces_def label_pieces_def case_pieces_def dispatch_case_pieces_def resume_pieces_def)

lemma gotos_frame:
  "set (gotos (frame_pieces call ls r)) = L_label ` (set ls \<union> (if r = 0 then {} else {r}))"
  by (auto simp: frame_pieces_def tailcall_pieces_def o_def)

end
