(* ===== verification/Jump_Targets.thy ===== *)
theory Jump_Targets
  imports Statement_Rules
begin

text \<open>The jumps of one instruction: those of each statement of the translator go to labels of the function or to the
  return label of the call; instructions other than jumps and branches emit none.\<close>

section \<open>Jumps of an instruction\<close>

lemma find_in_set: "find P xs = Some x \<Longrightarrow> x \<in> set xs"
  by (auto simp: find_Some_iff)

definition site_ok :: "string set \<Rightarrow> site \<Rightarrow> bool" where
  "site_ok G s \<longleftrightarrow>
     (\<forall>use_indent r. obeys (jumps G (after_label (s_link_index s))) (keep_flags (s_next s use_indent r))) \<and>
     L_label ` set (tr_branch_labels (s_tr s)) \<subseteq> G \<and>
     L_label ` set (tr_local_labels (s_tr s)) \<subseteq> G \<and>
     (\<forall>t\<in>set (tr_tables (s_tr s)). L_label ` set (jt_entries t) \<subseteq> G)"

abbreviation site_jumps :: "string set \<Rightarrow> site \<Rightarrow> emitter \<Rightarrow> bool" where
  "site_jumps G s f \<equiv> obeys (jumps G (after_label (s_link_index s))) f"

lemma jumps_quiet_simps [simp]:
  "obeys (jumps G a) (put_text x)" "obeys (jumps G a) (put_line x)" "obeys (jumps G a) indent_line"
  "obeys (jumps G a) (indented x)" "obeys (jumps G a) (set_branch_likely b)"
  "obeys (jumps G a) (push_static k v)" "obeys (jumps G a) (set_needs_link True)"
  "obeys (jumps G a) skip" "obeys (jumps G a) give_up" "obeys (jumps G a) crash"
  "obeys (jumps G a) (trace_return s x)"
  by (auto intro!: jumps_quiet quiet.obeys_rules jumps_set_needs_link jumps.obeys_rules
      simp: trace_return_def only_if_def)

lemma delay_slot_jumps: "site_ok G s \<Longrightarrow> site_jumps G s (emit_delay_slot s u)"
  by (auto simp: emit_delay_slot_def site_ok_def)

lemma link_continuation_jumps: "site_jumps G s (emit_link_continuation s)"
  unfolding emit_link_continuation_def by (rule jumps_when_link) simp

lemma frame_jumps:
  assumes "site_ok G s"
  shows "site_jumps G s (frame_of s call)"
  unfolding frame_of_def
proof (rule jumps_put)
  have "set (get_local_tailcall_labels s) \<subseteq> set (tr_local_labels (s_tr s))"
    by (auto simp: get_local_tailcall_labels_def)
  moreover have "get_call_return_label s = 0 \<or> get_call_return_label s \<in> set (tr_branch_labels (s_tr s))"
    by (auto simp: get_call_return_label_def Let_def)
  ultimately have "set (get_local_tailcall_labels s) \<union> (if get_call_return_label s = 0 then {} else {get_call_return_label s})
    \<subseteq> set (tr_local_labels (s_tr s)) \<union> set (tr_branch_labels (s_tr s))" by auto
  from image_mono [OF this, of L_label]
  show "set (gotos (frame_pieces call (get_local_tailcall_labels s) (get_call_return_label s))) \<subseteq> G"
    unfolding gotos_frame by (rule subset_trans) (use assms in \<open>simp add: site_ok_def image_Un\<close>)
qed

lemmas statement_jumps = delay_slot_jumps link_continuation_jumps frame_jumps

lemma goto_with_slot_jumps:
  "site_ok G s \<Longrightarrow> l \<in> G \<Longrightarrow> site_jumps G s (emit_goto_with_slot s l)"
  unfolding emit_goto_with_slot_def
  by (auto intro!: jumps.obeys_rules statement_jumps jumps_put)

lemma local_dispatch_jumps:
  assumes "site_ok G s"
  shows "site_jumps G s (local_dispatch s v)"
proof -
  have "site_jumps G s (put (concat (map (dispatch_case_pieces x) (filter P (tr_branch_labels (s_tr s))))))" for x P
    by (rule jumps_put) (use assms in \<open>auto simp: site_ok_def\<close>)
  then show ?thesis unfolding local_dispatch_def Let_def by (auto intro!: jumps.obeys_rules)
qed

lemma jr_ra_return_jumps: "site_ok G s \<Longrightarrow> site_jumps G s (emit_jr_ra_return s)"
  unfolding emit_jr_ra_return_def Let_def
  by (rule jumps.obeys_chain) (auto intro: statement_jumps local_dispatch_jumps)

lemma call_by_register_jumps: "site_ok G s \<Longrightarrow> site_jumps G s (emit_call_by_register s r)"
  unfolding emit_call_by_register_def
  by (rule jumps.obeys_chain) (auto intro: statement_jumps)

lemma tailcall_by_register_jumps: "site_ok G s \<Longrightarrow> site_jumps G s (emit_tailcall_by_register s r)"
  unfolding emit_tailcall_by_register_def
  by (rule jumps.obeys_chain) (auto intro: statement_jumps)

lemma tailcall_to_jumps: "site_ok G s \<Longrightarrow> site_jumps G s (tailcall_to s v r)"
  unfolding tailcall_to_def
  by (rule jumps.obeys_chain) (auto intro: statement_jumps)

lemma call_statement_jumps: "site_ok G s \<Longrightarrow> site_jumps G s f \<Longrightarrow> site_jumps G s (call_statement s f)"
  unfolding call_statement_def
  by (rule jumps.obeys_chain) (auto intro: statement_jumps)

lemma call_by_address_jumps:
  assumes "site_ok G s"
  shows "site_jumps G s (emit_call_by_address s v)"
proof -
  note rules = jumps.obeys_rules call_statement_jumps [OF assms] frame_jumps [OF assms]
  have "site_jumps G s (call_reference_symbol s i)" for i
    unfolding call_reference_symbol_def by (auto intro!: rules)
  moreover have "site_jumps G s (call_resolved s v r)" for r
    unfolding call_resolved_def by (cases r) (auto intro!: rules)
  moreover have "site_jumps G s (call_statement s (put_text x))" for x
    by (intro rules jumps_quiet_simps)
  ultimately show ?thesis
    unfolding emit_call_by_address_def by (auto intro!: jumps.obeys_demand split: option.split)
qed

lemma branch_outside_jumps:
  assumes "site_ok G s"
  shows "site_jumps G s (branch_outside s v r)"
proof -
  have "site_jumps G s (unhandled_branch s v)"
    unfolding unhandled_branch_def
    by (rule jumps.obeys_chain) (auto intro: statement_jumps assms)
  then show ?thesis
    unfolding branch_outside_def emit_tailcall_by_function_def emit_tailcall_by_address_def
    by (cases r) (auto intro!: jumps.obeys_rules tailcall_to_jumps assms)
qed

lemma branch_tree_jumps:
  assumes "site_ok G s" "in_function (s_func s) v \<Longrightarrow> L_label v \<in> G"
  shows "site_jumps G s (emit_branch_tree s v)"
  using assms unfolding emit_branch_tree_def
  by (auto intro!: jumps.obeys_rules statement_jumps branch_outside_jumps jumps_put jumps_when_link)

lemma write_link_jumps: "obeys (jumps G a) (write_link s r)"
  unfolding write_link_def Let_def by (auto intro!: jumps.obeys_rules)

text \<open>What a site needs of its own target.\<close>

definition target_ok :: "string set \<Rightarrow> site \<Rightarrow> bool" where
  "target_ok G s \<longleftrightarrow> (in_function (s_func s) (in_branch_vram (s_instr s)) \<longrightarrow> L_label (in_branch_vram (s_instr s)) \<in> G)"

lemma jal_jumps: "site_ok G s \<Longrightarrow> target_ok G s \<Longrightarrow> site_jumps G s (translate_jal s)"
  unfolding translate_jal_def Let_def target_ok_def
  by (auto intro!: jumps.obeys_rules write_link_jumps goto_with_slot_jumps call_by_address_jumps)

lemma jalr_jumps: "site_ok G s \<Longrightarrow> site_jumps G s (translate_jalr s)"
  unfolding translate_jalr_def Let_def
  by (auto intro!: jumps.obeys_rules write_link_jumps tailcall_by_register_jumps call_by_register_jumps)

lemma j_jumps: "site_ok G s \<Longrightarrow> target_ok G s \<Longrightarrow> site_jumps G s (translate_j s)"
  unfolding translate_j_def Let_def target_ok_def
  by (auto intro!: jumps.obeys_rules branch_tree_jumps)

lemma switch_jumps:
  assumes "site_ok G s" "L_label ` set (jt_entries t) \<subseteq> G"
  shows "site_jumps G s (translate_switch s t)"
proof -
  have "site_jumps G s (put (concat (map (\<lambda>(i, e). Text x # case_pieces i (L_label e)) (enumerate 0 (jt_entries t)))))" for x
    by (rule jumps_put) (use assms(2) in \<open>auto simp: in_set_enumerate_eq\<close>)
  then show ?thesis unfolding translate_switch_def
    by (auto intro!: jumps.obeys_chain delay_slot_jumps assms(1))
qed

lemma jr_jumps:
  assumes "site_ok G s"
  shows "site_jumps G s (translate_jr s)"
proof -
  have "site_jumps G s (translate_switch s t)" if "t \<in> set (tr_tables (s_tr s))" for t
    using assms that by (intro switch_jumps) (auto simp: site_ok_def)
  moreover have "site_jumps G s (remember_fallthrough s)"
    unfolding remember_fallthrough_def Let_def by (auto intro!: jumps.obeys_rules)
  ultimately show ?thesis unfolding translate_jr_def Let_def
    by (auto intro!: jumps.obeys_rules jr_ra_return_jumps tailcall_by_register_jumps assms
        split: option.split dest: find_in_set)
qed

lemma branch_jumps: "site_ok G s \<Longrightarrow> target_ok G s \<Longrightarrow> site_jumps G s (translate_branch s op)"
  unfolding translate_branch_def Let_def target_ok_def
  by (auto intro!: jumps.obeys_rules write_link_jumps branch_tree_jumps call_by_address_jumps)

section \<open>Instructions without jumps\<close>

lemma quiet_operations:
  "obeys quiet (translate_binary s b)" "obeys quiet (translate_unary s u)" "obeys quiet (translate_store s w)"
  unfolding translate_binary_def translate_unary_def translate_store_def Let_def
  by (auto intro!: quiet.obeys_rules)

lemma quiet_special_cases:
  "obeys quiet (translate_mfc0 s)" "obeys quiet (translate_mtc0 s)" "obeys quiet (translate_addu s)"
  "obeys quiet (translate_syscall s)" "obeys quiet (translate_cop1_control s x)"
  "obeys quiet (translate_muldiv s)" "obeys quiet (unhandled_instruction s)"
  unfolding translate_mfc0_def translate_mtc0_def translate_addu_def translate_syscall_def
    translate_cop1_control_def translate_muldiv_def unhandled_instruction_def Let_def
  by (auto intro!: quiet.obeys_rules split: option.split)

fun is_jump :: "instr_id \<Rightarrow> bool" where
  "is_jump (Jump _) = True"
| "is_jump _ = False"

lemma quiet_special_case:
  "\<not> is_jump i \<Longrightarrow> special_case s i = Some f \<Longrightarrow> obeys quiet f"
  unfolding special_case_def
  by (auto split: instr_id.splits alu_id.splits sys_id.splits
      intro!: quiet_special_cases quiet.obeys_rules)

lemma conditional_branch_is_jump: "conditional_branch_ops i = Some op \<Longrightarrow> is_jump i"
  unfolding conditional_branch_ops_def conditional_branch_ops_table_def
  by (auto split: if_splits dest!: map_of_SomeD)

lemma quiet_translate_site:
  assumes "\<not> is_jump i"
  shows "obeys quiet (translate_site s i indent emit_link)"
proof -
  have "conditional_branch_ops i = None"
    using assms conditional_branch_is_jump by (cases "conditional_branch_ops i") auto
  moreover have "obeys quiet (put (Text x # label_pieces l))" for x l by (rule quiet_put) simp
  ultimately show ?thesis unfolding translate_site_def
    by (auto intro!: quiet.obeys_rules quiet_special_cases quiet_operations dest: quiet_special_case [OF assms])
qed

definition takes_target :: "instr_id \<Rightarrow> bool" where
  "takes_target i \<longleftrightarrow> is_jump i \<and> i \<noteq> Jump cpu_jr \<and> i \<noteq> Jump cpu_jalr"

lemma translate_site_jumps:
  assumes "site_ok G s" "takes_target i \<Longrightarrow> target_ok G s"
  shows "site_jumps G s (translate_site s i indent emit_link)"
proof (cases "is_jump i")
  case False
  then show ?thesis by (intro jumps_quiet quiet_translate_site)
next
  case True
  note ok = assms(1)
  from True obtain j where i: "i = Jump j" by (cases i) auto
  have "site_jumps G s f" if "special_case s i = Some f" for f
    using that assms(2) unfolding special_case_def i
    by (auto simp: takes_target_def split: jump_id.splits intro: jal_jumps jalr_jumps j_jumps jr_jumps ok)
  moreover have "site_jumps G s (translate_branch s op)" if "conditional_branch_ops i = Some op" for op
  proof -
    have "i \<noteq> Jump cpu_jr" "i \<noteq> Jump cpu_jalr"
      using that by (auto simp: conditional_branch_ops_def conditional_branch_ops_table_def)
    then show ?thesis using True assms(2) by (intro branch_jumps ok) (simp add: takes_target_def)
  qed
  moreover have "site_jumps G s (put (Text x # label_pieces l))" for x l by (rule jumps_put) simp
  moreover have "site_jumps G s (unhandled_instruction s)" by (intro jumps_quiet quiet_special_cases)
  ultimately show ?thesis unfolding translate_site_def
    by (auto intro!: jumps.obeys_rules jumps_quiet [OF quiet_operations(1)]
        jumps_quiet [OF quiet_operations(2)] jumps_quiet [OF quiet_operations(3)])
qed

end
