(* ===== verification/Link_Labels.thy ===== *)
theory Link_Labels
  imports Jump_Targets
begin

text \<open>Return labels of calls: the last instruction of a function never leaves one pending, since it has no delay slot.\<close>

section \<open>Successful statements\<close>

definition obeys_ok :: "(emit_state \<Rightarrow> emit_state \<Rightarrow> bool) \<Rightarrow> emitter \<Rightarrow> bool" where
  "obeys_ok R f \<longleftrightarrow> (\<forall>st st'. f st = Some (True, st') \<longrightarrow> R st st')"

definition never_ok :: "emitter \<Rightarrow> bool" where
  "never_ok f \<longleftrightarrow> (\<forall>st st'. f st \<noteq> Some (True, st'))"

lemma ok_of_obeys: "obeys R f \<Longrightarrow> obeys_ok R f"
  by (simp add: obeys_def obeys_ok_def)

lemma ok_of_never: "never_ok f \<Longrightarrow> obeys_ok R f"
  by (simp add: never_ok_def obeys_ok_def)

lemma chain_cons_ok:
  "chain (f # fs) st = Some (True, st') \<longleftrightarrow> (\<exists>st1. f st = Some (True, st1) \<and> chain fs st1 = Some (True, st'))"
  by (auto split: option.splits)

lemma chain_append_ok:
  "chain (fs @ gs) st = Some (True, st') \<longleftrightarrow>
     (\<exists>st1. chain fs st = Some (True, st1) \<and> chain gs st1 = Some (True, st'))"
proof (induction fs arbitrary: st)
  case (Cons f fs)
  show ?case unfolding append_Cons chain_cons_ok Cons.IH by blast
qed simp

lemma never_give_up: "never_ok give_up"
  by (simp add: never_ok_def give_up_def)

lemma never_chain: "f \<in> set fs \<Longrightarrow> never_ok f \<Longrightarrow> never_ok (chain fs)"
  unfolding never_ok_def in_set_conv_decomp
  by (auto simp: chain_append_ok chain_cons_ok simp del: chain.simps)

context statement_relation
begin

lemma ok_chain: "(\<And>f. f \<in> set fs \<Longrightarrow> obeys_ok R f) \<Longrightarrow> obeys_ok R (chain fs)"
proof (induction fs)
  case Nil
  show ?case by (simp add: obeys_ok_def refl)
next
  case (Cons f fs)
  then have "obeys_ok R f" "obeys_ok R (chain fs)" by auto
  then show ?case unfolding obeys_ok_def chain_cons_ok using trans by blast
qed

lemma ok_only_if: "(b \<Longrightarrow> obeys_ok R f) \<Longrightarrow> obeys_ok R (only_if b f)"
  using ok_of_obeys [OF obeys_skip] by (simp add: only_if_def)

lemma ok_demand: "(\<And>y. x = Some y \<Longrightarrow> obeys_ok R (f y)) \<Longrightarrow> obeys_ok R (demand x f)"
  using ok_of_obeys [OF obeys_crash] by (auto simp: demand_def split: option.split)

lemma ok_with_state: "(\<And>st. obeys_ok R (f st)) \<Longrightarrow> obeys_ok R (with_state f)"
  by (auto simp: obeys_ok_def with_state_def)

lemma ok_table_case: "(\<And>x. op = Some x \<Longrightarrow> obeys_ok R (f x)) \<Longrightarrow> obeys_ok R (table_case f op)"
  using ok_of_obeys [OF obeys_skip] by (auto simp: table_case_def split: option.split)

lemmas ok_rules = ok_chain ok_only_if ok_demand ok_with_state ok_table_case

end

section \<open>The link flag of the last instruction\<close>

definition same_flag :: "emit_state \<Rightarrow> emit_state \<Rightarrow> bool" where
  "same_flag st st' \<longleftrightarrow> needs_link_branch st' = needs_link_branch st"

interpretation same_flag: statement_relation same_flag
  by unfold_locales (simp_all add: same_flag_def)

lemma quiet_same_flag: "obeys quiet f \<Longrightarrow> obeys_ok same_flag f"
  by (auto simp: obeys_def obeys_ok_def quiet_def same_flag_def)

definition last_site :: "site \<Rightarrow> bool" where
  "last_site s \<longleftrightarrow> length (tr_instructions (s_tr s)) - 1 \<le> s_index s"

lemma last_delay_slot: "last_site s \<Longrightarrow> emit_delay_slot s u = give_up"
  by (simp add: emit_delay_slot_def last_site_def)

lemma never_slot:
  assumes "last_site s"
  shows "emit_delay_slot s u \<in> set fs \<Longrightarrow> never_ok (chain fs)"
  using assms by (simp add: last_delay_slot never_chain [OF _ never_give_up])

lemma never_slot_statements:
  assumes "last_site s"
  shows "never_ok (call_statement s f)" "never_ok (emit_goto_with_slot s l)" "never_ok (emit_call_by_register s r)"
    "never_ok (emit_tailcall_by_register s r)" "never_ok (tailcall_to s v x)" "never_ok (emit_jr_ra_return s)"
    "never_ok (unhandled_branch s v)" "never_ok (translate_switch s t)"
proof -
  show "never_ok (call_statement s f)"
    unfolding call_statement_def by (rule never_slot [OF assms, of False]) simp
  show "never_ok (emit_goto_with_slot s l)"
    unfolding emit_goto_with_slot_def by (rule never_slot [OF assms, of False]) simp
  show "never_ok (emit_call_by_register s r)"
    unfolding emit_call_by_register_def by (rule never_slot [OF assms, of False]) simp
  show "never_ok (emit_tailcall_by_register s r)"
    unfolding emit_tailcall_by_register_def by (rule never_slot [OF assms, of False]) simp
  show "never_ok (tailcall_to s v x)"
    unfolding tailcall_to_def by (rule never_slot [OF assms, of False]) simp
  show "never_ok (emit_jr_ra_return s)"
    unfolding emit_jr_ra_return_def Let_def by (rule never_slot [OF assms, of False]) simp
  show "never_ok (unhandled_branch s v)"
    unfolding unhandled_branch_def by (rule never_slot [OF assms, of True]) simp
  show "never_ok (translate_switch s t)"
    unfolding translate_switch_def by (rule never_slot [OF assms, of False]) simp
qed

lemmas last_never = never_slot_statements [THEN ok_of_never]

lemma flag_quiet [simp]:
  "obeys_ok same_flag (put_text x)" "obeys_ok same_flag indent_line" "obeys_ok same_flag (indented x)"
  "obeys_ok same_flag (set_branch_likely b)" "obeys_ok same_flag (push_static k v)"
  "obeys_ok same_flag give_up" "obeys_ok same_flag skip" "obeys_ok same_flag (write_link s r)"
  unfolding write_link_def Let_def
  by (auto intro!: quiet_same_flag quiet.obeys_rules)

lemma last_call_by_address: "last_site s \<Longrightarrow> obeys_ok same_flag (emit_call_by_address s v)"
  unfolding emit_call_by_address_def call_reference_symbol_def call_resolved_def
  by (auto intro!: same_flag.ok_rules last_never(1) split: option.split jal_resolution.split)

lemma last_branch_tree:
  assumes last: "last_site s"
  shows "obeys_ok same_flag (emit_branch_tree s v)"
proof (cases "in_function (s_func s) v")
  case True
  then have "never_ok (emit_branch_tree s v)"
    unfolding emit_branch_tree_def by (simp add: never_slot [OF last, of True])
  then show ?thesis by (rule ok_of_never)
next
  case False
  have "obeys_ok same_flag (branch_outside s v r)" for r
    unfolding branch_outside_def emit_tailcall_by_function_def emit_tailcall_by_address_def
    by (auto intro!: same_flag.ok_rules last_never last split: jal_resolution.split)
  then show ?thesis using False unfolding emit_branch_tree_def by (auto intro!: same_flag.ok_demand)
qed

lemma last_jr: "last_site s \<Longrightarrow> obeys_ok same_flag (translate_jr s)"
proof -
  assume last: "last_site s"
  have "obeys quiet (emit_tailcall_by_register s r)" for r
    unfolding emit_tailcall_by_register_def
    by (simp add: last_delay_slot [OF last] obeys_def give_up_def quiet_def)
  then have "obeys_ok same_flag (ignore_result (emit_tailcall_by_register s r))" for r
    by (intro quiet_same_flag quiet.obeys_ignore_result)
  moreover have "obeys_ok same_flag (remember_fallthrough s)"
    unfolding remember_fallthrough_def Let_def by (auto intro!: same_flag.ok_rules)
  ultimately show ?thesis unfolding translate_jr_def Let_def
    by (auto intro!: same_flag.ok_chain last_never last split: option.split)
qed

lemma last_jalr:
  assumes last: "last_site s"
  shows "obeys_ok same_flag (translate_jalr s)"
proof -
  have "never_ok (chain [write_link s r, set_needs_link True, emit_call_by_register s r'])" for r r'
    by (rule never_chain [of "emit_call_by_register s r'"]) (simp_all add: never_slot_statements [OF last])
  moreover have "never_ok (chain [f, emit_tailcall_by_register s r])" for f r
    by (rule never_chain [of "emit_tailcall_by_register s r"]) (simp_all add: never_slot_statements [OF last])
  ultimately show ?thesis unfolding translate_jalr_def Let_def by (simp add: ok_of_never)
qed

lemma last_translate_site:
  assumes last: "last_site s"
  shows "obeys_ok same_flag (translate_site s i indent emit_link)"
proof (cases "is_jump i")
  case False
  then show ?thesis by (intro quiet_same_flag quiet_translate_site)
next
  case True
  then obtain j where i: "i = Jump j" by (cases i) auto
  have "obeys_ok same_flag (translate_j s)" "obeys_ok same_flag (translate_jal s)"
    unfolding translate_j_def translate_jal_def Let_def
    by (auto intro!: same_flag.ok_rules last_branch_tree last_call_by_address last last_never)
  then have "obeys_ok same_flag f" if "special_case s i = Some f" for f
    using that unfolding special_case_def i
    by (auto split: jump_id.splits intro: last_jr last_jalr last)
  moreover have "obeys_ok same_flag (translate_branch s op)" for op
    unfolding translate_branch_def Let_def
    by (auto intro!: same_flag.ok_rules last_branch_tree last_call_by_address last)
  moreover have "obeys_ok same_flag (put (Text x # label_pieces l))" for x l
    by (intro quiet_same_flag quiet_put) simp
  ultimately show ?thesis unfolding translate_site_def
    by (auto intro!: same_flag.ok_rules quiet_same_flag [OF quiet_operations(1)] quiet_same_flag [OF quiet_operations(2)]
        quiet_same_flag [OF quiet_operations(3)] quiet_same_flag [OF quiet_special_cases(7)])
qed

end
