(* ===== verification/Label_Free.thy ===== *)
theory Label_Free
  imports Statement_Rules
begin

text \<open>
  The translator taken apart once for all: a locale for the relations that every statement of the translator obeys,
  apart from the printing of labels, and its instances.
\<close>

section \<open>Statements in general\<close>

text \<open>
  A relation that every statement of the translator obeys, apart from the printing of labels. The client
  lemmas take the translator apart once; each instance checks the four elementary statements.
\<close>

locale label_free = statement_relation +
  assumes put: "labels ps = [] \<Longrightarrow> obeys R (put ps)"
    and needs: "obeys R (set_needs_link b)"
    and likely: "obeys R (set_branch_likely b)"
    and push: "obeys R (push_static k v)"
    and flags: "R st (st'\<lparr>needs_link_branch := a, is_branch_likely := b\<rparr>) \<longleftrightarrow> R st st'"
begin

lemma text_rules: "obeys R (put_text x)" "obeys R (put_line x)" "obeys R indent_line" "obeys R (indented x)"
  by (simp_all add: put_text_def put_line_def indent_line_def indented_def text_line_def put)

lemma trace_rule: "obeys R (trace_return s x)"
  by (auto simp: trace_return_def intro!: obeys_rules text_rules)

lemma keep_rule: "obeys R f \<Longrightarrow> obeys R (keep_flags f)"
  by (auto simp: obeys_def keep_flags_def flags split: option.splits)

lemma when_rule: "obeys R f \<Longrightarrow> obeys R (when_link f)"
  by (auto simp: obeys_def when_link_def refl split: if_splits)

lemma link_rule: "obeys R (write_link s r)"
  unfolding write_link_def Let_def by (auto intro!: obeys_rules text_rules push)

lemmas basic_rules = obeys_rules text_rules trace_rule when_rule link_rule needs likely push

definition slot_obeys :: "site \<Rightarrow> bool" where
  "slot_obeys s \<longleftrightarrow> (\<forall>u r. obeys R (s_next s u r))"

lemma slot_rule: "slot_obeys s \<Longrightarrow> obeys R (emit_delay_slot s u)"
  by (simp add: emit_delay_slot_def slot_obeys_def obeys_give_up keep_rule)

lemma labels_frame: "labels (frame_pieces call ls r) = []"
proof -
  have "labels (concat (map (\<lambda>v. Text (f v) # resume_pieces ind tag v) ls)) = []" for f ind tag
    by (induction ls) (simp_all add: resume_pieces_def)
  then show ?thesis by (simp add: frame_pieces_def tailcall_pieces_def resume_pieces_def)
qed

lemma frame_rule: "obeys R (frame_of s call)"
  unfolding frame_of_def by (rule put) (rule labels_frame)

lemma goto_rule: "obeys R (put (Text x # goto_pieces l))"
  by (rule put) (simp add: goto_pieces_def)

lemma continuation_rule: "obeys R (emit_link_continuation s)"
  unfolding emit_link_continuation_def by (intro when_rule goto_rule)

lemmas site_rules = basic_rules slot_rule frame_rule goto_rule continuation_rule

lemma jump_statements:
  assumes slot: "slot_obeys s"
  shows "obeys R (emit_jr_ra_return s)" "obeys R (emit_goto_with_slot s l)" "obeys R (emit_call_by_register s r)"
    "obeys R (emit_tailcall_by_register s r)" "obeys R (tailcall_to s v x)" "obeys R (unhandled_branch s v)"
    "obeys R f \<Longrightarrow> obeys R (call_statement s f)"
proof -
  have "labels (concat (map (dispatch_case_pieces x) vs)) = []" for x vs
    by (induction vs) (simp_all add: dispatch_case_pieces_def)
  then have "obeys R (local_dispatch s x)" for x
    unfolding local_dispatch_def Let_def by (auto intro!: basic_rules put)
  then show "obeys R (emit_jr_ra_return s)"
    unfolding emit_jr_ra_return_def Let_def by (intro obeys_chain) (auto intro: site_rules slot)
  show "obeys R (emit_goto_with_slot s l)" "obeys R (emit_call_by_register s r)"
    "obeys R (emit_tailcall_by_register s r)" "obeys R (tailcall_to s v x)" "obeys R (unhandled_branch s v)"
    unfolding emit_goto_with_slot_def emit_call_by_register_def emit_tailcall_by_register_def tailcall_to_def
      unhandled_branch_def
    by (intro obeys_chain; auto intro: site_rules slot)+
  show "obeys R f \<Longrightarrow> obeys R (call_statement s f)"
    unfolding call_statement_def by (intro obeys_chain) (auto intro: site_rules slot)
qed

lemma call_by_address_rule:
  assumes slot: "slot_obeys s"
  shows "obeys R (emit_call_by_address s v)"
  unfolding emit_call_by_address_def call_reference_symbol_def call_resolved_def
  by (auto intro!: site_rules jump_statements [OF slot] split: option.split jal_resolution.split)

lemma branch_tree_rule:
  assumes slot: "slot_obeys s"
  shows "obeys R (emit_branch_tree s v)"
proof -
  have "obeys R (branch_outside s v r)" for r
    unfolding branch_outside_def emit_tailcall_by_function_def emit_tailcall_by_address_def
    by (cases r) (auto intro!: basic_rules jump_statements [OF slot])
  then show ?thesis unfolding emit_branch_tree_def
    by (auto intro!: site_rules slot)
qed

lemma switch_rule:
  assumes slot: "slot_obeys s"
  shows "obeys R (translate_switch s t)"
proof -
  have "labels (concat (map (\<lambda>(i, e). Text x # case_pieces i (L_label e)) es)) = []" for x es
    by (induction es) (auto simp: case_pieces_def)
  then have "obeys R (put (concat (map (\<lambda>(i, e). Text x # case_pieces i (L_label e)) es)))" for x es
    by (rule put)
  then show ?thesis unfolding translate_switch_def by (intro obeys_chain) (auto intro: site_rules slot)
qed

lemma jr_rule:
  assumes slot: "slot_obeys s"
  shows "obeys R (translate_jr s)"
  unfolding translate_jr_def remember_fallthrough_def Let_def
  by (auto intro!: basic_rules jump_statements [OF slot] switch_rule [OF slot] split: option.split)

lemma special_rule:
  assumes slot: "slot_obeys s" and special: "special_case s i = Some f"
  shows "obeys R f"
proof -
  have "obeys R (translate_jal s)" "obeys R (translate_jalr s)" "obeys R (translate_j s)"
    unfolding translate_jal_def translate_jalr_def translate_j_def Let_def
    by (auto intro!: basic_rules jump_statements [OF slot] call_by_address_rule [OF slot] branch_tree_rule [OF slot])
  moreover have "obeys R (translate_mfc0 s)" "obeys R (translate_mtc0 s)" "obeys R (translate_addu s)"
    "obeys R (translate_syscall s)" "obeys R (translate_cop1_control s x)" "obeys R (translate_muldiv s)" for x
    unfolding translate_mfc0_def translate_mtc0_def translate_addu_def translate_syscall_def
      translate_cop1_control_def translate_muldiv_def Let_def
    by (auto intro!: basic_rules split: option.split)
  ultimately show ?thesis using special jr_rule [OF slot] unfolding special_case_def
    by (auto split: instr_id.splits alu_id.splits sys_id.splits jump_id.splits intro!: basic_rules)
qed

lemma translate_site_rule:
  assumes slot: "slot_obeys s"
  shows "obeys R (translate_site s i indent False)"
proof -
  have "obeys R (translate_binary s b)" "obeys R (translate_unary s u)" "obeys R (translate_store s w)" for b u w
    unfolding translate_binary_def translate_unary_def translate_store_def Let_def by (auto intro!: basic_rules)
  moreover have "obeys R (translate_branch s op)" for op
    unfolding translate_branch_def Let_def
    by (auto intro!: basic_rules call_by_address_rule [OF slot] branch_tree_rule [OF slot])
  moreover have "obeys R (unhandled_instruction s)" unfolding unhandled_instruction_def by (rule text_rules)
  ultimately show ?thesis unfolding translate_site_def
    by (auto intro!: basic_rules dest: special_rule [OF slot])
qed

lemma process_rule: "obeys R (process_from is tr idx indent False k r)"
proof (induction "is" arbitrary: idx indent r)
  case Nil
  show ?case by (simp add: obeys_crash)
next
  case (Cons instr rest)
  have hook: "obeys R (emit_hook tr j b)" for j b
    unfolding emit_hook_def by (auto intro!: basic_rules split: option.split)
  show ?case unfolding process_from.simps
    by (intro obeys_demand obeys_chain) (auto intro!: basic_rules hook translate_site_rule simp: slot_obeys_def Cons.IH)
qed

lemma process_instruction_rule: "obeys R (process_instruction tr idx indent False k r)"
  unfolding process_instruction_def by (rule process_rule)

end

section \<open>Instances\<close>

definition adds_no_label :: "emit_state \<Rightarrow> emit_state \<Rightarrow> bool" where
  "adds_no_label st st' \<longleftrightarrow> labels (out st') = labels (out st)"

interpretation no_label: label_free adds_no_label
proof
  show "obeys adds_no_label (push_static k v)" for k v
    by (auto simp: obeys_def push_static_def adds_no_label_def split: if_splits)
qed (auto simp: adds_no_label_def obeys_def put_def set_needs_link_def set_branch_likely_def)

end
