(* ===== verification/Label_Soundness.thy ===== *)
theory Label_Soundness
  imports Link_Labels Label_Free
begin

text \<open>The jumps of an instruction in its function, and of the walk over the instructions: the walk emits every label that
  the jumps it emits need.\<close>

section \<open>Jumps of an instruction in its function\<close>

text \<open>The text only grows, without jumps; the flags may change.\<close>

definition silent :: "emit_state \<Rightarrow> emit_state \<Rightarrow> bool" where
  "silent st st' \<longleftrightarrow> (\<exists>ps. out st' = out st @ ps \<and> gotos ps = [])"

interpretation silent: statement_relation silent
proof
  show "silent st st" for st by (simp add: silent_def)
next
  fix a b c assume "silent a b" and "silent b c"
  then show "silent a c" unfolding silent_def by (metis append.assoc append.right_neutral gotos_simps(3))
qed

lemma quiet_silent: "obeys quiet f \<Longrightarrow> obeys silent f"
  by (auto simp: obeys_def quiet_def silent_def)

lemma silent_set_flags: "obeys silent (set_needs_link b)"
  by (auto simp: obeys_def set_needs_link_def silent_def)

lemma quiet_keep_flags: "obeys silent f \<Longrightarrow> obeys quiet (keep_flags f)"
  by (fastforce simp: obeys_def keep_flags_def silent_def quiet_def split: option.splits)

lemma quiet_emit_hook: "obeys quiet (emit_hook tr i b)"
  unfolding emit_hook_def by (auto intro!: quiet.obeys_rules split: option.split)

lemma effective_id_jump: "effective_id tr instr = Some i \<Longrightarrow> is_jump i \<Longrightarrow> i = in_id instr"
  by (auto simp: effective_id_def split: if_splits)

text \<open>The site that \<open>process_from\<close> builds, and its prologue.\<close>

definition site_of :: "instruction list \<Rightarrow> translation \<Rightarrow> section_info \<Rightarrow> instruction \<Rightarrow> nat \<Rightarrow> nat \<Rightarrow> nat \<Rightarrow> reloc_use \<Rightarrow> site" where
  "site_of rest tr sec instr idx k r use =
     \<lparr>s_tr = tr, s_section = sec, s_index = idx, s_instr = instr, s_reloc_index = r, s_reloc = use,
      s_link_index = k,
      s_next = (\<lambda>use_indent next_reloc. process_from rest tr (idx + 1) use_indent False k next_reloc)\<rparr>"

lemma process_from_cases:
  assumes "process_from (instr # rest) tr idx indent link k r st = Some (ok, st')"
  obtains st1 sec i use
  where "needs_link_branch st1 = False" "silent st st1" "labels (out st1) = labels (out st)" "effective_id tr instr = Some i"
    "translate_site (site_of rest tr sec instr idx k r use) i indent link st1 = Some (ok, st')"
proof -
  from assms obtain sec where *: "chain [
       set_needs_link False, set_branch_likely False, emit_hook tr (int idx) indent, indent_line,
       put_text (instruction_comment instr),
       demand (effective_id tr instr) (\<lambda>i. demand (find_reloc (tr_ctx tr) sec r (in_vram instr)) (\<lambda>use.
         translate_site (site_of rest tr sec instr idx k r use) i indent link))] st = Some (ok, st')"
    (is "chain [_, ?l, ?h, ?n, ?c, ?body] st = _")
    unfolding process_from.simps site_of_def [symmetric]
    by (auto simp: demand_def crash_def split: option.splits simp del: chain.simps)
  define st0 where "st0 = st\<lparr>needs_link_branch := False\<rparr>"
  define pre where "pre = [?l, ?h, ?n, ?c]"
  have quiet: "obeys quiet (chain pre)"
    unfolding pre_def by (rule quiet.obeys_chain) (auto intro: quiet_emit_hook)
  have "always_ok (chain pre)"
    unfolding pre_def
    by (rule always_chain) (auto simp: emit_hook_def intro!: always_chain split: option.split)
  then obtain st1 where 1: "chain pre st0 = Some (True, st1)" unfolding always_ok_def by blast
  have "chain (pre @ [?body]) st0 = Some (ok, st')"
    using * by (simp add: pre_def set_needs_link_def st0_def)
  then have "chain [?body] st1 = Some (ok, st')" by (simp only: chain_append [OF 1])
  then have "?body st1 = Some (ok, st')"
    by (cases "?body st1") (auto split: if_splits)
  then obtain i use where "effective_id tr instr = Some i"
      "translate_site (site_of rest tr sec instr idx k r use) i indent link st1 = Some (ok, st')"
    by (auto simp: demand_def crash_def split: option.splits)
  moreover have "quiet st0 st1" by (rule obeysD [OF quiet 1])
  then have "needs_link_branch st1 = False" "silent st st1" by (auto simp: quiet_def silent_def st0_def)
  moreover have "obeys adds_no_label (chain pre)"
    unfolding pre_def
    by (rule no_label.obeys_chain)
      (auto simp: emit_hook_def intro!: no_label.basic_rules split: option.split)
  from obeysD [OF this 1] have "labels (out st1) = labels (out st)" by (simp add: adds_no_label_def st0_def)
  ultimately show thesis by (intro that)
qed

lemma silent_process_from:
  assumes "\<not> is_jump (in_id instr)"
  shows "obeys silent (process_from (instr # rest) tr idx indent link k r)"
proof (rule obeysI)
  fix st ok st' assume "process_from (instr # rest) tr idx indent link k r st = Some (ok, st')"
  then obtain st1 sec i use where *: "silent st st1" "effective_id tr instr = Some i"
    "translate_site (site_of rest tr sec instr idx k r use) i indent link st1 = Some (ok, st')"
    by (rule process_from_cases)
  have "\<not> is_jump i" using assms effective_id_jump [OF *(2)] by auto
  then have "obeys silent (translate_site (site_of rest tr sec instr idx k r use) i indent link)"
    by (intro quiet_silent quiet_translate_site)
  from silent.trans [OF *(1) obeysD [OF this *(3)]] show "silent st st'" .
qed

text \<open>With the link label: the text up to it, and then the label.\<close>

lemma translate_site_link:
  assumes "translate_site s i indent True st = Some (True, st')"
  obtains st1 where "translate_site s i indent False st = Some (True, st1)"
    "st' = st1\<lparr>out := out st1 @ Text ''    '' # label_pieces (after_label (s_link_index s))\<rparr>"
proof -
  define fs where "fs = [only_if indent indent_line, table_case (\<lambda>f. f) (special_case s i),
     table_case (translate_binary s) (binary_ops i), table_case (translate_unary s) (unary_ops i),
     table_case (translate_branch s) (conditional_branch_ops i), table_case (translate_store s) (store_ops i),
     only_if (\<not> is_handled i s) (unhandled_instruction s)]"
  have eq: "translate_site s i indent b = chain (fs @ [only_if b (put (Text ''    '' # label_pieces (after_label (s_link_index s))))])" for b
    by (simp add: translate_site_def fs_def)
  from assms obtain st1 where 1: "chain fs st = Some (True, st1)"
    and 2: "st' = st1\<lparr>out := out st1 @ Text ''    '' # label_pieces (after_label (s_link_index s))\<rparr>"
    unfolding eq chain_append_ok by (auto simp: only_if_def put_def)
  from 1 have "translate_site s i indent False st = Some (True, st1)"
    unfolding eq by (simp add: chain_append only_if_def skip_def)
  with 2 show thesis by (rule that [rotated])
qed

text \<open>The labels that the jumps of a function may use.\<close>

definition function_targets :: "translation \<Rightarrow> string set \<Rightarrow> bool" where
  "function_targets tr G \<longleftrightarrow>
     L_label ` set (tr_branch_labels tr) \<subseteq> G \<and> L_label ` set (tr_local_labels tr) \<subseteq> G \<and>
     (\<forall>t\<in>set (tr_tables tr). L_label ` set (jt_entries t) \<subseteq> G) \<and>
     (\<forall>i\<in>set (tr_instructions tr). takes_target (in_id i) \<longrightarrow> in_function (tr_func tr) (in_branch_vram i) \<longrightarrow>
        L_label (in_branch_vram i) \<in> G)"

definition slots_plain :: "instruction list \<Rightarrow> bool" where
  "slots_plain is \<longleftrightarrow>
     (\<forall>k<length is - 1. is_jump (in_id (is ! k)) \<longrightarrow> \<not> is_jump (in_id (is ! (k + 1))))"

lemma site_of_jumps:
  assumes "function_targets tr G" "instr \<in> set (tr_instructions tr)"
    and slot: "rest = [] \<or> \<not> is_jump (in_id (hd rest)) \<or> \<not> is_jump i" and i: "effective_id tr instr = Some i"
  shows "obeys (jumps G (after_label k)) (translate_site (site_of rest tr sec instr idx k r use) i indent link)"
proof (cases "is_jump i")
  case False
  then show ?thesis by (intro jumps_quiet quiet_translate_site)
next
  case True
  have "obeys quiet (keep_flags (process_from rest tr (idx + 1) u False k r'))" for u r'
  proof (cases rest)
    case Nil
    then show ?thesis by (simp add: obeys_def keep_flags_def crash_def)
  next
    case (Cons i2 rest2)
    then have "\<not> is_jump (in_id i2)" using slot True by simp
    then show ?thesis unfolding Cons by (intro quiet_keep_flags silent_process_from)
  qed
  then have "site_ok G (site_of rest tr sec instr idx k r use)"
    using assms(1) by (auto simp: site_ok_def site_of_def function_targets_def jumps_quiet)
  moreover have "target_ok G (site_of rest tr sec instr idx k r use)" if "takes_target i"
    using assms(1,2) effective_id_jump [OF i True] that
    by (auto simp: target_ok_def site_of_def s_func_def function_targets_def)
  ultimately have "site_jumps G (site_of rest tr sec instr idx k r use)
      (translate_site (site_of rest tr sec instr idx k r use) i indent link)"
    by (rule translate_site_jumps)
  then show ?thesis by (simp add: site_of_def)
qed

lemma process_jumps:
  assumes run: "process_instruction tr idx indent link k r st = Some (True, st')"
    and idx: "idx < length (tr_instructions tr)"
    and G: "function_targets tr G" and slots: "slots_plain (tr_instructions tr)"
  shows "\<exists>ps. out st' = out st @ ps \<and>
    set (gotos ps) \<subseteq> G \<union> (if needs_link_branch st' then {after_label k} else {}) \<and>
    (link \<longrightarrow> after_label k \<in> set (labels ps)) \<and>
    (needs_link_branch st' \<longrightarrow> idx + 1 < length (tr_instructions tr))"
proof -
  let ?instr = "tr_instructions tr ! idx" and ?rest = "drop (Suc idx) (tr_instructions tr)"
  have "drop idx (tr_instructions tr) = ?instr # ?rest" using idx by (simp add: Cons_nth_drop_Suc)
  with run obtain st1 sec i use where *: "needs_link_branch st1 = False" "silent st st1"
    "effective_id tr ?instr = Some i"
    "translate_site (site_of ?rest tr sec ?instr idx k r use) i indent link st1 = Some (True, st')"
    unfolding process_instruction_def by (metis process_from_cases)
  let ?s = "site_of ?rest tr sec ?instr idx k r use"
  have slot: "?rest = [] \<or> \<not> is_jump (in_id (hd ?rest)) \<or> \<not> is_jump i"
  proof (cases "?rest = [] \<or> \<not> is_jump i")
    case False
    then have "Suc idx < length (tr_instructions tr)" "is_jump (in_id ?instr)"
      using effective_id_jump [OF *(3)] by auto
    then show ?thesis using slots unfolding slots_plain_def by (auto simp: hd_drop_conv_nth)
  qed blast
  have mem: "?instr \<in> set (tr_instructions tr)" using idx by simp
  have J: "obeys (jumps G (after_label k)) (translate_site ?s i indent b)" for b
    by (rule site_of_jumps [OF G mem slot *(3)])
  obtain qs where qs: "out st1 = out st @ qs" "gotos qs = []" using *(2) by (auto simp: silent_def)
  have last: "needs_link_branch st' \<longrightarrow> idx + 1 < length (tr_instructions tr)"
  proof (rule ccontr)
    assume "\<not> ?thesis"
    then have "last_site ?s" "needs_link_branch st'" using idx by (auto simp: last_site_def site_of_def)
    then show False
      using last_translate_site [of ?s i indent link] *(1,4) by (auto simp: obeys_ok_def same_flag_def)
  qed
  show ?thesis
  proof (cases link)
    case False
    then obtain ps where "out st' = out st1 @ ps"
      "set (gotos ps) \<subseteq> G \<union> (if needs_link_branch st' then {after_label k} else {})"
      using obeysD [OF J *(4)] by (auto simp: jumps_def)
    then show ?thesis using qs last False by (intro exI [of _ "qs @ ps"]) auto
  next
    case True
    with *(4) obtain st2 where 2: "translate_site ?s i indent False st1 = Some (True, st2)"
      and st': "st' = st2\<lparr>out := out st2 @ Text ''    '' # label_pieces (after_label (s_link_index ?s))\<rparr>"
      by (metis translate_site_link)
    obtain ps where "out st2 = out st1 @ ps"
      "set (gotos ps) \<subseteq> G \<union> (if needs_link_branch st2 then {after_label k} else {})"
      using obeysD [OF J 2] by (auto simp: jumps_def)
    then show ?thesis using qs last st'
      by (intro exI [of _ "qs @ ps @ Text ''    '' # label_pieces (after_label k)"])
        (auto simp: site_of_def label_pieces_def)
  qed
qed

section \<open>The walk emits every label\<close>

definition pending_ok :: "nat \<Rightarrow> loop_state \<Rightarrow> bool" where
  "pending_ok n lp \<longleftrightarrow>
     unat (lp_vram lp) + 4 * n < 2 ^ 32 \<and> sorted (lp_labels lp) \<and> distinct (lp_labels lp) \<and>
     (\<forall>l\<in>set (lp_labels lp). lp_vram lp \<le> l \<and> unat l < unat (lp_vram lp) + 4 * n \<and>
        4 dvd unat l - unat (lp_vram lp))"

lemma pending_next:
  assumes "pending_ok (Suc n) lp"
  shows "pending_ok n (next_loop_state relocs had lik lp)"
    and "set (lp_labels lp) \<subseteq>
      (if at_label lp then {hd (lp_labels lp)} else {}) \<union> set (lp_labels (next_loop_state relocs had lik lp))"
proof -
  let ?v = "lp_vram lp" and ?ls = "lp_labels lp"
  have v4: "unat (?v + 4) = unat ?v + 4"
    using assms by (subst unat_add_lem [THEN iffD1]) (simp_all add: pending_ok_def)
  have later: "?v + 4 \<le> l \<and> unat l < unat (?v + 4) + 4 * n \<and> 4 dvd unat l - unat (?v + 4)"
    if "l \<in> set ?ls" "l \<noteq> ?v" for l
  proof -
    have l: "unat ?v \<le> unat l" "unat l < unat ?v + 4 * Suc n" "4 dvd unat l - unat ?v"
      using assms that(1) by (auto simp: pending_ok_def word_le_nat_alt)
    have "unat ?v \<noteq> unat l" using that(2) by (metis word_unat_eq_iff)
    with l(1) have "0 < unat l - unat ?v" by linarith
    with l(3) have "4 \<le> unat l - unat ?v" by (rule dvd_imp_le)
    with l(1) have "unat ?v + 4 \<le> unat l" by linarith
    moreover have "4 dvd unat l - unat ?v - 4" using l(3) by (rule dvd_diff_nat) simp
    ultimately show ?thesis using l v4 by (simp add: word_le_nat_alt)
  qed
  have "at_label lp \<longleftrightarrow> ?ls \<noteq> [] \<and> hd ?ls = ?v"
    using assms by (cases ?ls) (auto simp: at_label_def pending_ok_def)
  moreover have "?v \<notin> set (tl ?ls)" if "hd ?ls = ?v"
    using assms that by (cases ?ls) (auto simp: pending_ok_def)
  moreover have "?v \<notin> set ?ls" if "?ls \<noteq> []" "hd ?ls \<noteq> ?v"
    using assms that by (cases ?ls) (auto simp: pending_ok_def)
  ultimately show "pending_ok n (next_loop_state relocs had lik lp)"
    using assms later v4
    by (cases ?ls) (auto simp: pending_ok_def next_loop_state_def)
  show "set ?ls \<subseteq> (if at_label lp then {hd ?ls} else {}) \<union> set (lp_labels (next_loop_state relocs had lik lp))"
    by (cases ?ls) (auto simp: next_loop_state_def at_label_def)
qed

lemma loop_body_cases:
  assumes "loop_body tr relocs idx lp had st = Some (True, st')"
  obtains st1 st2 where
    "st1 = st\<lparr>out := out st @ (if lp_in_likely lp then goto_pieces (skip_label (lp_num_likely lp)) else []) @
           (if at_label lp then label_pieces (L_label (hd (lp_labels lp))) else [])\<rparr>"
    "process_instruction tr idx False had (lp_num_link lp) (advance_reloc relocs (lp_vram lp) (lp_reloc_index lp)) st1 =
      Some (True, st2)"
    "st' = st2\<lparr>out := out st2 @ (if lp_in_likely lp then Text ''    '' # label_pieces (skip_label (lp_num_likely lp)) else [])\<rparr>"
  using assms unfolding loop_body_def chain_cons_ok by (auto simp: only_if_def put_def skip_def split: if_splits)

lemma loop_body_jumps:
  assumes run: "loop_body tr relocs idx lp had st = Some (True, st')"
    and idx: "idx < length (tr_instructions tr)"
    and G: "function_targets tr G" and slots: "slots_plain (tr_instructions tr)"
  shows "\<exists>ps. out st' = out st @ ps \<and>
    set (gotos ps) \<subseteq> G \<union> set (labels ps) \<union> (if needs_link_branch st' then {after_label (lp_num_link lp)} else {}) \<and>
    (had \<longrightarrow> after_label (lp_num_link lp) \<in> set (labels ps)) \<and>
    (at_label lp \<longrightarrow> L_label (hd (lp_labels lp)) \<in> set (labels ps)) \<and>
    (needs_link_branch st' \<longrightarrow> idx + 1 < length (tr_instructions tr))"
proof -
  obtain st1 st2 where
    1: "st1 = st\<lparr>out := out st @ (if lp_in_likely lp then goto_pieces (skip_label (lp_num_likely lp)) else []) @
           (if at_label lp then label_pieces (L_label (hd (lp_labels lp))) else [])\<rparr>"
    and 2: "process_instruction tr idx False had (lp_num_link lp) (advance_reloc relocs (lp_vram lp) (lp_reloc_index lp)) st1 =
      Some (True, st2)"
    and 3: "st' = st2\<lparr>out := out st2 @ (if lp_in_likely lp then Text ''    '' # label_pieces (skip_label (lp_num_likely lp)) else [])\<rparr>"
    using run by (rule loop_body_cases)
  from process_jumps [OF 2 idx G slots] obtain ps where ps: "out st2 = out st1 @ ps"
    "set (gotos ps) \<subseteq> G \<union> (if needs_link_branch st2 then {after_label (lp_num_link lp)} else {})"
    "had \<longrightarrow> after_label (lp_num_link lp) \<in> set (labels ps)"
    "needs_link_branch st2 \<longrightarrow> idx + 1 < length (tr_instructions tr)"
    by blast
  show ?thesis
    by (intro exI [of _ "(if lp_in_likely lp then goto_pieces (skip_label (lp_num_likely lp)) else []) @
         (if at_label lp then label_pieces (L_label (hd (lp_labels lp))) else []) @ ps @
         (if lp_in_likely lp then Text ''    '' # label_pieces (skip_label (lp_num_likely lp)) else [])"])
      (use ps in \<open>auto simp: 1 3 label_pieces_def goto_pieces_def split: if_splits\<close>)
qed

lemma translate_loop_jumps:
  assumes G: "function_targets tr G" and slots: "slots_plain (tr_instructions tr)"
  shows "translate_loop n tr relocs idx lp st = Some (True, st') \<Longrightarrow>
    idx + n = length (tr_instructions tr) \<Longrightarrow> pending_ok n lp \<Longrightarrow> needs_link_branch st \<longrightarrow> 0 < n \<Longrightarrow>
    \<exists>ps. out st' = out st @ ps \<and> set (gotos ps) \<subseteq> G \<union> set (labels ps) \<and>
      (needs_link_branch st \<longrightarrow> after_label (lp_num_link lp) \<in> set (labels ps)) \<and>
      L_label ` set (lp_labels lp) \<subseteq> set (labels ps)"
proof (induction n arbitrary: idx lp st)
  case 0
  then have "l \<notin> set (lp_labels lp)" for l by (auto simp: pending_ok_def word_le_nat_alt)
  then have "lp_labels lp = []" by (cases "lp_labels lp") auto
  then show ?case using 0 by (intro exI [of _ "[]"]) (auto simp: skip_def)
next
  case (Suc n)
  from Suc.prems(1) obtain st1 where
    body: "loop_body tr relocs idx lp (needs_link_branch st) st = Some (True, st1)"
    and rest: "translate_loop n tr relocs (idx + 1)
      (next_loop_state relocs (needs_link_branch st) (is_branch_likely st1) lp) st1 = Some (True, st')"
    unfolding translate_loop.simps with_state_def chain_cons_ok by auto
  let ?lp = "next_loop_state relocs (needs_link_branch st) (is_branch_likely st1) lp"
  have idx: "idx < length (tr_instructions tr)" using Suc.prems(2) by simp
  from loop_body_jumps [OF body idx G slots] obtain ps where ps: "out st1 = out st @ ps"
    "set (gotos ps) \<subseteq> G \<union> set (labels ps) \<union> (if needs_link_branch st1 then {after_label (lp_num_link lp)} else {})"
    "needs_link_branch st \<longrightarrow> after_label (lp_num_link lp) \<in> set (labels ps)"
    "at_label lp \<longrightarrow> L_label (hd (lp_labels lp)) \<in> set (labels ps)"
    "needs_link_branch st1 \<longrightarrow> idx + 1 < length (tr_instructions tr)"
    by blast
  have "needs_link_branch st1 \<longrightarrow> 0 < n" using ps(5) Suc.prems(2) by auto
  from Suc.IH [OF rest _ pending_next(1) [OF Suc.prems(3)] this] Suc.prems(2)
  obtain qs where qs: "out st' = out st1 @ qs" "set (gotos qs) \<subseteq> G \<union> set (labels qs)"
    "needs_link_branch st1 \<longrightarrow> after_label (lp_num_link ?lp) \<in> set (labels qs)"
    "L_label ` set (lp_labels ?lp) \<subseteq> set (labels qs)"
    by auto
  have link: "needs_link_branch st1 \<Longrightarrow> after_label (lp_num_link lp) \<in> set (labels (ps @ qs))"
    using ps(3) qs(3) by (cases "needs_link_branch st") (auto simp: next_loop_state_def)
  have "L_label ` set (lp_labels lp) \<subseteq> set (labels (ps @ qs))"
    using pending_next(2) [OF Suc.prems(3), of relocs "needs_link_branch st" "is_branch_likely st1"] ps(4) qs(4)
    by (auto split: if_splits)
  moreover have "set (gotos (ps @ qs)) \<subseteq> G \<union> set (labels (ps @ qs))"
    using ps(2) qs(2) link by (auto split: if_splits)
  ultimately show ?case using ps(1,3) qs(1) by (intro exI [of _ "ps @ qs"]) auto
qed

end
