(* ===== verification/Function_Labels.thy ===== *)
theory Function_Labels
  imports Label_Soundness Analysis_Tables
begin

text \<open>
  The jumps of a translated function: every \<open>goto\<close> has its label. The example at the end is a function with a loop,
  translated step by step.
\<close>

section \<open>The jumps of a translated function\<close>

lemma chain_nil_ok: "chain [] st = Some (True, st') \<longleftrightarrow> st' = st"
  by auto

text \<open>What the decoder says of the instructions that have a branch target.\<close>

definition marks_branches :: "decoder \<Rightarrow> bool" where
  "marks_branches decode \<longleftrightarrow>
     (\<forall>w v. takes_target (in_id (decode w v)) \<longrightarrow>
        in_is_branch (decode w v) \<or> in_id (decode w v) = Jump cpu_j \<or> in_id (decode w v) = Jump cpu_jal)"

definition labels_aligned :: "recompiler_context \<Rightarrow> recomp_function \<Rightarrow> instruction list \<Rightarrow> u32 list list \<Rightarrow> bool" where
  "labels_aligned ctx func instrs static_funcs_out \<longleftrightarrow>
     (case analyze_function ctx func instrs of
        Done tables \<Rightarrow> \<forall>l\<in>set (branch_labels_of func instrs tables static_funcs_out). 4 dvd unat l - unat (fn_vram func)
      | _ \<Rightarrow> True)"

lemma length_decode_words [simp]: "length (decode_words decode v ws) = length ws"
  by (induction ws arbitrary: v) simp_all

lemma decode_words_from: "i \<in> set (decode_words decode v ws) \<Longrightarrow> \<exists>w v. i = decode w v"
  by (induction ws arbitrary: v) auto

lemma unat_func_vram_end:
  assumes "unat (fn_vram func) + 4 * length (fn_words func) < 2 ^ 32"
  shows "unat (func_vram_end func) = unat (fn_vram func) + 4 * length (fn_words func)"
proof -
  have n: "unat (of_nat (length (fn_words func) * 4) :: u32) = 4 * length (fn_words func)"
  proof -
    have "unat (of_nat m :: u32) = m" if "m < 2 ^ 32" for m
      using that by (simp add: unat_of_nat take_bit_nat_eq_self)
    from this [of "length (fn_words func) * 4"] show ?thesis using assms by simp
  qed
  show ?thesis unfolding func_vram_end_def
    using assms n by (subst unat_add_lem [THEN iffD1]) simp_all
qed

lemma target_label:
  assumes "i \<in> set is" "in_is_branch i \<or> in_id i = Jump cpu_j \<or> in_id i = Jump cpu_jal"
    and "in_function func (in_branch_vram i)"
  shows "in_branch_vram i \<in> set (all_instruction_labels func v is)"
proof -
  have "in_branch_vram i \<in> set (instruction_labels func v i)" for v
    using assms(2,3) by (simp add: instruction_labels_def is_linking_def Let_def) blast
  with assms(1) show ?thesis by (induction "is" arbitrary: v) auto
qed

lemma branch_labels_member:
  "l \<in> set (branch_labels_of func instrs tables sf) \<longleftrightarrow>
     in_function func l \<and> l \<noteq> fn_vram func \<and> l \<in> set (all_labels func instrs tables sf)"
  by (auto simp: branch_labels_of_def)

lemma dispatch_label_member:
  assumes "l \<in> set (dispatch_labels func)"
  shows "l \<in> set (branch_labels_of func instrs tables sf)"
  using assms by (auto simp: branch_labels_member all_labels_def dispatch_labels_def in_function_def)

abbreviation label_names :: "recomp_function \<Rightarrow> u32 list \<Rightarrow> string set" where
  "label_names func ls \<equiv> insert (L_label (fn_vram func)) (L_label ` set ls)"

lemma label_name_member:
  assumes "in_function func l" "l \<in> set (all_labels func instrs tables sf)"
  shows "L_label l \<in> label_names func (branch_labels_of func instrs tables sf)"
  using assms by (auto simp: branch_labels_member)

lemma translation_targets:
  assumes fits: "unat (fn_vram func) + 4 * length (fn_words func) < 2 ^ 32"
    and func: "func = ctx_functions ctx ! func_index"
    and decode: "marks_branches decode"
    and tables: "\<forall>t\<in>set tables. \<forall>e\<in>set (jt_entries t). in_function func e"
  shows "function_targets (translation_of decode ctx func_index tag tables sf)
    (label_names func (branch_labels_of func (decode_words decode (fn_vram func) (fn_words func)) tables sf))"
proof -
  let ?is = "decode_words decode (fn_vram func) (fn_words func)"
  have "L_label (in_branch_vram i) \<in> label_names func (branch_labels_of func ?is tables sf)"
    if i: "i \<in> set ?is" "takes_target (in_id i)" "in_function func (in_branch_vram i)" for i
  proof (rule label_name_member [OF i(3)])
    have "in_is_branch i \<or> in_id i = Jump cpu_j \<or> in_id i = Jump cpu_jal"
      using decode decode_words_from [OF i(1)] i(2) unfolding marks_branches_def by auto
    from target_label [OF i(1) this i(3)] show "in_branch_vram i \<in> set (all_labels func ?is tables sf)"
      by (auto simp: all_labels_def)
  qed
  moreover have "L_label e \<in> label_names func (branch_labels_of func ?is tables sf)"
    if "t \<in> set tables" "e \<in> set (jt_entries t)" for t e
    using that tables by (intro label_name_member) (auto simp: all_labels_def)
  moreover have "L_label l \<in> label_names func (branch_labels_of func ?is tables sf)"
    if "l \<in> set (local_tailcall_labels_of func sf)" for l
    using that by (intro label_name_member) (auto simp: all_labels_def local_tailcall_labels_of_def)
  ultimately show ?thesis
    by (auto simp: function_targets_def translation_of_def Let_def func)
qed

lemma labels_pending:
  assumes fits: "unat (fn_vram func) + 4 * length (fn_words func) < 2 ^ 32"
    and aligned: "\<forall>l\<in>set (branch_labels_of func instrs tables sf). 4 dvd unat l - unat (fn_vram func)"
  shows "pending_ok (length (fn_words func))
    \<lparr>lp_vram = fn_vram func, lp_labels = branch_labels_of func instrs tables sf, lp_num_link = 0,
     lp_num_likely = 0, lp_in_likely = False, lp_reloc_index = 0\<rparr>"
proof -
  have "sorted (branch_labels_of func instrs tables sf)" "distinct (branch_labels_of func instrs tables sf)"
    by (simp_all add: branch_labels_of_def sorted_wrt_filter)
  then show ?thesis
    using assms unat_func_vram_end [OF fits]
    by (auto simp: pending_ok_def branch_labels_member in_function_def word_less_nat_alt)
qed

lemma translate_instructions_jumps:
  assumes run: "translate_instructions tr st = Some (True, st')"
    and "function_targets tr G" "slots_plain (tr_instructions tr)" "\<not> needs_link_branch st"
    and pending: "pending_ok (length (tr_instructions tr))
      \<lparr>lp_vram = fn_vram (tr_func tr), lp_labels = tr_branch_labels tr, lp_num_link = 0,
       lp_num_likely = 0, lp_in_likely = False, lp_reloc_index = 0\<rparr>"
  shows "\<exists>ps. out st' = out st @ ps \<and> set (gotos ps) \<subseteq> G \<union> set (labels ps) \<and>
    L_label ` set (tr_branch_labels tr) \<subseteq> set (labels ps)"
proof -
  from run obtain relocs where "translate_loop (length (tr_instructions tr)) tr relocs 0
      \<lparr>lp_vram = fn_vram (tr_func tr), lp_labels = tr_branch_labels tr, lp_num_link = 0,
       lp_num_likely = 0, lp_in_likely = False, lp_reloc_index = 0\<rparr> st = Some (True, st')"
    by (auto simp: translate_instructions_def demand_def crash_def split: option.splits)
  from translate_loop_jumps [OF assms(2,3) this _ pending] assms(4) show ?thesis by auto
qed

lemma quiet_fallthrough: "obeys quiet (emit_fallthrough ctx i func)"
  unfolding emit_fallthrough_def Let_def
  by (auto intro!: quiet.obeys_rules split: option.split)

lemma function_body_cases:
  assumes run: "function_body decode ctx func_index func tag st = Some (True, st')"
  obtains st1 st2 qs tables where
    "st1 = st\<lparr>out := out st @ qs @ label_pieces (L_label (fn_vram func))\<rparr>" "labels qs = []"
    "translate_instructions (translation_of decode ctx func_index tag tables (static_funcs st)) st1 = Some (True, st2)"
    "only_if (function_end_allows_fallthrough (decode_words decode (fn_vram func) (fn_words func)))
       (emit_fallthrough ctx func_index func) st2 = Some (True, st')"
    "analyze_function ctx func (decode_words decode (fn_vram func) (fn_words func)) = Done tables"
    "set (gotos qs) \<subseteq> L_label ` set (dispatch_labels func) \<union> (if has_other_entry func then {L_label (fn_entry_vram func)} else {})"
proof -
  let ?is = "decode_words decode (fn_vram func) (fn_words func)"
  let ?hook = "case fn_function_hooks func (- 1) of None \<Rightarrow> skip | Some h \<Rightarrow> indented h"
  from run obtain st1 st2 tables where
    pre: "chain [dispatch_switch func, entry_goto func, ?hook, put (label_pieces (L_label (fn_vram func)))] st = Some (True, st1)"
    and tables: "analyze_function ctx func ?is = Done tables"
    and body: "translate_instructions (translation_of decode ctx func_index tag tables (static_funcs st1)) st1 = Some (True, st2)"
    and fall: "only_if (function_end_allows_fallthrough ?is) (emit_fallthrough ctx func_index func) st2 = Some (True, st')"
    unfolding function_body_def chain_cons_ok
    by (auto simp: with_state_def chain_cons_ok chain_nil_ok Let_def crash_def give_up_def split: outcome.splits simp del: chain.simps)
  let ?q = "(if fn_dispatch_entry_vrams func = [] then [] else
       [Text (print_lines [
          ''    if (ctx->dispatch_entry_target != 0) {'',
          ''        uint32_t recomp_dispatch_entry = ctx->dispatch_entry_target;'',
          ''        ctx->dispatch_entry_target = 0;'',
          ''        switch (recomp_dispatch_entry) {''])] @
       concat (map (dispatch_case_pieces ''        '') (dispatch_labels func)) @
       [Text (print_lines [
          ''        default:'',
          ''            ctx->dispatch_entry_rejected = 1;'',
          ''            ctx->dispatch_entry_rejected_target = recomp_dispatch_entry;'',
          ''            return;'',
          ''        }'',
          ''    }''])]) @
      (if has_other_entry func then goto_pieces (L_label (fn_entry_vram func)) else []) @
      (case fn_function_hooks func (- 1) of None \<Rightarrow> [] | Some h \<Rightarrow> [Text (''    '' @ line h)])"
    have e1: "st1 = st\<lparr>out := out st @ ?q @ label_pieces (L_label (fn_vram func))\<rparr>"
      using pre unfolding chain_cons_ok
      by (auto simp: dispatch_switch_def entry_goto_def only_if_def put_def skip_def indented_def
          split: if_splits option.splits)
    have e2: "set (gotos ?q) \<subseteq> L_label ` set (dispatch_labels func) \<union>
        (if has_other_entry func then {L_label (fn_entry_vram func)} else {})"
      by (auto split: option.splits)
  have e3: "labels ?q = []"
  proof -
    have "labels (concat (map (dispatch_case_pieces x) vs)) = []" for x vs
      by (induction vs) (simp_all add: dispatch_case_pieces_def)
    then show ?thesis by (simp add: goto_pieces_def split: option.split)
  qed
  have e4: "static_funcs st1 = static_funcs st" by (simp add: e1)
  show thesis by (rule that [OF e1 e3 body [unfolded e4] fall tables e2])
qed

lemma function_body_jumps:
  assumes run: "function_body decode ctx func_index func tag st = Some (True, st')"
    and func: "func = ctx_functions ctx ! func_index"
    and fits: "unat (fn_vram func) + 4 * length (fn_words func) < 2 ^ 32"
    and decode: "marks_branches decode"
    and slots: "slots_plain (decode_words decode (fn_vram func) (fn_words func))"
    and entry: "has_other_entry func \<longrightarrow> in_function func (fn_entry_vram func)"
    and aligned: "labels_aligned ctx func (decode_words decode (fn_vram func) (fn_words func)) (static_funcs st)"
    and st: "\<not> needs_link_branch st"
  shows "\<exists>ps. out st' = out st @ ps \<and> set (gotos ps) \<subseteq> set (labels ps)"
proof -
  let ?is = "decode_words decode (fn_vram func) (fn_words func)"
  obtain st1 st2 qs tables where pre': "st1 = st\<lparr>out := out st @ qs @ label_pieces (L_label (fn_vram func))\<rparr>"
    and body: "translate_instructions (translation_of decode ctx func_index tag tables (static_funcs st)) st1 = Some (True, st2)"
    and fall: "only_if (function_end_allows_fallthrough ?is) (emit_fallthrough ctx func_index func) st2 = Some (True, st')"
    and tables: "analyze_function ctx func ?is = Done tables"
    and qs: "set (gotos qs) \<subseteq> L_label ` set (dispatch_labels func) \<union> (if has_other_entry func then {L_label (fn_entry_vram func)} else {})"
    using run by (rule function_body_cases)
  let ?tr = "translation_of decode ctx func_index tag tables (static_funcs st)"
  let ?ls = "branch_labels_of func ?is tables (static_funcs st)"
  have same: "static_funcs st1 = static_funcs st" "\<not> needs_link_branch st1"
    using st by (simp_all add: pre')
  have entries: "\<forall>t\<in>set tables. \<forall>e\<in>set (jt_entries t). in_function func e"
    using analyzed_entries [OF tables] unat_func_vram_end [OF fits] by (simp add: in_function_def word_less_nat_alt)
  have tr: "tr_func ?tr = func" "tr_instructions ?tr = ?is" "tr_branch_labels ?tr = ?ls"
    by (simp_all add: translation_of_def Let_def func)
  have "\<forall>l\<in>set ?ls. 4 dvd unat l - unat (fn_vram func)"
    using aligned tables by (simp add: labels_aligned_def)
  note pending = labels_pending [OF fits this]
  have "\<exists>ps. out st2 = out st1 @ ps \<and> set (gotos ps) \<subseteq> label_names func ?ls \<union> set (labels ps) \<and>
      L_label ` set (tr_branch_labels ?tr) \<subseteq> set (labels ps)"
    by (rule translate_instructions_jumps [OF body])
      (use translation_targets [OF fits func decode entries, of tag "static_funcs st"] slots pending same(2)
        in \<open>simp_all add: tr\<close>)
  then obtain ps where ps: "out st2 = out st1 @ ps" "set (gotos ps) \<subseteq> label_names func ?ls \<union> set (labels ps)"
    "L_label ` set ?ls \<subseteq> set (labels ps)" unfolding tr by blast
  have "obeys quiet (only_if (function_end_allows_fallthrough ?is) (emit_fallthrough ctx func_index func))"
    by (intro quiet.obeys_only_if quiet_fallthrough)
  from obeysD [OF this fall] obtain fs where fs: "out st' = out st2 @ fs" "gotos fs = []"
    by (auto simp: quiet_def)
  have disp: "L_label ` set (dispatch_labels func) \<subseteq> L_label ` set ?ls"
    using dispatch_label_member by auto
  have "L_label (fn_entry_vram func) \<in> L_label ` set ?ls" if "has_other_entry func"
    using entry that by (auto simp: branch_labels_member all_labels_def has_other_entry_def)
  with disp have "L_label ` set (dispatch_labels func) \<union> (if has_other_entry func then {L_label (fn_entry_vram func)} else {})
      \<subseteq> L_label ` set ?ls" by auto
  then have "set (gotos qs) \<subseteq> set (labels ps)" using qs ps(3) by (meson subset_trans)
  then show ?thesis using ps fs pre'
    by (intro exI [of _ "qs @ label_pieces (L_label (fn_vram func)) @ ps @ fs"]) (auto simp: label_pieces_def)
qed

lemma impl_cases:
  assumes "recompile_function_impl decode ctx func_index tag (start_emitting static_funcs_out) = Some (True, st)"
  obtains func st1 st2 where "func = ctx_functions ctx ! func_index" "labels (out st1) = []"
    "only_if (\<not> fn_stubbed func) (function_body decode ctx func_index func tag) st1 = Some (True, st2)"
    "put_text emit_function_end st2 = Some (True, st)"
    "static_funcs st1 = static_funcs_out" "\<not> needs_link_branch st1" "gotos (out st1) = []"
proof -
  let ?head = "\<lambda>func. chain [put_text (emit_function_start (fn_name func)), only_if (trace_mode ctx) (indented ''TRACE_ENTRY()'')]"
  define func where "func = ctx_functions ctx ! func_index"
  from assms obtain st1 st2 where
    head: "?head func (start_emitting static_funcs_out) = Some (True, st1)"
    and body: "only_if (\<not> fn_stubbed func) (function_body decode ctx func_index func tag) st1 = Some (True, st2)"
    and tail: "put_text emit_function_end st2 = Some (True, st)"
    unfolding recompile_function_impl_def
    by (auto simp: func_def demand_def crash_def nth_opt_def chain_cons_ok chain_nil_ok simp del: chain.simps split: if_splits)
  have "labels (out st1) = []" "static_funcs st1 = static_funcs_out" "\<not> needs_link_branch st1" "gotos (out st1) = []"
    using head by (auto simp: start_emitting_def put_text_def put_def only_if_def indented_def skip_def split: if_splits)
  with body tail show thesis by (intro that) (simp_all add: func_def)
qed

text \<open>C1: let a function be translated successfully that does not wrap around the address space, whose alternative entry, if it has one,
  lies in the function, with a decoder that marks the instructions with a branch target as branches, no jump in a delay slot, and all
  labels at a whole number of words from its start. Then every goto in its text goes to a label that the function has, also when
  it stands in a delay slot, a jump table or a tail-call dispatch.\<close>

theorem no_dangling_jumps:
  assumes "recompile_function_impl decode ctx func_index tag (start_emitting static_funcs_out) = Some (True, st)"
    and "func = ctx_functions ctx ! func_index" and "instrs = decode_words decode (fn_vram func) (fn_words func)"
    and "unat (fn_vram func) + 4 * length (fn_words func) < 2 ^ 32"
    and "marks_branches decode" and "slots_plain instrs"
    and "has_other_entry func \<longrightarrow> in_function func (fn_entry_vram func)"
    and "labels_aligned ctx func instrs static_funcs_out"
  shows "set (gotos (out st)) \<subseteq> set (labels (out st))"
proof -
  obtain st1 st2 where
    body: "only_if (\<not> fn_stubbed func) (function_body decode ctx func_index func tag) st1 = Some (True, st2)"
    and tail: "put_text emit_function_end st2 = Some (True, st)"
    and st1: "static_funcs st1 = static_funcs_out" "\<not> needs_link_branch st1" "gotos (out st1) = []"
    using assms(1,2) by (metis impl_cases)
  have "\<exists>ps. out st2 = out st1 @ ps \<and> set (gotos ps) \<subseteq> set (labels ps)"
  proof (cases "fn_stubbed func")
    case True
    then show ?thesis using body by (auto simp: only_if_def skip_def)
  next
    case False
    then have "function_body decode ctx func_index func tag st1 = Some (True, st2)" using body by (simp add: only_if_def)
    from function_body_jumps [OF this assms(2)] show ?thesis using assms(3-) st1 by simp
  qed
  then show ?thesis using tail st1(3) by (auto simp: put_text_def put_def)
qed

section \<open>A function that runs through\<close>

text \<open>A function of four words: \<open>nop\<close>, then an endless loop of a \<open>nop\<close> and a branch back to it, with its delay slot.\<close>

definition loop_decoder :: decoder where
  "loop_decoder w v =
     (if w = 1 then (plain_instruction (Jump cpu_b) v)\<lparr>in_is_branch := True, in_branch_vram := 68\<rparr>
      else plain_instruction (Sys cpu_nop) v)"

definition loop_function :: recomp_function where
  "loop_function = make_function 64 0 [0, 0, 0x1000000, 0] ''spin'' 0 False False False 0"

definition loop_context :: recompiler_context where
  "loop_context = context_default\<lparr>ctx_functions := [loop_function], sections := [section_default]\<rparr>"

lemma tables_none:
  "binary_ops (Sys cpu_nop) = None" "unary_ops (Sys cpu_nop) = None" "store_ops (Sys cpu_nop) = None"
  "conditional_branch_ops (Sys cpu_nop) = None"
  "binary_ops (Jump cpu_b) = None" "unary_ops (Jump cpu_b) = None" "store_ops (Jump cpu_b) = None"
  "conditional_branch_ops (Jump cpu_b) = None"
  by (simp_all add: binary_ops_def binary_ops_table_def unary_ops_def unary_ops_table_def store_ops_def store_ops_table_def
      conditional_branch_ops_def conditional_branch_ops_table_def)

definition plain_translation :: "translation \<Rightarrow> bool" where
  "plain_translation tr \<longleftrightarrow>
     (\<exists>sec. nth_opt (sections (tr_ctx tr)) (unat (fn_section_index (tr_func tr))) = Some sec \<and> sec_relocs sec = []) \<and>
     fn_function_hooks (tr_func tr) = Map.empty \<and> tr_jtbl_lw tr = []"

lemma chain_put: "chain (put ps # fs) st = chain fs (st\<lparr>out := out st @ ps\<rparr>)"
  by (simp add: put_def)

lemma chain_flags:
  "chain (set_needs_link b # fs) st = chain fs (st\<lparr>needs_link_branch := b\<rparr>)"
  "chain (set_branch_likely b # fs) st = chain fs (st\<lparr>is_branch_likely := b\<rparr>)"
  "chain (skip # fs) st = chain fs st" "chain [] st = Some (True, st)"
  by (simp_all add: set_needs_link_def set_branch_likely_def skip_def)

lemmas run_statement = chain_put chain_flags only_if_def table_case_def indent_line_def put_line_def put_text_def
  indented_def text_line_def

lemma process_nop:
  assumes "plain_translation tr" "in_id instr = Sys cpu_nop"
  shows "process_from (instr # rest) tr idx indent False k r st =
    Some (True, st\<lparr>out := out st @ [Text ''    '', Text (instruction_comment instr)] @
      (if indent then [Text ''    ''] else []) @ [Text (line '''')],
      needs_link_branch := False, is_branch_likely := False\<rparr>)"
proof -
  obtain sec where sec: "nth_opt (sections (tr_ctx tr)) (unat (fn_section_index (tr_func tr))) = Some sec" "sec_relocs sec = []"
    using assms(1) by (auto simp: plain_translation_def)
  have site: "chain [translate_site s (Sys cpu_nop) indent False] st1 =
     Some (True, st1\<lparr>out := out st1 @ (if indent then [Text ''    ''] else []) @ [Text (line '''')]\<rparr>)" for s st1
    by (simp add: translate_site_def special_case_def tables_none is_handled_def run_statement put_def skip_def)
  show ?thesis
    using assms sec
    by (simp add: run_statement emit_hook_def plain_translation_def effective_id_def find_reloc_def demand_def site
       del: chain.simps)
qed

lemma flags_off:
  "\<not> needs_link_branch st \<Longrightarrow> \<not> is_branch_likely st \<Longrightarrow>
   st\<lparr>out := x, needs_link_branch := False, is_branch_likely := False\<rparr> = st\<lparr>out := x\<rparr>"
  by (cases st) simp

lemma process_b:
  assumes tr: "plain_translation tr" and id: "in_id instr = Jump cpu_b" and nop: "in_id slot = Sys cpu_nop"
    and target: "in_function (tr_func tr) (in_branch_vram instr)" "in_branch_vram instr < in_vram instr"
    and idx: "idx + 1 < length (tr_instructions tr)"
  shows "\<exists>ps. (\<forall>st. process_from (instr # slot # rest) tr idx False False k r st =
    Some (True, st\<lparr>out := out st @ ps, needs_link_branch := False, is_branch_likely := False\<rparr>)) \<and>
    gotos ps = [L_label (in_branch_vram instr)] \<and> labels ps = []"
proof -
  obtain sec where sec: "nth_opt (sections (tr_ctx tr)) (unat (fn_section_index (tr_func tr))) = Some sec" "sec_relocs sec = []"
    using tr by (auto simp: plain_translation_def)
  let ?slot = "[Text ''    '', Text (instruction_comment slot), Text ''    '', Text (line [])]"
  let ?ps = "?slot @ [Text (''    '' @ line (''    '' @ loop_checkpoint (in_vram instr))),
    Text ''        ''] @ goto_pieces (L_label (in_branch_vram instr))"
  have inner: "\<not> length (tr_instructions tr) - Suc 0 \<le> idx" using idx by simp
  have site: "chain [translate_site (site_of (slot # rest) tr sec instr idx k r no_reloc) (Jump cpu_b) False False] st1 =
     Some (True, st1\<lparr>out := out st1 @ ?ps\<rparr>)" if "\<not> needs_link_branch st1" "\<not> is_branch_likely st1" for st1
    using target that inner less_imp_neq [OF target(2)] less_imp_le [OF target(2)]
    by (simp add: translate_site_def special_case_def tables_none is_handled_def run_statement translate_j_def Let_def
        emit_branch_tree_def s_func_def s_vram_def site_of_def emit_delay_slot_def keep_flags_def
        process_nop [OF tr nop] put_def skip_def when_link_def flags_off del: process_from.simps)
  have "\<forall>st. process_from (instr # slot # rest) tr idx False False k r st =
    Some (True, st\<lparr>out := out st @ [Text ''    '', Text (instruction_comment instr)] @ ?ps,
      needs_link_branch := False, is_branch_likely := False\<rparr>)"
    using tr id sec
    by (intro allI, subst process_from.simps, unfold site_of_def [symmetric])
      (simp add: run_statement emit_hook_def plain_translation_def effective_id_def find_reloc_def demand_def site
       del: chain.simps process_from.simps)
  then show ?thesis by (intro exI conjI, assumption) (simp_all add: goto_pieces_def del: process_from.simps)
qed

abbreviation "loop_code \<equiv> decode_words loop_decoder 64 [0, 0, 0x1000000, 0]"

lemma loop_code:
  "loop_code = [plain_instruction (Sys cpu_nop) 64, plain_instruction (Sys cpu_nop) 68,
     (plain_instruction (Jump cpu_b) 72)\<lparr>in_is_branch := True, in_branch_vram := 68\<rparr>, plain_instruction (Sys cpu_nop) 76]"
proof -
  have "byteswap 0 = 0" "byteswap 0x1000000 = 1" by code_simp+
  then show ?thesis by (simp add: loop_decoder_def)
qed

lemma loop_labels:
  "analyze_function loop_context loop_function loop_code = Done []"
  "branch_labels_of loop_function loop_code [] [] = [68]" "local_tailcall_labels_of loop_function [] = []"
  "function_end_allows_fallthrough loop_code = False" "in_function loop_function 68"
  "slots_plain loop_code"
  unfolding loop_code by code_simp+

lemma loop_function_simps:
  "fn_vram loop_function = 64" "fn_words loop_function = [0, 0, 0x1000000, 0]" "fn_stubbed loop_function = False"
  "fn_name loop_function = ''spin''" "fn_function_hooks loop_function = Map.empty" "fn_section_index loop_function = 0"
  "has_other_entry loop_function = False" "fn_dispatch_entry_vrams loop_function = []"
  by (simp_all add: loop_function_def make_function_def has_other_entry_def)

lemma loop_context_simps:
  "nth_opt (ctx_functions loop_context) 0 = Some loop_function" "trace_mode loop_context = False"
  "nth_opt (sections loop_context) 0 = Some section_default" "sec_relocs section_default = []"
  "ctx_functions loop_context = [loop_function]"
  by (simp_all add: loop_context_def context_default_def nth_opt_def section_default_def)

lemma loop_plain:
  "plain_translation (translation_of loop_decoder loop_context 0 False [] [])"
  by (simp add: plain_translation_def translation_of_def Let_def loop_context_simps loop_function_simps)

lemma loop_step:
  assumes "\<And>st. process_instruction tr idx False False k r st =
      Some (True, st\<lparr>out := out st @ ps, needs_link_branch := False, is_branch_likely := False\<rparr>)"
    and "lp_num_link lp = k" "lp_reloc_index lp = r" "\<not> lp_in_likely lp" "\<not> needs_link_branch st"
  shows "translate_loop (Suc n) tr [] idx lp st =
    translate_loop n tr [] (idx + 1)
      (lp\<lparr>lp_vram := lp_vram lp + 4, lp_labels := (if at_label lp then tl (lp_labels lp) else lp_labels lp)\<rparr>)
      (st\<lparr>out := out st @ (if at_label lp then label_pieces (L_label (hd (lp_labels lp))) else []) @ ps,
          needs_link_branch := False, is_branch_likely := False\<rparr>)"
proof -
  have adv: "advance_reloc [] v i = i" for v i by (simp add: advance_reloc.simps)
  show ?thesis
    using assms by (cases lp)
      (simp add: with_state_def loop_body_def only_if_def run_statement put_def skip_def next_loop_state_def adv
        split: prod.split option.split)
qed

lemma loop_instructions:
  "\<exists>ps. (\<forall>st. \<not> needs_link_branch st \<longrightarrow>
      translate_instructions (translation_of loop_decoder loop_context 0 False [] []) st =
      Some (True, st\<lparr>out := out st @ ps, needs_link_branch := False, is_branch_likely := False\<rparr>)) \<and>
     gotos ps = [''L_00000044''] \<and> labels ps = [''L_00000044'']"
proof -
  let ?tr = "translation_of loop_decoder loop_context 0 False [] []"
  have tr: "tr_ctx ?tr = loop_context" "tr_func ?tr = loop_function" "tr_branch_labels ?tr = [68]"
    "tr_instructions ?tr = loop_code"
    using loop_labels by (simp_all add: translation_of_def Let_def loop_context_simps loop_function_simps)
  let ?i = "(plain_instruction (Jump cpu_b) 72)\<lparr>in_is_branch := True, in_branch_vram := 68\<rparr>"
  let ?nop = "\<lambda>v. plain_instruction (Sys cpu_nop) v"
  have id: "in_id (?nop v) = Sys cpu_nop" "in_id ?i = Jump cpu_b" "in_branch_vram ?i = 68" "in_vram ?i = 72" for v
    by (simp_all add: plain_instruction_def)
  have L: "L_label 68 = ''L_00000044''" by code_simp
  define nop where "nop v = [Text ''    '', Text (instruction_comment (?nop v)), Text (line '''')]" for v
  have nops: "process_from (?nop v # rest) ?tr idx False False k r st =
    Some (True, st\<lparr>out := out st @ nop v, needs_link_branch := False, is_branch_likely := False\<rparr>)" for v rest idx k r st
    using process_nop [OF loop_plain id(1)] by (simp add: nop_def del: process_from.simps)
  obtain ps where ps: "gotos ps = [L_label 68]" "labels ps = []"
    "\<And>st. process_from [?i, ?nop 76] ?tr 2 False False 0 0 st =
      Some (True, st\<lparr>out := out st @ ps, needs_link_branch := False, is_branch_likely := False\<rparr>)"
    using process_b [OF loop_plain id(2,1), where idx = 2 and rest = "[]" and k = 0 and r = 0] loop_labels(5) unfolding loop_code
    by (auto simp add: id tr loop_code simp del: process_from.simps)
  note code = process_instruction_def tr(4) loop_code
  have steps: "process_instruction ?tr 0 False False 0 0 st =
      Some (True, st\<lparr>out := out st @ nop 64, needs_link_branch := False, is_branch_likely := False\<rparr>)"
    "process_instruction ?tr (Suc 0) False False 0 0 st =
      Some (True, st\<lparr>out := out st @ nop 68, needs_link_branch := False, is_branch_likely := False\<rparr>)"
    "process_instruction ?tr (Suc (Suc 0)) False False 0 0 st =
      Some (True, st\<lparr>out := out st @ ps, needs_link_branch := False, is_branch_likely := False\<rparr>)"
    "process_instruction ?tr (Suc (Suc (Suc 0))) False False 0 0 st =
      Some (True, st\<lparr>out := out st @ nop 76, needs_link_branch := False, is_branch_likely := False\<rparr>)" for st
    using ps(3) [unfolded numeral_2_eq_2] unfolding code by (simp_all add: nops del: process_from.simps)
  have "translate_instructions ?tr st =
      Some (True, st\<lparr>out := out st @ nop 64 @ label_pieces (L_label 68) @ nop 68 @ ps @ nop 76,
        needs_link_branch := False, is_branch_likely := False\<rparr>)" if "\<not> needs_link_branch st" for st
  proof -
    let ?lp = "\<lparr>lp_vram = 64, lp_labels = [68], lp_num_link = 0, lp_num_likely = 0, lp_in_likely = False, lp_reloc_index = 0\<rparr>"
    have "translate_instructions ?tr st = translate_loop (Suc (Suc (Suc (Suc 0)))) ?tr [] 0 ?lp st"
      by (simp add: translate_instructions_def tr loop_context_simps loop_function_simps demand_def loop_code
          del: translate_loop.simps)
    also have "\<dots> = Some (True, st\<lparr>out := out st @ nop 64 @ label_pieces (L_label 68) @ nop 68 @ ps @ nop 76,
        needs_link_branch := False, is_branch_likely := False\<rparr>)"
      using that
      by (simp add: loop_step [OF steps(1)] loop_step [OF steps(2)] loop_step [OF steps(3)]
          loop_step [OF steps(4)] at_label_def skip_def del: translate_loop.simps(2))
    finally show ?thesis .
  qed
  then show ?thesis using ps(1,2)
    by (intro exI [of _ "nop 64 @ label_pieces (L_label 68) @ nop 68 @ ps @ nop 76"])
      (simp add: nop_def label_pieces_def L)
qed

lemma loop_translated:
  "\<exists>st. recompile_function_impl loop_decoder loop_context 0 False (start_emitting []) = Some (True, st) \<and>
     gotos (out st) = [''L_00000044''] \<and> labels (out st) = [''L_00000040'', ''L_00000044'']"
proof -
  obtain ps where run: "\<not> needs_link_branch st \<Longrightarrow>
      translate_instructions (translation_of loop_decoder loop_context 0 False [] []) st =
      Some (True, st\<lparr>out := out st @ ps, needs_link_branch := False, is_branch_likely := False\<rparr>)"
    and ps: "gotos ps = [''L_00000044'']" "labels ps = [''L_00000044'']" for st
    using loop_instructions by blast
  have L: "L_label 64 = ''L_00000040''" by code_simp
  show ?thesis
    using run
    by (simp add: recompile_function_impl_def demand_def loop_context_simps loop_function_simps only_if_def
        function_body_def dispatch_switch_def entry_goto_def start_emitting_def run_statement put_def skip_def
        loop_labels(1,4) with_state_def nth_opt_def ps label_pieces_def L Let_def del: decode_words.simps)
qed

lemma no_dangling_jumps_witness:
  "\<exists>st. recompile_function_impl loop_decoder loop_context 0 False (start_emitting []) = Some (True, st) \<and>
     gotos (out st) = [''L_00000044''] \<and> set (gotos (out st)) \<subseteq> set (labels (out st))"
proof -
  obtain st where st: "recompile_function_impl loop_decoder loop_context 0 False (start_emitting []) = Some (True, st)"
    and g: "gotos (out st) = [''L_00000044'']"
    using loop_translated by blast
  have func: "loop_function = ctx_functions loop_context ! 0" by (simp add: loop_context_simps)
  have "set (gotos (out st)) \<subseteq> set (labels (out st))"
  proof (rule no_dangling_jumps [OF st func refl])
    show "marks_branches loop_decoder"
      by (simp add: marks_branches_def loop_decoder_def takes_target_def plain_instruction_def)
    show "slots_plain (decode_words loop_decoder (fn_vram loop_function) (fn_words loop_function))"
      unfolding loop_function_simps by (rule loop_labels)
    show "labels_aligned loop_context loop_function
        (decode_words loop_decoder (fn_vram loop_function) (fn_words loop_function)) []"
      unfolding labels_aligned_def loop_function_simps by (simp add: loop_labels(1,2) loop_function_simps del: decode_words.simps)
  qed (simp_all add: loop_function_simps)
  with st g show ?thesis by blast
qed

end
