(* ===== verification/Label_Uniqueness.thy ===== *)
theory Label_Uniqueness
  imports Function_Labels
begin

text \<open>The labels of a translated function: no label is emitted twice.\<close>

section \<open>Every label is emitted once\<close>

lemma fmt_nat_inj: "fmt_nat m = fmt_nat n \<longleftrightarrow> m = n"
proof
  show "fmt_nat m = fmt_nat n \<Longrightarrow> m = n"
  proof (induction m arbitrary: n rule: less_induct)
    case (less m)
    have digit: "hex_digit (a mod 10) = hex_digit (b mod 10) \<longleftrightarrow> a mod 10 = b mod 10" for a b
      by (rule hex_digit_inj) (auto intro: order_less_trans [OF mod_less_divisor])
    have ne: "fmt_nat k \<noteq> []" for k by (subst fmt_nat.simps) simp
    show ?case
    proof (cases "m < 10 \<or> n < 10")
      case True
      have single: "length (fmt_nat k) = 1 \<longleftrightarrow> k < 10" for k
        by (subst fmt_nat.simps) (use ne in auto)
      with True have "m < 10" "n < 10" by (metis less.prems)+
      then show ?thesis using less.prems by (simp add: fmt_nat.simps [of m] fmt_nat.simps [of n] hex_digit_inj)
    next
      case False
      then have "fmt_nat (m div 10) @ [hex_digit (m mod 10)] = fmt_nat (n div 10) @ [hex_digit (n mod 10)]"
        using less.prems by (subst (asm) (1 2) fmt_nat.simps) simp
      then have "fmt_nat (m div 10) = fmt_nat (n div 10)" "m mod 10 = n mod 10" using digit by simp_all
      with less.IH [of "m div 10" "n div 10"] False have "m div 10 = n div 10" by simp
      with \<open>m mod 10 = n mod 10\<close> show ?thesis by (metis div_mult_mod_eq)
    qed
  qed
qed simp

lemma label_names_distinct:
  "L_label a = L_label b \<longleftrightarrow> a = b" "after_label m = after_label n \<longleftrightarrow> m = n" "skip_label m = skip_label n \<longleftrightarrow> m = n"
  "L_label a \<noteq> after_label n" "L_label a \<noteq> skip_label n" "after_label m \<noteq> skip_label n"
  "after_label n \<noteq> L_label a" "skip_label n \<noteq> L_label a" "skip_label n \<noteq> after_label m"
  by (simp_all add: L_label_def after_label_def skip_label_def fmt_nat_inj)

lemma process_labels:
  assumes "process_instruction tr idx False link k r st = Some (True, st')"
  shows "labels (out st') = labels (out st) @ (if link then [after_label k] else [])"
proof (cases link)
  case False
  then show ?thesis
    using obeysD [OF no_label.process_instruction_rule, of tr idx False k r st True st'] assms
    by (simp add: adds_no_label_def)
next
  case True
  obtain instr rest where code: "drop idx (tr_instructions tr) = instr # rest"
    using assms by (cases "drop idx (tr_instructions tr)") (auto simp: process_instruction_def crash_def)
  from assms have "process_from (instr # rest) tr idx False True k r st = Some (True, st')"
    unfolding process_instruction_def code using True by simp
  then obtain st1 sec i use where *: "silent st st1" "effective_id tr instr = Some i"
    "translate_site (site_of rest tr sec instr idx k r use) i False True st1 = Some (True, st')"
    and no: "labels (out st1) = labels (out st)"
    by (rule process_from_cases)
  let ?s = "site_of rest tr sec instr idx k r use"
  obtain st2 where 2: "translate_site ?s i False False st1 = Some (True, st2)"
    "st' = st2\<lparr>out := out st2 @ Text ''    '' # label_pieces (after_label (s_link_index ?s))\<rparr>"
    using *(3) by (rule translate_site_link)
  have "no_label.slot_obeys ?s" by (simp add: no_label.slot_obeys_def site_of_def no_label.process_rule)
  from obeysD [OF no_label.translate_site_rule [OF this] 2(1)] have "labels (out st2) = labels (out st1)"
    by (simp add: adds_no_label_def)
  then show ?thesis using 2(2) no True by (simp add: site_of_def label_pieces_def)
qed

text \<open>The labels that the rest of the walk may still emit.\<close>

definition future_labels :: "loop_state \<Rightarrow> string set" where
  "future_labels lp = L_label ` set (lp_labels lp) \<union> {after_label j | j. lp_num_link lp \<le> j} \<union>
     {skip_label j | j. lp_num_likely lp \<le> j}"

lemma loop_body_labels:
  assumes "loop_body tr relocs idx lp had st = Some (True, st')"
  shows "labels (out st') = labels (out st) @
    (if at_label lp then [L_label (hd (lp_labels lp))] else []) @
    (if had then [after_label (lp_num_link lp)] else []) @
    (if lp_in_likely lp then [skip_label (lp_num_likely lp)] else [])"
proof -
  from assms obtain st1 st2 where
    1: "st1 = st\<lparr>out := out st @ (if lp_in_likely lp then goto_pieces (skip_label (lp_num_likely lp)) else []) @
           (if at_label lp then label_pieces (L_label (hd (lp_labels lp))) else [])\<rparr>"
    and 2: "process_instruction tr idx False had (lp_num_link lp) (advance_reloc relocs (lp_vram lp) (lp_reloc_index lp)) st1 =
      Some (True, st2)"
    and 3: "st' = st2\<lparr>out := out st2 @ (if lp_in_likely lp then Text ''    '' # label_pieces (skip_label (lp_num_likely lp)) else [])\<rparr>"
    by (rule loop_body_cases)
  show ?thesis using process_labels [OF 2] by (simp add: 1 3 goto_pieces_def label_pieces_def)
qed

lemma translate_loop_labels:
  assumes "translate_loop n tr relocs idx lp st = Some (True, st')" and "distinct (lp_labels lp)"
  shows "\<exists>qs. labels (out st') = labels (out st) @ qs \<and> distinct qs \<and> set qs \<subseteq> future_labels lp"
  using assms
proof (induction n arbitrary: idx lp st)
  case 0
  then show ?case by (simp add: skip_def)
next
  case (Suc n)
  from Suc.prems(1) obtain st1 where
    body: "loop_body tr relocs idx lp (needs_link_branch st) st = Some (True, st1)"
    and rest: "translate_loop n tr relocs (idx + 1)
      (next_loop_state relocs (needs_link_branch st) (is_branch_likely st1) lp) st1 = Some (True, st')"
    unfolding translate_loop.simps with_state_def chain_cons_ok by auto
  let ?lp = "next_loop_state relocs (needs_link_branch st) (is_branch_likely st1) lp"
  let ?here = "(if at_label lp then [L_label (hd (lp_labels lp))] else []) @
    (if needs_link_branch st then [after_label (lp_num_link lp)] else []) @
    (if lp_in_likely lp then [skip_label (lp_num_likely lp)] else [])"
  have "distinct (lp_labels ?lp)" using Suc.prems(2) by (auto simp: next_loop_state_def distinct_tl)
  from Suc.IH [OF rest this] obtain qs where qs: "labels (out st') = labels (out st1) @ qs" "distinct qs"
    "set qs \<subseteq> future_labels ?lp" by blast
  have "distinct ?here" by (auto simp: label_names_distinct)
  have mono: "future_labels ?lp \<subseteq> future_labels lp"
    by (auto simp: future_labels_def next_loop_state_def at_label_def dest: list.set_sel(2) split: if_splits)
  have sub: "set ?here \<subseteq> future_labels lp"
    by (auto simp: future_labels_def at_label_def)
  have "hd (lp_labels lp) \<notin> set (tl (lp_labels lp))" if "at_label lp"
    using Suc.prems(2) that by (cases "lp_labels lp") (auto simp: at_label_def)
  then have "set ?here \<inter> future_labels ?lp = {}"
    by (auto simp: future_labels_def next_loop_state_def label_names_distinct)
  with qs \<open>distinct ?here\<close> mono sub loop_body_labels [OF body] show ?case
    by (intro exI [of _ "?here @ qs"]) (auto simp del: set_append)
qed

text \<open>C2: no label is emitted twice: the branch labels, the return labels of calls and the skip labels of likely branches
  of a successfully translated function are pairwise distinct. Code that is emitted twice, as the instruction in
  a delay slot is, carries no label.\<close>

theorem labels_distinct:
  assumes "recompile_function_impl decode ctx func_index tag (start_emitting static_funcs_out) = Some (True, st)"
  shows "distinct (labels (out st))"
proof -
  obtain func st1 st2 where func: "func = ctx_functions ctx ! func_index"
    and st1: "labels (out st1) = []"
    and body: "only_if (\<not> fn_stubbed func) (function_body decode ctx func_index func tag) st1 = Some (True, st2)"
    and tail: "put_text emit_function_end st2 = Some (True, st)"
    using assms by (rule impl_cases)
  have "distinct (labels (out st2))"
  proof (cases "fn_stubbed func")
    case True
    then show ?thesis using body st1 by (auto simp: only_if_def skip_def)
  next
    case False
    then have run: "function_body decode ctx func_index func tag st1 = Some (True, st2)" using body by (simp add: only_if_def)
    let ?is = "decode_words decode (fn_vram func) (fn_words func)"
    obtain st3 st4 qs tables where pre: "st3 = st1\<lparr>out := out st1 @ qs @ label_pieces (L_label (fn_vram func))\<rparr>" "labels qs = []"
      and body: "translate_instructions (translation_of decode ctx func_index tag tables (static_funcs st1)) st3 = Some (True, st4)"
      and fall: "only_if (function_end_allows_fallthrough ?is) (emit_fallthrough ctx func_index func) st4 = Some (True, st2)"
      using run by (rule function_body_cases)
    let ?ls = "branch_labels_of func ?is tables (static_funcs st1)"
    let ?lp = "\<lparr>lp_vram = fn_vram func, lp_labels = ?ls, lp_num_link = 0, lp_num_likely = 0, lp_in_likely = False, lp_reloc_index = 0\<rparr>"
    obtain relocs where "translate_loop (length ?is) (translation_of decode ctx func_index tag tables (static_funcs st1)) relocs 0 ?lp st3
        = Some (True, st4)"
      using body func by (auto simp: translate_instructions_def demand_def crash_def translation_of_def Let_def split: option.splits)
    moreover have "distinct ?ls" by (simp add: branch_labels_of_def)
    ultimately obtain ls where ls: "labels (out st4) = labels (out st3) @ ls" "distinct ls" "set ls \<subseteq> future_labels ?lp"
      using translate_loop_labels by fastforce
    have "fn_vram func \<notin> set ?ls" by (simp add: branch_labels_member)
    then have "L_label (fn_vram func) \<notin> set ls"
      using ls(3) by (auto simp: future_labels_def label_names_distinct)
    moreover have "obeys adds_no_label (only_if (function_end_allows_fallthrough ?is) (emit_fallthrough ctx func_index func))"
      unfolding emit_fallthrough_def Let_def by (auto intro!: no_label.basic_rules split: option.split)
    from obeysD [OF this fall] have "labels (out st2) = labels (out st4)" by (simp add: adds_no_label_def)
    ultimately show ?thesis using ls pre st1 by (simp add: label_pieces_def)
  qed
  then show ?thesis using tail by (auto simp: put_text_def put_def)
qed

lemma labels_distinct_witness:
  "\<exists>st. recompile_function_impl loop_decoder loop_context 0 False (start_emitting []) = Some (True, st) \<and>
     labels (out st) = [''L_00000040'', ''L_00000044''] \<and> distinct (labels (out st))"
  using loop_translated labels_distinct [of loop_decoder loop_context 0 False "[]"] by blast

end
