(* ===== verification/Translation_Errors.thy ===== *)
theory Translation_Errors
  imports Label_Uniqueness
begin

text \<open>
  What the translation does at the end of a function and when it fails: a function that is cut off before a delay slot is
  refused, with one exception, and requests for static functions are never taken back.
\<close>

section \<open>Functions that are cut off\<close>

text \<open>The instructions whose translation begins with their delay slot.\<close>

definition needs_slot :: "instruction \<Rightarrow> bool" where
  "needs_slot instr \<longleftrightarrow>
     (case conditional_branch_ops (in_id instr) of Some op \<Rightarrow> \<not> cbr_link op | None \<Rightarrow>
        in_id instr = Jump cpu_jalr \<or> in_id instr = Jump cpu_jr \<and> in_rs instr = GPR_ra)"

lemma never_demand: "(\<And>y. x = Some y \<Longrightarrow> never_ok (f y)) \<Longrightarrow> never_ok (demand x f)"
  by (auto simp: demand_def never_ok_def crash_def split: option.split)

lemma never_with_state: "(\<And>st. never_ok (f st)) \<Longrightarrow> never_ok (with_state f)"
  by (auto simp: never_ok_def with_state_def)

lemma never_branch_tree:
  assumes last: "last_site s"
  shows "never_ok (emit_branch_tree s v)"
proof (cases "in_function (s_func s) v")
  case True
  then show ?thesis unfolding emit_branch_tree_def by (simp add: never_slot [OF last, of True])
next
  case False
  have "never_ok (chain [push_static k v, emit_tailcall_by_function s n v])" for k n
    by (rule never_chain [of "emit_tailcall_by_function s n v"])
      (simp_all add: emit_tailcall_by_function_def never_slot_statements [OF last])
  then have "never_ok (branch_outside s v r)" for r
    unfolding branch_outside_def
    by (cases r) (auto intro!: never_demand never_with_state never_slot_statements [OF last]
        simp: emit_tailcall_by_function_def emit_tailcall_by_address_def)
  then show ?thesis using False unfolding emit_branch_tree_def by (auto intro!: never_demand)
qed

lemma never_translate_site:
  assumes last: "last_site s" and needs: "needs_slot (s_instr s)"
  shows "never_ok (translate_site s (in_id (s_instr s)) indent link)"
proof (cases "conditional_branch_ops (in_id (s_instr s))")
  case (Some op)
  then have "never_ok (translate_branch s op)"
    using needs never_branch_tree [OF last] unfolding translate_branch_def Let_def needs_slot_def
    by (intro never_chain [of "emit_branch_tree s (in_branch_vram (s_instr s))"]) auto
  with Some show ?thesis unfolding translate_site_def
    by (intro never_chain [of "table_case (translate_branch s) (Some op)"]) (simp_all add: table_case_def)
next
  case None
  have "never_ok (chain [f, emit_tailcall_by_register s r])" for f r
    by (rule never_chain [of "emit_tailcall_by_register s r"]) (simp_all add: never_slot_statements [OF last])
  moreover have "never_ok (chain [f, g, emit_call_by_register s r])" for f g r
    by (rule never_chain [of "emit_call_by_register s r"]) (simp_all add: never_slot_statements [OF last])
  ultimately have "never_ok (translate_jalr s)" unfolding translate_jalr_def by (simp add: Let_def)
  moreover have "never_ok (translate_jr s)" if "in_rs (s_instr s) = GPR_ra"
    using that never_slot_statements [OF last] by (simp add: translate_jr_def)
  ultimately obtain f where "special_case s (in_id (s_instr s)) = Some f" "never_ok f"
    using needs None unfolding needs_slot_def by (auto simp: special_case_def)
  then show ?thesis unfolding translate_site_def
    by (intro never_chain [of "table_case (\<lambda>f. f) (Some f)"]) (simp_all add: table_case_def)
qed

lemma needs_slot_id: "needs_slot instr \<Longrightarrow> is_jump (in_id instr)"
  using conditional_branch_is_jump by (auto simp: needs_slot_def split: option.splits)

lemma never_process_last:
  assumes "tr_instructions tr \<noteq> []" "needs_slot (last (tr_instructions tr))"
  shows "process_instruction tr (length (tr_instructions tr) - 1) indent link k r st \<noteq> Some (True, st')"
proof
  let ?n = "length (tr_instructions tr)" and ?instr = "last (tr_instructions tr)"
  assume run: "process_instruction tr (?n - 1) indent link k r st = Some (True, st')"
  have "drop (?n - 1) (tr_instructions tr) = [?instr]"
    using assms(1) by (cases "tr_instructions tr" rule: rev_cases) auto
  then have "process_from [?instr] tr (?n - 1) indent link k r st = Some (True, st')"
    using run by (simp add: process_instruction_def)
  then obtain st1 sec i use where *: "effective_id tr ?instr = Some i"
    "translate_site (site_of [] tr sec ?instr (?n - 1) k r use) i indent link st1 = Some (True, st')"
    by (rule process_from_cases)
  have jump: "is_jump (in_id ?instr)" by (rule needs_slot_id [OF assms(2)])
  then have "i = in_id ?instr" using *(1) by (auto simp: effective_id_def split: if_splits)
  moreover have "last_site (site_of [] tr sec ?instr (?n - 1) k r use)" by (simp add: last_site_def site_of_def)
  ultimately have "never_ok (translate_site (site_of [] tr sec ?instr (?n - 1) k r use) i indent link)"
    using never_translate_site [of "site_of [] tr sec ?instr (?n - 1) k r use"] assms(2) by (simp add: site_of_def)
  with *(2) show False by (simp add: never_ok_def)
qed

lemma translate_loop_last:
  "translate_loop (Suc n) tr relocs idx lp st = Some (True, st') \<Longrightarrow>
   \<exists>link k r st1 st2. process_instruction tr (idx + n) False link k r st1 = Some (True, st2)"
proof (induction n arbitrary: idx lp st)
  case 0
  then obtain st1 where "loop_body tr relocs idx lp (needs_link_branch st) st = Some (True, st1)"
    unfolding translate_loop.simps with_state_def chain_cons_ok by auto
  then show ?case by (rule loop_body_cases) (simp only: add_0_right, blast)
next
  case (Suc n)
  from Suc.prems obtain st1 lp' where "translate_loop (Suc n) tr relocs (idx + 1) lp' st1 = Some (True, st')"
    unfolding translate_loop.simps(2) [of "Suc n"] with_state_def chain_cons_ok by (auto simp del: translate_loop.simps)
  from Suc.IH [OF this] show ?case by simp
qed

text \<open>C4: a function that is not a stub and ends with a conditional branch that does not link, a \<open>jalr\<close>, or a \<open>jr\<close> to the return
  address is refused and leaves no text, whenever its translation is defined: the delay slot of the instruction is behind the end of the
  function. (Nothing is said of the other jumps, whose translation does not begin with the delay slot.)\<close>

theorem truncated_function_refused:
  assumes "func = ctx_functions ctx ! func_index" "\<not> fn_stubbed func" "fn_words func \<noteq> []"
    and "needs_slot (last (decode_words decode (fn_vram func) (fn_words func)))"
    and "recompile_function decode ctx func_index static_funcs_out tag = Some (ok, text_out, static_funcs_out')"
  shows "\<not> ok \<and> text_out = ''''"
proof -
  have False if "recompile_function decode ctx func_index static_funcs_out tag = Some (True, t, s)" for t s
  proof -
  note that
  then obtain st where "recompile_function_impl decode ctx func_index tag (start_emitting static_funcs_out) = Some (True, st)"
    by (auto simp: recompile_function_def)
  then obtain st1 st2 where "function_body decode ctx func_index func tag st1 = Some (True, st2)"
    using assms(1,2) by (elim impl_cases) (auto simp: only_if_def)
  then obtain tables st3 st4 where
    run: "translate_instructions (translation_of decode ctx func_index tag tables (static_funcs st1)) st3 = Some (True, st4)"
    by (rule function_body_cases)
  let ?tr = "translation_of decode ctx func_index tag tables (static_funcs st1)"
  let ?is = "decode_words decode (fn_vram func) (fn_words func)"
  have tr: "tr_instructions ?tr = ?is" by (simp add: translation_of_def Let_def assms(1))
  have n: "length ?is = Suc (length ?is - 1)" using assms(3) by simp
  from run obtain relocs lp where "translate_loop (Suc (length ?is - 1)) ?tr relocs 0 lp st3 = Some (True, st4)"
    unfolding translate_instructions_def tr n [symmetric]
    by (auto simp: demand_def crash_def split: option.splits)
  from translate_loop_last [OF this] obtain link k r st5 st6 where
    "process_instruction ?tr (length ?is - 1) False link k r st5 = Some (True, st6)" by auto
  moreover have "?is \<noteq> []" using assms(3) by (metis length_0_conv length_decode_words)
  ultimately show False using never_process_last [of ?tr False link k r st5 st6] assms(4) by (simp add: tr)
  qed
  then have "\<not> ok" using assms(5) by (cases ok) simp_all
  then show ?thesis using assms(5) by (auto simp: recompile_function_def)
qed

text \<open>The exception: the failure of an indirect tail call is not passed on.\<close>

text \<open>When the last instruction of a function is a jump to a register other than the return address, and no jump table
  belongs to it, its translation by \<open>translate_jr\<close> succeeds without emitting the jump.\<close>

lemma last_tail_call_dropped:
  assumes "last_site s" "in_rs (s_instr s) \<noteq> GPR_ra"
    and "\<forall>t\<in>set (tr_tables (s_tr s)). jt_jr_vram t \<noteq> s_vram s"
    and "s_section_index s < length (static_funcs st)"
  shows "\<exists>st'. translate_jr s st = Some (True, st') \<and> out st' = out st"
proof -
  have none: "find (\<lambda>t. jt_jr_vram t = s_vram s) (tr_tables (s_tr s)) = None"
    using assms(3) by (auto simp: find_None_iff)
  have "ignore_result (emit_tailcall_by_register s r) st' = Some (True, st')" for r st'
    by (simp add: emit_tailcall_by_register_def last_delay_slot [OF assms(1)] ignore_result_def give_up_def)
  moreover have "\<exists>st'. remember_fallthrough s st = Some (True, st') \<and> out st' = out st"
    using assms(4) by (auto simp: remember_fallthrough_def Let_def only_if_def skip_def push_static_def)
  ultimately show ?thesis using assms(2) none by (auto simp: translate_jr_def Let_def)
qed

section \<open>Witnesses\<close>

definition cut_function :: recomp_function where
  "cut_function = make_function 64 0 [0x2000000] ''cut'' 0 False False False 0"

definition return_decoder :: "nat \<Rightarrow> decoder" where
  "return_decoder r w v =
     (if w = 2 then (plain_instruction (Jump cpu_jr) v)\<lparr>in_rs := r, in_is_jump := True\<rparr>
      else plain_instruction (Sys cpu_nop) v)"

definition cut_context :: recompiler_context where
  "cut_context = context_default\<lparr>ctx_functions := [cut_function], sections := [section_default]\<rparr>"

lemma cut_function_run: "recompile_function (return_decoder GPR_ra) cut_context 0 [[]] False = Some (False, '''', [[]])"
  by code_simp

lemma truncated_function_refused_witness:
  "recompile_function (return_decoder GPR_ra) cut_context 0 [[]] False = Some (False, '''', [[]]) \<and> \<not> False \<and> '''' = ('''' :: string)"
proof -
  have f: "cut_function = ctx_functions cut_context ! 0" by (simp add: cut_context_def)
  have w: "\<not> fn_stubbed cut_function" "fn_words cut_function \<noteq> []" by (simp_all add: cut_function_def make_function_def)
  have "byteswap 0 = 0" "byteswap 0x2000000 = 2" by code_simp+
  then have "needs_slot (last (decode_words (return_decoder GPR_ra) (fn_vram cut_function) (fn_words cut_function)))"
    by (simp add: needs_slot_def cut_function_def make_function_def return_decoder_def plain_instruction_def
        conditional_branch_ops_def conditional_branch_ops_table_def)
  from truncated_function_refused [OF f w this cut_function_run] show ?thesis using cut_function_run by simp
qed

definition cut_site :: site where
  "cut_site = site_of [] (translation_of (return_decoder 25) cut_context 0 False [] [[]]) section_default
     ((plain_instruction (Jump cpu_jr) 68)\<lparr>in_rs := 25\<rparr>) 1 0 0 no_reloc"

lemma last_tail_call_dropped_witness:
  "\<exists>st'. translate_jr cut_site (start_emitting [[]]) = Some (True, st') \<and> out st' = []"
proof -
  have "\<exists>st'. translate_jr cut_site (start_emitting [[]]) = Some (True, st') \<and> out st' = out (start_emitting [[]])"
    by (rule last_tail_call_dropped)
      (simp_all add: cut_site_def site_of_def last_site_def translation_of_def Let_def cut_context_def cut_function_def
        make_function_def plain_instruction_def s_section_index_def s_func_def start_emitting_def)
  then show ?thesis by (simp add: start_emitting_def)
qed

section \<open>Requests for static functions\<close>

text \<open>Every request is kept, in its place.\<close>

definition requests_kept :: "u32 list list \<Rightarrow> u32 list list \<Rightarrow> bool" where
  "requests_kept before after \<longleftrightarrow> list_all2 (\<lambda>vs ws. \<exists>new. ws = vs @ new) before after"

lemma requests_kept_refl: "requests_kept r r"
  by (auto simp: requests_kept_def intro!: list_all2_refl)

lemma requests_kept_trans: "requests_kept a b \<Longrightarrow> requests_kept b c \<Longrightarrow> requests_kept a c"
  unfolding requests_kept_def by (rule list_all2_trans) auto

definition keeps_requests :: "emit_state \<Rightarrow> emit_state \<Rightarrow> bool" where
  "keeps_requests st st' \<longleftrightarrow> requests_kept (static_funcs st) (static_funcs st')"

text \<open>A relation that also allows labels to be printed holds of whole functions.\<close>

locale label_closed = label_free +
  assumes put_any: "obeys R (put ps)"
begin

lemma site_any: "slot_obeys s \<Longrightarrow> obeys R (translate_site s i indent link)"
proof -
  assume slot: "slot_obeys s"
  have closed: "translate_site s i indent link = chain (fs @ [g])
      \<Longrightarrow> translate_site s i indent False = chain (fs @ [skip]) \<Longrightarrow> obeys R g \<Longrightarrow> obeys R (translate_site s i indent link)" for fs g
  proof -
    assume eq: "translate_site s i indent link = chain (fs @ [g])" "translate_site s i indent False = chain (fs @ [skip])"
      and g: "obeys R g"
    have skip: "chain (fs @ [skip]) st = chain fs st" for st
      by (induction fs arbitrary: st) (auto simp: skip_def split: option.split)
    have "chain fs = translate_site s i indent False" by (rule ext) (simp only: eq(2) skip)
    then have fs: "obeys R (chain fs)" using translate_site_rule [OF slot] by simp
    have split: "chain (fs @ [g]) st = chain [chain fs, g] st" for st
      by (induction fs arbitrary: st) (auto split: option.split)
    have "obeys R (chain [chain fs, g])" using fs g by (intro obeys_chain) auto
    then show "obeys R (translate_site s i indent link)" unfolding obeys_def eq(1) split .
  qed
  show ?thesis
    by (rule closed [of "[only_if indent indent_line, table_case (\<lambda>f. f) (special_case s i),
     table_case (translate_binary s) (binary_ops i), table_case (translate_unary s) (unary_ops i),
     table_case (translate_branch s) (conditional_branch_ops i), table_case (translate_store s) (store_ops i),
     only_if (\<not> is_handled i s) (unhandled_instruction s)]"
     "only_if link (put (Text ''    '' # label_pieces (after_label (s_link_index s))))"])
      (auto simp: translate_site_def only_if_def put_any obeys_skip)
qed

lemma process_any: "obeys R (process_instruction tr idx indent link k r)"
proof -
  have hook: "obeys R (emit_hook tr j b)" for j b
    unfolding emit_hook_def by (auto intro!: basic_rules split: option.split)
  have "obeys R (process_from is tr idx indent link k r)" for "is"
    by (cases "is"; simp only: process_from.simps)
      (auto intro!: basic_rules hook site_any simp: slot_obeys_def process_rule)
  then show ?thesis by (simp add: process_instruction_def)
qed

lemma loop_any: "obeys R (translate_loop n tr relocs idx lp)"
proof (induction n arbitrary: idx lp)
  case (Suc n)
  have "obeys R (loop_body tr relocs idx lp had)" for had
    unfolding loop_body_def by (auto intro!: obeys_rules process_any put_any)
  then show ?case unfolding translate_loop.simps
    by (intro obeys_with_state obeys_chain) (auto intro!: obeys_with_state Suc.IH)
qed (simp add: obeys_skip)

lemma function_any: "obeys R (recompile_function_impl decode ctx func_index tag)"
proof -
  have "obeys R (emit_fallthrough ctx func_index func)" for func
    unfolding emit_fallthrough_def Let_def by (auto intro!: basic_rules split: option.split)
  moreover have "obeys R (translate_instructions tr)" for tr
    unfolding translate_instructions_def by (intro obeys_demand loop_any)
  ultimately have "obeys R (function_body decode ctx func_index func tag)" for func
    unfolding function_body_def dispatch_switch_def entry_goto_def Let_def
    by (auto intro!: basic_rules put_any split: option.split outcome.split)
  then show ?thesis unfolding recompile_function_impl_def
    by (auto intro!: basic_rules put_any)
qed

end

interpretation requests: label_closed keeps_requests
proof
  show "keeps_requests st st" for st by (simp add: keeps_requests_def requests_kept_refl)
  show "keeps_requests a b \<Longrightarrow> keeps_requests b c \<Longrightarrow> keeps_requests a c" for a b c
    unfolding keeps_requests_def by (rule requests_kept_trans)
  show "obeys keeps_requests (push_static k v)" for k v
  proof (rule obeysI)
    fix st ok st' assume "push_static k v st = Some (ok, st')"
    then show "keeps_requests st st'"
      by (auto simp: push_static_def keeps_requests_def requests_kept_def list_all2_conv_all_nth nth_list_update split: if_splits)
  qed
qed (auto simp: keeps_requests_def obeys_def put_def set_needs_link_def set_branch_likely_def requests_kept_refl)

lemma recompile_keeps_requests:
  assumes "recompile_function decode ctx func_index static_funcs_out tag = Some (ok, text_out, static_funcs_out')"
  shows "requests_kept static_funcs_out static_funcs_out'" and "ok \<or> text_out = ''''"
proof -
  from assms obtain st where st: "recompile_function_impl decode ctx func_index tag (start_emitting static_funcs_out) = Some (ok, st)"
    and r: "text_out = (if ok then render (out st) else '''')" "static_funcs_out' = static_funcs st"
    by (auto simp: recompile_function_def)
  have "keeps_requests (start_emitting static_funcs_out) st" by (rule obeysD [OF requests.function_any st])
  then show "requests_kept static_funcs_out static_funcs_out'" and "ok \<or> text_out = ''''"
    using r by (simp_all add: keeps_requests_def start_emitting_def)
qed

end
