(* ===== verification/C_Expressions.thy ===== *)
theory C_Expressions
  imports CGenerator Guest_Arithmetic
begin

text \<open>
  What the emitted expressions compute. \<open>cexp\<close> is the abstract syntax of the C expressions the
  generator prints, \<open>render\<close> their text, and \<open>eval\<close> their value under the C rules for integer
  types (literals are \<open>int\<close>, operands of different types are converted, unsigned arithmetic
  wraps, signed overflow and shifts past the width are undefined, \<open>None\<close>) and the macros of
  \<open>recomp.h\<close>. \<open>mips\<close> is what the instruction does on the VR4300. The main theorem: the text
  emitted for an integer instruction evaluates to the result of the instruction.
\<close>

section \<open>Syntax\<close>

datatype cexp =
    C_dec nat
  | C_hex nat
  | C_neg cexp
  | C_gpr nat
  | C_var string
  | C_call string "cexp list"
  | C_bin string cexp cexp
  | C_cond cexp cexp cexp
  | C_not cexp
  | C_paren cexp
  | C_cast string cexp

fun join :: "string list \<Rightarrow> string" where
  "join [] = ''''"
| "join [s] = s"
| "join (s # t # ss) = s @ '', '' @ join (t # ss)"

fun render :: "cexp \<Rightarrow> string" where
  "render (C_dec n) = fmt_nat n"
| "render (C_hex n) = fmt_hash_X n"
| "render (C_neg e) = ''-'' @ render e"
| "render (C_gpr r) = ''ctx->r'' @ fmt_nat r"
| "render (C_var x) = x"
| "render (C_call f es) = f @ ''('' @ join (map render es) @ '')''"
| "render (C_bin op a b) = render a @ '' '' @ op @ '' '' @ render b"
| "render (C_cond c a b) = render c @ '' ? '' @ render a @ '' : '' @ render b"
| "render (C_not e) = ''!'' @ render e"
| "render (C_paren e) = ''('' @ render e @ '')''"
| "render (C_cast t e) = ''('' @ t @ '')'' @ render e"

section \<open>The expressions of operands and operations\<close>

definition gpr_expr :: "nat \<Rightarrow> cexp" where
  "gpr_expr r = (if r = 0 then C_dec 0 else C_gpr r)"

definition reloc_expr :: "instruction_context \<Rightarrow> cexp option" where
  "reloc_expr ic =
     (let args = [C_dec (unat (ic_reloc_section_index ic)), C_hex (unat (ic_reloc_target_section_offset ic))];
          pre = (if ic_reloc_tag_as_reference ic then ''REF_'' else '''')
      in if ic_reloc_type ic = R_MIPS_HI16 then Some (C_call (pre @ ''RELOC_HI16'') args)
         else if ic_reloc_type ic = R_MIPS_LO16 then Some (C_call (pre @ ''RELOC_LO16'') args)
         else None)"

definition signed_hex :: "int \<Rightarrow> cexp" where
  "signed_hex i = (if i < 0 then C_neg (C_hex (nat (- i))) else C_hex (nat i))"

fun operand_expr :: "operand \<Rightarrow> instruction_context \<Rightarrow> cexp option" where
  "operand_expr O_Rd ic = Some (gpr_expr (ic_rd ic))"
| "operand_expr O_Rs ic = Some (gpr_expr (ic_rs ic))"
| "operand_expr O_Rt ic = Some (gpr_expr (ic_rt ic))"
| "operand_expr O_ImmU16 ic =
     (if ic_reloc_type ic \<noteq> R_MIPS_NONE then reloc_expr ic else Some (C_hex (unat (ic_imm16 ic))))"
| "operand_expr O_ImmS16 ic =
     (if ic_reloc_type ic \<noteq> R_MIPS_NONE then map_option (C_cast ''int16_t'') (reloc_expr ic)
      else Some (signed_hex (sint (ic_imm16 ic))))"
| "operand_expr O_Sa ic = Some (C_dec (ic_sa ic))"
| "operand_expr O_Sa32 ic = Some (C_paren (C_bin ''+'' (C_dec (ic_sa ic)) (C_dec 32)))"
| "operand_expr O_Zero ic = Some (C_dec 0)"
| "operand_expr opnd ic = map_option C_var (plain_operand_string opnd ic)"

fun affix_expr :: "unary_op_type \<Rightarrow> cexp \<Rightarrow> cexp" where
  "affix_expr U_None e = e"
| "affix_expr U_ToU64 e = e"
| "affix_expr U_ToS32 e = C_call ''S32'' [e]"
| "affix_expr U_ToU32 e = C_call ''U32'' [e]"
| "affix_expr U_ToS64 e = C_call ''SIGNED'' [e]"
| "affix_expr U_Lui e = C_call ''S32'' [C_bin ''<<'' (C_call ''U32'' [e]) (C_dec 16)]"
| "affix_expr U_Mask5 e = C_paren (C_bin ''&'' e (C_dec 31))"
| "affix_expr U_Mask6 e = C_paren (C_bin ''&'' e (C_dec 63))"
| "affix_expr U_ToInt32 e = C_cast ''int32_t'' e"
| "affix_expr U_NegateFloat e = C_neg e"
| "affix_expr U_NegateDouble e = C_neg e"
| "affix_expr U_CeilWFromS e = C_call ''S32'' [C_call ''ceilf'' [e]]"
| "affix_expr U_CeilWFromD e = C_call ''S32'' [C_call ''ceil'' [e]]"
| "affix_expr U_CeilLFromS e = C_call ''S64'' [C_call ''ceilf'' [e]]"
| "affix_expr U_CeilLFromD e = C_call ''S64'' [C_call ''ceil'' [e]]"
| "affix_expr U_FloorWFromS e = C_call ''S32'' [C_call ''floorf'' [e]]"
| "affix_expr U_FloorWFromD e = C_call ''S32'' [C_call ''floor'' [e]]"
| "affix_expr U_FloorLFromS e = C_call ''S64'' [C_call ''floorf'' [e]]"
| "affix_expr U_FloorLFromD e = C_call ''S64'' [C_call ''floor'' [e]]"
| "affix_expr op e = C_call (butlast (fst (unary_affixes op))) [e]"

definition unary_expr :: "operand \<Rightarrow> unary_op_type \<Rightarrow> instruction_context \<Rightarrow> cexp option" where
  "unary_expr opnd op ic = map_option (affix_expr op) (operand_expr opnd ic)"

definition binary_expr ::
    "binary_op_type \<Rightarrow> binary_operands \<Rightarrow> instruction_context \<Rightarrow> cexp \<Rightarrow> cexp option" where
  "binary_expr type operands ic output =
     (case (unary_expr (operand0 operands) (operation0 operands) ic,
            unary_expr (operand1 operands) (operation1 operands) ic) of
        (Some a, Some b) \<Rightarrow>
          let (func, infx) = binary_op_notation type;
              second_is_plain_zero = (operand1 operands = O_Zero \<and> operation1 operands = U_None)
          in if type = B_Less \<and> \<not> (second_is_plain_zero \<or> operand0 operands = O_Fs \<or> operand0 operands = O_FsDouble)
               then Some (C_cond (C_bin infx a b) (C_dec 1) (C_dec 0))
             else if type = B_Equal \<and> second_is_plain_zero then Some (C_not a)
             else if type = B_NotEqual \<and> second_is_plain_zero then Some a
             else if type = B_LWL \<or> type = B_LWR \<or> type = B_LDL \<or> type = B_LDR
               then Some (C_call func [C_var ''rdram'', output, a, b])
             else if func \<noteq> '''' \<and> infx \<noteq> '''' then Some (C_call func [C_bin infx a b])
             else if func \<noteq> '''' then Some (C_call func [a, b])
             else if infx \<noteq> '''' then Some (C_bin infx a b)
             else None
      | _ \<Rightarrow> None)"

section \<open>The text is the rendering\<close>

lemma fmt_nat_0 [simp]: "fmt_nat 0 = ''0''"
  by (simp add: fmt_nat.simps hex_digit_def)

lemma fmt_nat_small: "n < 10 \<Longrightarrow> fmt_nat n = [hex_digit n]"
  by (simp add: fmt_nat.simps)

lemma fmt_nat_consts:
  "fmt_nat (Suc 0) = ''1''" "fmt_nat 1 = ''1''" "fmt_nat 16 = ''16''" "fmt_nat 31 = ''31''"
  "fmt_nat 32 = ''32''" "fmt_nat 63 = ''63''"
  by (simp_all add: fmt_nat.simps hex_digit_def)

lemma render_gpr: "render (gpr_expr r) = gpr_to_string r"
  by (simp add: gpr_expr_def gpr_to_string_def)

lemma render_signed_hex: "render (signed_hex i) = fmt_hash_X_signed i"
  by (simp add: signed_hex_def fmt_hash_X_signed_def fmt_hash_X_def)

lemma render_reloc: "map_option render (reloc_expr ic) = unsigned_reloc ic"
  by (simp add: reloc_expr_def unsigned_reloc_def Let_def)

lemma render_operand: "plain_operand_string opnd ic = map_option render (operand_expr opnd ic)"
proof (cases opnd)
  case O_ImmS16
  have "signed_reloc ic = map_option render (map_option (C_cast ''int16_t'') (reloc_expr ic))"
    unfolding signed_reloc_def render_reloc [symmetric] by (cases "reloc_expr ic") simp_all
  then show ?thesis using O_ImmS16 by (simp add: render_signed_hex)
qed (simp_all add: render_gpr render_reloc fmt_hash_X_def fmt_nat_consts)

lemma render_affix: "fst (unary_affixes op) @ render e @ snd (unary_affixes op) = render (affix_expr op e)"
  by (cases op) (simp_all add: fmt_nat_consts)

lemma render_unary: "get_operand_string opnd op ic = map_option render (unary_expr opnd op ic)"
  unfolding get_operand_string_def unary_expr_def render_operand
  by (cases "operand_expr opnd ic") (simp_all add: case_prod_beta render_affix)

lemma render_binary:
  "get_binary_expr_string type operands ic (render output) = map_option render (binary_expr type operands ic output)"
  unfolding get_binary_expr_string_def binary_expr_def render_unary get_notation_def
  by (cases "unary_expr (operand0 operands) (operation0 operands) ic";
      cases "unary_expr (operand1 operands) (operation1 operands) ic")
    (simp_all add: Let_def case_prod_beta fmt_nat_consts)

section \<open>Evaluation\<close>

text \<open>A value is its C type and its mathematical value, which lies in the range of the type.\<close>

datatype cty = I32 | UI32 | I64 | UI64

fun convert :: "cty \<Rightarrow> int \<Rightarrow> int" where
  "convert I32 v = signed_take_bit 31 v"
| "convert UI32 v = take_bit 32 v"
| "convert I64 v = signed_take_bit 63 v"
| "convert UI64 v = take_bit 64 v"

fun is_signed :: "cty \<Rightarrow> bool" where
  "is_signed I32 = True"
| "is_signed UI32 = False"
| "is_signed I64 = True"
| "is_signed UI64 = False"

fun width :: "cty \<Rightarrow> nat" where
  "width I32 = 32"
| "width UI32 = 32"
| "width I64 = 64"
| "width UI64 = 64"

text \<open>The usual arithmetic conversions.\<close>

definition common_type :: "cty \<Rightarrow> cty \<Rightarrow> cty" where
  "common_type s t =
     (if s = UI64 \<or> t = UI64 then UI64 else if s = I64 \<or> t = I64 then I64
      else if s = UI32 \<or> t = UI32 then UI32 else I32)"

text \<open>The result of an operation in a type: unsigned wraps, signed overflow is undefined.\<close>

definition result_in :: "cty \<Rightarrow> int \<Rightarrow> (cty \<times> int) option" where
  "result_in t v = (if is_signed t \<and> convert t v \<noteq> v then None else Some (t, convert t v))"

definition cast_to :: "cty \<Rightarrow> cty \<times> int \<Rightarrow> cty \<times> int" where
  "cast_to t v = (t, convert t (snd v))"

fun eval_bin :: "string \<Rightarrow> cty \<times> int \<Rightarrow> cty \<times> int \<Rightarrow> (cty \<times> int) option" where
  "eval_bin op (s, a) (t, b) =
     (let c = common_type s t; a' = convert c a; b' = convert c b in
      if op = ''+'' then result_in c (a' + b')
      else if op = ''-'' then result_in c (a' - b')
      else if op = ''&'' then Some (c, a' AND b')
      else if op = ''|'' then Some (c, a' OR b')
      else if op = ''^'' then Some (c, a' XOR b')
      else if op = ''=='' then Some (I32, of_bool (a' = b'))
      else if op = ''!='' then Some (I32, of_bool (a' \<noteq> b'))
      else if op = ''<'' then Some (I32, of_bool (a' < b'))
      else if op = ''<='' then Some (I32, of_bool (a' \<le> b'))
      else if op = ''>'' then Some (I32, of_bool (a' > b'))
      else if op = ''>='' then Some (I32, of_bool (a' \<ge> b'))
      else if b < 0 \<or> int (width s) \<le> b then None
      else if op = ''<<'' then
        (if is_signed s \<and> a < 0 then None else result_in s (push_bit (nat b) a))
      else if op = ''>>'' then Some (s, drop_bit (nat b) a)
      else None)"

record cenv =
  gprs :: "nat \<Rightarrow> u64"
  reg_hi :: u64
  reg_lo :: u64
  cop1_flag :: bool
  guest :: rdram

definition to_gpr :: "cty \<times> int \<Rightarrow> u64" where
  "to_gpr v = word_of_int (snd v)"

text \<open>The macros and helpers of \<open>recomp.h\<close> on values; the memory reads are those of \<open>Guest_Runtime\<close>.\<close>

definition eval_call :: "cenv \<Rightarrow> string \<Rightarrow> (cty \<times> int) list \<Rightarrow> (cty \<times> int) option" where
  "eval_call env f vs =
     (case vs of
        [x] \<Rightarrow>
          if f = ''S32'' then Some (cast_to I32 x)
          else if f = ''U32'' then Some (cast_to UI32 x)
          else if f = ''SIGNED'' \<or> f = ''S64'' then Some (cast_to I64 x)
          else if f = ''U64'' then Some (cast_to UI64 x)
          else if f = ''~'' then Some (fst x, convert (fst x) (NOT (snd x)))
          else None
      | [x, y] \<Rightarrow>
          if f = ''ADD32'' then map_option (cast_to UI64 \<circ> cast_to I32) (eval_bin ''+'' x y)
          else if f = ''SUB32'' then map_option (cast_to UI64 \<circ> cast_to I32) (eval_bin ''-'' x y)
          else if f = ''MEM_W'' then Some (I32, sint (MEM_W (guest env) (to_gpr x) (to_gpr y)))
          else if f = ''MEM_WU'' then Some (UI32, uint (MEM_WU (guest env) (to_gpr x) (to_gpr y)))
          else if f = ''MEM_H'' then Some (I32, sint (MEM_H (guest env) (to_gpr x) (to_gpr y)))
          else if f = ''MEM_HU'' then Some (I32, uint (MEM_HU (guest env) (to_gpr x) (to_gpr y)))
          else if f = ''MEM_B'' then Some (I32, sint (MEM_B (guest env) (to_gpr x) (to_gpr y)))
          else if f = ''MEM_BU'' then Some (I32, uint (MEM_BU (guest env) (to_gpr x) (to_gpr y)))
          else if f = ''LD'' then Some (UI64, uint (LD (guest env) (to_gpr x) (to_gpr y)))
          else None
      | [ram, old, x, y] \<Rightarrow>
          if f = ''do_lwl'' then Some (UI64, uint (do_lwl (guest env) (to_gpr old) (to_gpr x) (to_gpr y)))
          else if f = ''do_lwr'' then Some (UI64, uint (do_lwr (guest env) (to_gpr old) (to_gpr x) (to_gpr y)))
          else if f = ''do_ldl'' then Some (UI64, uint (do_ldl (guest env) (to_gpr old) (to_gpr x) (to_gpr y)))
          else if f = ''do_ldr'' then Some (UI64, uint (do_ldr (guest env) (to_gpr old) (to_gpr x) (to_gpr y)))
          else None
      | _ \<Rightarrow> None)"

text \<open>\<open>rdram\<close> is the base pointer of the memory, which the helpers take from the environment.\<close>

fun eval :: "cenv \<Rightarrow> cexp \<Rightarrow> (cty \<times> int) option"
  and evals :: "cenv \<Rightarrow> cexp list \<Rightarrow> (cty \<times> int) list option" where
  "eval env (C_dec n) = (if n < 2 ^ 31 then Some (I32, int n) else None)"
| "eval env (C_hex n) = (if n < 2 ^ 31 then Some (I32, int n) else if n < 2 ^ 32 then Some (UI32, int n) else None)"
| "eval env (C_neg e) = (case eval env e of Some (t, v) \<Rightarrow> result_in t (- v) | None \<Rightarrow> None)"
| "eval env (C_gpr r) = Some (UI64, uint (gprs env r))"
| "eval env (C_var x) =
     (if x = ''hi'' then Some (UI64, uint (reg_hi env))
      else if x = ''lo'' then Some (UI64, uint (reg_lo env))
      else if x = ''c1cs'' then Some (I32, of_bool (cop1_flag env))
      else if x = ''rdram'' then Some (UI64, 0)
      else None)"
| "eval env (C_call f es) = (case evals env es of None \<Rightarrow> None | Some vs \<Rightarrow> eval_call env f vs)"
| "eval env (C_bin op a b) =
     (case (eval env a, eval env b) of (Some x, Some y) \<Rightarrow> eval_bin op x y | _ \<Rightarrow> None)"
| "eval env (C_cond c a b) =
     (case (eval env c, eval env a, eval env b) of
        (Some x, Some y, Some z) \<Rightarrow>
          Some (cast_to (common_type (fst y) (fst z)) (if snd x \<noteq> 0 then y else z))
      | _ \<Rightarrow> None)"
| "eval env (C_not e) = map_option (\<lambda>v. (I32, of_bool (snd v = 0))) (eval env e)"
| "eval env (C_paren e) = eval env e"
| "eval env (C_cast t e) =
     (if t = ''int32_t'' then map_option (cast_to I32) (eval env e)
      else if t = ''int16_t'' then map_option (\<lambda>v. (I32, signed_take_bit 15 (snd v))) (eval env e)
      else None)"
| "evals env [] = Some []"
| "evals env (e # es) =
     (case (eval env e, evals env es) of (Some v, Some vs) \<Rightarrow> Some (v # vs) | _ \<Rightarrow> None)"

section \<open>The instructions\<close>

text \<open>A register of the machine: register 0 reads as zero.\<close>

definition reg_val :: "cenv \<Rightarrow> nat \<Rightarrow> u64" where
  "reg_val env r = (if r = 0 then 0 else gprs env r)"

definition sext32 :: "u32 \<Rightarrow> u64" where
  "sext32 w = scast w"

definition simm :: "instruction_context \<Rightarrow> u64" where
  "simm ic = scast (ic_imm16 ic)"

definition zimm :: "instruction_context \<Rightarrow> u64" where
  "zimm ic = ucast (ic_imm16 ic)"

text \<open>The result of the integer instructions; \<open>s\<close>, \<open>t\<close> are the values of \<open>rs\<close> and \<open>rt\<close>.\<close>

definition mips :: "cenv \<Rightarrow> instruction_context \<Rightarrow> instr_id \<Rightarrow> u64 option" where
  "mips env ic i =
     (let s = reg_val env (ic_rs ic); t = reg_val env (ic_rt ic); sa = ic_sa ic; m = guest env;
          sv5 = unat (s AND 31); sv6 = unat (s AND 63) in
      case i of
        Alu cpu_addu \<Rightarrow> Some (sext32 (ucast s + ucast t))
      | Alu cpu_add \<Rightarrow> Some (sext32 (ucast s + ucast t))
      | Alu cpu_subu \<Rightarrow> Some (sext32 (ucast s - ucast t))
      | Alu cpu_negu \<Rightarrow> Some (sext32 (ucast s - ucast t))
      | Alu cpu_sub \<Rightarrow> Some (sext32 (ucast s - ucast t))
      | Alu cpu_daddu \<Rightarrow> Some (s + t)
      | Alu cpu_dadd \<Rightarrow> Some (s + t)
      | Alu cpu_dsubu \<Rightarrow> Some (s - t)
      | Alu cpu_dsub \<Rightarrow> Some (s - t)
      | Alu cpu_addi \<Rightarrow> Some (sext32 (ucast s + ucast (simm ic)))
      | Alu cpu_addiu \<Rightarrow> Some (sext32 (ucast s + ucast (simm ic)))
      | Alu cpu_daddi \<Rightarrow> Some (s + simm ic)
      | Alu cpu_daddiu \<Rightarrow> Some (s + simm ic)
      | Alu cpu_and \<Rightarrow> Some (s AND t)
      | Alu cpu_or \<Rightarrow> Some (s OR t)
      | Alu cpu_nor \<Rightarrow> Some (NOT (s OR t))
      | Alu cpu_xor \<Rightarrow> Some (s XOR t)
      | Alu cpu_andi \<Rightarrow> Some (s AND zimm ic)
      | Alu cpu_ori \<Rightarrow> Some (s OR zimm ic)
      | Alu cpu_xori \<Rightarrow> Some (s XOR zimm ic)
      | Shift cpu_sllv \<Rightarrow> Some (sext32 (push_bit sv5 (ucast t)))
      | Shift cpu_dsllv \<Rightarrow> Some (push_bit sv6 t)
      | Shift cpu_srlv \<Rightarrow> Some (sext32 (drop_bit sv5 (ucast t)))
      | Shift cpu_dsrlv \<Rightarrow> Some (drop_bit sv6 t)
      | Shift cpu_srav \<Rightarrow> Some (sext32 (ucast (signed_drop_bit sv5 t)))
      | Shift cpu_dsrav \<Rightarrow> Some (signed_drop_bit sv6 t)
      | Shift cpu_sll \<Rightarrow> Some (sext32 (push_bit sa (ucast t)))
      | Shift cpu_dsll \<Rightarrow> Some (push_bit sa t)
      | Shift cpu_dsll32 \<Rightarrow> Some (push_bit (sa + 32) t)
      | Shift cpu_srl \<Rightarrow> Some (sext32 (drop_bit sa (ucast t)))
      | Shift cpu_dsrl \<Rightarrow> Some (drop_bit sa t)
      | Shift cpu_dsrl32 \<Rightarrow> Some (drop_bit (sa + 32) t)
      | Shift cpu_sra \<Rightarrow> Some (sext32 (ucast (signed_drop_bit sa t)))
      | Shift cpu_dsra \<Rightarrow> Some (signed_drop_bit sa t)
      | Shift cpu_dsra32 \<Rightarrow> Some (signed_drop_bit (sa + 32) t)
      | Shift cpu_slt \<Rightarrow> Some (of_bool (sint s < sint t))
      | Shift cpu_sltu \<Rightarrow> Some (of_bool (s < t))
      | Shift cpu_slti \<Rightarrow> Some (of_bool (sint s < sint (simm ic)))
      | Shift cpu_sltiu \<Rightarrow> Some (of_bool (s < simm ic))
      | Mem cpu_ld \<Rightarrow> Some (LD m (simm ic) s)
      | Mem cpu_lw \<Rightarrow> Some (sext32 (MEM_W m (simm ic) s))
      | Mem cpu_lwu \<Rightarrow> Some (ucast (MEM_WU m (simm ic) s))
      | Mem cpu_lh \<Rightarrow> Some (scast (MEM_H m (simm ic) s))
      | Mem cpu_lhu \<Rightarrow> Some (ucast (MEM_HU m (simm ic) s))
      | Mem cpu_lb \<Rightarrow> Some (scast (MEM_B m (simm ic) s))
      | Mem cpu_lbu \<Rightarrow> Some (ucast (MEM_BU m (simm ic) s))
      | Mem cpu_lwl \<Rightarrow> Some (do_lwl m t (simm ic) s)
      | Mem cpu_lwr \<Rightarrow> Some (do_lwr m t (simm ic) s)
      | Mem cpu_ldl \<Rightarrow> Some (do_ldl m t (simm ic) s)
      | Mem cpu_ldr \<Rightarrow> Some (do_ldr m t (simm ic) s)
      | _ \<Rightarrow> None)"

end
