(* ===== verification/Expression_Semantics.thy ===== *)
theory Expression_Semantics
  imports C_Expressions
begin

text \<open>
  The emitted expressions compute the instructions. An operand of an emitted expression is a register, a
  \<open>uint64_t\<close>, or a literal, an \<open>int\<close>; \<open>denotes\<close> covers both and the first lemmas show that each operator of the
  generator gives, after the conversion to the type of a register, the 64-bit result of the instruction, also
  where C computes on \<open>int\<close> or on 32 bits. The rows of the operation tables then follow one by one. Two kinds of
  instruction are excepted by \<open>literal_pitfall\<close>, because register 0 is printed as the literal \<open>0\<close>;
  \<open>zero_compares_as_int\<close> shows that the exception is needed.
\<close>

section \<open>Values of operands\<close>

definition small :: "int \<Rightarrow> bool" where
  "small v \<longleftrightarrow> - (2 ^ 16) \<le> v \<and> v < 2 ^ 16"

text \<open>An operand denotes a 64-bit word: as a \<open>uint64_t\<close>, or as a small \<open>int\<close>.\<close>

definition denotes :: "cenv \<Rightarrow> cexp \<Rightarrow> u64 \<Rightarrow> bool" where
  "denotes env e w \<longleftrightarrow> eval env e = Some (UI64, uint w) \<or>
     (\<exists>v. eval env e = Some (I32, v) \<and> w = word_of_int v \<and> small v)"

text \<open>A shift count, of any type.\<close>

definition counts :: "cenv \<Rightarrow> cexp \<Rightarrow> nat \<Rightarrow> bool" where
  "counts env e n \<longleftrightarrow> (\<exists>t. eval env e = Some (t, int n))"

definition yields :: "cenv \<Rightarrow> cexp \<Rightarrow> u64 \<Rightarrow> bool" where
  "yields env e w \<longleftrightarrow> (\<exists>v. eval env e = Some v \<and> to_gpr v = w)"

lemma denotes_cases:
  assumes "denotes env e w"
  obtains "eval env e = Some (UI64, uint w)"
    | v where "eval env e = Some (I32, v)" "w = word_of_int v" "small v"
  using assms unfolding denotes_def by blast

lemma denotes_gpr: "denotes env (gpr_expr r) (reg_val env r)"
  by (auto simp: denotes_def gpr_expr_def reg_val_def small_def)

lemma sint_imm_small: "small (sint (i::u16))"
  using sint_greater_eq [of i] sint_lt [of i] by (simp add: small_def)

lemma eval_signed_hex: "small v \<Longrightarrow> eval env (signed_hex v) = Some (I32, v)"
  by (auto simp: signed_hex_def small_def result_in_def signed_take_bit_int_eq_self)

lemma scast_sint: "(scast (i::u16) :: u64) = word_of_int (sint i)"
  by simp

lemma denotes_simm: "denotes env (signed_hex (sint (ic_imm16 ic))) (simm ic)"
  unfolding denotes_def simm_def using eval_signed_hex [OF sint_imm_small, of env "ic_imm16 ic"] sint_imm_small [of "ic_imm16 ic"]
  by auto

lemma denotes_zimm: "denotes env (C_hex (unat (ic_imm16 ic))) (zimm ic)"
proof -
  have l: "uint (ic_imm16 ic) < 2 ^ 16" "0 \<le> uint (ic_imm16 ic)"
    using unsigned_less [of "ic_imm16 ic", where ?'a = int] by simp_all
  have "unat (ic_imm16 ic) < 2 ^ 16" using unsigned_less [of "ic_imm16 ic", where ?'a = nat] by simp
  then have "unat (ic_imm16 ic) < 2 ^ 31" by simp
  moreover have "int (unat (ic_imm16 ic)) = uint (ic_imm16 ic)" by simp
  ultimately have "eval env (C_hex (unat (ic_imm16 ic))) = Some (I32, uint (ic_imm16 ic))" by simp
  moreover have "small (uint (ic_imm16 ic))" unfolding small_def using l by linarith
  moreover have "zimm ic = word_of_int (uint (ic_imm16 ic))" by (simp add: zimm_def)
  ultimately show ?thesis unfolding denotes_def by blast
qed

lemma small_convert [simp]: "small v \<Longrightarrow> convert I32 v = v" "small v \<Longrightarrow> convert I64 v = v"
  by (simp_all add: small_def signed_take_bit_int_eq_self)

lemma convert_UI64 [simp]: "word_of_int (convert UI64 v) = (word_of_int v :: u64)"
  by (rule bit_eqI) (simp add: bit_simps)

lemma small_plus: "small v \<Longrightarrow> small w \<Longrightarrow> convert I32 (v + w) = v + w \<and> convert I32 (v - w) = v - w"
  by (simp add: small_def signed_take_bit_int_eq_self)

lemma result_in_UI64 [simp]: "result_in UI64 v = Some (UI64, convert UI64 v)"
  by (simp add: result_in_def)

text \<open>Both operands as they enter an operation.\<close>

lemma denotes_pair:
  assumes "denotes env a x" and "denotes env b y"
  obtains (wide) s v t w where "eval env a = Some (s, v)" "eval env b = Some (t, w)" "common_type s t = UI64"
      "x = word_of_int v" "y = word_of_int w"
    | (narrow) v w where "eval env a = Some (I32, v)" "eval env b = Some (I32, w)" "small v" "small w"
      "x = word_of_int v" "y = word_of_int w"
proof -
  have u: "word_of_int (uint z) = z" for z :: u64 by simp
  from assms(1) show thesis
  proof (cases rule: denotes_cases)
    case 1
    from assms(2) show thesis
      by (cases rule: denotes_cases) (use 1 in \<open>auto intro!: wide simp: common_type_def\<close>)
  next
    case (2 v)
    from assms(2) show thesis
    proof (cases rule: denotes_cases)
      case 1
      then show thesis using 2 by (auto intro!: wide simp: common_type_def)
    next
      case _: (2 w)
      then show thesis using 2 by (auto intro!: narrow)
    qed
  qed
qed

lemma yields_plus:
  assumes "denotes env a x" and "denotes env b y"
  shows "yields env (C_bin ''+'' a b) (x + y)" "yields env (C_bin ''-'' a b) (x - y)"
    "yields env (C_bin ''&'' a b) (x AND y)" "yields env (C_bin ''|'' a b) (x OR y)" "yields env (C_bin ''^'' a b) (x XOR y)"
proof -
  have ci: "common_type I32 I32 = I32" by (simp add: common_type_def)
  note split = denotes_pair [OF assms]
  show "yields env (C_bin ''+'' a b) (x + y)"
    by (rule split) (simp_all add: yields_def Let_def to_gpr_def ci small_plus result_in_def del: convert.simps)
  show "yields env (C_bin ''-'' a b) (x - y)"
    by (rule split) (simp_all add: yields_def Let_def to_gpr_def ci small_plus result_in_def del: convert.simps)
  show "yields env (C_bin ''&'' a b) (x AND y)"
    by (rule split) (simp_all add: yields_def Let_def to_gpr_def ci of_int_and_eq del: convert.simps)
  show "yields env (C_bin ''|'' a b) (x OR y)"
    by (rule split) (simp_all add: yields_def Let_def to_gpr_def ci of_int_or_eq del: convert.simps)
  show "yields env (C_bin ''^'' a b) (x XOR y)"
    by (rule split) (simp_all add: yields_def Let_def to_gpr_def ci of_int_xor_eq del: convert.simps)
qed

lemma yields_I: "eval env e = Some v \<Longrightarrow> to_gpr v = w \<Longrightarrow> yields env e w"
  by (auto simp: yields_def)

lemma word_of_int_low: "(word_of_int v :: u32) = ucast (word_of_int v :: u64)"
  by (rule bit_eqI) (simp add: bit_simps)

lemma low_word: "word_of_int (signed_take_bit 31 v) = sext32 (word_of_int v)"
  unfolding sext32_def by (rule bit_eqI) (auto simp: bit_simps min_def)

lemma cast_I32: "to_gpr (cast_to I32 v) = sext32 (ucast (to_gpr v))"
  by (simp add: to_gpr_def cast_to_def low_word word_of_int_low)

lemma cast_UI64: "to_gpr (cast_to UI64 v) = to_gpr v"
  unfolding to_gpr_def cast_to_def snd_conv by (rule convert_UI64)

lemma ucast_plus: "ucast (x + y :: u64) = (ucast x + ucast y :: u32)" "ucast (x - y :: u64) = (ucast x - ucast y :: u32)"
proof -
  have u: "ucast z = (word_of_int (uint z) :: u32)" for z :: u64 by simp
  have "x + y = word_of_int (uint x + uint y)" "x - y = word_of_int (uint x - uint y)" by simp_all
  then show "ucast (x + y) = (ucast x + ucast y :: u32)" "ucast (x - y) = (ucast x - ucast y :: u32)"
    by (metis word_of_int_low of_int_add u) (metis \<open>x - y = _\<close> word_of_int_low of_int_diff u)
qed

lemma yields_S32:
  assumes "eval env e = Some v"
  shows "yields env (C_call ''S32'' [e]) (sext32 (ucast (to_gpr v)))"
  by (rule yields_I [of _ _ "cast_to I32 v"]) (use assms in \<open>simp_all add: eval_call_def cast_I32\<close>)

lemma yields_ADD32:
  assumes "denotes env a x" and "denotes env b y"
  shows "yields env (C_call ''ADD32'' [a, b]) (sext32 (ucast x + ucast y))"
    "yields env (C_call ''SUB32'' [a, b]) (sext32 (ucast x - ucast y))"
proof -
  obtain u v where ev: "eval env a = Some u" "eval env b = Some v" using assms by (auto simp: denotes_def)
  obtain p where p: "eval_bin ''+'' u v = Some p" "to_gpr p = x + y"
    using yields_plus(1) [OF assms] ev by (auto simp: yields_def)
  obtain q where q: "eval_bin ''-'' u v = Some q" "to_gpr q = x - y"
    using yields_plus(2) [OF assms] ev by (auto simp: yields_def)
  have e: "eval env (C_call ''ADD32'' [a, b]) = Some (cast_to UI64 (cast_to I32 p))"
    "eval env (C_call ''SUB32'' [a, b]) = Some (cast_to UI64 (cast_to I32 q))"
    using ev p(1) q(1) by (simp_all add: eval_call_def)
  show "yields env (C_call ''ADD32'' [a, b]) (sext32 (ucast x + ucast y))"
    by (rule yields_I [OF e(1)]) (simp add: cast_UI64 cast_I32 p(2) ucast_plus)
  show "yields env (C_call ''SUB32'' [a, b]) (sext32 (ucast x - ucast y))"
    by (rule yields_I [OF e(2)]) (simp add: cast_UI64 cast_I32 q(2) ucast_plus)
qed

lemma yields_nor:
  assumes "denotes env a x" and "denotes env b y"
  shows "yields env (C_call ''~'' [C_bin ''|'' a b]) (NOT (x OR y))"
proof -
  obtain t v where v: "eval env (C_bin ''|'' a b) = Some (t, v)" "word_of_int v = x OR y" "t = UI64 \<or> t = I32 \<and> small v"
  proof (rule denotes_pair [OF assms])
    fix s v t w assume "eval env a = Some (s, v)" "eval env b = Some (t, w)" "common_type s t = UI64"
      "x = word_of_int v" "y = word_of_int w"
    then show thesis
      by (intro that [of UI64 "convert UI64 v OR convert UI64 w"])
        (simp_all add: Let_def of_int_or_eq del: convert.simps)
  next
    fix v w assume a: "eval env a = Some (I32, v)" "eval env b = Some (I32, w)" "small v" "small w"
      "x = word_of_int v" "y = word_of_int w"
    have "small (v OR w)"
    proof -
      have "signed_take_bit 16 v = v" "signed_take_bit 16 w = w"
        using a(3,4) by (simp_all add: small_def signed_take_bit_int_eq_self)
      moreover have "signed_take_bit 16 (v OR w) = signed_take_bit 16 v OR signed_take_bit 16 w"
        by (rule bit_eqI) (simp add: bit_simps)
      ultimately have "signed_take_bit 16 (v OR w) = v OR w" by simp
      then show ?thesis
        using signed_take_bit_int_greater_eq_minus_exp [of 16 "v OR w"] signed_take_bit_int_less_exp [of 16 "v OR w"]
        by (simp add: small_def)
    qed
    with a show thesis
      by (intro that [of I32 "v OR w"]) (simp_all add: Let_def of_int_or_eq common_type_def del: convert.simps)
  qed
  have "word_of_int (convert t (NOT v)) = NOT (word_of_int v :: u64)"
  proof (cases "t = UI64")
    case True
    then show ?thesis by (simp add: of_int_not_eq del: convert.simps)
  next
    case False
    then have "t = I32" "small v" using v(3) by auto
    then have "convert t (NOT v) = NOT v"
      by (simp add: small_def signed_take_bit_int_eq_self not_int_def)
    then show ?thesis by (simp add: of_int_not_eq)
  qed
  then show ?thesis
    by (intro yields_I [of _ _ "(t, convert t (NOT v))"]) (simp_all add: eval_call_def v to_gpr_def del: eval.simps(7))
qed

section \<open>Comparisons and shifts\<close>

lemma cond_value:
  assumes "eval env (C_bin op a b) = Some (I32, of_bool P)"
  shows "yields env (C_cond (C_bin op a b) (C_dec 1) (C_dec 0)) (of_bool P)"
  by (rule yields_I [of _ _ "(I32, of_bool P)"])
    (use assms in \<open>simp_all add: cast_to_def common_type_def to_gpr_def del: eval.simps(7)\<close>)

lemma sint_small: "small v \<Longrightarrow> sint (word_of_int v :: u64) = v"
  unfolding sint_sbintrunc' by (rule signed_take_bit_int_eq_self) (simp_all add: small_def)

lemma sint_range: "- (2 ^ 63) \<le> sint (x :: u64)" "sint (x :: u64) < 2 ^ 63"
  using sint_greater_eq [of x] sint_lt [of x] by simp_all

lemma take_sint [simp]: "signed_take_bit 63 (sint (x :: u64)) = sint x"
  by (rule signed_take_bit_int_eq_self [OF sint_range])

lemma take_uint [simp]: "take_bit 64 (uint (x :: u64)) = uint x"
  using uint_word_of_int_eq [of "uint x", where ?'a = 64] by simp

lemma signed_uint: "signed_take_bit 63 (uint (x :: u64)) = sint x"
  using sint_sbintrunc' [of "uint x", where ?'a = 64] by simp

lemma denotes_signed:
  assumes "denotes env a x"
  shows "eval env (C_call ''SIGNED'' [a]) = Some (I64, sint x)"
  using assms
proof (cases rule: denotes_cases)
  case 1
  then show ?thesis by (simp add: eval_call_def cast_to_def signed_uint)
next
  case (2 v)
  then show ?thesis by (simp add: eval_call_def cast_to_def sint_small del: convert.simps)
qed

lemma less_signed:
  assumes "denotes env a x" and "denotes env b y"
  shows "eval env (C_bin ''<'' (C_call ''SIGNED'' [a]) (C_call ''SIGNED'' [b])) = Some (I32, of_bool (sint x < sint y))"
  unfolding eval.simps(7) denotes_signed [OF assms(1)] denotes_signed [OF assms(2)]
  by (simp add: Let_def common_type_def)

lemma less_signed_imm:
  assumes "denotes env a x" and "small v"
  shows "eval env (C_bin ''<'' (C_call ''SIGNED'' [a]) (signed_hex v)) = Some (I32, of_bool (sint x < v))"
proof -
  have "convert I64 (sint x) = sint x" by simp
  moreover have "convert I64 v = v" by (rule small_convert [OF assms(2)])
  ultimately have "convert I64 (sint x) = sint x" "convert I64 v = v" .
  then show ?thesis
    unfolding eval.simps(7) denotes_signed [OF assms(1)] eval_signed_hex [OF assms(2)]
    by (simp add: Let_def common_type_def del: convert.simps)
qed

text \<open>Without a cast the comparison is that of \<open>uint64_t\<close>, unless both sides are literals.\<close>

lemma less_unsigned:
  assumes "eval env a = Some (UI64, uint x)" and "denotes env b y"
  shows "eval env (C_bin ''<'' a b) = Some (I32, of_bool (x < y))"
proof -
  obtain t w where b: "eval env b = Some (t, w)" "y = word_of_int w"
    using assms(2)
  proof (cases rule: denotes_cases)
    case 1
    then show thesis by (rule that) simp
  qed (rule that)
  have "convert UI64 (uint x) = uint x" "convert UI64 w = uint y"
    using b(2) by (simp_all add: uint_word_of_int_eq take_bit_int_eq_self)
  then show ?thesis using assms(1) b
    by (simp add: Let_def common_type_def word_less_def del: convert.simps)
qed

lemma less_unsigned_zero:
  fixes y :: u64
  assumes "eval env b = Some (UI64, uint y)"
  shows "eval env (C_bin ''<'' (C_dec 0) b) = Some (I32, of_bool (0 < y))"
proof -
  have "convert UI64 (uint y) = uint y" by (simp add: take_bit_int_eq_self)
  then show ?thesis using assms by (simp add: Let_def common_type_def word_less_def)
qed

section \<open>Shifts\<close>

lemma counts_sa: "ic_sa ic < 32 \<Longrightarrow> counts env (C_dec (ic_sa ic)) (ic_sa ic)"
  by (simp add: counts_def)

lemma counts_sa32: "ic_sa ic < 32 \<Longrightarrow> counts env (C_paren (C_bin ''+'' (C_dec (ic_sa ic)) (C_dec 32))) (ic_sa ic + 32)"
  by (simp add: counts_def common_type_def result_in_def Let_def signed_take_bit_int_eq_self)

lemma counts_mask:
  assumes "denotes env a x"
  shows "counts env (C_paren (C_bin ''&'' a (C_dec 31))) (unat (x AND 31))"
    "counts env (C_paren (C_bin ''&'' a (C_dec 63))) (unat (x AND 63))"
proof -
  have *: "counts env (C_paren (C_bin ''&'' a (C_dec n))) (unat (x AND of_nat n))" if "n = 31 \<or> n = 63" for n
    using assms
  proof (cases rule: denotes_cases)
    case 1
    have "uint x AND int n = int (unat (x AND of_nat n))"
    proof -
      have "int (unat (x AND of_nat n)) = uint (x AND of_nat n)" by simp
      also have "\<dots> = uint x AND uint (of_nat n :: u64)" by (rule uint_and)
      also have "uint (of_nat n :: u64) = int n" using that by auto
      finally show ?thesis by simp
    qed
    moreover have "take_bit 64 (uint x) = uint x" "take_bit 64 (int n) = int n"
      using that by (auto simp: take_bit_int_eq_self)
    ultimately show ?thesis using 1 that by (auto simp: counts_def common_type_def Let_def)
  next
    case (2 v)
    have n: "v AND int n = take_bit (if n = 31 then 5 else 6) v"
      using that by (auto simp: take_bit_eq_mask mask_eq_exp_minus_1)
    have "x AND of_nat n = take_bit (if n = 31 then 5 else 6) x"
      using that by (auto simp: take_bit_eq_mask mask_eq_exp_minus_1)
    then have "int (unat (x AND of_nat n)) = uint (take_bit (if n = 31 then 5 else 6) (word_of_int v :: u64))"
      using 2 by simp
    also have "\<dots> = take_bit (if n = 31 then 5 else 6) v"
      by (simp add: unsigned_take_bit_eq uint_word_of_int_eq)
    finally have "int (unat (x AND of_nat n)) = v AND int n" using n by simp
    moreover have "convert I32 (int n) = int n" using that by (auto simp: signed_take_bit_int_eq_self)
    moreover have "convert I32 v = v" by (rule small_convert [OF 2(3)])
    ultimately show ?thesis using 2 that
      by (auto simp: counts_def common_type_def Let_def simp del: convert.simps)
  qed
  from * [of 31] show "counts env (C_paren (C_bin ''&'' a (C_dec 31))) (unat (x AND 31))" by simp
  from * [of 63] show "counts env (C_paren (C_bin ''&'' a (C_dec 63))) (unat (x AND 63))" by simp
qed

lemma shift_value:
  assumes "eval env a = Some (t, v)" and "counts env b n" and "n < width t"
  shows "\<not> is_signed t \<Longrightarrow> eval env (C_bin ''<<'' a b) = Some (t, convert t (push_bit n v))"
    "eval env (C_bin ''>>'' a b) = Some (t, drop_bit n v)"
proof -
  obtain u where b: "eval env b = Some (u, int n)" using assms(2) by (auto simp: counts_def)
  show "\<not> is_signed t \<Longrightarrow> eval env (C_bin ''<<'' a b) = Some (t, convert t (push_bit n v))"
    and "eval env (C_bin ''>>'' a b) = Some (t, drop_bit n v)"
    using assms(1,3) b by (auto simp: Let_def result_in_def)
qed

text \<open>A register that is not register 0 is a \<open>uint64_t\<close>.\<close>

lemma eval_reg: "r \<noteq> 0 \<Longrightarrow> eval env (gpr_expr r) = Some (UI64, uint (reg_val env r))"
  by (simp add: gpr_expr_def reg_val_def)

lemma eval_zero: "eval env (gpr_expr 0) = Some (I32, 0)" "reg_val env 0 = 0"
  by (simp_all add: gpr_expr_def reg_val_def)

lemma to_gpr_UI64: "to_gpr (UI64, uint x) = x" "to_gpr (UI64, take_bit 64 w) = word_of_int w"
  using convert_UI64 [of w] by (simp_all add: to_gpr_def)

lemma shl_wide:
  assumes "r \<noteq> 0" and "counts env b n" and "n < 64"
  shows "yields env (C_bin ''<<'' (gpr_expr r) b) (push_bit n (reg_val env r))"
proof (rule yields_I)
  show "eval env (C_bin ''<<'' (gpr_expr r) b) = Some (UI64, convert UI64 (push_bit n (uint (reg_val env r))))"
    by (rule shift_value(1) [OF eval_reg assms(2)]) (use assms in simp_all)
  show "to_gpr (UI64, convert UI64 (push_bit n (uint (reg_val env r)))) = push_bit n (reg_val env r)"
    unfolding to_gpr_def snd_conv convert_UI64 by (simp add: push_bit_eq_mult)
qed

lemma shr_wide:
  assumes "r \<noteq> 0" and "counts env b n" and "n < 64"
  shows "yields env (C_bin ''>>'' (gpr_expr r) b) (drop_bit n (reg_val env r))"
proof (rule yields_I)
  show "eval env (C_bin ''>>'' (gpr_expr r) b) = Some (UI64, drop_bit n (uint (reg_val env r)))"
    by (rule shift_value(2) [OF eval_reg assms(2)]) (use assms in simp_all)
  have "drop_bit n (uint (reg_val env r)) = uint (drop_bit n (reg_val env r))"
    by (simp add: unsigned_drop_bit_eq)
  then show "to_gpr (UI64, drop_bit n (uint (reg_val env r))) = drop_bit n (reg_val env r)"
    by (simp add: to_gpr_def)
qed

lemma sar_wide:
  assumes "denotes env a x" and "counts env b n" and "n < 64"
  shows "yields env (C_bin ''>>'' (C_call ''SIGNED'' [a]) b) (signed_drop_bit n x)"
proof (rule yields_I)
  show "eval env (C_bin ''>>'' (C_call ''SIGNED'' [a]) b) = Some (I64, drop_bit n (sint x))"
    by (rule shift_value(2) [OF denotes_signed [OF assms(1)] assms(2)]) (use assms in simp_all)
  have "drop_bit n (sint x) = sint (signed_drop_bit n x)"
    by (simp add: sint_signed_drop_bit_eq)
  then show "to_gpr (I64, drop_bit n (sint x)) = signed_drop_bit n x"
    by (simp add: to_gpr_def)
qed

lemma counts_bounds: "unat (x AND 31 :: u64) < 32" "unat (x AND 63 :: u64) < 64"
proof -
  have "x AND 31 = take_bit 5 x" "x AND 63 = take_bit 6 x"
    by (simp_all add: take_bit_eq_mask mask_eq_exp_minus_1)
  then have "unat (x AND 31) = take_bit 5 (unat x)" "unat (x AND 63) = take_bit 6 (unat x)"
    by (simp_all add: unsigned_take_bit_eq)
  then show "unat (x AND 31) < 32" "unat (x AND 63) < 64"
    using take_bit_nat_less_exp [of 5 "unat x"] take_bit_nat_less_exp [of 6 "unat x"] by simp_all
qed

text \<open>The 32-bit shifts.\<close>

lemma yields_cast32:
  assumes "yields env e w"
  shows "yields env (C_call ''S32'' [e]) (sext32 (ucast w))"
  using assms yields_S32 by (auto simp: yields_def)

lemma shl_word:
  assumes "counts env b n" and "n < 32"
  shows "yields env (C_call ''S32'' [C_bin ''<<'' (gpr_expr r) b]) (sext32 (push_bit n (ucast (reg_val env r))))"
proof (cases "r = 0")
  case True
  have "eval env (C_bin ''<<'' (gpr_expr 0) b) = Some (I32, 0)"
    using assms by (auto simp: counts_def eval_zero result_in_def Let_def)
  from yields_S32 [OF this] show ?thesis by (simp add: True eval_zero to_gpr_def)
next
  case False
  have "ucast (push_bit n (reg_val env r)) = (push_bit n (ucast (reg_val env r)) :: u32)"
    by (rule bit_eqI) (auto simp: bit_simps)
  with yields_cast32 [OF shl_wide [OF False assms(1)]] assms(2) show ?thesis by simp
qed

lemma len32: "LENGTH(32) = 32"
  by simp

lemma eval_U32:
  assumes "denotes env a x"
  shows "eval env (C_call ''U32'' [a]) = Some (UI32, uint (ucast x :: u32))"
proof -
  have u: "uint (ucast x :: u32) = take_bit 32 (uint x)" for x :: u64 by (simp only: unsigned_ucast_eq len32)
  show ?thesis using assms
  proof (cases rule: denotes_cases)
    case 1
    then show ?thesis by (simp add: eval_call_def cast_to_def u)
  next
    case (2 v)
    have "take_bit 32 (uint (word_of_int v :: u64)) = take_bit 32 v"
      unfolding uint_word_of_int_eq by (simp add: take_bit_take_bit)
    then have "uint (ucast x :: u32) = take_bit 32 v" by (simp only: u 2(2))
    then show ?thesis using 2(1) by (simp add: eval_call_def cast_to_def)
  qed
qed

lemma take_uint32: "take_bit 32 (uint (w :: u32)) = uint w"
  using uint_word_of_int_eq [of "uint w", where ?'a = 32] by simp

lemma word_of_int_uint_eq: "word_of_int (uint (w :: u32)) = (ucast w :: u64)"
  by (rule bit_eqI) (simp add: bit_simps)

lemma ucast_ucast_low: "ucast (ucast (w :: u32) :: u64) = w"
  by (rule bit_eqI) (auto simp: bit_simps)

lemma shr_word:
  assumes "denotes env a x" and "counts env b n" and "n < 32"
  shows "yields env (C_call ''S32'' [C_bin ''>>'' (C_call ''U32'' [a]) b]) (sext32 (drop_bit n (ucast x)))"
proof -
  have "yields env (C_bin ''>>'' (C_call ''U32'' [a]) b) (ucast (drop_bit n (ucast x :: u32)))"
  proof (rule yields_I)
    show "eval env (C_bin ''>>'' (C_call ''U32'' [a]) b) = Some (UI32, drop_bit n (uint (ucast x :: u32)))"
      by (rule shift_value(2) [OF eval_U32 [OF assms(1)] assms(2)]) (use assms in simp_all)
    have "drop_bit n (uint (ucast x :: u32)) = uint (drop_bit n (ucast x :: u32))"
      by (simp only: unsigned_drop_bit_eq len32 take_uint32)
    then have "to_gpr (UI32, drop_bit n (uint (ucast x :: u32))) = word_of_int (uint (drop_bit n (ucast x :: u32)))"
      by (simp only: to_gpr_def snd_conv)
    then show "to_gpr (UI32, drop_bit n (uint (ucast x :: u32))) = ucast (drop_bit n (ucast x :: u32))"
      by (simp only: word_of_int_uint_eq)
  qed
  from yields_cast32 [OF this] show ?thesis unfolding ucast_ucast_low .
qed


text \<open>The arithmetic right shift takes the whole register.\<close>

lemma sar_word:
  assumes "denotes env a x" and "counts env b n" and "n < 64"
  shows "yields env (C_call ''S32'' [C_bin ''>>'' (C_call ''SIGNED'' [a]) b]) (sext32 (ucast (signed_drop_bit n x)))"
  by (rule yields_cast32 [OF sar_wide [OF assms]])

lemma push_low: "n < 32 \<Longrightarrow> ucast (push_bit n (x :: u64)) = (push_bit n (ucast x) :: u32)"
  by (rule bit_eqI) (auto simp: bit_simps)

section \<open>Loads\<close>

lemma denotes_to_gpr:
  assumes "denotes env a x"
  obtains v where "eval env a = Some v" "to_gpr v = x"
  using assms
proof (cases rule: denotes_cases)
  case 1
  then show thesis by (rule that) (simp add: to_gpr_def)
next
  case (2 v)
  show thesis by (rule that [OF 2(1)]) (simp add: to_gpr_def 2(2))
qed

lemma load_commute:
  "MEM_W m a b = MEM_W m b a" "MEM_WU m a b = MEM_WU m b a" "MEM_H m a b = MEM_H m b a" "MEM_HU m a b = MEM_HU m b a"
  "MEM_B m a b = MEM_B m b a" "MEM_BU m a b = MEM_BU m b a"
  by (simp_all add: MEM_W_def MEM_WU_def MEM_H_def MEM_HU_def MEM_B_def MEM_BU_def add.commute)

lemma doubleword_commute: "LD m a b = LD m b a"
  by (simp add: LD_def load_doubleword_def MEM_W_def MEM_WU_def ac_simps)

lemma unaligned_commute:
  "do_lwl m i a b = do_lwl m i b a" "do_lwr m i a b = do_lwr m i b a"
  "do_ldl m i a b = do_ldl m i b a" "do_ldr m i a b = do_ldr m i b a"
  by (simp_all only: do_lwl_def do_lwr_def do_ldl_def do_ldr_def add.commute [of a b])

lemma to_gpr_value:
  "to_gpr (I32, sint (w :: u32)) = sext32 w" "to_gpr (UI32, uint (w :: u32)) = ucast w"
  "to_gpr (I32, sint (h :: u16)) = scast h" "to_gpr (I32, uint (h :: u16)) = ucast h"
  "to_gpr (I32, sint (b :: u8)) = scast b" "to_gpr (I32, uint (b :: u8)) = ucast b"
  "to_gpr (UI64, uint (d :: u64)) = d"
  by (simp_all add: to_gpr_def sext32_def)

lemma load_values:
  assumes "denotes env a x" and "denotes env b y"
  shows "yields env (C_call ''MEM_W'' [a, b]) (sext32 (MEM_W (guest env) y x))"
    "yields env (C_call ''MEM_WU'' [a, b]) (ucast (MEM_WU (guest env) y x))"
    "yields env (C_call ''MEM_H'' [a, b]) (scast (MEM_H (guest env) y x))"
    "yields env (C_call ''MEM_HU'' [a, b]) (ucast (MEM_HU (guest env) y x))"
    "yields env (C_call ''MEM_B'' [a, b]) (scast (MEM_B (guest env) y x))"
    "yields env (C_call ''MEM_BU'' [a, b]) (ucast (MEM_BU (guest env) y x))"
    "yields env (C_call ''LD'' [a, b]) (LD (guest env) y x)"
proof -
  obtain v where v: "eval env a = Some v" "to_gpr v = x" by (rule denotes_to_gpr [OF assms(1)])
  obtain w where w: "eval env b = Some w" "to_gpr w = y" by (rule denotes_to_gpr [OF assms(2)])
  note facts = yields_def v w eval_call_def to_gpr_value load_commute [of _ x y] doubleword_commute [of _ x y]
  show "yields env (C_call ''MEM_W'' [a, b]) (sext32 (MEM_W (guest env) y x))" by (simp add: facts)
  show "yields env (C_call ''MEM_WU'' [a, b]) (ucast (MEM_WU (guest env) y x))" by (simp add: facts)
  show "yields env (C_call ''MEM_H'' [a, b]) (scast (MEM_H (guest env) y x))" by (simp add: facts)
  show "yields env (C_call ''MEM_HU'' [a, b]) (ucast (MEM_HU (guest env) y x))" by (simp add: facts)
  show "yields env (C_call ''MEM_B'' [a, b]) (scast (MEM_B (guest env) y x))" by (simp add: facts)
  show "yields env (C_call ''MEM_BU'' [a, b]) (ucast (MEM_BU (guest env) y x))" by (simp add: facts)
  show "yields env (C_call ''LD'' [a, b]) (LD (guest env) y x)" by (simp add: facts)
qed

lemma unaligned_values:
  assumes "denotes env c i" and "denotes env a x" and "denotes env b y"
  shows "yields env (C_call ''do_lwl'' [C_var ''rdram'', c, a, b]) (do_lwl (guest env) i y x)"
    "yields env (C_call ''do_lwr'' [C_var ''rdram'', c, a, b]) (do_lwr (guest env) i y x)"
    "yields env (C_call ''do_ldl'' [C_var ''rdram'', c, a, b]) (do_ldl (guest env) i y x)"
    "yields env (C_call ''do_ldr'' [C_var ''rdram'', c, a, b]) (do_ldr (guest env) i y x)"
proof -
  obtain u where u: "eval env c = Some u" "to_gpr u = i" by (rule denotes_to_gpr [OF assms(1)])
  obtain v where v: "eval env a = Some v" "to_gpr v = x" by (rule denotes_to_gpr [OF assms(2)])
  obtain w where w: "eval env b = Some w" "to_gpr w = y" by (rule denotes_to_gpr [OF assms(3)])
  note facts = yields_def u v w eval_call_def to_gpr_value unaligned_commute [of _ _ x y]
  show "yields env (C_call ''do_lwl'' [C_var ''rdram'', c, a, b]) (do_lwl (guest env) i y x)" by (simp add: facts)
  show "yields env (C_call ''do_lwr'' [C_var ''rdram'', c, a, b]) (do_lwr (guest env) i y x)" by (simp add: facts)
  show "yields env (C_call ''do_ldl'' [C_var ''rdram'', c, a, b]) (do_ldl (guest env) i y x)" by (simp add: facts)
  show "yields env (C_call ''do_ldr'' [C_var ''rdram'', c, a, b]) (do_ldr (guest env) i y x)" by (simp add: facts)
qed


section \<open>Every integer instruction\<close>

text \<open>The two places where a literal operand is not a 64-bit value: the unsigned comparison of register 0 with a
  negative literal, and the shift of the literal of register 0 by the width of an \<open>int\<close> or more.\<close>

definition literal_pitfall :: "instruction_context \<Rightarrow> instr_id \<Rightarrow> bool" where
  "literal_pitfall ic i \<longleftrightarrow>
     (i = Shift cpu_sltiu \<and> ic_rs ic = 0 \<and> sint (ic_imm16 ic) < 0) \<or>
     (i = Shift cpu_dsllv \<or> i = Shift cpu_dsrlv \<or> i = Shift cpu_dsll32 \<or> i = Shift cpu_dsrl32) \<and> ic_rt ic = 0"

text \<open>The statement for a row of the table.\<close>

definition computes :: "cenv \<Rightarrow> instruction_context \<Rightarrow> instr_id \<Rightarrow> binary_op \<Rightarrow> bool" where
  "computes env ic i op \<longleftrightarrow>
     (\<exists>out e. operand_expr (bin_output op) ic = Some out \<and>
        binary_expr (bin_type op) (bin_operands op) ic out = Some e \<and>
        (\<forall>w. mips env ic i = Some w \<longrightarrow> yields env e w))"

lemmas gpr_pair = denotes_gpr denotes_gpr
lemmas gpr_simm = denotes_gpr denotes_simm
lemmas gpr_zimm = denotes_gpr denotes_zimm

lemmas expression_values =
  yields_plus [OF gpr_pair] yields_plus [OF gpr_simm] yields_plus [OF gpr_zimm]
  yields_ADD32 [OF gpr_pair] yields_ADD32 [OF gpr_simm] yields_nor [OF gpr_pair]
  load_values [OF gpr_simm] unaligned_values [OF denotes_gpr gpr_simm]

lemmas row_defs = computes_def binary_op_init_def ops_def binary_expr_def unary_expr_def Let_def mips_def

lemma nor_value: "yields env (C_call ''~'' [C_bin ''|'' (gpr_expr r) (gpr_expr t)]) (NOT (reg_val env r) AND NOT (reg_val env t))"
  using yields_nor [OF gpr_pair] by simp

lemma row_alu:
  assumes "ic_reloc_type ic = R_MIPS_NONE" and "(Alu a, op) \<in> set binary_ops_table"
  shows "computes env ic (Alu a) op"
  using assms(2) unfolding binary_ops_table_def list.set insert_iff prod.inject
  by (elim disjE conjE emptyE) (simp_all add: assms(1) row_defs expression_values nor_value)

lemma row_mem:
  assumes "ic_reloc_type ic = R_MIPS_NONE" and "(Mem a, op) \<in> set binary_ops_table"
  shows "computes env ic (Mem a) op"
  using assms(2) unfolding binary_ops_table_def list.set insert_iff prod.inject
  by (elim disjE conjE emptyE) (simp_all add: assms(1) row_defs expression_values)

text \<open>The shift counts.\<close>

lemma count_register: "counts env (C_paren (C_bin ''&'' (gpr_expr r) (C_dec 31))) (unat (reg_val env r AND 31))"
  "counts env (C_paren (C_bin ''&'' (gpr_expr r) (C_dec 63))) (unat (reg_val env r AND 63))"
  by (rule counts_mask [OF denotes_gpr])+

lemma less_condition:
  "yields env (C_cond (C_bin ''<'' (C_call ''SIGNED'' [gpr_expr r]) (C_call ''SIGNED'' [gpr_expr t])) (C_dec 1) (C_dec 0))
     (of_bool (sint (reg_val env r) < sint (reg_val env t)))"
  "yields env (C_cond (C_bin ''<'' (C_call ''SIGNED'' [gpr_expr r]) (signed_hex (sint (ic_imm16 ic)))) (C_dec 1) (C_dec 0))
     (of_bool (sint (reg_val env r) < sint (simm ic)))"
proof -
  have "sint (simm ic) = sint (ic_imm16 ic)"
    unfolding simm_def scast_sint by (rule sint_small [OF sint_imm_small])
  with cond_value [OF less_signed_imm [OF denotes_gpr sint_imm_small]]
  show "yields env (C_cond (C_bin ''<'' (C_call ''SIGNED'' [gpr_expr r]) (signed_hex (sint (ic_imm16 ic)))) (C_dec 1) (C_dec 0))
     (of_bool (sint (reg_val env r) < sint (simm ic)))" by metis
qed (rule cond_value [OF less_signed [OF denotes_gpr denotes_gpr]])

lemma less_registers:
  "yields env (C_cond (C_bin ''<'' (gpr_expr r) (gpr_expr t)) (C_dec 1) (C_dec 0)) (of_bool (reg_val env r < reg_val env t))"
proof (rule cond_value, cases "r = 0")
  case False
  show "eval env (C_bin ''<'' (gpr_expr r) (gpr_expr t)) = Some (I32, of_bool (reg_val env r < reg_val env t))"
    by (rule less_unsigned [OF eval_reg [OF False] denotes_gpr])
next
  case True
  show "eval env (C_bin ''<'' (gpr_expr r) (gpr_expr t)) = Some (I32, of_bool (reg_val env r < reg_val env t))"
  proof (cases "t = 0")
    case t: True
    show ?thesis by (simp add: True t gpr_expr_def reg_val_def common_type_def Let_def)
  next
    case False
    have "gpr_expr r = C_dec 0" "reg_val env r = 0" by (simp_all add: True gpr_expr_def reg_val_def)
    with less_unsigned_zero [OF eval_reg [OF False]] show ?thesis by simp
  qed
qed

lemma less_literal:
  assumes "0 < r \<or> \<not> sint (ic_imm16 ic) < 0"
  shows "yields env (C_cond (C_bin ''<'' (gpr_expr r) (signed_hex (sint (ic_imm16 ic)))) (C_dec 1) (C_dec 0))
    (of_bool (reg_val env r < simm ic))"
proof (rule cond_value, cases "r = 0")
  case False
  show "eval env (C_bin ''<'' (gpr_expr r) (signed_hex (sint (ic_imm16 ic)))) = Some (I32, of_bool (reg_val env r < simm ic))"
    by (rule less_unsigned [OF eval_reg [OF False] denotes_simm])
next
  case True
  have i: "0 \<le> sint (ic_imm16 ic)" using assms True by simp
  have "uint (simm ic) = sint (ic_imm16 ic)"
    unfolding simm_def scast_sint uint_word_of_int_eq
    using i sint_imm_small [of "ic_imm16 ic"] by (simp add: take_bit_int_eq_self small_def)
  then have "(0 < simm ic) = (0 < sint (ic_imm16 ic))" by (simp add: word_less_def)
  moreover have "convert I32 0 = 0" "convert I32 (sint (ic_imm16 ic)) = sint (ic_imm16 ic)"
    by (simp, rule small_convert [OF sint_imm_small])
  moreover have "eval env (signed_hex (sint (ic_imm16 ic))) = Some (I32, sint (ic_imm16 ic))"
    by (rule eval_signed_hex [OF sint_imm_small])
  ultimately show "eval env (C_bin ''<'' (gpr_expr r) (signed_hex (sint (ic_imm16 ic)))) = Some (I32, of_bool (reg_val env r < simm ic))"
    by (simp add: True eval_zero common_type_def Let_def del: convert.simps)
qed

lemma narrow_shifts:
  assumes "n < 32" and "counts env b n"
  shows "yields env (C_call ''S32'' [C_bin ''<<'' (gpr_expr r) b]) (sext32 (push_bit n (ucast (reg_val env r))))"
    "yields env (C_call ''S32'' [C_bin ''>>'' (C_call ''U32'' [gpr_expr r]) b]) (sext32 (drop_bit n (ucast (reg_val env r))))"
    "yields env (C_call ''S32'' [C_bin ''>>'' (C_call ''SIGNED'' [gpr_expr r]) b]) (sext32 (ucast (signed_drop_bit n (reg_val env r))))"
  using assms by (simp_all add: shl_word shr_word [OF denotes_gpr] sar_word [OF denotes_gpr])

lemma zero_shift:
  assumes "n < 32" and "counts env b n"
  shows "yields env (C_bin ''<<'' (gpr_expr 0) b) 0" "yields env (C_bin ''>>'' (gpr_expr 0) b) 0"
  using assms by (auto simp: yields_def counts_def eval_zero result_in_def Let_def to_gpr_def)

lemma wide_shifts:
  assumes "n < 64" and "counts env b n" and "r \<noteq> 0 \<or> n < 32"
  shows "yields env (C_bin ''<<'' (gpr_expr r) b) (push_bit n (reg_val env r))"
    "yields env (C_bin ''>>'' (gpr_expr r) b) (drop_bit n (reg_val env r))"
    "yields env (C_bin ''>>'' (C_call ''SIGNED'' [gpr_expr r]) b) (signed_drop_bit n (reg_val env r))"
proof -
  show "yields env (C_bin ''>>'' (C_call ''SIGNED'' [gpr_expr r]) b) (signed_drop_bit n (reg_val env r))"
    by (rule sar_wide [OF denotes_gpr assms(2,1)])
  show "yields env (C_bin ''<<'' (gpr_expr r) b) (push_bit n (reg_val env r))"
  proof (cases "r = 0")
    case True
    with assms(3) have "n < 32" by simp
    from zero_shift(1) [OF this assms(2)] show ?thesis by (simp add: True eval_zero(2))
  qed (rule shl_wide [OF _ assms(2,1)])
  show "yields env (C_bin ''>>'' (gpr_expr r) b) (drop_bit n (reg_val env r))"
  proof (cases "r = 0")
    case True
    with assms(3) have "n < 32" by simp
    from zero_shift(2) [OF this assms(2)] show ?thesis by (simp add: True eval_zero(2))
  qed (rule shr_wide [OF _ assms(2,1)])
qed

lemma sa_bounds: "n < 32 \<Longrightarrow> n < 64" "n < 32 \<Longrightarrow> n + 32 < (64 :: nat)" by simp_all

lemma row_shift:
  assumes "ic_reloc_type ic = R_MIPS_NONE" and "ic_sa ic < 32" and "(Shift a, op) \<in> set binary_ops_table"
    and "\<not> literal_pitfall ic (Shift a)"
  shows "computes env ic (Shift a) op"
  using assms(3,4) unfolding binary_ops_table_def list.set insert_iff prod.inject
  by (elim disjE conjE emptyE)
    (simp_all add: assms(1) row_defs literal_pitfall_def less_condition less_registers less_literal
       narrow_shifts [OF counts_bounds(1) count_register(1)] narrow_shifts [OF assms(2) counts_sa [OF assms(2)]]
       wide_shifts [OF counts_bounds(2) count_register(2)] wide_shifts [OF sa_bounds(1) [OF assms(2)] counts_sa [OF assms(2)]]
       wide_shifts [OF sa_bounds(2) [OF assms(2)] counts_sa32 [OF assms(2)]] assms(2)
       sar_wide [OF denotes_gpr count_register(2) counts_bounds(2)]
       sar_wide [OF denotes_gpr counts_sa32 [OF assms(2)] sa_bounds(2) [OF assms(2)]]
       del: One_nat_def split del: split_of_bool)


text \<open>The instructions whose result is that of the table row.\<close>

fun integer_instruction :: "instr_id \<Rightarrow> bool" where
  "integer_instruction (Alu _) = True"
| "integer_instruction (Shift _) = True"
| "integer_instruction (Mem _) = True"
| "integer_instruction _ = False"

lemma table_row_computes:
  assumes "binary_ops i = Some op" and "mips env ic i = Some w"
    and "ic_reloc_type ic = R_MIPS_NONE" and "ic_sa ic < 32" and "\<not> literal_pitfall ic i"
  shows "computes env ic i op"
proof -
  have row: "(i, op) \<in> set binary_ops_table" using assms(1) unfolding binary_ops_def by (rule map_of_SomeD)
  show ?thesis
  proof (cases i)
    case (Alu a)
    then show ?thesis using row_alu [OF assms(3)] row by simp
  next
    case (Shift a)
    then show ?thesis using row_shift [OF assms(3,4)] row assms(5) by simp
  next
    case (Mem a)
    then show ?thesis using row_mem [OF assms(3)] row by simp
  qed (use assms(2) in \<open>simp_all add: mips_def Let_def\<close>)
qed

lemma plain_output: "get_operand_string opnd U_None ic = map_option render (operand_expr opnd ic)"
  unfolding render_unary unary_expr_def by (simp add: option.map_comp comp_def)

text \<open>C30: For every integer arithmetic, logic, shift, comparison and load instruction without a relocation, except those of
  \<open>literal_pitfall\<close>, the generator emits an assignment of an expression which C evaluates, without undefined
  behaviour, to the 64-bit result of the instruction.\<close>

theorem emitted_expression_computes:
  assumes "binary_ops i = Some op" and "mips env ic i = Some w"
    and "ic_reloc_type ic = R_MIPS_NONE" and "ic_sa ic < 32" and "\<not> literal_pitfall ic i"
    and "\<not> is_zero_gpr_operand (bin_output op) ic"
  shows "\<exists>out e. operand_expr (bin_output op) ic = Some out \<and> yields env e w \<and>
    process_binary_op op ic = Some (line (render out @ '' = '' @ render e @ '';''))"
proof -
  obtain out e where o: "operand_expr (bin_output op) ic = Some out"
      and e: "binary_expr (bin_type op) (bin_operands op) ic out = Some e" and y: "yields env e w"
    using table_row_computes [OF assms(1-5)] assms(2) unfolding computes_def by blast
  have "process_binary_op op ic = Some (line (render out @ '' = '' @ render e @ '';''))"
    unfolding process_binary_op_def plain_output o using assms(6) by (simp add: render_binary e)
  with o y show ?thesis by blast
qed

section \<open>Branch conditions\<close>

definition branch_taken :: "cenv \<Rightarrow> instruction_context \<Rightarrow> instr_id \<Rightarrow> bool option" where
  "branch_taken env ic i =
     (let s = reg_val env (ic_rs ic); t = reg_val env (ic_rt ic) in
      case i of
        Jump cpu_beq \<Rightarrow> Some (s = t)
      | Jump cpu_beql \<Rightarrow> Some (s = t)
      | Jump cpu_bne \<Rightarrow> Some (s \<noteq> t)
      | Jump cpu_bnel \<Rightarrow> Some (s \<noteq> t)
      | Jump cpu_bgez \<Rightarrow> Some (0 \<le> sint s)
      | Jump cpu_bgezl \<Rightarrow> Some (0 \<le> sint s)
      | Jump cpu_bgezal \<Rightarrow> Some (0 \<le> sint s)
      | Jump cpu_bgezall \<Rightarrow> Some (0 \<le> sint s)
      | Jump cpu_bgtz \<Rightarrow> Some (0 < sint s)
      | Jump cpu_bgtzl \<Rightarrow> Some (0 < sint s)
      | Jump cpu_blez \<Rightarrow> Some (sint s \<le> 0)
      | Jump cpu_blezl \<Rightarrow> Some (sint s \<le> 0)
      | Jump cpu_bltz \<Rightarrow> Some (sint s < 0)
      | Jump cpu_bltzl \<Rightarrow> Some (sint s < 0)
      | Jump cpu_bltzal \<Rightarrow> Some (sint s < 0)
      | Jump cpu_bltzall \<Rightarrow> Some (sint s < 0)
      | Jump cpu_bc1f \<Rightarrow> Some (\<not> cop1_flag env)
      | Jump cpu_bc1fl \<Rightarrow> Some (\<not> cop1_flag env)
      | Jump cpu_bc1t \<Rightarrow> Some (cop1_flag env)
      | Jump cpu_bc1tl \<Rightarrow> Some (cop1_flag env)
      | _ \<Rightarrow> None)"

definition decides :: "cenv \<Rightarrow> cexp \<Rightarrow> bool \<Rightarrow> bool" where
  "decides env e P \<longleftrightarrow> (\<exists>v. eval env e = Some v \<and> (snd v \<noteq> 0 \<longleftrightarrow> P))"

lemma small_word_eq: "small v \<Longrightarrow> small w \<Longrightarrow> (word_of_int v :: u64) = word_of_int w \<longleftrightarrow> v = w"
  by (metis sint_small)

lemma decides_equal:
  assumes "denotes env a x" and "denotes env b y"
  shows "decides env (C_bin ''=='' a b) (x = y)" "decides env (C_bin ''!='' a b) (x \<noteq> y)"
proof -
  have w: "(take_bit 64 v = take_bit 64 w) \<longleftrightarrow> ((word_of_int v :: u64) = word_of_int w)" for v w :: int
    by (simp add: word_of_int_eq_iff)
  have ci: "common_type I32 I32 = I32" by (simp add: common_type_def)
  show "decides env (C_bin ''=='' a b) (x = y)"
    by (rule denotes_pair [OF assms]) (simp_all add: decides_def Let_def w ci small_word_eq del: convert.simps(1))
  show "decides env (C_bin ''!='' a b) (x \<noteq> y)"
    by (rule denotes_pair [OF assms]) (simp_all add: decides_def Let_def w ci small_word_eq del: convert.simps(1))
qed

lemma decides_sign:
  "decides env (C_bin ''>='' (C_call ''SIGNED'' [gpr_expr r]) (C_dec 0)) (0 \<le> sint (reg_val env r))"
  "decides env (C_bin ''>'' (C_call ''SIGNED'' [gpr_expr r]) (C_dec 0)) (0 < sint (reg_val env r))"
  "decides env (C_bin ''<='' (C_call ''SIGNED'' [gpr_expr r]) (C_dec 0)) (sint (reg_val env r) \<le> 0)"
  "decides env (C_bin ''<'' (C_call ''SIGNED'' [gpr_expr r]) (C_dec 0)) (sint (reg_val env r) < 0)"
  unfolding decides_def eval.simps(7) denotes_signed [OF denotes_gpr]
  by (simp_all add: Let_def common_type_def)

lemma decides_flag: "decides env (C_var ''c1cs'') (cop1_flag env)" "decides env (C_not (C_var ''c1cs'')) (\<not> cop1_flag env)"
  by (simp_all add: decides_def)

lemma branch_row:
  assumes "(i, op) \<in> set conditional_branch_ops_table"
  shows "\<exists>e P. branch_taken env ic i = Some P \<and> decides env e P \<and>
    binary_expr (cbr_comparison op) (cbr_operands op) ic (C_var '''') = Some e"
  using assms unfolding conditional_branch_ops_table_def list.set insert_iff prod.inject
  by (elim disjE conjE emptyE)
    (simp_all add: branch_taken_def branch_op_init_def ops_def binary_expr_def unary_expr_def Let_def
       decides_equal [OF gpr_pair] decides_sign decides_flag)

lemma emitted_condition:
  "binary_expr (cbr_comparison op) (cbr_operands op) ic (C_var '''') = Some e \<Longrightarrow>
    emit_branch_condition op ic = Some (line (''if ('' @ render e @ '') {''))"
  using render_binary [of "cbr_comparison op" "cbr_operands op" ic "C_var ''''"] by (simp add: emit_branch_condition_def)

text \<open>C31: The condition emitted for a conditional branch is true in C exactly when the instruction takes the branch.\<close>

theorem branch_condition_decides:
  assumes "conditional_branch_ops i = Some op"
  shows "\<exists>e P. branch_taken env ic i = Some P \<and> decides env e P \<and>
    emit_branch_condition op ic = Some (line (''if ('' @ render e @ '') {''))"
proof -
  have "(i, op) \<in> set conditional_branch_ops_table"
    using assms unfolding conditional_branch_ops_def by (rule map_of_SomeD)
  from branch_row [OF this] show ?thesis using emitted_condition by blast
qed

section \<open>Register 0 and literals\<close>

lemma zero_less_negative:
  assumes "sint (i :: u16) < 0"
  shows "eval env (C_cond (C_bin ''<'' (C_dec 0) (signed_hex (sint i))) (C_dec 1) (C_dec 0)) = Some (I32, 0)"
proof -
  have "convert I32 (sint i) = sint i" by (rule small_convert [OF sint_imm_small])
  with eval_signed_hex [OF sint_imm_small, of env i] assms show ?thesis
    by (simp add: common_type_def Let_def cast_to_def del: convert.simps) simp
qed

text \<open>For \<open>sltiu\<close> of register 0 with a negative immediate the instruction gives 1 and the emitted expression 0, since C
  compares the two literals as signed \<open>int\<close>s.\<close>

lemma zero_compares_as_int:
  assumes "ic_rs ic = 0" and "sint (ic_imm16 ic) < 0" and "ic_reloc_type ic = R_MIPS_NONE"
    and "binary_ops (Shift cpu_sltiu) = Some op"
  shows "mips env ic (Shift cpu_sltiu) = Some 1 \<and>
    (\<exists>e. get_binary_expr_string (bin_type op) (bin_operands op) ic (render out) = Some (render e) \<and> eval env e = Some (I32, 0))"
proof
  have "simm ic \<noteq> 0"
    using assms(2) unfolding simm_def scast_sint by (metis sint_small sint_imm_small sint_0 less_irrefl)
  then show "mips env ic (Shift cpu_sltiu) = Some 1"
    by (simp add: mips_def Let_def reg_val_def assms(1) word_neq_0_conv [symmetric])
  have op: "op = binary_op_init B_Less O_Rt (ops O_Rs O_ImmS16 U_ToU64 U_None) False False"
    using assms(4) by (simp add: binary_ops_def binary_ops_table_def)
  have e: "binary_expr (bin_type op) (bin_operands op) ic out =
      Some (C_cond (C_bin ''<'' (C_dec 0) (signed_hex (sint (ic_imm16 ic)))) (C_dec 1) (C_dec 0))"
    by (simp add: op binary_op_init_def ops_def binary_expr_def unary_expr_def Let_def gpr_expr_def assms)
  show "\<exists>e. get_binary_expr_string (bin_type op) (bin_operands op) ic (render out) = Some (render e) \<and> eval env e = Some (I32, 0)"
    unfolding render_binary e using zero_less_negative [OF assms(2)] by blast
qed

section \<open>Moves and \<open>lui\<close>\<close>

definition move_result :: "cenv \<Rightarrow> instruction_context \<Rightarrow> instr_id \<Rightarrow> u64 option" where
  "move_result env ic i =
     (case i of
        Alu cpu_lui \<Rightarrow> Some (sext32 (push_bit 16 (ucast (zimm ic))))
      | Alu cpu_mfhi \<Rightarrow> Some (reg_hi env)
      | Alu cpu_mflo \<Rightarrow> Some (reg_lo env)
      | Alu cpu_mthi \<Rightarrow> Some (reg_val env (ic_rs ic))
      | Alu cpu_mtlo \<Rightarrow> Some (reg_val env (ic_rs ic))
      | _ \<Rightarrow> None)"

lemma lui_value:
  "yields env (C_call ''S32'' [C_bin ''<<'' (C_call ''U32'' [C_hex (unat (ic_imm16 ic))]) (C_dec 16)])
     (sext32 (push_bit 16 (ucast (zimm ic))))"
proof -
  let ?w = "ucast (zimm ic) :: u32"
  have "counts env (C_dec 16) 16" by (simp add: counts_def)
  from shift_value(1) [OF eval_U32 [OF denotes_zimm] this]
  have e: "eval env (C_bin ''<<'' (C_call ''U32'' [C_hex (unat (ic_imm16 ic))]) (C_dec 16)) =
      Some (UI32, convert UI32 (push_bit 16 (uint ?w)))" by (simp del: eval.simps)
  have "ucast (to_gpr (UI32, convert UI32 (push_bit 16 (uint ?w)))) = push_bit 16 ?w"
    unfolding to_gpr_def snd_conv by (rule bit_eqI) (auto simp: bit_simps)
  with yields_S32 [OF e] show ?thesis by simp
qed

lemma denotes_yields: "denotes env e w \<Longrightarrow> yields env e w"
  by (metis denotes_to_gpr yields_I)

lemma move_row:
  assumes "(i, op) \<in> set unary_ops_table" and "move_result env ic i = Some w" and "ic_reloc_type ic = R_MIPS_NONE"
  shows "\<exists>out e. operand_expr (uno_output op) ic = Some out \<and> unary_expr (uno_input op) (uno_operation op) ic = Some e \<and>
    yields env e w"
proof -
  have "yields env (C_var ''hi'') (reg_hi env)" "yields env (C_var ''lo'') (reg_lo env)"
    by (simp_all add: yields_def to_gpr_def)
  then show ?thesis
    using assms(1,2) unfolding unary_ops_table_def list.set insert_iff prod.inject
    by (elim disjE conjE emptyE)
      (auto simp: move_result_def unary_op_init_def unary_expr_def assms(3) lui_value denotes_yields [OF denotes_gpr])
qed

lemma emitted_move:
  assumes "operand_expr (uno_output op) ic = Some out" and "unary_expr (uno_input op) (uno_operation op) ic = Some e"
    and "\<not> is_zero_gpr_operand (uno_output op) ic"
  shows "process_unary_op op ic = Some (line (render out @ '' = '' @ render e @ '';''))"
  unfolding process_unary_op_def plain_output assms(1) using assms(2,3) by (simp add: render_unary)

text \<open>A move between a general register and HI or LO, and \<open>lui\<close>, emit an assignment of an expression whose
  value is the result of the instruction.\<close>

lemma emitted_move_computes:
  assumes "unary_ops i = Some op" and "move_result env ic i = Some w" and "ic_reloc_type ic = R_MIPS_NONE"
    and "\<not> is_zero_gpr_operand (uno_output op) ic"
  shows "\<exists>out e. operand_expr (uno_output op) ic = Some out \<and> yields env e w \<and>
    process_unary_op op ic = Some (line (render out @ '' = '' @ render e @ '';''))"
proof -
  have "(i, op) \<in> set unary_ops_table" using assms(1) unfolding unary_ops_def by (rule map_of_SomeD)
  from move_row [OF this assms(2,3)] emitted_move [OF _ _ assms(4)] show ?thesis by blast
qed

section \<open>Examples\<close>

definition sample_env :: cenv where
  "sample_env = \<lparr>gprs = (\<lambda>r. if r = 4 then 0x80000010 else 7), reg_hi = 1, reg_lo = 2, cop1_flag = True, guest = (\<lambda>_. 0)\<rparr>"

definition sample_ic :: "nat \<Rightarrow> nat \<Rightarrow> u16 \<Rightarrow> instruction_context" where
  "sample_ic s t imm = \<lparr>ic_rd = 2, ic_rs = s, ic_rt = t, ic_sa = 3, ic_fd = 0, ic_fs = 0, ic_ft = 0, ic_cop1_cs = 0,
     ic_imm16 = imm, ic_reloc_tag_as_reference = False, ic_reloc_type = R_MIPS_NONE, ic_reloc_section_index = 0,
     ic_reloc_target_section_offset = 0\<rparr>"

text \<open>\<open>addiu $5, $4, -4\<close>, \<open>bltz $4\<close>, \<open>sltiu $5, $zero, -4\<close> and \<open>lui $5, 0x8000\<close>.\<close>

theorem emitted_expression_computes_witness:
  "\<exists>op out e. binary_ops (Alu cpu_addiu) = Some op \<and> operand_expr (bin_output op) (sample_ic 4 5 0xFFFC) = Some out \<and>
    yields sample_env e 0xFFFFFFFF8000000C \<and>
    process_binary_op op (sample_ic 4 5 0xFFFC) = Some (line (render out @ '' = '' @ render e @ '';''))"
proof -
  have op: "binary_ops (Alu cpu_addiu) = Some (binary_op_init B_Add32 O_Rt (ops O_Rs O_ImmS16 U_None U_None) False False)"
    by (simp add: binary_ops_def binary_ops_table_def)
  have w: "mips sample_env (sample_ic 4 5 0xFFFC) (Alu cpu_addiu) = Some 0xFFFFFFFF8000000C"
    by (simp add: mips_def sample_env_def sample_ic_def reg_val_def simm_def sext32_def)
  show ?thesis
    using emitted_expression_computes [OF op w] op
    by (simp add: sample_ic_def literal_pitfall_def is_zero_gpr_operand_def binary_op_init_def)
qed

theorem branch_condition_decides_witness:
  "\<exists>op e. conditional_branch_ops (Jump cpu_bltz) = Some op \<and> decides sample_env e False \<and>
    emit_branch_condition op (sample_ic 4 5 0) = Some (line (''if ('' @ render e @ '') {''))"
proof -
  have op: "conditional_branch_ops (Jump cpu_bltz) = Some (branch_op_init B_Less (ops O_Rs O_Zero U_ToS64 U_None) False False)"
    by (simp add: conditional_branch_ops_def conditional_branch_ops_table_def)
  have "branch_taken sample_env (sample_ic 4 5 0) (Jump cpu_bltz) = Some False"
    by (simp add: branch_taken_def sample_env_def sample_ic_def reg_val_def)
  with branch_condition_decides [OF op, of sample_env "sample_ic 4 5 0"] op show ?thesis by auto
qed

lemma zero_compares_as_int_example:
  "\<exists>op e. binary_ops (Shift cpu_sltiu) = Some op \<and> mips sample_env (sample_ic 0 5 0xFFFC) (Shift cpu_sltiu) = Some 1 \<and>
    get_binary_expr_string (bin_type op) (bin_operands op) (sample_ic 0 5 0xFFFC) ''ctx->r5'' = Some (render e) \<and>
    eval sample_env e = Some (I32, 0)"
proof -
  have op: "binary_ops (Shift cpu_sltiu) = Some (binary_op_init B_Less O_Rt (ops O_Rs O_ImmS16 U_ToU64 U_None) False False)"
    by (simp add: binary_ops_def binary_ops_table_def)
  have c: "ic_rs (sample_ic 0 5 0xFFFC) = 0" "sint (ic_imm16 (sample_ic 0 5 0xFFFC)) < 0"
      "ic_reloc_type (sample_ic 0 5 0xFFFC) = R_MIPS_NONE" "render (C_var ''ctx->r5'') = ''ctx->r5''"
    by (simp_all add: sample_ic_def)
  from zero_compares_as_int [OF c(1-3) op, of sample_env "C_var ''ctx->r5''"] op c(4) show ?thesis by auto
qed

theorem emitted_move_computes_witness:
  "\<exists>op out e. unary_ops (Alu cpu_lui) = Some op \<and> operand_expr (uno_output op) (sample_ic 0 5 0x8000) = Some out \<and>
    yields sample_env e 0xFFFFFFFF80000000 \<and>
    process_unary_op op (sample_ic 0 5 0x8000) = Some (line (render out @ '' = '' @ render e @ '';''))"
proof -
  have op: "unary_ops (Alu cpu_lui) = Some (unary_op_init U_Lui O_Rt O_ImmU16 False False)"
    by (simp add: unary_ops_def unary_ops_table_def)
  have w: "move_result sample_env (sample_ic 0 5 0x8000) (Alu cpu_lui) = Some 0xFFFFFFFF80000000"
    by (simp add: move_result_def sample_ic_def zimm_def sext32_def)
  show ?thesis
    using emitted_move_computes [OF op w] op by (simp add: sample_ic_def is_zero_gpr_operand_def unary_op_init_def)
qed

end
