(* ===== verification/Rsp_Recompiler.thy ===== *)
theory Rsp_Recompiler
  imports Emission
begin

text \<open>
  The RSP microcode recompiler, \<open>RSPRecomp/src/rsp_recomp.cpp\<close>: the text it emits for the instructions of one microcode image.

  \<^item> A decoded instruction is a record of what the source asks of \<open>rabbitizer::InstructionRsp\<close>; decoding is not part of the
    sources and is a parameter where words are decoded.
  \<^item> The output is a list of the pieces of \<open>Emission\<close>, so that labels and jumps stay visible; \<open>None\<close> is a failed assertion or an uncaught
    exception.
  \<^item> An \<open>unordered_set\<close> is the list of its elements in the order it is iterated, which is the order of insertion here and
    arbitrary in C++.
\<close>

section \<open>Instructions\<close>

datatype rsp_alu =
    rsp_nop | rsp_lui | rsp_add | rsp_addu | rsp_negu | rsp_sub | rsp_subu | rsp_addi
  | rsp_addiu | rsp_and | rsp_andi | rsp_or | rsp_ori | rsp_nor | rsp_xor | rsp_xori
  | rsp_sll | rsp_sllv | rsp_sra | rsp_srav | rsp_srl | rsp_srlv | rsp_slt | rsp_slti
  | rsp_sltu | rsp_sltiu

datatype rsp_mem =
    rsp_lw | rsp_lh | rsp_lb | rsp_lhu | rsp_lbu | rsp_sw | rsp_sh | rsp_sb

datatype rsp_control =
    rsp_j | rsp_b | rsp_jal | rsp_jr | rsp_jalr | rsp_bne | rsp_beq | rsp_bgez
  | rsp_bgtz | rsp_blez | rsp_bltz | rsp_bgezal | rsp_bltzal | rsp_break | rsp_mfc0 | rsp_mtc0

datatype rsp_vector_mem =
    rsp_lbv | rsp_ldv | rsp_lfv | rsp_lhv | rsp_llv | rsp_lpv | rsp_lqv | rsp_lrv
  | rsp_lsv | rsp_luv | rsp_sbv | rsp_sdv | rsp_sfv | rsp_shv | rsp_slv | rsp_spv
  | rsp_sqv | rsp_srv | rsp_ssv | rsp_suv | rsp_swv | rsp_stv | rsp_ltv

datatype rsp_vector_op =
    rsp_vabs | rsp_vadd | rsp_vaddc | rsp_vand | rsp_vch | rsp_vcl | rsp_vcr | rsp_veq
  | rsp_vge | rsp_vlt | rsp_vmacf | rsp_vmacu | rsp_vmadh | rsp_vmadl | rsp_vmadm | rsp_vmadn
  | rsp_vmrg | rsp_vmudh | rsp_vmudl | rsp_vmudm | rsp_vmudn | rsp_vne | rsp_vnor | rsp_vnxor
  | rsp_vor | rsp_vsub | rsp_vsubc | rsp_vmulf | rsp_vmulu | rsp_vmulq | rsp_vnand | rsp_vxor
  | rsp_vsar | rsp_vmacq | rsp_vrndn | rsp_vrndp | rsp_vmov | rsp_vrcp | rsp_vrcpl | rsp_vrcph
  | rsp_vrsq | rsp_vrsql | rsp_vrsqh

datatype rsp_vector_move =
    rsp_mfc2 | rsp_mtc2 | rsp_vnop

datatype rsp_id =
    R_alu rsp_alu
  | R_mem rsp_mem
  | R_control rsp_control
  | RV_mem rsp_vector_mem
  | RV_op rsp_vector_op
  | RV_move rsp_vector_move
  | R_other string

datatype rsp_operand =
    Op_None | Op_Vt | Op_VtIndex | Op_Vd | Op_Vs | Op_VsIndex | Op_De | Op_Rt | Op_Rs | Op_Imm7

definition vector_operands_table :: "(rsp_id \<times> rsp_operand list) list" where
  "vector_operands_table = [
   (RV_mem rsp_lbv, [Op_Vt, Op_Rs, Op_Imm7]),
   (RV_mem rsp_ldv, [Op_Vt, Op_Rs, Op_Imm7]),
   (RV_mem rsp_lfv, [Op_Vt, Op_Rs, Op_Imm7]),
   (RV_mem rsp_lhv, [Op_Vt, Op_Rs, Op_Imm7]),
   (RV_mem rsp_llv, [Op_Vt, Op_Rs, Op_Imm7]),
   (RV_mem rsp_lpv, [Op_Vt, Op_Rs, Op_Imm7]),
   (RV_mem rsp_lqv, [Op_Vt, Op_Rs, Op_Imm7]),
   (RV_mem rsp_lrv, [Op_Vt, Op_Rs, Op_Imm7]),
   (RV_mem rsp_lsv, [Op_Vt, Op_Rs, Op_Imm7]),
   (RV_mem rsp_luv, [Op_Vt, Op_Rs, Op_Imm7]),
   (RV_mem rsp_sbv, [Op_Vt, Op_Rs, Op_Imm7]),
   (RV_mem rsp_sdv, [Op_Vt, Op_Rs, Op_Imm7]),
   (RV_mem rsp_sfv, [Op_Vt, Op_Rs, Op_Imm7]),
   (RV_mem rsp_shv, [Op_Vt, Op_Rs, Op_Imm7]),
   (RV_mem rsp_slv, [Op_Vt, Op_Rs, Op_Imm7]),
   (RV_mem rsp_spv, [Op_Vt, Op_Rs, Op_Imm7]),
   (RV_mem rsp_sqv, [Op_Vt, Op_Rs, Op_Imm7]),
   (RV_mem rsp_srv, [Op_Vt, Op_Rs, Op_Imm7]),
   (RV_mem rsp_ssv, [Op_Vt, Op_Rs, Op_Imm7]),
   (RV_mem rsp_suv, [Op_Vt, Op_Rs, Op_Imm7]),
   (RV_mem rsp_swv, [Op_Vt, Op_Rs, Op_Imm7]),
   (RV_mem rsp_stv, [Op_VtIndex, Op_Rs, Op_Imm7]),
   (RV_mem rsp_ltv, [Op_VtIndex, Op_Rs, Op_Imm7]),
   (RV_op rsp_vabs, [Op_Vd, Op_Vs, Op_Vt]),
   (RV_op rsp_vadd, [Op_Vd, Op_Vs, Op_Vt]),
   (RV_op rsp_vaddc, [Op_Vd, Op_Vs, Op_Vt]),
   (RV_op rsp_vand, [Op_Vd, Op_Vs, Op_Vt]),
   (RV_op rsp_vch, [Op_Vd, Op_Vs, Op_Vt]),
   (RV_op rsp_vcl, [Op_Vd, Op_Vs, Op_Vt]),
   (RV_op rsp_vcr, [Op_Vd, Op_Vs, Op_Vt]),
   (RV_op rsp_veq, [Op_Vd, Op_Vs, Op_Vt]),
   (RV_op rsp_vge, [Op_Vd, Op_Vs, Op_Vt]),
   (RV_op rsp_vlt, [Op_Vd, Op_Vs, Op_Vt]),
   (RV_op rsp_vmacf, [Op_Vd, Op_Vs, Op_Vt]),
   (RV_op rsp_vmacu, [Op_Vd, Op_Vs, Op_Vt]),
   (RV_op rsp_vmadh, [Op_Vd, Op_Vs, Op_Vt]),
   (RV_op rsp_vmadl, [Op_Vd, Op_Vs, Op_Vt]),
   (RV_op rsp_vmadm, [Op_Vd, Op_Vs, Op_Vt]),
   (RV_op rsp_vmadn, [Op_Vd, Op_Vs, Op_Vt]),
   (RV_op rsp_vmrg, [Op_Vd, Op_Vs, Op_Vt]),
   (RV_op rsp_vmudh, [Op_Vd, Op_Vs, Op_Vt]),
   (RV_op rsp_vmudl, [Op_Vd, Op_Vs, Op_Vt]),
   (RV_op rsp_vmudm, [Op_Vd, Op_Vs, Op_Vt]),
   (RV_op rsp_vmudn, [Op_Vd, Op_Vs, Op_Vt]),
   (RV_op rsp_vne, [Op_Vd, Op_Vs, Op_Vt]),
   (RV_op rsp_vnor, [Op_Vd, Op_Vs, Op_Vt]),
   (RV_op rsp_vnxor, [Op_Vd, Op_Vs, Op_Vt]),
   (RV_op rsp_vor, [Op_Vd, Op_Vs, Op_Vt]),
   (RV_op rsp_vsub, [Op_Vd, Op_Vs, Op_Vt]),
   (RV_op rsp_vsubc, [Op_Vd, Op_Vs, Op_Vt]),
   (RV_op rsp_vmulf, [Op_Vd, Op_Vs, Op_Vt]),
   (RV_op rsp_vmulu, [Op_Vd, Op_Vs, Op_Vt]),
   (RV_op rsp_vmulq, [Op_Vd, Op_Vs, Op_Vt]),
   (RV_op rsp_vnand, [Op_Vd, Op_Vs, Op_Vt]),
   (RV_op rsp_vxor, [Op_Vd, Op_Vs, Op_Vt]),
   (RV_op rsp_vsar, [Op_Vd, Op_Vs, Op_None]),
   (RV_op rsp_vmacq, [Op_Vd, Op_None, Op_None]),
   (RV_op rsp_vrndn, [Op_Vd, Op_VsIndex, Op_Vt]),
   (RV_op rsp_vrndp, [Op_Vd, Op_VsIndex, Op_Vt]),
   (RV_op rsp_vmov, [Op_Vd, Op_De, Op_Vt]),
   (RV_op rsp_vrcp, [Op_Vd, Op_De, Op_Vt]),
   (RV_op rsp_vrcpl, [Op_Vd, Op_De, Op_Vt]),
   (RV_op rsp_vrcph, [Op_Vd, Op_De, Op_Vt]),
   (RV_op rsp_vrsq, [Op_Vd, Op_De, Op_Vt]),
   (RV_op rsp_vrsql, [Op_Vd, Op_De, Op_Vt]),
   (RV_op rsp_vrsqh, [Op_Vd, Op_De, Op_Vt]),
   (RV_move rsp_mfc2, [Op_Rt, Op_Vs, Op_None]),
   (RV_move rsp_mtc2, [Op_Rt, Op_Vs, Op_None]),
   (RV_move rsp_vnop, [Op_None, Op_None, Op_None])]"

definition vector_operands :: "rsp_id \<rightharpoonup> rsp_operand list" where
  "vector_operands = map_of vector_operands_table"

record rsp_instr =
  ri_vram :: u32
  ri_id :: rsp_id
  ri_rd :: nat
  ri_rs :: nat
  ri_rt :: nat
  ri_sa :: nat
  ri_immediate :: u16
  ri_vd :: nat
  ri_vs :: nat
  ri_vt :: nat
  ri_de :: nat
  ri_elementhigh :: nat
  ri_elementlow :: nat
  ri_has_elementhigh :: bool
  ri_has_elementlow :: bool
  ri_has_vs_index :: bool
  ri_is_branch :: bool
  ri_is_jump_with_address :: bool
  ri_does_link :: bool
  ri_has_delay_slot :: bool
  ri_branch_vram :: u32
  ri_opcode_name :: string
  ri_disassemble :: "string option \<Rightarrow> string"

definition instr_size :: u32 where
  "instr_size = 4"

definition rsp_mem_mask :: u32 where
  "rsp_mem_mask = 0x1FFF"

definition gpr_ref_prefix :: "nat \<Rightarrow> string" where
  "gpr_ref_prefix reg = (if reg \<noteq> 0 then ''r'' else '''')"

text \<open>The coprocessor registers, by number.\<close>

definition cop0_read_value :: "nat \<Rightarrow> nat option" where
  "cop0_read_value cop0_reg =
     (if cop0_reg = 4 then Some 0
      else if cop0_reg = 5 then Some 0
      else if cop0_reg = 6 then Some 0
      else if cop0_reg = 7 then Some 0
      else if cop0_reg \<in> {8, 9, 10, 11, 12, 13, 14, 15} then Some 0
      else None)"

definition cop0_write_action :: "nat \<Rightarrow> string option" where
  "cop0_write_action cop0_reg =
     (if cop0_reg = 7 then Some ''''
      else if cop0_reg = 4 then Some ''WRITE_SP_STATUS''
      else if cop0_reg = 1 then Some ''SET_DMA_DRAM''
      else if cop0_reg = 0 then Some ''SET_DMA_MEM''
      else if cop0_reg = 2 then Some ''DO_DMA_READ''
      else if cop0_reg = 3 then Some ''DO_DMA_WRITE''
      else None)"

definition cop0_write_is_dma_read :: "nat \<Rightarrow> bool" where
  "cop0_write_is_dma_read cop0_reg \<longleftrightarrow> cop0_reg = 2"

definition decode_vector_element :: "rsp_instr \<Rightarrow> nat option" where
  "decode_vector_element instr =
     (if ri_has_elementhigh instr then Some (ri_elementhigh instr)
      else if ri_has_elementlow instr \<or> ri_has_vs_index instr then Some (ri_elementlow instr)
      else None)"

definition vector_op_skips_element :: "rsp_id \<Rightarrow> bool" where
  "vector_op_skips_element i \<longleftrightarrow> i = RV_op rsp_vmacq \<or> i = RV_move rsp_vnop"

section \<open>Targets\<close>

definition set_insert :: "'a \<Rightarrow> 'a list \<Rightarrow> 'a list" where
  "set_insert x xs = (if x \<in> set xs then xs else xs @ [x])"

lemma set_set_insert [simp]: "set (set_insert x xs) = insert x (set xs)"
  by (auto simp: set_insert_def)

lemma distinct_set_insert [simp]: "distinct (set_insert x xs) \<longleftrightarrow> distinct xs"
  by (simp add: set_insert_def)

record branch_targets =
  direct_targets :: "u32 list"
  indirect_targets :: "u32 list"

definition imem_address :: "u32 \<Rightarrow> u32" where
  "imem_address vram = (vram OR 0x1000) AND rsp_mem_mask"

definition is_indirect_jump :: "rsp_id \<Rightarrow> bool" where
  "is_indirect_jump i \<longleftrightarrow> i = R_control rsp_jr \<or> i = R_control rsp_jalr"

definition indirect_jump_regs :: "rsp_instr list \<Rightarrow> nat list" where
  "indirect_jump_regs instrs =
     fold (\<lambda>instr regs. if is_indirect_jump (ri_id instr) then set_insert (ri_rs instr) regs else regs) instrs []"

definition collect_instr_targets :: "nat list \<Rightarrow> rsp_instr \<Rightarrow> branch_targets \<Rightarrow> branch_targets" where
  "collect_instr_targets jump_regs instr ret =
     (let ret1 = (if ri_is_jump_with_address instr \<or> ri_is_branch instr
                  then ret\<lparr>direct_targets := set_insert (imem_address (ri_branch_vram instr)) (direct_targets ret)\<rparr> else ret);
          ret2 = (if ri_does_link instr
                  then ret1\<lparr>indirect_targets := set_insert (ri_vram instr + 2 * instr_size) (indirect_targets ret1)\<rparr> else ret1);
          imm = ri_immediate instr
      in if (ri_id instr = R_alu rsp_addiu \<or> ri_id instr = R_alu rsp_ori) \<and> ri_rs instr = 0 \<and> ri_rt instr \<in> set jump_regs \<and>
            0x1000 \<le> imm \<and> (ucast imm :: u32) \<le> rsp_mem_mask
         then ret2\<lparr>indirect_targets := set_insert (ucast imm) (indirect_targets ret2)\<rparr> else ret2)"

definition collect_branch_targets :: "rsp_instr list \<Rightarrow> branch_targets" where
  "collect_branch_targets instrs =
     fold (collect_instr_targets (indirect_jump_regs instrs)) instrs \<lparr>direct_targets = [], indirect_targets = []\<rparr>"

record resume_targets =
  non_delay_targets :: "u32 list"
  delay_targets :: "u32 list"

text \<open>The loop carries whether the instruction is in a delay slot.\<close>

fun resume_targets_from :: "bool \<Rightarrow> rsp_instr list \<Rightarrow> resume_targets \<Rightarrow> resume_targets" where
  "resume_targets_from is_delay_slot [] targets = targets"
| "resume_targets_from is_delay_slot (instr # instrs) targets =
     (let targets' =
        (if ri_id instr = R_control rsp_mtc0 \<and> cop0_write_is_dma_read (ri_rd instr) then
           (let t = targets\<lparr>non_delay_targets := set_insert (ri_vram instr) (non_delay_targets targets)\<rparr> in
            if is_delay_slot then t\<lparr>delay_targets := set_insert (ri_vram instr) (delay_targets t)\<rparr> else t)
         else targets)
      in resume_targets_from (ri_has_delay_slot instr) instrs targets')"

definition collect_resume_targets :: "rsp_instr list \<Rightarrow> resume_targets \<Rightarrow> resume_targets" where
  "collect_resume_targets = resume_targets_from False"

section \<open>Text\<close>

definition quoted :: "string \<Rightarrow> string" where
  "quoted s = [CHR 0x22] @ s @ [CHR 0x22]"

definition escaped_newline :: string where
  "escaped_newline = [CHR 0x5C, CHR ''n'']"

definition rsp_label :: "u32 \<Rightarrow> string" where
  "rsp_label vram = ''L_'' @ fmt_04X (unat vram)"

definition resume_label :: "u32 \<Rightarrow> string" where
  "resume_label vram = ''R_'' @ fmt_04X (unat vram)"

definition resume_delay_label :: "u32 \<Rightarrow> string" where
  "resume_delay_label vram = ''R_'' @ fmt_04X (unat vram) @ ''_delay''"

definition gpr_ref :: "nat \<Rightarrow> string" where
  "gpr_ref reg = gpr_ref_prefix reg @ fmt_nat reg"

definition rsp_line :: "string \<Rightarrow> piece list" where
  "rsp_line s = [Text (''    '' @ s @ '';'' @ newline)]"

definition watchdog_text :: "u32 \<Rightarrow> string" where
  "watchdog_text vram = print_lines [
     ''    ctx->pc_trail[ctx->pc_trail_idx & 31] = 0x'' @ fmt_04X (unat vram) @ '';'',
     ''    ctx->pc_trail_idx++;'',
     ''    if (++ctx->watchdog_count > 100000000ULL) {'',
     ''        fprintf(stderr, '' @ quoted (''[rsp watchdog] hung at PC 0x'' @ fmt_04X (unat vram) @
        '' after %llu transitions; PC trail (oldest..newest):'' @ escaped_newline) @ '', (unsigned long long)ctx->watchdog_count);'',
     ''        for (uint32_t i = 0; i < 32; i++) {'',
     ''            uint32_t pos = (ctx->pc_trail_idx + i) & 31;'',
     ''            fprintf(stderr, '' @ quoted (''  [%2u] PC=0x%04X'' @ escaped_newline) @ '', i, ctx->pc_trail[pos]);'',
     ''        }'',
     ''        fprintf(stderr, '' @ quoted (''[rsp watchdog] gprs: r1=%08X r2=%08X r3=%08X r25=%08X r26=%08X r27=%08X r28=%08X r29=%08X r30=%08X r31=%08X jt=%08X dma_mem=%08X dma_dram=%08X'' @
        escaped_newline) @ '','',
     ''            ctx->r1, ctx->r2, ctx->r3, ctx->r25, ctx->r26, ctx->r27, ctx->r28, ctx->r29, ctx->r30, ctx->r31, ctx->jump_target, ctx->dma_mem_address, ctx->dma_dram_address);'',
     ''        return RspExitReason::Watchdog;'',
     ''    }'']"

definition rsp_label_pieces :: "u32 \<Rightarrow> piece list" where
  "rsp_label_pieces vram = [Label (rsp_label vram), Text (newline @ watchdog_text vram)]"

section \<open>One instruction\<close>

definition upper_char :: "char \<Rightarrow> char" where
  "upper_char c = (if 97 \<le> (of_char c :: nat) \<and> (of_char c :: nat) \<le> 122 then char_of ((of_char c :: nat) - 32) else c)"

definition imm7_value :: "u16 \<Rightarrow> int" where
  "imm7_value imm = sint (ucast (push_bit 1 (ucast imm :: u32)) :: u8) div 2"

definition vector_operand_text :: "rsp_instr \<Rightarrow> rsp_operand \<Rightarrow> string" where
  "vector_operand_text instr opnd =
     (case opnd of
        Op_Vt \<Rightarrow> ''rsp.vpu.r['' @ fmt_nat (ri_vt instr) @ ''], ''
      | Op_VtIndex \<Rightarrow> fmt_nat (ri_vt instr) @ '', ''
      | Op_Vd \<Rightarrow> ''rsp.vpu.r['' @ fmt_nat (ri_vd instr) @ ''], ''
      | Op_Vs \<Rightarrow> ''rsp.vpu.r['' @ fmt_nat (ri_vs instr) @ ''], ''
      | Op_VsIndex \<Rightarrow> fmt_nat (ri_vs instr) @ '', ''
      | Op_De \<Rightarrow> fmt_nat (ri_de instr AND 7) @ '', ''
      | Op_Rt \<Rightarrow> gpr_ref (ri_rt instr) @ '', ''
      | Op_Rs \<Rightarrow> gpr_ref (ri_rs instr) @ '', ''
      | Op_Imm7 \<Rightarrow> fmt_hash_X_signed (imm7_value (ri_immediate instr)) @ '', ''
      | Op_None \<Rightarrow> '''')"

definition emit_vector :: "rsp_instr \<Rightarrow> rsp_operand list \<Rightarrow> piece list option" where
  "emit_vector instr operands =
     (let args = concat (map (vector_operand_text instr) operands);
          args_text = (if args \<noteq> '''' then take (length args - 2) args else args);
          upper_mnemonic = map upper_char (ri_opcode_name instr)
      in if vector_op_skips_element (ri_id instr) then Some (rsp_line (''rsp.'' @ upper_mnemonic @ ''('' @ args_text @ '')''))
         else case decode_vector_element instr of
           None \<Rightarrow> None
         | Some element \<Rightarrow> Some (rsp_line (''rsp.'' @ upper_mnemonic @ ''<'' @ fmt_nat element @ ''>('' @ args_text @ '')'')))"

definition emit_alu :: "rsp_instr \<Rightarrow> rsp_alu \<Rightarrow> piece list" where
  "emit_alu instr i =
     (let rd = gpr_ref (ri_rd instr); rs = gpr_ref (ri_rs instr); rt = gpr_ref (ri_rt instr);
          sa = fmt_nat (ri_sa instr);
          imm_unsigned = fmt_hash_X (unat (ri_immediate instr));
          imm_signed = fmt_hash_X_signed (sint (ri_immediate instr));
          blank = [Text newline];
          add32 = rsp_line (rd @ '' = RSP_ADD32('' @ rs @ '', '' @ rt @ '')'');
          sub32 = rsp_line (rd @ '' = RSP_SUB32('' @ rs @ '', '' @ rt @ '')'')
      in case i of
        rsp_nop \<Rightarrow> blank
      | rsp_lui \<Rightarrow> rsp_line (rt @ '' = S32(U32('' @ imm_unsigned @ '') << 16)'')
      | rsp_add \<Rightarrow> if ri_rd instr = 0 then blank else add32
      | rsp_addu \<Rightarrow> if ri_rd instr = 0 then blank else add32
      | rsp_negu \<Rightarrow> sub32
      | rsp_sub \<Rightarrow> sub32
      | rsp_subu \<Rightarrow> sub32
      | rsp_addi \<Rightarrow> rsp_line (rt @ '' = RSP_ADD32('' @ rs @ '', '' @ imm_signed @ '')'')
      | rsp_addiu \<Rightarrow> rsp_line (rt @ '' = RSP_ADD32('' @ rs @ '', '' @ imm_signed @ '')'')
      | rsp_and \<Rightarrow> if ri_rd instr = 0 then blank else rsp_line (rd @ '' = '' @ rs @ '' & '' @ rt)
      | rsp_andi \<Rightarrow> rsp_line (rt @ '' = '' @ rs @ '' & '' @ imm_unsigned)
      | rsp_or \<Rightarrow> rsp_line (rd @ '' = '' @ rs @ '' | '' @ rt)
      | rsp_ori \<Rightarrow> rsp_line (rt @ '' = '' @ rs @ '' | '' @ imm_unsigned)
      | rsp_nor \<Rightarrow> rsp_line (rd @ '' = ~('' @ rs @ '' | '' @ rt @ '')'')
      | rsp_xor \<Rightarrow> rsp_line (rd @ '' = '' @ rs @ '' ^ '' @ rt)
      | rsp_xori \<Rightarrow> rsp_line (rt @ '' = '' @ rs @ '' ^ '' @ imm_unsigned)
      | rsp_sll \<Rightarrow> rsp_line (rd @ '' = S32(U32('' @ rt @ '') << '' @ sa @ '')'')
      | rsp_sllv \<Rightarrow> rsp_line (rd @ '' = S32(U32('' @ rt @ '') << ('' @ rs @ '' & 31))'')
      | rsp_sra \<Rightarrow> rsp_line (rd @ '' = S32(RSP_SIGNED('' @ rt @ '') >> '' @ sa @ '')'')
      | rsp_srav \<Rightarrow> rsp_line (rd @ '' = S32(RSP_SIGNED('' @ rt @ '') >> ('' @ rs @ '' & 31))'')
      | rsp_srl \<Rightarrow> rsp_line (rd @ '' = S32(U32('' @ rt @ '') >> '' @ sa @ '')'')
      | rsp_srlv \<Rightarrow> rsp_line (rd @ '' = S32(U32('' @ rt @ '') >> ('' @ rs @ '' & 31))'')
      | rsp_slt \<Rightarrow> rsp_line (rd @ '' = RSP_SIGNED('' @ rs @ '') < RSP_SIGNED('' @ rt @ '') ? 1 : 0'')
      | rsp_slti \<Rightarrow> rsp_line (rt @ '' = RSP_SIGNED('' @ rs @ '') < '' @ imm_signed @ '' ? 1 : 0'')
      | rsp_sltu \<Rightarrow> rsp_line (rd @ '' = '' @ rs @ '' < '' @ rt @ '' ? 1 : 0'')
      | rsp_sltiu \<Rightarrow> rsp_line (rt @ '' = '' @ rs @ '' < '' @ imm_signed @ '' ? 1 : 0''))"

definition emit_mem :: "rsp_instr \<Rightarrow> rsp_mem \<Rightarrow> piece list" where
  "emit_mem instr i =
     (let base = gpr_ref (ri_rs instr); rt = gpr_ref (ri_rt instr);
          imm_signed = fmt_hash_X_signed (sint (ri_immediate instr));
          load = (\<lambda>f. rsp_line (rt @ '' = '' @ f @ ''('' @ imm_signed @ '', '' @ base @ '')''));
          store = (\<lambda>f. rsp_line (f @ ''('' @ imm_signed @ '', '' @ base @ '', '' @ rt @ '')''))
      in case i of
        rsp_lw \<Rightarrow> load ''RSP_MEM_W_LOAD''
      | rsp_lh \<Rightarrow> load ''RSP_MEM_H_LOAD''
      | rsp_lb \<Rightarrow> load ''RSP_MEM_B''
      | rsp_lhu \<Rightarrow> load ''RSP_MEM_HU_LOAD''
      | rsp_lbu \<Rightarrow> load ''RSP_MEM_BU''
      | rsp_sw \<Rightarrow> store ''RSP_MEM_W_STORE''
      | rsp_sh \<Rightarrow> store ''RSP_MEM_H_STORE''
      | rsp_sb \<Rightarrow> rsp_line (''RSP_MEM_B('' @ imm_signed @ '', '' @ base @ '') = '' @ rt))"

text \<open>Control flow. \<open>delay\<close> emits the next instruction in the delay slot, with or without indentation; it is empty at the
  end of the image.\<close>

type_synonym delay_emitter = "bool \<Rightarrow> piece list option"

definition print_unconditional_branch :: "delay_emitter \<Rightarrow> string \<Rightarrow> piece list option" where
  "print_unconditional_branch delay target =
     map_option (\<lambda>ps. ps @ [Text ''    '', Goto target, Text newline]) (delay False)"

definition print_branch :: "delay_emitter \<Rightarrow> string \<Rightarrow> string \<Rightarrow> piece list option" where
  "print_branch delay condition target =
     map_option (\<lambda>ps. [Text (''    if ('' @ condition @ '') {'' @ newline @ ''    '')] @ ps @
       [Text ''        '', Goto target, Text (newline @ ''    }'' @ newline)]) (delay True)"

definition print_link_branch :: "delay_emitter \<Rightarrow> string \<Rightarrow> u32 \<Rightarrow> string \<Rightarrow> piece list option" where
  "print_link_branch delay condition return_vram target =
     map_option (\<lambda>ps. [Text (''    if ('' @ condition @ '') {'' @ newline @
          ''        r31 = 0x'' @ fmt_04X (unat return_vram) @ '';'' @ newline)] @ ps @
       [Text ''        '', Goto target, Text (newline @ ''    }'' @ newline)]) (delay True)"

definition emit_indirect :: "delay_emitter \<Rightarrow> string \<Rightarrow> piece list option" where
  "emit_indirect delay assignment =
     map_option (\<lambda>ps. rsp_line assignment @ rsp_line ''debug_file = __FILE__; debug_line = __LINE__'' @ ps)
       (print_unconditional_branch delay ''do_indirect_jump'')"

definition overlay_check :: "u32 \<Rightarrow> bool \<Rightarrow> piece list" where
  "overlay_check vram in_delay_slot =
     [Text (''    if (dma_mem_address & 0x1000) {'' @ newline @
        ''        ctx->resume_address = 0x'' @ fmt_04X (unat vram) @ '';'' @ newline @
        ''        ctx->resume_delay = '' @ (if in_delay_slot then ''true'' else ''false'') @ '';'' @ newline @ ''        ''),
      Goto ''do_overlay_swap'', Text (newline @ ''    }'' @ newline)]"

definition emit_control :: "bool \<Rightarrow> bool \<Rightarrow> rsp_instr \<Rightarrow> delay_emitter \<Rightarrow> rsp_control \<Rightarrow> piece list option" where
  "emit_control has_overlays in_delay_slot instr delay i =
     (let rd = gpr_ref (ri_rd instr); rs = gpr_ref (ri_rs instr); rt = gpr_ref (ri_rt instr);
          vram = ri_vram instr;
          return_vram = vram + 2 * instr_size;
          target = rsp_label (ucast (ucast (imem_address (ri_branch_vram instr)) :: u16));
          branch = print_branch delay;
          sign_test = (\<lambda>op. ''RSP_SIGNED('' @ rs @ '') '' @ op @ '' 0'')
      in case i of
        rsp_j \<Rightarrow> print_unconditional_branch delay target
      | rsp_b \<Rightarrow> print_unconditional_branch delay target
      | rsp_jal \<Rightarrow> map_option (\<lambda>ps. rsp_line (''r31 = 0x'' @ fmt_04X (unat return_vram)) @ ps) (print_unconditional_branch delay target)
      | rsp_jr \<Rightarrow> emit_indirect delay (''jump_target = '' @ rs)
      | rsp_jalr \<Rightarrow> emit_indirect delay (''jump_target = '' @ rs @ ''; '' @ rd @ '' = 0x'' @ fmt_8X (unat return_vram))
      | rsp_bne \<Rightarrow> branch (rs @ '' != '' @ rt) target
      | rsp_beq \<Rightarrow> branch (rs @ '' == '' @ rt) target
      | rsp_bgez \<Rightarrow> branch (sign_test ''>='') target
      | rsp_bgtz \<Rightarrow> branch (sign_test ''>'') target
      | rsp_blez \<Rightarrow> branch (sign_test ''<='') target
      | rsp_bltz \<Rightarrow> branch (sign_test ''<'') target
      | rsp_bgezal \<Rightarrow> print_link_branch delay (sign_test ''>='') return_vram target
      | rsp_bltzal \<Rightarrow> print_link_branch delay (sign_test ''<'') return_vram target
      | rsp_break \<Rightarrow> Some (rsp_line ''return RspExitReason::Broke'')
      | rsp_mfc0 \<Rightarrow> map_option (\<lambda>v. rsp_line (rt @ '' = '' @ fmt_nat v)) (cop0_read_value (ri_rd instr))
      | rsp_mtc0 \<Rightarrow> map_option (\<lambda>action.
            (if has_overlays \<and> cop0_write_is_dma_read (ri_rd instr) then overlay_check vram in_delay_slot else []) @
            (if action \<noteq> '''' then rsp_line (action @ ''('' @ rt @ '')'') else []))
          (cop0_write_action (ri_rd instr)))"

definition emit_operation :: "bool \<Rightarrow> bool \<Rightarrow> rsp_instr \<Rightarrow> delay_emitter \<Rightarrow> piece list option" where
  "emit_operation has_overlays in_delay_slot instr delay =
     (case vector_operands (ri_id instr) of
        Some operands \<Rightarrow> emit_vector instr operands
      | None \<Rightarrow>
          (case ri_id instr of
             R_alu i \<Rightarrow> Some (emit_alu instr i)
           | R_mem i \<Rightarrow> Some (emit_mem instr i)
           | R_control i \<Rightarrow> emit_control has_overlays in_delay_slot instr delay i
           | _ \<Rightarrow> None))"

definition disassembly_comment :: "rsp_instr \<Rightarrow> string" where
  "disassembly_comment instr =
     (let target = fmt_04X (unat (ucast (imem_address (ri_branch_vram instr)) :: u16)) in
      ''    // '' @
      (if ri_is_branch instr \<or> ri_id instr = R_control rsp_j then ri_disassemble instr (Some (''L_'' @ target))
       else if ri_id instr = R_control rsp_jal then ri_disassemble instr (Some (''0x'' @ target))
       else ri_disassemble instr None) @ newline)"

record rsp_emission =
  re_branch_targets :: branch_targets
  re_unsupported :: "u32 list"
  re_resume_targets :: resume_targets
  re_has_overlays :: bool

definition unsupported_pieces :: "rsp_emission \<Rightarrow> rsp_instr \<Rightarrow> bool \<Rightarrow> piece list" where
  "unsupported_pieces em instr indent =
     (if ri_vram instr \<in> set (re_unsupported em)
      then rsp_line ''return RspExitReason::Unsupported'' @ (if indent then [Text ''    ''] else []) else [])"

definition entry_label :: "rsp_emission \<Rightarrow> rsp_instr \<Rightarrow> bool \<Rightarrow> piece list" where
  "entry_label em instr in_delay_slot =
     (let targets = re_branch_targets em in
      if \<not> in_delay_slot \<and> (ri_vram instr \<in> set (direct_targets targets) \<or> ri_vram instr \<in> set (indirect_targets targets))
      then rsp_label_pieces (ri_vram instr) else [])"

definition resume_label_pieces :: "rsp_emission \<Rightarrow> rsp_instr \<Rightarrow> bool \<Rightarrow> piece list" where
  "resume_label_pieces em instr in_delay_slot =
     (if in_delay_slot then
        (if ri_vram instr \<in> set (delay_targets (re_resume_targets em)) then label_pieces (resume_delay_label (ri_vram instr)) else [])
      else
        (if ri_vram instr \<in> set (non_delay_targets (re_resume_targets em)) then label_pieces (resume_label (ri_vram instr)) else []))"

text \<open>An instruction is emitted from the rest of the image that starts with it.\<close>

fun emit_instruction :: "rsp_emission \<Rightarrow> rsp_instr list \<Rightarrow> bool \<Rightarrow> bool \<Rightarrow> piece list option" where
  "emit_instruction em [] indent in_delay_slot = None"
| "emit_instruction em (instr # rest) indent in_delay_slot =
     (let delay = (\<lambda>indent'. if rest \<noteq> [] then emit_instruction em rest indent' True else Some []) in
      map_option (\<lambda>body.
          entry_label em instr in_delay_slot @ [Text (disassembly_comment instr)] @
          (if indent then [Text ''    ''] else []) @ unsupported_pieces em instr indent @ body @
          resume_label_pieces em instr in_delay_slot)
        (emit_operation (re_has_overlays em) in_delay_slot instr delay))"

section \<open>A function\<close>

definition jump_targets :: "branch_targets \<Rightarrow> u32 list" where
  "jump_targets targets =
     sort (direct_targets targets @ filter (\<lambda>t. t \<notin> set (direct_targets targets)) (indirect_targets targets))"

definition target_case :: "string \<Rightarrow> (u32 \<Rightarrow> string) \<Rightarrow> u32 \<Rightarrow> piece list" where
  "target_case indent label_of_target t =
     [Text (indent @ ''case 0x'' @ fmt_04X (unat t) @ '': ''), Goto (label_of_target t), Text newline]"

definition emit_indirect_jump_table :: "branch_targets \<Rightarrow> string \<Rightarrow> piece list" where
  "emit_indirect_jump_table targets output_function_name =
     [Label ''do_indirect_jump'', Text (newline @ ''    switch ((jump_target | 0x1000) & '' @ fmt_hash_X (unat rsp_mem_mask) @ '') { '' @ newline)] @
     concat (map (target_case ''        '' rsp_label) (jump_targets targets)) @
     [Text (print_lines [
        ''    }'',
        ''    fprintf(stderr, '' @ quoted (''Unhandled jump target 0x%04X in microcode '' @ output_function_name @ '', coming from [%s:%d]'' @ escaped_newline) @
          '', jump_target, debug_file, debug_line);'',
        ''    fprintf(stderr, '' @ quoted (''PC trail (oldest..newest):'' @ escaped_newline) @ '');'',
        ''    for (uint32_t i = 0; i < 32; i++) {'',
        ''        uint32_t pos = (ctx->pc_trail_idx + i) & 31;'',
        ''        fprintf(stderr, '' @ quoted (''  [%2u] PC=0x%04X'' @ escaped_newline) @ '', i, ctx->pc_trail[pos]);'',
        ''    }'',
        ''    fprintf(stderr, '' @ quoted (''Register dump: r0  = %08X r1  = %08X r2  = %08X r3  = %08X r4  = %08X r5  = %08X r6  = %08X r7  = %08X'' @ escaped_newline),
        ''           '' @ quoted (''               r8  = %08X r9  = %08X r10 = %08X r11 = %08X r12 = %08X r13 = %08X r14 = %08X r15 = %08X'' @ escaped_newline),
        ''           '' @ quoted (''               r16 = %08X r17 = %08X r18 = %08X r19 = %08X r20 = %08X r21 = %08X r22 = %08X r23 = %08X'' @ escaped_newline),
        ''           '' @ quoted (''               r24 = %08X r25 = %08X r26 = %08X r27 = %08X r28 = %08X r29 = %08X r30 = %08X r31 = %08X'' @ escaped_newline) @ '','',
        ''           0, r1, r2, r3, r4, r5, r6, r7, r8, r9, r10, r11, r12, r13, r14, r15, r16,'',
        ''           r17, r18, r19, r20, r21, r22, r23, r24, r25, r26, r27, r28, r29, r30, r31);'',
        ''    fflush(stderr);'',
        ''    return RspExitReason::UnhandledJumpTarget;''])]"

definition emit_overlay_swap_return :: "piece list" where
  "emit_overlay_swap_return =
     [Label ''do_overlay_swap'', Text (newline @ ''    return RspExitReason::SwapOverlay;'' @ newline)]"

definition function_prologue :: "string \<Rightarrow> string" where
  "function_prologue impl_function_name = print_lines [
     ''RspExitReason '' @ impl_function_name @ ''(uint8_t* rdram, RspContext* ctx) {'',
     ''    uint32_t&                 r1 = ctx->r1;   uint32_t&  r2 = ctx->r2;   uint32_t&  r3 = ctx->r3;   uint32_t&  r4 = ctx->r4;   uint32_t&  r5 = ctx->r5;   uint32_t&  r6 = ctx->r6;   uint32_t&  r7 = ctx->r7;'',
     ''    uint32_t&  r8 = ctx->r8;  uint32_t&  r9 = ctx->r9;   uint32_t& r10 = ctx->r10; uint32_t& r11 = ctx->r11; uint32_t& r12 = ctx->r12; uint32_t& r13 = ctx->r13; uint32_t& r14 = ctx->r14; uint32_t& r15 = ctx->r15;'',
     ''    uint32_t& r16 = ctx->r16; uint32_t& r17 = ctx->r17; uint32_t& r18 = ctx->r18; uint32_t& r19 = ctx->r19; uint32_t& r20 = ctx->r20; uint32_t& r21 = ctx->r21; uint32_t& r22 = ctx->r22; uint32_t& r23 = ctx->r23;'',
     ''    uint32_t& r24 = ctx->r24; uint32_t& r25 = ctx->r25; uint32_t& r26 = ctx->r26; uint32_t& r27 = ctx->r27; uint32_t& r28 = ctx->r28; uint32_t& r29 = ctx->r29; uint32_t& r30 = ctx->r30; uint32_t& r31 = ctx->r31;'',
     ''    uint32_t& dma_mem_address = ctx->dma_mem_address; uint32_t& dma_dram_address = ctx->dma_dram_address; uint32_t& jump_target = ctx->jump_target;'',
     ''    const char * debug_file = NULL; int debug_line = 0;'',
     ''    RSP& rsp = ctx->rsp;'']"

definition resume_dispatch :: "resume_targets \<Rightarrow> string \<Rightarrow> piece list" where
  "resume_dispatch targets output_function_name =
     [Text (print_lines [''    if (ctx->resume_delay) {'', ''        switch (ctx->resume_address) {''])] @
     concat (map (target_case ''            '' resume_delay_label) (delay_targets targets)) @
     [Text (print_lines [''        }'', ''    } else {'', ''        switch (ctx->resume_address) {''])] @
     concat (map (target_case ''            '' resume_label) (non_delay_targets targets)) @
     [Text (print_lines [''        }'', ''    }'',
        ''    printf('' @ quoted (''Unhandled resume target 0x%04X (delay slot: %d) in microcode '' @ output_function_name @ escaped_newline) @
          '', ctx->resume_address, ctx->resume_delay);'',
        ''    return RspExitReason::UnhandledResumeTarget;''])]"

definition wrapper_text :: "string \<Rightarrow> string" where
  "wrapper_text function_name = print_lines [
     '''',
     ''RspExitReason '' @ function_name @ ''(uint8_t* rdram, [[maybe_unused]] uint32_t ucode_addr) {'',
     ''    static thread_local RspContext persistent_ctx{};'',
     ''    // Pre-task hook: if a runtime registered a hook keyed by'',
     ''    // this ucode's name, call it here. Lets game-specific code'',
     ''    // replicate parts of rspboot's setup that the static'',
     ''    // recompilation can't infer (initial GPRs, DMA-engine'',
     ''    // residue, pre-loaded command data in DMEM). Inline'',
     ''    // null-check by the std::unordered_map lookup '' @ [CHR 0xE2, CHR 0x80, CHR 0x94] @ '' typical'',
     ''    // cost is one branch when no hook is registered.'',
     ''    recomp::rsp::run_pre_task_hook(rdram, &persistent_ctx, '' @ quoted function_name @ '', ucode_addr);'',
     ''    return '' @ function_name @ ''_impl(rdram, &persistent_ctx);'',
     ''}'']"

fun emit_instructions :: "rsp_emission \<Rightarrow> rsp_instr list \<Rightarrow> piece list option" where
  "emit_instructions em [] = Some []"
| "emit_instructions em (instr # rest) =
     (case (emit_instruction em (instr # rest) False False, emit_instructions em rest) of
        (Some ps, Some qs) \<Rightarrow> Some (ps @ qs)
      | _ \<Rightarrow> None)"

record overlay_config =
  oc_offset :: nat
  oc_size :: nat

record overlay_slot_config =
  sc_text_address :: nat
  sc_overlays :: "overlay_config list"

record rsp_config =
  rc_text_offset :: nat
  rc_text_size :: nat
  rc_text_address :: nat
  rc_output_function_name :: string
  rc_extra_indirect_branch_targets :: "u32 list"
  rc_unsupported_instructions :: "u32 list"
  rc_overlay_slots :: "overlay_slot_config list"

definition function_targets :: "rsp_instr list \<Rightarrow> rsp_config \<Rightarrow> branch_targets" where
  "function_targets instrs config =
     (let targets = collect_branch_targets instrs in
      targets\<lparr>indirect_targets := fold set_insert (rc_extra_indirect_branch_targets config) (indirect_targets targets)\<rparr>)"

definition emit_recompiled_function ::
    "string \<Rightarrow> rsp_instr list \<Rightarrow> rsp_config \<Rightarrow> resume_targets \<Rightarrow> bool \<Rightarrow> bool \<Rightarrow> piece list option" where
  "emit_recompiled_function function_name instrs config resume_targets is_permutation is_initial =
     (let targets = function_targets instrs config;
          em = \<lparr>re_branch_targets = targets, re_unsupported = rc_unsupported_instructions config,
                re_resume_targets = resume_targets, re_has_overlays = is_permutation\<rparr>;
          impl_function_name = (if is_permutation then function_name else function_name @ ''_impl'')
      in map_option (\<lambda>body.
           [Text (function_prologue impl_function_name)] @
           (if is_permutation \<and> \<not> is_initial then resume_dispatch resume_targets (rc_output_function_name config) else []) @
           [Text (print_lines [''    r1 = 0xFC0;'', ''    ctx->watchdog_count = 0;''])] @
           body @
           [Text (line ''    return RspExitReason::ImemOverrun;'')] @
           emit_indirect_jump_table targets (rc_output_function_name config) @
           (if is_permutation then emit_overlay_swap_return else []) @
           [Text (line ''}'')] @
           (if \<not> is_permutation then [Text (wrapper_text function_name)] else []))
         (emit_instructions em instrs))"

end
