(* ===== verification/Rsp_Labels.thy ===== *)
theory Rsp_Labels
  imports Rsp_Recompiler
begin

text \<open>
  The labels and jumps of a recompiled microcode function. The labels of an image are computed exactly, its jumps are bounded, and
  together they say when the emitted function has no jump without a label. Nothing in the recompiler checks this; the theorem gives the
  condition on the image and the configuration.
\<close>

section \<open>Instructions with a delay slot\<close>

definition branches_to :: "rsp_control \<Rightarrow> bool" where
  "branches_to i \<longleftrightarrow> i \<in> {rsp_j, rsp_b, rsp_jal, rsp_bne, rsp_beq, rsp_bgez, rsp_bgtz, rsp_blez, rsp_bltz, rsp_bgezal, rsp_bltzal}"

definition emits_delay :: "rsp_id \<Rightarrow> bool" where
  "emits_delay i \<longleftrightarrow> (\<exists>c. i = R_control c \<and> (branches_to c \<or> c = rsp_jr \<or> c = rsp_jalr))"

text \<open>What the decoder says of an instruction with an address agrees with its id.\<close>

definition classified :: "rsp_instr \<Rightarrow> bool" where
  "classified instr \<longleftrightarrow> (\<forall>c. ri_id instr = R_control c \<and> branches_to c \<longrightarrow> ri_is_jump_with_address instr \<or> ri_is_branch instr)"

lemma rsp_line_no_labels [simp]: "labels (rsp_line s) = []" "gotos (rsp_line s) = []"
  by (simp_all add: rsp_line_def)

lemma alu_no_labels [simp]: "labels (emit_alu instr i) = []" "gotos (emit_alu instr i) = []"
  by (cases i; simp add: emit_alu_def Let_def)+

lemma mem_no_labels [simp]: "labels (emit_mem instr i) = []" "gotos (emit_mem instr i) = []"
  by (cases i; simp add: emit_mem_def Let_def)+

lemma vector_no_labels: "emit_vector instr operands = Some ps \<Longrightarrow> labels ps = [] \<and> gotos ps = []"
  by (auto simp: emit_vector_def Let_def split: if_splits option.splits)

lemma control_not_vector: "vector_operands (R_control i) = None"
  by (simp add: vector_operands_def vector_operands_table_def)

definition instr_target :: "rsp_instr \<Rightarrow> string" where
  "instr_target instr = rsp_label (imem_address (ri_branch_vram instr))"

lemma imem_bits: "ucast (ucast (take_bit 13 w :: u32) :: u16) = (take_bit 13 w :: u32)"
  by (rule bit_eqI) (auto simp: bit_simps)

lemma imem_address_16: "ucast (ucast (imem_address v) :: u16) = imem_address v"
proof -
  have "imem_address v = take_bit 13 (v OR 0x1000)"
    unfolding imem_address_def rsp_mem_mask_def by (simp add: take_bit_eq_mask mask_eq_exp_minus_1)
  then show ?thesis by (metis (no_types) imem_bits)
qed

definition behind_delay :: "delay_emitter \<Rightarrow> piece list \<Rightarrow> string \<Rightarrow> bool" where
  "behind_delay delay ps t \<longleftrightarrow> (\<exists>b dps. delay b = Some dps \<and> labels ps = labels dps \<and> gotos ps = gotos dps @ [t])"

lemma behind_delay_text [simp]: "behind_delay delay (rsp_line s @ ps) t = behind_delay delay ps t"
  by (simp add: behind_delay_def)

lemma branch_emitted:
  "print_unconditional_branch delay t = Some ps \<Longrightarrow> behind_delay delay ps t"
  "print_branch delay c t = Some ps \<Longrightarrow> behind_delay delay ps t"
  "print_link_branch delay c v t = Some ps \<Longrightarrow> behind_delay delay ps t"
  by (force simp: print_unconditional_branch_def print_branch_def print_link_branch_def behind_delay_def)+

lemma indirect_emitted: "emit_indirect delay s = Some ps \<Longrightarrow> behind_delay delay ps ''do_indirect_jump''"
  unfolding emit_indirect_def by (auto dest!: branch_emitted(1))

lemma control_emitted:
  assumes "emit_control ov in_delay instr delay i = Some ps"
  shows "if branches_to i then behind_delay delay ps (instr_target instr)
     else if i = rsp_jr \<or> i = rsp_jalr then behind_delay delay ps ''do_indirect_jump''
     else labels ps = [] \<and> set (gotos ps) \<subseteq> (if ov then {''do_overlay_swap''} else {})"
proof (cases i)
  case rsp_jal
  with assms show ?thesis
    by (auto simp: emit_control_def Let_def branches_to_def instr_target_def imem_address_16 dest!: branch_emitted(1))
next
  case rsp_mtc0
  with assms show ?thesis by (auto simp: emit_control_def Let_def branches_to_def overlay_check_def split: if_splits)
next
  case rsp_break
  with assms show ?thesis by (auto simp: emit_control_def Let_def branches_to_def)
next
  case rsp_mfc0
  with assms show ?thesis by (auto simp: emit_control_def Let_def branches_to_def)
qed (use assms in \<open>simp_all add: emit_control_def Let_def branches_to_def instr_target_def imem_address_16
       branch_emitted indirect_emitted del: labels_simps gotos_simps\<close>)

lemma operation_emitted:
  assumes "emit_operation ov in_delay instr delay = Some ps"
  shows "if emits_delay (ri_id instr)
     then \<exists>t. behind_delay delay ps t \<and> (t = ''do_indirect_jump'' \<or> t = instr_target instr \<and> (classified instr \<longrightarrow> ri_is_jump_with_address instr \<or> ri_is_branch instr))
     else labels ps = [] \<and> set (gotos ps) \<subseteq> (if ov then {''do_overlay_swap''} else {})"
proof (cases "ri_id instr")
  case (R_control i)
  then have c: "emit_control ov in_delay instr delay i = Some ps"
    using assms by (simp add: emit_operation_def control_not_vector)
  from control_emitted [OF c] show ?thesis
    unfolding emits_delay_def classified_def R_control rsp_id.inject by (auto split: if_splits)
qed (use assms vector_no_labels in \<open>auto simp: emit_operation_def emits_delay_def split: option.splits\<close>)

section \<open>The labels and jumps of an image\<close>

definition addresses :: "rsp_instr list \<Rightarrow> u32 set" where
  "addresses instrs = ri_vram ` set instrs"

text \<open>The instructions behind one with a delay slot.\<close>

fun delay_addresses :: "rsp_instr list \<Rightarrow> u32 set" where
  "delay_addresses (instr # next # rest) =
     (if emits_delay (ri_id instr) then {ri_vram next} else {}) \<union> delay_addresses (next # rest)"
| "delay_addresses _ = {}"

text \<open>The instructions that one emission reaches through delay slots.\<close>

fun chained :: "rsp_instr list \<Rightarrow> u32 set" where
  "chained [] = {}"
| "chained (instr # rest) = insert (ri_vram instr) (if emits_delay (ri_id instr) then chained rest else {})"

lemma chained_delay: "chained (instr # rest) \<subseteq> insert (ri_vram instr) (delay_addresses (instr # rest))"
proof (induction rest arbitrary: instr)
  case (Cons r rest)
  show ?case using Cons [of r] by auto
qed simp

lemma label_pieces_simps [simp]: "labels (label_pieces l) = [l]" "gotos (label_pieces l) = []"
  by (simp_all add: label_pieces_def)

lemma entry_label_simps [simp]:
  "labels (entry_label em instr in_delay) =
     (if \<not> in_delay \<and> ri_vram instr \<in> set (direct_targets (re_branch_targets em)) \<union> set (indirect_targets (re_branch_targets em))
      then [rsp_label (ri_vram instr)] else [])"
  "gotos (entry_label em instr in_delay) = []"
  by (simp_all add: entry_label_def Let_def rsp_label_pieces_def)

lemma resume_label_simps [simp]:
  "labels (resume_label_pieces em instr in_delay) =
     (if in_delay then (if ri_vram instr \<in> set (delay_targets (re_resume_targets em)) then [resume_delay_label (ri_vram instr)] else [])
      else (if ri_vram instr \<in> set (non_delay_targets (re_resume_targets em)) then [resume_label (ri_vram instr)] else []))"
  "gotos (resume_label_pieces em instr in_delay) = []"
  by (simp_all add: resume_label_pieces_def)

lemma unsupported_simps [simp]: "labels (unsupported_pieces em instr i) = []" "gotos (unsupported_pieces em instr i) = []"
  by (simp_all add: unsupported_pieces_def)

lemma emit_instructionE:
  assumes "emit_instruction em (instr # rest) indent in_delay = Some ps"
  obtains body where "emit_operation (re_has_overlays em) in_delay instr
        (\<lambda>indent'. if rest \<noteq> [] then emit_instruction em rest indent' True else Some []) = Some body"
      "labels ps = labels (entry_label em instr in_delay) @ labels body @ labels (resume_label_pieces em instr in_delay)"
      "gotos ps = gotos body"
  using assms by (auto simp: Let_def)

lemma delay_labels:
  "emit_instruction em (instr # rest) indent True = Some ps \<Longrightarrow>
    set (labels ps) = resume_delay_label ` (set (delay_targets (re_resume_targets em)) \<inter> chained (instr # rest))"
proof (induction rest arbitrary: instr indent ps)
  case Nil
  from Nil obtain body where o: "emit_operation (re_has_overlays em) True instr (\<lambda>_. Some []) = Some body"
      and l: "labels ps = labels body @ labels (resume_label_pieces em instr True)"
    by (elim emit_instructionE) simp
  have "labels body = []" using operation_emitted [OF o] by (auto simp: behind_delay_def split: if_splits)
  with l show ?case by auto
next
  case (Cons r rest)
  from Cons(2) obtain body where
      o: "emit_operation (re_has_overlays em) True instr (\<lambda>indent'. emit_instruction em (r # rest) indent' True) = Some body"
      and l: "labels ps = labels body @ labels (resume_label_pieces em instr True)"
    by (elim emit_instructionE) simp
  show ?case
  proof (cases "emits_delay (ri_id instr)")
    case True
    with operation_emitted [OF o] obtain b dps where
      "emit_instruction em (r # rest) b True = Some dps" "labels body = labels dps" by (auto simp: behind_delay_def)
    with Cons(1) have "set (labels body) = resume_delay_label ` (set (delay_targets (re_resume_targets em)) \<inter> chained (r # rest))"
      by metis
    with l True show ?thesis by auto
  next
    case False
    with operation_emitted [OF o] have "labels body = []" by simp
    with l False show ?thesis by auto
  qed
qed

lemma instruction_labels_set:
  assumes "emit_instruction em (instr # rest) indent False = Some ps"
  shows "set (labels ps) =
      rsp_label ` ({ri_vram instr} \<inter> (set (direct_targets (re_branch_targets em)) \<union> set (indirect_targets (re_branch_targets em)))) \<union>
      resume_label ` ({ri_vram instr} \<inter> set (non_delay_targets (re_resume_targets em))) \<union>
      resume_delay_label ` (set (delay_targets (re_resume_targets em)) \<inter> (if emits_delay (ri_id instr) then chained rest else {}))"
proof -
  from assms obtain body where
      o: "emit_operation (re_has_overlays em) False instr
        (\<lambda>indent'. if rest \<noteq> [] then emit_instruction em rest indent' True else Some []) = Some body"
      and l: "labels ps = labels (entry_label em instr False) @ labels body @ labels (resume_label_pieces em instr False)"
    by (elim emit_instructionE) simp
  have b: "set (labels body) = resume_delay_label ` (set (delay_targets (re_resume_targets em)) \<inter> (if emits_delay (ri_id instr) then chained rest else {}))"
  proof (cases "emits_delay (ri_id instr)")
    case True
    with operation_emitted [OF o] obtain b dps where
      d: "(if rest \<noteq> [] then emit_instruction em rest b True else Some []) = Some dps" "labels body = labels dps" by (auto simp: behind_delay_def)
    show ?thesis
    proof (cases rest)
      case Nil
      with d show ?thesis by simp
    next
      case (Cons r rs)
      with d delay_labels [of em r rs b dps] True show ?thesis by simp
    qed
  qed (use operation_emitted [OF o] in simp)
  show ?thesis unfolding l set_append b by auto
qed

text \<open>The labels of a whole image.\<close>

lemma image_labels:
  "emit_instructions em instrs = Some ps \<Longrightarrow> set (labels ps) =
      rsp_label ` (addresses instrs \<inter> (set (direct_targets (re_branch_targets em)) \<union> set (indirect_targets (re_branch_targets em)))) \<union>
      resume_label ` (addresses instrs \<inter> set (non_delay_targets (re_resume_targets em))) \<union>
      resume_delay_label ` (set (delay_targets (re_resume_targets em)) \<inter> delay_addresses instrs)"
proof (induction instrs arbitrary: ps)
  case (Cons instr rest)
  from Cons(2) obtain qs rs where q: "emit_instruction em (instr # rest) False False = Some qs"
      and r: "emit_instructions em rest = Some rs" and p: "ps = qs @ rs"
    by (auto split: option.splits)
  have d: "(if emits_delay (ri_id instr) then chained rest else {}) \<union> delay_addresses rest = delay_addresses (instr # rest)"
  proof (cases rest)
    case (Cons r rs)
    have "ri_vram r \<in> chained (r # rs)" by simp
    with chained_delay [of r rs] show ?thesis unfolding Cons delay_addresses.simps by (auto simp del: chained.simps)
  qed simp
  have a: "addresses (instr # rest) = {ri_vram instr} \<union> addresses rest" by (simp add: addresses_def)
  show ?case
    unfolding p labels_simps set_append instruction_labels_set [OF q] Cons(1) [OF r] d [symmetric] a by auto
qed (simp add: addresses_def)


section \<open>Jumps\<close>

lemma set_insert_fold: "set (fold set_insert xs ys) = set xs \<union> set ys"
  by (induction xs arbitrary: ys) auto

definition own_targets :: "rsp_instr \<Rightarrow> u32 set" where
  "own_targets instr = (if ri_is_jump_with_address instr \<or> ri_is_branch instr then {imem_address (ri_branch_vram instr)} else {})"

lemma collect_instr_direct:
  "set (direct_targets (collect_instr_targets regs instr ret)) = own_targets instr \<union> set (direct_targets ret)"
  by (simp add: collect_instr_targets_def Let_def own_targets_def)

lemma fold_direct:
  "set (direct_targets (fold (collect_instr_targets regs) instrs ret)) = (\<Union>instr \<in> set instrs. own_targets instr) \<union> set (direct_targets ret)"
  by (induction instrs arbitrary: ret) (auto simp: collect_instr_direct)

lemma collected_direct: "set (direct_targets (collect_branch_targets instrs)) = (\<Union>instr \<in> set instrs. own_targets instr)"
  unfolding collect_branch_targets_def fold_direct by simp

definition jump_names :: "rsp_instr list \<Rightarrow> string set" where
  "jump_names instrs = rsp_label ` (\<Union>i \<in> set instrs. own_targets i)"

lemma jump_names_Cons: "jump_names (i # is) = rsp_label ` own_targets i \<union> jump_names is"
  by (simp add: jump_names_def image_Un)

definition runtime_labels :: "bool \<Rightarrow> string set" where
  "runtime_labels ov = insert ''do_indirect_jump'' (if ov then {''do_overlay_swap''} else {})"

lemma instruction_gotos:
  "emit_instruction em (instr # rest) indent in_delay = Some ps \<Longrightarrow> \<forall>i \<in> set (instr # rest). classified i \<Longrightarrow>
    set (gotos ps) \<subseteq> jump_names (instr # rest) \<union> runtime_labels (re_has_overlays em)"
proof (induction rest arbitrary: instr indent in_delay ps)
  case Nil
  then obtain body where o: "emit_operation (re_has_overlays em) in_delay instr (\<lambda>_. Some []) = Some body" and g: "gotos ps = gotos body"
    by (elim emit_instructionE) simp
  show ?case unfolding g
    using operation_emitted [OF o] Nil(2)
    by (auto simp: behind_delay_def runtime_labels_def own_targets_def instr_target_def jump_names_Cons split: if_splits)
next
  case (Cons r rest)
  from Cons(2) obtain body where
      o: "emit_operation (re_has_overlays em) in_delay instr (\<lambda>indent'. emit_instruction em (r # rest) indent' True) = Some body"
      and g: "gotos ps = gotos body"
    by (elim emit_instructionE) simp
  show ?case
  proof (cases "emits_delay (ri_id instr)")
    case True
    with operation_emitted [OF o] obtain t b dps where d: "emit_instruction em (r # rest) b True = Some dps" "gotos body = gotos dps @ [t]"
        and t: "t = ''do_indirect_jump'' \<or> t = instr_target instr \<and> (classified instr \<longrightarrow> ri_is_jump_with_address instr \<or> ri_is_branch instr)"
      by (auto simp: behind_delay_def)
    have "\<forall>i \<in> set (r # rest). classified i" using Cons(3) by simp
    note IH = Cons(1) [OF d(1) this]
    have "t \<in> rsp_label ` own_targets instr \<union> runtime_labels (re_has_overlays em)"
      using t Cons(3) by (auto simp: runtime_labels_def own_targets_def instr_target_def)
    with IH show ?thesis unfolding g d(2) jump_names_Cons [of instr] by auto
  next
    case False
    with operation_emitted [OF o] show ?thesis unfolding g by (auto simp: runtime_labels_def split: if_splits)
  qed
qed

lemma image_gotos:
  "emit_instructions em instrs = Some ps \<Longrightarrow> \<forall>i \<in> set instrs. classified i \<Longrightarrow>
    set (gotos ps) \<subseteq> jump_names instrs \<union> runtime_labels (re_has_overlays em)"
proof (induction instrs arbitrary: ps)
  case (Cons instr rest)
  from Cons(2) obtain qs rs where q: "emit_instruction em (instr # rest) False False = Some qs"
      and r: "emit_instructions em rest = Some rs" and p: "ps = qs @ rs"
    by (auto split: option.splits)
  have "\<forall>i \<in> set rest. classified i" using Cons(3) by simp
  from Cons(1) [OF r this] instruction_gotos [OF q Cons(3)] show ?case unfolding p jump_names_Cons by auto
qed simp

section \<open>The labels of a function\<close>

lemma label_kinds [simp]:
  "rsp_label a = rsp_label b \<longleftrightarrow> a = b" "resume_label a = resume_label b \<longleftrightarrow> a = b"
  "resume_delay_label a = resume_delay_label b \<longleftrightarrow> a = b"
  "rsp_label a \<noteq> resume_label b" "rsp_label a \<noteq> resume_delay_label b"
  "rsp_label a \<noteq> ''do_indirect_jump''" "rsp_label a \<noteq> ''do_overlay_swap''"
  "resume_label a \<noteq> ''do_indirect_jump''" "resume_label a \<noteq> ''do_overlay_swap''"
  "resume_delay_label a \<noteq> ''do_indirect_jump''" "resume_delay_label a \<noteq> ''do_overlay_swap''"
  by (simp_all add: rsp_label_def resume_label_def resume_delay_label_def word_unat_eq_iff)

lemma resume_labels_differ [simp]: "resume_label a \<noteq> resume_delay_label b"
proof
  assume "resume_label a = resume_delay_label b"
  then have "fmt_04X (unat a) = fmt_04X (unat b) @ ''_delay''" by (simp add: resume_label_def resume_delay_label_def)
  then have "CHR ''_'' \<in> set (fmt_04X (unat a))" by simp
  with fmt_04X_digits underscore_no_digit show False by blast
qed

lemmas label_kinds_sym [simp] = label_kinds(4-11) [symmetric] resume_labels_differ [symmetric]

definition all_targets :: "branch_targets \<Rightarrow> u32 set" where
  "all_targets targets = set (direct_targets targets) \<union> set (indirect_targets targets)"

lemma target_cases_simps:
  "labels (concat (map (target_case indent f) ts)) = []" "gotos (concat (map (target_case indent f) ts)) = map f ts"
  by (induction ts) (simp_all add: target_case_def)

lemma jump_table_pieces:
  "labels (emit_indirect_jump_table targets name) = [''do_indirect_jump'']"
  "set (gotos (emit_indirect_jump_table targets name)) = rsp_label ` all_targets targets"
  by (auto simp: emit_indirect_jump_table_def target_cases_simps jump_targets_def all_targets_def simp del: labels_simps(4) gotos_simps(4))

lemma resume_dispatch_pieces:
  "labels (resume_dispatch targets name) = []"
  "set (gotos (resume_dispatch targets name)) =
     resume_delay_label ` set (delay_targets targets) \<union> resume_label ` set (non_delay_targets targets)"
  by (auto simp: resume_dispatch_def target_cases_simps simp del: labels_simps(4) gotos_simps(4))

definition labels_complete :: "piece list \<Rightarrow> bool" where
  "labels_complete ps \<longleftrightarrow> set (gotos ps) \<subseteq> set (labels ps)"

lemma function_pieces:
  assumes "emit_recompiled_function name instrs config resume is_permutation is_initial = Some ps"
    and "\<forall>i \<in> set instrs. classified i"
  shows "set (labels ps) =
      rsp_label ` (addresses instrs \<inter> all_targets (function_targets instrs config)) \<union>
      resume_label ` (addresses instrs \<inter> set (non_delay_targets resume)) \<union>
      resume_delay_label ` (set (delay_targets resume) \<inter> delay_addresses instrs) \<union> runtime_labels is_permutation"
    and "set (gotos ps) \<subseteq> rsp_label ` all_targets (function_targets instrs config) \<union> runtime_labels is_permutation \<union>
      (if is_permutation \<and> \<not> is_initial then
         resume_delay_label ` set (delay_targets resume) \<union> resume_label ` set (non_delay_targets resume) else {})"
    and "rsp_label ` all_targets (function_targets instrs config) \<union>
      (if is_permutation \<and> \<not> is_initial then
         resume_delay_label ` set (delay_targets resume) \<union> resume_label ` set (non_delay_targets resume) else {}) \<subseteq> set (gotos ps)"
proof -
  let ?T = "function_targets instrs config"
  let ?em = "\<lparr>re_branch_targets = ?T, re_unsupported = rc_unsupported_instructions config,
                re_resume_targets = resume, re_has_overlays = is_permutation\<rparr>"
  obtain body where b: "emit_instructions ?em instrs = Some body"
    using assms(1) unfolding emit_recompiled_function_def Let_def by blast
  note ps = assms(1) [unfolded emit_recompiled_function_def Let_def b option.map option.inject, symmetric]
  have l: "labels ps = labels body @ [''do_indirect_jump''] @ (if is_permutation then [''do_overlay_swap''] else [])"
    unfolding ps by (cases is_permutation; cases is_initial)
      (simp_all add: jump_table_pieces resume_dispatch_pieces emit_overlay_swap_return_def)
  have g: "gotos ps = (if is_permutation \<and> \<not> is_initial then gotos (resume_dispatch resume (rc_output_function_name config)) else []) @
        gotos body @ gotos (emit_indirect_jump_table ?T (rc_output_function_name config))"
    unfolding ps by (cases is_permutation; cases is_initial) (simp_all add: emit_overlay_swap_return_def)
  have "(\<Union>i \<in> set instrs. own_targets i) \<subseteq> all_targets ?T"
    by (auto simp: function_targets_def Let_def all_targets_def collected_direct)
  then have t: "jump_names instrs \<subseteq> rsp_label ` all_targets ?T" unfolding jump_names_def by (rule image_mono)
  show "set (labels ps) =
      rsp_label ` (addresses instrs \<inter> all_targets ?T) \<union> resume_label ` (addresses instrs \<inter> set (non_delay_targets resume)) \<union>
      resume_delay_label ` (set (delay_targets resume) \<inter> delay_addresses instrs) \<union> runtime_labels is_permutation"
    unfolding l set_append image_labels [OF b] by (auto simp: all_targets_def runtime_labels_def)
  show "set (gotos ps) \<subseteq> rsp_label ` all_targets ?T \<union> runtime_labels is_permutation \<union>
      (if is_permutation \<and> \<not> is_initial then
         resume_delay_label ` set (delay_targets resume) \<union> resume_label ` set (non_delay_targets resume) else {})"
    using image_gotos [OF b assms(2)] t unfolding g set_append jump_table_pieces
    by (auto simp: resume_dispatch_pieces)
  show "rsp_label ` all_targets ?T \<union>
      (if is_permutation \<and> \<not> is_initial then
         resume_delay_label ` set (delay_targets resume) \<union> resume_label ` set (non_delay_targets resume) else {}) \<subseteq> set (gotos ps)"
    unfolding g set_append jump_table_pieces by (auto simp: resume_dispatch_pieces)
qed

text \<open>C33: Every jump of a recompiled microcode function goes to a label of the function exactly when every branch target, return
  address and configured target is the address of an instruction of the image and, in a function that can be resumed, the
  resume addresses are too, those in delay slots being in a delay slot of this image.\<close>

theorem rsp_labels_complete_iff:
  assumes "emit_recompiled_function name instrs config resume is_permutation is_initial = Some ps"
    and "\<forall>i \<in> set instrs. classified i"
  shows "labels_complete ps \<longleftrightarrow> all_targets (function_targets instrs config) \<subseteq> addresses instrs \<and>
    (is_permutation \<and> \<not> is_initial \<longrightarrow>
       set (non_delay_targets resume) \<subseteq> addresses instrs \<and> set (delay_targets resume) \<subseteq> delay_addresses instrs)"
proof -
  note f = function_pieces [OF assms]
  let ?R = "is_permutation \<and> \<not> is_initial" and ?T = "all_targets (function_targets instrs config)"
  have l: "rsp_label t \<in> set (labels ps) \<longleftrightarrow> t \<in> addresses instrs \<and> t \<in> ?T" for t
    unfolding f(1) by (auto simp: runtime_labels_def)
  have r: "resume_label t \<in> set (labels ps) \<longleftrightarrow> t \<in> addresses instrs \<and> t \<in> set (non_delay_targets resume)" for t
    unfolding f(1) by (auto simp: runtime_labels_def)
  have d: "resume_delay_label t \<in> set (labels ps) \<longleftrightarrow> t \<in> delay_addresses instrs \<and> t \<in> set (delay_targets resume)" for t
    unfolding f(1) by (auto simp: runtime_labels_def)
  have run: "runtime_labels is_permutation \<subseteq> set (labels ps)" unfolding f(1) by simp
  show ?thesis
  proof
    assume c: "labels_complete ps"
    from f(3) c have s: "rsp_label ` ?T \<union> (if ?R then
        resume_delay_label ` set (delay_targets resume) \<union> resume_label ` set (non_delay_targets resume) else {}) \<subseteq> set (labels ps)"
      unfolding labels_complete_def by (rule subset_trans)
    have "t \<in> addresses instrs" if "t \<in> ?T" for t
    proof -
      have "rsp_label t \<in> set (labels ps)" by (rule subsetD [OF s]) (simp add: that)
      then show ?thesis unfolding l by (rule conjunct1)
    qed
    moreover have "t \<in> addresses instrs" if "t \<in> set (non_delay_targets resume)" "?R" for t
    proof -
      have "resume_label t \<in> set (labels ps)" by (rule subsetD [OF s]) (simp add: that)
      then show ?thesis unfolding r by (rule conjunct1)
    qed
    moreover have "t \<in> delay_addresses instrs" if "t \<in> set (delay_targets resume)" "?R" for t
    proof -
      have "resume_delay_label t \<in> set (labels ps)" by (rule subsetD [OF s]) (simp add: that)
      then show ?thesis unfolding d by (rule conjunct1)
    qed
    ultimately show "?T \<subseteq> addresses instrs \<and> (?R \<longrightarrow>
        set (non_delay_targets resume) \<subseteq> addresses instrs \<and> set (delay_targets resume) \<subseteq> delay_addresses instrs)" by blast
  next
    assume c: "?T \<subseteq> addresses instrs \<and> (?R \<longrightarrow>
        set (non_delay_targets resume) \<subseteq> addresses instrs \<and> set (delay_targets resume) \<subseteq> delay_addresses instrs)"
    then have "rsp_label ` ?T \<subseteq> set (labels ps)" by (intro image_subsetI iffD2 [OF l]) blast
    moreover have "resume_label ` set (non_delay_targets resume) \<subseteq> set (labels ps)" if "?R"
      using c that by (intro image_subsetI iffD2 [OF r]) blast
    moreover have "resume_delay_label ` set (delay_targets resume) \<subseteq> set (labels ps)" if "?R"
      using c that by (intro image_subsetI iffD2 [OF d]) blast
    ultimately have "rsp_label ` ?T \<union> runtime_labels is_permutation \<union> (if ?R then
        resume_delay_label ` set (delay_targets resume) \<union> resume_label ` set (non_delay_targets resume) else {}) \<subseteq> set (labels ps)"
      using run by (cases ?R) (simp_all only: Un_subset_iff if_True if_False empty_subsetI simp_thms)
    with f(2) show "labels_complete ps" unfolding labels_complete_def by (rule subset_trans)
  qed
qed

end
