(* ===== verification/Rsp_Overlays.thy ===== *)
theory Rsp_Overlays
  imports Rsp_Labels
begin

text \<open>
  The overlays of the RSP microcode recompiler. A microcode has slots in its text into which one of several overlays
  is loaded; every combination is patched into the base text and recompiled as a function of its own, and the emitted
  dispatcher picks the function for the overlays that are loaded. \<open>None\<close> is an access outside a vector.
\<close>

section \<open>Counting through the combinations\<close>

record overlay =
  ov_instr_words :: "u32 list"

record overlay_slot =
  os_offset :: u32
  os_overlays :: "overlay list"

record permutation =
  pm_instr_words :: "u32 list"
  pm_permutation :: "nat list"

text \<open>The loop of the counter: a full digit is reset and carries into the one before it. The result is whether the
  counter is still running, and its digits.\<close>

fun carry_digit :: "nat list \<Rightarrow> nat \<Rightarrow> nat list \<Rightarrow> bool \<times> nat list" where
  "carry_digit option_lengths 0 current =
     (if current ! 0 = option_lengths ! 0 then (False, current[0 := 0]) else (True, current))"
| "carry_digit option_lengths (Suc i) current =
     (if current ! Suc i = option_lengths ! Suc i
      then carry_digit option_lengths i (current[Suc i := 0, i := current ! i + 1])
      else (True, current))"

definition advance_overlay_counter :: "nat list \<Rightarrow> nat list \<Rightarrow> (bool \<times> nat list) option" where
  "advance_overlay_counter option_lengths current =
     (let last = length current - 1 in
      if current = [] \<or> length option_lengths < length current then None
      else Some (carry_digit option_lengths last (current[last := current ! last + 1])))"

text \<open>One overlay copied over the text: the vector is not grown, so words behind its end are lost.\<close>

definition copy_overlay :: "u32 list \<Rightarrow> nat \<Rightarrow> u32 list \<Rightarrow> u32 list option" where
  "copy_overlay words word_offset new_words =
     (if word_offset + length new_words \<le> length words
      then Some (take word_offset words @ new_words @ drop (word_offset + length new_words) words)
      else None)"

fun patch_slots :: "u32 list \<Rightarrow> overlay_slot list \<Rightarrow> nat list \<Rightarrow> u32 list option" where
  "patch_slots words [] [] = Some words"
| "patch_slots words (slot # slots) (choice # choices) =
     (if choice < length (os_overlays slot) then
        (case copy_overlay words (unat (os_offset slot div 4)) (ov_instr_words (os_overlays slot ! choice)) of
           None \<Rightarrow> None
         | Some words' \<Rightarrow> patch_slots words' slots choices)
      else None)"
| "patch_slots words _ _ = None"

definition slot_options :: "overlay_slot list \<Rightarrow> nat list" where
  "slot_options slots = map (\<lambda>slot. length (os_overlays slot)) slots"

text \<open>The value of a counter in the mixed radix of its slots.\<close>

fun counter_value :: "nat list \<Rightarrow> nat list \<Rightarrow> nat" where
  "counter_value (l # ls) (c # cs) = c * prod_list ls + counter_value ls cs"
| "counter_value _ _ = 0"

definition in_range :: "nat list \<Rightarrow> nat list \<Rightarrow> bool" where
  "in_range ls cs \<longleftrightarrow> list_all2 (<) cs ls"

lemma in_range_simps [simp]:
  "in_range [] cs \<longleftrightarrow> cs = []" "in_range (l # ls) (c # cs) \<longleftrightarrow> c < l \<and> in_range ls cs" "\<not> in_range (l # ls) []"
  by (simp_all add: in_range_def)

lemma in_range_length: "in_range ls cs \<Longrightarrow> length cs = length ls"
  by (simp add: in_range_def list_all2_lengthD)

lemma in_range_nth: "in_range ls cs \<longleftrightarrow> length cs = length ls \<and> (\<forall>i < length ls. cs ! i < ls ! i)"
  by (auto simp: in_range_def list_all2_conv_all_nth)

lemma counter_value_bound: "in_range ls cs \<Longrightarrow> counter_value ls cs < prod_list ls"
proof (induction ls cs rule: counter_value.induct)
  case (1 l ls c cs)
  then have "c + 1 \<le> l" and r: "counter_value ls cs < prod_list ls" by simp_all
  then have "(c + 1) * prod_list ls \<le> l * prod_list ls" using mult_le_mono1 by blast
  with r show ?case by simp
qed (simp_all add: in_range_def)

lemma counter_value_inj:
  "in_range ls cs \<Longrightarrow> in_range ls ds \<Longrightarrow> counter_value ls cs = counter_value ls ds \<Longrightarrow> cs = ds"
proof (induction ls arbitrary: cs ds)
  case (Cons l ls)
  from Cons.prems obtain c cs' d ds' where d: "cs = c # cs'" "ds = d # ds'" by (metis in_range_simps(3) list.exhaust)
  with Cons.prems have r: "in_range ls cs'" "in_range ls ds'"
      and e: "c * prod_list ls + counter_value ls cs' = d * prod_list ls + counter_value ls ds'" by simp_all
  have b: "counter_value ls cs' < prod_list ls" "counter_value ls ds' < prod_list ls"
    using r by (simp_all add: counter_value_bound)
  have "c = (c * prod_list ls + counter_value ls cs') div prod_list ls"
    "d = (d * prod_list ls + counter_value ls ds') div prod_list ls" using b by simp_all
  with e have "c = d" by simp
  with e have "counter_value ls cs' = counter_value ls ds'" by simp
  with Cons.IH [OF r] show ?case by (simp add: d \<open>c = d\<close>)
qed simp

lemma counter_value_update:
  "length cs = length ls \<Longrightarrow> i < length ls \<Longrightarrow>
    counter_value ls (cs[i := x]) + cs ! i * prod_list (drop (Suc i) ls) =
    counter_value ls cs + x * prod_list (drop (Suc i) ls)"
proof (induction ls cs arbitrary: i rule: counter_value.induct)
  case (1 l ls c cs)
  then show ?case by (cases i) auto
qed simp_all

text \<open>The digits behind the carry are in range, those before it too, and the carried one may be full.\<close>

definition carried :: "nat list \<Rightarrow> nat \<Rightarrow> nat list \<Rightarrow> bool" where
  "carried ls i cs \<longleftrightarrow> length cs = length ls \<and> i < length ls \<and> cs ! i \<le> ls ! i \<and>
     (\<forall>k < length ls. k \<noteq> i \<longrightarrow> cs ! k < ls ! k)"

lemma carry_step:
  assumes "carried ls (Suc i) cs" and "\<forall>k < length ls. 0 < ls ! k" and "cs ! Suc i = ls ! Suc i"
  shows "carried ls i (cs[Suc i := 0, i := cs ! i + 1])"
    "counter_value ls (cs[Suc i := 0, i := cs ! i + 1]) = counter_value ls cs"
proof -
  have c: "length cs = length ls" "Suc i < length ls" "\<forall>k < length ls. k \<noteq> Suc i \<longrightarrow> cs ! k < ls ! k"
    using assms(1) by (simp_all add: carried_def)
  then show "carried ls i (cs[Suc i := 0, i := cs ! i + 1])"
    using assms(2) by (auto simp: carried_def nth_list_update Suc_leI)
  have d: "prod_list (drop (Suc i) ls) = ls ! Suc i * prod_list (drop (Suc (Suc i)) ls)"
    using c(2) by (simp add: Cons_nth_drop_Suc [symmetric])
  have "counter_value ls (cs[Suc i := 0]) + cs ! Suc i * prod_list (drop (Suc (Suc i)) ls) = counter_value ls cs"
    using counter_value_update [OF c(1,2), of 0] by simp
  moreover have "counter_value ls (cs[Suc i := 0, i := cs ! i + 1]) + cs ! i * prod_list (drop (Suc i) ls) =
      counter_value ls (cs[Suc i := 0]) + (cs ! i + 1) * prod_list (drop (Suc i) ls)"
    using counter_value_update [of "cs[Suc i := 0]" ls i "cs ! i + 1"] c by simp
  ultimately show "counter_value ls (cs[Suc i := 0, i := cs ! i + 1]) = counter_value ls cs" by (simp add: d assms(3))
qed

lemma carried_not_full: "carried ls i cs \<Longrightarrow> cs ! i \<noteq> ls ! i \<Longrightarrow> in_range ls cs"
  unfolding carried_def in_range_nth by (metis le_neq_implies_less)

lemma carry_digit_running:
  "carried ls i cs \<Longrightarrow> \<forall>k < length ls. 0 < ls ! k \<Longrightarrow> carry_digit ls i cs = (True, cs') \<Longrightarrow>
    in_range ls cs' \<and> counter_value ls cs' = counter_value ls cs"
proof (induction ls i cs rule: carry_digit.induct)
  case (1 ls cs)
  then show ?case using carried_not_full by (auto split: if_splits)
next
  case (2 ls i cs)
  show ?case
  proof (cases "cs ! Suc i = ls ! Suc i")
    case True
    with 2(4) have "carry_digit ls i (cs[Suc i := 0, i := cs ! i + 1]) = (True, cs')" by simp
    with 2(1) [OF True] carry_step [OF 2(2,3) True] 2(3) show ?thesis by simp
  next
    case False
    with 2(4) carried_not_full [OF 2(2)] show ?thesis by simp
  qed
qed

lemma carry_digit_stopped:
  "carried ls i cs \<Longrightarrow> \<forall>k < length ls. 0 < ls ! k \<Longrightarrow> carry_digit ls i cs = (False, cs') \<Longrightarrow>
    prod_list ls \<le> counter_value ls cs"
proof (induction ls i cs rule: carry_digit.induct)
  case (1 ls cs)
  then obtain l ls' where l: "ls = l # ls'" by (cases ls) (auto simp: carried_def)
  with 1(1) obtain c ds where c: "cs = c # ds" by (cases cs) (auto simp: carried_def)
  from 1(3) have "c = l" by (simp add: l c split: if_splits)
  then show ?case by (simp add: l c)
next
  case (2 ls i cs)
  have full: "cs ! Suc i = ls ! Suc i" using 2(4) by (simp split: if_splits)
  with 2(4) have "carry_digit ls i (cs[Suc i := 0, i := cs ! i + 1]) = (False, cs')" by simp
  with 2(1) [OF full] carry_step [OF 2(2,3) full] 2(3) show ?case by simp
qed

text \<open>The counter counts.\<close>

lemma advance_counts:
  assumes "in_range ls cs" and "advance_overlay_counter ls cs = Some (running, cs')"
  shows "if running then in_range ls cs' \<and> counter_value ls cs' = Suc (counter_value ls cs)
         else Suc (counter_value ls cs) = prod_list ls"
proof -
  let ?n = "length cs - 1"
  have l: "length cs = length ls" by (rule in_range_length [OF assms(1)])
  have n: "cs \<noteq> []" and a: "carry_digit ls ?n (cs[?n := cs ! ?n + 1]) = (running, cs')"
    using assms(2) by (auto simp: advance_overlay_counter_def Let_def split: if_splits)
  have lt: "\<forall>k < length ls. cs ! k < ls ! k" using assms(1) by (simp add: in_range_nth)
  then have pos: "\<forall>k < length ls. 0 < ls ! k" by fastforce
  have "?n < length ls" using l n by (cases cs) auto
  then have c: "carried ls ?n (cs[?n := cs ! ?n + 1])"
    using l lt by (auto simp: carried_def nth_list_update Suc_leI)
  then have "drop (Suc ?n) ls = []" using l n by simp
  then have v: "counter_value ls (cs[?n := cs ! ?n + 1]) = Suc (counter_value ls cs)"
    using counter_value_update [OF l \<open>?n < length ls\<close>, of "cs ! ?n + 1"] by simp
  show ?thesis
  proof (cases running)
    case True
    with carry_digit_running [OF c pos] a v show ?thesis by simp
  next
    case False
    with carry_digit_stopped [OF c pos] a have "prod_list ls \<le> counter_value ls (cs[?n := cs ! ?n + 1])" by simp
    then have "prod_list ls \<le> Suc (counter_value ls cs)" unfolding v .
    with counter_value_bound [OF assms(1)] False show ?thesis by simp
  qed
qed

lemma patch_slots_in_range: "patch_slots words slots cs = Some words' \<Longrightarrow> in_range (slot_options slots) cs"
  by (induction words slots cs rule: patch_slots.induct) (auto simp: slot_options_def split: if_splits option.splits)

text \<open>The \<open>do\<close> loop: patch, then count on.\<close>

function (sequential) expand_from :: "u32 list \<Rightarrow> overlay_slot list \<Rightarrow> nat list \<Rightarrow> permutation list option" where
  "expand_from base_words slots current =
     (case patch_slots base_words slots current of
        None \<Rightarrow> None
      | Some words \<Rightarrow>
          let this = \<lparr>pm_instr_words = words, pm_permutation = current\<rparr> in
          (case advance_overlay_counter (slot_options slots) current of
             None \<Rightarrow> None
           | Some (running, next) \<Rightarrow>
               if running then map_option (Cons this) (expand_from base_words slots next) else Some [this]))"
  by pat_completeness auto
termination
proof (relation "measure (\<lambda>(base_words, slots, current). prod_list (slot_options slots) - counter_value (slot_options slots) current)")
  fix base_words slots current words this x running "next"
  assume "patch_slots base_words slots current = Some words"
    and "advance_overlay_counter (slot_options slots) current = Some x" and "(running, next) = x" and "running"
  then have r: "in_range (slot_options slots) current"
      and a: "advance_overlay_counter (slot_options slots) current = Some (True, next)"
    by (simp_all add: patch_slots_in_range)
  have "counter_value (slot_options slots) next = Suc (counter_value (slot_options slots) current)"
    using advance_counts [OF r a] by simp
  with counter_value_bound [OF r]
  show "((base_words, slots, next), base_words, slots, current)
    \<in> measure (\<lambda>(base_words, slots, current). prod_list (slot_options slots) - counter_value (slot_options slots) current)"
    by simp
qed simp

declare expand_from.simps [simp del]

definition expand_permutations :: "u32 list \<Rightarrow> overlay_slot list \<Rightarrow> permutation list option" where
  "expand_permutations base_words slots = expand_from base_words slots (replicate (length slots) 0)"


section \<open>Every combination once, in order\<close>

lemma expand_fromE:
  assumes "expand_from base slots current = Some ps"
  obtains words running "next" where "patch_slots base slots current = Some words"
    "advance_overlay_counter (slot_options slots) current = Some (running, next)"
  using assms by (subst (asm) expand_from.simps) (auto simp: Let_def split: option.splits)

lemma expand_from_enumerates:
  "expand_from base slots current = Some ps \<Longrightarrow>
    map (counter_value (slot_options slots) \<circ> pm_permutation) ps =
      [counter_value (slot_options slots) current ..< prod_list (slot_options slots)] \<and>
    (\<forall>p \<in> set ps. in_range (slot_options slots) (pm_permutation p) \<and>
       patch_slots base slots (pm_permutation p) = Some (pm_instr_words p))"
proof (induction base slots current arbitrary: ps rule: expand_from.induct)
  case (1 base slots current)
  from 1(2) obtain words running "next" where w: "patch_slots base slots current = Some words"
      and a: "advance_overlay_counter (slot_options slots) current = Some (running, next)"
    by (rule expand_fromE)
  have r: "in_range (slot_options slots) current" by (rule patch_slots_in_range [OF w])
  have b: "counter_value (slot_options slots) current < prod_list (slot_options slots)" by (rule counter_value_bound [OF r])
  show ?case
  proof (cases running)
    case True
    from 1(2) obtain qs where q: "expand_from base slots next = Some qs"
        and p: "ps = \<lparr>pm_instr_words = words, pm_permutation = current\<rparr> # qs"
      by (subst (asm) expand_from.simps) (auto simp: w a True Let_def)
    have "counter_value (slot_options slots) next = Suc (counter_value (slot_options slots) current)"
      using advance_counts [OF r a] True by simp
    moreover note 1(1) [OF w refl a refl True q]
    ultimately show ?thesis using b by (simp add: p w r upt_conv_Cons)
  next
    case False
    from 1(2) have p: "ps = [\<lparr>pm_instr_words = words, pm_permutation = current\<rparr>]"
      by (subst (asm) expand_from.simps) (auto simp: w a False Let_def)
    have "Suc (counter_value (slot_options slots) current) = prod_list (slot_options slots)"
      using advance_counts [OF r a] False by simp
    then show ?thesis by (simp add: p w r upt_conv_Cons)
  qed
qed

lemma counter_value_zero: "counter_value ls (replicate n 0) = 0"
  by (induction ls "replicate n (0 :: nat)" arbitrary: n rule: counter_value.induct) (case_tac n; simp)+

lemma expand_permutations_enumerates:
  assumes "expand_permutations base slots = Some ps"
  shows "length ps = prod_list (slot_options slots)"
    and "i < length ps \<Longrightarrow> counter_value (slot_options slots) (pm_permutation (ps ! i)) = i"
    and "p \<in> set ps \<Longrightarrow> in_range (slot_options slots) (pm_permutation p) \<and>
      patch_slots base slots (pm_permutation p) = Some (pm_instr_words p)"
proof -
  note e = expand_from_enumerates [OF assms [unfolded expand_permutations_def], unfolded counter_value_zero]
  have m: "map (counter_value (slot_options slots) \<circ> pm_permutation) ps = [0 ..< prod_list (slot_options slots)]"
    by (rule conjunct1 [OF e])
  from arg_cong [OF m, of length] show l: "length ps = prod_list (slot_options slots)" by simp
  show "counter_value (slot_options slots) (pm_permutation (ps ! i)) = i" if "i < length ps"
    using arg_cong [OF m, of "\<lambda>xs. xs ! i"] that l by simp
  show "in_range (slot_options slots) (pm_permutation p) \<and> patch_slots base slots (pm_permutation p) = Some (pm_instr_words p)"
    if "p \<in> set ps" using e that by blast
qed

lemma expand_permutations_at:
  assumes "expand_permutations base slots = Some ps" and "in_range (slot_options slots) cs"
  shows "counter_value (slot_options slots) cs < length ps"
    and "pm_permutation (ps ! counter_value (slot_options slots) cs) = cs"
    and "patch_slots base slots cs = Some (pm_instr_words (ps ! counter_value (slot_options slots) cs))"
proof -
  note e = expand_permutations_enumerates [OF assms(1)]
  let ?i = "counter_value (slot_options slots) cs"
  show i: "?i < length ps" using counter_value_bound [OF assms(2)] e(1) by simp
  have p: "in_range (slot_options slots) (pm_permutation (ps ! ?i))"
    "patch_slots base slots (pm_permutation (ps ! ?i)) = Some (pm_instr_words (ps ! ?i))"
    using e(3) [OF nth_mem [OF i]] by simp_all
  show c: "pm_permutation (ps ! ?i) = cs"
    by (rule counter_value_inj [OF p(1) assms(2) e(2) [OF i]])
  show "patch_slots base slots cs = Some (pm_instr_words (ps ! ?i))" using p(2) c by simp
qed

text \<open>When the enumeration succeeds.\<close>

definition fits :: "u32 list \<Rightarrow> overlay_slot \<Rightarrow> overlay \<Rightarrow> bool" where
  "fits base slot ov \<longleftrightarrow> unat (os_offset slot div 4) + length (ov_instr_words ov) \<le> length base"

lemma copy_overlay_length: "copy_overlay words off new = Some words' \<Longrightarrow> length words' = length words"
  by (auto simp: copy_overlay_def split: if_splits)

lemma copy_overlay_None: "copy_overlay words off new = None \<longleftrightarrow> \<not> off + length new \<le> length words"
  by (simp add: copy_overlay_def)

definition chosen_fits :: "nat \<Rightarrow> overlay_slot \<Rightarrow> nat \<Rightarrow> bool" where
  "chosen_fits n slot choice \<longleftrightarrow> choice < length (os_overlays slot) \<and>
     unat (os_offset slot div 4) + length (ov_instr_words (os_overlays slot ! choice)) \<le> n"

lemma patch_slots_defined: "patch_slots words slots cs \<noteq> None \<longleftrightarrow> list_all2 (chosen_fits (length words)) slots cs"
proof (induction words slots cs rule: patch_slots.induct)
  case (2 words slot slots choice choices)
  let ?c = "copy_overlay words (unat (os_offset slot div 4)) (ov_instr_words (os_overlays slot ! choice))"
  show ?case
  proof (cases "chosen_fits (length words) slot choice")
    case True
    then obtain words' where c: "?c = Some words'" and l: "choice < length (os_overlays slot)"
      by (auto simp: chosen_fits_def copy_overlay_def)
    from 2 [OF l c] copy_overlay_length [OF c] True show ?thesis by (simp only: patch_slots.simps list_all2_Cons l c if_True option.case simp_thms)
  next
    case False
    then show ?thesis by (auto simp: chosen_fits_def copy_overlay_def)
  qed
qed simp_all

lemma advance_defined: "in_range ls cs \<Longrightarrow> advance_overlay_counter ls cs \<noteq> None \<longleftrightarrow> cs \<noteq> []"
  using in_range_length [of ls cs] by (simp add: advance_overlay_counter_def Let_def)

lemma expand_from_defined:
  assumes "\<forall>slot \<in> set slots. \<forall>ov \<in> set (os_overlays slot). fits base slot ov" and "slots \<noteq> []"
  shows "in_range (slot_options slots) current \<Longrightarrow> expand_from base slots current \<noteq> None"
  using assms
proof (induction base slots current rule: expand_from.induct)
  case (1 base slots current)
  have l: "length current = length slots" using in_range_length [OF 1(2)] by (simp add: slot_options_def)
  have "\<forall>i < length slots. current ! i < length (os_overlays (slots ! i))"
    using 1(2) by (simp add: in_range_nth slot_options_def)
  then have "patch_slots base slots current \<noteq> None"
    unfolding patch_slots_defined list_all2_conv_all_nth chosen_fits_def using 1(3) l by (auto simp: fits_def)
  then obtain words where w: "patch_slots base slots current = Some words" by blast
  obtain running "next" where a: "advance_overlay_counter (slot_options slots) current = Some (running, next)"
    using advance_defined [OF 1(2)] 1(4) l by fastforce
  show ?case
  proof (cases running)
    case True
    then have "in_range (slot_options slots) next" using advance_counts [OF 1(2) a] by simp
    from 1(1) [OF w refl a refl True this 1(3,4)] show ?thesis
      by (subst expand_from.simps) (simp add: w a True Let_def)
  next
    case False
    then show ?thesis by (subst expand_from.simps) (simp add: w a)
  qed
qed

lemma in_range_zeros: "\<forall>l \<in> set ls. 0 < l \<Longrightarrow> in_range ls (replicate (length ls) 0)"
  by (simp add: in_range_nth)

lemma expand_permutations_iff:
  "expand_permutations base slots \<noteq> None \<longleftrightarrow>
    slots \<noteq> [] \<and> (\<forall>slot \<in> set slots. os_overlays slot \<noteq> [] \<and> (\<forall>ov \<in> set (os_overlays slot). fits base slot ov))"
proof
  assume d: "slots \<noteq> [] \<and> (\<forall>slot \<in> set slots. os_overlays slot \<noteq> [] \<and> (\<forall>ov \<in> set (os_overlays slot). fits base slot ov))"
  then have "in_range (slot_options slots) (replicate (length (slot_options slots)) 0)"
    by (intro in_range_zeros) (auto simp: slot_options_def)
  then show "expand_permutations base slots \<noteq> None"
    unfolding expand_permutations_def using d by (intro expand_from_defined) (auto simp: slot_options_def)
next
  assume "expand_permutations base slots \<noteq> None"
  then obtain ps where p: "expand_permutations base slots = Some ps" by blast
  let ?zeros = "replicate (length slots) (0 :: nat)"
  from p have "expand_from base slots ?zeros = Some ps" by (simp add: expand_permutations_def)
  then obtain words running "next" where w: "patch_slots base slots ?zeros = Some words"
      and a: "advance_overlay_counter (slot_options slots) ?zeros = Some (running, next)"
    by (rule expand_fromE)
  from a have ne: "slots \<noteq> []" by (simp add: advance_overlay_counter_def Let_def split: if_splits)
  have z: "in_range (slot_options slots) ?zeros" by (rule patch_slots_in_range [OF w])
  have "os_overlays slot \<noteq> [] \<and> (\<forall>ov \<in> set (os_overlays slot). fits base slot ov)" if s: "slot \<in> set slots" for slot
  proof (intro conjI ballI)
    obtain i where i: "i < length slots" "slot = slots ! i" using s by (metis in_set_conv_nth)
    then show "os_overlays slot \<noteq> []" using z by (force simp: in_range_nth slot_options_def)
    fix ov assume "ov \<in> set (os_overlays slot)"
    then obtain k where k: "k < length (os_overlays slot)" "ov = os_overlays slot ! k" by (metis in_set_conv_nth)
    let ?cs = "(replicate (length slots) 0)[i := k]"
    have "in_range (slot_options slots) ?cs"
      using z i k by (auto simp: in_range_nth slot_options_def nth_list_update)
    from expand_permutations_at(3) [OF p this] have "patch_slots base slots ?cs \<noteq> None" by simp
    then have "chosen_fits (length base) (slots ! i) (?cs ! i)"
      unfolding patch_slots_defined list_all2_conv_all_nth using i(1) by blast
    with i k show "fits base slot ov" by (simp add: chosen_fits_def fits_def)
  qed
  with ne show "slots \<noteq> [] \<and> (\<forall>slot \<in> set slots. os_overlays slot \<noteq> [] \<and> (\<forall>ov \<in> set (os_overlays slot). fits base slot ov))"
    by blast
qed

text \<open>C34: The enumeration of the overlay combinations ends with a result exactly when there is a slot, every slot has an
  overlay and every overlay fits into the base text at its slot.\<close>

theorem expand_permutations_defined:
  "expand_permutations base slots \<noteq> None \<longleftrightarrow>
    slots \<noteq> [] \<and> (\<forall>slot \<in> set slots. os_overlays slot \<noteq> [] \<and> (\<forall>ov \<in> set (os_overlays slot). fits base slot ov))"
  by (rule expand_permutations_iff)

section \<open>The dispatcher\<close>

definition permutation_suffix :: "nat list \<Rightarrow> string" where
  "permutation_suffix permutation = concat (map fmt_nat permutation)"

text \<open>The index the dispatcher computes: a term \<open>slots[i] * multiplier\<close> for every slot. The multipliers and the sum are
  \<open>uint32_t\<close>.\<close>

definition slot_multiplier :: "nat list \<Rightarrow> nat \<Rightarrow> u32" where
  "slot_multiplier option_lengths i = fold (\<lambda>k multiplier. multiplier * of_nat (option_lengths ! k)) [i + 1 ..< length option_lengths] 1"

definition perm_index_terms :: "nat list \<Rightarrow> (nat \<times> u32) list" where
  "perm_index_terms option_lengths = map (\<lambda>i. (i, slot_multiplier option_lengths i)) [0 ..< length option_lengths]"

fun join_with :: "string \<Rightarrow> string list \<Rightarrow> string" where
  "join_with separator [] = ''''"
| "join_with separator [s] = s"
| "join_with separator (s # t # ss) = s @ separator @ join_with separator (t # ss)"

definition perm_index_str :: "nat list \<Rightarrow> string" where
  "perm_index_str option_lengths =
     join_with '' + '' (map (\<lambda>(i, multiplier). ''slots['' @ fmt_nat i @ ''] * '' @ fmt_nat (unat multiplier)) (perm_index_terms option_lengths))"

definition perm_index_value :: "nat list \<Rightarrow> u32 list \<Rightarrow> u32" where
  "perm_index_value option_lengths slots = sum_list (map (\<lambda>(i, multiplier). slots ! i * multiplier) (perm_index_terms option_lengths))"

definition config_options :: "rsp_config \<Rightarrow> nat list" where
  "config_options config = map (\<lambda>slot. length (sc_overlays slot)) (rc_overlay_slots config)"

definition enumerated :: "'a list \<Rightarrow> (nat \<times> 'a) list" where
  "enumerated xs = zip [0 ..< length xs] xs"

definition emit_overlay_dispatcher :: "permutation list \<Rightarrow> rsp_config \<Rightarrow> string" where
  "emit_overlay_dispatcher permutations config =
     (let name = rc_output_function_name config;
          permutation_name = (\<lambda>p. name @ permutation_suffix (pm_permutation p)) in
      print_lines (
        [''#include <map>'', ''#include <vector>'', '''',
         ''using RspUcodePermutationFunc = RspExitReason(uint8_t* rdram, RspContext* ctx);'', '''',
         ''RspExitReason '' @ name @ ''_initial(uint8_t* rdram, RspContext* ctx);''] @
        map (\<lambda>p. ''RspExitReason '' @ permutation_name p @ ''(uint8_t* rdram, RspContext* ctx);'') permutations @
        ['''', ''static const std::map<uint32_t, uint32_t> imemToSlot = {''] @
        map (\<lambda>(i, slot). ''    { 0x'' @ fmt_04X (sc_text_address slot AND unat rsp_mem_mask) @ '', '' @ fmt_nat i @ '' },'')
          (enumerated (rc_overlay_slots config)) @
        [''};'', '''', ''static const std::vector<std::map<uint32_t, uint32_t>> offsetToOverlay = {''] @
        concat (map (\<lambda>slot. [''    {''] @
          map (\<lambda>(i, ov). ''        { 0x'' @ fmt_04X (oc_offset ov) @ '', '' @ fmt_nat i @ '' },'') (enumerated (sc_overlays slot)) @
          [''    },'']) (rc_overlay_slots config)) @
        [''};'', '''', ''static RspUcodePermutationFunc* permutations[] = {''] @
        map (\<lambda>p. ''    '' @ permutation_name p @ '','') permutations @
        [''};'', '''',
         ''RspExitReason '' @ name @ ''(uint8_t* rdram, uint32_t ucode_addr) {'',
         ''    static thread_local RspContext ctx{};'',
         ''    uint32_t slots[] = {'' @ join_with '', '' (replicate (length (rc_overlay_slots config)) ''0'') @ ''};'', '''',
         ''    RspExitReason exitReason = '' @ name @ ''_initial(rdram, &ctx);'', '''',
         ''    while (exitReason == RspExitReason::SwapOverlay) {'',
         ''        uint32_t slot = imemToSlot.at(ctx.dma_mem_address);'',
         ''        uint32_t overlay = offsetToOverlay.at(slot).at(ctx.dma_dram_address - ucode_addr);'',
         ''        slots[slot] = overlay;'', '''',
         ''        RspUcodePermutationFunc* permutationFunc = permutations['' @ perm_index_str (config_options config) @ ''];'',
         ''        exitReason = permutationFunc(rdram, &ctx);'',
         ''    }'', '''',
         ''    return exitReason;'',
         ''}'', '''']))"

lemma fold_multipliers:
  "fold (\<lambda>k m. m * of_nat (ls ! k)) [j ..< length ls] m = m * (of_nat (prod_list (drop j ls)) :: u32)"
proof (induction "length ls - j" arbitrary: j m)
  case (Suc n)
  then have j: "j < length ls" by simp
  then have "[j ..< length ls] = j # [Suc j ..< length ls]" by (rule upt_conv_Cons)
  moreover have "drop j ls = ls ! j # drop (Suc j) ls" using j by (simp add: Cons_nth_drop_Suc)
  ultimately show ?case using Suc(1) [of "Suc j"] Suc(2) j by (simp add: mult.assoc)
qed simp

lemma slot_multiplier_eq: "slot_multiplier ls i = of_nat (prod_list (drop (Suc i) ls))"
  by (simp add: slot_multiplier_def fold_multipliers)

lemma counter_value_sum:
  "length cs = length ls \<Longrightarrow>
    counter_value ls cs = sum_list (map (\<lambda>i. cs ! i * prod_list (drop (Suc i) ls)) [0 ..< length ls])"
proof (induction ls cs rule: counter_value.induct)
  case (1 l ls c cs)
  have "[0 ..< Suc (length ls)] = 0 # map Suc [0 ..< length ls]" by (simp add: upt_conv_Cons map_Suc_upt del: upt_Suc)
  with 1 show ?case by (simp add: comp_def)
qed simp_all

lemma of_nat_sum_list: "of_nat (sum_list xs) = sum_list (map of_nat xs)"
  by (induction xs) simp_all

lemma perm_index_value_eq:
  assumes "length cs = length ls"
  shows "perm_index_value ls (map of_nat cs) = of_nat (counter_value ls cs)"
  unfolding perm_index_value_def perm_index_terms_def counter_value_sum [OF assms] of_nat_sum_list
  by (rule arg_cong [of _ _ sum_list]) (simp add: assms slot_multiplier_eq)

text \<open>C32: The index expression of the dispatcher, evaluated in \<open>uint32_t\<close> on the loaded overlays, selects the permutation
  function that was recompiled from the base text with these overlays in their slots.\<close>

theorem dispatcher_selects:
  assumes "expand_permutations base slots = Some ps" and "in_range (slot_options slots) choices"
    and "prod_list (slot_options slots) < 2 ^ 32"
  shows "let i = unat (perm_index_value (slot_options slots) (map of_nat choices)) in
    i < length ps \<and> pm_permutation (ps ! i) = choices \<and> patch_slots base slots choices = Some (pm_instr_words (ps ! i))"
proof -
  have "counter_value (slot_options slots) choices < 2 ^ 32"
    using counter_value_bound [OF assms(2)] assms(3) by simp
  then have "unat (perm_index_value (slot_options slots) (map of_nat choices)) = counter_value (slot_options slots) choices"
    unfolding perm_index_value_eq [OF in_range_length [OF assms(2)]] by (simp add: unat_of_nat take_bit_nat_eq_self)
  with expand_permutations_at [OF assms(1,2)] show ?thesis by (simp add: Let_def)
qed

lemma fmt_nat_digit: "n < 10 \<Longrightarrow> fmt_nat n = [hex_digit n]"
  by (simp add: fmt_nat.simps)

lemma suffix_digits:
  "\<forall>c \<in> set cs. c < 10 \<Longrightarrow> permutation_suffix cs = map hex_digit cs"
  unfolding permutation_suffix_def by (induction cs) (simp_all add: fmt_nat_digit)

lemma suffix_inj:
  assumes "\<forall>c \<in> set cs. c < 10" and "\<forall>d \<in> set ds. d < 10" and "permutation_suffix cs = permutation_suffix ds"
  shows "cs = ds"
proof -
  have "inj_on hex_digit {..<10}" by (rule inj_onI) (simp add: hex_digit_inj)
  moreover have "map hex_digit cs = map hex_digit ds" using assms by (simp add: suffix_digits)
  ultimately show ?thesis using assms(1,2) by (intro map_inj_on [of hex_digit]) (auto intro: inj_on_subset)
qed

lemma in_range_small: "in_range ls cs \<Longrightarrow> \<forall>l \<in> set ls. l \<le> 10 \<Longrightarrow> \<forall>c \<in> set cs. c < 10"
  unfolding in_range_nth by (metis in_set_conv_nth less_le_trans)

text \<open>C35: With at most ten overlays per slot the names of the permutation functions are pairwise different; with more they
  need not be, since the choices are written one after the other without a separator.\<close>

theorem permutation_names_distinct:
  assumes "expand_permutations base slots = Some ps" and "\<forall>slot \<in> set slots. length (os_overlays slot) \<le> 10"
  shows "distinct (map (\<lambda>p. name @ permutation_suffix (pm_permutation p)) ps)"
proof -
  have small: "\<forall>l \<in> set (slot_options slots). l \<le> 10" using assms(2) by (auto simp: slot_options_def)
  note e = expand_permutations_enumerates [OF assms(1)]
  have inj: "i = j" if i: "i < length ps" and j: "j < length ps"
    and eq: "name @ permutation_suffix (pm_permutation (ps ! i)) = name @ permutation_suffix (pm_permutation (ps ! j))" for i j
  proof -
    have "in_range (slot_options slots) (pm_permutation (ps ! i))" "in_range (slot_options slots) (pm_permutation (ps ! j))"
      using e(3) i j by simp_all
    then have "pm_permutation (ps ! i) = pm_permutation (ps ! j)"
      using eq small by (intro suffix_inj) (simp_all add: in_range_small)
    from arg_cong [OF this, of "counter_value (slot_options slots)"] show "i = j"
      by (simp only: e(2) [OF i] e(2) [OF j])
  qed
  show ?thesis
    unfolding distinct_conv_nth length_map
  proof (intro allI impI notI)
    fix i j
    assume a: "i < length ps" "j < length ps" "i \<noteq> j"
      and eq: "map (\<lambda>p. name @ permutation_suffix (pm_permutation p)) ps ! i =
        map (\<lambda>p. name @ permutation_suffix (pm_permutation p)) ps ! j"
    from eq a(1,2) have "i = j" by (intro inj) (simp_all only: nth_map)
    with a(3) show False by contradiction
  qed
qed

section \<open>The tool\<close>

text \<open>Reading from the ROM file into a buffer that is zero: a short read leaves the rest of the buffer, and the failed stream
  reads nothing from then on.\<close>

definition stream_read :: "bytes \<Rightarrow> bool \<Rightarrow> nat \<Rightarrow> nat \<Rightarrow> bytes \<times> bool" where
  "stream_read file good pos n =
     (let got = (if good then slice file pos n else []) in (got @ replicate (n - length got) 0, good \<and> length got = n))"

text \<open>\<open>size\<close> bytes are read into a vector of \<open>size / 4\<close> words.\<close>

definition read_words :: "bytes \<Rightarrow> bool \<Rightarrow> nat \<Rightarrow> nat \<Rightarrow> (u32 list \<times> bool) option" where
  "read_words file good pos n =
     (if n mod 4 \<noteq> 0 then None
      else let (data, good') = stream_read file good pos n in Some (le_words data, good'))"

definition slot_offset :: "rsp_config \<Rightarrow> overlay_slot_config \<Rightarrow> u32" where
  "slot_offset config slot =
     ucast ((of_nat (sc_text_address slot) - of_nat (rc_text_address config) :: u64) AND ucast rsp_mem_mask)"

fun load_overlays :: "rsp_config \<Rightarrow> bytes \<Rightarrow> bool \<Rightarrow> overlay_config list \<Rightarrow> (overlay list \<times> bool) option" where
  "load_overlays config rom_file good [] = Some ([], good)"
| "load_overlays config rom_file good (oc # ocs) =
     (case read_words rom_file good (rc_text_offset config + oc_offset oc) (oc_size oc) of
        None \<Rightarrow> None
      | Some (words, good') \<Rightarrow>
          map_option (\<lambda>(ovs, good''). (\<lparr>ov_instr_words = words\<rparr> # ovs, good'')) (load_overlays config rom_file good' ocs))"

fun load_slots :: "rsp_config \<Rightarrow> bytes \<Rightarrow> bool \<Rightarrow> overlay_slot_config list \<Rightarrow> overlay_slot list option" where
  "load_slots config rom_file good [] = Some []"
| "load_slots config rom_file good (sc # scs) =
     (case load_overlays config rom_file good (sc_overlays sc) of
        None \<Rightarrow> None
      | Some (ovs, good') \<Rightarrow>
          map_option (Cons \<lparr>os_offset = slot_offset config sc, os_overlays = ovs\<rparr>) (load_slots config rom_file good' scs))"

fun decode_image :: "(u32 \<Rightarrow> u32 \<Rightarrow> rsp_instr) \<Rightarrow> u32 \<Rightarrow> u32 list \<Rightarrow> rsp_instr list" where
  "decode_image decode vram [] = []"
| "decode_image decode vram (word # words) = decode (byteswap word) vram # decode_image decode (vram + instr_size) words"

definition text_vram :: "rsp_config \<Rightarrow> u32" where
  "text_vram config = of_nat (rc_text_address config) AND rsp_mem_mask"

definition include_text :: string where
  "include_text = print_lines [''#include '' @ quoted ''librecomp/rsp.hpp'', ''#include '' @ quoted ''librecomp/rsp_vu_impl.hpp'']"

fun all_or_nothing :: "'a option list \<Rightarrow> 'a list option" where
  "all_or_nothing [] = Some []"
| "all_or_nothing (x # xs) = (case (x, all_or_nothing xs) of (Some y, Some ys) \<Rightarrow> Some (y # ys) | _ \<Rightarrow> None)"

definition no_resume :: resume_targets where
  "no_resume = \<lparr>non_delay_targets = [], delay_targets = []\<rparr>"

text \<open>The output: the text in front of the functions and the functions.\<close>

definition recompile_microcode :: "(u32 \<Rightarrow> u32 \<Rightarrow> rsp_instr) \<Rightarrow> rsp_config \<Rightarrow> bytes \<Rightarrow> (string \<times> piece list list) option" where
  "recompile_microcode decode config rom_file =
     (case read_words rom_file True (rc_text_offset config) (rc_text_size config) of
        None \<Rightarrow> None
      | Some (instr_words, good) \<Rightarrow>
     (case load_slots config rom_file good (rc_overlay_slots config) of
        None \<Rightarrow> None
      | Some overlay_slots \<Rightarrow>
          let name = rc_output_function_name config;
              instrs = decode_image decode (text_vram config) instr_words
          in if overlay_slots = [] then
               map_option (\<lambda>f. (include_text, [f])) (emit_recompiled_function name instrs config no_resume False False)
             else
               (case expand_permutations instr_words overlay_slots of
                  None \<Rightarrow> None
                | Some permutations \<Rightarrow>
                    let images = map (\<lambda>p. decode_image decode (text_vram config) (pm_instr_words p)) permutations;
                        resume = fold collect_resume_targets images no_resume
                    in map_option (\<lambda>fs. (include_text @ emit_overlay_dispatcher permutations config, fs))
                         (all_or_nothing (emit_recompiled_function (name @ ''_initial'') instrs config no_resume True True #
                            map (\<lambda>(p, image). emit_recompiled_function (name @ permutation_suffix (pm_permutation p)) image config resume True False)
                              (zip permutations images))))))"

section \<open>Examples\<close>

text \<open>Two slots with two overlays of one word each over a text of four words.\<close>

definition sample_slots :: "overlay_slot list" where
  "sample_slots = [\<lparr>os_offset = 4, os_overlays = [\<lparr>ov_instr_words = [1]\<rparr>, \<lparr>ov_instr_words = [2]\<rparr>]\<rparr>,
     \<lparr>os_offset = 8, os_overlays = [\<lparr>ov_instr_words = [3]\<rparr>, \<lparr>ov_instr_words = [4]\<rparr>]\<rparr>]"

lemma sample_slots_defined: "expand_permutations [0, 0, 0, 0] sample_slots \<noteq> None"
  unfolding expand_permutations_iff by (simp add: sample_slots_def fits_def)

text \<open>In a text of two words the second slot lies past the end.\<close>

theorem expand_permutations_defined_witness:
  "expand_permutations [0, 0, 0, 0] sample_slots \<noteq> None \<and> expand_permutations [0, 0] sample_slots = None"
  using expand_permutations_defined [of "[0, 0, 0, 0]" sample_slots] expand_permutations_defined [of "[0, 0]" sample_slots]
  by (simp add: sample_slots_def fits_def)

theorem dispatcher_selects_witness:
  "\<exists>ps. expand_permutations [0, 0, 0, 0] sample_slots = Some ps \<and> pm_permutation (ps ! 2) = [1, 0] \<and>
    pm_instr_words (ps ! 2) = [0, 2, 3, 0]"
proof -
  obtain ps where ps: "expand_permutations [0, 0, 0, 0] sample_slots = Some ps" using sample_slots_defined by blast
  have o: "slot_options sample_slots = [2, 2]" by (simp add: slot_options_def sample_slots_def)
  have i: "unat (perm_index_value (slot_options sample_slots) (map of_nat [1, 0])) = 2"
    unfolding o by (simp add: perm_index_value_def perm_index_terms_def slot_multiplier_def upt_rec)
  have "patch_slots [0, 0, 0, 0] sample_slots [1, 0] = Some [0, 2, 3, 0]"
    unfolding sample_slots_def by code_simp
  with dispatcher_selects [OF ps, of "[1, 0]"] ps i show ?thesis by (simp add: o Let_def)
qed

theorem permutation_names_distinct_witness:
  "\<exists>ps. expand_permutations [0, 0, 0, 0] sample_slots = Some ps \<and>
    distinct (map (\<lambda>p. ''aspMain'' @ permutation_suffix (pm_permutation p)) ps)"
proof -
  obtain ps where ps: "expand_permutations [0, 0, 0, 0] sample_slots = Some ps" using sample_slots_defined by blast
  with permutation_names_distinct [OF ps, of "''aspMain''"] show ?thesis by (simp add: sample_slots_def)
qed

text \<open>With twelve overlays in each of two slots two different combinations get the same function name.\<close>

lemma permutation_names_clash:
  "permutation_suffix [1, 11] = permutation_suffix [11, 1]" "in_range [12, 12] [1, 11]" "in_range [12, 12] [11, 1]"
  by (simp_all add: permutation_suffix_def fmt_nat.simps)

text \<open>A loop of a branch to itself and its delay slot.\<close>

definition sample_instr :: "rsp_id \<Rightarrow> u32 \<Rightarrow> bool \<Rightarrow> u32 \<Rightarrow> rsp_instr" where
  "sample_instr i vram branch target = \<lparr>ri_vram = vram, ri_id = i, ri_rd = 0, ri_rs = 0, ri_rt = 0, ri_sa = 0, ri_immediate = 0,
     ri_vd = 0, ri_vs = 0, ri_vt = 0, ri_de = 0, ri_elementhigh = 0, ri_elementlow = 0, ri_has_elementhigh = False,
     ri_has_elementlow = False, ri_has_vs_index = False, ri_is_branch = branch, ri_is_jump_with_address = False, ri_does_link = False,
     ri_has_delay_slot = branch, ri_branch_vram = target, ri_opcode_name = '''', ri_disassemble = (\<lambda>_. '''')\<rparr>"

definition sample_image :: "rsp_instr list" where
  "sample_image = [sample_instr (R_control rsp_beq) 0x1000 True 0x1000, sample_instr (R_alu rsp_nop) 0x1004 False 0]"

definition sample_config :: rsp_config where
  "sample_config = \<lparr>rc_text_offset = 0, rc_text_size = 8, rc_text_address = 0x1000, rc_output_function_name = ''loop'',
     rc_extra_indirect_branch_targets = [], rc_unsupported_instructions = [], rc_overlay_slots = []\<rparr>"

lemma sample_emitted: "emit_recompiled_function ''loop'' sample_image sample_config no_resume False False \<noteq> None"
  by (simp add: emit_recompiled_function_def Let_def sample_image_def sample_instr_def emit_operation_def control_not_vector
      emit_control_def print_branch_def vector_operands_def vector_operands_table_def)

theorem rsp_labels_complete_iff_witness:
  "\<exists>ps. emit_recompiled_function ''loop'' sample_image sample_config no_resume False False = Some ps \<and> labels_complete ps"
proof -
  obtain ps where ps: "emit_recompiled_function ''loop'' sample_image sample_config no_resume False False = Some ps"
    using sample_emitted by blast
  have "\<forall>i \<in> set sample_image. classified i" by (simp add: sample_image_def sample_instr_def classified_def)
  moreover have "all_targets (function_targets sample_image sample_config) = {0x1000}"
    by (simp add: all_targets_def function_targets_def sample_image_def sample_instr_def sample_config_def collect_branch_targets_def
        collect_instr_targets_def imem_address_def rsp_mem_mask_def set_insert_def Let_def)
  ultimately show ?thesis
    using rsp_labels_complete_iff [OF ps] ps by (simp add: addresses_def sample_image_def sample_instr_def)
qed

end
