(* ===== verification/Fragments.thy ===== *)
theory Fragments
  imports Context Yay0 Analysis
begin

text \<open>
  Sections that the game decompresses at run time, the first part of \<open>src/decompressed.cpp\<close>: hashing and patching of the decompressed
  bytes, the FRAGMENT header, extraction of a raw fragment from the ROM, the relocation table, and the sections given one by
  one in the configuration.

  \<^item> \<open>Fail\<close> is \<open>return false\<close>; \<open>Undef\<close> is a read or write outside a buffer. Messages are left out.
  \<^item> An output parameter is part of the result; a function that returns a flag and sets a \<open>uint32_t\<close> is an option.
\<close>

section \<open>Bytes\<close>

definition blob_word :: "bytes \<Rightarrow> nat \<Rightarrow> u32 outcome" where
  "blob_word p i = or_undef (read_be_u32 p i)"

definition write_be_u32 :: "bytes \<Rightarrow> nat \<Rightarrow> u32 \<Rightarrow> bytes outcome" where
  "write_be_u32 p i v =
     (if i + 4 \<le> length p then Done (p[i := byte_of 3 v, i + 1 := byte_of 2 v, i + 2 := byte_of 1 v, i + 3 := byte_of 0 v])
      else Undef)"

definition fnv1a_64 :: "bytes \<Rightarrow> u64" where
  "fnv1a_64 data = foldl (\<lambda>h b. (h XOR ucast b) * 0x100000001B3) 0xCBF29CE484222325 data"

text \<open>\<open>memcmp\<close> with a literal at an offset.\<close>

definition matches_at :: "bytes \<Rightarrow> nat \<Rightarrow> bytes \<Rightarrow> bool outcome" where
  "matches_at p i magic = (if i + length magic \<le> length p then Done (slice p i (length magic) = magic) else Undef)"

definition fragment_magic :: bytes where
  "fragment_magic = ascii ''FRAGMENT''"

text \<open>\<open>memcpy\<close> out of a buffer.\<close>

definition copy_from :: "bytes \<Rightarrow> nat \<Rightarrow> nat \<Rightarrow> bytes outcome" where
  "copy_from p i n = (if i + n \<le> length p then Done (slice p i n) else Undef)"

section \<open>Patches\<close>

record section_patch =
  pa_has_rom_wrapper :: bool
  pa_rom_wrapper :: u32
  pa_has_original_pattern_id :: bool
  pa_original_pattern_id :: u32
  pa_offset :: u32
  pa_value :: u32

definition fragment_id_from_vram :: "u32 \<Rightarrow> u32 option" where
  "fragment_id_from_vram vram =
     (let bucket = drop_bit 0x14 (vram AND 0x0FF00000) in if bucket < 0x10 then None else Some (bucket - 0x10))"

definition patch_applies :: "u32 \<Rightarrow> u32 \<Rightarrow> section_patch \<Rightarrow> bool" where
  "patch_applies rom_wrapper vram patch \<longleftrightarrow>
     \<not> (pa_has_rom_wrapper patch \<and> pa_rom_wrapper patch \<noteq> rom_wrapper) \<and>
     \<not> (pa_has_original_pattern_id patch \<and> fragment_id_from_vram vram \<noteq> Some (pa_original_pattern_id patch))"

fun apply_decompressed_section_patches :: "bytes \<Rightarrow> u32 \<Rightarrow> u32 \<Rightarrow> section_patch list \<Rightarrow> bytes outcome" where
  "apply_decompressed_section_patches blob rom_wrapper vram [] = Done blob"
| "apply_decompressed_section_patches blob rom_wrapper vram (patch # patches) =
     (if \<not> patch_applies rom_wrapper vram patch then apply_decompressed_section_patches blob rom_wrapper vram patches
      else if length blob < unat (pa_offset patch) + 4 then Fail
      else and_then (write_be_u32 blob (unat (pa_offset patch)) (pa_value patch))
        (\<lambda>blob'. apply_decompressed_section_patches blob' rom_wrapper vram patches))"

section \<open>Jumps and the FRAGMENT header\<close>

definition opcode_of :: "u32 \<Rightarrow> u32" where
  "opcode_of instr = drop_bit 26 instr AND 0x3F"

definition decode_fragment_j_target :: "bytes \<Rightarrow> u32 option" where
  "decode_fragment_j_target bs =
     (case read_be_u32 bs 0 of
        None \<Rightarrow> None
      | Some j_instr \<Rightarrow> if opcode_of j_instr \<noteq> 0x02 then None else Some (0x80000000 OR push_bit 2 (j_instr AND 0x03FFFFFF)))"

definition decode_mips_jump_target :: "u32 \<Rightarrow> u32 \<Rightarrow> u32 option" where
  "decode_mips_jump_target instr pc_delay_slot =
     (if opcode_of instr \<noteq> 0x02 \<and> opcode_of instr \<noteq> 0x03 then None
      else Some ((pc_delay_slot AND 0xF0000000) OR push_bit 2 (instr AND 0x03FFFFFF)))"

definition decode_mips_conditional_branch_target :: "u32 \<Rightarrow> u32 \<Rightarrow> u32 option" where
  "decode_mips_conditional_branch_target instr pc =
     (let opcode = opcode_of instr;
          is_conditional_branch =
            (if opcode = 0x01 then
               let rt = drop_bit 16 instr AND 0x1F
               in rt = 0x00 \<or> rt = 0x01 \<or> rt = 0x02 \<or> rt = 0x03 \<or> rt = 0x10 \<or> rt = 0x11 \<or> rt = 0x12 \<or> rt = 0x13
             else if (opcode \<ge> 0x04 \<and> opcode \<le> 0x07) \<or> (opcode \<ge> 0x14 \<and> opcode \<le> 0x17) then True
             else if opcode = 0x11 then drop_bit 21 instr AND 0x1F = 0x08
             else False)
      in if \<not> is_conditional_branch then None
         else Some (pc + 4 + push_bit 2 (scast (ucast (instr AND 0xFFFF) :: u16))))"

text \<open>The two copies of the branch decoder agree.\<close>

lemma decode_mips_conditional_branch_target_eq: "decode_mips_conditional_branch_target = decode_conditional_branch_target"
  by (simp add: fun_eq_iff decode_mips_conditional_branch_target_def decode_conditional_branch_target_def opcode_of_def)

definition decode_fragment_link_vram :: "bytes \<Rightarrow> u32 option outcome" where
  "decode_fragment_link_vram bs =
     (if length bs < 0x20 then Done None
      else and_then (blob_word bs 4) (\<lambda>second.
      if second \<noteq> 0 then Done None
      else and_then (matches_at bs 0x08 fragment_magic) (\<lambda>magic.
      if \<not> magic then Done None
      else case decode_fragment_j_target bs of
        None \<Rightarrow> Done None
      | Some j_target \<Rightarrow> and_then (blob_word bs 0x10) (\<lambda>entry_offset.
          if entry_offset AND 3 \<noteq> 0 then Done None
          else let rounded_link_vram = j_target AND 0xFFF00000
               in Done (Some (if j_target - rounded_link_vram = entry_offset then j_target - entry_offset else rounded_link_vram))))))"

record raw_fragment_info =
  rf_link_vram :: u32
  rf_j_target :: u32
  rf_reloc_offset :: u32
  rf_blob_size :: u32

text \<open>The sizes are \<open>uint64_t\<close> and do not wrap; the base pointer reads are relative to the fragment.\<close>

definition raw_blob_size :: "u32 \<Rightarrow> u32 \<Rightarrow> u32 \<Rightarrow> u32 \<Rightarrow> nat" where
  "raw_blob_size reloc_offset file_size_hint size_in_ram n_relocs =
     (let reloc_table_end = unat reloc_offset + 4 + 4 * unat n_relocs;
          blob_size = max reloc_table_end (unat size_in_ram)
      in if reloc_table_end \<le> unat file_size_hint then max blob_size (unat file_size_hint) else blob_size)"

definition try_extract_raw_fragment :: "bytes \<Rightarrow> u32 \<Rightarrow> (bytes \<times> raw_fragment_info) outcome" where
  "try_extract_raw_fragment rom_bytes rom_offset =
     (if length rom_bytes < unat rom_offset + 0x20 then Fail
      else let base = drop (unat rom_offset) rom_bytes in
      case decode_fragment_j_target (take 4 base) of
        None \<Rightarrow> Fail
      | Some j_target \<Rightarrow>
      and_then (decode_fragment_link_vram (take 0x20 base)) (\<lambda>link.
      case link of
        None \<Rightarrow> Fail
      | Some link_vram \<Rightarrow>
      and_then (blob_word base 4) (\<lambda>second.
      if second \<noteq> 0 then Fail
      else and_then (matches_at base 0x08 fragment_magic) (\<lambda>magic.
      if \<not> magic then Fail
      else and_then (blob_word base 0x14) (\<lambda>reloc_offset.
      and_then (blob_word base 0x18) (\<lambda>file_size_hint.
      and_then (blob_word base 0x1C) (\<lambda>size_in_ram.
      if reloc_offset AND 3 \<noteq> 0 \<or> reloc_offset < 0x20 then Fail
      else if length rom_bytes < unat rom_offset + unat reloc_offset + 4 then Fail
      else and_then (blob_word base (unat reloc_offset)) (\<lambda>n_relocs.
      if 0x10000 < n_relocs then Fail
      else let blob_size = raw_blob_size reloc_offset file_size_hint size_in_ram n_relocs in
      if 0x400000 < blob_size \<or> length rom_bytes < unat rom_offset + blob_size then Fail
      else and_then (copy_from base 0 blob_size) (\<lambda>blob.
      Done (blob, \<lparr>rf_link_vram = link_vram, rf_j_target = j_target, rf_reloc_offset = reloc_offset,
                   rf_blob_size = of_nat blob_size\<rparr>))))))))))"

section \<open>The relocation table\<close>

definition translate_stadium_reloc_type :: "u8 \<Rightarrow> reloc_type" where
  "translate_stadium_reloc_type stadium_type =
     (if stadium_type = 2 then R_MIPS_32
      else if stadium_type = 4 then R_MIPS_26
      else if stadium_type = 5 then R_MIPS_HI16
      else if stadium_type = 6 then R_MIPS_LO16
      else R_MIPS_NONE)"

record raw_reloc =
  rr_type :: reloc_type
  rr_section_offset :: u32
  rr_word :: u32

text \<open>The first pass; entries of unknown type or outside the body are skipped.\<close>

definition read_raw_reloc :: "bytes \<Rightarrow> u32 \<Rightarrow> u32 \<Rightarrow> nat \<Rightarrow> raw_reloc option outcome" where
  "read_raw_reloc bs reloc_offset size_in_ram i =
     and_then (blob_word bs (unat reloc_offset + 4 + unat (4 * word_of_nat i :: u32))) (\<lambda>entry.
       let stadium_type = ucast (drop_bit 24 entry AND 0x7F);
           section_offset = entry AND 0x00FFFFFF;
           type = translate_stadium_reloc_type stadium_type
       in if type = R_MIPS_NONE then Done None
          else if size_in_ram < section_offset + 4 then Done None
          else and_then (blob_word bs (unat section_offset)) (\<lambda>word.
            Done (Some \<lparr>rr_type = type, rr_section_offset = section_offset, rr_word = word\<rparr>)))"

fun read_raw_relocs :: "bytes \<Rightarrow> u32 \<Rightarrow> u32 \<Rightarrow> nat list \<Rightarrow> raw_reloc list outcome" where
  "read_raw_relocs bs reloc_offset size_in_ram [] = Done []"
| "read_raw_relocs bs reloc_offset size_in_ram (i # is) =
     and_then (read_raw_reloc bs reloc_offset size_in_ram i) (\<lambda>r.
     and_then (read_raw_relocs bs reloc_offset size_in_ram is) (\<lambda>rs.
     Done (case r of None \<Rightarrow> rs | Some raw \<Rightarrow> raw # rs)))"

definition combined_address :: "raw_reloc \<Rightarrow> raw_reloc \<Rightarrow> u32" where
  "combined_address hi lo =
     push_bit 16 (ucast (ucast (rr_word hi AND 0xFFFF) :: u16)) + scast (ucast (rr_word lo AND 0xFFFF) :: u16)"

text \<open>The LO16 entry behind an entry, the HI16 entry before one.\<close>

definition next_lo16 :: "raw_reloc list \<Rightarrow> nat \<Rightarrow> raw_reloc option" where
  "next_lo16 raw i = find (\<lambda>r. rr_type r = R_MIPS_LO16) (drop (i + 1) raw)"

definition previous_hi16 :: "raw_reloc list \<Rightarrow> nat \<Rightarrow> raw_reloc option" where
  "previous_hi16 raw i = find (\<lambda>r. rr_type r = R_MIPS_HI16) (rev (take i raw))"

definition reloc_target_offset :: "u32 \<Rightarrow> raw_reloc list \<Rightarrow> nat \<Rightarrow> u32" where
  "reloc_target_offset section_vram raw i =
     (let rr = raw ! i in
      if rr_type rr = R_MIPS_32 then rr_word rr - section_vram
      else if rr_type rr = R_MIPS_26 then
        ((section_vram AND 0xF0000000) OR push_bit 2 (rr_word rr AND 0x03FFFFFF)) - section_vram
      else if rr_type rr = R_MIPS_HI16 then
        (case next_lo16 raw i of None \<Rightarrow> 0 | Some lo \<Rightarrow> combined_address rr lo - section_vram)
      else if rr_type rr = R_MIPS_LO16 then
        (case previous_hi16 raw i of None \<Rightarrow> 0 | Some hi \<Rightarrow> combined_address hi rr - section_vram)
      else 0)"

definition make_reloc :: "u32 \<Rightarrow> u16 \<Rightarrow> raw_reloc list \<Rightarrow> nat \<Rightarrow> reloc" where
  "make_reloc section_vram section_index raw i =
     \<lparr>rel_address = section_vram + rr_section_offset (raw ! i),
      rel_target_section_offset = reloc_target_offset section_vram raw i,
      rel_symbol_index = -1, rel_target_section = section_index,
      rel_type = rr_type (raw ! i), rel_reference_symbol = False\<rparr>"

text \<open>\<open>std::sort\<close> is not stable; the order of entries at the same address is that of the table here.\<close>

definition parse_fragment_relocs :: "bytes \<Rightarrow> u32 \<Rightarrow> u16 \<Rightarrow> section_info \<Rightarrow> section_info outcome" where
  "parse_fragment_relocs bs section_vram section_index section_out =
     (if length bs < 0x20 then Fail
      else and_then (matches_at bs 0x08 fragment_magic) (\<lambda>magic.
      if \<not> magic then Fail
      else and_then (blob_word bs 0x14) (\<lambda>reloc_offset.
      and_then (blob_word bs 0x1C) (\<lambda>size_in_ram.
      if length bs < unat reloc_offset \<or> length bs < unat size_in_ram then Fail
      else if length bs < unat (reloc_offset + 4) then Fail
      else and_then (blob_word bs (unat reloc_offset)) (\<lambda>n_relocs.
      if length bs < unat (reloc_offset + 4) + 4 * unat n_relocs then Fail
      else and_then (read_raw_relocs bs reloc_offset size_in_ram [0 ..< unat n_relocs]) (\<lambda>raw.
      let relocs = map (make_reloc section_vram section_index raw) [0 ..< length raw]
      in Done (section_out\<lparr>sec_relocs := sort_key rel_address (sec_relocs section_out @ relocs),
           sec_has_mips32_relocs := sec_has_mips32_relocs section_out \<or> (\<exists>r \<in> set raw. rr_type r = R_MIPS_32)\<rparr>)))))))"

section \<open>Targets in other sections\<close>

definition section_holds :: "u32 \<Rightarrow> section_info \<Rightarrow> bool" where
  "section_holds addr candidate \<longleftrightarrow>
     sec_size candidate \<noteq> 0 \<and> sec_ram_addr candidate \<le> addr \<and> addr < sec_ram_addr candidate + sec_size candidate"

definition retarget :: "section_info list \<Rightarrow> section_info \<Rightarrow> reloc \<Rightarrow> reloc" where
  "retarget secs sec r =
     (if rel_type r \<noteq> R_MIPS_32 then r
      else let target_addr = sec_ram_addr sec + rel_target_section_offset r in
        case find (\<lambda>(ti, candidate). section_holds target_addr candidate) (zip [0 ..< length secs] secs) of
          None \<Rightarrow> r
        | Some (ti, candidate) \<Rightarrow>
            r\<lparr>rel_target_section := of_nat ti, rel_target_section_offset := target_addr - sec_ram_addr candidate\<rparr>)"

definition resolve_cross_section_targets :: "recompiler_context \<Rightarrow> u16 \<Rightarrow> recompiler_context" where
  "resolve_cross_section_targets ctx first_added_index =
     (let secs = sections ctx in
      ctx\<lparr>sections := map (\<lambda>(si, sec). if unat first_added_index \<le> si
            then sec\<lparr>sec_relocs := map (retarget secs sec) (sec_relocs sec)\<rparr> else sec) (zip [0 ..< length secs] secs)\<rparr>)"

section \<open>Reading\<close>

lemma and_then_Undef: "and_then r f = Undef \<longleftrightarrow> r = Undef \<or> (\<exists>x. r = Done x \<and> f x = Undef)"
  by (cases r) simp_all

lemma and_then_Fail: "and_then r f = Fail \<longleftrightarrow> r = Fail \<or> (\<exists>x. r = Done x \<and> f x = Fail)"
  by (cases r) simp_all

lemma blob_word_iff:
  "blob_word p i = Done w \<longleftrightarrow> read_be_u32 p i = Some w" "blob_word p i = Undef \<longleftrightarrow> length p < i + 4" "blob_word p i \<noteq> Fail"
  by (auto simp: blob_word_def or_undef_def checked_reads(3) [symmetric] split: option.splits)

lemma matches_at_iff:
  "matches_at p i m = Done b \<longleftrightarrow> i + length m \<le> length p \<and> b = (slice p i (length m) = m)"
  "matches_at p i m = Undef \<longleftrightarrow> length p < i + length m" "matches_at p i m \<noteq> Fail"
  by (auto simp: matches_at_def)

lemma copy_from_iff:
  "copy_from p i n = Done bs \<longleftrightarrow> i + n \<le> length p \<and> bs = slice p i n" "copy_from p i n = Undef \<longleftrightarrow> length p < i + n"
  "copy_from p i n \<noteq> Fail"
  by (auto simp: copy_from_def)

lemmas fragment_reads = blob_word_iff matches_at_iff copy_from_iff and_then_Undef and_then_Fail and_then_Done

lemma length_fragment_magic [simp]: "length fragment_magic = 8"
  by (simp add: fragment_magic_def ascii_def)

lemma read_be_u32_drop: "read_be_u32 (drop off p) i = read_be_u32 p (off + i)"
  by (auto simp: read_be_u32_def add.assoc)

lemma read_be_u32_take: "i + 4 \<le> n \<Longrightarrow> read_be_u32 (take n p) i = read_be_u32 p i"
  by (auto simp: read_be_u32_def)

lemma slice_take: "i + n \<le> m \<Longrightarrow> slice (take m p) i n = slice p i n"
  by (simp add: slice_def drop_take min_def)

end
