(* ===== verification/Fragment_Entries.thy ===== *)
theory Fragment_Entries
  imports Fragments
begin

text \<open>
  Which places of a decompressed fragment are taken for function entries: the predicates \<open>add_decompressed_section\<close>
  (\<open>src/decompressed.cpp\<close>) defines as lambdas before it emits functions.

  \<^item> A \<open>fragment\<close> is what the lambdas capture and never change: the bytes, \<open>reloc_offset\<close> (the size of the body), the
    address the bytes are encoded for, the synthetic ROM address, the index and the relocations of the section. Decoding
    (\<open>rabbitizer::InstructionCpu\<close>) and its \<open>doesLink\<close> are parameters.
  \<^item> Offsets that come from the relocations or from jumps are \<open>uint32_t\<close> and their tests wrap; offsets the code steps
    through are below \<open>reloc_offset\<close>, which the allocator keeps under 32 MB, and are natural numbers.
  \<^item> A predicate is \<open>Done b\<close>, or \<open>Undef\<close> when it reads outside the bytes.
\<close>

section \<open>The fragment\<close>

record fragment =
  fr_blob :: bytes
  fr_size :: u32
  fr_vram :: u32
  fr_rom :: u32
  fr_index :: u16
  fr_relocs :: "reloc list"
  fr_decode :: decoder
  fr_links :: "u32 \<Rightarrow> u32 \<Rightarrow> bool"

definition fword :: "fragment \<Rightarrow> nat \<Rightarrow> u32 outcome" where
  "fword fr off = blob_word (fr_blob fr) off"

definition vram_at :: "fragment \<Rightarrow> nat \<Rightarrow> u32" where
  "vram_at fr off = fr_vram fr + word_of_nat off"

definition instr_at :: "fragment \<Rightarrow> u32 \<Rightarrow> nat \<Rightarrow> instruction" where
  "instr_at fr word off = fr_decode fr word (vram_at fr off)"

text \<open>\<open>isValid() && doesLink()\<close>.\<close>

definition links_at :: "fragment \<Rightarrow> u32 \<Rightarrow> nat \<Rightarrow> bool" where
  "links_at fr word off \<longleftrightarrow> in_is_valid (instr_at fr word off) \<and> fr_links fr word (vram_at fr off)"

text \<open>\<open>!isValid() || doesLink()\<close>, and the same with \<open>|| isBranch()\<close>.\<close>

definition bad_or_links :: "fragment \<Rightarrow> u32 \<Rightarrow> nat \<Rightarrow> bool" where
  "bad_or_links fr word off \<longleftrightarrow> \<not> in_is_valid (instr_at fr word off) \<or> fr_links fr word (vram_at fr off)"

definition bad_first :: "fragment \<Rightarrow> u32 \<Rightarrow> nat \<Rightarrow> bool" where
  "bad_first fr word off \<longleftrightarrow> bad_or_links fr word off \<or> in_is_branch (instr_at fr word off)"

definition bounds_at :: "fragment \<Rightarrow> u32 \<Rightarrow> nat option" where
  "bounds_at fr entry_offset =
     (case discover_function_bounds (fr_decode fr) (take (unat (fr_size fr)) (fr_blob fr)) (fr_vram fr) entry_offset of
        Refused e \<Rightarrow> None | Accepted func_size \<Rightarrow> Some func_size)"

text \<open>The offsets \<open>from, from + 4, \<dots>\<close> below a limit.\<close>

definition word_offsets :: "nat \<Rightarrow> nat \<Rightarrow> nat list" where
  "word_offsets from limit = map (\<lambda>k. from + 4 * k) [0 ..< (limit - from + 3) div 4]"

lemma set_word_offsets: "off \<in> set (word_offsets from limit) \<longleftrightarrow> from \<le> off \<and> off < limit \<and> (off - from) mod 4 = 0"
proof
  assume "off \<in> set (word_offsets from limit)"
  then obtain k where "off = from + 4 * k" "k < (limit - from + 3) div 4" by (auto simp: word_offsets_def)
  then show "from \<le> off \<and> off < limit \<and> (off - from) mod 4 = 0" by auto
next
  assume a: "from \<le> off \<and> off < limit \<and> (off - from) mod 4 = 0"
  then have "off = from + 4 * ((off - from) div 4)" by (metis le_add_diff_inverse mult_div_mod_eq add.right_neutral)
  moreover have "(off - from) div 4 < (limit - from + 3) div 4" using a by arith
  ultimately show "off \<in> set (word_offsets from limit)" unfolding word_offsets_def
    by (intro image_eqI [of _ _ "(off - from) div 4"] | simp)+
qed

text \<open>Loops that stop with an answer.\<close>

fun every :: "('a \<Rightarrow> bool outcome) \<Rightarrow> 'a list \<Rightarrow> bool outcome" where
  "every P [] = Done True"
| "every P (x # xs) = and_then (P x) (\<lambda>b. if b then every P xs else Done False)"

fun any :: "('a \<Rightarrow> bool outcome) \<Rightarrow> 'a list \<Rightarrow> bool outcome" where
  "any P [] = Done False"
| "any P (x # xs) = and_then (P x) (\<lambda>b. if b then Done True else any P xs)"

section \<open>Entries of functions\<close>

definition JR_RA :: u32 where
  "JR_RA = 0x03E00008"

text \<open>\<open>addiu $sp, $sp, -n\<close>.\<close>

definition frame_prologue :: "u32 \<Rightarrow> bool" where
  "frame_prologue word \<longleftrightarrow> word AND 0xFFFF0000 = 0x27BD0000 \<and> word AND 0x8000 \<noteq> 0"

definition is_stack_store :: "u32 \<Rightarrow> bool" where
  "is_stack_store insn \<longleftrightarrow> drop_bit 21 insn AND 0x1F = 29 \<and> opcode_of insn \<in> {0x28, 0x29, 0x2B, 0x39, 0x3D}"

definition stack_leaf_step :: "fragment \<Rightarrow> nat \<Rightarrow> nat \<Rightarrow> bool outcome" where
  "stack_leaf_step fr func_end cur =
     and_then (fword fr cur) (\<lambda>cur_word.
       Done (\<not> bad_or_links fr cur_word cur \<and> \<not> (cur + 8 < func_end \<and> in_is_branch (instr_at fr cur_word cur))))"

definition MAX_STACK_STORE_LEAF_SIZE :: nat where
  "MAX_STACK_STORE_LEAF_SIZE = 0x40"

definition stack_store_leaf :: "fragment \<Rightarrow> u32 \<Rightarrow> u32 \<Rightarrow> bool outcome" where
  "stack_store_leaf fr offset word =
     (if \<not> is_stack_store word then Done False
      else if bad_first fr word (unat offset) then Done False
      else case bounds_at fr offset of
        None \<Rightarrow> Done False
      | Some func_size \<Rightarrow>
          let func_end = unat offset + func_size
          in if func_size < 8 \<or> MAX_STACK_STORE_LEAF_SIZE < func_size \<or> func_size mod 4 \<noteq> 0 \<or> unat (fr_size fr) < func_end
             then Done False
             else and_then (fword fr (func_end - 8)) (\<lambda>last_word.
               if last_word \<noteq> JR_RA then Done False
               else every (stack_leaf_step fr func_end) (word_offsets (unat offset) (func_end - 4))))"

definition looks_like_function_entry :: "fragment \<Rightarrow> u32 \<Rightarrow> bool outcome" where
  "looks_like_function_entry fr offset =
     (if offset AND 3 \<noteq> 0 \<or> fr_size fr < offset + 4 then Done False
      else and_then (fword fr (unat offset)) (\<lambda>word.
        if frame_prologue word then Done True
        else if word = JR_RA then Done True
        else stack_store_leaf fr offset word))"

section \<open>Gaps: what the relocations say\<close>

definition looks_like_gap_function_entry :: "fragment \<Rightarrow> nat \<Rightarrow> bool outcome" where
  "looks_like_gap_function_entry fr offset =
     (if offset mod 4 \<noteq> 0 \<or> unat (fr_size fr) < offset + 4 then Done False
      else and_then (fword fr offset) (\<lambda>word. Done (frame_prologue word)))"

text \<open>The offset of a relocation in the section, when it is not below its start.\<close>

definition reloc_site :: "fragment \<Rightarrow> reloc \<Rightarrow> nat option" where
  "reloc_site fr r = (if rel_address r < fr_vram fr then None else Some (unat (rel_address r - fr_vram fr)))"

definition has_reloc_site_in_range :: "fragment \<Rightarrow> nat \<Rightarrow> nat \<Rightarrow> bool" where
  "has_reloc_site_in_range fr from limit \<longleftrightarrow>
     list_ex (\<lambda>r. case reloc_site fr r of None \<Rightarrow> False | Some site \<Rightarrow> from \<le> site \<and> site < limit) (fr_relocs fr)"

definition has_leaf_entry_reloc_site_at :: "fragment \<Rightarrow> nat \<Rightarrow> bool" where
  "has_leaf_entry_reloc_site_at fr offset \<longleftrightarrow>
     list_ex (\<lambda>r. reloc_site fr r = Some offset \<and> rel_type r \<in> {R_MIPS_HI16, R_MIPS_32, R_MIPS_GPREL16}) (fr_relocs fr)"

definition has_self_pointer_reloc_target_at :: "fragment \<Rightarrow> nat \<Rightarrow> bool" where
  "has_self_pointer_reloc_target_at fr offset \<longleftrightarrow>
     list_ex (\<lambda>r. rel_target_section r = fr_index fr \<and> unat (rel_target_section_offset r) = offset \<and> rel_type r = R_MIPS_32)
       (fr_relocs fr)"

definition has_link_instruction_in_range :: "fragment \<Rightarrow> nat \<Rightarrow> nat \<Rightarrow> bool outcome" where
  "has_link_instruction_in_range fr from limit =
     any (\<lambda>offset. and_then (fword fr offset) (\<lambda>word. Done (links_at fr word offset))) (word_offsets from (limit - 3))"

section \<open>Gaps: bounded leaves\<close>

record leaf_state =
  lf_visited :: "nat set"
  lf_worklist :: "nat list"
  lf_max :: nat
  lf_return :: bool

definition leaf_visit :: "nat \<Rightarrow> leaf_state \<Rightarrow> leaf_state" where
  "leaf_visit off st = st\<lparr>lf_visited := insert off (lf_visited st), lf_max := max (lf_max st) off\<rparr>"

text \<open>The two lambdas; \<open>Fail\<close> is \<open>return false\<close>, of the whole search.\<close>

definition mark_delay :: "nat \<Rightarrow> nat \<Rightarrow> leaf_state \<Rightarrow> leaf_state outcome" where
  "mark_delay gap_end delay st = (if gap_end < delay + 4 then Fail else Done (leaf_visit delay st))"

definition enqueue_local_target :: "fragment \<Rightarrow> nat \<Rightarrow> nat \<Rightarrow> u32 \<Rightarrow> leaf_state \<Rightarrow> leaf_state outcome" where
  "enqueue_local_target fr offset gap_end target_vram st =
     (if target_vram < vram_at fr offset \<or> vram_at fr gap_end \<le> target_vram then Fail
      else let target_offset = target_vram - fr_vram fr
        in if target_offset AND 3 \<noteq> 0 then Fail
           else if unat target_offset \<in> lf_visited st then Done st
           else Done (st\<lparr>lf_worklist := unat target_offset # lf_worklist st\<rparr>))"

text \<open>One instruction: where to go on, or nowhere.\<close>

definition leaf_step :: "fragment \<Rightarrow> nat \<Rightarrow> nat \<Rightarrow> nat \<Rightarrow> leaf_state \<Rightarrow> (nat option \<times> leaf_state) outcome" where
  "leaf_step fr offset gap_end cursor st =
     and_then (fword fr cursor) (\<lambda>word.
     if word = 0xFFFFFFFF then Fail
     else if bad_or_links fr word cursor then Fail
     else if word = JR_RA then
       and_then (mark_delay gap_end (cursor + 4) st) (\<lambda>st1. Done (None, st1\<lparr>lf_return := True\<rparr>))
     else if opcode_of word = 0x00 \<and> (word AND 0x3F = 0x08 \<or> word AND 0x3F = 0x09) then Fail
     else if opcode_of word = 0x02 then
       (case decode_mips_jump_target word (vram_at fr (cursor + 4)) of
          None \<Rightarrow> Fail
        | Some target_vram \<Rightarrow>
            and_then (mark_delay gap_end (cursor + 4) st) (\<lambda>st1.
            and_then (enqueue_local_target fr offset gap_end target_vram st1) (\<lambda>st2. Done (None, st2))))
     else case decode_mips_conditional_branch_target word (vram_at fr cursor) of
       Some target_vram \<Rightarrow>
         and_then (mark_delay gap_end (cursor + 4) st) (\<lambda>st1.
         and_then (enqueue_local_target fr offset gap_end target_vram st1) (\<lambda>st2. Done (Some (cursor + 8), st2)))
     | None \<Rightarrow> Done (Some (cursor + 4), st))"

text \<open>The visited offsets grow, so the search ends.\<close>

lemma mark_delay_visited: "mark_delay gap_end d st = Done st' \<Longrightarrow> lf_visited st' = insert d (lf_visited st)"
  by (auto simp: mark_delay_def leaf_visit_def split: if_splits)

lemma enqueue_visited: "enqueue_local_target fr offset gap_end t st = Done st' \<Longrightarrow> lf_visited st' = lf_visited st"
  by (auto simp: enqueue_local_target_def Let_def split: if_splits)

lemma leaf_step_visited:
  "leaf_step fr offset gap_end cursor st = Done (c, st') \<Longrightarrow> lf_visited st \<subseteq> lf_visited st'"
  by (auto simp: leaf_step_def and_then_Done split: if_splits option.splits dest!: mark_delay_visited enqueue_visited)

lemma leaf_visit_visited [simp]: "lf_visited (leaf_visit off st) = insert off (lf_visited st)"
  by (simp add: leaf_visit_def)

definition leaf_unvisited :: "nat \<Rightarrow> leaf_state \<Rightarrow> nat" where
  "leaf_unvisited gap_end st = card ({..<gap_end} - lf_visited st)"

lemma leaf_unvisited_less:
  "cursor < gap_end \<Longrightarrow> cursor \<notin> lf_visited st \<Longrightarrow> insert cursor (lf_visited st) \<subseteq> lf_visited st' \<Longrightarrow>
   leaf_unvisited gap_end st' < leaf_unvisited gap_end st"
  unfolding leaf_unvisited_def by (intro psubset_card_mono) auto

lemma and_then_cong [fundef_cong]:
  "r = s \<Longrightarrow> (\<And>x. s = Done x \<Longrightarrow> f x = g x) \<Longrightarrow> and_then r f = and_then s g"
  by (cases s) simp_all

text \<open>The instructions from one worklist entry on.\<close>

function leaf_scan :: "fragment \<Rightarrow> nat \<Rightarrow> nat \<Rightarrow> nat \<Rightarrow> leaf_state \<Rightarrow> leaf_state outcome" where
  "leaf_scan fr offset gap_end cursor st =
     (if cursor + 4 \<le> gap_end \<and> cursor \<notin> lf_visited st then
        and_then (leaf_step fr offset gap_end cursor (leaf_visit cursor st)) (\<lambda>(nxt, st').
          case nxt of None \<Rightarrow> Done st' | Some c \<Rightarrow> leaf_scan fr offset gap_end c st')
      else Done st)"
  by pat_completeness auto
termination
  by (relation "measure (\<lambda>(fr, offset, gap_end, cursor, st). leaf_unvisited gap_end st)")
     (auto dest!: leaf_step_visited intro!: leaf_unvisited_less)

declare leaf_scan.simps [simp del]

lemma leaf_scan_grows:
  "leaf_scan fr offset gap_end cursor st = Done st' \<Longrightarrow> lf_visited st \<subseteq> lf_visited st' \<and>
   (cursor + 4 \<le> gap_end \<longrightarrow> cursor \<in> lf_visited st') \<and> (gap_end < cursor + 4 \<longrightarrow> st' = st)"
proof (induction fr offset gap_end cursor st arbitrary: st' rule: leaf_scan.induct)
  case (1 fr offset gap_end cursor st)
  show ?case
  proof (cases "cursor + 4 \<le> gap_end \<and> cursor \<notin> lf_visited st")
    case True
    then obtain nxt st1 where s: "leaf_step fr offset gap_end cursor (leaf_visit cursor st) = Done (nxt, st1)"
      and r: "(case nxt of None \<Rightarrow> Done st1 | Some c \<Rightarrow> leaf_scan fr offset gap_end c st1) = Done st'"
      using "1.prems" by (auto simp: leaf_scan.simps [of _ _ _ cursor] and_then_Done)
    note v = leaf_step_visited [OF s]
    show ?thesis
    proof (cases nxt)
      case None
      then show ?thesis using r v True by auto
    next
      case (Some c)
      then show ?thesis using "1.IH" [OF True s refl Some, of st'] r v True by auto
    qed
  next
    case False
    then show ?thesis using "1.prems" by (auto simp: leaf_scan.simps [of _ _ _ cursor])
  qed
qed

function leaf_walk :: "fragment \<Rightarrow> nat \<Rightarrow> nat \<Rightarrow> leaf_state \<Rightarrow> leaf_state outcome" where
  "leaf_walk fr offset gap_end st =
     (case lf_worklist st of
        [] \<Rightarrow> Done st
      | cursor # rest \<Rightarrow>
          if cursor \<in> lf_visited st then leaf_walk fr offset gap_end (st\<lparr>lf_worklist := rest\<rparr>)
          else and_then (leaf_scan fr offset gap_end cursor (st\<lparr>lf_worklist := rest\<rparr>)) (leaf_walk fr offset gap_end))"
  by pat_completeness auto
termination
proof (relation "measures [\<lambda>(fr, offset, gap_end, st). leaf_unvisited gap_end st, \<lambda>(fr, offset, gap_end, st). length (lf_worklist st)]")
  fix fr offset gap_end st cursor rest st1
  assume w: "lf_worklist st = cursor # rest" and n: "cursor \<notin> lf_visited st"
    and s: "leaf_scan fr offset gap_end cursor (st\<lparr>lf_worklist := rest\<rparr>) = Done st1"
  note g = leaf_scan_grows [OF s]
  show "((fr, offset, gap_end, st1), fr, offset, gap_end, st)
      \<in> measures [\<lambda>(fr, offset, gap_end, st). leaf_unvisited gap_end st, \<lambda>(fr, offset, gap_end, st). length (lf_worklist st)]"
  proof (cases "cursor + 4 \<le> gap_end")
    case True
    then have "leaf_unvisited gap_end st1 < leaf_unvisited gap_end st" using g n by (intro leaf_unvisited_less [of cursor]) auto
    then show ?thesis by simp
  next
    case False
    then show ?thesis using g w by (simp add: leaf_unvisited_def)
  qed
qed (auto simp: leaf_unvisited_def)

declare leaf_walk.simps [simp del]

text \<open>A refused search is an answer of the caller, not a failure.\<close>

fun attempt :: "'a outcome \<Rightarrow> 'a option outcome" where
  "attempt (Done x) = Done (Some x)"
| "attempt Fail = Done None"
| "attempt Undef = Undef"

text \<open>The size found, if any.\<close>

definition discover_bounded_no_link_leaf :: "fragment \<Rightarrow> nat \<Rightarrow> nat \<Rightarrow> nat option outcome" where
  "discover_bounded_no_link_leaf fr offset gap_end =
     (if unat (fr_size fr) < gap_end \<or> gap_end \<le> offset \<or> offset mod 4 \<noteq> 0 \<or> gap_end mod 4 \<noteq> 0 then Done None
      else attempt (and_then (leaf_walk fr offset gap_end
               \<lparr>lf_visited = {}, lf_worklist = [offset], lf_max = offset, lf_return = False\<rparr>) (\<lambda>st.
             let func_end = lf_max st + 4
             in if \<not> lf_return st then Fail
                else if gap_end < func_end \<or> func_end \<le> offset then Fail
                else Done (func_end - offset))))"

definition IMPL_OFFSET :: nat where
  "IMPL_OFFSET = 0x20"

definition MAX_LEAF_GAP_FUNCTION_SIZE :: nat where
  "MAX_LEAF_GAP_FUNCTION_SIZE = 0x100"

definition starts_stack_frame_at :: "fragment \<Rightarrow> nat \<Rightarrow> bool outcome" where
  "starts_stack_frame_at fr start =
     (if unat (fr_size fr) < start + 4 then Done False
      else and_then (fword fr start) (\<lambda>word. Done (frame_prologue word)))"

text \<open>Leaves one behind the other up to a stack frame; the first argument counts the 16 rounds.\<close>

fun valid_adjacent_leaf_chain_to_frame :: "nat \<Rightarrow> fragment \<Rightarrow> nat \<Rightarrow> nat \<Rightarrow> bool outcome" where
  "valid_adjacent_leaf_chain_to_frame 0 fr gap_end cursor = Done False"
| "valid_adjacent_leaf_chain_to_frame (Suc n) fr gap_end cursor =
     (if cursor = gap_end then starts_stack_frame_at fr gap_end
      else if gap_end < cursor \<or> gap_end < cursor + 8 then Done False
      else and_then (fword fr cursor) (\<lambda>chain_first_word.
      if chain_first_word = 0 \<or> chain_first_word = 0xFFFFFFFF then Done False
      else if bad_first fr chain_first_word cursor then Done False
      else and_then (discover_bounded_no_link_leaf fr cursor gap_end) (\<lambda>leaf.
      case leaf of
        None \<Rightarrow> Done False
      | Some leaf_size \<Rightarrow>
          let leaf_end = cursor + leaf_size
          in if leaf_size < 8 \<or> MAX_LEAF_GAP_FUNCTION_SIZE < leaf_size \<or> leaf_size mod 4 \<noteq> 0 \<or> gap_end < leaf_end then Done False
             else and_then (fword fr (leaf_end - 8)) (\<lambda>last_word.
               if last_word \<noteq> JR_RA then Done False
               else valid_adjacent_leaf_chain_to_frame n fr gap_end leaf_end))))"

text \<open>The checks behind the size: how the leaf ends, and what makes it credible.\<close>

definition leaf_gap_end_ok :: "fragment \<Rightarrow> nat \<Rightarrow> nat \<Rightarrow> bool \<Rightarrow> bool \<Rightarrow> nat \<Rightarrow> bool outcome" where
  "leaf_gap_end_ok fr offset gap_end initial chain func_end =
     and_then (if initial \<and> func_end < gap_end
               then and_then (fword fr func_end) (\<lambda>next_word. Done (next_word = JR_RA \<or> frame_prologue next_word))
               else Done True) (\<lambda>next_ok.
     if \<not> next_ok then Done False
     else and_then (fword fr (func_end - 8)) (\<lambda>last_word.
     if last_word \<noteq> JR_RA then Done False
     else if \<not> has_reloc_site_in_range fr offset func_end \<and> \<not> chain then Done False
     else and_then (has_link_instruction_in_range fr offset func_end) (\<lambda>link. Done (\<not> link))))"

definition looks_like_leaf_gap_function_entry :: "fragment \<Rightarrow> nat \<Rightarrow> nat \<Rightarrow> nat \<Rightarrow> nat option outcome" where
  "looks_like_leaf_gap_function_entry fr offset gap_begin gap_end =
     (let initial = (offset = IMPL_OFFSET);
          adjacent = (offset = gap_begin \<and> offset \<noteq> IMPL_OFFSET)
      in if offset mod 4 \<noteq> 0 \<or> gap_end < offset + 8 then Done None
      else if \<not> initial \<and> \<not> adjacent \<and> \<not> has_leaf_entry_reloc_site_at fr offset then Done None
      else and_then (fword fr offset) (\<lambda>first_word.
      if first_word = 0 \<or> first_word = 0xFFFFFFFF then Done None
      else if bad_first fr first_word offset then Done None
      else and_then (discover_bounded_no_link_leaf fr offset gap_end) (\<lambda>leaf.
      case leaf of
        None \<Rightarrow> Done None
      | Some func_size \<Rightarrow>
          let func_end = offset + func_size
          in if func_size < 8 \<or> MAX_LEAF_GAP_FUNCTION_SIZE < func_size \<or> func_size mod 4 \<noteq> 0 \<or> gap_end < func_end then Done None
          else and_then (if adjacent then valid_adjacent_leaf_chain_to_frame 16 fr gap_end offset else Done False) (\<lambda>chain.
          if \<not> initial \<and> \<not> chain \<and> func_end \<noteq> gap_end then Done None
          else and_then (leaf_gap_end_ok fr offset gap_end initial chain func_end) (\<lambda>ok.
          Done (if ok then Some func_size else None))))))"

section \<open>Gaps: preambles that fall into a function\<close>

definition MAX_FALLTHROUGH_PREAMBLE_SIZE :: nat where
  "MAX_FALLTHROUGH_PREAMBLE_SIZE = 0x80"

definition MAX_FALLTHROUGH_FUNCTION_SIZE :: nat where
  "MAX_FALLTHROUGH_FUNCTION_SIZE = 0x800"

definition preamble_step :: "fragment \<Rightarrow> nat \<Rightarrow> bool outcome" where
  "preamble_step fr cur =
     and_then (fword fr cur) (\<lambda>word. Done (word \<noteq> 0 \<and> word \<noteq> 0xFFFFFFFF \<and> \<not> bad_first fr word cur))"

definition looks_like_fallthrough_gap_function_entry :: "fragment \<Rightarrow> nat \<Rightarrow> nat \<Rightarrow> nat \<Rightarrow> bool outcome" where
  "looks_like_fallthrough_gap_function_entry fr offset gap_end overlap_end =
     (if offset mod 4 \<noteq> 0 \<or> gap_end < offset + 4 \<or> overlap_end \<le> gap_end \<or> unat (fr_size fr) < gap_end + 4 \<or>
         (\<not> has_leaf_entry_reloc_site_at fr offset \<and> \<not> has_self_pointer_reloc_target_at fr offset) \<or>
         MAX_FALLTHROUGH_PREAMBLE_SIZE < gap_end - offset then Done False
      else and_then (fword fr gap_end) (\<lambda>next_word.
      if \<not> frame_prologue next_word then Done False
      else and_then (every (preamble_step fr) (word_offsets offset (gap_end - 3))) (\<lambda>straight.
      if \<not> straight then Done False
      else case bounds_at fr (word_of_nat offset) of
        None \<Rightarrow> Done False
      | Some func_size \<Rightarrow>
          let func_end = offset + func_size
          in if func_size < 8 \<or> MAX_FALLTHROUGH_FUNCTION_SIZE < func_size \<or> func_size mod 4 \<noteq> 0 \<or>
                func_end \<le> gap_end \<or> overlap_end < func_end then Done False
             else and_then (fword fr (func_end - 8)) (\<lambda>last_word. Done (last_word = JR_RA)))))"

section \<open>Continuations behind calls\<close>

definition MAX_CONTINUATION_PARENT_SIZE :: nat where
  "MAX_CONTINUATION_PARENT_SIZE = 0x800"

definition MAX_LARGE_PARENT_CONTINUATION_SIZE :: nat where
  "MAX_LARGE_PARENT_CONTINUATION_SIZE = 0x800"

definition MIN_SUFFIX_LINKS :: nat where
  "MIN_SUFFIX_LINKS = 1"

definition is_stack_load_ra :: "u32 \<Rightarrow> bool" where
  "is_stack_load_ra insn \<longleftrightarrow> opcode_of insn = 0x23 \<and> drop_bit 21 insn AND 0x1F = 29 \<and> drop_bit 16 insn AND 0x1F = 31"

definition is_jalr_instruction :: "u32 \<Rightarrow> bool" where
  "is_jalr_instruction insn \<longleftrightarrow> opcode_of insn = 0 \<and> insn AND 0x3F = 0x09"

text \<open>One step of the scan for branches back in front of the continuation.\<close>

definition pull_body_start :: "fragment \<Rightarrow> nat \<Rightarrow> nat \<Rightarrow> nat \<Rightarrow> u32 \<Rightarrow> nat \<Rightarrow> nat" where
  "pull_body_start fr entry_offset range_start scan scan_word body_start =
     (case decode_mips_conditional_branch_target scan_word (vram_at fr scan) of
        Some target_vram \<Rightarrow>
          if vram_at fr range_start \<le> target_vram \<and> target_vram < vram_at fr entry_offset \<and> (target_vram - fr_vram fr) AND 3 = 0
          then min body_start (unat (target_vram - fr_vram fr)) else body_start
      | None \<Rightarrow> body_start)"

fun scan_body_start :: "fragment \<Rightarrow> nat \<Rightarrow> nat \<Rightarrow> nat list \<Rightarrow> nat \<Rightarrow> nat outcome" where
  "scan_body_start fr entry_offset range_start [] body_start = Done body_start"
| "scan_body_start fr entry_offset range_start (scan # scans) body_start =
     and_then (fword fr scan) (\<lambda>scan_word.
     if \<not> in_is_valid (instr_at fr scan_word scan) then Done body_start
     else let body_start' = pull_body_start fr entry_offset range_start scan scan_word body_start
       in if scan_word = JR_RA then Done body_start'
          else if opcode_of scan_word = 0x02 then Done body_start'
          else scan_body_start fr entry_offset range_start scans body_start')"

definition find_dynamic_continuation_body_start :: "fragment \<Rightarrow> nat \<Rightarrow> nat \<Rightarrow> nat \<Rightarrow> nat outcome" where
  "find_dynamic_continuation_body_start fr entry_offset range_start range_end =
     scan_body_start fr entry_offset range_start
       (word_offsets entry_offset (min range_end (entry_offset + MAX_LARGE_PARENT_CONTINUATION_SIZE) - 3)) entry_offset"

definition looks_like_large_parent_continuation :: "fragment \<Rightarrow> nat \<Rightarrow> nat \<Rightarrow> bool outcome" where
  "looks_like_large_parent_continuation fr offset range_end =
     (if offset mod 4 \<noteq> 0 \<or> range_end < offset + 8 then Done False
      else and_then (fword fr offset) (\<lambda>first_word.
      if \<not> in_is_valid (instr_at fr first_word offset) then Done False
      else if \<not> fr_links fr first_word (vram_at fr offset) \<and> \<not> in_is_branch (instr_at fr first_word offset) \<and>
              \<not> is_stack_load_ra first_word \<and> \<not> has_reloc_site_in_range fr offset (offset + 4) then Done False
      else case bounds_at fr (word_of_nat offset) of
        None \<Rightarrow> Done False
      | Some func_size \<Rightarrow>
          let func_end = offset + func_size
          in if func_size < 8 \<or> MAX_LARGE_PARENT_CONTINUATION_SIZE < func_size \<or> func_size mod 4 \<noteq> 0 \<or> range_end < func_end
             then Done False
             else and_then (fword fr (func_end - 8)) (\<lambda>last_word. Done (last_word = JR_RA))))"

end
