(* ===== verification/Fragment_Synthesis.thy ===== *)
theory Fragment_Synthesis
  imports Fragment_Entries "HOL-Library.Product_Lexorder"
begin

text \<open>
  The functions of a decompressed fragment: \<open>add_decompressed_section\<close> (\<open>src/decompressed.cpp\<close>) from the allocation of its
  bytes to the forced entries.

  \<^item> The state is what the lambdas of that function change: the context, \<open>function_index_by_offset\<close>, \<open>emitted_offsets\<close>,
    \<open>emitted_alias_offsets\<close> and \<open>emitted_ranges\<close>. The \<open>static\<close> counter \<open>next_synthetic_rom\<close> is passed in and out.
  \<^item> \<open>bool* added_out\<close> is the first component of the result. \<open>Fail\<close> is the hard failure, \<open>return size_t(-1)\<close>.
  \<^item> A \<open>std::set\<close> of offsets that is iterated over is its sorted list; one that is only searched is a set.
  \<^item> The code behind the block of seeds, under the comment about the function at \<open>+0x20\<close>, cannot be reached and is left out.
\<close>

section \<open>Adding functions\<close>

record synthesis =
  sy_ctx :: recompiler_context
  sy_index :: "u32 \<rightharpoonup> nat"
  sy_emitted :: "nat set"
  sy_aliases :: "nat set"
  sy_ranges :: "(nat \<times> nat) list"

definition push_vram :: "u32 \<Rightarrow> nat \<Rightarrow> (u32 \<rightharpoonup> nat list) \<Rightarrow> (u32 \<rightharpoonup> nat list)" where
  "push_vram v fi m = m(v \<mapsto> (case m v of None \<Rightarrow> [] | Some is \<Rightarrow> is) @ [fi])"

text \<open>What the two lambdas \<open>add_function\<close> do to the context.\<close>

definition add_section_function ::
    "u16 \<Rightarrow> u32 \<Rightarrow> u32 \<Rightarrow> u32 list \<Rightarrow> string \<Rightarrow> u32 \<Rightarrow> recompiler_context \<Rightarrow> recompiler_context outcome" where
  "add_section_function section_index f_vram f_rom ws name entry_vram ctx =
     (let fi = length (ctx_functions ctx); si = unat section_index
      in if si < length (section_functions ctx) \<and> si < length (sections ctx) then
           Done (ctx\<lparr>ctx_functions := ctx_functions ctx @
                       [make_function f_vram f_rom ws name section_index False False False entry_vram],
                     section_functions := (section_functions ctx)[si := section_functions ctx ! si @ [fi]],
                     sections := (sections ctx)[si := (sections ctx ! si)
                       \<lparr>sec_function_addrs := sec_function_addrs (sections ctx ! si) @ [f_vram]\<rparr>],
                     functions_by_vram :=
                       (if entry_vram \<noteq> 0 \<and> entry_vram \<noteq> f_vram then push_vram entry_vram fi else id)
                         (push_vram f_vram fi (functions_by_vram ctx)),
                     functions_by_name := assign name fi (functions_by_name ctx)\<rparr>)
         else Undef)"

definition add_function :: "fragment \<Rightarrow> u32 \<Rightarrow> u32 \<Rightarrow> u32 list \<Rightarrow> string \<Rightarrow> u32 \<Rightarrow> synthesis \<Rightarrow> synthesis outcome" where
  "add_function fr f_vram f_rom ws name entry_vram st =
     and_then (add_section_function (fr_index fr) f_vram f_rom ws name entry_vram (sy_ctx st)) (\<lambda>ctx.
     Done (st\<lparr>sy_ctx := ctx,
       sy_index := (if fr_vram fr \<le> f_vram \<and> f_vram < fr_vram fr + fr_size fr \<and> (f_vram - fr_vram fr) AND 3 = 0
         then (sy_index st)(f_vram - fr_vram fr \<mapsto> length (ctx_functions (sy_ctx st))) else sy_index st)\<rparr>))"

definition func_name :: "u32 \<Rightarrow> string" where
  "func_name v = ''func_'' @ fmt_08X v"

text \<open>The bytes of a function copied out and added; \<open>entry_vram\<close> is 0 for the default argument.\<close>

definition emit_function :: "fragment \<Rightarrow> nat \<Rightarrow> nat \<Rightarrow> nat \<Rightarrow> u32 \<Rightarrow> synthesis \<Rightarrow> synthesis outcome" where
  "emit_function fr entry_offset func_size named entry_vram st =
     and_then (copy_from (fr_blob fr) entry_offset func_size) (\<lambda>bs.
     and_then (add_function fr (vram_at fr entry_offset) (fr_rom fr + word_of_nat entry_offset) (le_words bs)
                 (func_name (vram_at fr named)) entry_vram st) (\<lambda>st'.
     Done (st'\<lparr>sy_emitted := insert entry_offset (sy_emitted st'),
               sy_ranges := sy_ranges st' @ [(entry_offset, entry_offset + func_size)]\<rparr>)))"

text \<open>\<open>max_end_offset\<close> 0 is no limit.\<close>

definition bad_extent :: "fragment \<Rightarrow> nat \<Rightarrow> nat \<Rightarrow> nat \<Rightarrow> bool" where
  "bad_extent fr entry_offset func_size max_end_offset \<longleftrightarrow>
     func_size = 0 \<or> unat (fr_size fr) < entry_offset + func_size \<or> func_size mod 4 \<noteq> 0 \<or>
     (max_end_offset \<noteq> 0 \<and> max_end_offset < entry_offset + func_size)"

definition soft_failure :: "bool \<Rightarrow> synthesis \<Rightarrow> (bool \<times> synthesis) outcome" where
  "soft_failure hard_failure st = (if hard_failure then Fail else Done (False, st))"

definition added :: "synthesis outcome \<Rightarrow> (bool \<times> synthesis) outcome" where
  "added r = and_then r (\<lambda>st. Done (True, st))"

definition discover_and_add_function ::
    "fragment \<Rightarrow> nat \<Rightarrow> nat \<Rightarrow> bool \<Rightarrow> synthesis \<Rightarrow> (bool \<times> synthesis) outcome" where
  "discover_and_add_function fr entry_offset max_end_offset hard_failure st =
     (if entry_offset \<in> sy_emitted st then Done (False, st)
      else case bounds_at fr (word_of_nat entry_offset) of
        None \<Rightarrow> soft_failure hard_failure st
      | Some func_size \<Rightarrow>
          if bad_extent fr entry_offset func_size max_end_offset then soft_failure hard_failure st
          else added (emit_function fr entry_offset func_size entry_offset 0 st))"

definition add_known_size_function ::
    "fragment \<Rightarrow> nat \<Rightarrow> nat \<Rightarrow> nat \<Rightarrow> nat \<Rightarrow> synthesis \<Rightarrow> (bool \<times> synthesis) outcome" where
  "add_known_size_function fr entry_offset func_size max_end_offset dispatch_entry_offset st =
     (let effective = (if dispatch_entry_offset \<noteq> 0 then dispatch_entry_offset else entry_offset)
      in if entry_offset \<in> sy_emitted st \<or> effective \<in> sy_emitted st then Done (False, st)
         else if bad_extent fr entry_offset func_size max_end_offset \<or> effective < entry_offset \<or>
                 entry_offset + func_size \<le> effective then Done (False, st)
         else added (and_then (emit_function fr entry_offset func_size effective (vram_at fr effective) st) (\<lambda>st'.
           Done (st'\<lparr>sy_emitted := insert effective (sy_emitted st')\<rparr>))))"

section \<open>Other entries into a function\<close>

text \<open>Whether an address lies strictly inside a function.\<close>

definition inside_function :: "u32 \<Rightarrow> recomp_function \<Rightarrow> bool" where
  "inside_function entry_vram f \<longleftrightarrow>
     \<not> (entry_vram \<le> fn_vram f \<or> fn_vram f + word_of_nat (4 * length (fn_words f)) \<le> entry_vram)"

definition add_dispatch_entry :: "u32 \<Rightarrow> recomp_function \<Rightarrow> recomp_function" where
  "add_dispatch_entry entry_vram f = f\<lparr>fn_dispatch_entry_vrams := insort_insert entry_vram (fn_dispatch_entry_vrams f)\<rparr>"

definition dispatch_alias_name :: "u16 \<Rightarrow> u32 \<Rightarrow> string" where
  "dispatch_alias_name section_index entry_vram =
     ''dispatch_alias_s'' @ fmt_nat (unat section_index) @ ''_'' @ fmt_08X entry_vram"

definition push_alias :: "u16 \<Rightarrow> dispatch_alias \<Rightarrow> recompiler_context \<Rightarrow> recompiler_context" where
  "push_alias section_index alias ctx =
     (let si = unat section_index;
          lists = (if length (section_dispatch_aliases ctx) \<le> si then resize_list (section_dispatch_aliases ctx) (si + 1) []
                   else section_dispatch_aliases ctx)
      in ctx\<lparr>dispatch_aliases := dispatch_aliases ctx @ [alias],
             section_dispatch_aliases := lists[si := lists ! si @ [length (dispatch_aliases ctx)]]\<rparr>)"

definition add_dispatch_alias :: "fragment \<Rightarrow> nat \<Rightarrow> nat \<Rightarrow> synthesis \<Rightarrow> (bool \<times> synthesis) outcome" where
  "add_dispatch_alias fr parent entry_offset st =
     (if entry_offset mod 4 \<noteq> 0 \<or> unat (fr_size fr) \<le> entry_offset \<or> entry_offset \<in> sy_emitted st \<or>
         entry_offset \<in> sy_aliases st then Done (False, st)
      else if length (ctx_functions (sy_ctx st)) \<le> parent then Fail
      else let ctx = sy_ctx st; f = ctx_functions ctx ! parent; entry_vram = vram_at fr entry_offset
        in if \<not> inside_function entry_vram f then Done (False, st)
           else Done (True, st\<lparr>
             sy_ctx := push_alias (fr_index fr)
               \<lparr>da_section_index = fr_index fr, da_vram = entry_vram, da_rom = fr_rom fr + word_of_nat entry_offset,
                da_name = dispatch_alias_name (fr_index fr) entry_vram, da_target_function_index = parent\<rparr>
               (ctx\<lparr>ctx_functions := (ctx_functions ctx)[parent := add_dispatch_entry entry_vram f]\<rparr>),
             sy_aliases := insert entry_offset (sy_aliases st)\<rparr>))"

definition add_dispatch_label_only :: "fragment \<Rightarrow> nat \<Rightarrow> nat \<Rightarrow> synthesis \<Rightarrow> synthesis outcome" where
  "add_dispatch_label_only fr parent entry_offset st =
     (if entry_offset mod 4 \<noteq> 0 \<or> unat (fr_size fr) \<le> entry_offset \<or> entry_offset \<in> sy_emitted st then Done st
      else if length (ctx_functions (sy_ctx st)) \<le> parent then Fail
      else let ctx = sy_ctx st; f = ctx_functions ctx ! parent; entry_vram = vram_at fr entry_offset
        in if \<not> inside_function entry_vram f then Done st
           else Done (st\<lparr>sy_ctx := ctx\<lparr>ctx_functions := (ctx_functions ctx)[parent := add_dispatch_entry entry_vram f]\<rparr>\<rparr>))"

section \<open>Seeds\<close>

definition add_seed_if_in_body :: "fragment \<Rightarrow> u32 \<Rightarrow> u32 list \<Rightarrow> u32 list" where
  "add_seed_if_in_body fr offset seeds =
     (if offset = 0 \<or> offset AND 3 \<noteq> 0 then seeds
      else if fr_size fr < offset + 4 then seeds
      else insort_insert offset seeds)"

definition seed_entry :: "fragment \<Rightarrow> u32 \<Rightarrow> u32 list \<Rightarrow> u32 list outcome" where
  "seed_entry fr offset seeds =
     and_then (looks_like_function_entry fr offset) (\<lambda>b. Done (if b then add_seed_if_in_body fr offset seeds else seeds))"

definition seed_reloc :: "fragment \<Rightarrow> reloc \<Rightarrow> u32 list \<Rightarrow> u32 list outcome" where
  "seed_reloc fr r seeds =
     (if rel_type r \<noteq> R_MIPS_26 then
        if rel_target_section r = fr_index fr then seed_entry fr (rel_target_section_offset r) seeds else Done seeds
      else if rel_target_section r \<noteq> fr_index fr then Done seeds
      else if rel_address r < fr_vram fr then Done seeds
      else let site = rel_address r - fr_vram fr
        in if fr_size fr < site + 4 then Done seeds
           else and_then (fword fr (unat site)) (\<lambda>word.
             if opcode_of word \<noteq> 0x02 \<and> opcode_of word \<noteq> 0x03 then Done seeds
             else Done (add_seed_if_in_body fr (rel_target_section_offset r) seeds)))"

fun fold_outcome :: "('a \<Rightarrow> 's \<Rightarrow> 's outcome) \<Rightarrow> 'a list \<Rightarrow> 's \<Rightarrow> 's outcome" where
  "fold_outcome f [] s = Done s"
| "fold_outcome f (x # xs) s = and_then (f x s) (fold_outcome f xs)"

lemma fold_outcome_append: "fold_outcome f (xs @ ys) s = and_then (fold_outcome f xs s) (fold_outcome f ys)"
proof (induction xs arbitrary: s)
  case (Cons x xs)
  then show ?case by (cases "f x s") simp_all
qed simp

lemma fold_outcome_invariant:
  assumes "\<And>x s s'. x \<in> set xs \<Longrightarrow> I s \<Longrightarrow> f x s = Done s' \<Longrightarrow> I s'"
  shows "I s \<Longrightarrow> fold_outcome f xs s = Done s' \<Longrightarrow> I s'"
  using assms
proof (induction xs arbitrary: s)
  case (Cons x xs)
  then obtain s1 where s1: "f x s = Done s1" "fold_outcome f xs s1 = Done s'" by (auto simp: and_then_Done)
  have "I s1" by (rule Cons.prems(3) [OF _ Cons.prems(1) s1(1)]) simp
  then show ?case by (rule Cons.IH [OF _ s1(2)]) (rule Cons.prems(3), simp_all)
qed simp

definition header_target :: "fragment \<Rightarrow> u32 outcome" where
  "header_target fr =
     (case decode_fragment_j_target (fr_blob fr) of
        None \<Rightarrow> Fail
      | Some j \<Rightarrow>
          if j < fr_vram fr \<or> fr_vram fr + fr_size fr \<le> j \<or> (j - fr_vram fr) AND 3 \<noteq> 0 then Fail
          else Done (j - fr_vram fr))"

definition seed_offsets :: "fragment \<Rightarrow> u32 list \<Rightarrow> u32 list outcome" where
  "seed_offsets fr extra_entry_offsets =
     and_then (header_target fr) (\<lambda>target.
     and_then (fold_outcome (seed_entry fr) extra_entry_offsets (add_seed_if_in_body fr target [])) (\<lambda>seeds.
     fold_outcome (seed_reloc fr) (fr_relocs fr) seeds))"

definition add_seed :: "fragment \<Rightarrow> u32 \<Rightarrow> synthesis \<Rightarrow> synthesis outcome" where
  "add_seed fr offset st = and_then (discover_and_add_function fr (unat offset) 0 True st) (\<lambda>(b, st'). Done st')"

section \<open>Gaps\<close>

text \<open>The offsets of a loop tried in order until one of them adds a function.\<close>

fun first_added :: "(nat \<Rightarrow> synthesis \<Rightarrow> (bool \<times> synthesis) outcome) \<Rightarrow> nat list \<Rightarrow> synthesis \<Rightarrow> (bool \<times> synthesis) outcome" where
  "first_added f [] st = Done (False, st)"
| "first_added f (x # xs) st = and_then (f x st) (\<lambda>(b, st'). if b then Done (True, st') else first_added f xs st')"

definition or_else ::
    "(bool \<times> synthesis) outcome \<Rightarrow> (synthesis \<Rightarrow> (bool \<times> synthesis) outcome) \<Rightarrow> (bool \<times> synthesis) outcome" where
  "or_else r f = and_then r (\<lambda>(b, st). if b then Done (True, st) else f st)"

definition if_so :: "bool outcome \<Rightarrow> (bool \<times> synthesis) outcome \<Rightarrow> synthesis \<Rightarrow> (bool \<times> synthesis) outcome" where
  "if_so test f st = and_then test (\<lambda>b. if b then f else Done (False, st))"

definition try_prologue :: "fragment \<Rightarrow> nat \<Rightarrow> nat \<Rightarrow> synthesis \<Rightarrow> (bool \<times> synthesis) outcome" where
  "try_prologue fr gap_end offset st =
     if_so (looks_like_gap_function_entry fr offset) (discover_and_add_function fr offset gap_end False st) st"

definition try_fallthrough :: "fragment \<Rightarrow> nat \<Rightarrow> nat \<Rightarrow> nat \<Rightarrow> synthesis \<Rightarrow> (bool \<times> synthesis) outcome" where
  "try_fallthrough fr gap_end overlap_end offset st =
     if_so (looks_like_fallthrough_gap_function_entry fr offset gap_end overlap_end)
       (discover_and_add_function fr offset overlap_end False st) st"

definition try_leaf :: "fragment \<Rightarrow> nat \<Rightarrow> nat \<Rightarrow> nat \<Rightarrow> synthesis \<Rightarrow> (bool \<times> synthesis) outcome" where
  "try_leaf fr gap_begin gap_end offset st =
     and_then (looks_like_leaf_gap_function_entry fr offset gap_begin gap_end) (\<lambda>leaf.
     case leaf of None \<Rightarrow> Done (False, st) | Some func_size \<Rightarrow> add_known_size_function fr offset func_size gap_end 0 st)"

definition scan_gap_for_function :: "fragment \<Rightarrow> nat \<Rightarrow> nat \<Rightarrow> nat \<Rightarrow> synthesis \<Rightarrow> (bool \<times> synthesis) outcome" where
  "scan_gap_for_function fr gap_begin0 gap_end overlap_end st =
     (let gap_begin = (max gap_begin0 IMPL_OFFSET + 3) div 4 * 4
      in or_else (first_added (try_prologue fr gap_end) (word_offsets gap_begin (gap_end - 3)) st) (\<lambda>st1.
         or_else (first_added (try_fallthrough fr gap_end overlap_end) (word_offsets gap_begin (gap_end - 3)) st1) (\<lambda>st2.
         first_added (try_leaf fr gap_begin gap_end) (word_offsets gap_begin (gap_end - 7)) st2)))"

fun gap_pass :: "fragment \<Rightarrow> nat \<Rightarrow> (nat \<times> nat) list \<Rightarrow> synthesis \<Rightarrow> (bool \<times> synthesis) outcome" where
  "gap_pass fr gap_start [] st =
     (if gap_start < unat (fr_size fr) then scan_gap_for_function fr gap_start (unat (fr_size fr)) (unat (fr_size fr)) st
      else Done (False, st))"
| "gap_pass fr gap_start ((range_start, range_end) # ranges) st =
     (if range_end \<le> gap_start then gap_pass fr gap_start ranges st
      else or_else (if gap_start < range_start then scan_gap_for_function fr gap_start range_start range_end st
                    else Done (False, st)) (gap_pass fr (max gap_start range_end) ranges))"

text \<open>What is still to be found: the offsets of the body that are no entry yet, and those that are no alias yet.\<close>

definition to_find :: "fragment \<Rightarrow> synthesis \<Rightarrow> nat" where
  "to_find fr st = card ({..<unat (fr_size fr)} - sy_emitted st) + card ({..<unat (fr_size fr)} - sy_aliases st)"

definition grown :: "fragment \<Rightarrow> bool \<Rightarrow> synthesis \<Rightarrow> synthesis \<Rightarrow> bool" where
  "grown fr b st st' \<longleftrightarrow> sy_emitted st \<subseteq> sy_emitted st' \<and> sy_aliases st \<subseteq> sy_aliases st' \<and>
     (b \<longrightarrow> (\<exists>x < unat (fr_size fr). x \<in> sy_emitted st' - sy_emitted st \<or> x \<in> sy_aliases st' - sy_aliases st))"

lemma grown_to_find: "grown fr True st st' \<Longrightarrow> to_find fr st' < to_find fr st"
proof -
  let ?S = "{..<unat (fr_size fr)}"
  assume g: "grown fr True st st'"
  have le: "card (?S - sy_emitted st') \<le> card (?S - sy_emitted st)" "card (?S - sy_aliases st') \<le> card (?S - sy_aliases st)"
    using g by (auto simp: grown_def intro!: card_mono)
  obtain x where x: "x \<in> ?S" "x \<in> sy_emitted st' - sy_emitted st \<or> x \<in> sy_aliases st' - sy_aliases st"
    using g by (auto simp: grown_def)
  then consider "?S - sy_emitted st' \<subset> ?S - sy_emitted st" | "?S - sy_aliases st' \<subset> ?S - sy_aliases st"
    using g by (auto simp: grown_def)
  then show ?thesis
    using le psubset_card_mono [of "?S - sy_emitted st" "?S - sy_emitted st'"]
      psubset_card_mono [of "?S - sy_aliases st" "?S - sy_aliases st'"]
    by cases (simp_all add: to_find_def)
qed

lemma grown_refl [simp]: "grown fr False st st"
  by (simp add: grown_def)

lemma grown_trans: "grown fr b st st1 \<Longrightarrow> grown fr c st1 st2 \<Longrightarrow> grown fr (b \<or> c) st st2"
  by (cases b; cases c) (fastforce simp: grown_def)+

lemma grown_emitted:
  "x < unat (fr_size fr) \<Longrightarrow> x \<notin> sy_emitted st \<Longrightarrow> insert x (sy_emitted st) \<subseteq> sy_emitted st' \<Longrightarrow>
   sy_aliases st' = sy_aliases st \<Longrightarrow> grown fr True st st'"
  by (auto simp: grown_def)

lemma grown_alias:
  "x < unat (fr_size fr) \<Longrightarrow> x \<notin> sy_aliases st \<Longrightarrow> sy_emitted st' = sy_emitted st \<Longrightarrow>
   sy_aliases st' = insert x (sy_aliases st) \<Longrightarrow> grown fr True st st'"
  by (auto simp: grown_def)

lemma add_function_sets:
  "add_function fr v r ws n e st = Done st' \<Longrightarrow>
   sy_emitted st' = sy_emitted st \<and> sy_aliases st' = sy_aliases st \<and> sy_ranges st' = sy_ranges st"
  by (auto simp: add_function_def and_then_Done)

lemma emit_function_sets:
  "emit_function fr e sz n v st = Done st' \<Longrightarrow> sy_emitted st' = insert e (sy_emitted st) \<and> sy_aliases st' = sy_aliases st \<and>
   sy_ranges st' = sy_ranges st @ [(e, e + sz)]"
  by (auto simp: emit_function_def and_then_Done dest!: add_function_sets)

lemma discover_grown: "discover_and_add_function fr e m h st = Done (b, st') \<Longrightarrow> grown fr b st st'"
  by (auto simp: discover_and_add_function_def soft_failure_def added_def and_then_Done bad_extent_def
      dest!: emit_function_sets intro!: grown_emitted [of e] split: if_splits option.splits)

lemma known_size_grown: "add_known_size_function fr e sz m d st = Done (b, st') \<Longrightarrow> grown fr b st st'"
  by (auto simp: add_known_size_function_def added_def and_then_Done bad_extent_def Let_def
      dest!: emit_function_sets intro!: grown_emitted [of e] split: if_splits)

lemma alias_grown: "add_dispatch_alias fr p e st = Done (b, st') \<Longrightarrow> grown fr b st st'"
  by (auto simp: add_dispatch_alias_def Let_def intro!: grown_alias [of e] split: if_splits)

lemma first_added_grown:
  assumes f: "\<And>x st b st'. f x st = Done (b, st') \<Longrightarrow> grown fr b st st'"
  shows "first_added f xs st = Done (b, st') \<Longrightarrow> grown fr b st st'"
proof (induction xs arbitrary: st)
  case (Cons x xs)
  obtain b1 st1 where e: "f x st = Done (b1, st1)" and r: "if b1 then Done (True, st1) = Done (b, st') else first_added f xs st1 = Done (b, st')"
    using Cons.prems by (auto simp: and_then_Done split: if_splits)
  then show ?case using f [OF e] Cons.IH [of st1] grown_trans [of fr b1 st st1 b st'] by (auto split: if_splits)
qed simp

lemma or_else_grown:
  assumes "or_else r f = Done (b, st')" and "\<And>b st1. r = Done (b, st1) \<Longrightarrow> grown fr b st st1"
    and "\<And>st1 b st2. f st1 = Done (b, st2) \<Longrightarrow> grown fr b st1 st2"
  shows "grown fr b st st'"
proof -
  obtain b1 st1 where r: "r = Done (b1, st1)" and f: "if b1 then Done (True, st1) = Done (b, st') else f st1 = Done (b, st')"
    using assms(1) by (auto simp: or_else_def and_then_Done split: if_splits)
  then show ?thesis using assms(2) [OF r] assms(3) [of st1 b st'] grown_trans [of fr b1 st st1 b st'] by (auto split: if_splits)
qed

lemma if_so_grown: "if_so t r st = Done (b, st') \<Longrightarrow> (\<And>b st'. r = Done (b, st') \<Longrightarrow> grown fr b st st') \<Longrightarrow> grown fr b st st'"
  by (auto simp: if_so_def and_then_Done split: if_splits)

lemma try_grown:
  "try_prologue fr g x st = Done (b, st') \<Longrightarrow> grown fr b st st'"
  "try_fallthrough fr g ov x st = Done (b, st') \<Longrightarrow> grown fr b st st'"
  "try_leaf fr gb g x st = Done (b, st') \<Longrightarrow> grown fr b st st'"
  by (auto simp: try_prologue_def try_fallthrough_def try_leaf_def and_then_Done elim!: if_so_grown discover_grown known_size_grown
      split: option.splits)

lemma scan_gap_grown: "scan_gap_for_function fr gs ge ov st = Done (b, st') \<Longrightarrow> grown fr b st st'"
  unfolding scan_gap_for_function_def Let_def
  by (elim or_else_grown first_added_grown [rotated] try_grown)

lemma gap_pass_grown: "gap_pass fr gs ranges st = Done (b, st') \<Longrightarrow> grown fr b st st'"
  by (induction fr gs ranges st arbitrary: b st' rule: gap_pass.induct)
     (auto elim!: scan_gap_grown or_else_grown split: if_splits)

text \<open>The outer loop repeats while a pass adds something; the ranges of a pass are those before it, sorted.\<close>

function gap_loop :: "fragment \<Rightarrow> synthesis \<Rightarrow> synthesis outcome" where
  "gap_loop fr st =
     and_then (gap_pass fr IMPL_OFFSET (sort (sy_ranges st)) st) (\<lambda>(b, st').
       if b then gap_loop fr st' else Done st')"
  by pat_completeness auto
termination
  by (relation "measure (\<lambda>(fr, st). to_find fr st)") (auto dest!: gap_pass_grown intro!: grown_to_find)

declare gap_loop.simps [simp del]

section \<open>Continuations\<close>

fun count_links :: "fragment \<Rightarrow> nat list \<Rightarrow> nat outcome" where
  "count_links fr [] = Done 0"
| "count_links fr (offset # offsets) =
     and_then (fword fr offset) (\<lambda>word. and_then (count_links fr offsets) (\<lambda>n.
     Done (if links_at fr word offset then n + 1 else n)))"

text \<open>The state of a pass is whether it added something, and the state so far.\<close>

definition noting :: "bool \<Rightarrow> (bool \<times> synthesis) outcome \<Rightarrow> (bool \<times> synthesis) outcome" where
  "noting b r = and_then r (\<lambda>(c, st). Done (b \<or> c, st))"

definition small_continuation :: "fragment \<Rightarrow> nat \<Rightarrow> nat \<Rightarrow> bool \<times> synthesis \<Rightarrow> (bool \<times> synthesis) outcome" where
  "small_continuation fr range_end offset bst =
     (let (b, st) = bst; continuation_offset = offset + 8
      in and_then (fword fr offset) (\<lambda>insn_word.
         if \<not> links_at fr insn_word offset then Done (b, st)
         else if range_end \<le> continuation_offset \<or> continuation_offset \<in> sy_emitted st then Done (b, st)
         else and_then (count_links fr (word_offsets continuation_offset (range_end - 7))) (\<lambda>n.
           if 1 + n < MIN_SUFFIX_LINKS then Done (b, st)
           else noting b (discover_and_add_function fr continuation_offset range_end False st))))"

text \<open>Behind \<open>jalr\<close> in a large function: a function of its own that starts where its branches go back to.\<close>

definition dynamic_continuation :: "fragment \<Rightarrow> nat \<Rightarrow> nat \<Rightarrow> nat \<Rightarrow> synthesis \<Rightarrow> (bool \<times> synthesis) outcome" where
  "dynamic_continuation fr range_start range_end continuation_offset st =
     and_then (find_dynamic_continuation_body_start fr continuation_offset range_start range_end) (\<lambda>body_start.
     case bounds_at fr (word_of_nat body_start) of
       None \<Rightarrow> Done (False, st)
     | Some func_size \<Rightarrow>
         let func_end = body_start + func_size
         in if func_size < 8 \<or> MAX_LARGE_PARENT_CONTINUATION_SIZE < func_size \<or> func_size mod 4 \<noteq> 0 \<or> range_end < func_end
            then Done (False, st)
            else and_then (fword fr (func_end - 8)) (\<lambda>last_word.
              if last_word \<noteq> JR_RA then Done (False, st)
              else add_known_size_function fr body_start func_size range_end continuation_offset st))"

text \<open>Behind any other link: an alias into the large function.\<close>

definition static_continuation :: "fragment \<Rightarrow> nat \<Rightarrow> nat \<Rightarrow> nat \<Rightarrow> synthesis \<Rightarrow> (bool \<times> synthesis) outcome" where
  "static_continuation fr range_start range_end continuation_offset st =
     if_so (looks_like_large_parent_continuation fr continuation_offset range_end)
       (case sy_index st (word_of_nat range_start) of
          None \<Rightarrow> Done (False, st)
        | Some parent \<Rightarrow> add_dispatch_alias fr parent continuation_offset st) st"

definition large_continuation :: "fragment \<Rightarrow> nat \<Rightarrow> nat \<Rightarrow> nat \<Rightarrow> bool \<times> synthesis \<Rightarrow> (bool \<times> synthesis) outcome" where
  "large_continuation fr range_start range_end offset bst =
     (let (b, st) = bst; continuation_offset = offset + 8
      in and_then (fword fr offset) (\<lambda>insn_word.
         if \<not> links_at fr insn_word offset then Done (b, st)
         else if range_end \<le> continuation_offset \<or> continuation_offset \<in> sy_emitted st then Done (b, st)
         else noting b (if is_jalr_instruction insn_word
           then dynamic_continuation fr range_start range_end continuation_offset st
           else static_continuation fr range_start range_end continuation_offset st)))"

definition small_range :: "fragment \<Rightarrow> nat \<times> nat \<Rightarrow> bool \<times> synthesis \<Rightarrow> (bool \<times> synthesis) outcome" where
  "small_range fr rng bst =
     (let (range_start, range_end) = rng
      in if range_end \<le> range_start \<or> MAX_CONTINUATION_PARENT_SIZE < range_end - range_start \<or> unat (fr_size fr) < range_end
         then Done bst
         else fold_outcome (small_continuation fr range_end) (word_offsets range_start (range_end - 7)) bst)"

definition large_range :: "fragment \<Rightarrow> nat \<times> nat \<Rightarrow> bool \<times> synthesis \<Rightarrow> (bool \<times> synthesis) outcome" where
  "large_range fr rng bst =
     (let (range_start, range_end) = rng
      in if range_end \<le> range_start \<or> range_end - range_start \<le> MAX_CONTINUATION_PARENT_SIZE \<or> unat (fr_size fr) < range_end
         then Done bst
         else fold_outcome (large_continuation fr range_start range_end) (word_offsets range_start (range_end - 7)) bst)"

definition continuation_pass :: "fragment \<Rightarrow> synthesis \<Rightarrow> (bool \<times> synthesis) outcome" where
  "continuation_pass fr st =
     (let ranges = sort (sy_ranges st)
      in and_then (fold_outcome (small_range fr) ranges (False, st)) (fold_outcome (large_range fr) ranges))"

text \<open>What a step of a pass does to the flag and the state.\<close>

definition pass_grown :: "fragment \<Rightarrow> bool \<times> synthesis \<Rightarrow> bool \<times> synthesis \<Rightarrow> bool" where
  "pass_grown fr bst bst' \<longleftrightarrow> (\<exists>c. fst bst' = (fst bst \<or> c) \<and> grown fr c (snd bst) (snd bst'))"

lemma pass_grown_refl [simp]: "pass_grown fr bst bst"
  unfolding pass_grown_def by (rule exI [of _ False]) simp

lemma pass_grown_trans: "pass_grown fr x y \<Longrightarrow> pass_grown fr y z \<Longrightarrow> pass_grown fr x z"
  unfolding pass_grown_def by (metis grown_trans disj_assoc)

lemma fold_pass_grown:
  assumes "\<And>x bst bst'. f x bst = Done bst' \<Longrightarrow> pass_grown fr bst bst'"
  shows "fold_outcome f xs bst = Done bst' \<Longrightarrow> pass_grown fr bst bst'"
  by (induction xs arbitrary: bst) (auto simp: and_then_Done dest!: assms intro: pass_grown_trans)

lemma noting_grown:
  assumes "noting b r = Done bst'" and "\<And>c st'. r = Done (c, st') \<Longrightarrow> grown fr c st st'"
  shows "pass_grown fr (b, st) bst'"
proof -
  obtain c st' where r: "r = Done (c, st')" and e: "bst' = (b \<or> c, st')" using assms(1) by (auto simp: noting_def and_then_Done)
  show ?thesis unfolding pass_grown_def e using assms(2) [OF r] by (intro exI [of _ c]) simp
qed

lemma dynamic_continuation_grown: "dynamic_continuation fr s e off st = Done (b, st') \<Longrightarrow> grown fr b st st'"
  by (auto simp: dynamic_continuation_def Let_def and_then_Done split: if_splits option.splits dest: known_size_grown)

lemma static_continuation_grown: "static_continuation fr s e off st = Done (b, st') \<Longrightarrow> grown fr b st st'"
  by (auto simp: static_continuation_def elim!: if_so_grown split: option.splits dest: alias_grown)

lemma small_continuation_grown: "small_continuation fr e off bst = Done bst' \<Longrightarrow> pass_grown fr bst bst'"
  by (cases bst) (auto simp: small_continuation_def Let_def and_then_Done split: if_splits elim!: noting_grown discover_grown)

lemma large_continuation_grown: "large_continuation fr s e off bst = Done bst' \<Longrightarrow> pass_grown fr bst bst'"
  by (cases bst) (auto simp: large_continuation_def Let_def and_then_Done split: if_splits
      elim!: noting_grown dynamic_continuation_grown static_continuation_grown)

lemma range_grown:
  "small_range fr r bst = Done bst' \<Longrightarrow> pass_grown fr bst bst'"
  "large_range fr r bst = Done bst' \<Longrightarrow> pass_grown fr bst bst'"
  by (auto simp: small_range_def large_range_def split: if_splits prod.splits
      elim!: fold_pass_grown [rotated] small_continuation_grown large_continuation_grown)

lemma continuation_pass_grown:
  assumes "continuation_pass fr st = Done (b, st')"
  shows "grown fr b st st'"
proof -
  obtain bst1 where "fold_outcome (small_range fr) (sort (sy_ranges st)) (False, st) = Done bst1"
    and "fold_outcome (large_range fr) (sort (sy_ranges st)) bst1 = Done (b, st')"
    using assms by (auto simp: continuation_pass_def Let_def and_then_Done)
  then have "pass_grown fr (False, st) bst1" "pass_grown fr bst1 (b, st')"
    by (auto elim!: fold_pass_grown [rotated] range_grown)
  from pass_grown_trans [OF this] show ?thesis by (auto simp: pass_grown_def)
qed

function continuation_loop :: "fragment \<Rightarrow> synthesis \<Rightarrow> synthesis outcome" where
  "continuation_loop fr st =
     and_then (continuation_pass fr st) (\<lambda>(b, st'). if b then continuation_loop fr st' else Done st')"
  by pat_completeness auto
termination
  by (relation "measure (\<lambda>(fr, st). to_find fr st)") (auto dest!: continuation_pass_grown intro!: grown_to_find)

declare continuation_loop.simps [simp del]

section \<open>Return labels and forced entries\<close>

definition return_label :: "fragment \<Rightarrow> nat \<Rightarrow> nat \<Rightarrow> nat \<Rightarrow> synthesis \<Rightarrow> synthesis outcome" where
  "return_label fr parent range_end offset st =
     and_then (fword fr offset) (\<lambda>insn_word.
     if \<not> links_at fr insn_word offset then Done st
     else if range_end \<le> offset + 8 then Done st
     else if length (ctx_functions (sy_ctx st)) \<le> parent then Undef
     else add_dispatch_label_only fr parent (offset + 8) st)"

definition return_labels_of :: "fragment \<Rightarrow> nat \<times> nat \<Rightarrow> synthesis \<Rightarrow> synthesis outcome" where
  "return_labels_of fr rng st =
     (let (range_start, range_end) = rng
      in if range_end \<le> range_start \<or> unat (fr_size fr) < range_end then Done st
         else case sy_index st (word_of_nat range_start) of
           None \<Rightarrow> Done st
         | Some parent \<Rightarrow> fold_outcome (return_label fr parent range_end) (word_offsets range_start (range_end - 7)) st)"

definition return_labels :: "fragment \<Rightarrow> synthesis \<Rightarrow> synthesis outcome" where
  "return_labels fr st = fold_outcome (return_labels_of fr) (sort (sy_ranges st)) st"

text \<open>The function found first whose range has the offset strictly inside it.\<close>

definition forced_parent :: "nat \<Rightarrow> synthesis \<Rightarrow> nat option" where
  "forced_parent forced_offset st =
     (case find (\<lambda>(s, e). s < forced_offset \<and> forced_offset < e) (sy_ranges st) of
        None \<Rightarrow> None | Some (s, e) \<Rightarrow> sy_index st (word_of_nat s))"

definition force_function :: "fragment \<Rightarrow> u32 \<Rightarrow> synthesis \<Rightarrow> synthesis outcome" where
  "force_function fr forced_vram st =
     (if forced_vram < fr_vram fr then Done st
      else let forced_offset = forced_vram - fr_vram fr; off = unat forced_offset
        in if forced_offset = 0 \<or> forced_offset AND 3 \<noteq> 0 \<or> fr_size fr < forced_offset + 4 then Done st
           else if off \<in> sy_emitted st \<or> off \<in> sy_aliases st then Done st
           else and_then (case forced_parent off st of
               Some parent \<Rightarrow> add_dispatch_alias fr parent off st
             | None \<Rightarrow> discover_and_add_function fr off 0 False st) (\<lambda>(b, st'). Done st'))"

section \<open>The whole section\<close>

definition has_jr_ra :: "fragment \<Rightarrow> bool outcome" where
  "has_jr_ra fr =
     any (\<lambda>off. and_then (fword fr off) (\<lambda>w. Done (w = JR_RA)))
       (word_offsets IMPL_OFFSET (min (unat (fr_size fr)) (IMPL_OFFSET + 0x400) - 3))"

text \<open>The entry trampoline and everything behind it, for a fragment with code.\<close>

definition add_code :: "fragment \<Rightarrow> string \<Rightarrow> u32 list \<Rightarrow> u32 list \<Rightarrow> recompiler_context \<Rightarrow> recompiler_context outcome" where
  "add_code fr section_name extra_entry_offsets forced_function_vrams ctx =
     and_then (copy_from (fr_blob fr) 0 8) (\<lambda>entry_bytes.
     and_then (add_function fr (fr_vram fr) (fr_rom fr) (le_words entry_bytes) (section_name @ ''_entry'') 0
                 \<lparr>sy_ctx = ctx, sy_index = Map.empty, sy_emitted = {}, sy_aliases = {}, sy_ranges = []\<rparr>) (\<lambda>st0.
     and_then (seed_offsets fr extra_entry_offsets) (\<lambda>seeds.
     if seeds = [] then Fail
     else and_then (fold_outcome (add_seed fr) seeds st0) (\<lambda>st1.
     and_then (gap_loop fr st1) (\<lambda>st2.
     and_then (continuation_loop fr st2) (\<lambda>st3.
     and_then (return_labels fr st3) (\<lambda>st4.
     and_then (fold_outcome (force_function fr) forced_function_vrams st4) (\<lambda>st5.
     Done (sy_ctx st5)))))))))"

end
