(* ===== verification/Fragment_Sections.thy ===== *)
theory Fragment_Sections
  imports Fragment_Synthesis
begin

text \<open>
  The sections \<open>src/decompressed.cpp\<close> synthesises: \<open>synthesize_decompressed_sections\<close> for the fragments the configuration
  lists one by one, \<open>add_decompressed_section\<close> and \<open>synthesize_decompressed_patterns\<close> for those found by scanning the ROM.

  \<^item> The bytes of the ROM file are an argument; an empty list is a file that could not be read. The entries of the
    configuration are the structs of \<open>src/config.h\<close>.
  \<^item> \<open>std::unordered_map\<close>s that are only searched are functions or sets of keys.
  \<^item> The loops over the ROM look for the next magic value and do not depend on what is done with a hit: the hits are a list.
\<close>

section \<open>The configuration and the wrappers\<close>

record decompressed_section =
  dc_name :: string
  dc_vram :: u32
  dc_rom_wrapper :: u32
  dc_wrapper_format :: string
  dc_relocatable :: bool

record decompressed_section_pattern =
  dp_base_name :: string
  dp_vram :: u32
  dp_wrapper_format :: string
  dp_relocatable :: bool

text \<open>The \<open>bool\<close> of a decompressor as the outcome.\<close>

definition of_decompressor :: "(bool \<times> bytes) option \<Rightarrow> bytes outcome" where
  "of_decompressor r = (case r of None \<Rightarrow> Undef | Some (ok, out) \<Rightarrow> if ok then Done out else Fail)"

definition decompress_wrapper_at :: "bytes \<Rightarrow> u32 \<Rightarrow> string \<Rightarrow> bytes outcome" where
  "decompress_wrapper_at rom_file rom_wrapper wrapper_format =
     (if length rom_file \<le> unat rom_wrapper then Fail
      else if wrapper_format = ''pers_szp_yay0'' then of_decompressor (pers_szp_decompress (drop (unat rom_wrapper) rom_file) [])
      else if wrapper_format = ''yay0'' \<or> wrapper_format = ''bare_yay0'' then
        of_decompressor (yay0_decompress (drop (unat rom_wrapper) rom_file) [])
      else if wrapper_format = ''raw_fragment'' then
        and_then (try_extract_raw_fragment rom_file rom_wrapper) (\<lambda>(blob, info). Done blob)
      else Fail)"

text \<open>The same in the loop over the configuration, where the address in a raw fragment's header has to be the configured one.\<close>

definition explicit_blob :: "bytes \<Rightarrow> decompressed_section \<Rightarrow> bytes outcome" where
  "explicit_blob rom_file cfg =
     (let data = drop (unat (dc_rom_wrapper cfg)) rom_file; format = dc_wrapper_format cfg
      in if length rom_file \<le> unat (dc_rom_wrapper cfg) then Fail
         else if format = ''pers_szp_yay0'' then of_decompressor (pers_szp_decompress data [])
         else if format = ''yay0'' \<or> format = ''bare_yay0'' then of_decompressor (yay0_decompress data [])
         else if format = ''raw_fragment'' then
           and_then (try_extract_raw_fragment rom_file (dc_rom_wrapper cfg)) (\<lambda>(blob, info).
             if rf_link_vram info \<noteq> dc_vram cfg then Fail else Done blob)
         else Fail)"

section \<open>Sections given one by one\<close>

text \<open>\<open>resize\<close> and \<open>memcpy\<close> of the body into the context's ROM.\<close>

definition store_bytes :: "nat \<Rightarrow> bytes \<Rightarrow> bytes \<Rightarrow> bytes" where
  "store_bytes off body old =
     (let grown_rom = (if length old < off + length body then resize_list old (off + length body) 0 else old)
      in take off grown_rom @ body @ drop (off + length body) grown_rom)"

definition push_section :: "section_info \<Rightarrow> recompiler_context \<Rightarrow> recompiler_context" where
  "push_section sec ctx = ctx\<lparr>sections := sections ctx @ [sec], section_functions := section_functions ctx @ [[]],
     section_dispatch_aliases := section_dispatch_aliases ctx @ [[]]\<rparr>"

definition explicit_section :: "decompressed_section \<Rightarrow> u32 \<Rightarrow> u32 \<Rightarrow> section_info" where
  "explicit_section cfg synthetic_rom reloc_offset = section_default\<lparr>
     sec_rom_addr := synthetic_rom, sec_ram_addr := dc_vram cfg, sec_size := reloc_offset, sec_bss_size := 0,
     sec_name := dc_name cfg, sec_executable := True, sec_relocatable := dc_relocatable cfg\<rparr>"

text \<open>The end of the function at \<open>+0x20\<close>: behind the delay slot of its first return, cut at the body's end.\<close>

fun impl_end_from :: "bytes \<Rightarrow> nat \<Rightarrow> nat list \<Rightarrow> nat outcome" where
  "impl_end_from blob reloc_offset [] = Done 0"
| "impl_end_from blob reloc_offset (off # offs) =
     and_then (matches_at blob off [0x03, 0xE0, 0x00, 0x08]) (\<lambda>m.
     if m then Done (min (off + 8) reloc_offset) else impl_end_from blob reloc_offset offs)"

definition impl_end :: "bytes \<Rightarrow> nat \<Rightarrow> nat outcome" where
  "impl_end blob reloc_offset = impl_end_from blob reloc_offset (word_offsets IMPL_OFFSET (reloc_offset - 3))"

text \<open>\<open>impl_words\<close> has \<open>impl_size / 4\<close> elements and receives \<open>impl_size\<close> bytes.\<close>

definition add_impl_function ::
    "bytes \<Rightarrow> u16 \<Rightarrow> u32 \<Rightarrow> u32 \<Rightarrow> nat \<Rightarrow> recompiler_context \<Rightarrow> recompiler_context outcome" where
  "add_impl_function blob section_index vram synthetic_rom impl_end_offset ctx =
     (if impl_end_offset \<le> IMPL_OFFSET then Done ctx
      else let impl_size = impl_end_offset - IMPL_OFFSET
        in if impl_size mod 4 \<noteq> 0 then Undef
           else and_then (copy_from blob IMPL_OFFSET impl_size) (\<lambda>bs.
             add_section_function section_index (vram + word_of_nat IMPL_OFFSET) (synthetic_rom + word_of_nat IMPL_OFFSET)
               (le_words bs) (func_name (vram + word_of_nat IMPL_OFFSET)) 0 ctx))"

definition add_explicit_section ::
    "bytes \<Rightarrow> section_patch list \<Rightarrow> decompressed_section \<Rightarrow> recompiler_context \<Rightarrow> recompiler_context outcome" where
  "add_explicit_section rom_file patches cfg ctx =
     (let vram = dc_vram cfg; synthetic_rom = 0xFE000000 OR dc_rom_wrapper cfg; section_index = word_of_nat (length (sections ctx))
      in and_then (explicit_blob rom_file cfg) (\<lambda>unpatched.
         and_then (apply_decompressed_section_patches unpatched (dc_rom_wrapper cfg) vram patches) (\<lambda>blob.
         and_then (blob_word blob 0x14) (\<lambda>reloc_offset.
         and_then (copy_from blob 0 (unat reloc_offset)) (\<lambda>body.
         and_then (parse_fragment_relocs blob vram section_index (explicit_section cfg synthetic_rom reloc_offset)) (\<lambda>sec.
         and_then (copy_from blob 0 8) (\<lambda>entry_bytes.
         and_then (add_section_function section_index vram synthetic_rom (le_words entry_bytes) (dc_name cfg @ ''_entry'') 0
                     (push_section sec (ctx\<lparr>rom := store_bytes (unat synthetic_rom) body (rom ctx)\<rparr>))) (\<lambda>ctx1.
         and_then (impl_end blob (unat reloc_offset)) (\<lambda>impl_end_offset.
         add_impl_function blob section_index vram synthetic_rom impl_end_offset ctx1)))))))))"

definition synthesize_decompressed_sections ::
    "bytes \<Rightarrow> decompressed_section list \<Rightarrow> section_patch list \<Rightarrow> recompiler_context \<Rightarrow> recompiler_context outcome" where
  "synthesize_decompressed_sections rom_file configs patches ctx =
     (if configs = [] then Done ctx
      else if rom_file = [] then Fail
      else and_then (fold_outcome (add_explicit_section rom_file patches) configs ctx) (\<lambda>ctx'.
        Done (resolve_cross_section_targets ctx' (word_of_nat (length (sections ctx))))))"

section \<open>Sections found by a pattern\<close>

text \<open>The cumulative allocator: the address given and the counter behind it.\<close>

definition allocate_rom :: "u32 \<Rightarrow> u64 \<Rightarrow> (u32 \<times> u64) outcome" where
  "allocate_rom reloc_offset next_synthetic_rom =
     (let after = next_synthetic_rom + ((ucast reloc_offset + 3) AND NOT 3)
      in if 0xFFFFFFFF < after then Fail else Done (ucast next_synthetic_rom, after))"

definition pattern_section :: "u32 \<Rightarrow> u32 \<Rightarrow> u32 \<Rightarrow> string \<Rightarrow> bool \<Rightarrow> u64 \<Rightarrow> u32 \<Rightarrow> section_info" where
  "pattern_section synthetic_rom link_ram_addr reloc_offset section_name relocatable content_hash original_pattern_id =
     section_default\<lparr>sec_rom_addr := synthetic_rom, sec_ram_addr := link_ram_addr, sec_size := reloc_offset,
       sec_bss_size := 0, sec_name := section_name, sec_executable := True, sec_relocatable := relocatable,
       sec_content_hash := content_hash, sec_original_pattern_id := original_pattern_id\<rparr>"

text \<open>What the callers choose: the fields in the order of the parameters.\<close>

record section_request =
  rq_blob :: bytes
  rq_vram :: u32
  rq_name :: string
  rq_relocatable :: bool
  rq_content_hash :: u64
  rq_link_ram_addr :: u32
  rq_original_pattern_id :: u32
  rq_extra_entry_offsets :: "u32 list"
  rq_forced_function_vrams :: "u32 list"

text \<open>The section itself: its bytes stored, its relocations parsed, the fragment its functions are looked for in.\<close>

definition place_section ::
    "decoder \<Rightarrow> (u32 \<Rightarrow> u32 \<Rightarrow> bool) \<Rightarrow> section_request \<Rightarrow> recompiler_context \<times> u64 \<Rightarrow>
     (recompiler_context \<times> fragment \<times> u64) outcome" where
  "place_section decode links rq cn =
     (let (ctx, next_synthetic_rom) = cn;
          blob = rq_blob rq; vram = rq_vram rq;
          link_ram_addr = (if rq_link_ram_addr rq \<noteq> 0 then rq_link_ram_addr rq else vram);
          section_index = word_of_nat (length (sections ctx))
      in if length blob < 0x20 then Fail
         else and_then (matches_at blob 0x08 fragment_magic) (\<lambda>magic.
         if \<not> magic then Fail
         else and_then (blob_word blob 0x14) (\<lambda>reloc_offset.
         if length blob < unat reloc_offset then Fail
         else and_then (allocate_rom reloc_offset next_synthetic_rom) (\<lambda>(synthetic_rom, next_synthetic_rom').
         and_then (copy_from blob 0 (unat reloc_offset)) (\<lambda>body.
         and_then (parse_fragment_relocs blob vram section_index
                     (pattern_section synthetic_rom link_ram_addr reloc_offset (rq_name rq) (rq_relocatable rq)
                        (rq_content_hash rq) (rq_original_pattern_id rq))) (\<lambda>sec.
         let ctx1 = push_section sec (ctx\<lparr>rom := store_bytes (unat synthetic_rom) body (rom ctx)\<rparr>)
         in and_then (or_undef (nth_opt (sections ctx1) (unat section_index))) (\<lambda>this_section.
            Done (ctx1, \<lparr>fr_blob = blob, fr_size = reloc_offset, fr_vram = vram, fr_rom = synthetic_rom, fr_index = section_index,
                   fr_relocs = sec_relocs this_section, fr_decode = decode, fr_links = links\<rparr>, next_synthetic_rom'))))))))"

definition add_decompressed_section ::
    "decoder \<Rightarrow> (u32 \<Rightarrow> u32 \<Rightarrow> bool) \<Rightarrow> section_request \<Rightarrow> recompiler_context \<times> u64 \<Rightarrow> (recompiler_context \<times> u64) outcome" where
  "add_decompressed_section decode links rq cn =
     and_then (place_section decode links rq cn) (\<lambda>(ctx1, fr, next_synthetic_rom).
     and_then (has_jr_ra fr) (\<lambda>code.
     and_then (if code then add_code fr (rq_name rq) (rq_extra_entry_offsets rq) (rq_forced_function_vrams rq) ctx1
               else Done ctx1) (\<lambda>ctx2.
     Done (ctx2, next_synthetic_rom))))"

text \<open>The places a magic value is found at, each search starting behind the previous hit; \<open>magic\<close> is never empty.\<close>

definition next_match :: "bytes \<Rightarrow> bytes \<Rightarrow> nat \<Rightarrow> nat option" where
  "next_match magic rom_file scan_pos = find (\<lambda>i. slice rom_file i (length magic) = magic) [scan_pos ..< length rom_file]"

function match_offsets :: "bytes \<Rightarrow> bytes \<Rightarrow> nat \<Rightarrow> nat list" where
  "match_offsets magic rom_file scan_pos =
     (if scan_pos + 16 < length rom_file \<and> magic \<noteq> [] then
        case next_match magic rom_file scan_pos of
          None \<Rightarrow> []
        | Some i \<Rightarrow> i # match_offsets magic rom_file (i + length magic)
      else [])"
  by pat_completeness auto
termination
  by (relation "measure (\<lambda>(magic, rom_file, scan_pos). length rom_file - scan_pos)")
     (auto simp: next_match_def find_Some_iff neq_Nil_conv)

declare match_offsets.simps [simp del]

record pattern_hit =
  ph_wrap_off :: u32
  ph_vram :: u32
  ph_body :: bytes

definition keep_hit ::
    "section_patch list \<Rightarrow> u32 \<Rightarrow> u32 \<Rightarrow> bytes \<Rightarrow> pattern_hit list \<Rightarrow> pattern_hit list outcome" where
  "keep_hit patches wrap_off vram body hits =
     and_then (apply_decompressed_section_patches body wrap_off vram patches) (\<lambda>body'.
     Done (hits @ [\<lparr>ph_wrap_off = wrap_off, ph_vram = vram, ph_body = body'\<rparr>]))"

definition raw_hit ::
    "bytes \<Rightarrow> section_patch list \<Rightarrow> decompressed_section_pattern \<Rightarrow> nat \<Rightarrow> pattern_hit list \<Rightarrow> pattern_hit list outcome" where
  "raw_hit rom_file patches p magic_off hits =
     (if magic_off < 8 then Done hits
      else let raw_off = word_of_nat (magic_off - 8)
        in and_then (attempt (try_extract_raw_fragment rom_file raw_off)) (\<lambda>e.
           case e of
             None \<Rightarrow> Done hits
           | Some (body, info) \<Rightarrow>
               if dp_vram p \<noteq> 0 \<and> rf_link_vram info \<noteq> dp_vram p then Done hits
               else if fragment_id_from_vram (rf_link_vram info) = None then Done hits
               else keep_hit patches raw_off (rf_link_vram info) body hits))"

text \<open>The wrapper of a \<open>Yay0\<close> stream: its offset, or nothing when the stream is not of the pattern's format.\<close>

definition wrapper_offset :: "bytes \<Rightarrow> string \<Rightarrow> nat \<Rightarrow> nat option outcome" where
  "wrapper_offset rom_file wrapper_format y0 =
     (let wrapped = (0x18 \<le> y0 \<and> slice rom_file (y0 - 0x18) 8 = ascii ''PERS-SZP'')
      in if wrapper_format = ''pers_szp_yay0'' then Done (if wrapped then Some (y0 - 0x18) else None)
         else if wrapper_format = ''bare_yay0'' then Done (if wrapped then None else Some y0)
         else if wrapper_format = ''yay0'' then Done (Some y0)
         else Fail)"

definition yay0_hit ::
    "bytes \<Rightarrow> section_patch list \<Rightarrow> decompressed_section_pattern \<Rightarrow> nat \<Rightarrow> pattern_hit list \<Rightarrow> pattern_hit list outcome" where
  "yay0_hit rom_file patches p y0 hits =
     and_then (attempt (of_decompressor (yay0_decompress (drop y0 rom_file) []))) (\<lambda>prefix.
     case prefix of
       None \<Rightarrow> Done hits
     | Some prefix_bytes \<Rightarrow>
         and_then (decode_fragment_link_vram prefix_bytes) (\<lambda>link.
         case link of
           None \<Rightarrow> Done hits
         | Some hit_vram \<Rightarrow>
             if dp_vram p \<noteq> 0 \<and> hit_vram \<noteq> dp_vram p then Done hits
             else and_then (wrapper_offset rom_file (dp_wrapper_format p) y0) (\<lambda>w.
             case w of
               None \<Rightarrow> Done hits
             | Some wrap \<Rightarrow>
                 and_then (attempt (decompress_wrapper_at rom_file (word_of_nat wrap) (dp_wrapper_format p))) (\<lambda>b.
                 case b of
                   None \<Rightarrow> Done hits
                 | Some body \<Rightarrow> keep_hit patches (word_of_nat wrap) hit_vram body hits))))"

definition pattern_hits :: "bytes \<Rightarrow> section_patch list \<Rightarrow> decompressed_section_pattern \<Rightarrow> pattern_hit list outcome" where
  "pattern_hits rom_file patches p =
     (if dp_wrapper_format p = ''raw_fragment''
      then fold_outcome (raw_hit rom_file patches p) (match_offsets fragment_magic rom_file 0) []
      else fold_outcome (yay0_hit rom_file patches p) (match_offsets (ascii ''Yay0'') rom_file 0) [])"

section \<open>Entries seen in jump slots\<close>

type_synonym jump_slot_seeds = "u32 \<Rightarrow> u32 list"

fun scan_jump_slots :: "pattern_hit \<Rightarrow> nat list \<Rightarrow> jump_slot_seeds \<Rightarrow> jump_slot_seeds outcome" where
  "scan_jump_slots hit [] seeds = Done seeds"
| "scan_jump_slots hit (slot_off # slots) seeds =
     and_then (blob_word (ph_body hit) slot_off) (\<lambda>instr.
     and_then (blob_word (ph_body hit) (slot_off + 4)) (\<lambda>delay.
     if delay \<noteq> 0 then Done seeds
     else case decode_mips_jump_target instr (ph_vram hit + word_of_nat slot_off + 4) of
       None \<Rightarrow> Done seeds
     | Some target \<Rightarrow>
         let target_base = target AND 0xFFF00000; target_offset = target - target_base
         in scan_jump_slots hit slots
              (if target_offset AND 3 = 0 then seeds(target_base := insort_insert target_offset (seeds target_base)) else seeds)))"

definition hit_jump_slots :: "pattern_hit \<Rightarrow> jump_slot_seeds \<Rightarrow> jump_slot_seeds outcome" where
  "hit_jump_slots hit seeds =
     (if length (ph_body hit) < 0x28 then Done seeds
      else and_then (blob_word (ph_body hit) 0x14) (\<lambda>hit_reloc_offset.
        let scan_limit = min (unat hit_reloc_offset) (unat (word_of_nat (length (ph_body hit)) :: u32))
        in scan_jump_slots hit (map (\<lambda>k. 0x20 + 8 * k) [0 ..< (scan_limit - 0x20) div 8]) seeds))"

section \<open>One section for each different content\<close>

definition HASH_WINDOW :: nat where
  "HASH_WINDOW = 0x100"

definition kSyntheticPoolBase :: u32 where
  "kSyntheticPoolBase = 0xC0000000"

definition kSyntheticPoolStride :: u32 where
  "kSyntheticPoolStride = 0x00100000"

definition variant_link_addr :: "nat \<Rightarrow> u32" where
  "variant_link_addr synthetic_variant_idx = kSyntheticPoolBase + word_of_nat synthetic_variant_idx * kSyntheticPoolStride"

definition content_hash_of :: "bytes \<Rightarrow> u64" where
  "content_hash_of body = fnv1a_64 (take (min HASH_WINDOW (length body)) body)"

definition dedupe_key :: "u64 \<Rightarrow> u32 \<Rightarrow> u64" where
  "dedupe_key content_hash orig_id = content_hash XOR push_bit 32 (ucast orig_id)"

text \<open>What the loop over the hits of one pattern changes.\<close>

record pattern_state =
  pt_ctx :: recompiler_context
  pt_next_rom :: u64
  pt_variants :: nat
  pt_seen :: "u64 set"

definition pattern_base_name :: "decompressed_section_pattern \<Rightarrow> string" where
  "pattern_base_name p = (if dp_base_name p = [] then ''frag_'' @ fmt_08X (dp_vram p) else dp_base_name p)"

definition hit_request ::
    "decompressed_section_pattern \<Rightarrow> jump_slot_seeds \<Rightarrow> u32 list \<Rightarrow> pattern_hit \<Rightarrow> u32 \<Rightarrow> nat \<Rightarrow> section_request" where
  "hit_request p seeds forced_function_vrams hit orig_id variant_idx =
     \<lparr>rq_blob = ph_body hit, rq_vram = ph_vram hit,
      rq_name = pattern_base_name p @ ''__rom_'' @ hex_nat (unat (ph_wrap_off hit)),
      rq_relocatable = dp_relocatable p, rq_content_hash = content_hash_of (ph_body hit),
      rq_link_ram_addr = variant_link_addr variant_idx, rq_original_pattern_id = orig_id,
      rq_extra_entry_offsets = seeds (ph_vram hit), rq_forced_function_vrams = forced_function_vrams\<rparr>"

definition add_hit ::
    "decoder \<Rightarrow> (u32 \<Rightarrow> u32 \<Rightarrow> bool) \<Rightarrow> decompressed_section_pattern \<Rightarrow> jump_slot_seeds \<Rightarrow> u32 list \<Rightarrow>
     pattern_hit \<Rightarrow> pattern_state \<Rightarrow> pattern_state outcome" where
  "add_hit decode links p seeds forced_function_vrams hit st =
     (case fragment_id_from_vram (ph_vram hit) of
        None \<Rightarrow> Done st
      | Some orig_id \<Rightarrow>
          let key = dedupe_key (content_hash_of (ph_body hit)) orig_id
          in if key \<in> pt_seen st then Done st
             else and_then (add_decompressed_section decode links
                 (hit_request p seeds forced_function_vrams hit orig_id (pt_variants st)) (pt_ctx st, pt_next_rom st)) (\<lambda>(ctx, next_rom).
               Done (st\<lparr>pt_ctx := ctx, pt_next_rom := next_rom, pt_variants := pt_variants st + 1, pt_seen := insert key (pt_seen st)\<rparr>)))"

text \<open>\<open>seen_hashes\<close> belongs to one pattern, \<open>synthetic_variant_idx\<close> to the call.\<close>

definition add_pattern ::
    "decoder \<Rightarrow> (u32 \<Rightarrow> u32 \<Rightarrow> bool) \<Rightarrow> bytes \<Rightarrow> section_patch list \<Rightarrow> u32 list \<Rightarrow> decompressed_section_pattern \<Rightarrow>
     pattern_state \<Rightarrow> pattern_state outcome" where
  "add_pattern decode links rom_file patches forced_function_vrams p st =
     and_then (pattern_hits rom_file patches p) (\<lambda>hits.
     and_then (fold_outcome hit_jump_slots hits (\<lambda>_. [])) (\<lambda>seeds.
     fold_outcome (add_hit decode links p seeds forced_function_vrams) hits (st\<lparr>pt_seen := {}\<rparr>)))"

definition synthesize_decompressed_patterns ::
    "decoder \<Rightarrow> (u32 \<Rightarrow> u32 \<Rightarrow> bool) \<Rightarrow> bytes \<Rightarrow> decompressed_section_pattern list \<Rightarrow> section_patch list \<Rightarrow> u32 list \<Rightarrow>
     recompiler_context \<times> u64 \<Rightarrow> (recompiler_context \<times> u64) outcome" where
  "synthesize_decompressed_patterns decode links rom_file patterns patches forced_function_vrams cn =
     (let (ctx, next_synthetic_rom) = cn
      in if patterns = [] then Done cn
         else if rom_file = [] then Fail
         else and_then (fold_outcome (add_pattern decode links rom_file patches forced_function_vrams) patterns
             \<lparr>pt_ctx = ctx, pt_next_rom = next_synthetic_rom, pt_variants = 0, pt_seen = {}\<rparr>) (\<lambda>st.
           Done (resolve_cross_section_targets (pt_ctx st) (word_of_nat (length (sections ctx))), pt_next_rom st)))"

end
