(* ===== verification/Fragment_Relocs.thy ===== *)
theory Fragment_Relocs
  imports Fragments Guest_Arithmetic
begin

text \<open>
  What holds of the first half of \<open>src/decompressed.cpp\<close>: extracting a fragment and reading its relocation table stay
  inside the bytes, an extracted fragment's table always parses, the relocations come out sorted and inside the body, a
  HI16/LO16 pair recovers the address its instructions load, and patches change the words they name only.
\<close>

section \<open>Extraction and the relocation table are memory safe\<close>

lemma decode_fragment_link_vram_safe: "decode_fragment_link_vram bs \<noteq> Undef" "decode_fragment_link_vram bs \<noteq> Fail"
  by (auto simp: decode_fragment_link_vram_def Let_def fragment_reads split: option.splits if_splits)

lemma try_extract_raw_fragment_safe: "try_extract_raw_fragment rom_bytes rom_offset \<noteq> Undef"
  by (auto simp: try_extract_raw_fragment_def Let_def fragment_reads decode_fragment_link_vram_safe split: option.splits if_splits)

lemma unat_add_offset: "unat a + unat b < 2 ^ 32 \<Longrightarrow> unat (a + b :: u32) = unat a + unat b"
  using unat_add_lem [of a b] by simp

lemma read_raw_reloc_safe:
  assumes "unat reloc_offset + 4 + 4 * n \<le> length bs" and "unat size_in_ram \<le> length bs" and "i < n"
  shows "\<exists>r. read_raw_reloc bs reloc_offset size_in_ram i = Done r"
proof -
  have "unat (4 * word_of_nat i :: u32) \<le> 4 * i"
    by (metis of_nat_mult of_nat_numeral unat_of_nat mod_le_divisor mod_less_eq_dividend)
  then obtain entry where e: "read_be_u32 bs (unat reloc_offset + 4 + unat (4 * word_of_nat i :: u32)) = Some entry"
    using assms by (cases "read_be_u32 bs (unat reloc_offset + 4 + unat (4 * word_of_nat i :: u32))") (auto simp: checked_reads)
  let ?off = "entry AND 0x00FFFFFF"
  have "?off \<le> 0x00FFFFFF" by (rule word_and_le1)
  then have "unat ?off \<le> 0x00FFFFFF" by (simp add: word_le_nat_alt)
  then have "unat (?off + 4) = unat ?off + 4" using unat_add_offset [of ?off 4] by simp
  then have "\<exists>w. read_be_u32 bs (unat ?off) = Some w" if "\<not> size_in_ram < ?off + 4"
    using that assms(2) by (cases "read_be_u32 bs (unat ?off)") (auto simp: checked_reads word_less_nat_alt)
  then show ?thesis using e by (auto simp: read_raw_reloc_def blob_word_def or_undef_def Let_def)
qed

lemma read_raw_relocs_safe:
  assumes "unat reloc_offset + 4 + 4 * n \<le> length bs" and "unat size_in_ram \<le> length bs"
  shows "set is \<subseteq> {..<n} \<Longrightarrow> \<exists>rs. read_raw_relocs bs reloc_offset size_in_ram is = Done rs"
proof (induction "is")
  case (Cons i "is")
  then show ?case using read_raw_reloc_safe [OF assms, of i] by auto
qed simp

text \<open>A table that fits is read completely; with less than 4 GB of data it is never read out of bounds.\<close>

lemma parse_fragment_relocs_total:
  assumes "0x20 \<le> length bs" and "slice bs 8 8 = fragment_magic"
    and "blob_word bs 0x14 = Done reloc_offset" and "blob_word bs 0x1C = Done size_in_ram" and "unat size_in_ram \<le> length bs"
    and "blob_word bs (unat reloc_offset) = Done n_relocs" and "unat reloc_offset + 4 + 4 * unat n_relocs \<le> length bs"
    and "length bs < 2 ^ 32"
  shows "\<exists>sec'. parse_fragment_relocs bs vram idx sec = Done sec'"
proof -
  have "unat (reloc_offset + 4) = unat reloc_offset + 4" using unat_add_offset [of reloc_offset 4] assms(7,8) by simp
  moreover obtain raw where "read_raw_relocs bs reloc_offset size_in_ram [0 ..< unat n_relocs] = Done raw"
    using read_raw_relocs_safe [OF assms(7,5), of "[0 ..< unat n_relocs]"] by (auto simp: lessThan_atLeast0)
  ultimately show ?thesis using assms by (simp add: parse_fragment_relocs_def matches_at_def Let_def)
qed

lemma parse_fragment_relocs_safe:
  assumes "length bs < 2 ^ 32 - 4"
  shows "parse_fragment_relocs bs vram idx sec \<noteq> Undef"
proof
  assume u: "parse_fragment_relocs bs vram idx sec = Undef"
  have len: "0x20 \<le> length bs" using u by (simp add: parse_fragment_relocs_def split: if_splits)
  then obtain m where m: "matches_at bs 8 fragment_magic = Done m" by (simp add: matches_at_def)
  obtain reloc_offset where r: "blob_word bs 0x14 = Done reloc_offset" using len by (cases "blob_word bs 0x14") (auto simp: blob_word_iff)
  obtain size_in_ram where z: "blob_word bs 0x1C = Done size_in_ram" using len by (cases "blob_word bs 0x1C") (auto simp: blob_word_iff)
  have le: "unat reloc_offset \<le> length bs" "unat size_in_ram \<le> length bs" "unat (reloc_offset + 4) \<le> length bs"
    using u by (auto simp: parse_fragment_relocs_def m r z not_less split: if_splits)
  then have r4: "unat (reloc_offset + 4) = unat reloc_offset + 4" using unat_add_offset [of reloc_offset 4] assms by simp
  then obtain n_relocs where n: "blob_word bs (unat reloc_offset) = Done n_relocs"
    using le by (cases "blob_word bs (unat reloc_offset)") (auto simp: blob_word_iff)
  have "unat reloc_offset + 4 + 4 * unat n_relocs \<le> length bs" and "slice bs 8 8 = fragment_magic"
    using u m by (auto simp: parse_fragment_relocs_def r z n r4 not_less matches_at_def split: if_splits)
  then show False using parse_fragment_relocs_total [OF len _ r z le(2) n, of vram idx sec] u assms by simp
qed

lemma unat_and_3: "unat (w AND 3 :: u32) = unat w mod 4"
proof -
  have "w AND 3 = take_bit 2 w" by (simp add: take_bit_eq_mask mask_eq_exp_minus_1)
  then show ?thesis by (simp only: unsigned_take_bit_eq) (simp add: take_bit_eq_mod)
qed

lemma read_be_u32_slice: "i + 4 \<le> n \<Longrightarrow> read_be_u32 (slice p off n) i = read_be_u32 p (off + i)"
  by (simp add: slice_def read_be_u32_take read_be_u32_drop)

text \<open>What extraction promises of the bytes and of the information about them.\<close>

lemma decode_fragment_link_vram_None: "length bs < 0x20 \<Longrightarrow> decode_fragment_link_vram bs = Done None"
  by (simp add: decode_fragment_link_vram_def)

lemma extracted_bytes:
  assumes "try_extract_raw_fragment rom_bytes rom_offset = Done (blob, info)"
  shows "blob = slice rom_bytes (unat rom_offset) (length blob)" and "unat rom_offset + length blob \<le> length rom_bytes"
    and "0x24 \<le> length blob" and "length blob \<le> 0x400000" and "length blob = unat (rf_blob_size info)"
    and "slice blob 8 8 = fragment_magic" and "blob_word blob 0x14 = Done (rf_reloc_offset info)"
    and "unat (rf_reloc_offset info) mod 4 = 0" and "0x20 \<le> unat (rf_reloc_offset info)"
    and "\<exists>n size. blob_word blob (unat (rf_reloc_offset info)) = Done n \<and> blob_word blob 0x1C = Done size \<and>
           unat (rf_reloc_offset info) + 4 + 4 * unat n \<le> length blob \<and> unat size \<le> length blob"
proof -
  let ?base = "drop (unat rom_offset) rom_bytes"
  obtain reloc_offset hint sz n where c:
      "slice ?base 8 8 = fragment_magic" "read_be_u32 ?base 0x14 = Some reloc_offset" "read_be_u32 ?base 0x1C = Some sz"
      "reloc_offset AND 3 = 0" "0x20 \<le> reloc_offset" "read_be_u32 ?base (unat reloc_offset) = Some n"
      "raw_blob_size reloc_offset hint sz n \<le> 0x400000"
      "unat rom_offset + raw_blob_size reloc_offset hint sz n \<le> length rom_bytes"
      "blob = slice ?base 0 (raw_blob_size reloc_offset hint sz n)" "rf_reloc_offset info = reloc_offset"
      "rf_blob_size info = of_nat (raw_blob_size reloc_offset hint sz n)"
    using assms by (auto simp: try_extract_raw_fragment_def Let_def fragment_reads not_less split: if_splits option.splits)
  define k where "k = raw_blob_size reloc_offset hint sz n"
  have k: "unat reloc_offset + 4 + 4 * unat n \<le> k" "unat sz \<le> k" by (auto simp: k_def raw_blob_size_def Let_def)
  have ro: "0x20 \<le> unat reloc_offset" using c(5) by (simp add: word_le_nat_alt)
  have al: "unat reloc_offset mod 4 = 0" using c(4) unat_and_3 [of reloc_offset] by simp
  have len: "length blob = k" using c(8,9) by (simp add: k_def)
  have blob: "blob = slice rom_bytes (unat rom_offset) k" using c(9) by (simp add: slice_def k_def)
  have rd: "blob_word blob i = or_undef (read_be_u32 ?base i)" if "i + 4 \<le> k" for i
    using that by (simp add: blob_word_def blob read_be_u32_slice read_be_u32_drop)
  show "blob = slice rom_bytes (unat rom_offset) (length blob)" "unat rom_offset + length blob \<le> length rom_bytes"
    using c(8) blob len by (simp_all add: k_def)
  show "0x24 \<le> length blob" "length blob \<le> 0x400000" "length blob = unat (rf_blob_size info)"
    using k ro len c(7,11) by (simp_all add: k_def [symmetric] unat_of_nat)
  show "slice blob 8 8 = fragment_magic"
    using c(1) k ro slice_take [of 8 8 k ?base] by (simp add: blob slice_def)
  show "blob_word blob 0x14 = Done (rf_reloc_offset info)" using c(2,10) rd k ro by (simp add: or_undef_def)
  show "unat (rf_reloc_offset info) mod 4 = 0" "0x20 \<le> unat (rf_reloc_offset info)" using al ro c(10) by simp_all
  show "\<exists>n size. blob_word blob (unat (rf_reloc_offset info)) = Done n \<and> blob_word blob 0x1C = Done size \<and>
      unat (rf_reloc_offset info) + 4 + 4 * unat n \<le> length blob \<and> unat size \<le> length blob"
    using rd c(3,6,10) k ro len by (simp add: or_undef_def)
qed


lemma extracted_relocs_parse:
  assumes "try_extract_raw_fragment rom_bytes rom_offset = Done (blob, info)"
  shows "\<exists>sec'. parse_fragment_relocs blob vram idx sec = Done sec'"
proof -
  note e = extracted_bytes [OF assms]
  obtain n sz where n: "blob_word blob (unat (rf_reloc_offset info)) = Done n" "blob_word blob 0x1C = Done sz"
    "unat (rf_reloc_offset info) + 4 + 4 * unat n \<le> length blob" "unat sz \<le> length blob"
    using e(10) by blast
  show ?thesis using e(3,4) n by (intro parse_fragment_relocs_total [OF _ e(6,7) n(2,4,1,3)]) simp_all
qed

section \<open>The parsed relocations\<close>

text \<open>Sorted by address, each inside the body and of one of the four known types, all of them aimed at the section itself.\<close>

definition reloc_in_body :: "u32 \<Rightarrow> u16 \<Rightarrow> u32 \<Rightarrow> reloc \<Rightarrow> bool" where
  "reloc_in_body vram idx size_in_ram r \<longleftrightarrow>
     unat (rel_address r - vram) + 4 \<le> unat size_in_ram \<and> rel_target_section r = idx \<and> \<not> rel_reference_symbol r \<and>
     rel_type r \<in> {R_MIPS_32, R_MIPS_26, R_MIPS_HI16, R_MIPS_LO16}"

lemma known_reloc_types:
  "translate_stadium_reloc_type t \<noteq> R_MIPS_NONE \<Longrightarrow>
   translate_stadium_reloc_type t \<in> {R_MIPS_32, R_MIPS_26, R_MIPS_HI16, R_MIPS_LO16}"
  by (auto simp: translate_stadium_reloc_type_def split: if_splits)

lemma read_raw_reloc_in_body:
  assumes "read_raw_reloc bs reloc_offset size_in_ram i = Done (Some r)"
  shows "unat (rr_section_offset r) + 4 \<le> unat size_in_ram" and "rr_type r \<in> {R_MIPS_32, R_MIPS_26, R_MIPS_HI16, R_MIPS_LO16}"
proof -
  obtain entry where r: "rr_type r = translate_stadium_reloc_type (ucast (drop_bit 24 entry AND 0x7F))"
      "rr_section_offset r = entry AND 0x00FFFFFF" "rr_type r \<noteq> R_MIPS_NONE" "\<not> size_in_ram < (entry AND 0x00FFFFFF) + 4"
    using assms by (auto simp: read_raw_reloc_def Let_def fragment_reads split: if_splits)
  show "rr_type r \<in> {R_MIPS_32, R_MIPS_26, R_MIPS_HI16, R_MIPS_LO16}" using known_reloc_types r(1,3) by simp
  have "entry AND 0x00FFFFFF \<le> 0x00FFFFFF" by (rule word_and_le1)
  then have "unat (entry AND 0x00FFFFFF) \<le> 0x00FFFFFF" by (simp add: word_le_nat_alt)
  then show "unat (rr_section_offset r) + 4 \<le> unat size_in_ram"
    using unat_add_offset [of "entry AND 0x00FFFFFF" 4] r(2,4) by (simp add: word_less_nat_alt)
qed

lemma read_raw_relocs_in_body:
  "read_raw_relocs bs reloc_offset size_in_ram is = Done rs \<Longrightarrow> r \<in> set rs \<Longrightarrow>
   unat (rr_section_offset r) + 4 \<le> unat size_in_ram \<and> rr_type r \<in> {R_MIPS_32, R_MIPS_26, R_MIPS_HI16, R_MIPS_LO16}"
proof (induction "is" arbitrary: rs)
  case (Cons i "is")
  then show ?case using read_raw_reloc_in_body [of bs reloc_offset size_in_ram i]
    by (auto simp: and_then_Done split: option.splits)
qed simp

lemma parse_fragment_relocs_parts:
  assumes "parse_fragment_relocs bs vram idx sec = Done sec'"
  obtains reloc_offset size_in_ram n_relocs raw where
    "blob_word bs 0x14 = Done reloc_offset" "blob_word bs 0x1C = Done size_in_ram" "unat reloc_offset \<le> length bs"
    "blob_word bs (unat reloc_offset) = Done n_relocs"
    "read_raw_relocs bs reloc_offset size_in_ram [0 ..< unat n_relocs] = Done raw"
    "sec' = sec\<lparr>sec_relocs := sort_key rel_address (sec_relocs sec @ map (make_reloc vram idx raw) [0 ..< length raw]),
       sec_has_mips32_relocs := sec_has_mips32_relocs sec \<or> (\<exists>r \<in> set raw. rr_type r = R_MIPS_32)\<rparr>"
  using assms by (auto simp: parse_fragment_relocs_def and_then_Done Let_def not_less split: if_splits)

lemma parsed_relocs_iff:
  assumes "parse_fragment_relocs bs vram idx sec = Done sec'" and "sec_relocs sec = []"
  shows "sorted (map rel_address (sec_relocs sec')) \<and>
    (\<exists>size_in_ram. blob_word bs 0x1C = Done size_in_ram \<and> (\<forall>r \<in> set (sec_relocs sec'). reloc_in_body vram idx size_in_ram r)) \<and>
    (sec_has_mips32_relocs sec' \<longleftrightarrow> sec_has_mips32_relocs sec \<or> (\<exists>r \<in> set (sec_relocs sec'). rel_type r = R_MIPS_32))"
proof -
  obtain reloc_offset size_in_ram n_relocs raw where "blob_word bs 0x14 = Done reloc_offset"
    and p1: "blob_word bs 0x1C = Done size_in_ram" and "unat reloc_offset \<le> length bs" "blob_word bs (unat reloc_offset) = Done n_relocs"
    and p2: "read_raw_relocs bs reloc_offset size_in_ram [0 ..< unat n_relocs] = Done raw"
    and p3: "sec' = sec\<lparr>sec_relocs := sort_key rel_address (sec_relocs sec @ map (make_reloc vram idx raw) [0 ..< length raw]),
       sec_has_mips32_relocs := sec_has_mips32_relocs sec \<or> (\<exists>r \<in> set raw. rr_type r = R_MIPS_32)\<rparr>"
    by (rule parse_fragment_relocs_parts [OF assms(1)])
  have "reloc_in_body vram idx size_in_ram (make_reloc vram idx raw i)" if "i < length raw" for i
    using read_raw_relocs_in_body [OF p2 nth_mem [OF that]] by (auto simp: reloc_in_body_def make_reloc_def)
  moreover have "(\<exists>r \<in> set raw. rr_type r = R_MIPS_32) \<longleftrightarrow> (\<exists>i < length raw. rel_type (make_reloc vram idx raw i) = R_MIPS_32)"
    by (auto simp: make_reloc_def in_set_conv_nth Bex_def)
  ultimately show ?thesis using p1 p3 assms(2) by auto
qed


section \<open>Pairs of HI16 and LO16\<close>

lemma next_lo16_Some:
  assumes "i < j" and "j < length raw" and "rr_type (raw ! j) = R_MIPS_LO16"
    and "\<And>m. i < m \<Longrightarrow> m < j \<Longrightarrow> rr_type (raw ! m) \<noteq> R_MIPS_LO16"
  shows "next_lo16 raw i = Some (raw ! j)"
  unfolding next_lo16_def find_Some_iff
proof (intro exI [of _ "j - Suc i"] conjI allI impI)
  fix m assume "m < j - Suc i"
  then show "rr_type (drop (i + 1) raw ! m) \<noteq> R_MIPS_LO16" using assms(1,2) assms(4) [of "i + 1 + m"] by (simp add: nth_drop)
qed (use assms(1-3) in \<open>simp_all add: nth_drop\<close>)

lemma previous_hi16_Some:
  assumes "i < j" and "j < length raw" and "rr_type (raw ! i) = R_MIPS_HI16"
    and "\<And>m. i < m \<Longrightarrow> m < j \<Longrightarrow> rr_type (raw ! m) \<noteq> R_MIPS_HI16"
  shows "previous_hi16 raw j = Some (raw ! i)"
  unfolding previous_hi16_def find_Some_iff
proof (intro exI [of _ "j - Suc i"] conjI allI impI)
  fix m assume "m < j - Suc i"
  then show "rr_type (rev (take j raw) ! m) \<noteq> R_MIPS_HI16" using assms(1,2) assms(4) [of "j - Suc m"] by (simp add: rev_nth)
qed (use assms(1-3) in \<open>simp_all add: rev_nth\<close>)

lemma combined_address_of_halves:
  assumes "rr_word hi AND 0xFFFF = HI16 addr AND 0xFFFF" and "rr_word lo AND 0xFFFF = LO16 addr"
  shows "combined_address hi lo = addr"
proof -
  have "push_bit 16 (ucast (ucast (HI16 addr AND 0xFFFF) :: u16) :: u32) = push_bit 16 (HI16 addr)"
  proof (rule bit_eqI)
    fix n assume n: "possible_bit TYPE(u32) n"
    have m: "(0xFFFF :: u32) = mask 16" by (simp add: mask_eq_exp_minus_1)
    show "bit (push_bit 16 (ucast (ucast (HI16 addr AND 0xFFFF) :: u16) :: u32)) n = bit (push_bit 16 (HI16 addr)) n"
      using n unfolding m by (auto simp: bit_simps)
  qed
  then show ?thesis unfolding combined_address_def assms by (simp add: HI16_LO16_sum)
qed

lemma reloc_pair_iff:
  assumes "i < j" and "j < length raw" and "rr_type (raw ! i) = R_MIPS_HI16" and "rr_type (raw ! j) = R_MIPS_LO16"
    and "\<And>m. i < m \<Longrightarrow> m < j \<Longrightarrow> rr_type (raw ! m) \<noteq> R_MIPS_HI16 \<and> rr_type (raw ! m) \<noteq> R_MIPS_LO16"
    and "rr_word (raw ! i) AND 0xFFFF = HI16 addr AND 0xFFFF" and "rr_word (raw ! j) AND 0xFFFF = LO16 addr"
  shows "reloc_target_offset vram raw i = addr - vram \<and> reloc_target_offset vram raw j = addr - vram"
  using assms next_lo16_Some [of i j raw] previous_hi16_Some [of i j raw] combined_address_of_halves [of "raw ! i" addr "raw ! j"]
  by (simp add: reloc_target_offset_def reloc_type_defs)

section \<open>Patches\<close>

definition patched_words :: "u32 \<Rightarrow> u32 \<Rightarrow> section_patch list \<Rightarrow> nat set" where
  "patched_words rom_wrapper vram patches =
     (\<Union>p \<in> {p \<in> set patches. patch_applies rom_wrapper vram p}. {unat (pa_offset p) ..< unat (pa_offset p) + 4})"

lemma patched_words_Cons [simp]:
  "patched_words rom_wrapper vram (p # ps) =
     (if patch_applies rom_wrapper vram p then {unat (pa_offset p) ..< unat (pa_offset p) + 4} else {}) \<union>
     patched_words rom_wrapper vram ps"
  by (auto simp: patched_words_def)

lemma write_be_u32_Done:
  "write_be_u32 p i v = Done p' \<longleftrightarrow>
     i + 4 \<le> length p \<and> p' = p[i := byte_of 3 v, i + 1 := byte_of 2 v, i + 2 := byte_of 1 v, i + 3 := byte_of 0 v]"
  by (auto simp: write_be_u32_def)

lemma write_be_u32_frame:
  "write_be_u32 p i v = Done p' \<Longrightarrow> length p' = length p \<and> (\<forall>k. k \<notin> {i ..< i + 4} \<longrightarrow> p' ! k = p ! k)"
  by (auto simp: write_be_u32_Done)

lemma patches_change_only:
  "apply_decompressed_section_patches blob rom_wrapper vram patches = Done blob' \<Longrightarrow>
   length blob' = length blob \<and> (\<forall>i. i \<notin> patched_words rom_wrapper vram patches \<longrightarrow> blob' ! i = blob ! i)"
proof (induction blob rom_wrapper vram patches arbitrary: blob' rule: apply_decompressed_section_patches.induct)
  case (2 blob rom_wrapper vram patch patches)
  show ?case
  proof (cases "patch_applies rom_wrapper vram patch")
    case True
    let ?o = "unat (pa_offset patch)"
    obtain b where b: "write_be_u32 blob ?o (pa_value patch) = Done b"
      "apply_decompressed_section_patches b rom_wrapper vram patches = Done blob'"
      using "2.prems" True by (auto simp: and_then_Done split: if_splits)
    have "\<not> length blob < ?o + 4" using "2.prems" True by (auto split: if_splits)
    then have "length blob' = length b \<and> (\<forall>i. i \<notin> patched_words rom_wrapper vram patches \<longrightarrow> blob' ! i = b ! i)"
      using "2.IH"(2) [of b blob'] True b by simp
    then show ?thesis using write_be_u32_frame [OF b(1)] True by auto
  next
    case False
    then show ?thesis using "2.IH"(1) [of blob'] "2.prems" by auto
  qed
qed simp

lemma patches_safe: "apply_decompressed_section_patches blob rom_wrapper vram patches \<noteq> Undef"
  by (induction blob rom_wrapper vram patches rule: apply_decompressed_section_patches.induct)
     (auto simp: and_then_Undef write_be_u32_def)


section \<open>The properties\<close>

text \<open>C36: extraction and parsing compose. Extracting a raw fragment never reads outside the ROM; when it succeeds, the bytes are those
  of the ROM at that offset, at most 4 MB and with the body inside them, and their relocation table parses without a failure.\<close>

theorem extracted_fragment_parses:
  "try_extract_raw_fragment rom_bytes rom_offset \<noteq> Undef \<and>
   (\<forall>blob info. try_extract_raw_fragment rom_bytes rom_offset = Done (blob, info) \<longrightarrow>
      blob = slice rom_bytes (unat rom_offset) (length blob) \<and> length blob = unat (rf_blob_size info) \<and>
      unat (rf_blob_size info) \<le> 0x400000 \<and> unat (rf_reloc_offset info) mod 4 = 0 \<and>
      0x20 \<le> unat (rf_reloc_offset info) \<and> unat (rf_reloc_offset info) + 4 \<le> length blob \<and>
      (\<forall>vram idx sec. \<exists>sec'. parse_fragment_relocs blob vram idx sec = Done sec'))"
proof (intro conjI allI impI)
  fix blob info assume e: "try_extract_raw_fragment rom_bytes rom_offset = Done (blob, info)"
  note b = extracted_bytes [OF e]
  show "blob = slice rom_bytes (unat rom_offset) (length blob)" "length blob = unat (rf_blob_size info)"
    "unat (rf_blob_size info) \<le> 0x400000" "unat (rf_reloc_offset info) mod 4 = 0" "0x20 \<le> unat (rf_reloc_offset info)"
    using b by simp_all
  show "unat (rf_reloc_offset info) + 4 \<le> length blob" using b(10) by auto
  show "\<exists>sec'. parse_fragment_relocs blob vram idx sec = Done sec'" for vram idx sec by (rule extracted_relocs_parse [OF e])
qed (rule try_extract_raw_fragment_safe)

text \<open>C37: the relocations of a parsed table are sorted by address, lie in the part of the fragment that is in memory, have one of the four
  known types and the section itself as target; the section is marked as having absolute pointers when one of them is R_MIPS_32.\<close>

theorem parsed_relocs_sorted:
  assumes "parse_fragment_relocs bs vram idx sec = Done sec'" and "sec_relocs sec = []"
  shows "sorted (map rel_address (sec_relocs sec')) \<and>
    (\<exists>size_in_ram. blob_word bs 0x1C = Done size_in_ram \<and> (\<forall>r \<in> set (sec_relocs sec'). reloc_in_body vram idx size_in_ram r)) \<and>
    (sec_has_mips32_relocs sec' \<longleftrightarrow> sec_has_mips32_relocs sec \<or> (\<exists>r \<in> set (sec_relocs sec'). rel_type r = R_MIPS_32))"
  by (rule parsed_relocs_iff [OF assms])

section \<open>An example\<close>

text \<open>\<open>lui $a0, 0x8011; jr $ra; addiu $a0, $a0, -0x7FD4\<close> and a pointer, with a table of three relocations, linked at 0x80100000.\<close>

definition sample_fragment :: bytes where
  "sample_fragment =
     [0x08, 0x04, 0x00, 0x08, 0, 0, 0, 0] @ ascii ''FRAGMENT'' @
     [0, 0, 0, 0x20, 0, 0, 0, 0x30, 0, 0, 0, 0x40, 0, 0, 0, 0x30,
      0x3C, 0x04, 0x80, 0x11, 0x03, 0xE0, 0x00, 0x08, 0x24, 0x84, 0x80, 0x2C, 0x80, 0x10, 0x00, 0x20,
      0, 0, 0, 3, 0x05, 0, 0, 0x20, 0x06, 0, 0, 0x28, 0x02, 0, 0, 0x2C]"

lemma sample_values:
  "length sample_fragment = 0x40" "decode_fragment_j_target (take 4 sample_fragment) = Some 0x80100020"
  "decode_fragment_link_vram (take 0x20 sample_fragment) = Done (Some 0x80100000)"
  "blob_word sample_fragment 4 = Done 0" "matches_at sample_fragment 8 fragment_magic = Done True"
  "blob_word sample_fragment 0x14 = Done 0x30" "blob_word sample_fragment 0x18 = Done 0x40"
  "blob_word sample_fragment 0x1C = Done 0x30" "blob_word sample_fragment 0x30 = Done 3"
  by code_simp+

lemma sample_extracted:
  "try_extract_raw_fragment sample_fragment 0 = Done (sample_fragment,
     \<lparr>rf_link_vram = 0x80100000, rf_j_target = 0x80100020, rf_reloc_offset = 0x30, rf_blob_size = 0x40\<rparr>)"
  using sample_values by (simp add: try_extract_raw_fragment_def raw_blob_size_def copy_from_def slice_def)

lemma extracted_fragment_parses_witness: "\<exists>sec'. parse_fragment_relocs sample_fragment 0x80100000 3 section_default = Done sec'"
  using extracted_fragment_parses [of sample_fragment 0] sample_extracted by blast

lemma parsed_relocs_sorted_witness:
  "\<exists>sec'. parse_fragment_relocs sample_fragment 0x80100000 3 section_default = Done sec' \<and> sorted (map rel_address (sec_relocs sec'))"
proof -
  obtain sec' where p: "parse_fragment_relocs sample_fragment 0x80100000 3 section_default = Done sec'"
    using extracted_relocs_parse [OF sample_extracted] by blast
  then show ?thesis using parsed_relocs_sorted [OF p] by (simp add: section_default_def)
qed

end
