(* ===== verification/Fragment_Invariants.thy ===== *)
theory Fragment_Invariants
  imports Fragment_Sections Fragment_Relocs
begin

text \<open>
  Rules for invariants of the synthesis of a section's functions. A property that emitting a function, adding an alias and adding
  a dispatch label keep is kept by the search of the gaps, the continuations, the return labels and the forced entries.
\<close>

section \<open>Rules for invariants\<close>

text \<open>An invariant of the four operations that change the state is one of the whole discovery; every place where a function is added
  is a multiple of four.\<close>

lemma offset_mod_4: "w AND 3 = (0 :: u32) \<Longrightarrow> unat w mod 4 = 0"
  using unat_and_3 [of w] by simp

lemma body_start_aligned:
  assumes "find_dynamic_continuation_body_start fr off s e = Done start" and "off mod 4 = 0"
  shows "start mod 4 = 0"
proof -
  have "b' mod 4 = 0" if "scan_body_start fr off s scans b = Done b'" "b mod 4 = 0" for scans b b'
    using that
  proof (induction scans arbitrary: b)
    case (Cons x xs)
    have "pull_body_start fr off s x w b mod 4 = 0" for w
      using Cons.prems(2) offset_mod_4 by (auto simp: pull_body_start_def min_def split: option.splits)
    then show ?case using Cons.prems Cons.IH by (auto simp: and_then_Done Let_def split: if_splits)
  qed simp
  then show ?thesis using assms by (auto simp: find_dynamic_continuation_body_start_def)
qed

locale synthesis_invariant =
  fixes fr :: fragment and I :: "synthesis \<Rightarrow> bool"
  assumes emitting: "I st \<Longrightarrow> e mod 4 = 0 \<Longrightarrow> e \<notin> sy_emitted st \<Longrightarrow> named \<notin> sy_emitted st \<Longrightarrow> \<not> bad_extent fr e sz m \<Longrightarrow>
      e \<le> named \<Longrightarrow> named < e + sz \<Longrightarrow> v = 0 \<and> named = e \<or> v = vram_at fr named \<Longrightarrow>
      emit_function fr e sz named v st = Done st' \<Longrightarrow> I (st'\<lparr>sy_emitted := insert named (sy_emitted st')\<rparr>)"
    and aliasing: "I st \<Longrightarrow> add_dispatch_alias fr p e st = Done (b, st') \<Longrightarrow> I st'"
    and labelling: "I st \<Longrightarrow> add_dispatch_label_only fr p e st = Done st' \<Longrightarrow> I st'"
    and aligned: "I st \<Longrightarrow> (s, e) \<in> set (sy_ranges st) \<Longrightarrow> s mod 4 = 0"
begin

lemma discover_invariant:
  assumes "I st" and "e mod 4 = 0" and "discover_and_add_function fr e m h st = Done (b, st')"
  shows "I st'"
proof -
  consider "st' = st" | sz where "e \<notin> sy_emitted st" "\<not> bad_extent fr e sz m" "emit_function fr e sz e 0 st = Done st'"
    using assms(3) by (auto simp: discover_and_add_function_def soft_failure_def added_def and_then_Done split: if_splits option.splits)
  then show ?thesis
  proof cases
    case 2
    then have "st'\<lparr>sy_emitted := insert e (sy_emitted st')\<rparr> = st'" using emit_function_sets [OF 2(3)] by (simp add: insert_absorb)
    then show ?thesis using emitting [OF assms(1,2) 2(1) 2(1) 2(2) _ _ _ 2(3)] 2(2) by (simp add: bad_extent_def)
  qed (use assms(1) in simp)
qed

lemma known_size_invariant:
  assumes "I st" and "e mod 4 = 0" and "add_known_size_function fr e sz m d st = Done (b, st')"
  shows "I st'"
proof -
  define named where "named = (if d \<noteq> 0 then d else e)"
  consider "st' = st" | st1 where "e \<notin> sy_emitted st" "named \<notin> sy_emitted st" "\<not> bad_extent fr e sz m" "e \<le> named" "named < e + sz"
    "emit_function fr e sz named (vram_at fr named) st = Done st1" "st' = st1\<lparr>sy_emitted := insert named (sy_emitted st1)\<rparr>"
    using assms(3) by (auto simp: add_known_size_function_def added_def and_then_Done Let_def named_def not_less split: if_splits)
  then show ?thesis
  proof cases
    case 2
    show ?thesis unfolding 2(7) by (rule emitting [OF assms(1,2) 2(1-5) _ 2(6)]) simp
  qed (use assms(1) in simp)
qed

lemma first_added_invariant:
  assumes "\<And>x st b st'. x \<in> set xs \<Longrightarrow> I st \<Longrightarrow> f x st = Done (b, st') \<Longrightarrow> I st'"
  shows "I st \<Longrightarrow> first_added f xs st = Done (b, st') \<Longrightarrow> I st'"
  using assms
proof (induction xs arbitrary: st)
  case (Cons x xs)
  then obtain c s1 where s1: "f x st = Done (c, s1)" "if c then st' = s1 else first_added f xs s1 = Done (b, st')"
    by (auto simp: and_then_Done split: if_splits)
  have "I s1" by (rule Cons.prems(3) [OF _ Cons.prems(1) s1(1)]) simp
  moreover have "I st'" if "first_added f xs s1 = Done (b, st')"
    using \<open>I s1\<close> that by (rule Cons.IH) (rule Cons.prems(3), simp_all)
  ultimately show ?case using s1(2) by (cases c) simp_all
qed simp

lemma or_else_invariant:
  assumes "or_else r f = Done (b, st')" and "\<And>c s1. r = Done (c, s1) \<Longrightarrow> I s1"
    and "\<And>s1 c s2. I s1 \<Longrightarrow> f s1 = Done (c, s2) \<Longrightarrow> I s2"
  shows "I st'"
proof -
  obtain c s1 where r: "r = Done (c, s1)" "if c then st' = s1 else f s1 = Done (b, st')"
    using assms(1) by (auto simp: or_else_def and_then_Done split: if_splits)
  from assms(2) [OF r(1)] have "I s1" .
  then show ?thesis using r(2) assms(3) [of s1 b st'] by (cases c) simp_all
qed

lemma if_so_invariant:
  "if_so t r st = Done (b, st') \<Longrightarrow> I st \<Longrightarrow> (\<And>b st'. t = Done True \<Longrightarrow> r = Done (b, st') \<Longrightarrow> I st') \<Longrightarrow> I st'"
  by (auto simp: if_so_def and_then_Done split: if_splits)

lemma try_invariant:
  "try_prologue fr g x st = Done (b, st') \<Longrightarrow> I st \<Longrightarrow> I st'"
  "try_fallthrough fr g ov x st = Done (b, st') \<Longrightarrow> I st \<Longrightarrow> I st'"
  "try_leaf fr gb g x st = Done (b, st') \<Longrightarrow> I st \<Longrightarrow> I st'"
proof -
  show "I st'" if t: "try_prologue fr g x st = Done (b, st')" and i: "I st"
    using t unfolding try_prologue_def
  proof (rule if_so_invariant [OF _ i])
    fix b st' assume "looks_like_gap_function_entry fr x = Done True" and d: "discover_and_add_function fr x g False st = Done (b, st')"
    then have "x mod 4 = 0" by (auto simp: looks_like_gap_function_entry_def split: if_splits)
    then show "I st'" using discover_invariant [OF i _ d] by simp
  qed
  show "I st'" if t: "try_fallthrough fr g ov x st = Done (b, st')" and i: "I st"
    using t unfolding try_fallthrough_def
  proof (rule if_so_invariant [OF _ i])
    fix b st' assume "looks_like_fallthrough_gap_function_entry fr x g ov = Done True"
      and d: "discover_and_add_function fr x ov False st = Done (b, st')"
    then have "x mod 4 = 0" by (auto simp: looks_like_fallthrough_gap_function_entry_def split: if_splits)
    then show "I st'" using discover_invariant [OF i _ d] by simp
  qed
  show "I st'" if t: "try_leaf fr gb g x st = Done (b, st')" and i: "I st"
  proof -
    obtain leaf where l: "looks_like_leaf_gap_function_entry fr x gb g = Done leaf"
      and r: "(case leaf of None \<Rightarrow> Done (False, st) | Some func_size \<Rightarrow> add_known_size_function fr x func_size g 0 st) = Done (b, st')"
      using t by (auto simp: try_leaf_def and_then_Done)
    show ?thesis
    proof (cases leaf)
      case (Some sz)
      then have "x mod 4 = 0" using l by (auto simp: looks_like_leaf_gap_function_entry_def Let_def split: if_splits)
      then show ?thesis using known_size_invariant [OF i] r Some by simp
    qed (use r i in simp)
  qed
qed

lemma scan_gap_invariant: "scan_gap_for_function fr gs ge ov st = Done (b, st') \<Longrightarrow> I st \<Longrightarrow> I st'"
  unfolding scan_gap_for_function_def Let_def
  by (elim or_else_invariant first_added_invariant [rotated 2]) (auto elim: try_invariant first_added_invariant [rotated 2] or_else_invariant)

lemma gap_pass_invariant: "gap_pass fr gs ranges st = Done (b, st') \<Longrightarrow> I st \<Longrightarrow> I st'"
proof (induction ranges arbitrary: gs st b st')
  case Nil
  then show ?case using scan_gap_invariant by (auto split: if_splits)
next
  case (Cons r ranges)
  obtain s e where r: "r = (s, e)" by (cases r)
  show ?case
  proof (cases "e \<le> gs")
    case True
    then show ?thesis using Cons.IH [of gs st b st'] Cons.prems r by simp
  next
    case False
    have o: "or_else (if gs < s then scan_gap_for_function fr gs s e st else Done (False, st)) (gap_pass fr (max gs e) ranges) = Done (b, st')"
      using Cons.prems(1) False r by simp
    show ?thesis
    proof (rule or_else_invariant [OF o])
      show "I s1" if "(if gs < s then scan_gap_for_function fr gs s e st else Done (False, st)) = Done (c, s1)" for c s1
        using that Cons.prems(2) scan_gap_invariant [of gs s e st c s1] by (simp split: if_splits)
      show "I s2" if "I s1" "gap_pass fr (max gs e) ranges s1 = Done (c, s2)" for s1 c s2
        using that(2,1) by (rule Cons.IH)
    qed
  qed
qed

lemma gap_loop_invariant: "gap_loop fr st = Done st' \<Longrightarrow> I st \<Longrightarrow> I st'"
proof (induction "to_find fr st" arbitrary: st rule: less_induct)
  case less
  obtain b st1 where p: "gap_pass fr IMPL_OFFSET (sort (sy_ranges st)) st = Done (b, st1)"
    and r: "if b then gap_loop fr st1 = Done st' else st1 = st'"
    using less.prems(1) by (subst (asm) gap_loop.simps) (auto simp: and_then_Done split: if_splits)
  have i: "I st1" by (rule gap_pass_invariant [OF p less.prems(2)])
  show ?case
  proof (cases b)
    case True
    then show ?thesis using less.hyps [of st1] grown_to_find gap_pass_grown [OF p] r i by simp
  qed (use r i in simp)
qed

lemma dynamic_continuation_invariant:
  assumes "dynamic_continuation fr s e off st = Done (b, st')" and "I st" and "off mod 4 = 0"
  shows "I st'"
proof -
  obtain start where f: "find_dynamic_continuation_body_start fr off s e = Done start"
    using assms(1) by (auto simp: dynamic_continuation_def and_then_Done)
  have r: "st' = st \<or> (\<exists>sz. add_known_size_function fr start sz e off st = Done (b, st'))"
    using assms(1) by (cases "bounds_at fr (word_of_nat start)")
      (auto simp: dynamic_continuation_def f Let_def and_then_Done split: if_splits)
  note k = known_size_invariant [OF assms(2) body_start_aligned [OF f assms(3)]]
  show ?thesis using r assms(2) by (auto dest: k)
qed

lemma static_continuation_invariant: "static_continuation fr s e off st = Done (b, st') \<Longrightarrow> I st \<Longrightarrow> I st'"
  unfolding static_continuation_def by (erule if_so_invariant) (auto split: option.splits intro: aliasing)

lemma small_continuation_invariant:
  assumes "small_continuation fr e off bst = Done bst'" and "I (snd bst)" and "off mod 4 = 0"
  shows "I (snd bst')"
proof -
  have al: "(off + 8) mod 4 = 0" using assms(3) by presburger
  have "snd bst' = snd bst \<or> (\<exists>c. discover_and_add_function fr (off + 8) e False (snd bst) = Done (c, snd bst'))"
    using assms(1) by (cases bst) (auto simp: small_continuation_def Let_def and_then_Done noting_def split: if_splits)
  then show ?thesis using discover_invariant [OF assms(2) al] assms(2) by metis
qed

lemma large_continuation_invariant:
  assumes "large_continuation fr s e off bst = Done bst'" and "I (snd bst)" and "off mod 4 = 0"
  shows "I (snd bst')"
proof -
  have al: "(off + 8) mod 4 = 0" using assms(3) by presburger
  have "snd bst' = snd bst \<or> (\<exists>c. dynamic_continuation fr s e (off + 8) (snd bst) = Done (c, snd bst')) \<or>
      (\<exists>c. static_continuation fr s e (off + 8) (snd bst) = Done (c, snd bst'))"
    using assms(1) by (cases bst) (auto simp: large_continuation_def Let_def and_then_Done noting_def split: if_splits)
  then show ?thesis using dynamic_continuation_invariant [OF _ assms(2) al] static_continuation_invariant [OF _ assms(2)] assms(2) by metis
qed

lemma range_invariant:
  assumes "fst r mod 4 = 0" and "I (snd bst)"
  shows "small_range fr r bst = Done bst' \<Longrightarrow> I (snd bst')" and "large_range fr r bst = Done bst' \<Longrightarrow> I (snd bst')"
proof -
  let ?offs = "word_offsets (fst r) (snd r - 7)"
  have al: "off mod 4 = 0" if "off \<in> set ?offs" for off
    using that assms(1) unfolding set_word_offsets by presburger
  have small: "I (snd bst1)" if "fold_outcome (small_continuation fr (snd r)) ?offs bst = Done bst1" for bst1
    using assms(2) that by (rule fold_outcome_invariant [where I = "\<lambda>b. I (snd b)", rotated])
      (rule small_continuation_invariant, assumption+, rule al)
  have large: "I (snd bst1)" if "fold_outcome (large_continuation fr (fst r) (snd r)) ?offs bst = Done bst1" for bst1
    using assms(2) that by (rule fold_outcome_invariant [where I = "\<lambda>b. I (snd b)", rotated])
      (rule large_continuation_invariant, assumption+, rule al)
  show "small_range fr r bst = Done bst' \<Longrightarrow> I (snd bst')"
    using small assms(2) by (cases r) (auto simp: small_range_def split: if_splits)
  show "large_range fr r bst = Done bst' \<Longrightarrow> I (snd bst')"
    using large assms(2) by (cases r) (auto simp: large_range_def split: if_splits)
qed

lemma continuation_pass_invariant:
  assumes "continuation_pass fr st = Done (b, st')" and i: "I st"
  shows "I st'"
proof -
  obtain bst1 where 1: "fold_outcome (small_range fr) (sort (sy_ranges st)) (False, st) = Done bst1"
    and 2: "fold_outcome (large_range fr) (sort (sy_ranges st)) bst1 = Done (b, st')"
    using assms(1) by (auto simp: continuation_pass_def Let_def and_then_Done)
  have al: "fst r mod 4 = 0" if "r \<in> set (sort (sy_ranges st))" for r
    using that aligned [OF i, of "fst r" "snd r"] by simp
  have "I (snd (False, st))" using i by simp
  then have "I (snd bst1)" using 1
    by (rule fold_outcome_invariant [where I = "\<lambda>b. I (snd b)", rotated]) (rule range_invariant(1), rule al, assumption+)
  then have "I (snd (b, st'))" using 2
    by (rule fold_outcome_invariant [where I = "\<lambda>b. I (snd b)", rotated]) (rule range_invariant(2), rule al, assumption+)
  then show ?thesis by simp
qed

lemma continuation_loop_invariant: "continuation_loop fr st = Done st' \<Longrightarrow> I st \<Longrightarrow> I st'"
proof (induction "to_find fr st" arbitrary: st rule: less_induct)
  case less
  obtain b st1 where p: "continuation_pass fr st = Done (b, st1)" and r: "if b then continuation_loop fr st1 = Done st' else st1 = st'"
    using less.prems(1) by (subst (asm) continuation_loop.simps) (auto simp: and_then_Done split: if_splits)
  have i: "I st1" by (rule continuation_pass_invariant [OF p less.prems(2)])
  show ?case
  proof (cases b)
    case True
    then show ?thesis using less.hyps [of st1] grown_to_find continuation_pass_grown [OF p] r i by simp
  qed (use r i in simp)
qed

lemma return_labels_invariant: "return_labels fr st = Done st' \<Longrightarrow> I st \<Longrightarrow> I st'"
proof -
  have one: "I st2" if "return_label fr p e off st1 = Done st2" "I st1" for p e off st1 st2
    using that labelling [OF that(2)] by (auto simp: return_label_def and_then_Done split: if_splits)
  have each: "I st2" if "return_labels_of fr r st1 = Done st2" "I st1" for r st1 st2
  proof -
    obtain s e where r: "r = (s, e)" by (cases r)
    have folded: "I st2" if "fold_outcome (return_label fr p e) (word_offsets s (e - 7)) st1 = Done st2" for p
      using \<open>I st1\<close> that by (rule fold_outcome_invariant [where I = I, rotated]) (rule one)
    then show ?thesis using that by (auto simp: return_labels_of_def r split: if_splits option.splits)
  qed
  assume "return_labels fr st = Done st'" and "I st"
  from this(2,1) [unfolded return_labels_def] show ?thesis
    by (rule fold_outcome_invariant [where I = I, rotated]) (rule each)
qed

lemma force_function_invariant:
  assumes "force_function fr v st = Done st'" and "I st"
  shows "I st'"
proof -
  let ?off = "unat (v - fr_vram fr)"
  have "st' = st \<or> (\<exists>p b. add_dispatch_alias fr p ?off st = Done (b, st')) \<or>
      (?off mod 4 = 0 \<and> (\<exists>b. discover_and_add_function fr ?off 0 False st = Done (b, st')))"
    using assms(1) offset_mod_4 [of "v - fr_vram fr"]
    by (auto simp: force_function_def Let_def and_then_Done split: if_splits option.splits)
  then consider "st' = st" | p b where "add_dispatch_alias fr p ?off st = Done (b, st')"
    | b where "?off mod 4 = 0" "discover_and_add_function fr ?off 0 False st = Done (b, st')" by metis
  then show ?thesis
    by cases (use assms(2) in \<open>simp_all only: aliasing [OF assms(2)] discover_invariant [OF assms(2)]\<close>)
qed

lemma add_seed_invariant: "add_seed fr v st = Done st' \<Longrightarrow> I st \<Longrightarrow> unat v mod 4 = 0 \<Longrightarrow> I st'"
  unfolding add_seed_def and_then_Done by (clarsimp split del: split_of_bool) (erule (1) discover_invariant [rotated 2], simp)

end

text \<open>Every seed is a multiple of four.\<close>

lemma seeds_aligned:
  assumes "seed_offsets fr extra = Done seeds" and "v \<in> set seeds"
  shows "unat v mod 4 = 0"
proof -
  let ?A = "\<lambda>seeds. \<forall>v \<in> set seeds. unat v mod 4 = 0"
  have add: "?A (add_seed_if_in_body fr off ss)" if "?A ss" for off :: u32 and ss
    using that offset_mod_4 [of off] by (auto simp: add_seed_if_in_body_def set_insort_insert)
  have entry: "?A ss'" if "?A ss" "seed_entry fr off ss = Done ss'" for off ss ss'
    using that add [OF that(1), of off] by (auto simp: seed_entry_def and_then_Done split: if_splits)
  have reloc: "?A ss'" if "?A ss" "seed_reloc fr r ss = Done ss'" for r ss ss'
    using that entry [OF that(1), of "rel_target_section_offset r" ss'] add [OF that(1), of "rel_target_section_offset r"]
    by (auto simp: seed_reloc_def Let_def and_then_Done split: if_splits)
  obtain t s1 where 1: "fold_outcome (seed_entry fr) extra (add_seed_if_in_body fr t []) = Done s1"
    and 2: "fold_outcome (seed_reloc fr) (fr_relocs fr) s1 = Done seeds"
    using assms(1) by (auto simp: seed_offsets_def and_then_Done)
  have "?A (add_seed_if_in_body fr t [])" by (rule add) simp
  then have "?A s1" using 1 by (rule fold_outcome_invariant [where I = ?A, rotated]) (rule entry)
  then have "?A seeds" using 2 by (rule fold_outcome_invariant [where I = ?A, rotated]) (rule reloc)
  then show ?thesis using assms(2) by blast
qed

text \<open>The states a discovery goes through: after the trampoline, after the loops, after the labels, at the end.\<close>

definition start_state :: "recompiler_context \<Rightarrow> synthesis" where
  "start_state ctx = \<lparr>sy_ctx = ctx, sy_index = Map.empty, sy_emitted = {}, sy_aliases = {}, sy_ranges = []\<rparr>"

lemma add_code_parts:
  assumes "add_code fr name extra forced ctx = Done ctx'"
  obtains bs st0 seeds st1 st2 st3 st4 st5 where
    "copy_from (fr_blob fr) 0 8 = Done bs"
    "add_function fr (fr_vram fr) (fr_rom fr) (le_words bs) (name @ ''_entry'') 0 (start_state ctx) = Done st0"
    "seed_offsets fr extra = Done seeds" "seeds \<noteq> []" "fold_outcome (add_seed fr) seeds st0 = Done st1"
    "gap_loop fr st1 = Done st2" "continuation_loop fr st2 = Done st3" "return_labels fr st3 = Done st4"
    "fold_outcome (force_function fr) forced st4 = Done st5" "ctx' = sy_ctx st5"
  using assms by (auto simp: add_code_def start_state_def and_then_Done split: if_splits)

context synthesis_invariant
begin

lemma loops_invariant:
  assumes "seed_offsets fr extra = Done seeds" and "fold_outcome (add_seed fr) seeds st0 = Done st1"
    and "gap_loop fr st1 = Done st2" and "continuation_loop fr st2 = Done st3" and "I st0"
  shows "I st3"
proof -
  from assms(5,2) have "I st1"
    by (rule fold_outcome_invariant [where I = I, rotated]) (rule add_seed_invariant, assumption+, rule seeds_aligned [OF assms(1)])
  then show ?thesis using gap_loop_invariant [OF assms(3)] continuation_loop_invariant [OF assms(4)] by blast
qed

lemma forced_invariant: "I st \<Longrightarrow> fold_outcome (force_function fr) forced st = Done st' \<Longrightarrow> I st'"
  by (rule fold_outcome_invariant [where I = I]) (rule force_function_invariant)

end

end
