(* ===== verification/Fragment_Soundness.thy ===== *)
theory Fragment_Soundness
  imports Fragment_Invariants Function_Bounds
begin

text \<open>
  What the sections found by patterns leave in the context: the functions added have the words their section stored in the ROM,
  and the sections of one call have disjoint ranges of the ROM.
\<close>

section \<open>Stored bytes\<close>

lemma length_le_words: "length (le_words bs) = length bs div 4"
  by (induction bs rule: le_words.induct) simp_all

lemma length_store_bytes [simp]: "length (store_bytes off body old) = max (length old) (off + length body)"
  by (simp add: store_bytes_def Let_def)

lemma store_bytes_below:
  assumes "a + n \<le> off" and "a + n \<le> length old"
  shows "slice (store_bytes off body old) a n = slice old a n"
proof (rule nth_equalityI)
  show "length (slice (store_bytes off body old) a n) = length (slice old a n)" using assms by simp
  fix i assume "i < length (slice (store_bytes off body old) a n)"
  then have "i < n" by simp
  then show "slice (store_bytes off body old) a n ! i = slice old a n ! i"
    using assms by (simp add: slice_def store_bytes_def Let_def nth_append nth_resize_list)
qed

lemma store_bytes_new: "k + n \<le> length body \<Longrightarrow> slice (store_bytes off body old) (off + k) n = slice body k n"
  by (auto simp: store_bytes_def Let_def slice_def min_def resize_list_def simp flip: length_greater_0_conv)

section \<open>What adding functions does to the context\<close>

definition strip_addrs :: "section_info \<Rightarrow> section_info" where
  "strip_addrs s = s\<lparr>sec_function_addrs := []\<rparr>"

text \<open>The context keeps its ROM, its sections up to the addresses of their functions, and the code of the functions it had.\<close>

definition code_of :: "recomp_function \<Rightarrow> u32 list \<times> u32 \<times> u32" where
  "code_of f = (fn_words f, fn_rom f, fn_vram f)"

definition extends :: "recompiler_context \<Rightarrow> recompiler_context \<Rightarrow> bool" where
  "extends ctx ctx' \<longleftrightarrow> rom ctx' = rom ctx \<and> map strip_addrs (sections ctx') = map strip_addrs (sections ctx) \<and>
     length (ctx_functions ctx) \<le> length (ctx_functions ctx') \<and>
     map code_of (take (length (ctx_functions ctx)) (ctx_functions ctx')) = map code_of (ctx_functions ctx)"

lemma extends_refl [simp]: "extends ctx ctx"
  by (simp add: extends_def)

lemma extends_trans: "extends a b \<Longrightarrow> extends b c \<Longrightarrow> extends a c"
proof -
  assume a: "extends a b" and b: "extends b c"
  let ?n = "length (ctx_functions a)"
  have "map code_of (take ?n (ctx_functions c)) = take ?n (map code_of (take (length (ctx_functions b)) (ctx_functions c)))"
    using a by (simp add: take_map [symmetric] extends_def min_def)
  also have "\<dots> = map code_of (ctx_functions a)" using a b by (simp add: extends_def take_map)
  finally show ?thesis using a b by (simp add: extends_def)
qed

lemma add_section_function_Done:
  assumes "add_section_function idx v r ws n e ctx = Done ctx'"
  shows "ctx_functions ctx' = ctx_functions ctx @ [make_function v r ws n idx False False False e]" and "extends ctx ctx'"
    and "unat idx < length (sections ctx)"
  using assms by (auto simp: add_section_function_def Let_def extends_def strip_addrs_def map_update list_update_same_conv
      split: if_splits)

lemma emit_function_Done:
  assumes "emit_function fr e sz named v st = Done st'"
  shows "ctx_functions (sy_ctx st') = ctx_functions (sy_ctx st) @
      [make_function (vram_at fr e) (fr_rom fr + word_of_nat e) (le_words (slice (fr_blob fr) e sz)) (func_name (vram_at fr named))
         (fr_index fr) False False False v]"
    and "extends (sy_ctx st) (sy_ctx st')" and "e + sz \<le> length (fr_blob fr)"
  using assms by (auto simp: emit_function_def add_function_def and_then_Done copy_from_iff add_section_function_Done)

lemma code_of_dispatch [simp]: "code_of (add_dispatch_entry v f) = code_of f"
  by (simp add: code_of_def add_dispatch_entry_def)

lemma extends_dispatch:
  "p < length (ctx_functions ctx) \<Longrightarrow>
   extends ctx (ctx\<lparr>ctx_functions := (ctx_functions ctx)[p := add_dispatch_entry v (ctx_functions ctx ! p)]\<rparr>)"
  by (simp add: extends_def map_update list_update_same_conv)

lemma extends_alias: "extends ctx ctx' \<Longrightarrow> extends ctx (push_alias idx al ctx')"
  by (simp add: extends_def push_alias_def Let_def)

lemma alias_Done:
  assumes "add_dispatch_alias fr p e st = Done (b, st')"
  shows "extends (sy_ctx st) (sy_ctx st')" and "sy_ranges st' = sy_ranges st"
    and "map code_of (ctx_functions (sy_ctx st')) = map code_of (ctx_functions (sy_ctx st))"
  using assms extends_dispatch [of p "sy_ctx st"]
  by (auto simp: add_dispatch_alias_def Let_def not_le map_update list_update_same_conv push_alias_def extends_def split: if_splits)

lemma label_Done:
  assumes "add_dispatch_label_only fr p e st = Done st'"
  shows "extends (sy_ctx st) (sy_ctx st')" and "sy_ranges st' = sy_ranges st"
    and "map code_of (ctx_functions (sy_ctx st')) = map code_of (ctx_functions (sy_ctx st))"
  using assms extends_dispatch [of p "sy_ctx st"]
  by (auto simp: add_dispatch_label_only_def Let_def not_le map_update list_update_same_conv split: if_splits)

section \<open>The functions of a fragment hold its bytes\<close>

definition code_from :: "fragment \<Rightarrow> u32 list \<times> u32 \<times> u32 \<Rightarrow> bool" where
  "code_from fr c \<longleftrightarrow> (\<exists>off sz. c = (le_words (slice (fr_blob fr) off sz), fr_rom fr + word_of_nat off, vram_at fr off) \<and>
     sz mod 4 = 0 \<and> off + sz \<le> unat (fr_size fr))"

definition copies_code :: "fragment \<Rightarrow> recompiler_context \<Rightarrow> synthesis \<Rightarrow> bool" where
  "copies_code fr ctx st \<longleftrightarrow> extends ctx (sy_ctx st) \<and> (\<forall>(s, e) \<in> set (sy_ranges st). s mod 4 = 0) \<and>
     list_all (code_from fr) (drop (length (ctx_functions ctx)) (map code_of (ctx_functions (sy_ctx st))))"

lemma copies_code_step:
  assumes "copies_code fr ctx st" and "extends (sy_ctx st) (sy_ctx st')" and "sy_ranges st' = sy_ranges st"
    and "map code_of (ctx_functions (sy_ctx st')) = map code_of (ctx_functions (sy_ctx st))"
  shows "copies_code fr ctx st'"
  using assms extends_trans by (auto simp: copies_code_def)

lemma drop_snoc: "n \<le> length xs \<Longrightarrow> drop n (xs @ [x]) = drop n xs @ [x]"
  by simp

interpretation copying: synthesis_invariant fr "copies_code fr ctx" for fr ctx
proof
  fix st e named sz m v st'
  assume i: "copies_code fr ctx st" and al: "e mod 4 = 0" and ext: "\<not> bad_extent fr e sz m"
    and em: "emit_function fr e sz named v st = Done st'"
  note d = emit_function_Done [OF em]
  have n: "length (ctx_functions ctx) \<le> length (ctx_functions (sy_ctx st))" using i by (simp add: copies_code_def extends_def)
  have "code_from fr (code_of (make_function (vram_at fr e) (fr_rom fr + word_of_nat e) (le_words (slice (fr_blob fr) e sz))
      (func_name (vram_at fr named)) (fr_index fr) False False False v))"
    unfolding code_from_def using ext by (intro exI [of _ e] exI [of _ sz]) (simp add: code_of_def make_function_def bad_extent_def)
  then show "copies_code fr ctx (st'\<lparr>sy_emitted := insert named (sy_emitted st')\<rparr>)"
    using i al d(1,2) n emit_function_sets [OF em] extends_trans [of ctx "sy_ctx st" "sy_ctx st'"]
    by (auto simp: copies_code_def)
next
  show "copies_code fr ctx st'" if "copies_code fr ctx st" "add_dispatch_alias fr p e st = Done (b, st')" for st p e b st'
    by (rule copies_code_step [OF that(1) alias_Done [OF that(2)]])
  show "copies_code fr ctx st'" if "copies_code fr ctx st" "add_dispatch_label_only fr p e st = Done st'" for st p e st'
    by (rule copies_code_step [OF that(1) label_Done [OF that(2)]])
  show "s mod 4 = 0" if "copies_code fr ctx st" "(s, e) \<in> set (sy_ranges st)" for st s e
    using that by (auto simp: copies_code_def)
qed

lemma add_code_copies:
  assumes "add_code fr name extra forced ctx = Done ctx'" and "8 \<le> unat (fr_size fr)"
  shows "extends ctx ctx'" and "list_all (code_from fr) (drop (length (ctx_functions ctx)) (map code_of (ctx_functions ctx')))"
proof -
  obtain bs st0 seeds st1 st2 st3 st4 st5 where p: "copy_from (fr_blob fr) 0 8 = Done bs"
    "add_function fr (fr_vram fr) (fr_rom fr) (le_words bs) (name @ ''_entry'') 0 (start_state ctx) = Done st0"
    "seed_offsets fr extra = Done seeds" "seeds \<noteq> []" "fold_outcome (add_seed fr) seeds st0 = Done st1"
    "gap_loop fr st1 = Done st2" "continuation_loop fr st2 = Done st3" "return_labels fr st3 = Done st4"
    "fold_outcome (force_function fr) forced st4 = Done st5" "ctx' = sy_ctx st5"
    by (rule add_code_parts [OF assms(1)])
  have "code_from fr (code_of (make_function (fr_vram fr) (fr_rom fr) (le_words bs) (name @ ''_entry'') (fr_index fr) False False False 0))"
    unfolding code_from_def using p(1) assms(2)
    by (intro exI [of _ 0] exI [of _ 8]) (simp add: code_of_def make_function_def copy_from_iff vram_at_def)
  then have "copies_code fr ctx st0"
    using p(2) by (auto simp: copies_code_def add_function_def start_state_def and_then_Done add_section_function_Done)
  from copying.loops_invariant [OF p(3,5,6,7) this] have "copies_code fr ctx st3" .
  from copying.return_labels_invariant [OF p(8) this] have "copies_code fr ctx st4" .
  from copying.forced_invariant [OF this p(9)] have "copies_code fr ctx st5" .
  then show "extends ctx ctx'" "list_all (code_from fr) (drop (length (ctx_functions ctx)) (map code_of (ctx_functions ctx')))"
    using p(10) by (simp_all add: copies_code_def)
qed

section \<open>The ROM of the context\<close>

text \<open>A function's words are what the ROM holds at its address, below the counter of the allocator.\<close>

definition in_rom :: "bytes \<Rightarrow> u64 \<Rightarrow> u32 list \<times> u32 \<times> u32 \<Rightarrow> bool" where
  "in_rom mem counter c = (case c of (ws, r, v) \<Rightarrow>
     ws = le_words (slice mem (unat r) (4 * length ws)) \<and> unat r + 4 * length ws \<le> unat counter \<and>
     unat r + 4 * length ws \<le> length mem)"

definition section_end :: "section_info \<Rightarrow> nat" where
  "section_end s = unat (sec_rom_addr s) + unat (sec_size s)"

definition allocated :: "u64 \<Rightarrow> u64 \<Rightarrow> section_info list \<Rightarrow> bool" where
  "allocated first counter secs \<longleftrightarrow> (\<forall>s \<in> set secs. unat first \<le> unat (sec_rom_addr s) \<and> section_end s \<le> unat counter) \<and>
     sorted_wrt (\<lambda>s t. section_end s \<le> unat (sec_rom_addr t)) secs"

lemma in_rom_store:
  assumes "in_rom mem counter c" and "unat counter \<le> unat counter'"
  shows "in_rom (store_bytes (unat counter) body mem) counter' c"
  using assms store_bytes_below [of "unat (fst (snd c))" "4 * length (fst c)" "unat counter" mem body]
  by (auto simp: in_rom_def split: prod.splits)

lemma code_from_in_rom:
  assumes "code_from fr c" and "unat (fr_rom fr) = unat counter" and "unat counter + unat (fr_size fr) \<le> unat counter'"
    and "unat counter' < 2 ^ 32" and "unat (fr_size fr) \<le> length (fr_blob fr)"
  shows "in_rom (store_bytes (unat counter) (slice (fr_blob fr) 0 (unat (fr_size fr))) mem) counter' c"
proof -
  obtain off sz where c: "c = (le_words (slice (fr_blob fr) off sz), fr_rom fr + word_of_nat off, vram_at fr off)"
    "sz mod 4 = 0" "off + sz \<le> unat (fr_size fr)" using assms(1) by (auto simp: code_from_def)
  have "unat (fr_size fr) < 2 ^ 32" using unsigned_less [of "fr_size fr"] by simp
  then have off: "unat (word_of_nat off :: u32) = off" using c(3) by (simp add: unat_of_nat)
  then have r: "unat (fr_rom fr + word_of_nat off) = unat counter + off"
    using unat_add_offset [of "fr_rom fr" "word_of_nat off"] assms c(3) by simp
  have len: "length (le_words (slice (fr_blob fr) off sz)) = sz div 4" using c(3) assms(5) by (simp add: length_le_words)
  have sl: "slice (slice (fr_blob fr) 0 (unat (fr_size fr))) off sz = slice (fr_blob fr) off sz"
    using c(3) by (simp add: slice_def drop_take min_def)
  show ?thesis
    using c r len sl assms(3,5) store_bytes_new [of off sz "slice (fr_blob fr) 0 (unat (fr_size fr))" "unat counter" mem]
    by (auto simp: in_rom_def)
qed

lemma allocated_strip [simp]: "allocated first counter (map strip_addrs secs) \<longleftrightarrow> allocated first counter secs"
  by (simp add: allocated_def sorted_wrt_map section_end_def strip_addrs_def)

lemma split_mask: "x = (x AND m) + (x AND NOT m :: u64)"
proof -
  have "(x AND m) + (x AND NOT m) = (x AND m) OR (x AND NOT m)"
    by (rule disjunctive_add_eq_or) (auto simp: bit_eq_iff bit_simps)
  also have "\<dots> = x" by (auto simp: bit_eq_iff bit_simps)
  finally show ?thesis by simp
qed

lemma allocate_rom_Done:
  assumes "allocate_rom reloc_offset counter = Done (r, counter')" and "unat counter < 2 ^ 32"
  shows "unat r = unat counter" and "unat counter + unat reloc_offset \<le> unat counter'" and "unat counter' < 2 ^ 32"
proof -
  let ?x = "ucast reloc_offset + 3 :: u64"
  have c': "counter' = counter + (?x AND NOT 3)" "\<not> 0xFFFFFFFF < counter'" and r: "r = ucast counter"
    using assms(1) by (auto simp: allocate_rom_def Let_def split: if_splits)
  have "unat reloc_offset < 2 ^ 32" using unsigned_less [of reloc_offset] by simp
  moreover from this have "unat (ucast reloc_offset :: u64) = unat reloc_offset" by (simp add: unsigned_ucast_eq take_bit_nat_eq_self)
  ultimately have x: "unat ?x = unat reloc_offset + 3" using unat_add_lem [of "ucast reloc_offset :: u64" 3] by simp
  have "?x AND NOT 3 \<le> ?x" by (rule word_and_le2)
  then have up: "unat (?x AND NOT 3) \<le> unat ?x" by (simp add: word_le_nat_alt)
  have "?x = (?x AND 3) + (?x AND NOT 3)" by (rule split_mask)
  then have "unat ?x = unat ((?x AND 3) + (?x AND NOT 3))" by simp
  also have "\<dots> \<le> unat (?x AND 3) + unat (?x AND NOT 3)" by (simp add: unat_word_ariths)
  finally have low: "unat ?x \<le> unat (?x AND 3) + unat (?x AND NOT 3)" .
  have "?x AND 3 \<le> 3" by (rule word_and_le1)
  then have "unat (?x AND 3) \<le> 3" by (simp add: word_le_nat_alt)
  then have ge: "unat reloc_offset \<le> unat (?x AND NOT 3)" using low x by simp
  have "unat counter' = unat counter + unat (?x AND NOT 3)"
    unfolding c'(1) using assms(2) up x \<open>unat reloc_offset < 2 ^ 32\<close> by (subst unat_add_lem [THEN iffD1]) simp_all
  then show "unat counter + unat reloc_offset \<le> unat counter'" using ge by simp
  show "unat counter' < 2 ^ 32" using c'(2) by (simp add: word_less_nat_alt)
  show "unat r = unat counter" using assms(2) unfolding r by (simp add: unsigned_ucast_eq take_bit_nat_eq_self)
qed

text \<open>What a call of \<open>synthesize_decompressed_patterns\<close> maintains, for the sections and functions behind those it started with.\<close>

definition stored :: "u64 \<Rightarrow> nat \<Rightarrow> nat \<Rightarrow> recompiler_context \<times> u64 \<Rightarrow> bool" where
  "stored first ns nf cn \<longleftrightarrow> (case cn of (ctx, counter) \<Rightarrow>
     unat counter < 2 ^ 32 \<and> unat first \<le> unat counter \<and> ns \<le> length (sections ctx) \<and> nf \<le> length (ctx_functions ctx) \<and>
     allocated first counter (drop ns (sections ctx)) \<and>
     list_all (in_rom (rom ctx) counter) (drop nf (map code_of (ctx_functions ctx))))"

lemma has_jr_ra_size: "has_jr_ra fr = Done True \<Longrightarrow> 0x24 \<le> unat (fr_size fr)"
proof -
  have "any P xs = Done True \<Longrightarrow> xs \<noteq> []" for P :: "nat \<Rightarrow> bool outcome" and xs by (cases xs) simp_all
  moreover assume "has_jr_ra fr = Done True"
  ultimately have "word_offsets IMPL_OFFSET (min (unat (fr_size fr)) (IMPL_OFFSET + 0x400) - 3) \<noteq> []" unfolding has_jr_ra_def by blast
  then show ?thesis by (simp add: word_offsets_def IMPL_OFFSET_def)
qed

lemma place_section_Done:
  assumes "place_section decode links rq (ctx, counter) = Done (ctx1, fr, counter')"
  obtains sec where "allocate_rom (fr_size fr) counter = Done (fr_rom fr, counter')" "unat (fr_size fr) \<le> length (fr_blob fr)"
    "fr_blob fr = rq_blob rq" "fr_vram fr = rq_vram rq" "sec_rom_addr sec = fr_rom fr" "sec_size sec = fr_size fr"
    "ctx1 = push_section sec (ctx\<lparr>rom := store_bytes (unat (fr_rom fr)) (slice (fr_blob fr) 0 (unat (fr_size fr))) (rom ctx)\<rparr>)"
proof -
  have keep: "sec_rom_addr sec' = sec_rom_addr sec \<and> sec_size sec' = sec_size sec"
    if "parse_fragment_relocs bs v idx sec = Done sec'" for bs v idx sec sec'
    using that by (auto simp: parse_fragment_relocs_def and_then_Done Let_def split: if_splits)
  show thesis
    using assms by (auto simp: place_section_def Let_def and_then_Done copy_from_iff pattern_section_def split: if_splits
        dest!: keep intro: that)
qed

lemma add_decompressed_section_stored:
  assumes "stored first ns nf (ctx, counter)" and "add_decompressed_section decode links rq (ctx, counter) = Done (ctx', counter')"
  shows "stored first ns nf (ctx', counter')"
proof -
  obtain ctx1 fr code where pl: "place_section decode links rq (ctx, counter) = Done (ctx1, fr, counter')"
    and code: "has_jr_ra fr = Done code"
    and r: "(if code then add_code fr (rq_name rq) (rq_extra_entry_offsets rq) (rq_forced_function_vrams rq) ctx1 else Done ctx1) = Done ctx'"
    using assms(2) by (auto simp: add_decompressed_section_def and_then_Done)
  obtain sec where p: "allocate_rom (fr_size fr) counter = Done (fr_rom fr, counter')" "unat (fr_size fr) \<le> length (fr_blob fr)"
    "sec_rom_addr sec = fr_rom fr" "sec_size sec = fr_size fr"
    "ctx1 = push_section sec (ctx\<lparr>rom := store_bytes (unat (fr_rom fr)) (slice (fr_blob fr) 0 (unat (fr_size fr))) (rom ctx)\<rparr>)"
    by (rule place_section_Done [OF pl])
  have st: "unat counter < 2 ^ 32" "unat first \<le> unat counter" "ns \<le> length (sections ctx)" "nf \<le> length (ctx_functions ctx)"
    "allocated first counter (drop ns (sections ctx))" "list_all (in_rom (rom ctx) counter) (drop nf (map code_of (ctx_functions ctx)))"
    using assms(1) by (simp_all add: stored_def)
  note al = allocate_rom_Done [OF p(1) st(1)]
  have up: "unat counter \<le> unat counter'" using al(2) by simp
  have ext: "extends ctx1 ctx'" and new: "list_all (code_from fr) (drop (length (ctx_functions ctx1)) (map code_of (ctx_functions ctx')))"
    using r add_code_copies [of fr _ _ _ ctx1 ctx'] has_jr_ra_size [of fr] code by (cases code; force)+
  let ?rom = "store_bytes (unat counter) (slice (fr_blob fr) 0 (unat (fr_size fr))) (rom ctx)" and ?n = "length (ctx_functions ctx)"
  have rom': "rom ctx' = ?rom" and fs: "ctx_functions ctx1 = ctx_functions ctx"
    using ext by (simp_all add: extends_def p(5) push_section_def al(1))
  have split: "map code_of (ctx_functions ctx') = map code_of (ctx_functions ctx) @ drop ?n (map code_of (ctx_functions ctx'))"
    using ext fs by (simp add: extends_def flip: take_map) (metis append_take_drop_id)
  have "list_all (in_rom ?rom counter') (drop nf (map code_of (ctx_functions ctx)))"
    using st(6) in_rom_store [OF _ up] by (auto simp: list_all_iff)
  moreover have "list_all (in_rom ?rom counter') (drop ?n (map code_of (ctx_functions ctx')))"
    using new fs code_from_in_rom [OF _ al(1,2,3) p(2)] by (auto simp: list_all_iff)
  ultimately have funs: "list_all (in_rom ?rom counter') (drop nf (map code_of (ctx_functions ctx')))"
    by (subst split) (simp add: st(4))
  have "map strip_addrs (drop ns (sections ctx')) = map strip_addrs (drop ns (sections ctx) @ [sec])"
    using ext st(3) by (simp add: extends_def p(5) push_section_def drop_map [symmetric])
  moreover have "allocated first counter' (drop ns (sections ctx) @ [sec])"
    using st(2,5) up al(1,2) p(3,4) by (auto simp: allocated_def sorted_wrt_append section_end_def)
  ultimately have secs: "allocated first counter' (drop ns (sections ctx'))" by (metis allocated_strip)
  have "length (sections ctx) \<le> length (sections ctx')" "?n \<le> length (ctx_functions ctx')"
    using ext map_eq_imp_length_eq [of strip_addrs "sections ctx'" strip_addrs "sections ctx1"]
    by (simp_all add: extends_def p(5) push_section_def)
  then show ?thesis using st(1-4) al(3) up secs funs rom' by (simp add: stored_def)
qed

lemma add_hit_stored:
  assumes "add_hit decode links p seeds forced hit st = Done st'" and "stored first ns nf (pt_ctx st, pt_next_rom st)"
  shows "stored first ns nf (pt_ctx st', pt_next_rom st')"
  using assms add_decompressed_section_stored [OF assms(2)]
  by (auto simp: add_hit_def Let_def and_then_Done split: if_splits option.splits)

lemma add_pattern_stored:
  assumes "add_pattern decode links rom_file patches forced p st = Done st'" and "stored first ns nf (pt_ctx st, pt_next_rom st)"
  shows "stored first ns nf (pt_ctx st', pt_next_rom st')"
proof -
  obtain hits seeds where fold: "fold_outcome (add_hit decode links p seeds forced) hits (st\<lparr>pt_seen := {}\<rparr>) = Done st'"
    using assms(1) by (auto simp: add_pattern_def and_then_Done)
  have "stored first ns nf (pt_ctx (st\<lparr>pt_seen := {}\<rparr>), pt_next_rom (st\<lparr>pt_seen := {}\<rparr>))" using assms(2) by simp
  then show ?thesis using fold
    by (rule fold_outcome_invariant [where I = "\<lambda>st. stored first ns nf (pt_ctx st, pt_next_rom st)", rotated]) (rule add_hit_stored)
qed

text \<open>Retargeting changes nothing but relocations.\<close>

lemma allocated_cong:
  "map (\<lambda>s. (sec_rom_addr s, sec_size s)) xs = map (\<lambda>s. (sec_rom_addr s, sec_size s)) ys \<Longrightarrow>
   allocated first counter xs = allocated first counter ys"
proof -
  have e: "allocated first counter xs \<longleftrightarrow>
      (\<forall>(r, z) \<in> set (map (\<lambda>s. (sec_rom_addr s, sec_size s)) xs). unat first \<le> unat r \<and> unat r + unat z \<le> unat counter) \<and>
      sorted_wrt (\<lambda>(r, z) (r', z'). unat r + unat z \<le> unat r') (map (\<lambda>s. (sec_rom_addr s, sec_size s)) xs)" for xs
    by (auto simp: allocated_def section_end_def sorted_wrt_map)
  assume "map (\<lambda>s. (sec_rom_addr s, sec_size s)) xs = map (\<lambda>s. (sec_rom_addr s, sec_size s)) ys"
  then show ?thesis unfolding e by simp
qed

lemma resolved_sections:
  "map (\<lambda>s. (sec_rom_addr s, sec_size s)) (sections (resolve_cross_section_targets ctx k)) =
   map (\<lambda>s. (sec_rom_addr s, sec_size s)) (sections ctx)"
  unfolding resolve_cross_section_targets_def Let_def by (rule nth_equalityI) simp_all

lemma resolve_stored: "stored first ns nf (ctx, counter) \<Longrightarrow> stored first ns nf (resolve_cross_section_targets ctx k, counter)"
proof -
  let ?ctx = "resolve_cross_section_targets ctx k"
  have f: "rom ?ctx = rom ctx" "ctx_functions ?ctx = ctx_functions ctx" by (simp_all add: resolve_cross_section_targets_def Let_def)
  have l: "length (sections ?ctx) = length (sections ctx)" using map_eq_imp_length_eq [OF resolved_sections] .
  have "allocated first counter (drop ns (sections ?ctx)) = allocated first counter (drop ns (sections ctx))"
    by (rule allocated_cong) (simp only: drop_map [symmetric] resolved_sections)
  then show "stored first ns nf (ctx, counter) \<Longrightarrow> stored first ns nf (?ctx, counter)" by (simp add: stored_def f l)
qed

lemma patterns_stored:
  assumes "synthesize_decompressed_patterns decode links rom_file patterns patches forced (ctx, counter) = Done (ctx', counter')"
    and "unat counter < 2 ^ 32"
  shows "stored counter (length (sections ctx)) (length (ctx_functions ctx)) (ctx', counter')"
proof -
  let ?S = "stored counter (length (sections ctx)) (length (ctx_functions ctx))"
  have s: "?S (ctx, counter)" using assms(2) by (simp add: stored_def allocated_def)
  show ?thesis
  proof (cases "patterns = []")
    case False
    let ?st = "\<lparr>pt_ctx = ctx, pt_next_rom = counter, pt_variants = 0, pt_seen = {}\<rparr>"
    obtain st where f: "fold_outcome (add_pattern decode links rom_file patches forced) patterns ?st = Done st"
      and e: "ctx' = resolve_cross_section_targets (pt_ctx st) (word_of_nat (length (sections ctx)))" "counter' = pt_next_rom st"
      using assms(1) False by (auto simp: synthesize_decompressed_patterns_def and_then_Done split: if_splits)
    have "?S (pt_ctx ?st, pt_next_rom ?st)" using s by simp
    then have "?S (pt_ctx st, pt_next_rom st)" using f
      by (rule fold_outcome_invariant [where I = "\<lambda>st. ?S (pt_ctx st, pt_next_rom st)", rotated]) (rule add_pattern_stored)
    then show ?thesis unfolding e by (rule resolve_stored)
  qed (use assms(1) s in \<open>simp add: synthesize_decompressed_patterns_def\<close>)
qed

section \<open>The property\<close>

text \<open>C7: the sections found by patterns never overwrite each other. Whatever is found, each new section has a range of the context's ROM of
  its own, in the order in which they are added, and in the end the ROM still holds the code of every new function at the address the
  function records. The counter of the allocator stays below 4 GB.\<close>

theorem pattern_sections_keep_code:
  assumes "synthesize_decompressed_patterns decode links rom_file patterns patches forced (ctx, counter) = Done (ctx', counter')"
    and "counter \<le> 0xFFFFFFFF"
  shows "(\<forall>f \<in> set (drop (length (ctx_functions ctx)) (ctx_functions ctx')).
      fn_words f = le_words (slice (rom ctx') (unat (fn_rom f)) (4 * length (fn_words f)))) \<and>
    sorted_wrt (\<lambda>s t. unat (sec_rom_addr s) + unat (sec_size s) \<le> unat (sec_rom_addr t)) (drop (length (sections ctx)) (sections ctx')) \<and>
    counter' \<le> 0xFFFFFFFF"
proof -
  have "unat counter < 2 ^ 32" using assms(2) by (simp add: word_le_nat_alt)
  from patterns_stored [OF assms(1) this] show ?thesis
    by (auto simp: stored_def allocated_def section_end_def list_all_iff in_rom_def code_of_def drop_map word_le_nat_alt)
qed

section \<open>An example\<close>

text \<open>\<open>jr $ra; nop\<close> as a fragment linked at 0x81000000, without relocations.\<close>

definition tiny_fragment :: bytes where
  "tiny_fragment =
     [0x08, 0x40, 0x00, 0x08, 0, 0, 0, 0] @ ascii ''FRAGMENT'' @
     [0, 0, 0, 0x20, 0, 0, 0, 0x28, 0, 0, 0, 0x2C, 0, 0, 0, 0x28, 0x03, 0xE0, 0x00, 0x08, 0, 0, 0, 0, 0, 0, 0, 0]"

lemma tiny_values:
  "length tiny_fragment = 0x2C" "decode_fragment_j_target (take 4 tiny_fragment) = Some 0x81000020"
  "decode_fragment_link_vram (take 0x20 tiny_fragment) = Done (Some 0x81000000)"
  "blob_word tiny_fragment 4 = Done 0" "matches_at tiny_fragment 8 fragment_magic = Done True"
  "blob_word tiny_fragment 0x14 = Done 0x28" "blob_word tiny_fragment 0x18 = Done 0x2C"
  "blob_word tiny_fragment 0x1C = Done 0x28" "blob_word tiny_fragment 0x28 = Done 0"
  "match_offsets fragment_magic tiny_fragment 0 = [8]" "fragment_id_from_vram 0x81000000 = Some 0"
  by code_simp+

lemma tiny_extracted:
  "try_extract_raw_fragment tiny_fragment 0 = Done (tiny_fragment,
     \<lparr>rf_link_vram = 0x81000000, rf_j_target = 0x81000020, rf_reloc_offset = 0x28, rf_blob_size = 0x2C\<rparr>)"
  using tiny_values by (simp add: try_extract_raw_fragment_def raw_blob_size_def copy_from_def slice_def)

definition tiny_pattern :: decompressed_section_pattern where
  "tiny_pattern = \<lparr>dp_base_name = [], dp_vram = 0, dp_wrapper_format = ''raw_fragment'', dp_relocatable = True\<rparr>"

lemma tiny_hits: "pattern_hits tiny_fragment [] tiny_pattern = Done [\<lparr>ph_wrap_off = 0, ph_vram = 0x81000000, ph_body = tiny_fragment\<rparr>]"
  using tiny_values tiny_extracted by (simp add: pattern_hits_def tiny_pattern_def raw_hit_def keep_hit_def)

definition tiny_links :: "u32 \<Rightarrow> u32 \<Rightarrow> bool" where
  "tiny_links w v \<longleftrightarrow> drop_bit 26 w = 3"

definition tiny_placed :: fragment where
  "tiny_placed = \<lparr>fr_blob = tiny_fragment, fr_size = 0x28, fr_vram = 0x81000000, fr_rom = 0, fr_index = 0, fr_relocs = [],
     fr_decode = small_decoder, fr_links = tiny_links\<rparr>"

lemma tiny_words: "fword tiny_placed 0x20 = Done JR_RA" "fword tiny_placed 0x24 = Done 0"
  by code_simp+

lemma tiny_code: "has_jr_ra tiny_placed = Done True" "seed_offsets tiny_placed [] = Done [0x20]"
  by code_simp+

lemma tiny_bounds: "bounds_at tiny_placed 0x20 = Some 8"
  by code_simp

definition tiny_hit :: pattern_hit where
  "tiny_hit = \<lparr>ph_wrap_off = 0, ph_vram = 0x81000000, ph_body = tiny_fragment\<rparr>"

definition tiny_request :: section_request where
  "tiny_request = hit_request tiny_pattern (\<lambda>_. []) [] tiny_hit 0 0"

definition tiny_context :: recompiler_context where
  "tiny_context = push_section (pattern_section 0 0xC0000000 0x28 (rq_name tiny_request) True (content_hash_of tiny_fragment) 0)
     (context_default\<lparr>rom := take 0x28 tiny_fragment\<rparr>)"

lemma tiny_place: "place_section small_decoder tiny_links tiny_request (context_default, 0) = Done (tiny_context, tiny_placed, 0x28)"
proof -
  have "variant_link_addr 0 = 0xC0000000" by (simp add: variant_link_addr_def kSyntheticPoolBase_def)
  moreover have "allocate_rom 0x28 0 = Done (0, 0x28)" by code_simp
  ultimately show ?thesis using tiny_values
    by (simp add: place_section_def tiny_request_def hit_request_def tiny_hit_def tiny_pattern_def parse_fragment_relocs_def
        copy_from_def tiny_context_def tiny_placed_def push_section_def context_default_def store_bytes_def pattern_section_def
        section_default_def slice_def resize_list_def nth_opt_def or_undef_def)
qed

text \<open>The function of the fragment, its two words being all there is to find.\<close>

lemma tiny_rest:
  assumes "sy_emitted st = {0x20}" and "sy_ranges st = [(0x20, 0x28)]"
  shows "gap_loop tiny_placed st = Done st" and "continuation_loop tiny_placed st = Done st" and "return_labels tiny_placed st = Done st"
proof -
  have z: "unat (fr_size tiny_placed) = 0x28" by (simp add: tiny_placed_def)
  have o: "word_offsets 0x20 (0x28 - 7) = [0x20]" by (simp add: word_offsets_def)
  have l: "\<not> links_at tiny_placed JR_RA 0x20" by (simp add: links_at_def tiny_placed_def tiny_links_def JR_RA_def)
  show "gap_loop tiny_placed st = Done st" by (simp add: gap_loop.simps assms IMPL_OFFSET_def or_else_def z)
  show "continuation_loop tiny_placed st = Done st"
    using o l by (simp add: continuation_loop.simps continuation_pass_def small_range_def large_range_def assms z tiny_words
        MAX_CONTINUATION_PARENT_SIZE_def small_continuation_def)
  show "return_labels tiny_placed st = Done st"
    using o l by (simp add: return_labels_def return_labels_of_def assms z tiny_words return_label_def split: option.split)
qed

lemma tiny_add_code: "\<exists>ctx'. add_code tiny_placed name [] [] tiny_context = Done ctx' \<and> length (ctx_functions ctx') = 2"
proof -
  let ?st = "\<lparr>sy_ctx = tiny_context, sy_index = Map.empty, sy_emitted = {}, sy_aliases = {}, sy_ranges = []\<rparr>"
  have can: "\<exists>ctx'. add_section_function 0 v r ws n e ctx = Done ctx' \<and> length (ctx_functions ctx') = Suc (length (ctx_functions ctx)) \<and>
      sections ctx' \<noteq> [] \<and> section_functions ctx' \<noteq> []" if "sections ctx \<noteq> []" "section_functions ctx \<noteq> []" for v r ws n e ctx
    using that by (simp add: add_section_function_def Let_def)
  have t: "sections tiny_context \<noteq> []" "section_functions tiny_context \<noteq> []" "ctx_functions tiny_context = []"
    by (simp_all add: tiny_context_def push_section_def context_default_def)
  obtain ctx0 where c0: "add_section_function 0 0x81000000 0 (le_words (slice tiny_fragment 0 8)) (name @ ''_entry'') 0 tiny_context = Done ctx0"
    "length (ctx_functions ctx0) = 1" "sections ctx0 \<noteq> []" "section_functions ctx0 \<noteq> []"
    using can [OF t(1,2)] t(3) by fastforce
  obtain ctx1 where c1: "add_section_function 0 0x81000020 0x20 (le_words (slice tiny_fragment 0x20 8)) (func_name 0x81000020) 0 ctx0 = Done ctx1"
    "length (ctx_functions ctx1) = 2"
    using can [OF c0(3,4)] c0(2) by fastforce
  obtain st0 where s0: "add_function tiny_placed 0x81000000 0 (le_words (slice tiny_fragment 0 8)) (name @ ''_entry'') 0 ?st = Done st0"
    "sy_ctx st0 = ctx0" "sy_emitted st0 = {}" "sy_ranges st0 = []"
    using c0(1) by (simp add: add_function_def tiny_placed_def)
  obtain st1 where s1: "emit_function tiny_placed 0x20 8 0x20 0 st0 = Done st1" "sy_ctx st1 = ctx1" "sy_emitted st1 = {0x20}"
    "sy_ranges st1 = [(0x20, 0x28)]"
    using c1(1) s0 by (simp add: emit_function_def add_function_def tiny_placed_def copy_from_def tiny_values vram_at_def)
  have "add_seed tiny_placed 0x20 st0 = Done st1"
    using tiny_bounds s0 s1 by (simp add: add_seed_def discover_and_add_function_def bad_extent_def added_def tiny_placed_def)
  then show ?thesis using s0(1) tiny_code(2) tiny_rest [OF s1(3,4)] s1(2) c1(2)
    by (simp add: add_code_def copy_from_def tiny_values tiny_placed_def)
qed

lemma tiny_synthesised:
  "\<exists>ctx' counter'. synthesize_decompressed_patterns small_decoder tiny_links tiny_fragment [tiny_pattern] [] [] (context_default, 0) = Done (ctx', counter') \<and>
     length (ctx_functions ctx') = 2"
proof -
  obtain ctx1 where c: "add_code tiny_placed (rq_name tiny_request) [] [] tiny_context = Done ctx1" "length (ctx_functions ctx1) = 2"
    using tiny_add_code by blast
  have "add_decompressed_section small_decoder tiny_links tiny_request (context_default, 0) = Done (ctx1, 0x28)"
    using c(1) tiny_code(1) tiny_place by (simp add: add_decompressed_section_def tiny_request_def hit_request_def)
  moreover have "hit_jump_slots tiny_hit (\<lambda>_. []) = Done (\<lambda>_. [])" by code_simp
  moreover have "pattern_hits tiny_fragment [] tiny_pattern = Done [tiny_hit]" using tiny_hits by (simp add: tiny_hit_def)
  moreover have "fragment_id_from_vram (ph_vram tiny_hit) = Some 0" "hit_request tiny_pattern (\<lambda>_. []) [] tiny_hit 0 0 = tiny_request"
    using tiny_values by (simp_all add: tiny_hit_def tiny_request_def)
  moreover have "tiny_fragment \<noteq> []" using tiny_values(1) by auto
  moreover have "ctx_functions (resolve_cross_section_targets ctx1 0) = ctx_functions ctx1"
    by (simp add: resolve_cross_section_targets_def Let_def)
  ultimately show ?thesis using c(2) by (simp add: synthesize_decompressed_patterns_def add_pattern_def add_hit_def context_default_def)
qed

text \<open>The example's two functions, the trampoline at the link address and the function behind the header.\<close>

lemma pattern_sections_keep_code_witness:
  "\<exists>ctx' counter'. synthesize_decompressed_patterns small_decoder tiny_links tiny_fragment [tiny_pattern] [] [] (context_default, 0) = Done (ctx', counter') \<and>
     length (ctx_functions ctx') = 2 \<and>
     (\<forall>f \<in> set (ctx_functions ctx'). fn_words f = le_words (slice (rom ctx') (unat (fn_rom f)) (4 * length (fn_words f))))"
proof -
  obtain ctx' counter' where s: "synthesize_decompressed_patterns small_decoder tiny_links tiny_fragment [tiny_pattern] [] [] (context_default, 0) =
      Done (ctx', counter')" "length (ctx_functions ctx') = 2"
    using tiny_synthesised by blast
  from pattern_sections_keep_code [OF s(1)] s show ?thesis by (auto simp: context_default_def)
qed

end
