(* ===== verification/Static_Entries.thy ===== *)
theory Static_Entries
  imports Function_Translation Fragment_Synthesis
begin

text \<open>
  Finding functions and judging code addresses in \<open>src/main.cpp\<close>: what the driver asks of the context before it recompiles
  the functions.

  \<^item> \<open>(size_t)-1\<close> is \<open>None\<close>; \<open>Undef\<close> is an access outside a container.
  \<^item> The words of a function are as the host reads them, those of the ROM image big-endian (\<open>byteswap\<close> of the former).
  \<^item> Decoding is a parameter.
\<close>

section \<open>Functions of a section\<close>

text \<open>The loops stop at the first function that fits.\<close>

fun first_function :: "(recomp_function \<Rightarrow> bool) \<Rightarrow> recompiler_context \<Rightarrow> nat list \<Rightarrow> nat option outcome" where
  "first_function P ctx [] = Done None"
| "first_function P ctx (i # idxs) =
     and_then (or_undef (nth_opt (ctx_functions ctx) i)) (\<lambda>f. if P f then Done (Some i) else first_function P ctx idxs)"

definition is_entry_in :: "nat \<Rightarrow> recomp_function \<Rightarrow> bool" where
  "is_entry_in section_index f \<longleftrightarrow> unat (fn_section_index f) = section_index \<and>
     (fn_words f \<noteq> [] \<or> fn_reimplemented f \<or> is_manual_patch_symbol (fn_vram f))"

definition find_exact_function_in_section :: "recompiler_context \<Rightarrow> u32 \<Rightarrow> nat \<Rightarrow> nat option outcome" where
  "find_exact_function_in_section ctx vram section_index =
     (case functions_by_vram ctx vram of
        None \<Rightarrow> Done None
      | Some idxs \<Rightarrow> first_function (is_entry_in section_index) ctx idxs)"

text \<open>Strictly inside the function.\<close>

definition interior_of :: "u32 \<Rightarrow> recomp_function \<Rightarrow> bool" where
  "interior_of vram f \<longleftrightarrow> fn_words f \<noteq> [] \<and> fn_vram f < vram \<and> vram < func_vram_end f"

definition find_containing_function_in_section :: "recompiler_context \<Rightarrow> u32 \<Rightarrow> nat \<Rightarrow> nat option outcome" where
  "find_containing_function_in_section ctx vram section_index =
     (if length (section_functions ctx) \<le> section_index then Done None
      else first_function (interior_of vram) ctx (section_functions ctx ! section_index))"

text \<open>A second section that contains the address ends the search without a result.\<close>

fun unique_executable :: "u32 \<Rightarrow> nat \<Rightarrow> section_info list \<Rightarrow> nat option \<Rightarrow> nat option" where
  "unique_executable vram i [] containing = containing"
| "unique_executable vram i (s # ss) containing =
     (if sec_executable s \<and> in_window (sec_ram_addr s) (sec_size s) vram
      then if containing \<noteq> None then None else unique_executable vram (i + 1) ss (Some i)
      else unique_executable vram (i + 1) ss containing)"

definition find_unique_executable_section_containing_vram :: "recompiler_context \<Rightarrow> u32 \<Rightarrow> nat option" where
  "find_unique_executable_section_containing_vram ctx vram = unique_executable vram 0 (sections ctx) None"

text \<open>The body is that of \<open>infer_recomp_section_encoded_vram_base\<close>, line by line.\<close>

definition infer_section_encoded_vram_base :: "recompiler_context \<Rightarrow> nat \<Rightarrow> u32 outcome" where
  "infer_section_encoded_vram_base ctx section_index =
     (if length (sections ctx) \<le> section_index \<or> length (section_functions ctx) \<le> section_index then Done 0
      else or_undef (infer_base ctx (sections ctx ! section_index) (section_functions ctx ! section_index) None))"

definition reloc_offset_in_section :: "recompiler_context \<Rightarrow> nat \<Rightarrow> u32 \<Rightarrow> u32 outcome" where
  "reloc_offset_in_section ctx section_index reloc_addr =
     and_then (or_undef (nth_opt (sections ctx) section_index)) (\<lambda>sec.
     and_then (infer_section_encoded_vram_base ctx section_index) (\<lambda>encoded_base.
     Done (if unat encoded_base \<le> unat reloc_addr \<and> unat reloc_addr < unat encoded_base + unat (sec_size sec)
           then reloc_addr - encoded_base else reloc_addr - sec_ram_addr sec)))"

section \<open>What looks like code\<close>

definition rd_writers :: "instr_id list" where
  "rd_writers =
     [Alu cpu_add, Alu cpu_addu, Alu cpu_sub, Alu cpu_subu, Alu cpu_dadd, Alu cpu_daddu, Alu cpu_dsub, Alu cpu_dsubu,
      Alu cpu_and, Alu cpu_or, Alu cpu_xor, Alu cpu_nor,
      Shift cpu_sll, Shift cpu_sllv, Shift cpu_srl, Shift cpu_srlv, Shift cpu_sra, Shift cpu_srav,
      Shift cpu_dsll, Shift cpu_dsllv, Shift cpu_dsll32, Shift cpu_dsrl, Shift cpu_dsrlv, Shift cpu_dsrl32,
      Shift cpu_dsra, Shift cpu_dsrav, Shift cpu_dsra32, Shift cpu_slt, Shift cpu_sltu, Alu cpu_mfhi, Alu cpu_mflo]"

definition rt_writers :: "instr_id list" where
  "rt_writers =
     [Alu cpu_addi, Alu cpu_addiu, Alu cpu_daddi, Alu cpu_daddiu, Alu cpu_andi, Alu cpu_ori, Alu cpu_xori,
      Shift cpu_slti, Shift cpu_sltiu, Alu cpu_lui,
      Mem cpu_lb, Mem cpu_lbu, Mem cpu_lh, Mem cpu_lhu, Mem cpu_lw, Mem cpu_lwu, Mem cpu_ld,
      Mem cpu_lwl, Mem cpu_lwr, Mem cpu_ldl, Mem cpu_ldr, Fpu cpu_mfc1, Fpu cpu_dmfc1]"

definition instruction_writes_zero_gpr :: "instruction \<Rightarrow> u32 \<Rightarrow> bool" where
  "instruction_writes_zero_gpr instr insn_word =
     (if insn_word = 0 then False
      else if in_id instr \<in> set rd_writers then in_rd instr = GPR_zero
      else if in_id instr \<in> set rt_writers then in_rt instr = GPR_zero
      else False)"

definition looks_executable :: "decoder \<Rightarrow> u32 \<Rightarrow> u32 \<Rightarrow> bool" where
  "looks_executable decode insn_word vram \<longleftrightarrow>
     (let instr = decode insn_word vram
      in in_is_valid instr \<and> \<not> (insn_word \<noteq> 0 \<and> instruction_writes_zero_gpr instr insn_word))"

definition discovered_entrypoint_looks_like_code :: "decoder \<Rightarrow> recompiler_context \<Rightarrow> section_info \<Rightarrow> u32 \<Rightarrow> nat \<Rightarrow> bool outcome" where
  "discovered_entrypoint_looks_like_code decode ctx sec target_vram discovered_size =
     (let entry_offset = unat (target_vram - sec_ram_addr sec)
      in every (\<lambda>offset. and_then (blob_word (rom ctx) (unat (sec_rom_addr sec) + offset)) (\<lambda>insn_word.
             Done (looks_executable decode insn_word (sec_ram_addr sec + word_of_nat offset))))
           (word_offsets entry_offset (entry_offset + discovered_size)))"

text \<open>Sections whose bytes are in the ROM image and are no synthetic ones.\<close>

definition has_rom_bytes :: "recompiler_context \<Rightarrow> section_info \<Rightarrow> bool" where
  "has_rom_bytes ctx sec \<longleftrightarrow> sec_rom_addr sec < 0xF0000000 \<and> unat (sec_rom_addr sec) + unat (sec_size sec) \<le> length (rom ctx)"

text \<open>\<open>Some size\<close> when the function of the source returns true; the size it may set otherwise is never used by its callers.\<close>

definition discover_static_entry :: "decoder \<Rightarrow> recompiler_context \<Rightarrow> nat \<Rightarrow> u32 \<Rightarrow> nat option outcome" where
  "discover_static_entry decode ctx section_index target_vram =
     (case nth_opt (sections ctx) section_index of
        None \<Rightarrow> Done None
      | Some sec \<Rightarrow>
          if \<not> sec_executable sec \<or> target_vram AND 3 \<noteq> 0 then Done None
          else if \<not> in_window (sec_ram_addr sec) (sec_size sec) target_vram then Done None
          else if \<not> has_rom_bytes ctx sec then Done None
          else case discover_function_bounds decode (slice (rom ctx) (unat (sec_rom_addr sec)) (unat (sec_size sec)))
                      (sec_ram_addr sec) (target_vram - sec_ram_addr sec) of
            Refused e \<Rightarrow> Done None
          | Accepted discovered_size \<Rightarrow>
              if discovered_size = 0 then Done None
              else and_then (discovered_entrypoint_looks_like_code decode ctx sec target_vram discovered_size) (\<lambda>code.
                Done (if code then Some discovered_size else None)))"

definition is_resident_text_section :: "section_info \<Rightarrow> bool" where
  "is_resident_text_section sec \<longleftrightarrow> sec_name sec = ''.text''"

section \<open>Kinds of instructions\<close>

definition is_unconditional_branch_or_jump :: "instruction \<Rightarrow> bool" where
  "is_unconditional_branch_or_jump instr \<longleftrightarrow> in_id instr = Jump cpu_j \<or> in_id instr = Jump cpu_b \<or>
     (in_id instr = Jump cpu_beq \<and> in_rs instr = GPR_zero \<and> in_rt instr = GPR_zero)"

definition is_conditional_branch :: "instruction \<Rightarrow> bool" where
  "is_conditional_branch instr \<longleftrightarrow> in_id instr \<in> Jump `
     {cpu_beq, cpu_beql, cpu_bne, cpu_bnel, cpu_bgez, cpu_bgezl, cpu_bgtz, cpu_bgtzl, cpu_blez, cpu_blezl, cpu_bltz, cpu_bltzl,
      cpu_bgezal, cpu_bgezall, cpu_bltzal, cpu_bltzall, cpu_bc1f, cpu_bc1fl, cpu_bc1t, cpu_bc1tl}"

definition jumps_indirectly :: "instruction \<Rightarrow> bool" where
  "jumps_indirectly instr \<longleftrightarrow> in_id instr = Jump cpu_jr \<and> in_rs instr \<noteq> GPR_ra"

definition function_contains_indirect_dispatch :: "decoder \<Rightarrow> recomp_function \<Rightarrow> bool" where
  "function_contains_indirect_dispatch decode f \<longleftrightarrow>
     list_ex (\<lambda>instr. in_is_valid instr \<and> jumps_indirectly instr) (decode_words decode (fn_vram f) (fn_words f))"

text \<open>The word of a function at an address.\<close>

definition function_word :: "recomp_function \<Rightarrow> u32 \<Rightarrow> u32 outcome" where
  "function_word f vram = and_then (or_undef (nth_opt (fn_words f) (unat (vram - fn_vram f) div 4))) (\<lambda>w. Done (byteswap w))"

definition static_entrypoint_inside_function_looks_valid :: "decoder \<Rightarrow> recomp_function \<Rightarrow> u32 \<Rightarrow> bool outcome" where
  "static_entrypoint_inside_function_looks_valid decode f target_vram =
     (if target_vram \<le> fn_vram f \<or> func_vram_end f \<le> target_vram \<or> target_vram AND 3 \<noteq> 0 then Done False
      else and_then (function_word f target_vram) (\<lambda>insn_word. Done (looks_executable decode insn_word target_vram)))"

end
