(* ===== verification/Static_Seeding.thy ===== *)
theory Static_Seeding
  imports Static_Entries
begin

text \<open>
  The passes of \<open>src/main.cpp\<close> that request static functions before any function is recompiled: from relocations, from
  tables of code pointers in the ROM, and behind the branches of functions that are entered at a label.

  \<^item> \<open>static_funcs_by_section\<close> and the set \<open>seeded_entries\<close> are the state of a pass; the counter of its message is left out.
  \<^item> A lambda that captures the section or the function it works on has it as an argument.
\<close>

section \<open>The state of a pass\<close>

record seeding =
  sd_statics :: "u32 list list"
  sd_seeded :: "(nat \<times> u32) set"

definition start_seeding :: "u32 list list \<Rightarrow> seeding" where
  "start_seeding statics = \<lparr>sd_statics = statics,
     sd_seeded = set (concat (map (\<lambda>k. map (Pair k) (statics ! k)) [0..<length statics]))\<rparr>"

text \<open>\<open>emplace\<close> in the set, and \<open>push_back\<close> if it was not there.\<close>

definition seed_static :: "nat \<Rightarrow> u32 \<Rightarrow> seeding \<Rightarrow> seeding outcome" where
  "seed_static k v st =
     (if (k, v) \<in> sd_seeded st then Done st
      else if k < length (sd_statics st)
      then Done \<lparr>sd_statics = (sd_statics st)[k := sd_statics st ! k @ [v]], sd_seeded = insert (k, v) (sd_seeded st)\<rparr>
      else Undef)"

definition seed_if :: "bool outcome \<Rightarrow> nat \<Rightarrow> u32 \<Rightarrow> seeding \<Rightarrow> seeding outcome" where
  "seed_if test k v st = and_then test (\<lambda>b. if b then seed_static k v st else Done st)"

text \<open>\<open>&&\<close> and \<open>||\<close> of conditions that read memory.\<close>

definition both :: "bool outcome \<Rightarrow> bool outcome \<Rightarrow> bool outcome" where
  "both a b = and_then a (\<lambda>x. if x then b else Done False)"

definition either :: "bool outcome \<Rightarrow> bool outcome \<Rightarrow> bool outcome" where
  "either a b = and_then a (\<lambda>x. if x then Done True else b)"

text \<open>The sections a pass may add entries to, and the addresses in them.\<close>

definition overlay_code :: "section_info \<Rightarrow> bool" where
  "overlay_code sec \<longleftrightarrow> sec_executable sec \<and> sec_relocatable sec \<and> \<not> is_resident_text_section sec"

definition entry_address :: "section_info \<Rightarrow> u32 \<Rightarrow> bool" where
  "entry_address sec v \<longleftrightarrow> v AND 3 = 0 \<and> in_window (sec_ram_addr sec) (sec_size sec) v"

section \<open>Entries from relocations\<close>

definition max_reloc_static_entry_size :: nat where
  "max_reloc_static_entry_size = 0x400"

definition entry_falls_through_to_seeded_static :: "decoder \<Rightarrow> recompiler_context \<Rightarrow> seeding \<Rightarrow> nat \<Rightarrow> u32 \<Rightarrow> bool outcome" where
  "entry_falls_through_to_seeded_static decode ctx st k v =
     (case nth_opt (sections ctx) k of
        None \<Rightarrow> Done False
      | Some sec \<Rightarrow>
          if \<not> sec_executable sec \<or> \<not> has_rom_bytes ctx sec \<or> v < sec_ram_addr sec \<or>
             sec_ram_addr sec + sec_size sec < v + 8 then Done False
          else and_then (blob_word (rom ctx) (unat (sec_rom_addr sec) + unat (v - sec_ram_addr sec))) (\<lambda>w.
            Done (in_is_valid (decode w v) \<and> (k, v + 8) \<in> sd_seeded st)))"

text \<open>Whether the place a relocation is at is a small piece of unknown code; \<open>None\<close> skips the relocation.\<close>

definition small_code_label :: "decoder \<Rightarrow> recompiler_context \<Rightarrow> seeding \<Rightarrow> nat \<Rightarrow> section_info \<Rightarrow> u32 \<Rightarrow> bool option outcome" where
  "small_code_label decode ctx st source_index source v =
     (if \<not> sec_executable source then Done (Some False)
      else and_then (find_exact_function_in_section ctx v source_index) (\<lambda>exact.
      if exact \<noteq> None then Done (Some False)
      else and_then (find_containing_function_in_section ctx v source_index) (\<lambda>containing.
      if containing \<noteq> None \<or> (source_index, v) \<in> sd_seeded st then Done (Some False)
      else and_then (discover_static_entry decode ctx source_index v) (\<lambda>found.
      case found of
        None \<Rightarrow> Done None
      | Some found_size \<Rightarrow> Done (if max_reloc_static_entry_size < found_size then None else Some True)))))"

text \<open>The section and the address a relocation refers to.\<close>

definition seeding_reloc_target :: "recompiler_context \<Rightarrow> reloc \<Rightarrow> (nat \<times> u32) option" where
  "seeding_reloc_target ctx r =
     (let k = unat (rel_target_section r)
      in if \<not> rel_reference_symbol r \<and> k < length (sections ctx)
         then Some (k, sec_ram_addr (sections ctx ! k) + rel_target_section_offset r)
         else if rel_target_section r = SectionAbsolute
         then map_option (\<lambda>k. (k, rel_target_section_offset r))
                (find_unique_executable_section_containing_vram ctx (rel_target_section_offset r))
         else None)"

definition code_outside_functions :: "decoder \<Rightarrow> recompiler_context \<Rightarrow> seeding \<Rightarrow> reloc \<Rightarrow> bool \<Rightarrow> nat \<Rightarrow> u32 \<Rightarrow> bool outcome" where
  "code_outside_functions decode ctx st r small k v =
     (if rel_target_section r \<noteq> SectionAbsolute then Done False
      else and_then (entry_falls_through_to_seeded_static decode ctx st k v) (\<lambda>falls.
      and_then (discover_static_entry decode ctx k v) (\<lambda>found.
      Done (falls \<or> (case found of None \<Rightarrow> False | Some found_size \<Rightarrow> found_size \<le> max_reloc_static_entry_size \<or> small)))))"

definition seeding_reloc_ok :: "decoder \<Rightarrow> recompiler_context \<Rightarrow> seeding \<Rightarrow> reloc \<Rightarrow> bool \<Rightarrow> nat \<Rightarrow> u32 \<Rightarrow> bool outcome" where
  "seeding_reloc_ok decode ctx st r small k v =
     (case nth_opt (sections ctx) k of
        None \<Rightarrow> Done False
      | Some sec \<Rightarrow>
          if \<not> overlay_code sec \<or> \<not> entry_address sec v then Done False
          else and_then (find_exact_function_in_section ctx v k) (\<lambda>exact.
          if exact \<noteq> None then Done False
          else and_then (find_containing_function_in_section ctx v k) (\<lambda>containing.
          case containing of
            Some i \<Rightarrow> and_then (or_undef (nth_opt (ctx_functions ctx) i)) (\<lambda>f.
              and_then (function_word f v) (\<lambda>w. Done (looks_executable decode w v)))
          | None \<Rightarrow> code_outside_functions decode ctx st r small k v)))"

definition seed_from_reloc :: "decoder \<Rightarrow> recompiler_context \<Rightarrow> nat \<Rightarrow> section_info \<Rightarrow> reloc \<Rightarrow> seeding \<Rightarrow> seeding outcome" where
  "seed_from_reloc decode ctx source_index source r st =
     (if rel_type r \<notin> {R_MIPS_HI16, R_MIPS_LO16, R_MIPS_32} then Done st
      else and_then (small_code_label decode ctx st source_index source (rel_address r)) (\<lambda>small.
      case small of
        None \<Rightarrow> Done st
      | Some small_label \<Rightarrow>
          case seeding_reloc_target ctx r of
            None \<Rightarrow> Done st
          | Some (k, v) \<Rightarrow> seed_if (seeding_reloc_ok decode ctx st r small_label k v) k v st))"

definition seed_from_section_relocs :: "decoder \<Rightarrow> recompiler_context \<Rightarrow> nat \<Rightarrow> seeding \<Rightarrow> seeding outcome" where
  "seed_from_section_relocs decode ctx source_index st =
     (let source = sections ctx ! source_index
      in if \<not> sec_relocatable source then Done st
         else fold_outcome (seed_from_reloc decode ctx source_index source) (sec_relocs source) st)"

definition seed_static_entrypoints_from_code_relocs ::
    "decoder \<Rightarrow> recompiler_context \<Rightarrow> u32 list list \<Rightarrow> u32 list list outcome" where
  "seed_static_entrypoints_from_code_relocs decode ctx statics =
     and_then (fold_outcome (seed_from_section_relocs decode ctx) [0..<length (sections ctx)] (start_seeding statics)) (\<lambda>st.
     Done (sd_statics st))"

section \<open>Entries from tables of code pointers\<close>

definition max_pointer_static_entry_size :: nat where
  "max_pointer_static_entry_size = 0x400"

text \<open>Start, end and index of a section; \<open>std::sort\<close> leaves open how ranges with equal bounds are ordered, here by index.\<close>

type_synonym executable_range = "(u32 \<times> u32) \<times> nat"

definition executable_ranges :: "recompiler_context \<Rightarrow> executable_range list" where
  "executable_ranges ctx = sort_key fst
     (map (\<lambda>k. let sec = sections ctx ! k in ((sec_ram_addr sec, sec_ram_addr sec + sec_size sec), k))
       (filter (\<lambda>k. overlay_code (sections ctx ! k)) [0..<length (sections ctx)]))"

text \<open>From the last range that starts at or below the address downwards, while they start within 4 MB of it.\<close>

definition find_indexed_executable_sections :: "executable_range list \<Rightarrow> u32 \<Rightarrow> nat list" where
  "find_indexed_executable_sections ranges v =
     map snd (filter (\<lambda>((from, limit), k). from \<le> v \<and> v < limit)
       (takeWhile (\<lambda>((from, limit), k). \<not> 0x400000 < v - from)
         (rev (takeWhile (\<lambda>((from, limit), k). from \<le> v) ranges))))"

definition word_points_to_section :: "bytes \<Rightarrow> executable_range list \<Rightarrow> nat \<Rightarrow> nat \<Rightarrow> bool" where
  "word_points_to_section img ranges k off \<longleftrightarrow>
     off + 4 \<le> length img \<and> k \<in> set (find_indexed_executable_sections ranges (read_be_u32_local img off))"

definition in_table_with_stride :: "bytes \<Rightarrow> executable_range list \<Rightarrow> nat \<Rightarrow> nat \<Rightarrow> nat \<Rightarrow> bool" where
  "in_table_with_stride img ranges k off stride \<longleftrightarrow>
     (let points = word_points_to_section img ranges k;
          prev_1 = (stride \<le> off \<and> points (off - stride));
          prev_2 = (stride * 2 \<le> off \<and> points (off - stride * 2));
          next_1 = (off + stride + 4 \<le> length img \<and> points (off + stride));
          next_2 = (off + stride * 2 + 4 \<le> length img \<and> points (off + stride * 2))
      in prev_1 \<and> next_1 \<or> prev_1 \<and> prev_2 \<or> next_1 \<and> next_2)"

definition word_is_in_raw_code_pointer_table :: "bytes \<Rightarrow> executable_range list \<Rightarrow> nat \<Rightarrow> nat \<Rightarrow> bool" where
  "word_is_in_raw_code_pointer_table img ranges off k = list_ex (in_table_with_stride img ranges k off) [4, 8, 16, 32]"

text \<open>The valid instruction at an address of a section, if there is one.\<close>

definition section_instr :: "decoder \<Rightarrow> recompiler_context \<Rightarrow> section_info \<Rightarrow> u32 \<Rightarrow> instruction option outcome" where
  "section_instr decode ctx sec v =
     (if v < sec_ram_addr sec \<or> unat (sec_ram_addr sec + sec_size sec) < unat v + 4 then Done None
      else and_then (blob_word (rom ctx) (unat (sec_rom_addr sec) + unat (v - sec_ram_addr sec))) (\<lambda>w.
        Done (if in_is_valid (decode w v) then Some (decode w v) else None)))"

definition instr_satisfies :: "(instruction \<Rightarrow> bool) \<Rightarrow> instruction option outcome \<Rightarrow> bool outcome" where
  "instr_satisfies P r = and_then r (\<lambda>i. Done (case i of None \<Rightarrow> False | Some instr \<Rightarrow> P instr))"

definition is_non_return_indirect_jump_at :: "decoder \<Rightarrow> recompiler_context \<Rightarrow> section_info \<Rightarrow> u32 \<Rightarrow> bool outcome" where
  "is_non_return_indirect_jump_at decode ctx sec v = instr_satisfies jumps_indirectly (section_instr decode ctx sec v)"

definition direct_unconditional_jump_targets_same_section ::
    "decoder \<Rightarrow> recompiler_context \<Rightarrow> section_info \<Rightarrow> u32 \<Rightarrow> bool outcome" where
  "direct_unconditional_jump_targets_same_section decode ctx sec v =
     instr_satisfies (\<lambda>instr. is_unconditional_branch_or_jump instr \<and>
       in_window (sec_ram_addr sec) (sec_size sec) (in_branch_vram instr)) (section_instr decode ctx sec v)"

text \<open>The instruction before the last word of an entry; the entry has two words at least.\<close>

definition entry_ends_with :: "decoder \<Rightarrow> recompiler_context \<Rightarrow> section_info \<Rightarrow> (instruction \<Rightarrow> bool) \<Rightarrow> u32 \<Rightarrow> nat \<Rightarrow> bool outcome" where
  "entry_ends_with decode ctx sec P v found_size =
     (if found_size < 8 then Done False
      else instr_satisfies P (section_instr decode ctx sec (v + word_of_nat (found_size - 8))))"

definition backward_jump :: "section_info \<Rightarrow> u32 \<Rightarrow> instruction \<Rightarrow> bool" where
  "backward_jump sec v instr \<longleftrightarrow> is_unconditional_branch_or_jump instr \<and>
     in_window (sec_ram_addr sec) (sec_size sec) (in_branch_vram instr) \<and> in_branch_vram instr < v"

definition discovered_entry_contains_direct_call ::
    "decoder \<Rightarrow> recompiler_context \<Rightarrow> section_info \<Rightarrow> u32 \<Rightarrow> nat \<Rightarrow> bool outcome" where
  "discovered_entry_contains_direct_call decode ctx sec v found_size =
     any (\<lambda>off. and_then (section_instr decode ctx sec (v + word_of_nat off)) (\<lambda>i.
            Done (case i of None \<Rightarrow> True | Some instr \<Rightarrow> in_id instr \<in> {Jump cpu_jal, Jump cpu_jalr})))
       (word_offsets 0 found_size)"

definition follows_unconditional_control_transfer :: "decoder \<Rightarrow> recomp_function \<Rightarrow> u32 \<Rightarrow> bool outcome" where
  "follows_unconditional_control_transfer decode f v =
     (let word_index = unat (v - fn_vram f) div 4
      in if unat v < unat (fn_vram f) + 8 \<or> word_index < 2 \<or> length (fn_words f) < word_index then Done False
         else and_then (or_undef (nth_opt (fn_words f) (word_index - 2))) (\<lambda>w.
           let instr = decode (byteswap w) (v - 8)
           in Done (in_is_valid instr \<and> is_unconditional_branch_or_jump instr)))"

definition jumps_soon :: "decoder \<Rightarrow> recompiler_context \<Rightarrow> section_info \<Rightarrow> u32 \<Rightarrow> bool outcome" where
  "jumps_soon decode ctx sec v =
     either (is_non_return_indirect_jump_at decode ctx sec (v + 4)) (is_non_return_indirect_jump_at decode ctx sec (v + 8))"

definition pointer_into_function :: "decoder \<Rightarrow> recompiler_context \<Rightarrow> section_info \<Rightarrow> recomp_function \<Rightarrow> u32 \<Rightarrow> bool \<Rightarrow> bool outcome" where
  "pointer_into_function decode ctx sec f v raw_table_entry =
     both (static_entrypoint_inside_function_looks_valid decode f v)
       (either (both (Done raw_table_entry)
                 (either (follows_unconditional_control_transfer decode f v)
                    (either (is_non_return_indirect_jump_at decode ctx sec v)
                       (direct_unconditional_jump_targets_same_section decode ctx sec v))))
          (jumps_soon decode ctx sec v))"

definition table_entry_shape :: "decoder \<Rightarrow> recompiler_context \<Rightarrow> section_info \<Rightarrow> u32 \<Rightarrow> nat \<Rightarrow> bool outcome" where
  "table_entry_shape decode ctx sec v found_size =
     either (both (Done (found_size \<le> 32))
               (both (and_then (discovered_entry_contains_direct_call decode ctx sec v found_size) (\<lambda>call. Done (\<not> call)))
                  (entry_ends_with decode ctx sec (backward_jump sec v) v found_size)))
       (either (entry_ends_with decode ctx sec jumps_indirectly v found_size)
          (entry_ends_with decode ctx sec is_conditional_branch v found_size))"

definition pointer_to_new_code :: "decoder \<Rightarrow> recompiler_context \<Rightarrow> section_info \<Rightarrow> u32 \<Rightarrow> bool \<Rightarrow> nat \<Rightarrow> bool outcome" where
  "pointer_to_new_code decode ctx sec v raw_table_entry found_size =
     both (Done (found_size \<le> max_pointer_static_entry_size))
       (either (both (Done raw_table_entry) (is_non_return_indirect_jump_at decode ctx sec v))
          (either (jumps_soon decode ctx sec v)
             (both (Done raw_table_entry) (table_entry_shape decode ctx sec v found_size))))"

definition pointer_target_ok :: "decoder \<Rightarrow> recompiler_context \<Rightarrow> nat \<Rightarrow> u32 \<Rightarrow> bool \<Rightarrow> bool outcome" where
  "pointer_target_ok decode ctx k v raw_table_entry =
     (case nth_opt (sections ctx) k of
        None \<Rightarrow> Done False
      | Some sec \<Rightarrow>
          if \<not> overlay_code sec \<or> \<not> entry_address sec v then Done False
          else and_then (find_exact_function_in_section ctx v k) (\<lambda>exact.
          if exact \<noteq> None then Done False
          else and_then (find_containing_function_in_section ctx v k) (\<lambda>containing.
          case containing of
            Some i \<Rightarrow> and_then (or_undef (nth_opt (ctx_functions ctx) i)) (\<lambda>f.
              pointer_into_function decode ctx sec f v raw_table_entry)
          | None \<Rightarrow> and_then (discover_static_entry decode ctx k v) (\<lambda>found.
              case found of
                None \<Rightarrow> Done False
              | Some found_size \<Rightarrow> pointer_to_new_code decode ctx sec v raw_table_entry found_size))))"

definition seed_from_word :: "decoder \<Rightarrow> recompiler_context \<Rightarrow> executable_range list \<Rightarrow> nat \<Rightarrow> seeding \<Rightarrow> seeding outcome" where
  "seed_from_word decode ctx ranges off st =
     (let v = read_be_u32_local (rom ctx) off
      in fold_outcome (\<lambda>k. seed_if (pointer_target_ok decode ctx k v (word_is_in_raw_code_pointer_table (rom ctx) ranges off k)) k v)
           (find_indexed_executable_sections ranges v) st)"

definition seed_static_entrypoints_from_pointer_tables ::
    "decoder \<Rightarrow> recompiler_context \<Rightarrow> u32 list list \<Rightarrow> u32 list list outcome" where
  "seed_static_entrypoints_from_pointer_tables decode ctx statics =
     and_then (fold_outcome (seed_from_word decode ctx (executable_ranges ctx)) (word_offsets 0 (length (rom ctx) - 3))
                 (start_seeding statics)) (\<lambda>st.
     Done (sd_statics st))"

section \<open>Entries behind branches\<close>

definition max_dispatch_function_size :: nat where
  "max_dispatch_function_size = 0x2000"

definition max_static_dispatch_scan_size :: u32 where
  "max_static_dispatch_scan_size = 0x800"

text \<open>The lambda \<open>add_entry\<close>; the set of the section's entries is the part of the state with its index.\<close>

definition add_entry :: "decoder \<Rightarrow> recompiler_context \<Rightarrow> nat \<Rightarrow> recomp_function \<Rightarrow> u32 \<Rightarrow> seeding \<Rightarrow> seeding outcome" where
  "add_entry decode ctx k f v st =
     seed_if (both (static_entrypoint_inside_function_looks_valid decode f v)
               (and_then (find_exact_function_in_section ctx v k) (\<lambda>exact. Done (exact = None)))) k v st"

definition ends_block :: "instruction \<Rightarrow> bool" where
  "ends_block instr \<longleftrightarrow> in_is_valid instr \<and>
     (is_unconditional_branch_or_jump instr \<or> in_id instr = Jump cpu_jr \<and> in_rs instr = GPR_ra \<or> is_conditional_branch instr)"

definition seed_continuation :: "decoder \<Rightarrow> recompiler_context \<Rightarrow> nat \<Rightarrow> recomp_function \<Rightarrow> nat \<Rightarrow> seeding \<Rightarrow> seeding outcome" where
  "seed_continuation decode ctx k f word_index st =
     (let instr_vram = fn_vram f + word_of_nat (4 * word_index)
      in and_then (or_undef (nth_opt (fn_words f) word_index)) (\<lambda>w.
         if ends_block (decode (byteswap w) instr_vram) then add_entry decode ctx k f (instr_vram + 8) st else Done st))"

definition dispatch_scan_words :: "recomp_function \<Rightarrow> nat" where
  "dispatch_scan_words f =
     (let scan_end = min (func_vram_end f) (fn_vram f + max_static_dispatch_scan_size)
      in if unat scan_end \<le> unat (fn_vram f) + 4 then 0 else unat (scan_end - fn_vram f) div 4)"

definition dispatched_into :: "u32 \<Rightarrow> recomp_function \<Rightarrow> bool" where
  "dispatched_into entry_vram f \<longleftrightarrow> fn_words f \<noteq> [] \<and> \<not> fn_ignored f \<and> \<not> fn_reimplemented f \<and>
     4 * length (fn_words f) \<le> max_dispatch_function_size \<and>
     fn_vram f \<le> entry_vram \<and> unat entry_vram < unat (fn_vram f) + 4 * length (fn_words f)"

text \<open>The state has the functions already processed.\<close>

definition seed_continuations_of ::
    "decoder \<Rightarrow> recompiler_context \<Rightarrow> nat \<Rightarrow> u32 \<Rightarrow> nat set \<times> seeding \<Rightarrow> (nat set \<times> seeding) outcome" where
  "seed_continuations_of decode ctx k entry_vram pst =
     (let (processed, st) = pst
      in if entry_vram AND 3 \<noteq> 0 then Done pst
         else and_then (find_exact_function_in_section ctx entry_vram k) (\<lambda>exact.
         if exact \<noteq> None then Done pst
         else and_then (find_containing_function_in_section ctx entry_vram k) (\<lambda>containing.
         case containing of
           None \<Rightarrow> Done pst
         | Some i \<Rightarrow> and_then (or_undef (nth_opt (ctx_functions ctx) i)) (\<lambda>f.
             if \<not> dispatched_into entry_vram f \<or> i \<in> processed then Done pst
             else and_then (fold_outcome (seed_continuation decode ctx k f) [0..<dispatch_scan_words f] st) (\<lambda>st'.
               Done (insert i processed, st'))))))"

definition seed_continuations_in :: "decoder \<Rightarrow> recompiler_context \<Rightarrow> nat \<Rightarrow> seeding \<Rightarrow> seeding outcome" where
  "seed_continuations_in decode ctx k st =
     (let sec = sections ctx ! k
      in if \<not> overlay_code sec \<or> \<not> has_rom_bytes ctx sec then Done st
         else and_then (or_undef (nth_opt (sd_statics st) k)) (\<lambda>entries.
           and_then (fold_outcome (seed_continuations_of decode ctx k) (sort (remdups entries)) ({}, st)) (\<lambda>(processed, st').
           Done st')))"

definition seed_static_branch_continuations_from_indirect_dispatch_entries ::
    "decoder \<Rightarrow> recompiler_context \<Rightarrow> u32 list list \<Rightarrow> u32 list list outcome" where
  "seed_static_branch_continuations_from_indirect_dispatch_entries decode ctx statics =
     and_then (fold_outcome (seed_continuations_in decode ctx) [0..<length (sections ctx)] (start_seeding statics)) (\<lambda>st.
     Done (sd_statics st))"

section \<open>The order of the passes\<close>

definition seed_static_entries :: "decoder \<Rightarrow> recompiler_context \<Rightarrow> u32 list list outcome" where
  "seed_static_entries decode ctx =
     and_then (seed_static_entrypoints_from_code_relocs decode ctx (replicate (length (sections ctx)) [])) (\<lambda>s1.
     and_then (seed_static_entrypoints_from_pointer_tables decode ctx s1) (\<lambda>s2.
     and_then (seed_static_entrypoints_from_code_relocs decode ctx s2) (\<lambda>s3.
     and_then (seed_static_branch_continuations_from_indirect_dispatch_entries decode ctx s3) (\<lambda>s4.
     seed_static_entrypoints_from_code_relocs decode ctx s4))))"

end
