(* ===== verification/Seeding_Soundness.thy ===== *)
theory Seeding_Soundness
  imports Static_Seeding Function_Bounds
begin

text \<open>
  The entries the driver requests before it recompiles: an invariant of the lists of static functions that every pass keeps.
\<close>

section \<open>What is seeded\<close>

text \<open>There is a valid instruction at the address: in a function of the section that contains it, or in the section's bytes.\<close>

definition code_in_function :: "decoder \<Rightarrow> recompiler_context \<Rightarrow> nat \<Rightarrow> u32 \<Rightarrow> bool" where
  "code_in_function decode ctx k v \<longleftrightarrow> (\<exists>i w. k < length (section_functions ctx) \<and> i \<in> set (section_functions ctx ! k) \<and>
     i < length (ctx_functions ctx) \<and> interior_of v (ctx_functions ctx ! i) \<and>
     function_word (ctx_functions ctx ! i) v = Done w \<and> in_is_valid (decode w v))"

definition code_in_section :: "decoder \<Rightarrow> recompiler_context \<Rightarrow> section_info \<Rightarrow> u32 \<Rightarrow> bool" where
  "code_in_section decode ctx sec v \<longleftrightarrow> in_window (sec_ram_addr sec) (sec_size sec) v \<and>
     (\<exists>w. blob_word (rom ctx) (unat (sec_rom_addr sec) + unat (v - sec_ram_addr sec)) = Done w \<and> in_is_valid (decode w v))"

definition good_entry :: "decoder \<Rightarrow> recompiler_context \<Rightarrow> nat \<Rightarrow> u32 \<Rightarrow> bool" where
  "good_entry decode ctx k v \<longleftrightarrow> overlay_code (sections ctx ! k) \<and> v AND 3 = 0 \<and> find_exact_function_in_section ctx v k = Done None \<and>
     (code_in_function decode ctx k v \<or> code_in_section decode ctx (sections ctx ! k) v)"

lemma first_function_Some:
  "first_function P ctx idxs = Done (Some i) \<Longrightarrow> i \<in> set idxs \<and> i < length (ctx_functions ctx) \<and> P (ctx_functions ctx ! i)"
  by (induction idxs) (auto simp: and_then_Done or_undef_def nth_opt_def split: if_splits)

lemma containing_Some:
  assumes "find_containing_function_in_section ctx v k = Done (Some i)"
  shows "k < length (section_functions ctx) \<and> i \<in> set (section_functions ctx ! k) \<and> i < length (ctx_functions ctx) \<and>
    interior_of v (ctx_functions ctx ! i)"
  using assms first_function_Some [of "interior_of v" ctx "section_functions ctx ! k" i]
  by (auto simp: find_containing_function_in_section_def split: if_splits)

lemma every_True: "every P xs = Done True \<Longrightarrow> x \<in> set xs \<Longrightarrow> P x = Done True"
  by (induction xs) (auto simp: and_then_Done split: if_splits)

lemma discovered_code:
  assumes "discover_static_entry decode ctx k v = Done (Some n)"
  shows "code_in_section decode ctx (sections ctx ! k) v"
proof -
  let ?sec = "sections ctx ! k" and ?e = "unat (v - sec_ram_addr (sections ctx ! k))"
  have w: "in_window (sec_ram_addr ?sec) (sec_size ?sec) v" and n: "n \<noteq> 0"
    and code: "discovered_entrypoint_looks_like_code decode ctx ?sec v n = Done True"
    using assms by (auto simp: discover_static_entry_def and_then_Done nth_opt_def split: option.splits if_splits checked.splits)
  have "?e \<in> set (word_offsets ?e (?e + n))" using n by (simp add: set_word_offsets)
  from every_True [OF code [unfolded discovered_entrypoint_looks_like_code_def Let_def] this]
  show ?thesis using w by (auto simp: code_in_section_def and_then_Done looks_executable_def Let_def)
qed

lemma inside_looks_valid:
  assumes "static_entrypoint_inside_function_looks_valid decode f v = Done True"
  shows "v AND 3 = 0" and "fn_vram f < v" and "v < func_vram_end f"
    and "\<exists>w. function_word f v = Done w \<and> in_is_valid (decode w v)"
  using assms by (auto simp: static_entrypoint_inside_function_looks_valid_def and_then_Done looks_executable_def Let_def split: if_splits)

lemma code_in_functionI:
  assumes "find_containing_function_in_section ctx v' k = Done (Some i)" and "interior_of v (ctx_functions ctx ! i)"
    and "function_word (ctx_functions ctx ! i) v = Done w" and "in_is_valid (decode w v)"
  shows "code_in_function decode ctx k v"
  using containing_Some [OF assms(1)] assms(2-4) by (auto simp: code_in_function_def)

lemma both_True: "both a b = Done True \<longleftrightarrow> a = Done True \<and> b = Done True"
  by (auto simp: both_def and_then_Done)

lemma code_outside_functions_sound:
  assumes "code_outside_functions decode ctx st r small k v = Done True" and "k < length (sections ctx)"
    and "in_window (sec_ram_addr (sections ctx ! k)) (sec_size (sections ctx ! k)) v"
  shows "code_in_section decode ctx (sections ctx ! k) v"
proof -
  obtain falls found where f: "entry_falls_through_to_seeded_static decode ctx st k v = Done falls"
    and d: "discover_static_entry decode ctx k v = Done found" and e: "falls \<or> found \<noteq> None"
    using assms(1) by (auto simp: code_outside_functions_def and_then_Done split: if_splits option.splits)
  show ?thesis
  proof (cases falls)
    case True
    then show ?thesis using f assms(2,3)
      by (auto simp: entry_falls_through_to_seeded_static_def nth_opt_def and_then_Done code_in_section_def split: if_splits)
  next
    case False
    then show ?thesis using d e discovered_code by (cases found) auto
  qed
qed

lemma reloc_target_ok_sound:
  assumes "seeding_reloc_ok decode ctx st r small k v = Done True"
  shows "k < length (sections ctx) \<and> good_entry decode ctx k v"
proof -
  have k: "nth_opt (sections ctx) k = Some (sections ctx ! k)" "k < length (sections ctx)"
    using assms by (auto simp: seeding_reloc_ok_def nth_opt_def split: if_splits)
  from assms obtain containing where c: "overlay_code (sections ctx ! k)" "entry_address (sections ctx ! k) v"
    "find_exact_function_in_section ctx v k = Done None" "find_containing_function_in_section ctx v k = Done containing"
    and t: "(case containing of Some i \<Rightarrow> and_then (or_undef (nth_opt (ctx_functions ctx) i)) (\<lambda>f.
              and_then (function_word f v) (\<lambda>w. Done (looks_executable decode w v)))
          | None \<Rightarrow> code_outside_functions decode ctx st r small k v) = Done True"
    by (auto simp: seeding_reloc_ok_def k(1) and_then_Done simp del: split_paired_Ex split: if_splits)
  have "code_in_function decode ctx k v \<or> code_in_section decode ctx (sections ctx ! k) v"
  proof (cases containing)
    case None
    then show ?thesis using code_outside_functions_sound [OF _ k(2)] t c(2) by (auto simp: entry_address_def)
  next
    case (Some i)
    then have "code_in_function decode ctx k v" using t containing_Some [of ctx v k i] c(4)
      by (auto simp: code_in_function_def and_then_Done or_undef_def nth_opt_def looks_executable_def Let_def split: if_splits)
    then show ?thesis ..
  qed
  then show ?thesis using k(2) c by (simp add: good_entry_def entry_address_def)
qed

lemma pointer_target_ok_sound:
  assumes "pointer_target_ok decode ctx k v raw = Done True"
  shows "k < length (sections ctx) \<and> good_entry decode ctx k v"
proof -
  have k: "nth_opt (sections ctx) k = Some (sections ctx ! k)" "k < length (sections ctx)"
    using assms by (auto simp: pointer_target_ok_def nth_opt_def split: if_splits)
  from assms obtain containing where c: "overlay_code (sections ctx ! k)" "entry_address (sections ctx ! k) v"
    "find_exact_function_in_section ctx v k = Done None" "find_containing_function_in_section ctx v k = Done containing"
    and t: "(case containing of Some i \<Rightarrow> and_then (or_undef (nth_opt (ctx_functions ctx) i)) (\<lambda>f.
              pointer_into_function decode ctx (sections ctx ! k) f v raw)
          | None \<Rightarrow> and_then (discover_static_entry decode ctx k v) (\<lambda>found. case found of None \<Rightarrow> Done False
              | Some found_size \<Rightarrow> pointer_to_new_code decode ctx (sections ctx ! k) v raw found_size)) = Done True"
    by (auto simp: pointer_target_ok_def k(1) and_then_Done simp del: split_paired_Ex split: if_splits)
  have "code_in_function decode ctx k v \<or> code_in_section decode ctx (sections ctx ! k) v"
  proof (cases containing)
    case None
    then show ?thesis using t discovered_code by (auto simp: and_then_Done split: option.splits)
  next
    case (Some i)
    then obtain f where f: "nth_opt (ctx_functions ctx) i = Some f" "pointer_into_function decode ctx (sections ctx ! k) f v raw = Done True"
      using t by (auto simp: and_then_Done or_undef_def split: option.splits)
    then have "static_entrypoint_inside_function_looks_valid decode (ctx_functions ctx ! i) v = Done True"
      by (simp add: pointer_into_function_def both_True nth_opt_Some)
    from inside_looks_valid(4) [OF this] show ?thesis using containing_Some [of ctx v k i] c(4) Some by (auto simp: code_in_function_def)
  qed
  then show ?thesis using k(2) c by (simp add: good_entry_def entry_address_def)
qed

section \<open>The invariant of the passes\<close>

definition seeds_good :: "decoder \<Rightarrow> recompiler_context \<Rightarrow> u32 list list \<Rightarrow> bool" where
  "seeds_good decode ctx statics \<longleftrightarrow> length statics = length (sections ctx) \<and>
     (\<forall>k < length statics. distinct (statics ! k) \<and> (\<forall>v \<in> set (statics ! k). good_entry decode ctx k v))"

definition seeding_good :: "decoder \<Rightarrow> recompiler_context \<Rightarrow> seeding \<Rightarrow> bool" where
  "seeding_good decode ctx st \<longleftrightarrow> seeds_good decode ctx (sd_statics st) \<and>
     sd_seeded st = {(k, v). k < length (sd_statics st) \<and> v \<in> set (sd_statics st ! k)}"

lemma start_seeding_good: "seeds_good decode ctx statics \<Longrightarrow> seeding_good decode ctx (start_seeding statics)"
  by (auto simp: seeding_good_def start_seeding_def)

lemma seed_if_good:
  assumes "seeding_good decode ctx st" and good: "test = Done True \<Longrightarrow> k < length (sections ctx) \<and> good_entry decode ctx k v"
    and "seed_if test k v st = Done st'"
  shows "seeding_good decode ctx st'"
proof -
  consider "st' = st" | "test = Done True" "(k, v) \<notin> sd_seeded st" "k < length (sd_statics st)"
      "st' = \<lparr>sd_statics = (sd_statics st)[k := sd_statics st ! k @ [v]], sd_seeded = insert (k, v) (sd_seeded st)\<rparr>"
    using assms(3) by (auto simp: seed_if_def seed_static_def and_then_Done split: if_splits)
  then show ?thesis
  proof cases
    case 2
    have sd: "sd_seeded st = {(k, v). k < length (sd_statics st) \<and> v \<in> set (sd_statics st ! k)}"
      and old: "seeds_good decode ctx (sd_statics st)" using assms(1) by (simp_all add: seeding_good_def)
    have new: "v \<notin> set (sd_statics st ! k)" using 2(2,3) sd by simp
    have "seeds_good decode ctx (sd_statics st')"
      using old good [OF 2(1)] new by (auto simp: 2(4) seeds_good_def nth_list_update)
    moreover have "sd_seeded st' = {(k, v). k < length (sd_statics st') \<and> v \<in> set (sd_statics st' ! k)}"
      using 2(3) by (auto simp: 2(4) sd nth_list_update split: if_splits)
    ultimately show ?thesis by (simp add: seeding_good_def)
  qed (use assms(1) in simp)
qed

lemmas seeding_fold = fold_outcome_invariant [where I = "seeding_good decode ctx" for decode ctx]

lemma seed_from_reloc_good:
  assumes "seeding_good decode ctx st" and "seed_from_reloc decode ctx k source r st = Done st'"
  shows "seeding_good decode ctx st'"
proof (cases "rel_type r \<in> {R_MIPS_HI16, R_MIPS_LO16, R_MIPS_32}")
  case True
  then obtain small where e: "(case small of None \<Rightarrow> Done st
      | Some small_label \<Rightarrow> (case seeding_reloc_target ctx r of None \<Rightarrow> Done st
          | Some (k, v) \<Rightarrow> seed_if (seeding_reloc_ok decode ctx st r small_label k v) k v st)) = Done st'"
    using assms(2) unfolding seed_from_reloc_def and_then_Done by (simp only: if_False not_True_eq_False and_then_Done) blast
  show ?thesis
  proof (cases small)
    case None
    then show ?thesis using e assms(1) by simp
  next
    case (Some small_label)
    show ?thesis
    proof (cases "seeding_reloc_target ctx r")
      case None
      then show ?thesis using e assms(1) Some by simp
    next
      case (Some t)
      then have "seed_if (seeding_reloc_ok decode ctx st r small_label (fst t) (snd t)) (fst t) (snd t) st = Done st'"
        using e \<open>small = Some small_label\<close> by (cases t) simp
      from seed_if_good [OF assms(1) reloc_target_ok_sound this] show ?thesis .
    qed
  qed
qed (use assms in \<open>simp add: seed_from_reloc_def\<close>)

lemma code_relocs_good:
  assumes "seeds_good decode ctx statics" and "seed_static_entrypoints_from_code_relocs decode ctx statics = Done statics'"
  shows "seeds_good decode ctx statics'"
proof -
  obtain st where f: "fold_outcome (seed_from_section_relocs decode ctx) [0..<length (sections ctx)] (start_seeding statics) = Done st"
    and st: "statics' = sd_statics st"
    using assms(2) by (auto simp: seed_static_entrypoints_from_code_relocs_def and_then_Done)
  have "seeding_good decode ctx st"
  proof (rule seeding_fold [OF _ start_seeding_good [OF assms(1)] f])
    fix k s s' assume g: "seeding_good decode ctx s" and s: "seed_from_section_relocs decode ctx k s = Done s'"
    show "seeding_good decode ctx s'"
    proof (cases "sec_relocatable (sections ctx ! k)")
      case True
      then have "fold_outcome (seed_from_reloc decode ctx k (sections ctx ! k)) (sec_relocs (sections ctx ! k)) s = Done s'"
        using s by (simp add: seed_from_section_relocs_def Let_def)
      then show ?thesis by (rule seeding_fold [OF _ g, rotated]) (rule seed_from_reloc_good)
    qed (use g s in \<open>simp add: seed_from_section_relocs_def Let_def\<close>)
  qed
  then show ?thesis by (simp add: st seeding_good_def)
qed

lemma pointer_tables_good:
  assumes "seeds_good decode ctx statics" and "seed_static_entrypoints_from_pointer_tables decode ctx statics = Done statics'"
  shows "seeds_good decode ctx statics'"
proof -
  obtain st where f: "fold_outcome (seed_from_word decode ctx (executable_ranges ctx)) (word_offsets 0 (length (rom ctx) - 3)) (start_seeding statics) = Done st"
    and st: "statics' = sd_statics st"
    using assms(2) by (auto simp: seed_static_entrypoints_from_pointer_tables_def and_then_Done)
  have "seeding_good decode ctx st"
  proof (rule seeding_fold [OF _ start_seeding_good [OF assms(1)] f])
    fix off s s' assume g: "seeding_good decode ctx s" and s: "seed_from_word decode ctx (executable_ranges ctx) off s = Done s'"
    show "seeding_good decode ctx s'"
      by (rule seeding_fold [OF _ g s [unfolded seed_from_word_def Let_def]]) (rule seed_if_good [OF _ pointer_target_ok_sound])
  qed
  then show ?thesis by (simp add: st seeding_good_def)
qed

lemma add_entry_good:
  assumes "seeding_good decode ctx st" and "add_entry decode ctx k (ctx_functions ctx ! i) v st = Done st'"
    and "k < length (sections ctx)" and "overlay_code (sections ctx ! k)" and "fn_words (ctx_functions ctx ! i) \<noteq> []"
    and "find_containing_function_in_section ctx v' k = Done (Some i)"
  shows "seeding_good decode ctx st'"
proof (rule seed_if_good [OF assms(1) _ assms(2) [unfolded add_entry_def]])
  let ?f = "ctx_functions ctx ! i"
  assume "both (static_entrypoint_inside_function_looks_valid decode ?f v)
    (and_then (find_exact_function_in_section ctx v k) (\<lambda>exact. Done (exact = None))) = Done True"
  then have v: "static_entrypoint_inside_function_looks_valid decode ?f v = Done True" "find_exact_function_in_section ctx v k = Done None"
    by (auto simp: both_True and_then_Done)
  then show "k < length (sections ctx) \<and> good_entry decode ctx k v"
    using inside_looks_valid [OF v(1)] code_in_functionI [OF assms(6), of v] assms(3-5)
    by (auto simp: good_entry_def interior_of_def)
qed

lemma seed_continuations_of_good:
  assumes "seeding_good decode ctx (snd pst)" and "seed_continuations_of decode ctx k entry_vram pst = Done pst'"
    and "k < length (sections ctx)" and "overlay_code (sections ctx ! k)"
  shows "seeding_good decode ctx (snd pst')"
proof -
  consider "pst' = pst" | i st' where "find_containing_function_in_section ctx entry_vram k = Done (Some i)"
    "fn_words (ctx_functions ctx ! i) \<noteq> []" "snd pst' = st'"
    "fold_outcome (seed_continuation decode ctx k (ctx_functions ctx ! i)) [0..<dispatch_scan_words (ctx_functions ctx ! i)] (snd pst) = Done st'"
    using assms(2) by (cases pst) (auto simp: seed_continuations_of_def and_then_Done or_undef_def nth_opt_def dispatched_into_def
        split: if_splits option.splits)
  then show ?thesis
  proof cases
    case 2
    show ?thesis unfolding 2(3)
    proof (rule seeding_fold [OF _ assms(1) 2(4)])
      fix w s s' assume g: "seeding_good decode ctx s" and s: "seed_continuation decode ctx k (ctx_functions ctx ! i) w s = Done s'"
      show "seeding_good decode ctx s'"
        using s g add_entry_good [OF g _ assms(3,4) 2(2,1)]
        by (auto simp: seed_continuation_def Let_def and_then_Done split: if_splits)
    qed
  qed (use assms(1) in simp)
qed

lemma continuations_good:
  assumes "seeds_good decode ctx statics"
    and "seed_static_branch_continuations_from_indirect_dispatch_entries decode ctx statics = Done statics'"
  shows "seeds_good decode ctx statics'"
proof -
  obtain st where f: "fold_outcome (seed_continuations_in decode ctx) [0..<length (sections ctx)] (start_seeding statics) = Done st"
    and st: "statics' = sd_statics st"
    using assms(2) by (auto simp: seed_static_branch_continuations_from_indirect_dispatch_entries_def and_then_Done)
  have "seeding_good decode ctx st"
  proof (rule seeding_fold [OF _ start_seeding_good [OF assms(1)] f])
    fix k s s' assume k: "k \<in> set [0..<length (sections ctx)]" and g: "seeding_good decode ctx s"
      and s: "seed_continuations_in decode ctx k s = Done s'"
    consider "s' = s" | entries processed where "overlay_code (sections ctx ! k)"
      "fold_outcome (seed_continuations_of decode ctx k) (sort (remdups entries)) ({}, s) = Done (processed, s')"
      using s by (auto simp: seed_continuations_in_def Let_def and_then_Done split: if_splits)
    then show "seeding_good decode ctx s'"
    proof cases
      case 2
      have "seeding_good decode ctx (snd ({} :: nat set, s))" using g by simp
      from fold_outcome_invariant [where I = "\<lambda>pst. seeding_good decode ctx (snd pst)", OF _ this 2(2)]
      show ?thesis using k 2(1) seed_continuations_of_good by fastforce
    qed (use g in simp)
  qed
  then show ?thesis by (simp add: st seeding_good_def)
qed

text \<open>C8: what the passes of the driver request is sound. Each section has a list of addresses without repetition; a section with a
  request is executable, relocatable and not the resident \<open>.text\<close>; each address is a multiple of four at which no function of the
  section starts, and there is a valid instruction at it, in a function that contains the address or in the section's bytes.\<close>

theorem seeded_entries_good:
  assumes "seed_static_entries decode ctx = Done statics"
  shows "length statics = length (sections ctx) \<and> (\<forall>k < length statics. distinct (statics ! k) \<and>
    (\<forall>v \<in> set (statics ! k). overlay_code (sections ctx ! k) \<and> v AND 3 = 0 \<and> find_exact_function_in_section ctx v k = Done None \<and>
      (code_in_function decode ctx k v \<or> code_in_section decode ctx (sections ctx ! k) v)))"
proof -
  have "seeds_good decode ctx (replicate (length (sections ctx)) [])" by (simp add: seeds_good_def)
  then have "seeds_good decode ctx statics"
    using assms code_relocs_good pointer_tables_good continuations_good unfolding seed_static_entries_def and_then_Done by meson
  then show ?thesis by (simp add: seeds_good_def good_entry_def)
qed

section \<open>An example\<close>

text \<open>A relocation that points into a function of an overlay: the second of its four words is requested. The ROM image is empty.\<close>

definition overlay_section :: section_info where
  "overlay_section = section_default\<lparr>sec_rom_addr := 0, sec_ram_addr := 0x80000000, sec_size := 16, sec_name := ''.ovl'',
     sec_executable := True, sec_relocatable := True\<rparr>"

definition pointer_section :: section_info where
  "pointer_section = section_default\<lparr>sec_rom_addr := 16, sec_ram_addr := 0x80001000, sec_size := 4, sec_relocatable := True,
     sec_relocs := [\<lparr>rel_address = 0x80001000, rel_target_section_offset = 4, rel_symbol_index = 0, rel_target_section = 0,
       rel_type = R_MIPS_32, rel_reference_symbol = False\<rparr>]\<rparr>"

definition seeding_context :: recompiler_context where
  "seeding_context = context_default\<lparr>sections := [overlay_section, pointer_section],
     ctx_functions := [make_function 0x80000000 0 [0, 0, 0, 0] ''f'' 0 False False False 0],
     section_functions := [[0], []], functions_by_vram := [0x80000000 \<mapsto> [0]]\<rparr>"

lemma overlay_seeded: "seed_static_entries small_decoder seeding_context = Done [[0x80000004], []]"
  by code_simp

lemma seeded_entries_good_witness:
  "find_exact_function_in_section seeding_context 0x80000004 0 = Done None \<and>
   (code_in_function small_decoder seeding_context 0 0x80000004 \<or> code_in_section small_decoder seeding_context overlay_section 0x80000004)"
proof -
  have "sections seeding_context ! 0 = overlay_section" by (simp add: seeding_context_def)
  then show ?thesis using conjunct2 [OF seeded_entries_good [OF overlay_seeded], THEN spec, of 0] by simp
qed

end
