(* ===== verification/Symbol_Lists.thy ===== *)
theory Symbol_Lists
  imports Recomp_Prelude
begin

text \<open>
  The name sets of \<open>src/symbol_lists.cpp\<close>, by which the routines of the SDK and of the C library are told from the game's
  own. Two entries lack a comma and are fused with the next one, as the compiler fuses adjacent literals. A set is the list of its
  initializer, repetitions included; it is only searched.
\<close>

definition reimplemented_funcs :: "string list" where
  "reimplemented_funcs =
    [''__osInitialize_common'', ''osInitialize'', ''osGetMemSize'', ''osAiGetLength'', ''osAiGetStatus'', ''osAiSetFrequency'',
     ''osAiSetNextBuffer'', ''osViSetXScale'', ''osViSetYScale'', ''osCreateViManager'', ''osViBlack'',
     ''osViSetSpecialFeatures'', ''osViGetCurrentFramebuffer'', ''osViGetNextFramebuffer'', ''osViSwapBuffer'',
     ''osViSetMode'', ''osViSetEvent'', ''osDpSetNextBuffer'', ''osSpTaskLoad'', ''osSpTaskStartGo'', ''osSpTaskYield'',
     ''osSpTaskYielded'', ''__osSpSetPc'', ''osContInit'', ''osContStartReadData'', ''osContGetReadData'',
     ''osContStartQuery'', ''osContGetQuery'', ''osContSetCh'', ''osEepromProbe'', ''osEepromWrite'', ''osEepromLongWrite'',
     ''osEepromRead'', ''osEepromLongRead'', ''__osMotorAccess'', ''osMotorInit'', ''osMotorStart'', ''osMotorStop'',
     ''osPfsInitPak'', ''osPfsFreeBlocks'', ''osPfsAllocateFile'', ''osPfsDeleteFile'', ''osPfsFileState'', ''osPfsFindFile'',
     ''osPfsReadWriteFile'', ''__osContRamRead'', ''__osContRamWrite'', ''__osPfsGetStatus'', ''__osSiRawStartDma'',
     ''osCartRomInit'', ''osCreatePiManager'', ''osPiReadIo'', ''osPiStartDma'', ''osEPiStartDma'', ''osPiGetStatus'',
     ''osEPiRawStartDma'', ''osEPiReadIo'', ''osFlashInit'', ''osFlashReadStatus'', ''osFlashReadId'', ''osFlashClearStatus'',
     ''osFlashAllErase'', ''osFlashAllEraseThrough'', ''osFlashSectorErase'', ''osFlashSectorEraseThrough'',
     ''osFlashCheckEraseEnd'', ''osFlashWriteBuffer'', ''osFlashWriteArray'', ''osFlashReadArray'', ''osFlashChange'',
     ''osCreateThread'', ''osStartThread'', ''osStopThread'', ''osDestroyThread'', ''osSetThreadPri'', ''osGetThreadPri'',
     ''osGetThreadId'', ''osCreateMesgQueue'', ''osRecvMesg'', ''osSendMesg'', ''osJamMesg'', ''osSetEventMesg'',
     ''osGetTime'', ''osSetTimer'', ''osStopTimer'', ''osVoiceSetWord'', ''osVoiceCheckWord'', ''osVoiceStopReadData'',
     ''osVoiceInit'', ''osVoiceMaskDictionary'', ''osVoiceStartReadData'', ''osVoiceControlGain'', ''osVoiceGetReadData'',
     ''osVoiceClearDictionary'', ''osSetIntMask'', ''__osDisableInt'', ''__osRestoreInt'', ''osVirtualToPhysical'',
     ''osGetCount'', ''__osSetFpcCsr'', ''osInvalDCache'', ''osInvalICache'', ''osWritebackDCache'', ''osWritebackDCacheAll'',
     ''is_proutSyncPrintf'', ''__checkHardware_msp'', ''__checkHardware_kmc'', ''__checkHardware_isv'', ''__osInitialize_msp'',
     ''__osInitialize_kmc'', ''__osInitialize_isv'', ''__osRdbSend'', ''__ull_div'', ''__ll_div'', ''__ll_mul'', ''__ull_rem'',
     ''__ull_to_d'', ''__ull_to_f'']"

definition ignored_funcs :: "string list" where
  "ignored_funcs =
    [''__createSpeedParam'', ''__osInitialize_common'', ''osInitialize'', ''osGetMemSize'', ''osAiGetLength'',
     ''osAiGetStatus'', ''osAiSetFrequency'', ''osAiSetNextBuffer'', ''__osAiDeviceBusy'', ''osViBlack'', ''osViFade'',
     ''osViGetCurrentField'', ''osViGetCurrentFramebuffer'', ''osViGetCurrentLine'', ''osViGetCurrentMode'',
     ''osViGetNextFramebuffer'', ''osViGetStatus'', ''osViRepeatLine'', ''osViSetEvent'', ''osViSetMode'',
     ''osViSetSpecialFeatures'', ''osViSetXScale'', ''osViSetYScale'', ''osViSwapBuffer'', ''osCreateViManager'',
     ''viMgrMain'', ''__osViInit'', ''__osViSwapContext'', ''__osViGetCurrentContext'', ''osDpGetCounters'', ''osDpSetStatus'',
     ''osDpGetStatus'', ''osDpSetNextBuffer'', ''__osDpDeviceBusy'', ''osSpTaskLoad'', ''osSpTaskStartGo'', ''osSpTaskYield'',
     ''osSpTaskYielded'', ''__osSpDeviceBusy'', ''__osSpGetStatus'', ''__osSpRawStartDma'', ''__osSpRawReadIo'',
     ''__osSpRawWriteIo'', ''__osSpSetPc'', ''__osSpSetStatus'', ''osContGetQuery'', ''osContGetReadData'', ''osContInit'',
     ''osContReset'', ''osContSetCh'', ''osContStartQuery'', ''osContStartReadData'', ''__osContAddressCrc'',
     ''__osContDataCrc'', ''__osContGetInitData'', ''__osContChannelReset'', ''osEepromLongRead'', ''osEepromLongWrite'',
     ''osEepromProbe'', ''osEepromRead'', ''osEepromWrite'', ''__osEepStatus'', ''osMotorInit'', ''osMotorStart'',
     ''osMotorStop'', ''__osMotorAccess'', ''_MakeMotorData'', ''__osCheckId'', ''__osCheckPackId'', ''__osGetId'',
     ''__osPfsRWInode'', ''__osRepairPackId'', ''__osPfsSelectBank'', ''__osCheckPackId'', ''ramromMain'',
     ''osPfsAllocateFile'', ''osPfsChecker'', ''osPfsDeleteFile'', ''osPfsFileState'', ''osPfsFindFile'', ''osPfsFreeBlocks'',
     ''osPfsGetLabel'', ''osPfsInit'', ''osPfsInitPak'', ''osPfsIsPlug'', ''osPfsNumFiles'', ''osPfsRepairId'',
     ''osPfsReadWriteFile'', ''__osPackEepReadData'', ''__osPackEepWriteData'', ''__osPackRamReadData'',
     ''__osPackRamWriteData'', ''__osPackReadData'', ''__osPackRequestData'', ''__osPfsGetInitData'',
     ''__osPfsGetOneChannelData'', ''__osPfsRequestData'', ''__osPfsRequestOneChannel'', ''__osPfsCreateAccessQueue'',
     ''__osPfsCheckRamArea'', ''__osPfsGetNextPage'', ''__osSiDeviceBusy'', ''__osSiGetStatus'', ''__osSiRawReadIo'',
     ''__osSiRawWriteIo'', ''__osSiCreateAccessQueue'', ''__osSiGetAccess'', ''__osSiRelAccess'', ''osCartRomInit'',
     ''osLeoDiskInit'', ''osCreatePiManager'', ''__osDevMgrMain'', ''osPiGetCmdQueue'', ''osPiGetStatus'', ''osPiStartDma'',
     ''osPiWriteIo'', ''osEPiGetDeviceType'', ''osEPiStartDma'', ''osEPiWriteIo'', ''osEPiReadIo'', ''osPiRawStartDma'',
     ''osPiRawReadIo'', ''osPiRawWriteIo'', ''osEPiRawStartDma'', ''osEPiRawReadIo'', ''osEPiRawWriteIo'',
     ''__osPiRawStartDma'', ''__osPiRawReadIo'', ''__osPiRawWriteIo'', ''__osEPiRawStartDma'', ''__osEPiRawReadIo'',
     ''__osEPiRawWriteIo'', ''__osPiDeviceBusy'', ''__osPiCreateAccessQueue'', ''__osPiGetAccess'', ''__osPiRelAccess'',
     ''__osLeoAbnormalResume'', ''__osLeoInterrupt'', ''__osLeoResume'', ''osFlashInit'', ''osFlashReadStatus'',
     ''osFlashReadId'', ''osFlashClearStatus'', ''osFlashAllErase'', ''osFlashAllEraseThrough'', ''osFlashSectorErase'',
     ''osFlashSectorEraseThrough'', ''osFlashCheckEraseEnd'', ''osFlashWriteBuffer'', ''osFlashWriteArray'',
     ''osFlashReadArray'', ''osFlashChange'', ''osCreateThread'', ''osStartThread'', ''osStopThread'', ''osDestroyThread'',
     ''osYieldThread'', ''osSetThreadPri'', ''osGetThreadPri'', ''osGetThreadId'', ''__osDequeueThread'',
     ''osCreateMesgQueue'', ''osSendMesg'', ''osJamMesg'', ''osRecvMesg'', ''osSetEventMesg'', ''osStartTimer'',
     ''osSetTimer'', ''osStopTimer'', ''osGetTime'', ''__osInsertTimer'', ''__osTimerInterrupt'', ''__osTimerServicesInit'',
     ''__osSetTimerIntr'', ''osVoiceSetWord'', ''osVoiceCheckWord'', ''osVoiceStopReadData'', ''osVoiceInit'',
     ''osVoiceMaskDictionary'', ''osVoiceStartReadData'', ''osVoiceControlGain'', ''osVoiceGetReadData'',
     ''osVoiceClearDictionary'', ''__osVoiceCheckResult'', ''__osVoiceContRead36'', ''__osVoiceContWrite20'',
     ''__osVoiceContWrite4'', ''__osVoiceContRead2'', ''__osVoiceSetADConverter'', ''__osVoiceContDataCrc'',
     ''__osVoiceGetStatus'', ''corrupted'', ''corrupted_init'', ''__osExceptionPreamble'', ''__osException'',
     ''__ptExceptionPreamble'', ''__ptException'', ''send_mesg'', ''handle_CpU'', ''__osEnqueueAndYield'',
     ''__osEnqueueThread'', ''__osPopThread'', ''__osNop'', ''__osDispatchThread'', ''__osCleanupThread'',
     ''osGetCurrFaultedThread'', ''osGetNextFaultedThread'', ''osSetIntMask'', ''osGetIntMask'', ''__osDisableInt'',
     ''__osRestoreInt'', ''__osSetGlobalIntMask'', ''__osResetGlobalIntMask'', ''osMapTLB'', ''osUnmapTLB'', ''osUnmapTLBAll'',
     ''osSetTLBASID'', ''osMapTLBRdb'', ''osVirtualToPhysical'', ''__osGetTLBHi'', ''__osGetTLBLo0'', ''__osGetTLBLo1'',
     ''__osGetTLBPageMask'', ''__osGetTLBASID'', ''__osProbeTLB'', ''__osSetCount'', ''osGetCount'', ''__osSetSR'',
     ''__osGetSR'', ''__osSetCause'', ''__osGetCause'', ''__osSetCompare'', ''__osGetCompare'', ''__osSetConfig'',
     ''__osGetConfig'', ''__osSetWatchLo'', ''__osGetWatchLo'', ''__osSetFpcCsr'', ''osInvalDCache'', ''osInvalICache'',
     ''osWritebackDCache'', ''osWritebackDCacheAll'', ''rspbootTextStart'', ''gspF3DEX2_fifoTextStart'',
     ''gspS2DEX2_fifoTextStart'', ''gspL3DEX2_fifoTextStart'', ''msp_proutSyncPrintf'', ''__osInitialize_msp'',
     ''__checkHardware_msp'', ''kmc_proutSyncPrintf'', ''__osInitialize_kmc'', ''__checkHardware_kmc'', ''isPrintfInit'',
     ''is_proutSyncPrintf'', ''__osInitialize_isv'', ''__checkHardware_isv'', ''__isExpJP'', ''__isExp'', ''__osRdbSend'',
     ''__rmonSendData'', ''__rmonWriteMem'', ''__rmonReadWordAt'', ''__rmonWriteWordTo'', ''__rmonWriteMem'',
     ''__rmonSetSRegs'', ''__rmonSetVRegs'', ''__rmonStopThread'', ''__rmonGetThreadStatus'', ''__rmonGetVRegs'',
     ''__rmonHitSpBreak'', ''__rmonRunThread'', ''__rmonClearBreak'', ''__rmonGetBranchTarget'', ''__rmonGetSRegs'',
     ''__rmonSetBreak'', ''__rmonReadMem'', ''__rmonRunThread'', ''__rmonCopyWords'', ''__rmonExecute'',
     ''__rmonGetExceptionStatus'', ''__rmonGetExeName'', ''__rmonGetFRegisters'', ''__rmonGetGRegisters'',
     ''__rmonGetRegionCount'', ''__rmonGetRegions'', ''__rmonGetRegisterContents'', ''__rmonGetTCB'', ''__rmonHitBreak'',
     ''__rmonHitCpuFault'', ''__rmonIdleRCP'', ''__rmonInit'', ''__rmonIOflush'', ''__rmonIOhandler'', ''__rmonIOputw'',
     ''__rmonListBreak'', ''__rmonListProcesses'', ''__rmonListThreads'', ''__rmonLoadProgram'', ''__rmonMaskIdleThreadInts'',
     ''__rmonMemcpy'', ''__rmonPanic'', ''__rmonRCPrunning'', ''__rmonRunRCP'', ''__rmonSendFault'', ''__rmonSendHeader'',
     ''__rmonSendReply'', ''__rmonSetComm'', ''__rmonSetFault'', ''__rmonSetFRegisters'', ''__rmonSetGRegisters'',
     ''__rmonSetSingleStep'', ''__rmonStepRCP'', ''__rmonStopUserThreads'', ''__rmonThreadStatus'', ''__rmon'',
     ''__rmonRunThread'', ''rmonFindFaultedThreads'', ''rmonMain'', ''rmonPrintf'', ''rmonGetRcpRegister'', ''kdebugserver'',
     ''send'', ''__ll_div'', ''__ll_lshift'', ''__ll_mod'', ''__ll_mul'', ''__ll_rem'', ''__ll_rshift'', ''__ull_div'',
     ''__ull_divremi'', ''__ull_rem'', ''__ull_rshift'', ''__d_to_ll'', ''__f_to_ll'', ''__d_to_ull'', ''__f_to_ull'',
     ''__ll_to_d'', ''__ll_to_f'', ''__ull_to_d'', ''__ull_to_f'', ''setjmp'', ''longjmpfunc_8025C29C'', ''func_8025C240'',
     ''func_8025C288'', ''LoadStoreSU'', ''LoadStoreVU'', ''SetUpForRCPop'', ''CleanupFromRCPop'', ''__rmonGetGRegisters'',
     ''__rmonSetGRegisters'', ''__rmonGetFRegisters'', ''__rmonSetFRegisters'', ''rmonGetRcpRegister'', ''__rmonGetSRegs'',
     ''__rmonSetSRegs'', ''__rmonGetVRegs'', ''__rmonSetVRegs'', ''__rmonGetRegisterContents'', ''SetTempBreakpoint'',
     ''ClearTempBreakpoint'', ''__rmonSetBreak'', ''__rmonListBreak'', ''__rmonClearBreak'', ''__rmonGetBranchTarget'',
     ''IsJump'', ''__rmonSetSingleStep'', ''__rmonGetExceptionStatus'', ''rmonSendBreakMessage'', ''__rmonHitBreak'',
     ''__rmonHitSpBreak'', ''__rmonHitCpuFault'', ''rmonFindFaultedThreads'', ''string_to_u32'', ''send_packet'',
     ''clear_IP6'', ''send'', ''kdebugserver'']"

definition renamed_funcs :: "string list" where
  "renamed_funcs =
    [''sincosf'', ''sinf'', ''cosf'', ''__sinf'', ''__cosf'', ''asinf'', ''acosf'', ''atanf'', ''atan2f'', ''tanf'', ''sqrt'',
     ''sqrtf'', ''memcpy'', ''memset'', ''memmove'', ''memcmp'', ''strcmp'', ''strcat'', ''strcpy'', ''strchr'', ''strlen'',
     ''strtok'', ''sprintf'', ''bzero'', ''bcopy'', ''bcmp'', ''setjmp'', ''longjmp'', ''ldiv'', ''lldiv'', ''ceil'',
     ''ceilf'', ''floor'', ''floorf'', ''fmodf'', ''fmod'', ''modf'', ''lround'', ''lroundf'', ''nearbyint'', ''nearbyintf'',
     ''round'', ''roundf'', ''trunc'', ''truncf'', ''vsprintf'', ''gcvt'', ''fcvt'', ''ecvt'', ''__assert'', ''malloc'',
     ''free'', ''realloc'', ''calloc'', ''rand'', ''srand'', ''random'', ''huft_build'', ''huft_free'', ''inflate_codes'',
     ''inflate_stored'', ''inflate_fixed'', ''inflate_dynamic'', ''inflate_block'', ''inflate'', ''expand_gzip'',
     ''auRomDataReaddata_write'', ''unzip'', ''updcrc'', ''clear_bufs'', ''fill_inbuf'', ''flush_window'', ''__muldi3'',
     ''__divdi3'', ''__udivdi3'', ''__umoddi3'', ''div64_64'', ''div64_32'', ''__moddi3'', ''_matherr'']"

end
