(* ===== verification/Driver_Edits.thy ===== *)
theory Driver_Edits
  imports Static_Entries Symbol_Lists
begin

text \<open>
  What \<open>src/main.cpp\<close> does to the context between reading it and recompiling its functions: manual functions, names, flags,
  patches and hooks of the configuration, references to events, and the aliases of computed entries.

  \<^item> \<open>Fail\<close> is \<open>exit_failure\<close>, its message left out. The entries of the configuration are the structs of \<open>src/config.h\<close>.
  \<^item> An \<open>int32_t\<close> address is its word, read as signed where the code compares it or converts it to \<open>size_t\<close>.
\<close>

section \<open>Manual functions\<close>

record manual_function =
  mf_func_name :: string
  mf_section_name :: string
  mf_vram :: u32
  mf_size :: u32

text \<open>The first section of a name counts (\<open>emplace\<close>).\<close>

definition section_index_by_name :: "recompiler_context \<Rightarrow> string \<Rightarrow> nat option" where
  "section_index_by_name ctx n = find (\<lambda>k. sec_name (sections ctx ! k) = n) [0..<length (sections ctx)]"

definition add_manual_function :: "manual_function \<Rightarrow> recompiler_context \<Rightarrow> recompiler_context outcome" where
  "add_manual_function m ctx =
     and_then (or_fail (section_index_by_name ctx (mf_section_name m))) (\<lambda>k.
     if map_of (functions_by_name ctx) (mf_func_name m) \<noteq> None then Fail
     else if mf_size m AND 3 \<noteq> 0 then Fail
     else let sec = sections ctx ! k; section_offset = mf_vram m - sec_ram_addr sec; function_index = length (ctx_functions ctx)
       in and_then (copy_from (rom ctx) (unat (sec_rom_addr sec) + unat section_offset) (4 * (unat (mf_size m) div 4))) (\<lambda>bs.
          if length (section_functions ctx) \<le> k then Undef
          else Done (ctx\<lparr>
            ctx_functions := ctx_functions ctx @ [make_function (mf_vram m) (section_offset + sec_rom_addr sec) (le_words bs)
                               (mf_func_name m) (word_of_nat k) False False False 0],
            section_functions := (section_functions ctx)[k := section_functions ctx ! k @ [function_index]],
            sections := (sections ctx)[k := sec\<lparr>sec_function_addrs := sec_function_addrs sec @ [word_of_nat function_index]\<rparr>],
            functions_by_vram := push_vram (mf_vram m) function_index (functions_by_vram ctx),
            functions_by_name := assign (mf_func_name m) function_index (functions_by_name ctx)\<rparr>)))"

definition add_manual_functions :: "manual_function list \<Rightarrow> recompiler_context \<Rightarrow> recompiler_context outcome" where
  "add_manual_functions = fold_outcome add_manual_function"

section \<open>Names\<close>

definition erase_key :: "'k \<Rightarrow> ('k \<times> 'v) list \<Rightarrow> ('k \<times> 'v) list" where
  "erase_key k m = filter (\<lambda>(k', v). k' \<noteq> k) m"

definition update_function :: "nat \<Rightarrow> (recomp_function \<Rightarrow> recomp_function) \<Rightarrow> recompiler_context \<Rightarrow> recompiler_context" where
  "update_function i g ctx = ctx\<lparr>ctx_functions := (ctx_functions ctx)[i := g (ctx_functions ctx ! i)]\<rparr>"

definition rename_function :: "nat \<Rightarrow> string \<Rightarrow> recompiler_context \<Rightarrow> recompiler_context" where
  "rename_function i new_name ctx =
     (let old = fn_name (ctx_functions ctx ! i)
      in (update_function i (\<lambda>f. f\<lparr>fn_name := new_name\<rparr>) ctx)
           \<lparr>functions_by_name := assign new_name i (erase_key old (functions_by_name ctx))\<rparr>)"

text \<open>With a symbols file: the routines of the name sets.\<close>

definition classify_function :: "nat \<Rightarrow> recompiler_context \<Rightarrow> recompiler_context" where
  "classify_function i ctx =
     (let n = fn_name (ctx_functions ctx ! i); renamed = rename_function i (n @ ''_recomp'') ctx
      in if n \<in> set reimplemented_funcs then update_function i (\<lambda>f. f\<lparr>fn_reimplemented := True, fn_ignored := True\<rparr>) renamed
         else if n \<in> set ignored_funcs then update_function i (\<lambda>f. f\<lparr>fn_ignored := True\<rparr>) renamed
         else if n \<in> set renamed_funcs then update_function i (\<lambda>f. f\<lparr>fn_ignored := False\<rparr>) renamed
         else ctx)"

definition classify_functions :: "recompiler_context \<Rightarrow> recompiler_context" where
  "classify_functions ctx = fold classify_function [0..<length (ctx_functions ctx)] ctx"

text \<open>The entry point is the function at the configured address and at 0x1000 of the ROM. \<open>operator[]\<close> leaves an empty list.\<close>

definition name_entrypoint :: "u32 \<Rightarrow> recompiler_context \<Rightarrow> recompiler_context outcome" where
  "name_entrypoint entrypoint ctx =
     (let idxs = (case functions_by_vram ctx entrypoint of None \<Rightarrow> [] | Some is' \<Rightarrow> is');
          ctx1 = ctx\<lparr>functions_by_vram := (functions_by_vram ctx)(entrypoint \<mapsto> idxs)\<rparr>
      in and_then (first_function (\<lambda>f. fn_rom f = 0x1000) ctx idxs) (\<lambda>found.
         case found of None \<Rightarrow> Fail | Some i \<Rightarrow> Done (rename_function i ''recomp_entrypoint'' ctx1)))"

section \<open>Collisions\<close>

datatype collision_policy = Policy_Error | Policy_Suffix

definition functions_named :: "recompiler_context \<Rightarrow> string \<Rightarrow> nat list" where
  "functions_named ctx n = filter (\<lambda>i. fn_name (ctx_functions ctx ! i) = n) [0..<length (ctx_functions ctx)]"

text \<open>The groups in the order of their first function; the unordered map leaves the order open.\<close>

definition colliding_names :: "recompiler_context \<Rightarrow> string list" where
  "colliding_names ctx = filter (\<lambda>n. n \<noteq> [] \<and> 1 < length (functions_named ctx n)) (remdups (map fn_name (ctx_functions ctx)))"

definition suffixed_name :: "recomp_function \<Rightarrow> string" where
  "suffixed_name f = fn_name f @ ''__rom_'' @ hex_nat (unat (fn_rom f))"

definition suffix_function :: "nat \<Rightarrow> recompiler_context \<Rightarrow> recompiler_context" where
  "suffix_function i ctx = rename_function i (suffixed_name (ctx_functions ctx ! i)) ctx"

definition resolve_collisions :: "collision_policy \<Rightarrow> recompiler_context \<Rightarrow> recompiler_context outcome" where
  "resolve_collisions policy ctx =
     (if colliding_names ctx = [] then Done ctx
      else if policy = Policy_Error then Fail
      else Done (fold suffix_function (concat (map (functions_named ctx) (colliding_names ctx))) ctx))"

section \<open>Stubs, ignored and renamed functions\<close>

definition edit_named :: "(recomp_function \<Rightarrow> recomp_function) \<Rightarrow> string \<Rightarrow> recompiler_context \<Rightarrow> recompiler_context outcome" where
  "edit_named g n ctx =
     and_then (or_fail (map_of (functions_by_name ctx) n)) (\<lambda>i.
     if i < length (ctx_functions ctx) then Done (update_function i g ctx) else Undef)"

definition stub_functions :: "string list \<Rightarrow> recompiler_context \<Rightarrow> recompiler_context outcome" where
  "stub_functions = fold_outcome (edit_named (\<lambda>f. f\<lparr>fn_stubbed := True\<rparr>))"

definition ignore_functions :: "string list \<Rightarrow> recompiler_context \<Rightarrow> recompiler_context outcome" where
  "ignore_functions = fold_outcome (edit_named (\<lambda>f. f\<lparr>fn_ignored := True\<rparr>))"

text \<open>The index by name keeps the old name.\<close>

definition rename_functions :: "string list \<Rightarrow> recompiler_context \<Rightarrow> recompiler_context outcome" where
  "rename_functions = fold_outcome (edit_named (\<lambda>f. f\<lparr>fn_name := fn_name f @ ''_recomp''\<rparr>))"

section \<open>Patches and hooks\<close>

record instruction_patch =
  ip_func_name :: string
  ip_vram :: u32
  ip_value :: u32

record function_text_hook =
  th_func_name :: string
  th_before_vram :: u32
  th_text :: string

text \<open>\<open>vram < func_vram || vram >= func_vram + words.size() * 4\<close>: the first comparison is of \<open>int32_t\<close>, the second of \<open>size_t\<close>.\<close>

definition patch_outside :: "recomp_function \<Rightarrow> u32 \<Rightarrow> bool" where
  "patch_outside f v \<longleftrightarrow> sint v < sint (fn_vram f) \<or>
     (scast (fn_vram f) :: u64) + of_nat (4 * length (fn_words f)) \<le> (scast v :: u64)"

definition patch_index :: "recomp_function \<Rightarrow> u32 \<Rightarrow> u64" where
  "patch_index f v = (scast v - scast (fn_vram f)) div 4"

definition patch_function :: "instruction_patch \<Rightarrow> recomp_function \<Rightarrow> recomp_function outcome" where
  "patch_function p f =
     (if patch_outside f (ip_vram p) then Fail
      else let i = unat (patch_index f (ip_vram p))
        in if i < length (fn_words f) then Done (f\<lparr>fn_words := (fn_words f)[i := byteswap (ip_value p)]\<rparr>) else Undef)"

text \<open>The key of a hook is converted to \<open>int32_t\<close>.\<close>

definition hook_key :: "recomp_function \<Rightarrow> u32 \<Rightarrow> int" where
  "hook_key f before_vram = (if before_vram \<noteq> 0 then sint (ucast (patch_index f before_vram) :: u32) else - 1)"

definition hook_function_text :: "function_text_hook \<Rightarrow> recomp_function \<Rightarrow> recomp_function outcome" where
  "hook_function_text h f =
     (if patch_outside f (th_before_vram h) then Fail
      else let key = hook_key f (th_before_vram h)
        in if fn_function_hooks f key \<noteq> None then Fail
           else Done (f\<lparr>fn_function_hooks := (fn_function_hooks f)(key \<mapsto> th_text h)\<rparr>))"

definition try_edit_named ::
    "(recomp_function \<Rightarrow> recomp_function outcome) \<Rightarrow> string \<Rightarrow> recompiler_context \<Rightarrow> recompiler_context outcome" where
  "try_edit_named g n ctx =
     and_then (or_fail (map_of (functions_by_name ctx) n)) (\<lambda>i.
     and_then (or_undef (nth_opt (ctx_functions ctx) i)) (\<lambda>f.
     and_then (g f) (\<lambda>f'. Done (update_function i (\<lambda>_. f') ctx))))"

definition apply_instruction_patches :: "instruction_patch list \<Rightarrow> recompiler_context \<Rightarrow> recompiler_context outcome" where
  "apply_instruction_patches = fold_outcome (\<lambda>p. try_edit_named (patch_function p) (ip_func_name p))"

definition apply_function_hooks :: "function_text_hook list \<Rightarrow> recompiler_context \<Rightarrow> recompiler_context outcome" where
  "apply_function_hooks = fold_outcome (\<lambda>h. try_edit_named (hook_function_text h) (th_func_name h))"

section \<open>Events\<close>

text \<open>The functions that have an event so far; the event of one is its position.\<close>

type_synonym event_functions = "nat list"

definition event_named :: "nat \<Rightarrow> event_functions \<Rightarrow> nat \<times> event_functions" where
  "event_named i events =
     (case find (\<lambda>e. events ! e = i) [0..<length events] of
        Some e \<Rightarrow> (e, events)
      | None \<Rightarrow> (length events, events @ [i]))"

definition event_reloc ::
    "recompiler_context \<Rightarrow> nat \<Rightarrow> u32 \<Rightarrow> reloc \<Rightarrow> event_functions \<Rightarrow> (reloc \<times> event_functions) outcome" where
  "event_reloc ctx event_section_index event_section_vram r events =
     (if rel_reference_symbol r \<or> unat (rel_target_section r) \<noteq> event_section_index then Done (r, events)
      else case find_function_by_vram_section ctx (rel_target_section_offset r + event_section_vram) event_section_index of
        None \<Rightarrow> Fail
      | Some i \<Rightarrow>
          if rel_type r \<noteq> R_MIPS_26 then Fail
          else let (e, events') = event_named i events
            in Done (r\<lparr>rel_target_section_offset := 0, rel_symbol_index := word_of_nat e, rel_target_section := SectionEvent,
                      rel_reference_symbol := True\<rparr>, events'))"

fun thread_list :: "('a \<Rightarrow> 's \<Rightarrow> ('b \<times> 's) outcome) \<Rightarrow> 'a list \<Rightarrow> 's \<Rightarrow> ('b list \<times> 's) outcome" where
  "thread_list f [] s = Done ([], s)"
| "thread_list f (x # xs) s =
     and_then (f x s) (\<lambda>(y, s1). and_then (thread_list f xs s1) (\<lambda>(ys, s2). Done (y # ys, s2)))"

definition event_relocs_of ::
    "recompiler_context \<Rightarrow> nat \<Rightarrow> u32 \<Rightarrow> section_info \<Rightarrow> event_functions \<Rightarrow> (section_info \<times> event_functions) outcome" where
  "event_relocs_of ctx event_section_index event_section_vram sec events =
     and_then (thread_list (event_reloc ctx event_section_index event_section_vram) (sec_relocs sec) events) (\<lambda>(rs, events').
     Done (sec\<lparr>sec_relocs := rs\<rparr>, events'))"

definition redirect_events :: "bool \<Rightarrow> recompiler_context \<Rightarrow> (recompiler_context \<times> event_functions) outcome" where
  "redirect_events allow_exports ctx =
     (if \<not> allow_exports then Done (ctx, [])
      else case section_index_by_name ctx EventSectionName of
        None \<Rightarrow> Done (ctx, [])
      | Some k \<Rightarrow>
          and_then (thread_list (event_relocs_of ctx k (sec_ram_addr (sections ctx ! k))) (sections ctx) []) (\<lambda>(secs, events).
          Done (ctx\<lparr>sections := secs\<rparr>, events)))"

section \<open>Aliases of computed entries\<close>

type_synonym alias_state = "recompiler_context \<times> (u16 \<times> u32) set"

definition register_interior_alias :: "nat \<Rightarrow> u32 \<Rightarrow> alias_state \<Rightarrow> alias_state outcome" where
  "register_interior_alias func_index target st =
     (let (ctx, existing) = st; f = ctx_functions ctx ! func_index; k = fn_section_index f
      in and_then (find_exact_function_in_section ctx target (unat k)) (\<lambda>exact.
         if exact \<noteq> None then Done st
         else let ctx1 = update_function func_index (add_dispatch_entry target) ctx
           in if (k, target) \<in> existing then Done (ctx1, existing)
              else Done (push_alias k \<lparr>da_section_index = k, da_vram = target, da_rom = fn_rom f + (target - fn_vram f),
                           da_name = dispatch_alias_name k target, da_target_function_index = func_index\<rparr> ctx1,
                         insert (k, target) existing)))"

definition links_conditionally :: "(u32 \<Rightarrow> u32 \<Rightarrow> bool) \<Rightarrow> instruction \<Rightarrow> u32 \<Rightarrow> u32 \<Rightarrow> bool" where
  "links_conditionally links instr insn_word vram \<longleftrightarrow> in_is_valid instr \<and> links insn_word vram \<and> is_conditional_branch instr"

definition register_word ::
    "decoder \<Rightarrow> (u32 \<Rightarrow> u32 \<Rightarrow> bool) \<Rightarrow> recomp_function \<Rightarrow> nat \<Rightarrow> nat \<Rightarrow> alias_state \<Rightarrow> alias_state outcome" where
  "register_word decode links f func_index word_index st =
     (let instr_vram = fn_vram f + word_of_nat (4 * word_index); w = byteswap (fn_words f ! word_index);
          instr = decode w instr_vram; target = in_branch_vram instr
      in if \<not> links_conditionally links instr w instr_vram then Done st
         else if target AND 3 \<noteq> 0 \<or> target \<le> fn_vram f \<or> func_vram_end f \<le> target then Done st
         else register_interior_alias func_index target st)"

definition register_function :: "decoder \<Rightarrow> (u32 \<Rightarrow> u32 \<Rightarrow> bool) \<Rightarrow> nat \<Rightarrow> alias_state \<Rightarrow> alias_state outcome" where
  "register_function decode links func_index st =
     (let f = ctx_functions (fst st) ! func_index
      in if fn_words f = [] \<or> fn_ignored f \<or> fn_reimplemented f \<or> fn_stubbed f then Done st
         else fold_outcome (register_word decode links f func_index) [0..<length (fn_words f)] st)"

definition register_interior_dispatch_aliases ::
    "decoder \<Rightarrow> (u32 \<Rightarrow> u32 \<Rightarrow> bool) \<Rightarrow> recompiler_context \<Rightarrow> recompiler_context outcome" where
  "register_interior_dispatch_aliases decode links ctx =
     and_then (fold_outcome (register_function decode links) [0..<length (ctx_functions ctx)]
                 (ctx, set (map (\<lambda>a. (da_section_index a, da_vram a)) (dispatch_aliases ctx)))) (\<lambda>(ctx', existing).
     Done ctx')"

section \<open>The sequence of edits\<close>

record driver_config =
  cf_collision_policy :: collision_policy
  cf_stubbed_funcs :: "string list"
  cf_ignored_funcs :: "string list"
  cf_renamed_funcs :: "string list"
  cf_trace_mode :: bool
  cf_instruction_patches :: "instruction_patch list"
  cf_function_hooks :: "function_text_hook list"
  cf_allow_exports :: bool
  cf_strict_patch_mode :: bool
  cf_functions_per_output_file :: int
  cf_single_file_output :: bool
  cf_recomp_include :: string
  cf_reference_symbol_mode :: bool

text \<open>Everything from the collisions to the aliases, but for the static functions, which read the context after the collisions.\<close>

definition edit_context ::
    "decoder \<Rightarrow> (u32 \<Rightarrow> u32 \<Rightarrow> bool) \<Rightarrow> driver_config \<Rightarrow> recompiler_context \<Rightarrow> (recompiler_context \<times> event_functions) outcome" where
  "edit_context decode links cfg ctx =
     and_then (stub_functions (cf_stubbed_funcs cfg) ctx) (\<lambda>c1.
     and_then (ignore_functions (cf_ignored_funcs cfg) c1) (\<lambda>c2.
     and_then (rename_functions (cf_renamed_funcs cfg) c2) (\<lambda>c3.
     and_then (apply_instruction_patches (cf_instruction_patches cfg) (c3\<lparr>trace_mode := cf_trace_mode cfg\<rparr>)) (\<lambda>c4.
     and_then (apply_function_hooks (cf_function_hooks cfg) c4) (\<lambda>c5.
     and_then (redirect_events (cf_allow_exports cfg) c5) (\<lambda>(c6, events).
     and_then (register_interior_dispatch_aliases decode links c6) (\<lambda>c7.
     Done (c7, events))))))))"

end
