(* ===== verification/Driver.thy ===== *)
theory Driver
  imports Driver_Edits Static_Seeding
begin

text \<open>
  The recompilation of a whole program in \<open>src/main.cpp\<close>: every function of the context, then, section by section, the static
  functions that were requested, and the wrappers of the dispatch aliases.

  \<^item> The text of \<open>funcs.h\<close> and the files written are part of the state, a file being its name and its text; \<open>current_output_file\<close>
    is one of them, or none while it is not open, when what is written to it is lost. Writing a file always succeeds.
  \<^item> \<open>Fail\<close> is the end of the program with an error, its message left out.
  \<^item> A body that reaches past the end of the ROM image is \<open>Undef\<close> as soon as bounds are looked for in it.
\<close>

section \<open>The output\<close>

record driver_state =
  dr_ctx :: recompiler_context
  dr_statics :: "u32 list list"
  dr_header :: string
  dr_files :: "(string \<times> string) list"
  dr_current :: "(string \<times> string) option"
  dr_file_count :: nat
  dr_function_count :: nat
  dr_exports :: "nat list"
  dr_failed_strict :: bool

definition driver_preamble :: "driver_config \<Rightarrow> string" where
  "driver_preamble cfg = print_lines [cf_recomp_include cfg, ''#include \"funcs.h\"'', '''']"

definition file_preamble :: "driver_config \<Rightarrow> string" where
  "file_preamble cfg = driver_preamble cfg @
     (if cf_allow_exports cfg
      then print_lines [''extern uint32_t builtin_base_event_index;'', ''#define base_event_index builtin_base_event_index'', '''']
      else '''')"

definition to_header :: "string \<Rightarrow> driver_state \<Rightarrow> driver_state" where
  "to_header t st = st\<lparr>dr_header := dr_header st @ t\<rparr>"

definition to_current :: "string \<Rightarrow> driver_state \<Rightarrow> driver_state" where
  "to_current t st = st\<lparr>dr_current := map_option (\<lambda>(name, old). (name, old @ t)) (dr_current st)\<rparr>"

text \<open>Assigning a new stream closes the old one.\<close>

definition open_output :: "string \<Rightarrow> string \<Rightarrow> driver_state \<Rightarrow> driver_state" where
  "open_output name t st = st\<lparr>dr_files := (case dr_current st of None \<Rightarrow> dr_files st | Some old \<Rightarrow> dr_files st @ [old]),
     dr_current := Some (name, t)\<rparr>"

definition open_new_output_file :: "driver_config \<Rightarrow> driver_state \<Rightarrow> driver_state" where
  "open_new_output_file cfg st =
     (open_output (''funcs_'' @ fmt_nat (dr_file_count st) @ ''.c'') (file_preamble cfg) st)
       \<lparr>dr_function_count := 0, dr_file_count := dr_file_count st + 1\<rparr>"

text \<open>The comparison of a \<open>size_t\<close> with the configured \<open>int32_t\<close>.\<close>

definition count_function :: "driver_config \<Rightarrow> driver_state \<Rightarrow> driver_state" where
  "count_function cfg st =
     (if cf_single_file_output cfg then st
      else let n = dr_function_count st + 1; st1 = st\<lparr>dr_function_count := n\<rparr>
        in if (of_int (cf_functions_per_output_file cfg) :: u64) \<le> of_nat n then open_new_output_file cfg st1 else st1)"

definition prototype :: "string \<Rightarrow> string" where
  "prototype name = print_lines [''void '' @ name @ ''(uint8_t* rdram, recomp_context* ctx);'']"

section \<open>One function\<close>

definition abort_stub :: "recomp_function \<Rightarrow> string" where
  "abort_stub f = print_lines [
     ''void '' @ fn_name f @ ''(uint8_t* rdram, recomp_context* ctx) {'',
     ''    recomp_unhandled_instruction(rdram, ctx, 0x'' @ fmt_08X (fn_vram f) @ ''u, \"unrecompilable_func\");'',
     ''}'']"

text \<open>A function that cannot be translated is replaced by a stub; what it requested stays requested.\<close>

definition recompile_or_stub :: "decoder \<Rightarrow> nat \<Rightarrow> driver_state \<Rightarrow> driver_state outcome" where
  "recompile_or_stub decode i st =
     and_then (or_undef (nth_opt (ctx_functions (dr_ctx st)) i)) (\<lambda>f.
     and_then (or_undef (recompile_function decode (dr_ctx st) i (dr_statics st) False)) (\<lambda>(ok, text_out, statics).
     Done (to_current (if ok then text_out else abort_stub f) (st\<lparr>dr_statics := statics\<rparr>))))"

text \<open>A file of its own; an identical file is left untouched, which makes no difference to its text.\<close>

definition recompile_single_function :: "decoder \<Rightarrow> driver_config \<Rightarrow> nat \<Rightarrow> driver_state \<Rightarrow> driver_state outcome" where
  "recompile_single_function decode cfg i st =
     and_then (or_undef (nth_opt (ctx_functions (dr_ctx st)) i)) (\<lambda>f.
     and_then (or_undef (recompile_function decode (dr_ctx st) i (dr_statics st) False)) (\<lambda>(ok, text_out, statics).
     if \<not> ok then Fail
     else Done (st\<lparr>dr_statics := statics, dr_files := dr_files st @ [(fn_name f @ ''.c'', driver_preamble cfg @ text_out)]\<rparr>)))"

definition emit_body :: "decoder \<Rightarrow> driver_config \<Rightarrow> nat \<Rightarrow> driver_state \<Rightarrow> driver_state outcome" where
  "emit_body decode cfg i st =
     (if cf_single_file_output cfg \<or> 1 < cf_functions_per_output_file cfg
      then and_then (recompile_or_stub decode i st) (\<lambda>st'. Done (count_function cfg st'))
      else recompile_single_function decode cfg i st)"

section \<open>All functions of the context\<close>

definition in_patch_section :: "section_info \<Rightarrow> bool" where
  "in_patch_section sec \<longleftrightarrow> sec_name sec = PatchSectionName \<or> sec_name sec = ForcedPatchSectionName"

definition emit_context_function :: "decoder \<Rightarrow> driver_config \<Rightarrow> nat \<Rightarrow> driver_state \<Rightarrow> driver_state outcome" where
  "emit_context_function decode cfg i st =
     (let f = ctx_functions (dr_ctx st) ! i; declared = to_header (prototype (fn_name f)) st
      in if \<not> fn_ignored f \<and> fn_words f \<noteq> [] then
           and_then (or_undef (nth_opt (sections (dr_ctx st)) (unat (fn_section_index f)))) (\<lambda>sec.
           if cf_strict_patch_mode cfg \<and> in_patch_section sec \<noteq> reference_symbol_exists (dr_ctx st) (fn_name f)
           then Done (declared\<lparr>dr_failed_strict := True\<rparr>)
           else emit_body decode cfg i (if cf_allow_exports cfg \<and> sec_name sec = ExportSectionName
                  then declared\<lparr>dr_exports := dr_exports st @ [i]\<rparr> else declared))
         else if fn_reimplemented f then Done declared
         else Done st)"

definition emit_context_functions :: "decoder \<Rightarrow> driver_config \<Rightarrow> driver_state \<Rightarrow> driver_state outcome" where
  "emit_context_functions decode cfg st =
     and_then (fold_outcome (emit_context_function decode cfg) [0..<length (ctx_functions (dr_ctx st))] st) (\<lambda>st'.
     if dr_failed_strict st' then Fail else Done st')"

section \<open>Static functions\<close>

definition section_base_for :: "section_info \<Rightarrow> u32 \<Rightarrow> u32 \<Rightarrow> u32" where
  "section_base_for sec encoded_base v =
     (if encoded_base \<le> v \<and> v \<le> encoded_base + sec_size sec then encoded_base else sec_ram_addr sec)"

text \<open>\<open>span_base + 8\<close> is a \<open>size_t\<close>.\<close>

definition span_ends_after_conditional_branch_delay ::
    "decoder \<Rightarrow> recompiler_context \<Rightarrow> section_info \<Rightarrow> u32 \<Rightarrow> u32 \<Rightarrow> bool outcome" where
  "span_ends_after_conditional_branch_delay decode ctx sec encoded_base span_end =
     (let span_base = section_base_for sec encoded_base span_end
      in if unat span_end < unat span_base + 8 \<or> span_base + sec_size sec < span_end then Done False
         else let branch_vram = span_end - 8
           in and_then (blob_word (rom ctx) (unat (sec_rom_addr sec) + unat (branch_vram - span_base))) (\<lambda>w.
              let instr = decode w branch_vram in Done (in_is_valid instr \<and> is_conditional_branch instr)))"

definition section_bytes :: "recompiler_context \<Rightarrow> section_info \<Rightarrow> bytes outcome" where
  "section_bytes ctx sec = copy_from (rom ctx) (unat (sec_rom_addr sec)) (unat (sec_size sec))"

definition bounds_in_section ::
    "decoder \<Rightarrow> recompiler_context \<Rightarrow> section_info \<Rightarrow> u32 \<Rightarrow> u32 \<Rightarrow> nat option outcome" where
  "bounds_in_section decode ctx sec base v =
     and_then (section_bytes ctx sec) (\<lambda>body. Done (case discover_function_bounds decode body base (v - base) of
       Refused e \<Rightarrow> None | Accepted n \<Rightarrow> Some n))"

text \<open>Where the entry ends that follows one which falls through its end, or nothing when the loop stops there.\<close>

definition extended_end ::
    "decoder \<Rightarrow> recompiler_context \<Rightarrow> section_info \<Rightarrow> u32 \<Rightarrow> u32 \<Rightarrow> (u32 \<Rightarrow> bool) \<Rightarrow> u32 \<Rightarrow> u32 option outcome" where
  "extended_end decode ctx sec encoded_base base requested func_end =
     (if \<not> requested func_end then Done None
      else and_then (span_ends_after_conditional_branch_delay decode ctx sec encoded_base func_end) (\<lambda>falls.
      if \<not> falls then Done None
      else and_then (bounds_in_section decode ctx sec base func_end) (\<lambda>found.
      case found of
        None \<Rightarrow> Done None
      | Some n \<Rightarrow>
          let extended = min (func_end + word_of_nat n) (base + sec_size sec)
          in Done (if n = 0 \<or> extended \<le> func_end then None else Some extended))))"

lemma extended_end_less: "extended_end decode ctx sec eb base requested func_end = Done (Some e) \<Longrightarrow> func_end < e"
  by (auto simp: extended_end_def and_then_Done Let_def not_le not_less min_def split: if_splits option.splits)

function extend_end ::
    "decoder \<Rightarrow> recompiler_context \<Rightarrow> section_info \<Rightarrow> u32 \<Rightarrow> u32 \<Rightarrow> (u32 \<Rightarrow> bool) \<Rightarrow> u32 \<Rightarrow> u32 outcome" where
  "extend_end decode ctx sec encoded_base base requested func_end =
     and_then (extended_end decode ctx sec encoded_base base requested func_end) (\<lambda>e.
       case e of None \<Rightarrow> Done func_end | Some e' \<Rightarrow> extend_end decode ctx sec encoded_base base requested e')"
  by pat_completeness auto
termination
proof (relation "measure (\<lambda>(decode, ctx, sec, eb, base, requested, func_end). 2 ^ 32 - unat func_end)")
  fix decode ctx sec eb base requested func_end e e'
  assume "extended_end decode ctx sec eb base requested func_end = Done e" "e = Some e'"
  then have "unat func_end < unat e'" using extended_end_less by (fastforce simp: word_less_nat_alt)
  moreover have "unat e' < 2 ^ 32" using unsigned_less [of e'] by simp
  ultimately show "((decode, ctx, sec, eb, base, requested, e'), decode, ctx, sec, eb, base, requested, func_end)
      \<in> measure (\<lambda>(decode, ctx, sec, eb, base, requested, func_end). 2 ^ 32 - unat func_end)"
    by simp
qed simp

declare extend_end.simps [simp del]

text \<open>The nearest function behind the address bounds a static function whose own bounds are not found.\<close>

definition nearest_function :: "u32 \<Rightarrow> nat \<Rightarrow> recompiler_context \<times> u32 \<Rightarrow> (recompiler_context \<times> u32) outcome" where
  "nearest_function v i cn =
     (let (ctx, func_end) = cn
      in and_then (or_undef (nth_opt (ctx_functions ctx) i)) (\<lambda>f.
         Done (ctx, if fn_words f = [] \<or> starts_with ''static_'' (fn_name f) then func_end
                    else if v < fn_vram f \<and> fn_vram f < func_end then fn_vram f else func_end)))"

text \<open>Start, ROM address and end of the code of a static function.\<close>

definition static_extent ::
    "decoder \<Rightarrow> recompiler_context \<Rightarrow> nat \<Rightarrow> section_info \<Rightarrow> u32 \<Rightarrow> (u32 \<Rightarrow> bool) \<Rightarrow> u32 \<Rightarrow> (u32 \<times> u32 \<times> u32) outcome" where
  "static_extent decode ctx k sec encoded_base requested v =
     (let base = section_base_for sec encoded_base v
      in and_then (find_containing_function_in_section ctx v k) (\<lambda>containing.
         case containing of
           Some i \<Rightarrow> let f = ctx_functions ctx ! i in Done (fn_vram f, fn_rom f, func_vram_end f)
         | None \<Rightarrow>
             and_then (or_undef (nth_opt (section_functions ctx) k)) (\<lambda>idxs.
             and_then (fold_outcome (nearest_function v) idxs (ctx, sec_size sec + base)) (\<lambda>(c, func_end).
             and_then (bounds_in_section decode ctx sec base v) (\<lambda>found.
             and_then (case found of
                 None \<Rightarrow> Done func_end
               | Some n \<Rightarrow> extend_end decode ctx sec encoded_base base requested (min (v + word_of_nat n) (base + sec_size sec)))
               (\<lambda>func_end'. Done (v, v - base + sec_rom_addr sec, func_end')))))))"

text \<open>The code ends at the first word that a relocation makes a pointer; without any code left there is no function.\<close>

definition cut_at_pointers :: "section_info \<Rightarrow> u32 \<Rightarrow> u32 \<Rightarrow> u32" where
  "cut_at_pointers sec func_start func_end =
     foldl (\<lambda>cut r. if rel_type r = R_MIPS_32 \<and> func_start \<le> rel_address r \<and> rel_address r < func_end
                    then min cut (rel_address r) else cut) func_end (sec_relocs sec)"

definition exact_wrapper :: "string \<Rightarrow> string \<Rightarrow> string" where
  "exact_wrapper alias_name target_name = print_lines [
     ''RECOMP_FUNC void '' @ alias_name @ ''(uint8_t* rdram, recomp_context* ctx) {'',
     ''    '' @ target_name @ ''(rdram, ctx);'',
     ''}'']"

definition add_static_function :: "nat \<Rightarrow> u32 \<Rightarrow> u32 \<Rightarrow> u32 \<Rightarrow> u32 list \<Rightarrow> recompiler_context \<Rightarrow> recompiler_context" where
  "add_static_function k v func_start func_rom ws ctx =
     (let i = length (ctx_functions ctx)
      in ctx\<lparr>ctx_functions := ctx_functions ctx @
               [make_function func_start func_rom ws (static_name k v) (word_of_nat k) False False False v],
             section_functions := (section_functions ctx)[k := section_functions ctx ! k @ [i]],
             functions_by_vram := push_vram v i (functions_by_vram ctx)\<rparr>)"

text \<open>One static function. The result has the addresses its translation has requested in the section.\<close>

definition emit_static ::
    "decoder \<Rightarrow> driver_config \<Rightarrow> nat \<Rightarrow> u32 \<Rightarrow> (u32 \<Rightarrow> bool) \<Rightarrow> u32 \<Rightarrow> driver_state \<Rightarrow> (u32 list \<times> driver_state) outcome" where
  "emit_static decode cfg k encoded_base requested v st =
     (let ctx = dr_ctx st; sec = sections ctx ! k; name = static_name k v; declared = to_header (prototype name)
      in and_then (find_exact_function_in_section ctx v k) (\<lambda>exact.
         case exact of
           Some i \<Rightarrow>
             Done ([], count_function cfg (to_current (exact_wrapper name (fn_name (ctx_functions ctx ! i))) (declared st)))
         | None \<Rightarrow>
             and_then (static_extent decode ctx k sec encoded_base requested v) (\<lambda>(func_start, func_rom, func_end).
             let code_end = cut_at_pointers sec func_start func_end
             in if code_end \<le> func_start then Done ([], st)
                else and_then (copy_from (rom ctx) (unat func_rom) (4 * (unat (code_end - func_start) div 4))) (\<lambda>bs.
                  let st1 = declared (st\<lparr>dr_ctx := add_static_function k v func_start func_rom (le_words bs) ctx\<rparr>)
                  in and_then (or_undef (nth_opt (dr_statics st) k)) (\<lambda>old.
                     and_then (emit_body decode cfg (length (ctx_functions ctx)) st1) (\<lambda>st2.
                     Done (drop (length old) (dr_statics st2 ! k), st2)))))))"

text \<open>The list of a section grows while it is worked on; \<open>requested\<close> is the set of all its addresses.\<close>

definition fresh :: "u32 set \<Rightarrow> u32 list \<Rightarrow> u32 list" where
  "fresh seen vs = filter (\<lambda>v. v \<notin> seen) (rev (remdups (rev vs)))"

function static_loop ::
    "decoder \<Rightarrow> driver_config \<Rightarrow> nat \<Rightarrow> u32 \<Rightarrow> u32 list \<Rightarrow> u32 set \<Rightarrow> driver_state \<Rightarrow> driver_state outcome" where
  "static_loop decode cfg k encoded_base [] seen st = Done st"
| "static_loop decode cfg k encoded_base (v # queue) seen st =
     and_then (emit_static decode cfg k encoded_base (\<lambda>x. x \<in> seen) v st) (\<lambda>(new, st').
       static_loop decode cfg k encoded_base (queue @ fresh seen new) (seen \<union> set new) st')"
  by pat_completeness auto
termination
proof (relation "measures [\<lambda>(decode, cfg, k, eb, queue, seen, st). card (- seen), \<lambda>(decode, cfg, k, eb, queue, seen, st). length queue]")
  fix decode cfg k eb v queue seen st new st'
  show "((decode, cfg, k, eb, queue @ fresh seen new, seen \<union> set new, st'), decode, cfg, k, eb, v # queue, seen, st)
      \<in> measures [\<lambda>(decode, cfg, k, eb, queue, seen, st). card (- seen), \<lambda>(decode, cfg, k, eb, queue, seen, st). length queue]"
  proof (cases "set new \<subseteq> seen")
    case True
    then have "fresh seen new = []" "seen \<union> set new = seen" by (auto simp: fresh_def filter_empty_conv)
    then show ?thesis by simp
  next
    case False
    then have "card (- (seen \<union> set new)) < card (- seen)" by (intro psubset_card_mono) auto
    then show ?thesis by simp
  qed
qed simp

definition emit_section_statics :: "decoder \<Rightarrow> driver_config \<Rightarrow> nat \<Rightarrow> driver_state \<Rightarrow> driver_state outcome" where
  "emit_section_statics decode cfg k st =
     (let ctx = dr_ctx st
      in and_then (infer_section_encoded_vram_base ctx k) (\<lambda>encoded_base.
         and_then (or_undef (nth_opt (dr_statics st) k)) (\<lambda>statics.
         static_loop decode cfg k encoded_base (sort (remdups statics)) (set statics)
           (st\<lparr>dr_ctx := ctx\<lparr>sections := (sections ctx)[k := (sections ctx ! k)
             \<lparr>sec_function_addrs := sort (sec_function_addrs (sections ctx ! k))\<rparr>]\<rparr>\<rparr>))))"

definition emit_statics :: "decoder \<Rightarrow> driver_config \<Rightarrow> driver_state \<Rightarrow> driver_state outcome" where
  "emit_statics decode cfg st = fold_outcome (emit_section_statics decode cfg) [0..<length (sections (dr_ctx st))] st"

section \<open>The wrappers of the aliases\<close>

definition alias_wrapper :: "recompiler_context \<Rightarrow> dispatch_alias \<Rightarrow> string outcome" where
  "alias_wrapper ctx a =
     and_then (or_undef (nth_opt (ctx_functions ctx) (da_target_function_index a))) (\<lambda>f. Done (print_lines [
       ''RECOMP_FUNC void '' @ da_name a @ ''(uint8_t* rdram, recomp_context* ctx) {'',
       ''    uint32_t recomp_prev_dispatch_entry = ctx->dispatch_entry_target;'',
       ''    ctx->dispatch_entry_target = 0x'' @ fmt_08X (da_vram a) @ ''u;'',
       ''    '' @ fn_name f @ ''(rdram, ctx);'',
       ''    ctx->dispatch_entry_target = recomp_prev_dispatch_entry;'',
       ''}'']))"

definition emit_aliases :: "driver_config \<Rightarrow> driver_state \<Rightarrow> driver_state outcome" where
  "emit_aliases cfg st =
     (let aliases = dispatch_aliases (dr_ctx st)
      in if aliases = [] then Done st
         else and_then (map_outcome (alias_wrapper (dr_ctx st)) aliases) (\<lambda>wrappers.
           Done ((to_header (concat (map (\<lambda>a. prototype (da_name a)) aliases)) st)
             \<lparr>dr_files := dr_files st @ [(''dispatch_aliases.c'', driver_preamble cfg @ concat wrappers)]\<rparr>)))"

section \<open>The whole\<close>

definition header_preamble :: "driver_config \<Rightarrow> string" where
  "header_preamble cfg = print_lines [cf_recomp_include cfg, '''', ''#ifdef __cplusplus'', ''extern \"C\" {'', ''#endif'', '''']"

definition header_end :: string where
  "header_end = print_lines ['''', ''#ifdef __cplusplus'', ''}'', ''#endif'']"

text \<open>\<open>single_name\<close> is the file name made of that of the ELF file.\<close>

definition start_output :: "driver_config \<Rightarrow> string \<Rightarrow> recompiler_context \<Rightarrow> u32 list list \<Rightarrow> driver_state" where
  "start_output cfg single_name ctx statics =
     (let st = \<lparr>dr_ctx = ctx, dr_statics = statics, dr_header = header_preamble cfg, dr_files = [], dr_current = None,
                dr_file_count = 0, dr_function_count = 0, dr_exports = [], dr_failed_strict = False\<rparr>
      in if cf_single_file_output cfg then open_output single_name (file_preamble cfg) st
         else if 1 < cf_functions_per_output_file cfg then open_new_output_file cfg st
         else st)"

definition recompile_program ::
    "decoder \<Rightarrow> (u32 \<Rightarrow> u32 \<Rightarrow> bool) \<Rightarrow> driver_config \<Rightarrow> string \<Rightarrow> recompiler_context \<Rightarrow> (driver_state \<times> event_functions) outcome" where
  "recompile_program decode links cfg single_name ctx0 =
     and_then (resolve_collisions (cf_collision_policy cfg) ctx0) (\<lambda>ctx.
     and_then (seed_static_entries decode ctx) (\<lambda>statics.
     and_then (edit_context decode links cfg ctx) (\<lambda>(ctx', events).
     and_then (emit_context_functions decode cfg (start_output cfg single_name ctx' statics)) (\<lambda>st1.
     and_then (emit_statics decode cfg st1) (\<lambda>st2.
     and_then (emit_aliases cfg st2) (\<lambda>st3.
     Done (st3, events)))))))"

text \<open>A configuration with nothing to edit, for the examples.\<close>

definition plain_config :: driver_config where
  "plain_config = \<lparr>cf_collision_policy = Policy_Error, cf_stubbed_funcs = [], cf_ignored_funcs = [], cf_renamed_funcs = [],
     cf_trace_mode = False, cf_instruction_patches = [], cf_function_hooks = [], cf_allow_exports = False,
     cf_strict_patch_mode = False, cf_functions_per_output_file = 50, cf_single_file_output = True,
     cf_recomp_include = '''', cf_reference_symbol_mode = False\<rparr>"

end
