(* ===== verification/Alias_Soundness.thy ===== *)
theory Alias_Soundness
  imports Driver Fragment_Invariants
begin

text \<open>
  Every alias the runtime can enter a function by has a label in the function's dispatch switch: an invariant of the synthesis of
  fragments, of the edits of the configuration, and of the recompilation of a program.
\<close>

section \<open>The invariant\<close>

definition served :: "recompiler_context \<Rightarrow> dispatch_alias \<Rightarrow> bool" where
  "served ctx a \<longleftrightarrow> da_target_function_index a < length (ctx_functions ctx) \<and>
     da_vram a \<in> set (dispatch_labels (ctx_functions ctx ! da_target_function_index a))"

definition aliases_served :: "recompiler_context \<Rightarrow> bool" where
  "aliases_served ctx \<longleftrightarrow> (\<forall>a \<in> set (dispatch_aliases ctx). served ctx a)"

text \<open>Functions may be added and their names, flags and instructions change; entries of the dispatch switches are only added.\<close>

definition shape_kept :: "recomp_function \<Rightarrow> recomp_function \<Rightarrow> bool" where
  "shape_kept f g \<longleftrightarrow> fn_vram g = fn_vram f \<and> length (fn_words g) = length (fn_words f) \<and>
     set (fn_dispatch_entry_vrams f) \<subseteq> set (fn_dispatch_entry_vrams g)"

definition entries_kept :: "recompiler_context \<Rightarrow> recompiler_context \<Rightarrow> bool" where
  "entries_kept ctx ctx' \<longleftrightarrow> dispatch_aliases ctx' = dispatch_aliases ctx \<and> length (ctx_functions ctx) \<le> length (ctx_functions ctx') \<and>
     (\<forall>i < length (ctx_functions ctx). shape_kept (ctx_functions ctx ! i) (ctx_functions ctx' ! i))"

lemma shape_kept_refl [simp]: "shape_kept f f"
  by (simp add: shape_kept_def)

lemma shape_kept_trans: "shape_kept f g \<Longrightarrow> shape_kept g h \<Longrightarrow> shape_kept f h"
  by (auto simp: shape_kept_def)

lemma shape_kept_labels: "shape_kept f g \<Longrightarrow> set (dispatch_labels f) \<subseteq> set (dispatch_labels g)"
  by (auto simp: shape_kept_def dispatch_labels_def func_vram_end_def)

lemma entries_kept_refl [simp]: "entries_kept ctx ctx"
  by (simp add: entries_kept_def)

lemma entries_kept_trans: "entries_kept a b \<Longrightarrow> entries_kept b c \<Longrightarrow> entries_kept a c"
proof -
  assume ab: "entries_kept a b" and bc: "entries_kept b c"
  have "shape_kept (ctx_functions a ! i) (ctx_functions c ! i)" if "i < length (ctx_functions a)" for i
    by (rule shape_kept_trans [of _ "ctx_functions b ! i"]) (use ab bc that in \<open>auto simp: entries_kept_def\<close>)
  then show ?thesis using ab bc by (auto simp: entries_kept_def)
qed

lemma served_kept: "served ctx a \<Longrightarrow> entries_kept ctx ctx' \<Longrightarrow> served ctx' a"
  using shape_kept_labels by (fastforce simp: served_def entries_kept_def)

lemma aliases_kept: "aliases_served ctx \<Longrightarrow> entries_kept ctx ctx' \<Longrightarrow> aliases_served ctx'"
  using served_kept [of ctx _ ctx'] by (auto simp: aliases_served_def entries_kept_def)

lemma entries_kept_same:
  "ctx_functions ctx' = ctx_functions ctx \<Longrightarrow> dispatch_aliases ctx' = dispatch_aliases ctx \<Longrightarrow> entries_kept ctx ctx'"
  by (simp add: entries_kept_def)

lemma entries_kept_append:
  "ctx_functions ctx' = ctx_functions ctx @ fs \<Longrightarrow> dispatch_aliases ctx' = dispatch_aliases ctx \<Longrightarrow> entries_kept ctx ctx'"
  by (simp add: entries_kept_def nth_append)

lemma entries_kept_update: "shape_kept (ctx_functions ctx ! i) (g (ctx_functions ctx ! i)) \<Longrightarrow> entries_kept ctx (update_function i g ctx)"
proof -
  assume k: "shape_kept (ctx_functions ctx ! i) (g (ctx_functions ctx ! i))"
  have "shape_kept (ctx_functions ctx ! j) ((ctx_functions ctx)[i := g (ctx_functions ctx ! i)] ! j)"
    if "j < length (ctx_functions ctx)" for j using k that by (cases "j = i") simp_all
  then show ?thesis by (simp add: entries_kept_def update_function_def)
qed

lemma fold_entries_kept:
  assumes "\<And>x c c'. f x c = Done c' \<Longrightarrow> entries_kept c c'"
  shows "fold_outcome f xs ctx = Done ctx' \<Longrightarrow> entries_kept ctx ctx'"
proof (induction xs arbitrary: ctx)
  case (Cons x xs)
  then obtain c where "f x ctx = Done c" "fold_outcome f xs c = Done ctx'" by (auto simp: and_then_Done)
  then show ?case using assms Cons.IH entries_kept_trans by blast
qed simp

section \<open>Edits\<close>

lemma rename_kept: "entries_kept ctx (rename_function i n ctx)"
proof -
  have "entries_kept ctx (update_function i (\<lambda>f. f\<lparr>fn_name := n\<rparr>) ctx)" by (rule entries_kept_update) (simp add: shape_kept_def)
  then show ?thesis by (simp add: rename_function_def Let_def entries_kept_def)
qed

lemma collisions_kept: "resolve_collisions policy ctx = Done ctx' \<Longrightarrow> entries_kept ctx ctx'"
proof -
  have "entries_kept ctx (fold suffix_function xs ctx)" for xs
    using rename_kept entries_kept_trans by (induction xs arbitrary: ctx) (auto simp: suffix_function_def, blast)
  then show "resolve_collisions policy ctx = Done ctx' \<Longrightarrow> entries_kept ctx ctx'" by (auto simp: resolve_collisions_def split: if_splits)
qed

lemma edit_named_kept:
  assumes "\<And>f. shape_kept f (g f)"
  shows "edit_named g n ctx = Done ctx' \<Longrightarrow> entries_kept ctx ctx'"
  using entries_kept_update assms by (auto simp: edit_named_def and_then_Done split: if_splits)

lemma named_edits_kept:
  "stub_functions ns ctx = Done ctx' \<Longrightarrow> entries_kept ctx ctx'"
  "ignore_functions ns ctx = Done ctx' \<Longrightarrow> entries_kept ctx ctx'"
  "rename_functions ns ctx = Done ctx' \<Longrightarrow> entries_kept ctx ctx'"
  unfolding stub_functions_def ignore_functions_def rename_functions_def
  by (erule fold_entries_kept [rotated], erule edit_named_kept [rotated], simp add: shape_kept_def)+

lemma try_edit_named_kept:
  assumes "\<And>f f'. g f = Done f' \<Longrightarrow> shape_kept f f'"
  shows "try_edit_named g n ctx = Done ctx' \<Longrightarrow> entries_kept ctx ctx'"
  using entries_kept_update assms by (auto simp: try_edit_named_def and_then_Done or_undef_def nth_opt_def split: if_splits)

lemma patches_kept:
  "apply_instruction_patches ps ctx = Done ctx' \<Longrightarrow> entries_kept ctx ctx'"
  "apply_function_hooks hs ctx = Done ctx' \<Longrightarrow> entries_kept ctx ctx'"
  unfolding apply_instruction_patches_def apply_function_hooks_def
  by (erule fold_entries_kept [rotated], erule try_edit_named_kept [rotated],
      auto simp: patch_function_def hook_function_text_def shape_kept_def Let_def split: if_splits)+

lemma events_kept: "redirect_events b ctx = Done (ctx', events) \<Longrightarrow> entries_kept ctx ctx'"
  by (auto simp: redirect_events_def and_then_Done intro!: entries_kept_same split: if_splits option.splits)

section \<open>Adding aliases\<close>

lemma push_alias_simps [simp]:
  "ctx_functions (push_alias k a ctx) = ctx_functions ctx" "dispatch_aliases (push_alias k a ctx) = dispatch_aliases ctx @ [a]"
  by (simp_all add: push_alias_def Let_def)

lemma aliases_served_push:
  assumes "aliases_served ctx" and "served ctx a"
  shows "aliases_served (push_alias k a ctx)"
  using assms by (auto simp: aliases_served_def served_def)

lemma add_dispatch_entry_shape: "shape_kept f (add_dispatch_entry v f)"
  by (simp add: shape_kept_def add_dispatch_entry_def set_insort_insert subset_insertI)

lemma add_dispatch_entry_label:
  "fn_vram f < v \<Longrightarrow> v < func_vram_end f \<Longrightarrow> v \<in> set (dispatch_labels (add_dispatch_entry v f))"
  by (simp add: dispatch_labels_def add_dispatch_entry_def set_insort_insert func_vram_end_def)

lemma register_interior_alias_served:
  assumes "aliases_served (fst st)" and "register_interior_alias i v st = Done st'" and "i < length (ctx_functions (fst st))"
    and "fn_vram (ctx_functions (fst st) ! i) < v" and "v < func_vram_end (ctx_functions (fst st) ! i)"
  shows "aliases_served (fst st') \<and> map (\<lambda>f. (fn_vram f, length (fn_words f))) (ctx_functions (fst st')) =
    map (\<lambda>f. (fn_vram f, length (fn_words f))) (ctx_functions (fst st))"
proof -
  let ?f = "ctx_functions (fst st) ! i" and ?ctx = "update_function i (add_dispatch_entry v) (fst st)"
  have kept: "aliases_served ?ctx" using assms(1) by (rule aliases_kept) (rule entries_kept_update, rule add_dispatch_entry_shape)
  have new: "served ?ctx (a\<lparr>da_vram := v, da_target_function_index := i\<rparr>)" for a :: dispatch_alias
    using assms(3-5) add_dispatch_entry_label by (simp add: served_def update_function_def)
  have maps: "map (\<lambda>f. (fn_vram f, length (fn_words f))) (ctx_functions ?ctx) = map (\<lambda>f. (fn_vram f, length (fn_words f))) (ctx_functions (fst st))"
    by (simp add: update_function_def map_update add_dispatch_entry_def list_update_same_conv assms(3))
  consider "st' = st" | "fst st' = ?ctx" | k a where "fst st' = push_alias k (a\<lparr>da_vram := v, da_target_function_index := i\<rparr>) ?ctx"
    using assms(2) by (cases st) (auto simp: register_interior_alias_def Let_def and_then_Done split: if_splits, metis dispatch_alias.update_convs(2,5))
  then show ?thesis
    using assms(1) kept maps aliases_served_push [OF kept new] by cases auto
qed

definition shapes :: "recompiler_context \<Rightarrow> (u32 \<times> nat) list" where
  "shapes ctx = map (\<lambda>f. (fn_vram f, length (fn_words f))) (ctx_functions ctx)"

lemma shapes_nth:
  assumes "shapes ctx' = shapes ctx" and "i < length (ctx_functions ctx)"
  shows "fn_vram (ctx_functions ctx' ! i) = fn_vram (ctx_functions ctx ! i)"
    and "func_vram_end (ctx_functions ctx' ! i) = func_vram_end (ctx_functions ctx ! i)" and "i < length (ctx_functions ctx')"
proof -
  have l: "length (ctx_functions ctx') = length (ctx_functions ctx)" using assms(1) map_eq_imp_length_eq by (fastforce simp: shapes_def)
  then have "shapes ctx' ! i = (fn_vram (ctx_functions ctx' ! i), length (fn_words (ctx_functions ctx' ! i)))"
    "shapes ctx ! i = (fn_vram (ctx_functions ctx ! i), length (fn_words (ctx_functions ctx ! i)))" using assms(2) by (simp_all add: shapes_def)
  then show "fn_vram (ctx_functions ctx' ! i) = fn_vram (ctx_functions ctx ! i)"
    "func_vram_end (ctx_functions ctx' ! i) = func_vram_end (ctx_functions ctx ! i)" "i < length (ctx_functions ctx')"
    using assms l by (simp_all add: func_vram_end_def)
qed

lemma register_function_served:
  assumes "aliases_served (fst st)" and "register_function decode links i st = Done st'" and "i < length (ctx_functions (fst st))"
  shows "aliases_served (fst st') \<and> shapes (fst st') = shapes (fst st)"
proof -
  let ?f = "ctx_functions (fst st) ! i" and ?I = "\<lambda>s. aliases_served (fst s) \<and> shapes (fst s) = shapes (fst st)"
  have "st' = st \<or> fold_outcome (register_word decode links ?f i) [0..<length (fn_words ?f)] st = Done st'"
    using assms(2) unfolding register_function_def Let_def by (simp only: outcome.inject split: if_splits) simp_all
  then consider "st' = st" | "fold_outcome (register_word decode links ?f i) [0..<length (fn_words ?f)] st = Done st'" by blast
  then show ?thesis
  proof cases
    case 2
    have "?I st" using assms(1) by simp
    then show ?thesis using 2
    proof (rule fold_outcome_invariant [where I = ?I, rotated])
      fix w s s' assume I: "?I s" and r: "register_word decode links ?f i w s = Done s'"
      note n = shapes_nth [OF conjunct2 [OF I] assms(3)]
      let ?v = "in_branch_vram (decode (byteswap (fn_words ?f ! w)) (fn_vram ?f + word_of_nat (4 * w)))"
      have "s' = s \<or> register_interior_alias i ?v s = Done s' \<and> fn_vram ?f < ?v \<and> ?v < func_vram_end ?f"
        using r unfolding register_word_def Let_def by (simp only: outcome.inject de_Morgan_disj not_le split: if_splits) simp_all
      then consider "s' = s" | v where "register_interior_alias i v s = Done s'" "fn_vram ?f < v" "v < func_vram_end ?f" by blast
      then show "?I s'"
      proof cases
        case 2
        from register_interior_alias_served [OF conjunct1 [OF I] 2(1) n(3)] 2(2,3) n I show ?thesis by (simp add: shapes_def)
      qed (use I in simp)
    qed
  qed (use assms(1) in simp)
qed

lemma register_served:
  assumes "aliases_served ctx" and "register_interior_dispatch_aliases decode links ctx = Done ctx'"
  shows "aliases_served ctx'"
proof -
  let ?I = "\<lambda>s. aliases_served (fst s) \<and> shapes (fst s) = shapes ctx"
  let ?st = "(ctx, set (map (\<lambda>a. (da_section_index a, da_vram a)) (dispatch_aliases ctx)))"
  obtain ex where f: "fold_outcome (register_function decode links) [0..<length (ctx_functions ctx)] ?st = Done (ctx', ex)"
    using assms(2) by (auto simp: register_interior_dispatch_aliases_def and_then_Done)
  have "?I ?st" using assms(1) by simp
  then have "?I (ctx', ex)" using f
  proof (rule fold_outcome_invariant [where I = ?I, rotated])
    fix i s s' assume i: "i \<in> set [0..<length (ctx_functions ctx)]" and I: "?I s" and r: "register_function decode links i s = Done s'"
    from i have "i < length (ctx_functions ctx)" by simp
    from register_function_served [OF conjunct1 [OF I] r shapes_nth(3) [OF conjunct2 [OF I] this]] I show "?I s'" by simp
  qed
  then show ?thesis by simp
qed

lemma edit_context_served:
  assumes "aliases_served ctx" and "edit_context decode links cfg ctx = Done (ctx', events)"
  shows "aliases_served ctx'"
proof -
  obtain c1 c2 c3 c4 c5 c6 where c: "stub_functions (cf_stubbed_funcs cfg) ctx = Done c1" "ignore_functions (cf_ignored_funcs cfg) c1 = Done c2"
    "rename_functions (cf_renamed_funcs cfg) c2 = Done c3"
    "apply_instruction_patches (cf_instruction_patches cfg) (c3\<lparr>trace_mode := cf_trace_mode cfg\<rparr>) = Done c4"
    "apply_function_hooks (cf_function_hooks cfg) c4 = Done c5" "redirect_events (cf_allow_exports cfg) c5 = Done (c6, events)"
    and r: "register_interior_dispatch_aliases decode links c6 = Done ctx'"
    using assms(2) by (auto simp: edit_context_def and_then_Done)
  have "entries_kept ctx c3" using named_edits_kept c(1-3) entries_kept_trans by meson
  moreover have "entries_kept c3 (c3\<lparr>trace_mode := cf_trace_mode cfg\<rparr>)" by (rule entries_kept_same) simp_all
  moreover have "entries_kept (c3\<lparr>trace_mode := cf_trace_mode cfg\<rparr>) c6"
    using patches_kept events_kept c(4-6) entries_kept_trans by meson
  ultimately have "entries_kept ctx c6" using entries_kept_trans by blast
  then show ?thesis using aliases_kept [OF assms(1)] register_served [OF _ r] by blast
qed

section \<open>Recompilation\<close>

lemma output_ctx [simp]:
  "dr_ctx (count_function cfg s) = dr_ctx s" "dr_ctx (to_current t s) = dr_ctx s" "dr_ctx (to_header t s) = dr_ctx s"
  by (simp_all add: count_function_def open_new_output_file_def open_output_def to_current_def to_header_def Let_def)

lemma emit_body_ctx:
  assumes "emit_body decode cfg i st = Done st'"
  shows "dr_ctx st' = dr_ctx st"
proof -
  have "dr_ctx s' = dr_ctx s" if "recompile_or_stub decode i s = Done s'" for s s'
    using that by (auto simp: recompile_or_stub_def and_then_Done simp del: if_split)
  moreover have "dr_ctx s' = dr_ctx s" if "recompile_single_function decode cfg i s = Done s'" for s s'
    using that by (auto simp: recompile_single_function_def and_then_Done split: if_splits)
  ultimately show ?thesis
    using assms by (cases "cf_single_file_output cfg \<or> 1 < cf_functions_per_output_file cfg") (auto simp: emit_body_def and_then_Done)
qed

lemma emit_context_functions_ctx:
  assumes "emit_context_functions decode cfg st = Done st'"
  shows "dr_ctx st' = dr_ctx st"
proof -
  have f: "fold_outcome (emit_context_function decode cfg) [0..<length (ctx_functions (dr_ctx st))] st = Done st'"
    using assms by (auto simp: emit_context_functions_def and_then_Done split: if_splits)
  have "dr_ctx st = dr_ctx st" ..
  then show ?thesis using f
    by (rule fold_outcome_invariant [where I = "\<lambda>s. dr_ctx s = dr_ctx st", rotated])
      (auto simp: emit_context_function_def Let_def and_then_Done to_header_def dest!: emit_body_ctx split: if_splits)
qed

lemma emit_static_kept:
  assumes "emit_static decode cfg k base requested v st = Done (new, st')"
  shows "entries_kept (dr_ctx st) (dr_ctx st')"
proof -
  consider "dr_ctx st' = dr_ctx st" | a b ws where "dr_ctx st' = add_static_function k v a b ws (dr_ctx st)"
    using assms by (auto simp: emit_static_def Let_def and_then_Done to_current_def to_header_def dest!: emit_body_ctx
        split: if_splits option.splits)
  then show ?thesis by cases (auto intro: entries_kept_append simp: add_static_function_def Let_def)
qed

lemma static_loop_kept: "static_loop decode cfg k base queue seen st = Done st' \<Longrightarrow> entries_kept (dr_ctx st) (dr_ctx st')"
proof (induction decode cfg k base queue seen st rule: static_loop.induct)
  case (2 decode cfg k base v queue seen st)
  obtain new s1 where e: "emit_static decode cfg k base (\<lambda>x. x \<in> seen) v st = Done (new, s1)"
    and r: "static_loop decode cfg k base (queue @ fresh seen new) (seen \<union> set new) s1 = Done st'"
    using "2.prems" by (auto simp: and_then_Done)
  show ?case using emit_static_kept [OF e] "2.IH" [OF e refl r] by (rule entries_kept_trans)
qed simp

lemma emit_statics_kept: "emit_statics decode cfg st = Done st' \<Longrightarrow> entries_kept (dr_ctx st) (dr_ctx st')"
proof -
  have one: "entries_kept (dr_ctx s) (dr_ctx s')" if s: "emit_section_statics decode cfg k s = Done s'" for k s s'
  proof -
    obtain b q S secs where "static_loop decode cfg k b q S (s\<lparr>dr_ctx := (dr_ctx s)\<lparr>sections := secs\<rparr>\<rparr>) = Done s'"
      using s by (auto simp: emit_section_statics_def Let_def and_then_Done)
    from static_loop_kept [OF this] show ?thesis by (simp add: entries_kept_def)
  qed
  assume "emit_statics decode cfg st = Done st'"
  then have f: "fold_outcome (emit_section_statics decode cfg) [0..<length (sections (dr_ctx st))] st = Done st'"
    by (simp add: emit_statics_def)
  have "entries_kept (dr_ctx st) (dr_ctx st)" by simp
  then show ?thesis using f
    by (rule fold_outcome_invariant [where I = "\<lambda>s. entries_kept (dr_ctx st) (dr_ctx s)", rotated]) (rule entries_kept_trans, assumption, rule one)
qed

lemma recompile_program_served:
  assumes "aliases_served ctx" and "recompile_program decode links cfg name ctx = Done (st, events)"
  shows "aliases_served (dr_ctx st)"
proof -
  obtain c1 c2 statics st1 st2 where c: "resolve_collisions (cf_collision_policy cfg) ctx = Done c1"
    "edit_context decode links cfg c1 = Done (c2, events)" "emit_context_functions decode cfg (start_output cfg name c2 statics) = Done st1"
    "emit_statics decode cfg st1 = Done st2" "emit_aliases cfg st2 = Done st"
    using assms(2) by (auto simp: recompile_program_def and_then_Done)
  have "dr_ctx (start_output cfg name c2 statics) = c2"
    by (simp add: start_output_def Let_def open_output_def open_new_output_file_def)
  moreover have "dr_ctx st = dr_ctx st2"
    using c(5) by (auto simp: emit_aliases_def Let_def and_then_Done to_header_def split: if_splits)
  moreover have "aliases_served c2" using edit_context_served [OF aliases_kept [OF assms(1) collisions_kept [OF c(1)]] c(2)] .
  ultimately show ?thesis using aliases_kept emit_statics_kept [OF c(4)] emit_context_functions_ctx [OF c(3)] by simp
qed

section \<open>Fragments\<close>

definition synthesis_served :: "synthesis \<Rightarrow> bool" where
  "synthesis_served st \<longleftrightarrow> aliases_served (sy_ctx st) \<and> (\<forall>(s, e) \<in> set (sy_ranges st). s mod 4 = 0)"

lemma add_section_function_kept: "add_section_function idx v r ws n e ctx = Done ctx' \<Longrightarrow> entries_kept ctx ctx'"
  by (auto simp: add_section_function_def Let_def intro: entries_kept_append split: if_splits)

lemma add_function_kept: "add_function fr v r ws n e st = Done st' \<Longrightarrow> entries_kept (sy_ctx st) (sy_ctx st')"
  by (auto simp: add_function_def and_then_Done dest!: add_section_function_kept)

lemma emit_function_kept: "emit_function fr e sz n v st = Done st' \<Longrightarrow> entries_kept (sy_ctx st) (sy_ctx st')"
  by (auto simp: emit_function_def and_then_Done dest!: add_function_kept)

lemma inside_function_strict: "inside_function v f \<longleftrightarrow> fn_vram f < v \<and> v < func_vram_end f"
  by (auto simp: inside_function_def func_vram_end_def mult.commute not_le)

lemma aliases_served_labelled:
  assumes "aliases_served ctx" and "p < length (ctx_functions ctx)"
  shows "aliases_served (ctx\<lparr>ctx_functions := (ctx_functions ctx)[p := add_dispatch_entry v (ctx_functions ctx ! p)]\<rparr>)"
  using aliases_kept [OF assms(1) entries_kept_update [of ctx p "add_dispatch_entry v"]] add_dispatch_entry_shape
  by (simp add: update_function_def)

lemma add_dispatch_alias_served:
  assumes "synthesis_served st" and "add_dispatch_alias fr p e st = Done (b, st')"
  shows "synthesis_served st'"
proof -
  let ?ctx = "sy_ctx st" and ?v = "vram_at fr e"
  let ?ctx' = "?ctx\<lparr>ctx_functions := (ctx_functions ?ctx)[p := add_dispatch_entry ?v (ctx_functions ?ctx ! p)]\<rparr>"
  have "st' = st \<or> (p < length (ctx_functions ?ctx) \<and> inside_function ?v (ctx_functions ?ctx ! p) \<and>
      sy_ctx st' = push_alias (fr_index fr) \<lparr>da_section_index = fr_index fr, da_vram = ?v, da_rom = fr_rom fr + word_of_nat e,
        da_name = dispatch_alias_name (fr_index fr) ?v, da_target_function_index = p\<rparr> ?ctx' \<and> sy_ranges st' = sy_ranges st)"
    using assms(2) unfolding add_dispatch_alias_def Let_def by (auto simp: not_le split: if_splits)
  then show ?thesis
  proof (elim disjE conjE)
    assume p: "p < length (ctx_functions ?ctx)" and ins: "inside_function ?v (ctx_functions ?ctx ! p)"
      and st': "sy_ctx st' = push_alias (fr_index fr) \<lparr>da_section_index = fr_index fr, da_vram = ?v, da_rom = fr_rom fr + word_of_nat e,
        da_name = dispatch_alias_name (fr_index fr) ?v, da_target_function_index = p\<rparr> ?ctx'" "sy_ranges st' = sy_ranges st"
    have "aliases_served ?ctx'" by (rule aliases_served_labelled [OF _ p]) (use assms(1) in \<open>simp add: synthesis_served_def\<close>)
    moreover have "served ?ctx' \<lparr>da_section_index = fr_index fr, da_vram = ?v, da_rom = fr_rom fr + word_of_nat e,
        da_name = dispatch_alias_name (fr_index fr) ?v, da_target_function_index = p\<rparr>"
      using p ins add_dispatch_entry_label by (simp add: served_def inside_function_strict)
    ultimately show ?thesis using assms(1) st' aliases_served_push by (simp add: synthesis_served_def)
  qed (use assms(1) in simp)
qed

interpretation serving: synthesis_invariant fr synthesis_served for fr
proof
  show "synthesis_served (st'\<lparr>sy_emitted := insert named (sy_emitted st')\<rparr>)"
    if "synthesis_served st" "e mod 4 = 0" "emit_function fr e sz named v st = Done st'" for st e sz named v st'
    using that aliases_kept emit_function_kept [OF that(3)] emit_function_sets [OF that(3)] by (auto simp: synthesis_served_def)
  show "synthesis_served st'" if "synthesis_served st" "add_dispatch_alias fr p e st = Done (b, st')" for st p e b st'
    using that by (rule add_dispatch_alias_served)
  show "synthesis_served st'" if "synthesis_served st" "add_dispatch_label_only fr p e st = Done st'" for st p e st'
    using that aliases_served_labelled by (auto simp: add_dispatch_label_only_def Let_def not_le synthesis_served_def split: if_splits)
qed (auto simp: synthesis_served_def)

lemma add_code_served:
  assumes "add_code fr name extra forced ctx = Done ctx'" and "aliases_served ctx"
  shows "aliases_served ctx'"
proof -
  obtain bs st0 seeds st1 st2 st3 st4 st5 where p: "copy_from (fr_blob fr) 0 8 = Done bs"
    "add_function fr (fr_vram fr) (fr_rom fr) (le_words bs) (name @ ''_entry'') 0 (start_state ctx) = Done st0"
    "seed_offsets fr extra = Done seeds" "seeds \<noteq> []" "fold_outcome (add_seed fr) seeds st0 = Done st1"
    "gap_loop fr st1 = Done st2" "continuation_loop fr st2 = Done st3" "return_labels fr st3 = Done st4"
    "fold_outcome (force_function fr) forced st4 = Done st5" "ctx' = sy_ctx st5"
    by (rule add_code_parts [OF assms(1)])
  have "synthesis_served st0"
    using aliases_kept [OF _ add_function_kept [OF p(2)]] add_function_sets [OF p(2)] assms(2) by (simp add: synthesis_served_def start_state_def)
  from serving.loops_invariant [OF p(3,5,6,7) this] have "synthesis_served st3" .
  from serving.return_labels_invariant [OF p(8) this] have "synthesis_served st4" .
  from serving.forced_invariant [OF this p(9)] show ?thesis using p(10) by (simp add: synthesis_served_def)
qed

lemma add_decompressed_section_served:
  assumes "add_decompressed_section decode links rq (ctx, counter) = Done (ctx', counter')" and "aliases_served ctx"
  shows "aliases_served ctx'"
proof -
  obtain ctx1 fr code where pl: "place_section decode links rq (ctx, counter) = Done (ctx1, fr, counter')"
    and r: "(if code then add_code fr (rq_name rq) (rq_extra_entry_offsets rq) (rq_forced_function_vrams rq) ctx1 else Done ctx1) = Done ctx'"
    using assms(1) by (auto simp: add_decompressed_section_def and_then_Done)
  have "entries_kept ctx ctx1"
    using pl by (auto simp: place_section_def Let_def and_then_Done push_section_def intro!: entries_kept_same split: if_splits)
  then have "aliases_served ctx1" by (rule aliases_kept [OF assms(2)])
  then show ?thesis using r add_code_served by (cases code) auto
qed

lemma patterns_served:
  assumes "synthesize_decompressed_patterns decode links rom_file patterns patches forced (ctx, counter) = Done (ctx', counter')"
    and "aliases_served ctx"
  shows "aliases_served ctx'"
proof (cases "patterns = []")
  case False
  let ?I = "\<lambda>st. aliases_served (pt_ctx st)" and ?st = "\<lparr>pt_ctx = ctx, pt_next_rom = counter, pt_variants = 0, pt_seen = {}\<rparr>"
  have hit: "?I st'" if "?I st" "add_hit decode links p seeds forced h st = Done st'" for p seeds h st st'
    using that add_decompressed_section_served by (auto simp: add_hit_def Let_def and_then_Done split: if_splits option.splits)
  have pattern: "?I st'" if i: "?I st" and a: "add_pattern decode links rom_file patches forced p st = Done st'" for p st st'
  proof -
    obtain hits seeds where f: "fold_outcome (add_hit decode links p seeds forced) hits (st\<lparr>pt_seen := {}\<rparr>) = Done st'"
      using a by (auto simp: add_pattern_def and_then_Done)
    have "?I (st\<lparr>pt_seen := {}\<rparr>)" using i by simp
    then show ?thesis using f by (rule fold_outcome_invariant [where I = ?I, rotated]) (rule hit)
  qed
  obtain st where f: "fold_outcome (add_pattern decode links rom_file patches forced) patterns ?st = Done st"
    and e: "ctx' = resolve_cross_section_targets (pt_ctx st) (word_of_nat (length (sections ctx)))"
    using assms(1) False by (auto simp: synthesize_decompressed_patterns_def and_then_Done split: if_splits)
  have "?I ?st" using assms(2) by simp
  then have "?I st" using f by (rule fold_outcome_invariant [where I = ?I, rotated]) (rule pattern)
  moreover have "entries_kept (pt_ctx st) ctx'" unfolding e by (rule entries_kept_same) (simp_all add: resolve_cross_section_targets_def Let_def)
  ultimately show ?thesis by (rule aliases_kept)
qed (use assms in \<open>simp add: synthesize_decompressed_patterns_def\<close>)

lemma manual_functions_kept: "add_manual_functions ms ctx = Done ctx' \<Longrightarrow> entries_kept ctx ctx'"
  unfolding add_manual_functions_def
  by (erule fold_entries_kept [rotated])
    (auto simp: add_manual_function_def Let_def and_then_Done intro: entries_kept_append split: if_splits)

section \<open>The property\<close>

text \<open>C9: every dispatch alias leads to a label. Whatever the synthesis of fragments and the search for computed entries register, in
  the context that the whole program has been recompiled from, the function behind an alias exists and its dispatch switch has a case
  for the address the alias' wrapper hands it.\<close>

theorem aliases_have_labels:
  assumes "dispatch_aliases ctx = []"
    and "synthesize_decompressed_patterns decode links rom_file patterns patches forced (ctx, counter) = Done (ctx1, counter')"
    and "add_manual_functions manual ctx1 = Done ctx2"
    and "recompile_program decode links cfg single_name ctx2 = Done (st, events)"
  shows "\<forall>a \<in> set (dispatch_aliases (dr_ctx st)). da_target_function_index a < length (ctx_functions (dr_ctx st)) \<and>
    da_vram a \<in> set (dispatch_labels (ctx_functions (dr_ctx st) ! da_target_function_index a))"
proof -
  have "aliases_served ctx" using assms(1) by (simp add: aliases_served_def)
  from patterns_served [OF assms(2) this] have "aliases_served ctx1" .
  from recompile_program_served [OF aliases_kept [OF this manual_functions_kept [OF assms(3)]] assms(4)]
  show ?thesis by (auto simp: aliases_served_def served_def)
qed

section \<open>An example\<close>

text \<open>\<open>bltzal $zero\<close> over one instruction; the third instruction, a store at a misaligned place of the stack, makes the analysis fail, so
  that a stub is emitted.\<close>

definition link_decoder :: decoder where
  "link_decoder w v = (if w = 1 then (plain_instruction (Jump cpu_bltzal) v)\<lparr>in_is_branch := True, in_branch_vram := v + 8\<rparr>
     else if w = 2 then (plain_instruction (Mem cpu_sw) v)\<lparr>in_rs := 29, in_imm := 1\<rparr> else plain_instruction (Sys cpu_nop) v)"

definition link_context :: recompiler_context where
  "link_context = context_default\<lparr>sections := [section_default], section_functions := [[0]],
     ctx_functions := [make_function 64 0 [0x1000000, 0, 0x2000000, 0] ''f'' 0 False False False 0], functions_by_vram := [64 \<mapsto> [0]]\<rparr>"

definition alias_addresses :: "(driver_state \<times> event_functions) outcome \<Rightarrow> u32 list outcome" where
  "alias_addresses r = and_then r (\<lambda>(st, events). Done (map da_vram (dispatch_aliases (dr_ctx st))))"

lemma link_program: "alias_addresses (recompile_program link_decoder (\<lambda>w v. w = 1) plain_config ''x.c'' link_context) = Done [72]"
  by code_simp

lemma aliases_have_labels_witness:
  "\<exists>st :: driver_state. map da_vram (dispatch_aliases (dr_ctx st)) = [72] \<and>
     (\<forall>a \<in> set (dispatch_aliases (dr_ctx st)). da_vram a \<in> set (dispatch_labels (ctx_functions (dr_ctx st) ! da_target_function_index a)))"
proof -
  obtain st events where r: "recompile_program link_decoder (\<lambda>w v. w = 1) plain_config ''x.c'' link_context = Done (st, events)"
    and a: "map da_vram (dispatch_aliases (dr_ctx st)) = [72]"
    using link_program by (auto simp: alias_addresses_def and_then_Done)
  have none: "dispatch_aliases link_context = []" by (simp add: link_context_def context_default_def)
  have patterns: "synthesize_decompressed_patterns link_decoder (\<lambda>w v. w = 1) [] [] [] [] (link_context, 0) = Done (link_context, 0)"
    by (simp add: synthesize_decompressed_patterns_def)
  have manual: "add_manual_functions [] link_context = Done link_context" by (simp add: add_manual_functions_def)
  have "\<forall>x \<in> set (dispatch_aliases (dr_ctx st)). da_target_function_index x < length (ctx_functions (dr_ctx st)) \<and>
      da_vram x \<in> set (dispatch_labels (ctx_functions (dr_ctx st) ! da_target_function_index x))"
    by (rule aliases_have_labels [OF none patterns manual r])
  then show ?thesis by (intro exI [of _ st] conjI a) simp
qed

end
