(* ===== verification/Elf_Reader.thy ===== *)
theory Elf_Reader
  imports Driver_Edits Fragment_Sections
begin

text \<open>
  \<open>src/elf.cpp\<close>: a context from an ELF file. Reading the file is the part of a library; the file is given as its tables, as the
  accessors of the library return them for a 32-bit file: the segments, the sections with their bytes, and the entries of a section that
  holds symbols or relocations. The numbers are those of the ELF format.

  \<^item> \<open>Fail\<close> is \<open>false\<close> or a null pointer returned, the message left out; \<open>Undef\<close> is an access outside the image or a table.
  \<^item> The arithmetic in 64 bits of values of the file is that of natural numbers where nothing wraps, and of words where it is
    cut to 32 bits.
\<close>

section \<open>The file\<close>

record elf_symbol =
  sy_name :: string
  sy_value :: u32
  sy_size :: u32
  sy_bind :: u8
  sy_type :: u8
  sy_section_index :: u16
  sy_other :: u8

record rel_entry =
  re_offset :: u32
  re_symbol :: u32
  re_type :: u8

record elf_section =
  es_name :: string
  es_type :: u32
  es_flags :: u32
  es_address :: u32
  es_offset :: u32
  es_size :: u32
  es_data :: bytes
  es_symbols :: "elf_symbol list"
  es_rels :: "rel_entry list"

record segment_entry =
  sg_data_offset :: u32
  sg_physical_address :: u32
  sg_memory_size :: u32

record elf_file =
  ef_class_32 :: bool
  ef_big_endian :: bool
  ef_segments :: "segment_entry list"
  ef_sections :: "elf_section list"

definition SHT_SYMTAB :: u32 where "SHT_SYMTAB = 2"
definition SHT_NOBITS :: u32 where "SHT_NOBITS = 8"
definition SHT_REL :: u32 where "SHT_REL = 9"
definition SHF_ALLOC :: u32 where "SHF_ALLOC = 2"
definition SHF_EXECINSTR :: u32 where "SHF_EXECINSTR = 4"
definition SHN_UNDEF :: u16 where "SHN_UNDEF = 0"
definition SHN_ABS :: u16 where "SHN_ABS = 0xFFF1"
definition STT_NOTYPE :: u8 where "STT_NOTYPE = 0"
definition STT_OBJECT :: u8 where "STT_OBJECT = 1"
definition STT_FUNC :: u8 where "STT_FUNC = 2"
definition STB_LOCAL :: u8 where "STB_LOCAL = 0"
definition STV_INTERNAL :: u8 where "STV_INTERNAL = 1"

lemmas elf_numbers = SHT_SYMTAB_def SHT_NOBITS_def SHT_REL_def SHF_ALLOC_def SHF_EXECINSTR_def SHN_UNDEF_def SHN_ABS_def
  STT_NOTYPE_def STT_OBJECT_def STT_FUNC_def STB_LOCAL_def STV_INTERNAL_def

record elf_config =
  ec_bss_section_suffix :: string
  ec_manually_sized_funcs :: "string \<rightharpoonup> u32"
  ec_relocatable_sections :: "string list"
  ec_has_entrypoint :: bool
  ec_entrypoint_address :: u32
  ec_use_absolute_symbols :: bool
  ec_all_sections_relocatable :: bool

record data_symbol =
  ds_vram :: u32
  ds_name :: string

type_synonym data_symbol_map = "u16 \<rightharpoonup> data_symbol list"

section \<open>Relocations\<close>

text \<open>The state of the loop: the image, the relocations so far, and the current run of HI16 entries. \<open>prev_lo\<close> is used for a message
  only.\<close>

record pairing =
  pr_rom :: bytes
  pr_relocs :: "reloc list"
  pr_hi_count :: nat
  pr_hi_immediate :: u32
  pr_hi_symbol :: u32

definition rom_word_at :: "section_info \<Rightarrow> bytes \<Rightarrow> u32 \<Rightarrow> u32 outcome" where
  "rom_word_at sec img v = blob_word img (unat (sec_rom_addr sec + v - sec_ram_addr sec))"

definition set_rom_word :: "section_info \<Rightarrow> u32 \<Rightarrow> u32 \<Rightarrow> bytes \<Rightarrow> bytes outcome" where
  "set_rom_word sec v w img = write_be_u32 img (unat (sec_rom_addr sec + v - sec_ram_addr sec)) w"

text \<open>What a relocation refers to.\<close>

record rel_target =
  rt_reference :: bool
  rt_section :: u16
  rt_symbol_index :: u32
  rt_section_vram :: u32
  rt_symbol_offset :: u32

definition reference_target :: "recompiler_context \<Rightarrow> rel_entry \<Rightarrow> elf_symbol \<Rightarrow> rel_target outcome" where
  "reference_target ctx e s =
     and_then (or_fail (find_reference_symbol ctx (sy_name s))) (\<lambda>r.
     let idx = (word_of_nat (sref_symbol_index r) :: u32)
     in and_then (or_undef (get_reference_symbol ctx (sref_section_index r) (unat idx))) (\<lambda>symbol.
        and_then (or_undef (is_reference_section_relocatable ctx (sref_section_index r))) (\<lambda>target_section_relocatable.
        if re_type e = R_MIPS_32 \<and> target_section_relocatable then Fail
        else Done \<lparr>rt_reference = True, rt_section = sref_section_index r, rt_symbol_index = idx, rt_section_vram = 0,
          rt_symbol_offset = rsym_section_offset symbol\<rparr>)))"

definition entry_target :: "recompiler_context \<Rightarrow> nat \<Rightarrow> rel_entry \<Rightarrow> elf_symbol \<Rightarrow> rel_target outcome" where
  "entry_target ctx k e s =
     (let si = (if sy_section_index s = sec_bss_section_index (sections ctx ! k) then word_of_nat k else sy_section_index s)
      in if si = SHN_UNDEF then reference_target ctx e s
         else if si = SHN_ABS
         then Done \<lparr>rt_reference = False, rt_section = SectionAbsolute, rt_symbol_index = re_symbol e, rt_section_vram = 0,
                rt_symbol_offset = 0\<rparr>
         else if length (sections ctx) \<le> unat si then Fail
         else Done \<lparr>rt_reference = False, rt_section = si, rt_symbol_index = re_symbol e,
                rt_section_vram = sec_ram_addr (sections ctx ! unat si), rt_symbol_offset = 0\<rparr>)"

text \<open>The nearest HI16 entry before an address with the same symbol: its address and immediate.\<close>

definition nearer_hi16 :: "section_info \<Rightarrow> bytes \<Rightarrow> rel_entry \<Rightarrow> rel_entry \<Rightarrow> (u32 \<times> u32) option \<Rightarrow> (u32 \<times> u32) option outcome" where
  "nearer_hi16 sec img lo hi best =
     (if re_type hi \<noteq> R_MIPS_HI16 \<or> re_symbol hi \<noteq> re_symbol lo \<or> re_offset lo \<le> re_offset hi then Done best
      else if (case best of None \<Rightarrow> True | Some (best_offset, imm) \<Rightarrow> best_offset < re_offset hi)
      then and_then (rom_word_at sec img (re_offset hi)) (\<lambda>w. Done (Some (re_offset hi, w AND 0xFFFF)))
      else Done best)"

definition find_nearest_preceding_hi16 :: "section_info \<Rightarrow> bytes \<Rightarrow> rel_entry list \<Rightarrow> rel_entry \<Rightarrow> u32 option outcome" where
  "find_nearest_preceding_hi16 sec img entries lo =
     and_then (fold_outcome (nearer_hi16 sec img lo) entries None) (\<lambda>best. Done (map_option snd best))"

definition low_half :: "u32 \<Rightarrow> u32" where
  "low_half w = scast (ucast w :: u16)"

definition entry_reloc :: "rel_entry \<Rightarrow> rel_target \<Rightarrow> u32 \<Rightarrow> reloc" where
  "entry_reloc e t offset = \<lparr>rel_address = re_offset e, rel_target_section_offset = offset, rel_symbol_index = rt_symbol_index t,
     rel_target_section = rt_section t, rel_type = re_type e, rel_reference_symbol = rt_reference t\<rparr>"

text \<open>The addition of the low half to the HI16 entries of the run.\<close>

definition finish_run :: "rel_target \<Rightarrow> u32 \<Rightarrow> nat \<Rightarrow> reloc list \<Rightarrow> reloc list" where
  "finish_run t w n rs =
     (let first = length rs - n
      in take first rs @ map (\<lambda>r. r\<lparr>rel_target_section_offset :=
           rel_target_section_offset r + low_half w + rt_symbol_offset t - rt_section_vram t\<rparr>) (drop first rs))"

definition lo16_entry :: "section_info \<Rightarrow> rel_entry list \<Rightarrow> rel_entry \<Rightarrow> rel_target \<Rightarrow> u32 \<Rightarrow> pairing \<Rightarrow> pairing outcome" where
  "lo16_entry sec entries e t w st =
     and_then (if pr_hi_count st = 0 then find_nearest_preceding_hi16 sec (pr_rom st) entries e else Done None) (\<lambda>found.
     let hi = (case found of None \<Rightarrow> pr_hi_immediate st | Some imm \<Rightarrow> imm);
         r = entry_reloc e t (push_bit 16 hi + low_half w + rt_symbol_offset t - rt_section_vram t)
     in if pr_hi_count st \<noteq> 0 \<and> pr_hi_symbol st \<noteq> re_symbol e then Fail
        else Done (st\<lparr>pr_relocs := finish_run t w (pr_hi_count st) (pr_relocs st) @ [r], pr_hi_count := 0\<rparr>))"

definition hi16_entry :: "rel_entry \<Rightarrow> rel_target \<Rightarrow> u32 \<Rightarrow> pairing \<Rightarrow> pairing outcome" where
  "hi16_entry e t w st =
     (let imm = w AND 0xFFFF; st1 = st\<lparr>pr_relocs := pr_relocs st @ [entry_reloc e t (push_bit 16 imm)], pr_hi_count := pr_hi_count st + 1\<rparr>
      in if pr_hi_count st = 0 then Done (st1\<lparr>pr_hi_immediate := imm, pr_hi_symbol := re_symbol e\<rparr>)
         else if pr_hi_symbol st \<noteq> re_symbol e then Fail
         else Done st1)"

definition other_entry :: "recompiler_context \<Rightarrow> section_info \<Rightarrow> rel_entry \<Rightarrow> rel_target \<Rightarrow> u32 \<Rightarrow> pairing \<Rightarrow> pairing outcome" where
  "other_entry ctx sec e t w st =
     (if pr_hi_count st \<noteq> 0 then Fail
      else if re_type e = R_MIPS_32 then
        (let st1 = st\<lparr>pr_relocs := pr_relocs st @ [entry_reloc e t (rt_symbol_offset t)]\<rparr>
         in if \<not> rt_reference t then Done st1
            else and_then (or_undef (get_reference_section_vram ctx (rt_section t))) (\<lambda>target_vram.
              and_then (set_rom_word sec (re_offset e) (w + target_vram + rt_symbol_offset t) (pr_rom st)) (\<lambda>img.
              Done (st1\<lparr>pr_rom := img\<rparr>))))
      else if re_type e = R_MIPS_26 then
        (let imm = push_bit 2 (w AND 0x3FFFFFF) + rt_symbol_offset t
         in Done (st\<lparr>pr_relocs := pr_relocs st @ [entry_reloc e t
              (if rt_reference t then imm - rt_section_vram t else imm + (sec_ram_addr sec AND 0xF0000000) - rt_section_vram t)]\<rparr>))
      else Done (st\<lparr>pr_relocs := pr_relocs st @ [entry_reloc e t 0]\<rparr>))"

definition resolve_entry ::
    "recompiler_context \<Rightarrow> elf_symbol list \<Rightarrow> nat \<Rightarrow> rel_entry list \<Rightarrow> rel_entry \<Rightarrow> pairing \<Rightarrow> pairing outcome" where
  "resolve_entry ctx symbols k entries e st =
     (let sec = sections ctx ! k
      in and_then (rom_word_at sec (pr_rom st) (re_offset e)) (\<lambda>w.
         and_then (or_undef (nth_opt symbols (unat (re_symbol e)))) (\<lambda>s.
         and_then (entry_target ctx k e s) (\<lambda>t.
         if re_type e = R_MIPS_LO16 then lo16_entry sec entries e t w st
         else if re_type e = R_MIPS_HI16 then hi16_entry e t w st
         else other_entry ctx sec e t w st))))"

text \<open>References to sections that are not relocatable are put into the instruction.\<close>

definition bake_reloc :: "recompiler_context \<Rightarrow> section_info \<Rightarrow> reloc \<Rightarrow> bytes \<Rightarrow> (reloc \<times> bytes) outcome" where
  "bake_reloc ctx sec r img =
     (if \<not> (rel_reference_symbol r \<and> (rel_type r = R_MIPS_HI16 \<or> rel_type r = R_MIPS_LO16)) then Done (r, img)
      else and_then (or_undef (is_reference_section_relocatable ctx (rel_target_section r))) (\<lambda>relocatable.
      if relocatable then Done (r, img)
      else and_then (rom_word_at sec img (rel_address r)) (\<lambda>w.
        and_then (or_undef (get_reference_section_vram ctx (rel_target_section r))) (\<lambda>target_vram.
        let full = rel_target_section_offset r + target_vram;
            imm = (if rel_type r = R_MIPS_HI16 then drop_bit 16 full + (drop_bit 15 full AND 1) else full AND 0xFFFF)
        in and_then (set_rom_word sec (rel_address r) (w OR imm) img) (\<lambda>img'.
           Done (r\<lparr>rel_type := R_MIPS_NONE, rel_reference_symbol := False, rel_symbol_index := -1\<rparr>, img'))))))"

text \<open>\<open>std::sort\<close> leaves the order of relocations at one address open; here it is that of the table.\<close>

definition parse_section_relocs ::
    "recompiler_context \<Rightarrow> elf_symbol list \<Rightarrow> nat \<Rightarrow> rel_entry list \<Rightarrow> recompiler_context outcome" where
  "parse_section_relocs ctx symbols k entries =
     (let sec = sections ctx ! k
      in and_then (fold_outcome (resolve_entry ctx symbols k entries) entries
             \<lparr>pr_rom = rom ctx, pr_relocs = [], pr_hi_count = 0, pr_hi_immediate = 0, pr_hi_symbol = -1\<rparr>) (\<lambda>st.
         and_then (thread_list (bake_reloc ctx sec) (sort_key rel_address (pr_relocs st)) (pr_rom st)) (\<lambda>(rs, img).
         Done (ctx\<lparr>rom := img, sections := (sections ctx)[k := sec\<lparr>sec_relocs := rs\<rparr>]\<rparr>))))"

section \<open>Sections\<close>

definition find_containing_segment :: "segment_entry list \<Rightarrow> elf_section \<Rightarrow> segment_entry option" where
  "find_containing_segment segments s =
     find (\<lambda>g. sg_data_offset g \<le> es_offset s \<and>
       unat (es_offset s) + unat (es_size s) \<le> unat (sg_data_offset g) + unat (sg_memory_size g)) segments"

definition lands_in_rom :: "elf_section \<Rightarrow> bool" where
  "lands_in_rom s \<longleftrightarrow> es_type s \<noteq> SHT_NOBITS \<and> es_flags s AND SHF_ALLOC \<noteq> 0 \<and> es_size s \<noteq> 0"

definition load_address :: "segment_entry list \<Rightarrow> elf_section \<Rightarrow> u32 outcome" where
  "load_address segments s =
     (if lands_in_rom s
      then and_then (or_fail (find_containing_segment segments s)) (\<lambda>g.
        Done (sg_physical_address g + (es_offset s - sg_data_offset g)))
      else Done (-1))"

definition min_load_address :: "u32 list \<Rightarrow> u32" where
  "min_load_address addrs = foldl min (-1) addrs"

definition is_relocatable_name :: "elf_config \<Rightarrow> string \<Rightarrow> bool" where
  "is_relocatable_name cfg n \<longleftrightarrow> ec_all_sections_relocatable cfg \<or> n \<in> set (ec_relocatable_sections cfg)"

definition ends_with :: "string \<Rightarrow> string \<Rightarrow> bool" where
  "ends_with n s \<longleftrightarrow> length s \<le> length n \<and> drop (length n - length s) n = s"

record elf_scan =
  sc_ctx :: recompiler_context
  sc_symtab :: "nat option"
  sc_reloc_sections :: "string \<rightharpoonup> nat"
  sc_bss_sections :: "string \<rightharpoonup> nat"

text \<open>The required size is computed in 32 bits.\<close>

definition copy_section :: "elf_section \<Rightarrow> u32 \<Rightarrow> bytes \<Rightarrow> bytes outcome" where
  "copy_section s rom_addr img =
     (let required = unat (rom_addr + es_size s); img1 = (if length img < required then resize_list img required 0 else img);
          n = unat (es_size s); off = unat rom_addr
      in if length (es_data s) < n \<or> length img1 < off + n then Undef
         else Done (take off img1 @ take n (es_data s) @ drop (off + n) img1))"

definition scan_section_info :: "elf_config \<Rightarrow> elf_section \<Rightarrow> u32 \<Rightarrow> section_info \<Rightarrow> section_info" where
  "scan_section_info cfg s rom_addr sec = sec\<lparr>sec_rom_addr := rom_addr, sec_ram_addr := es_address s, sec_size := es_size s,
     sec_relocatable := sec_relocatable sec \<or> is_relocatable_name cfg (es_name s),
     sec_executable := sec_executable sec \<or> es_flags s AND SHF_EXECINSTR \<noteq> 0, sec_name := es_name s\<rparr>"

definition scan_reloc_section :: "elf_config \<Rightarrow> bool \<Rightarrow> nat \<Rightarrow> elf_section \<Rightarrow> (string \<rightharpoonup> nat) \<Rightarrow> (string \<rightharpoonup> nat) outcome" where
  "scan_reloc_section cfg has_refs i s m =
     (if es_type s \<noteq> SHT_REL then Done m
      else if \<not> starts_with ''.rel'' (es_name s) then Fail
      else let target = drop 4 (es_name s)
        in Done (if has_refs \<or> is_relocatable_name cfg target then m(target \<mapsto> i) else m))"

definition scan_bss_section :: "elf_config \<Rightarrow> nat \<Rightarrow> elf_section \<Rightarrow> (string \<rightharpoonup> nat) \<Rightarrow> (string \<rightharpoonup> nat)" where
  "scan_bss_section cfg i s m =
     (if es_type s = SHT_NOBITS \<and> ends_with (es_name s) (ec_bss_section_suffix cfg)
      then let target = take (length (es_name s) - length (ec_bss_section_suffix cfg)) (es_name s)
        in if is_relocatable_name cfg target then m(target \<mapsto> i) else m
      else m)"

definition scan_section :: "elf_config \<Rightarrow> bool \<Rightarrow> u32 \<Rightarrow> nat \<Rightarrow> elf_section \<times> u32 \<Rightarrow> elf_scan \<Rightarrow> elf_scan outcome" where
  "scan_section cfg has_refs min_load i sa st =
     (let (s, load_addr) = sa; ctx = sc_ctx st; rom_addr = (if load_addr \<noteq> -1 then load_addr - min_load else load_addr);
          symtab = (if es_type s = SHT_SYMTAB then Some i else sc_symtab st)
      in and_then (scan_reloc_section cfg has_refs i s (sc_reloc_sections st)) (\<lambda>reloc_sections.
         and_then (if load_addr \<noteq> -1 then copy_section s rom_addr (rom ctx) else Done (rom ctx)) (\<lambda>img.
         Done \<lparr>sc_ctx = ctx\<lparr>rom := img, sections := (sections ctx)[i := scan_section_info cfg s rom_addr (sections ctx ! i)]\<rparr>,
           sc_symtab = symtab, sc_reloc_sections = reloc_sections,
           sc_bss_sections = scan_bss_section cfg i s (sc_bss_sections st)\<rparr>)))"

definition wire_bss :: "elf_file \<Rightarrow> (string \<rightharpoonup> nat) \<Rightarrow> nat \<Rightarrow> recompiler_context \<Rightarrow> recompiler_context" where
  "wire_bss f bss_sections k ctx =
     (let sec = sections ctx ! k
      in case bss_sections (sec_name sec) of
           None \<Rightarrow> ctx
         | Some b \<Rightarrow> ctx\<lparr>sections := (sections ctx)[k := sec\<lparr>sec_bss_section_index := word_of_nat b, sec_bss_size := es_size (ef_sections f ! b)\<rparr>],
             bss_section_to_section := (bss_section_to_section ctx)(word_of_nat b \<mapsto> word_of_nat k)\<rparr>)"

definition wire_section ::
    "elf_file \<Rightarrow> elf_symbol list \<Rightarrow> (string \<rightharpoonup> nat) \<Rightarrow> (string \<rightharpoonup> nat) \<Rightarrow> nat \<Rightarrow> recompiler_context \<Rightarrow> recompiler_context outcome" where
  "wire_section f symbols reloc_sections bss_sections k ctx =
     (let ctx1 = wire_bss f bss_sections k ctx; sec = sections ctx1 ! k; s = ef_sections f ! k;
          in_rom = (es_type s \<noteq> SHT_NOBITS \<and> es_flags s AND SHF_ALLOC \<noteq> 0)
      in if in_rom \<and> (sec_relocatable sec \<or> has_reference_symbols ctx1)
         then (case reloc_sections (sec_name sec) of
             None \<Rightarrow> Done ctx1
           | Some r \<Rightarrow> parse_section_relocs ctx1 symbols k (es_rels (ef_sections f ! r)))
         else Done ctx1)"

definition read_sections :: "elf_config \<Rightarrow> elf_file \<Rightarrow> recompiler_context \<Rightarrow> (nat \<times> recompiler_context) outcome" where
  "read_sections cfg f ctx =
     (let ss = ef_sections f
      in and_then (map_outcome (load_address (ef_segments f)) ss) (\<lambda>addrs.
         and_then (for_each 0 (zip ss addrs) (scan_section cfg (has_reference_symbols ctx) (min_load_address addrs))
             \<lparr>sc_ctx = ctx, sc_symtab = None, sc_reloc_sections = Map.empty, sc_bss_sections = Map.empty\<rparr>) (\<lambda>st.
         and_then (or_fail (sc_symtab st)) (\<lambda>symtab.
         and_then (fold_outcome (wire_section f (es_symbols (ss ! symtab)) (sc_reloc_sections st) (sc_bss_sections st))
             [0..<length (sections (sc_ctx st))] (sc_ctx st)) (\<lambda>ctx'.
         Done (symtab, ctx'))))))"

section \<open>Symbols\<close>

record symbol_state =
  st_ctx :: recompiler_context
  st_found_entrypoint :: bool
  st_data_syms :: data_symbol_map

definition bss_targets :: "recompiler_context \<Rightarrow> (u16 \<rightharpoonup> u16)" where
  "bss_targets ctx = fold (\<lambda>k m. let b = sec_bss_section_index (sections ctx ! k) in if b \<noteq> -1 then m(b \<mapsto> word_of_nat k) else m)
     [0..<length (sections ctx)] Map.empty"

definition absolute_symbol :: "elf_symbol \<Rightarrow> recompiler_context \<Rightarrow> recompiler_context" where
  "absolute_symbol s ctx = ctx\<lparr>
     ctx_functions := ctx_functions ctx @ [make_function (sy_value s) 0 [] (sy_name s) 0 True False False 0],
     functions_by_vram := push_vram (sy_value s) (length (ctx_functions ctx)) (functions_by_vram ctx)\<rparr>"

text \<open>The name, size and type of a symbol after the entry point and the configured sizes have been looked at. The comparison is of a
  64-bit address with an \<open>int32_t\<close>.\<close>

definition is_entrypoint_value :: "elf_config \<Rightarrow> elf_symbol \<Rightarrow> bool" where
  "is_entrypoint_value cfg s \<longleftrightarrow> ec_has_entrypoint cfg \<and> (ucast (sy_value s) :: u64) = scast (ec_entrypoint_address cfg) \<and> sy_type s = STT_FUNC"

definition sized_symbol :: "elf_config \<Rightarrow> elf_symbol \<Rightarrow> elf_symbol" where
  "sized_symbol cfg s =
     (let s1 = (if is_entrypoint_value cfg s then s\<lparr>sy_size := 0x50, sy_name := ''recomp_entrypoint''\<rparr> else s)
      in case ec_manually_sized_funcs cfg (sy_name s1) of
           None \<Rightarrow> s1
         | Some n \<Rightarrow> s1\<lparr>sy_size := n, sy_type := STT_FUNC\<rparr>)"

text \<open>Name, \<open>reimplemented\<close> and \<open>ignored\<close>; the renaming of the third list is for symbols that become functions.\<close>

definition listed_name :: "bool \<Rightarrow> string \<Rightarrow> string \<times> bool \<times> bool" where
  "listed_name dumping n =
     (if \<not> dumping \<and> n \<in> set reimplemented_funcs then (n @ ''_recomp'', True, True)
      else if \<not> dumping \<and> n \<in> set ignored_funcs then (n @ ''_recomp'', False, True)
      else (n, False, False))"

definition renamed_name :: "bool \<Rightarrow> string \<times> bool \<times> bool \<Rightarrow> string \<times> bool \<times> bool" where
  "renamed_name dumping x =
     (let (n, reimplemented, ignored) = x
      in if \<not> dumping \<and> n \<in> set renamed_funcs then (n @ ''_recomp'', reimplemented, False) else x)"

text \<open>The function of a symbol, and whether it is the entry point by its ROM address. Its words are read only if it has any.\<close>

definition symbol_function ::
    "elf_config \<Rightarrow> elf_section \<Rightarrow> section_info \<Rightarrow> elf_symbol \<Rightarrow> string \<times> bool \<times> bool \<Rightarrow> bytes \<Rightarrow> (recomp_function \<times> bool) outcome" where
  "symbol_function cfg es sec s x img =
     (let (n, reimplemented, ignored) = x;
          rom_address = sy_value s - es_address es + sec_rom_addr sec;
          is_entry = (ec_has_entrypoint cfg \<and> rom_address = 0x1000 \<and> sy_type s = STT_FUNC);
          num_instructions = (if is_entry \<and> sy_size s = 0 then 0x50 div 4 else if sy_type s = STT_FUNC then unat (sy_size s) div 4 else 0);
          vram = (if is_entry then ec_entrypoint_address cfg else sy_value s);
          n1 = (if is_entry then ''recomp_entrypoint'' else n);
          n2 = (if sy_bind s = STB_LOCAL then n1 @ ''_'' @ fmt_08X rom_address else n1)
      in and_then (if num_instructions = 0 then Done [] else copy_from img (unat rom_address) (4 * num_instructions)) (\<lambda>bs.
         Done (make_function vram rom_address (le_words bs) n2 (sy_section_index s) ignored reimplemented False 0, is_entry)))"

definition push_symbol_function :: "u32 \<Rightarrow> recomp_function \<Rightarrow> recompiler_context \<Rightarrow> recompiler_context outcome" where
  "push_symbol_function symbol_vram f ctx =
     (let k = unat (fn_section_index f); sec = sections ctx ! k; i = length (ctx_functions ctx)
      in if fn_words f \<noteq> [] \<and> length (section_functions ctx) \<le> k then Undef
         else Done (ctx\<lparr>
           ctx_functions := ctx_functions ctx @ [f],
           section_functions := (if fn_words f = [] then section_functions ctx
             else (section_functions ctx)[k := section_functions ctx ! k @ [i]]),
           sections := (sections ctx)[k := sec\<lparr>sec_function_addrs := sec_function_addrs sec @ [symbol_vram]\<rparr>],
           functions_by_vram := push_vram symbol_vram i (functions_by_vram ctx),
           functions_by_name := assign (fn_name f) i (functions_by_name ctx)\<rparr>))"

definition becomes_function :: "bool \<Rightarrow> elf_symbol \<Rightarrow> bool" where
  "becomes_function ignored s \<longleftrightarrow> ignored \<or> sy_type s \<in> {STT_FUNC, STT_NOTYPE, STT_OBJECT}"

text \<open>The data symbol of an entry that is no function with code. An index of no section is kept as it is, with a message.\<close>

definition data_target :: "(u16 \<rightharpoonup> u16) \<Rightarrow> elf_symbol \<Rightarrow> u16" where
  "data_target bss s =
     (let target = (if sy_section_index s = SHN_ABS then SectionAbsolute else sy_section_index s)
      in case bss target of None \<Rightarrow> target | Some k \<Rightarrow> k)"

definition add_data_symbol :: "bool \<Rightarrow> (u16 \<rightharpoonup> u16) \<Rightarrow> elf_symbol \<Rightarrow> string \<Rightarrow> data_symbol_map \<Rightarrow> data_symbol_map" where
  "add_data_symbol dumping bss s n m =
     (if \<not> dumping \<or> n = [] \<or> sy_other s AND 3 = STV_INTERNAL then m
      else let k = data_target bss s
        in m(k \<mapsto> (case m k of None \<Rightarrow> [] | Some ds \<Rightarrow> ds) @ [\<lparr>ds_vram = sy_value s, ds_name = n\<rparr>]))"

text \<open>One symbol; \<open>None\<close> is a second entry point, which ends the loop.\<close>

definition section_symbol ::
    "elf_config \<Rightarrow> elf_file \<Rightarrow> bool \<Rightarrow> (u16 \<rightharpoonup> u16) \<Rightarrow> elf_symbol \<Rightarrow> symbol_state \<Rightarrow> symbol_state outcome" where
  "section_symbol cfg f dumping bss s0 st =
     (let s = sized_symbol cfg s0; ctx = st_ctx st; k = unat (sy_section_index s); listed = listed_name dumping (sy_name s);
          found = st_found_entrypoint st \<or> is_entrypoint_value cfg s0
      in if becomes_function (snd (snd listed)) s
         then and_then (symbol_function cfg (ef_sections f ! k) (sections ctx ! k) s (renamed_name dumping listed) (rom ctx)) (\<lambda>(g, is_entry).
           and_then (push_symbol_function (sy_value s) g ctx) (\<lambda>ctx'.
           Done \<lparr>st_ctx = ctx', st_found_entrypoint = found \<or> is_entry,
             st_data_syms = (if fn_words g \<noteq> [] then st_data_syms st else add_data_symbol dumping bss s (fn_name g) (st_data_syms st))\<rparr>))
         else Done (st\<lparr>st_found_entrypoint := found, st_data_syms := add_data_symbol dumping bss s (fst listed) (st_data_syms st)\<rparr>))"

definition read_symbol ::
    "elf_config \<Rightarrow> elf_file \<Rightarrow> bool \<Rightarrow> (u16 \<rightharpoonup> u16) \<Rightarrow> elf_symbol \<Rightarrow> symbol_state \<Rightarrow> symbol_state option outcome" where
  "read_symbol cfg f dumping bss s st =
     (if sy_section_index s = SHN_ABS \<and> ec_use_absolute_symbols cfg then Done (Some (st\<lparr>st_ctx := absolute_symbol s (st_ctx st)\<rparr>))
      else if unat (sy_section_index s) < length (sections (st_ctx st)) then
        (if is_entrypoint_value cfg s \<and> st_found_entrypoint st then Done None
         else and_then (section_symbol cfg f dumping bss s st) (\<lambda>st'. Done (Some st')))
      else Done (Some (st\<lparr>st_data_syms := add_data_symbol dumping bss s (sy_name s) (st_data_syms st)\<rparr>)))"

fun read_symbol_list ::
    "elf_config \<Rightarrow> elf_file \<Rightarrow> bool \<Rightarrow> (u16 \<rightharpoonup> u16) \<Rightarrow> elf_symbol list \<Rightarrow> symbol_state \<Rightarrow> symbol_state outcome" where
  "read_symbol_list cfg f dumping bss [] st = Done st"
| "read_symbol_list cfg f dumping bss (s # ss) st =
     and_then (read_symbol cfg f dumping bss s st) (\<lambda>r.
       case r of None \<Rightarrow> Done (st\<lparr>st_found_entrypoint := False\<rparr>) | Some st' \<Rightarrow> read_symbol_list cfg f dumping bss ss st')"

definition read_symbols ::
    "elf_config \<Rightarrow> elf_file \<Rightarrow> bool \<Rightarrow> elf_symbol list \<Rightarrow> recompiler_context \<Rightarrow> symbol_state outcome" where
  "read_symbols cfg f dumping symbols ctx =
     read_symbol_list cfg f dumping (if dumping then bss_targets ctx else Map.empty) symbols
       \<lparr>st_ctx = ctx, st_found_entrypoint = False, st_data_syms = Map.empty\<rparr>"

section \<open>The whole\<close>

definition setup_context_for_elf :: "elf_file \<Rightarrow> recompiler_context \<Rightarrow> recompiler_context" where
  "setup_context_for_elf f ctx =
     (let n = length (ef_sections f)
      in ctx\<lparr>sections := resize_list (sections ctx) n section_default, section_functions := resize_list (section_functions ctx) n [],
           section_dispatch_aliases := resize_list (section_dispatch_aliases ctx) n []\<rparr>)"

text \<open>\<open>None\<close> is a file that the library cannot load.\<close>

definition from_elf_file :: "elf_config \<Rightarrow> elf_file option \<Rightarrow> bool \<Rightarrow> recompiler_context \<Rightarrow> symbol_state outcome" where
  "from_elf_file cfg file dumping ctx =
     and_then (or_fail file) (\<lambda>f.
     if \<not> ef_class_32 f \<or> \<not> ef_big_endian f then Fail
     else and_then (read_sections cfg f (setup_context_for_elf f ctx)) (\<lambda>(symtab, ctx1).
       read_symbols cfg f dumping (es_symbols (ef_sections f ! symtab)) ctx1))"

end
