(* ===== verification/Driver_Output.thy ===== *)
theory Driver_Output
  imports Driver Elf_Reader
begin

text \<open>
  What \<open>src/main.cpp\<close> writes beside the recompiled functions: the tables for the runtime (\<open>recomp_overlays.inl\<close>), the entry point
  (\<open>lookup.cpp\<close>), the end of \<open>funcs.h\<close>, and the dump of a context as a symbols file.

  \<^item> \<open>relocatable_section_indices\<close> is an association list in the order of insertion, of which the first entry of a key counts.
  \<^item> \<open>Undef\<close> is an index out of range.
\<close>

section \<open>Names of the tables\<close>

definition reloc_names :: "string list" where
  "reloc_names = [''R_MIPS_NONE '', ''R_MIPS_16'', ''R_MIPS_32'', ''R_MIPS_REL32'', ''R_MIPS_26'', ''R_MIPS_HI16'', ''R_MIPS_LO16'',
     ''R_MIPS_GPREL16'']"

text \<open>\<open>{:08X}\<close> of a number that is no 32-bit word, and \<open>{:016X}\<close>.\<close>

definition fmt_zeros_X :: "nat \<Rightarrow> nat \<Rightarrow> string" where
  "fmt_zeros_X width n = pad_left width (CHR ''0'') (hex_nat n)"

definition trimmed_name :: "section_info \<Rightarrow> string" where
  "trimmed_name sec = dropWhile (\<lambda>c. c = CHR ''.'') (sec_name sec)"

definition table_name :: "nat \<Rightarrow> section_info \<Rightarrow> string \<Rightarrow> string" where
  "table_name k sec kind = ''section_'' @ fmt_nat k @ ''_'' @ trimmed_name sec @ ''_'' @ kind"

definition relocs_array_name :: "nat \<Rightarrow> section_info \<Rightarrow> string" where
  "relocs_array_name k sec = (if sec_relocs sec = [] then ''nullptr'' else table_name k sec ''relocs'')"

definition relocs_array_size :: "nat \<Rightarrow> section_info \<Rightarrow> string" where
  "relocs_array_size k sec = (if sec_relocs sec = [] then ''0'' else ''ARRLEN('' @ relocs_array_name k sec @ '')'')"

section \<open>The table of a section\<close>

definition section_aliases :: "recompiler_context \<Rightarrow> nat \<Rightarrow> nat list" where
  "section_aliases ctx k = (if k < length (section_dispatch_aliases ctx) then section_dispatch_aliases ctx ! k else [])"

definition has_table :: "recompiler_context \<Rightarrow> nat \<Rightarrow> bool" where
  "has_table ctx k \<longleftrightarrow> sec_has_mips32_relocs (sections ctx ! k) \<or> section_functions ctx ! k \<noteq> [] \<or> section_aliases ctx k \<noteq> []"

definition load_table_row :: "nat \<Rightarrow> section_info \<Rightarrow> string" where
  "load_table_row k sec =
     ''    { .rom_addr = 0x'' @ fmt_08X (sec_rom_addr sec) @ '', .ram_addr = 0x'' @ fmt_08X (sec_ram_addr sec) @
     '', .size = 0x'' @ fmt_08X (sec_size sec) @ '', .funcs = '' @ table_name k sec ''funcs'' @
     '', .num_funcs = ARRLEN('' @ table_name k sec ''funcs'' @ ''), .relocs = '' @ relocs_array_name k sec @
     '', .num_relocs = '' @ relocs_array_size k sec @ '', .index = '' @ fmt_nat k @
     '', .content_hash = 0x'' @ fmt_zeros_X 16 (unat (sec_content_hash sec)) @
     ''ull, .original_pattern_id = 0x'' @ fmt_08X (sec_original_pattern_id sec) @ ''u },''"

record func_entry =
  fe_func :: string
  fe_offset :: u32
  fe_rom_size :: nat

definition in_func_table :: "recomp_function \<Rightarrow> bool" where
  "in_func_table f \<longleftrightarrow> fn_reimplemented f \<or> fn_name f \<noteq> [] \<and> \<not> fn_ignored f \<and> fn_words f \<noteq> []"

definition function_entry :: "section_info \<Rightarrow> recomp_function \<Rightarrow> func_entry" where
  "function_entry sec f = \<lparr>fe_func = fn_name f,
     fe_offset = fn_rom f - sec_rom_addr sec +
       (if fn_entry_vram f \<noteq> 0 \<and> fn_entry_vram f \<noteq> fn_vram f then fn_entry_vram f - fn_vram f else 0),
     fe_rom_size = (if fn_reimplemented f then 0 else 4 * length (fn_words f))\<rparr>"

definition alias_entry :: "section_info \<Rightarrow> dispatch_alias \<Rightarrow> func_entry" where
  "alias_entry sec a = \<lparr>fe_func = da_name a, fe_offset = da_rom a - sec_rom_addr sec, fe_rom_size = 0\<rparr>"

definition func_table :: "recompiler_context \<Rightarrow> nat \<Rightarrow> func_entry list outcome" where
  "func_table ctx k =
     (let sec = sections ctx ! k
      in and_then (map_outcome (\<lambda>i. or_undef (nth_opt (ctx_functions ctx) i)) (section_functions ctx ! k)) (\<lambda>fs.
         and_then (map_outcome (\<lambda>i. or_undef (nth_opt (dispatch_aliases ctx) i)) (section_aliases ctx k)) (\<lambda>as.
         Done (map (function_entry sec) (filter in_func_table fs) @ map (alias_entry sec) as))))"

definition print_func_entry :: "func_entry \<Rightarrow> string" where
  "print_func_entry e = ''    { .func = '' @ fe_func e @ '', .offset = 0x'' @ fmt_08X (fe_offset e) @
     '', .rom_size = 0x'' @ fmt_zeros_X 8 (fe_rom_size e) @ '' },''"

text \<open>Types without a name are left out; with reference symbols only what the runtime resolves itself is kept.\<close>

definition reloc_emitted :: "driver_config \<Rightarrow> reloc \<Rightarrow> bool" where
  "reloc_emitted cfg r \<longleftrightarrow> unat (rel_type r) < length reloc_names \<and>
     (cf_reference_symbol_mode cfg \<longrightarrow>
        rel_reference_symbol r \<and> rel_target_section r \<noteq> SectionAbsolute \<or> rel_target_section r = SectionEvent \<or>
        is_manual_patch_symbol (rel_target_section_offset r))"

definition reloc_row :: "recompiler_context \<Rightarrow> nat \<Rightarrow> reloc \<Rightarrow> string outcome" where
  "reloc_row ctx k r =
     and_then (reloc_offset_in_section ctx k (rel_address r)) (\<lambda>off. Done (
       ''    { .offset = 0x'' @ fmt_08X off @ '', .target_section_offset = 0x'' @
       fmt_08X (if rel_target_section r = SectionEvent then rel_symbol_index r else rel_target_section_offset r) @
       '', .target_section = '' @ fmt_nat (unat (rel_target_section r)) @ '', .type = '' @ reloc_names ! unat (rel_type r) @ '' }, ''))"

definition reloc_table :: "driver_config \<Rightarrow> recompiler_context \<Rightarrow> nat \<Rightarrow> string list outcome" where
  "reloc_table cfg ctx k =
     (let sec = sections ctx ! k
      in if sec_relocs sec = [] then Done []
         else and_then (map_outcome (reloc_row ctx k) (filter (reloc_emitted cfg) (sec_relocs sec))) (\<lambda>rows.
           Done ((''static RelocEntry '' @ relocs_array_name k sec @ ''[] = {'') # rows @ [''};''])))"

definition section_tables :: "driver_config \<Rightarrow> recompiler_context \<Rightarrow> nat \<Rightarrow> string outcome" where
  "section_tables cfg ctx k =
     and_then (func_table ctx k) (\<lambda>entries.
     and_then (reloc_table cfg ctx k) (\<lambda>relocs.
     Done (print_lines ((''static FuncEntry '' @ table_name k (sections ctx ! k) ''funcs'' @ ''[] = {'') #
             map print_func_entry entries @ [''};''] @ relocs))))"

section \<open>All sections\<close>

text \<open>The sections that get a table, in order; the position of one is \<open>written_sections\<close> when it is written.\<close>

definition written_sections :: "recompiler_context \<Rightarrow> nat list" where
  "written_sections ctx = filter (has_table ctx) [0..<length (sections ctx)]"

definition relocatable_section_indices :: "recompiler_context \<Rightarrow> (string \<times> nat) list" where
  "relocatable_section_indices ctx =
     map (\<lambda>p. (sec_name (sections ctx ! (written_sections ctx ! p)), p))
       (filter (\<lambda>p. sec_relocatable (sections ctx ! (written_sections ctx ! p))) [0..<length (written_sections ctx)])"

definition overlay_index :: "recompiler_context \<Rightarrow> string \<Rightarrow> string outcome" where
  "overlay_index ctx n =
     (if n = ''*'' then Done ''    -1,''
      else and_then (or_fail (map_of (relocatable_section_indices ctx) n)) (\<lambda>p. Done (''    '' @ fmt_nat p @ '','')))"

definition overlay_indices :: "recompiler_context \<Rightarrow> string list \<Rightarrow> string list outcome" where
  "overlay_indices ctx ordered = (if ordered = [] then Done [''    -1,''] else map_outcome (overlay_index ctx) ordered)"

definition export_row :: "recompiler_context \<Rightarrow> nat \<Rightarrow> string outcome" where
  "export_row ctx i =
     and_then (or_undef (nth_opt (ctx_functions ctx) i)) (\<lambda>f.
     Done (''    { \"'' @ fn_name f @ ''\", 0x'' @ fmt_08X (if fn_entry_vram f \<noteq> 0 then fn_entry_vram f else fn_vram f) @ '' },''))"

definition event_row :: "recompiler_context \<Rightarrow> nat \<Rightarrow> string outcome" where
  "event_row ctx i = and_then (or_undef (nth_opt (ctx_functions ctx) i)) (\<lambda>f. Done (''    \"'' @ fn_name f @ ''\",''))"

text \<open>\<open>std::sort\<close> by address; the order of equal addresses is left open by the library, here it is that of the functions.\<close>

definition manual_patch_syms :: "recompiler_context \<Rightarrow> (u32 \<times> string) list" where
  "manual_patch_syms ctx = sort_key fst
     (map (\<lambda>f. (fn_vram f, fn_name f)) (filter (\<lambda>f. fn_words f = [] \<and> is_manual_patch_symbol (fn_vram f)) (ctx_functions ctx)))"

definition export_tables :: "driver_config \<Rightarrow> driver_state \<Rightarrow> event_functions \<Rightarrow> string outcome" where
  "export_tables cfg st events =
     (let ctx = dr_ctx st
      in if \<not> cf_allow_exports cfg then Done ''''
         else and_then (map_outcome (export_row ctx) (dr_exports st)) (\<lambda>exports.
         and_then (map_outcome (event_row ctx) events) (\<lambda>event_names.
         Done (print_lines (['''', ''static FunctionExport export_table[] = {''] @ exports @ [''    { NULL, 0 }'', ''};''] @
                ['''', ''static const char* event_names[] = {''] @ event_names @ [''    NULL'', ''};''] @
                ['''', ''static const ManualPatchSymbol manual_patch_symbols[] = {''] @
                map (\<lambda>(v, n). ''    { 0x'' @ fmt_08X v @ '', '' @ n @ '' },'') (manual_patch_syms ctx) @ [''    { 0, NULL }'', ''};''])))))"

definition overlay_file :: "driver_config \<Rightarrow> string list \<Rightarrow> driver_state \<Rightarrow> event_functions \<Rightarrow> string outcome" where
  "overlay_file cfg ordered st events =
     (let ctx = dr_ctx st
      in if length (section_functions ctx) < length (sections ctx) then Undef
         else and_then (map_outcome (section_tables cfg ctx) (written_sections ctx)) (\<lambda>tables.
         and_then (overlay_indices ctx ordered) (\<lambda>indices.
         and_then (export_tables cfg st events) (\<lambda>exports.
         Done (print_lines [cf_recomp_include cfg, ''#include \"funcs.h\"'', ''#include \"librecomp/sections.h\"'', ''''] @
           concat tables @
           print_lines ([''static SectionTableEntry section_table[] = {''] @
             map (\<lambda>k. load_table_row k (sections ctx ! k)) (written_sections ctx) @ [''};'',
             ''const size_t num_sections = '' @ fmt_nat (length (sections ctx)) @ '';'',
             ''static int overlay_sections_by_index[] = {''] @ indices @ [''};'']) @ exports)))))"

section \<open>The other files\<close>

text \<open>The address of the entry point, if there is one, and the file name of the ROM, made of that of the ELF file.\<close>

definition lookup_file :: "driver_config \<Rightarrow> u32 \<Rightarrow> string \<Rightarrow> string" where
  "lookup_file cfg entrypoint rom_name = print_lines [cf_recomp_include cfg, '''',
     ''gpr get_entrypoint_address() { return (gpr)(int32_t)0x'' @ fmt_08X entrypoint @ ''u; }'', '''',
     ''const char* get_rom_name() { return \"'' @ rom_name @ ''\"; }'', '''']"

definition write_tables ::
    "driver_config \<Rightarrow> string list \<Rightarrow> u32 option \<Rightarrow> string \<Rightarrow> event_functions \<Rightarrow> driver_state \<Rightarrow> driver_state outcome" where
  "write_tables cfg ordered entrypoint rom_name events st =
     and_then (overlay_file cfg ordered st events) (\<lambda>overlays.
       let lookup = (case entrypoint of None \<Rightarrow> [] | Some v \<Rightarrow> [(''lookup.cpp'', lookup_file cfg v rom_name)]);
           patches = (if cf_allow_exports cfg then concat (map (\<lambda>(v, n). prototype n) (manual_patch_syms (dr_ctx st))) else '''')
       in Done ((to_header (patches @ header_end) st)\<lparr>dr_files := dr_files st @ lookup @ [(''recomp_overlays.inl'', overlays)]\<rparr>))"

section \<open>The dump of a context\<close>

definition dump_section :: "string \<Rightarrow> u32 \<Rightarrow> u32 \<Rightarrow> u32 \<Rightarrow> string" where
  "dump_section n rom_addr ram_addr sz = print_lines ([''[[section]]'', ''name = \"'' @ n @ ''\"''] @
     (if rom_addr = 0xFFFFFFFF then [] else [''rom = 0x'' @ fmt_08X rom_addr]) @
     [''vram = 0x'' @ fmt_08X ram_addr, ''size = 0x'' @ hex_nat (unat sz), ''''])"

definition dumped_reloc :: "nat \<Rightarrow> section_info \<Rightarrow> reloc \<Rightarrow> bool" where
  "dumped_reloc k sec r \<longleftrightarrow> (unat (rel_target_section r) = k \<or> rel_target_section r = sec_bss_section_index sec) \<and>
     rel_type r \<in> {R_MIPS_HI16, R_MIPS_LO16, R_MIPS_26}"

definition dump_reloc :: "section_info \<Rightarrow> reloc \<Rightarrow> string" where
  "dump_reloc sec r = ''    { type = \"'' @ reloc_names ! unat (rel_type r) @ ''\", vram = 0x'' @ fmt_08X (rel_address r) @
     '', target_vram = 0x'' @ fmt_08X (rel_target_section_offset r + sec_ram_addr sec) @ '' },''"

definition dump_function :: "recomp_function \<Rightarrow> string" where
  "dump_function f = ''    { name = \"'' @ fn_name f @ ''\", vram = 0x'' @ fmt_08X (fn_vram f) @ '', size = 0x'' @
     hex_nat (4 * length (fn_words f)) @ '' },''"

definition dump_functions_of :: "recompiler_context \<Rightarrow> nat \<Rightarrow> string outcome" where
  "dump_functions_of ctx k =
     (let sec = sections ctx ! k
      in if section_functions ctx ! k = [] then Done ''''
         else and_then (map_outcome (\<lambda>i. or_undef (nth_opt (ctx_functions ctx) i)) (section_functions ctx ! k)) (\<lambda>fs.
           Done (dump_section (sec_name sec) (sec_rom_addr sec) (sec_ram_addr sec) (sec_size sec) @
             (if sec_relocs sec = [] then ''''
              else print_lines ([''relocs = [''] @ map (dump_reloc sec) (filter (dumped_reloc k sec) (sec_relocs sec)) @ ['']'', ''''])) @
             print_lines ([''functions = [''] @ map dump_function fs @ ['']'', '''']))))"

definition dump_symbols :: "string \<Rightarrow> data_symbol list option \<Rightarrow> string" where
  "dump_symbols heading syms =
     (case syms of
        None \<Rightarrow> ''''
      | Some [] \<Rightarrow> ''''
      | Some ss \<Rightarrow> heading @ print_lines ([''symbols = [''] @
          map (\<lambda>s. ''    { name = \"'' @ ds_name s @ ''\", vram = 0x'' @ fmt_08X (ds_vram s) @ '' },'') ss @ ['']'', '''']))"

definition dump_title :: string where
  "dump_title = print_lines [''# Autogenerated from an ELF via N64Recomp'']"

text \<open>The text of the two files, of functions and of data. The symbols are already sorted.\<close>

definition dump_context :: "recompiler_context \<Rightarrow> data_symbol_map \<Rightarrow> (string \<times> string) outcome" where
  "dump_context ctx data_syms =
     (if length (section_functions ctx) < length (sections ctx) then Undef
      else and_then (map_outcome (dump_functions_of ctx) [0..<length (sections ctx)]) (\<lambda>funcs.
     Done (dump_title @ concat funcs,
       dump_title @
       concat (map (\<lambda>k. let sec = sections ctx ! k
          in dump_symbols (dump_section (sec_name sec) (sec_rom_addr sec) (sec_ram_addr sec) (sec_size sec)) (data_syms (word_of_nat k)))
         [0..<length (sections ctx)]) @
       dump_symbols (dump_section ''ABSOLUTE_SYMS'' 0xFFFFFFFF 0 0) (data_syms SectionAbsolute))))"

section \<open>Before and after\<close>

text \<open>The fragments of the configuration and those found by patterns. The number is the next ROM address of a synthetic section.\<close>

definition synthesize_all ::
    "decoder \<Rightarrow> (u32 \<Rightarrow> u32 \<Rightarrow> bool) \<Rightarrow> bytes \<Rightarrow> decompressed_section list \<Rightarrow> section_patch list \<Rightarrow>
     decompressed_section_pattern list \<Rightarrow> u32 list \<Rightarrow> recompiler_context \<times> u64 \<Rightarrow> (recompiler_context \<times> u64) outcome" where
  "synthesize_all decode links rom_file configs patches patterns forced cn =
     and_then (synthesize_decompressed_sections rom_file configs patches (fst cn)) (\<lambda>ctx.
     synthesize_decompressed_patterns decode links rom_file patterns patches forced (ctx, snd cn))"

text \<open>The context of an ELF file, with the manual functions. \<open>found\<close> tells whether the entry point has been found.\<close>

definition finish_elf_context :: "manual_function list \<Rightarrow> bool \<Rightarrow> bool \<Rightarrow> recompiler_context \<Rightarrow> recompiler_context outcome" where
  "finish_elf_context manual has_entrypoint found ctx =
     and_then (add_manual_functions manual ctx) (\<lambda>ctx'. if has_entrypoint \<and> \<not> found then Fail else Done ctx')"

text \<open>The context of a symbols file, before the synthesis of fragments.\<close>

definition name_symbol_functions :: "u32 option \<Rightarrow> recompiler_context \<Rightarrow> recompiler_context outcome" where
  "name_symbol_functions entrypoint ctx =
     (case entrypoint of
        None \<Rightarrow> Done (classify_functions ctx)
      | Some v \<Rightarrow> name_entrypoint v (classify_functions ctx))"

definition sorted_data_syms :: "data_symbol_map \<Rightarrow> data_symbol_map" where
  "sorted_data_syms m = (\<lambda>k. map_option (sort_key ds_vram) (m k))"

definition run_elf_dump :: "recompiler_context \<Rightarrow> data_symbol_map \<Rightarrow> (string \<times> string) outcome" where
  "run_elf_dump ctx data_syms = dump_context ctx (sorted_data_syms data_syms)"

definition run_driver ::
    "decoder \<Rightarrow> (u32 \<Rightarrow> u32 \<Rightarrow> bool) \<Rightarrow> driver_config \<Rightarrow> string \<Rightarrow> string list \<Rightarrow> u32 option \<Rightarrow> string \<Rightarrow>
     recompiler_context \<Rightarrow> driver_state outcome" where
  "run_driver decode links cfg single_name ordered entrypoint rom_name ctx =
     and_then (recompile_program decode links cfg single_name ctx) (\<lambda>(st, events).
     write_tables cfg ordered entrypoint rom_name events st)"

end
