(* ===== verification/Static_Requests.thy ===== *)
theory Static_Requests
  imports Driver Seeding_Soundness Translation_Errors "HOL-Library.Sublist"
begin

text \<open>
  The loop over the static functions of a section serves every request: the ones that were there when it started and the ones that
  the functions it recompiles add.
\<close>

section \<open>What the steps keep\<close>

definition declared :: "string \<Rightarrow> driver_state \<Rightarrow> bool" where
  "declared name st \<longleftrightarrow> sublist (prototype name) (dr_header st)"

text \<open>A relocated pointer stands at an address of a section.\<close>

definition pointer_at :: "recompiler_context \<Rightarrow> nat \<Rightarrow> u32 \<Rightarrow> bool" where
  "pointer_at ctx k v \<longleftrightarrow> (\<exists>r \<in> set (sec_relocs (sections ctx ! k)). rel_type r = R_MIPS_32 \<and> rel_address r = v)"

text \<open>The address is in a function that begins with a relocated pointer. Such a request is dropped, although there may be code at the
  address.\<close>

definition in_pointer_function :: "recompiler_context \<Rightarrow> nat \<Rightarrow> u32 \<Rightarrow> bool" where
  "in_pointer_function ctx k v \<longleftrightarrow> (\<exists>f \<in> set (ctx_functions ctx). interior_of v f \<and> pointer_at ctx k (fn_vram f))"

definition request_served :: "nat \<Rightarrow> driver_state \<Rightarrow> u32 \<Rightarrow> bool" where
  "request_served k st v \<longleftrightarrow> declared (static_name k v) st \<or> pointer_at (dr_ctx st) k v \<or> in_pointer_function (dr_ctx st) k v"

definition output_grows :: "driver_state \<Rightarrow> driver_state \<Rightarrow> bool" where
  "output_grows st st' \<longleftrightarrow> prefix (dr_header st) (dr_header st') \<and> sections (dr_ctx st') = sections (dr_ctx st) \<and>
     set (ctx_functions (dr_ctx st)) \<subseteq> set (ctx_functions (dr_ctx st'))"

lemma request_served_grows: "request_served k st v \<Longrightarrow> output_grows st st' \<Longrightarrow> request_served k st' v"
  unfolding request_served_def declared_def pointer_at_def in_pointer_function_def output_grows_def prefix_def by (force simp: sublist_def)

lemma output_fields [simp]:
  "dr_header (count_function cfg st) = dr_header st" "dr_statics (count_function cfg st) = dr_statics st"
  "dr_ctx (count_function cfg st) = dr_ctx st" "dr_header (to_current t st) = dr_header st"
  "dr_statics (to_current t st) = dr_statics st" "dr_ctx (to_current t st) = dr_ctx st"
  "dr_header (to_header t st) = dr_header st @ t" "dr_statics (to_header t st) = dr_statics st" "dr_ctx (to_header t st) = dr_ctx st"
  by (simp_all add: count_function_def open_new_output_file_def open_output_def to_current_def to_header_def Let_def)

lemma emit_body_keeps:
  assumes "emit_body decode cfg i st = Done st'"
  shows "dr_ctx st' = dr_ctx st" and "dr_header st' = dr_header st" and "requests_kept (dr_statics st) (dr_statics st')"
proof -
  have a: "dr_ctx s' = dr_ctx s \<and> dr_header s' = dr_header s \<and> requests_kept (dr_statics s) (dr_statics s')"
    if "recompile_or_stub decode i s = Done s'" for s s'
    using that by (auto simp: recompile_or_stub_def and_then_Done or_undef_def dest: recompile_keeps_requests
        split: option.splits simp del: if_split)
  have b: "dr_ctx s' = dr_ctx s \<and> dr_header s' = dr_header s \<and> requests_kept (dr_statics s) (dr_statics s')"
    if "recompile_single_function decode cfg i s = Done s'" for s s'
    using that by (auto simp: recompile_single_function_def and_then_Done or_undef_def dest: recompile_keeps_requests
        split: option.splits if_splits)
  have "dr_ctx st' = dr_ctx st \<and> dr_header st' = dr_header st \<and> requests_kept (dr_statics st) (dr_statics st')"
    using assms a b by (cases "cf_single_file_output cfg \<or> 1 < cf_functions_per_output_file cfg") (auto simp: emit_body_def and_then_Done)
  then show "dr_ctx st' = dr_ctx st" "dr_header st' = dr_header st" "requests_kept (dr_statics st) (dr_statics st')" by auto
qed

section \<open>Where a static function ends\<close>

lemma extend_end_le: "extend_end decode ctx sec eb base requested e = Done e' \<Longrightarrow> e \<le> e'"
proof (induction decode ctx sec eb base requested e rule: extend_end.induct)
  case (1 decode ctx sec eb base requested e)
  obtain x where x: "extended_end decode ctx sec eb base requested e = Done x"
    and r: "(case x of None \<Rightarrow> Done e | Some e1 \<Rightarrow> extend_end decode ctx sec eb base requested e1) = Done e'"
    using "1.prems" by (subst (asm) extend_end.simps) (auto simp: and_then_Done)
  show ?case
  proof (cases x)
    case (Some e1)
    with "1.IH" [OF x Some] r have "e1 \<le> e'" by simp
    moreover have "e < e1" using extended_end_less x Some by blast
    ultimately show ?thesis by simp
  qed (use r in simp)
qed

lemma nearest_behind:
  assumes "fold_outcome (nearest_function v) idxs (ctx, e) = Done (c, e')" and "v < e"
  shows "v < e'"
proof -
  have "v < snd (ctx, e)" using assms(2) by simp
  then have "v < snd (c, e')" using assms(1)
    by (rule fold_outcome_invariant [where I = "\<lambda>s. v < snd s", rotated])
      (auto simp: nearest_function_def Let_def and_then_Done split: if_splits prod.splits)
  then show ?thesis by simp
qed

lemma cut_at_pointers_cases:
  assumes "a < e" and "cut_at_pointers sec a e \<le> a"
  shows "\<exists>r \<in> set (sec_relocs sec). rel_type r = R_MIPS_32 \<and> rel_address r = a"
proof -
  have "a < e0 \<Longrightarrow> foldl (\<lambda>cut r. if rel_type r = R_MIPS_32 \<and> a \<le> rel_address r \<and> rel_address r < e then min cut (rel_address r) else cut) e0 rs \<le> a \<Longrightarrow>
      \<exists>r \<in> set rs. rel_type r = R_MIPS_32 \<and> rel_address r = a" for e0 rs
  proof (induction rs arbitrary: e0)
    case (Cons r rs)
    show ?case
    proof (cases "rel_type r = R_MIPS_32 \<and> rel_address r = a")
      case False
      let ?e = "if rel_type r = R_MIPS_32 \<and> a \<le> rel_address r \<and> rel_address r < e then min e0 (rel_address r) else e0"
      have "a < ?e" using Cons.prems(1) False by (auto simp: min_def)
      from Cons.IH [OF this] Cons.prems(2) show ?thesis by simp
    qed auto
  qed simp
  from this [OF assms(1)] assms(2) show ?thesis by (simp add: cut_at_pointers_def)
qed

text \<open>The address is one of the section's, as it is decoded; the section does not reach the end of the address space.\<close>

definition decoded_in :: "section_info \<Rightarrow> u32 \<Rightarrow> u32 \<Rightarrow> bool" where
  "decoded_in sec encoded_base v \<longleftrightarrow> (let base = section_base_for sec encoded_base v
     in in_window base (sec_size sec) v \<and> unat base + unat (sec_size sec) + 4 < 2 ^ 32)"

lemma decoded_in_function_addrs [simp]: "decoded_in (sec\<lparr>sec_function_addrs := addrs\<rparr>) eb v = decoded_in sec eb v"
  by (simp add: decoded_in_def section_base_for_def)

lemma static_extent_behind:
  assumes "static_extent decode ctx k sec eb requested v = Done (a, rom_addr, e)" and "decoded_in sec eb v"
  shows "a < e" and "a = v \<or> (\<exists>f \<in> set (ctx_functions ctx). interior_of v f \<and> a = fn_vram f)"
proof -
  let ?base = "section_base_for sec eb v"
  have w: "?base \<le> v" "v < ?base + sec_size sec" and fits: "unat ?base + unat (sec_size sec) + 4 < 2 ^ 32"
    using assms(2) by (simp_all add: decoded_in_def in_window_def Let_def)
  obtain containing where c: "find_containing_function_in_section ctx v k = Done containing"
    using assms(1) by (auto simp: static_extent_def Let_def and_then_Done)
  have "a < e \<and> (a = v \<or> (\<exists>f \<in> set (ctx_functions ctx). interior_of v f \<and> a = fn_vram f))"
  proof (cases containing)
    case (Some i)
    let ?f = "ctx_functions ctx ! i"
    have e: "a = fn_vram ?f" "e = func_vram_end ?f" using assms(1) c Some by (simp_all add: static_extent_def Let_def)
    from c Some have "i < length (ctx_functions ctx)" "interior_of v ?f" using containing_Some by blast+
    then show ?thesis using e by (auto simp: interior_of_def)
  next
    case None
    then obtain idxs cc near found where n: "fold_outcome (nearest_function v) idxs (ctx, sec_size sec + ?base) = Done (cc, near)"
      and b: "bounds_in_section decode ctx sec ?base v = Done found" and a: "a = v"
      and e: "(case found of None \<Rightarrow> Done near
        | Some n \<Rightarrow> extend_end decode ctx sec eb ?base requested (min (v + word_of_nat n) (?base + sec_size sec))) = Done e"
      using assms(1) c by (auto simp: static_extent_def Let_def and_then_Done)
    have "v < e"
    proof (cases found)
      case None
      with e nearest_behind [OF n] w(2) show ?thesis by (simp add: add.commute)
    next
      case (Some n)
      then obtain body where copy: "section_bytes ctx sec = Done body"
        and f: "(case discover_function_bounds decode body ?base (v - ?base) of Refused e \<Rightarrow> None | Accepted n \<Rightarrow> Some n) = Some n"
        using b by (auto simp: bounds_in_section_def and_then_Done)
      then have d: "discover_function_bounds decode body ?base (v - ?base) = Accepted n" by (simp split: checked.splits)
      have len: "length body = unat (sec_size sec)"
        using copy by (auto simp: section_bytes_def copy_from_def slice_def split: if_splits)
      have off: "unat (v - ?base) = unat v - unat ?base" using w(1) by (simp add: unat_sub_if' word_le_nat_alt)
      have end_addr: "unat (?base + sec_size sec) = unat ?base + unat (sec_size sec)" using fits by (simp add: unat_add_lem [THEN iffD1])
      then have "unat (v - ?base) + 4 < 2 ^ 32" using w(2) fits off by (simp add: word_less_nat_alt)
      from discovered_bounds [OF d this] have "4 \<le> n" "unat (v - ?base) + n \<le> length body" by simp_all
      then have "unat v + n \<le> unat ?base + unat (sec_size sec)" using len off w(1) unfolding word_le_nat_alt by linarith
      then have "unat (v + word_of_nat n) = unat v + n" using fits by (simp add: unat_word_ariths unat_of_nat)
      then have "v < v + word_of_nat n" using \<open>4 \<le> n\<close> by (simp add: word_less_nat_alt)
      then have "v < min (v + word_of_nat n) (?base + sec_size sec)" using w(2) by simp
      moreover have "min (v + word_of_nat n) (?base + sec_size sec) \<le> e" using e Some extend_end_le by simp
      ultimately show ?thesis by (rule less_le_trans)
    qed
    with a show ?thesis by simp
  qed
  then show "a < e" and "a = v \<or> (\<exists>f \<in> set (ctx_functions ctx). interior_of v f \<and> a = fn_vram f)" by auto
qed


section \<open>One static function\<close>

lemma requests_from:
  assumes "requests_kept before after" and "k < length before"
  shows "set (after ! k) \<subseteq> set (before ! k) \<union> set (drop (length (before ! k)) (after ! k))"
proof -
  from assms obtain new where "after ! k = before ! k @ new" by (auto simp: requests_kept_def list_all2_conv_all_nth)
  then show ?thesis by simp
qed

lemma emit_static_serves:
  assumes "emit_static decode cfg k eb requested v st = Done (new, st')"
  shows "output_grows st st'" and "set (dr_statics st' ! k) \<subseteq> set (dr_statics st ! k) \<union> set new"
    and "decoded_in (sections (dr_ctx st) ! k) eb v \<Longrightarrow> request_served k st' v"
proof -
  let ?name = "static_name k v" and ?sec = "sections (dr_ctx st) ! k"
  obtain exact where x: "find_exact_function_in_section (dr_ctx st) v k = Done exact"
    using assms by (auto simp: emit_static_def Let_def and_then_Done)
  have "output_grows st st' \<and> set (dr_statics st' ! k) \<subseteq> set (dr_statics st ! k) \<union> set new \<and>
    (decoded_in ?sec eb v \<longrightarrow> request_served k st' v)"
  proof (cases exact)
    case (Some i)
    then have "dr_header st' = dr_header st @ prototype ?name" "dr_ctx st' = dr_ctx st" "dr_statics st' = dr_statics st"
      using assms x by (auto simp: emit_static_def Let_def)
    then show ?thesis by (simp add: output_grows_def request_served_def declared_def)
  next
    case None
    obtain a rom_addr e where s: "static_extent decode (dr_ctx st) k ?sec eb requested v = Done (a, rom_addr, e)"
      using assms x None by (auto simp: emit_static_def Let_def and_then_Done)
    show ?thesis
    proof (cases "cut_at_pointers ?sec a e \<le> a")
      case True
      then have st': "st' = st" using assms x None s by (simp add: emit_static_def Let_def)
      have "request_served k st' v" if w: "decoded_in ?sec eb v"
      proof -
        obtain r where "r \<in> set (sec_relocs ?sec)" "rel_type r = R_MIPS_32" "rel_address r = a"
          using cut_at_pointers_cases [OF static_extent_behind(1) [OF s w] True] by blast
        then show ?thesis using static_extent_behind(2) [OF s w] by (auto simp: request_served_def pointer_at_def in_pointer_function_def st')
      qed
      then show ?thesis by (simp add: output_grows_def st')
    next
      case False
      then obtain bs old where c: "new = drop (length old) (dr_statics st' ! k)" and o: "nth_opt (dr_statics st) k = Some old"
        and b: "emit_body decode cfg (length (ctx_functions (dr_ctx st)))
          (to_header (prototype ?name) (st\<lparr>dr_ctx := add_static_function k v a rom_addr (le_words bs) (dr_ctx st)\<rparr>)) = Done st'"
        using assms x None s by (auto simp: emit_static_def Let_def and_then_Done or_undef_def split: option.splits)
      note k = emit_body_keeps [OF b]
      have "k < length (dr_statics st)" "old = dr_statics st ! k" using o by (auto simp: nth_opt_def split: if_splits)
      with requests_from k(3) c have "set (dr_statics st' ! k) \<subseteq> set (dr_statics st ! k) \<union> set new" by simp
      moreover have "declared ?name st'" using k(2) by (simp add: declared_def)
      moreover have "output_grows st st'" using k(1,2) by (auto simp: output_grows_def add_static_function_def Let_def)
      ultimately show ?thesis by (simp add: request_served_def)
    qed
  qed
  then show "output_grows st st'" "set (dr_statics st' ! k) \<subseteq> set (dr_statics st ! k) \<union> set new"
    "decoded_in ?sec eb v \<Longrightarrow> request_served k st' v" by auto
qed

section \<open>The loop\<close>

text \<open>What has been seen waits in the queue or is served, and nothing has been requested that has not been seen.\<close>

definition loop_invariant :: "nat \<Rightarrow> u32 \<Rightarrow> u32 list \<Rightarrow> u32 set \<Rightarrow> driver_state \<Rightarrow> bool" where
  "loop_invariant k eb queue seen st \<longleftrightarrow> set (dr_statics st ! k) \<subseteq> seen \<and>
     (\<forall>v \<in> seen. decoded_in (sections (dr_ctx st) ! k) eb v \<longrightarrow> v \<in> set queue \<or> request_served k st v)"

lemma static_loop_serves:
  "static_loop decode cfg k eb queue seen st = Done st' \<Longrightarrow> loop_invariant k eb queue seen st \<Longrightarrow>
    sections (dr_ctx st') = sections (dr_ctx st) \<and>
    (\<forall>v \<in> set (dr_statics st' ! k). decoded_in (sections (dr_ctx st) ! k) eb v \<longrightarrow> request_served k st' v)"
proof (induction decode cfg k eb queue seen st rule: static_loop.induct)
  case (2 decode cfg k eb v queue seen st)
  obtain new s1 where e: "emit_static decode cfg k eb (\<lambda>x. x \<in> seen) v st = Done (new, s1)"
    and r: "static_loop decode cfg k eb (queue @ fresh seen new) (seen \<union> set new) s1 = Done st'"
    using "2.prems"(1) by (auto simp: and_then_Done)
  note s = emit_static_serves [OF e]
  have secs: "sections (dr_ctx s1) = sections (dr_ctx st)" using s(1) by (simp add: output_grows_def)
  have "loop_invariant k eb (queue @ fresh seen new) (seen \<union> set new) s1"
    using "2.prems"(2) s request_served_grows [OF _ s(1)] unfolding loop_invariant_def secs by (auto simp: fresh_def)
  from "2.IH" [OF e refl r this] show ?case unfolding secs .
qed (auto simp: loop_invariant_def)

text \<open>C10: take an address that was requested in a section by the time the statics of the section have been emitted, also one requested
  on the way, and let it lie in the window of the section as the section is decoded there, which does not reach the end of the address
  space. Then the function of the address is declared in \<open>funcs.h\<close>, or a relocated pointer stands at the address, or the address is inside a
  function that begins with a relocated pointer. In the last two cases the request is dropped.\<close>

theorem section_statics_served:
  assumes "emit_section_statics decode cfg k st = Done st'" and "infer_section_encoded_vram_base (dr_ctx st) k = Done eb"
    and "k < length (sections (dr_ctx st))" and "v \<in> set (dr_statics st' ! k)" and "decoded_in (sections (dr_ctx st) ! k) eb v"
  shows "declared (static_name k v) st' \<or> pointer_at (dr_ctx st') k v \<or> in_pointer_function (dr_ctx st') k v"
proof -
  let ?sec = "sections (dr_ctx st) ! k"
  let ?ctx = "(dr_ctx st)\<lparr>sections := (sections (dr_ctx st))[k := ?sec\<lparr>sec_function_addrs := sort (sec_function_addrs ?sec)\<rparr>]\<rparr>"
  have l: "static_loop decode cfg k eb (sort (remdups (dr_statics st ! k))) (set (dr_statics st ! k)) (st\<lparr>dr_ctx := ?ctx\<rparr>) = Done st'"
    using assms(1,2) by (auto simp: emit_section_statics_def Let_def and_then_Done or_undef_def nth_opt_def split: if_splits option.splits)
  have "decoded_in (sections ?ctx ! k) eb v"
    using assms(3,5) by simp
  then show ?thesis using static_loop_serves [OF l] assms(4) by (simp add: loop_invariant_def flip: request_served_def)
qed

section \<open>An example\<close>

text \<open>A store at a misaligned place of the stack, which makes the analysis fail, and \<open>nop\<close>; the function is emitted as a stub.\<close>

definition request_decoder :: decoder where
  "request_decoder w v = (if w = 2 then (plain_instruction (Mem cpu_sw) v)\<lparr>in_rs := 29, in_imm := 1\<rparr> else plain_instruction (Sys cpu_nop) v)"

definition request_state :: driver_state where
  "request_state = start_output plain_config ''x.c''
     (context_default\<lparr>sections := [section_default\<lparr>sec_ram_addr := 64, sec_size := 8\<rparr>], section_functions := [[]],
        rom := [0, 0, 0, 2, 0, 0, 0, 0]\<rparr>) [[64]]"

definition requests_after :: "driver_state outcome \<Rightarrow> u32 list list outcome" where
  "requests_after r = and_then r (\<lambda>st. Done (dr_statics st))"

lemma request_run: "requests_after (emit_section_statics request_decoder plain_config 0 request_state) = Done [[64]]"
  by code_simp

lemma request_base: "infer_section_encoded_vram_base (dr_ctx request_state) 0 = Done 64"
  by code_simp

lemma section_statics_served_witness:
  "\<exists>st. emit_section_statics request_decoder plain_config 0 request_state = Done st \<and> request_served 0 st 64"
proof -
  obtain st where r: "emit_section_statics request_decoder plain_config 0 request_state = Done st" and s: "dr_statics st = [[64]]"
    using request_run by (auto simp: requests_after_def and_then_Done)
  have secs: "sections (dr_ctx request_state) = [section_default\<lparr>sec_ram_addr := 64, sec_size := 8\<rparr>]"
    by (simp add: request_state_def start_output_def open_output_def plain_config_def Let_def)
  have "decoded_in (sections (dr_ctx request_state) ! 0) 64 64"
    unfolding secs by (simp add: decoded_in_def section_base_for_def in_window_def)
  from section_statics_served [OF r request_base _ _ this] s secs r show ?thesis by (simp add: request_served_def)
qed

end
