(* ===== verification/Edit_Soundness.thy ===== *)
theory Edit_Soundness
  imports Driver_Edits
begin

text \<open>
  What the edits of the configuration do to the functions: patches, and references to events.
\<close>

section \<open>Patches\<close>

lemma sint_u32: "sint (x :: u32) = (if 0x80000000 \<le> x then uint x - 2 ^ 32 else uint x)"
proof -
  define u where "u = uint x"
  have u: "0 \<le> u" "u < 2 ^ 32" using unsigned_less [of x, where ?'a = int] by (simp_all add: u_def)
  have s: "sint x = (u + 2 ^ 31) mod 2 ^ 32 - 2 ^ 31"
    by (simp add: sint_uint signed_take_bit_eq_take_bit_shift take_bit_eq_mod u_def)
  have x: "0x80000000 \<le> x \<longleftrightarrow> 2 ^ 31 \<le> u" by (simp add: word_le_def u_def)
  show ?thesis
  proof (cases "2 ^ 31 \<le> u")
    case True
    then have "(u + 2 ^ 31) mod 2 ^ 32 = u - 2 ^ 31" using u mod_pos_geq [of "2 ^ 32" "u + 2 ^ 31"] by simp
    with True s x show ?thesis by (simp add: u_def)
  qed (use u s x in \<open>simp add: u_def\<close>)
qed

lemma unat_scast_u64: "unat (scast (x :: u32) :: u64) = (if 0x80000000 \<le> x then unat x + (2 ^ 64 - 2 ^ 32) else unat x)"
proof -
  have u: "0 \<le> uint x" "uint x < 2 ^ 32" using unsigned_less [of x, where ?'a = int] by simp_all
  have "uint (scast x :: u64) = sint x mod 2 ^ 64"
    unfolding scast_eq uint_word_of_int_eq by (simp add: take_bit_eq_mod)
  then have w: "unat (scast x :: u64) = nat (sint x mod 2 ^ 64)" by (simp flip: nat_uint_eq)
  have "(uint x - 2 ^ 32) mod 2 ^ 64 = uint x + (2 ^ 64 - 2 ^ 32)" if "0x80000000 \<le> x"
    using u that mod_add_self2 [of "uint x - 2 ^ 32" "2 ^ 64"] by (simp add: word_le_def)
  then show ?thesis using u w by (auto simp: sint_u32 nat_add_distrib)
qed

text \<open>C12: what a patch of the configuration does to a function that is linked at a kernel address and does not reach the end of the
  address space. A patch inside the function replaces exactly its word, one outside at a kernel address is refused; one below 0x80000000
  passes the check, and the word is written outside the function.\<close>

theorem patch_function_cases:
  assumes "0x80000000 \<le> fn_vram f" and "unat (fn_vram f) + 4 * length (fn_words f) < 2 ^ 32"
  shows "patch_function p f =
    (if ip_vram p < 0x80000000 then Undef
     else if in_function f (ip_vram p)
     then Done (f\<lparr>fn_words := (fn_words f)[unat (ip_vram p - fn_vram f) div 4 := byteswap (ip_value p)]\<rparr>)
     else Fail)"
proof -
  define a b n where "a = unat (fn_vram f)" and "b = unat (ip_vram p)" and "n = length (fn_words f)"
  have a: "2 ^ 31 \<le> a" "a + 4 * n < 2 ^ 32" using assms by (simp_all add: a_def n_def word_le_nat_alt)
  have f: "unat (scast (fn_vram f) :: u64) = a + (2 ^ 64 - 2 ^ 32)" using assms(1) by (simp add: unat_scast_u64 a_def)
  have limit: "unat ((scast (fn_vram f) :: u64) + of_nat (4 * n)) = a + (2 ^ 64 - 2 ^ 32) + 4 * n"
    using a f by (simp add: unat_word_ariths unat_of_nat)
  have end_addr: "unat (func_vram_end f) = a + 4 * n"
    using a by (simp add: func_vram_end_def a_def n_def unat_word_ariths unat_of_nat mult.commute)
  show ?thesis
  proof (cases "ip_vram p < 0x80000000")
    case True
    then have b: "b < 2 ^ 31" and v: "unat (scast (ip_vram p) :: u64) = b" by (simp_all add: b_def word_less_nat_alt unat_scast_u64 not_le)
    have "sint (fn_vram f) < 0" using assms(1) unsigned_less [of "fn_vram f", where ?'a = int] by (simp add: sint_u32)
    moreover have "\<not> 0x80000000 \<le> ip_vram p" using True by (simp only: not_le)
    then have "0 \<le> sint (ip_vram p)" by (simp add: sint_u32)
    ultimately have "\<not> sint (ip_vram p) < sint (fn_vram f)" by simp
    moreover have "\<not> (scast (fn_vram f) :: u64) + of_nat (4 * n) \<le> scast (ip_vram p)"
      using limit v a b by (simp add: word_le_nat_alt)
    ultimately have "\<not> patch_outside f (ip_vram p)" by (simp add: patch_outside_def n_def)
    moreover have "unat ((scast (ip_vram p) :: u64) - scast (fn_vram f)) = b + 2 ^ 32 - a"
      using f v a b by (simp add: unat_sub_if')
    then have "n \<le> unat (patch_index f (ip_vram p))" using a by (simp add: patch_index_def unat_div)
    ultimately show ?thesis using True by (simp add: patch_function_def Let_def n_def)
  next
    case False
    then have b: "2 ^ 31 \<le> b" "b < 2 ^ 32" and v: "unat (scast (ip_vram p) :: u64) = b + (2 ^ 64 - 2 ^ 32)"
      using unsigned_less [of "ip_vram p", where ?'a = nat] by (simp_all add: b_def word_less_nat_alt unat_scast_u64 not_less word_le_nat_alt)
    have inside: "in_function f (ip_vram p) \<longleftrightarrow> a \<le> b \<and> b < a + 4 * n"
      using end_addr by (simp add: in_function_def word_le_nat_alt word_less_nat_alt a_def b_def)
    have "sint (ip_vram p) < sint (fn_vram f) \<longleftrightarrow> b < a"
      using assms(1) False [unfolded not_less] by (simp add: sint_u32 a_def b_def flip: word_less_nat_alt word_less_def)
    moreover have "(scast (fn_vram f) :: u64) + of_nat (4 * n) \<le> scast (ip_vram p) \<longleftrightarrow> a + 4 * n \<le> b"
      using limit v by (simp add: word_le_nat_alt)
    ultimately have "patch_outside f (ip_vram p) \<longleftrightarrow> \<not> in_function f (ip_vram p)"
      unfolding inside by (auto simp: patch_outside_def n_def)
    moreover have "unat (patch_index f (ip_vram p)) = unat (ip_vram p - fn_vram f) div 4 \<and> unat (ip_vram p - fn_vram f) div 4 < n"
      if "in_function f (ip_vram p)"
    proof -
      have "a \<le> b" "b < a + 4 * n" using that inside by simp_all
      then have "unat (ip_vram p - fn_vram f) = b - a" "unat ((scast (ip_vram p) :: u64) - scast (fn_vram f)) = b - a"
        using f v by (simp_all add: unat_sub_if' a_def b_def)
      moreover have "(b - a) div 4 < n" using \<open>a \<le> b\<close> \<open>b < a + 4 * n\<close> by (simp add: div_less_iff_less_mult)
      ultimately show ?thesis by (simp add: patch_index_def unat_div)
    qed
    ultimately show ?thesis using False by (simp add: patch_function_def Let_def n_def)
  qed
qed

section \<open>Events\<close>

text \<open>A reference to a function of the event section, and what it becomes: the function's event.\<close>

definition names_event :: "nat \<Rightarrow> reloc \<Rightarrow> bool" where
  "names_event k r \<longleftrightarrow> \<not> rel_reference_symbol r \<and> unat (rel_target_section r) = k"

definition event_resolved :: "recompiler_context \<Rightarrow> nat \<Rightarrow> u32 \<Rightarrow> event_functions \<Rightarrow> reloc \<Rightarrow> reloc \<Rightarrow> bool" where
  "event_resolved ctx k section_vram events r r' \<longleftrightarrow>
     (if names_event k r
      then rel_type r = R_MIPS_26 \<and> (\<exists>e < length events.
        find_function_by_vram_section ctx (rel_target_section_offset r + section_vram) k = Some (events ! e) \<and>
        r' = r\<lparr>rel_target_section_offset := 0, rel_symbol_index := word_of_nat e, rel_target_section := SectionEvent,
               rel_reference_symbol := True\<rparr>)
      else r' = r)"

lemma event_resolved_append: "event_resolved ctx k v events r r' \<Longrightarrow> event_resolved ctx k v (events @ new) r r'"
  by (force simp: event_resolved_def nth_append)

lemma event_named_spec:
  assumes "event_named i events = (e, events')" and "distinct events"
  shows "\<exists>new. events' = events @ new \<and> distinct events' \<and> e < length events' \<and> events' ! e = i"
proof (cases "find (\<lambda>e. events ! e = i) [0..<length events]")
  case None
  then have "i \<notin> set events" by (auto simp: find_None_iff in_set_conv_nth)
  then show ?thesis using assms None by (auto simp: event_named_def)
next
  case (Some e1)
  then have "e1 < length events" "events ! e1 = i" by (auto simp: find_Some_iff)
  then show ?thesis using assms Some by (auto simp: event_named_def)
qed

lemma event_reloc_spec:
  assumes "event_reloc ctx k v r events = Done (r', events')" and "distinct events"
  shows "\<exists>new. events' = events @ new \<and> distinct events' \<and> event_resolved ctx k v events' r r'"
proof (cases "names_event k r")
  case True
  then obtain i e where i: "find_function_by_vram_section ctx (rel_target_section_offset r + v) k = Some i" "rel_type r = R_MIPS_26"
    and e: "event_named i events = (e, events')"
    and r': "r' = r\<lparr>rel_target_section_offset := 0, rel_symbol_index := word_of_nat e, rel_target_section := SectionEvent,
      rel_reference_symbol := True\<rparr>"
    using assms(1) by (auto simp: event_reloc_def names_event_def split: option.splits if_splits prod.splits)
  from event_named_spec [OF e assms(2)] i r' True show ?thesis by (auto simp: event_resolved_def)
qed (use assms in \<open>auto simp: event_reloc_def names_event_def event_resolved_def split: if_splits\<close>)

text \<open>A loop whose steps extend the list of events, and leave what they have made valid.\<close>

lemma thread_list_events:
  assumes "\<And>x events y events'. f x events = Done (y, events') \<Longrightarrow> distinct events \<Longrightarrow>
      \<exists>new. events' = events @ new \<and> distinct events' \<and> Q events' x y"
    and "\<And>events new x y. Q events x y \<Longrightarrow> Q (events @ new) x y"
  shows "thread_list f xs events = Done (ys, events') \<Longrightarrow> distinct events \<Longrightarrow>
    \<exists>new. events' = events @ new \<and> distinct events' \<and> list_all2 (Q events') xs ys"
proof (induction xs arbitrary: events ys)
  case (Cons x xs)
  then obtain y s1 zs where 1: "f x events = Done (y, s1)" "thread_list f xs s1 = Done (zs, events')" "ys = y # zs"
    by (auto simp: and_then_Done)
  obtain m1 where m1: "s1 = events @ m1" "distinct s1" "Q s1 x y" using assms(1) [OF 1(1) Cons.prems(2)] by blast
  obtain m2 where m2: "events' = s1 @ m2" "distinct events'" "list_all2 (Q events') xs zs" using Cons.IH [OF 1(2) m1(2)] by blast
  from m1(3) have "Q events' x y" unfolding m2(1) by (rule assms(2))
  with m1 m2 1(3) show ?case by simp
qed simp

definition section_resolved :: "recompiler_context \<Rightarrow> nat \<Rightarrow> u32 \<Rightarrow> event_functions \<Rightarrow> section_info \<Rightarrow> section_info \<Rightarrow> bool" where
  "section_resolved ctx k v events sec sec' \<longleftrightarrow> (\<exists>rs. sec' = sec\<lparr>sec_relocs := rs\<rparr> \<and>
     list_all2 (event_resolved ctx k v events) (sec_relocs sec) rs)"

lemma event_relocs_of_spec:
  assumes "event_relocs_of ctx k v sec events = Done (sec', events')" and "distinct events"
  shows "\<exists>new. events' = events @ new \<and> distinct events' \<and> section_resolved ctx k v events' sec sec'"
proof -
  obtain rs where "thread_list (event_reloc ctx k v) (sec_relocs sec) events = Done (rs, events')" "sec' = sec\<lparr>sec_relocs := rs\<rparr>"
    using assms(1) by (auto simp: event_relocs_of_def and_then_Done)
  with thread_list_events [where f = "event_reloc ctx k v" and Q = "event_resolved ctx k v", OF event_reloc_spec event_resolved_append] assms(2)
  show ?thesis by (force simp: section_resolved_def)
qed

lemma section_resolved_append: "section_resolved ctx k v events sec sec' \<Longrightarrow> section_resolved ctx k v (events @ new) sec sec'"
  by (auto simp: section_resolved_def intro: list_all2_mono event_resolved_append)

text \<open>C11: with exports, every reference to a function of the event section becomes a reference to that function's event, in every section,
  and nothing else changes. No function has two events: the event's number is the position of the function in the list whose names the
  driver prints.\<close>

theorem events_resolved:
  assumes "redirect_events True ctx = Done (ctx', events)" and "section_index_by_name ctx EventSectionName = Some k"
  shows "distinct events \<and> (\<exists>secs. ctx' = ctx\<lparr>sections := secs\<rparr> \<and>
    list_all2 (section_resolved ctx k (sec_ram_addr (sections ctx ! k)) events) (sections ctx) secs)"
proof -
  let ?v = "sec_ram_addr (sections ctx ! k)"
  obtain secs where t: "thread_list (event_relocs_of ctx k ?v) (sections ctx) [] = Done (secs, events)"
    and c: "ctx' = ctx\<lparr>sections := secs\<rparr>"
    using assms by (auto simp: redirect_events_def and_then_Done)
  from thread_list_events [where f = "event_relocs_of ctx k ?v" and Q = "section_resolved ctx k ?v",
      OF event_relocs_of_spec section_resolved_append t] c
  show ?thesis by auto
qed

section \<open>Examples\<close>

lemma patch_function_cases_witness:
  "patch_function \<lparr>ip_func_name = ''f'', ip_vram = 0x80000004, ip_value = 1\<rparr> (make_function 0x80000000 0 [0, 0] ''f'' 0 False False False 0) =
     Done (make_function 0x80000000 0 [0, byteswap 1] ''f'' 0 False False False 0) \<and>
   patch_function \<lparr>ip_func_name = ''f'', ip_vram = 4, ip_value = 1\<rparr> (make_function 0x80000000 0 [0, 0] ''f'' 0 False False False 0) = Undef"
  by (subst (1 2) patch_function_cases) (simp_all add: make_function_def in_function_def func_vram_end_def)

definition event_reference :: reloc where
  "event_reference = \<lparr>rel_address = 64, rel_target_section_offset = 4, rel_symbol_index = 0, rel_target_section = 1,
     rel_type = R_MIPS_26, rel_reference_symbol = False\<rparr>"

definition event_context :: recompiler_context where
  "event_context = context_default\<lparr>sections := [section_default\<lparr>sec_relocs := [event_reference, event_reference]\<rparr>,
       section_default\<lparr>sec_name := EventSectionName, sec_ram_addr := 128\<rparr>],
     ctx_functions := [make_function 132 0 [] ''on_frame'' 1 False False False 0], functions_by_vram := [132 \<mapsto> [0]]\<rparr>"

definition events_found :: "(recompiler_context \<times> event_functions) outcome \<Rightarrow> event_functions outcome" where
  "events_found r = and_then r (\<lambda>(ctx, events). Done events)"

lemma events_run: "events_found (redirect_events True event_context) = Done [0]"
  by code_simp

lemma events_resolved_witness:
  "\<exists>ctx'. redirect_events True event_context = Done (ctx', [0]) \<and>
     list_all2 (section_resolved event_context 1 128 [0]) (sections event_context) (sections ctx')"
proof -
  obtain ctx' where r: "redirect_events True event_context = Done (ctx', [0])"
    using events_run by (auto simp: events_found_def and_then_Done)
  have k: "section_index_by_name event_context EventSectionName = Some 1" by code_simp
  have v: "sec_ram_addr (sections event_context ! 1) = 128" by (simp add: event_context_def)
  from events_resolved [OF r k] r show ?thesis unfolding v by auto
qed

end
