(* ===== verification/Elf_Pairing.thy ===== *)
theory Elf_Pairing
  imports Elf_Reader Guest_Arithmetic
begin

text \<open>
  The pairing of HI16 and LO16 entries in the relocation tables of an ELF file.
\<close>

section \<open>One run\<close>

definition paired_offset :: "rel_target \<Rightarrow> u32 \<Rightarrow> u32 \<Rightarrow> u32" where
  "paired_offset t hi lo = push_bit 16 (hi AND 0xFFFF) + low_half lo + rt_symbol_offset t - rt_section_vram t"

text \<open>When the two instructions carry the halves of an address, the offset is that of the address.\<close>

lemma paired_offset_address:
  assumes "hi AND 0xFFFF = HI16 addr AND 0xFFFF" and "lo AND 0xFFFF = LO16 addr"
  shows "paired_offset t hi lo = addr + rt_symbol_offset t - rt_section_vram t"
proof -
  have m: "(0xFFFF :: u32) = mask 16" by (simp add: mask_eq_exp_minus_1)
  have p: "push_bit 16 (x AND 0xFFFF) = push_bit 16 x" for x :: u32 unfolding m by (rule bit_eqI) (auto simp: bit_simps)
  have "push_bit 16 (hi AND 0xFFFF) = push_bit 16 (HI16 addr)" unfolding assms(1) by (rule p)
  moreover have "(ucast lo :: u16) = ucast (lo AND 0xFFFF)"
    unfolding m by (rule bit_eqI) (auto simp: bit_simps)
  then have "low_half lo = scast (ucast (LO16 addr) :: u16)" by (simp add: low_half_def assms(2))
  ultimately have "push_bit 16 (hi AND 0xFFFF) + low_half lo = addr" using HI16_LO16_sum [of addr] by simp
  then show ?thesis by (simp add: paired_offset_def)
qed

lemma entry_target_symbol:
  "re_symbol e = re_symbol e' \<Longrightarrow> re_type e \<noteq> R_MIPS_32 \<Longrightarrow> re_type e' \<noteq> R_MIPS_32 \<Longrightarrow> entry_target ctx k e s = entry_target ctx k e' s"
  by (simp add: entry_target_def reference_target_def Let_def)

lemma reloc_types_distinct [simp]: "R_MIPS_HI16 \<noteq> R_MIPS_LO16" "R_MIPS_LO16 \<noteq> R_MIPS_HI16" "R_MIPS_HI16 \<noteq> R_MIPS_32" "R_MIPS_LO16 \<noteq> R_MIPS_32"
  by (simp_all add: reloc_type_defs)

text \<open>A HI16 entry.\<close>

lemma hi16_step:
  assumes "resolve_entry ctx symbols k entries h st = Done st'" and "re_type h = R_MIPS_HI16"
  obtains w s t where "rom_word_at (sections ctx ! k) (pr_rom st) (re_offset h) = Done w" and "nth_opt symbols (unat (re_symbol h)) = Some s"
    and "entry_target ctx k h s = Done t" and "pr_rom st' = pr_rom st" and "pr_hi_count st' = pr_hi_count st + 1"
    and "pr_hi_symbol st' = re_symbol h" and "pr_hi_count st \<noteq> 0 \<Longrightarrow> pr_hi_symbol st = re_symbol h"
    and "pr_hi_immediate st' = (if pr_hi_count st = 0 then w AND 0xFFFF else pr_hi_immediate st)"
    and "pr_relocs st' = pr_relocs st @ [entry_reloc h t (push_bit 16 (w AND 0xFFFF))]"
proof -
  obtain w s t where 1: "rom_word_at (sections ctx ! k) (pr_rom st) (re_offset h) = Done w" "nth_opt symbols (unat (re_symbol h)) = Some s"
    "entry_target ctx k h s = Done t" and 2: "hi16_entry h t w st = Done st'"
    using assms by (auto simp: resolve_entry_def Let_def and_then_Done or_undef_def split: option.splits)
  show ?thesis
  proof (rule that [OF 1])
  qed (use 2 in \<open>auto simp: hi16_entry_def Let_def split: if_splits\<close>)
qed

text \<open>A LO16 entry that ends a run.\<close>

lemma lo16_step:
  assumes "resolve_entry ctx symbols k entries lo st = Done st'" and "re_type lo = R_MIPS_LO16" and "pr_hi_count st \<noteq> 0"
  obtains w s t where "rom_word_at (sections ctx ! k) (pr_rom st) (re_offset lo) = Done w" and "nth_opt symbols (unat (re_symbol lo)) = Some s"
    and "entry_target ctx k lo s = Done t" and "pr_rom st' = pr_rom st" and "pr_hi_count st' = 0" and "pr_hi_symbol st = re_symbol lo"
    and "pr_relocs st' = finish_run t w (pr_hi_count st) (pr_relocs st) @
      [entry_reloc lo t (push_bit 16 (pr_hi_immediate st) + low_half w + rt_symbol_offset t - rt_section_vram t)]"
proof -
  obtain w s t where 1: "rom_word_at (sections ctx ! k) (pr_rom st) (re_offset lo) = Done w" "nth_opt symbols (unat (re_symbol lo)) = Some s"
    "entry_target ctx k lo s = Done t" and 2: "lo16_entry (sections ctx ! k) entries lo t w st = Done st'"
    using assms by (auto simp: resolve_entry_def Let_def and_then_Done or_undef_def split: option.splits)
  show ?thesis
  proof (rule that [OF 1])
  qed (use 2 assms(3) in \<open>auto simp: lo16_entry_def Let_def split: if_splits\<close>)
qed

text \<open>A sequence of HI16 entries: the state in terms of their words.\<close>

lemma hi16_run:
  assumes "fold_outcome (resolve_entry ctx symbols k entries) hs st = Done st'" and "\<forall>h \<in> set hs. re_type h = R_MIPS_HI16"
    and "pr_hi_count st \<noteq> 0 \<longrightarrow> pr_hi_symbol st = index" and "hs \<noteq> [] \<longrightarrow> re_symbol (hd hs) = index"
    and "nth_opt symbols (unat index) = Some s"
    and "\<forall>e. re_type e = R_MIPS_HI16 \<and> re_symbol e = index \<longrightarrow> entry_target ctx k e s = Done t"
  shows "\<exists>ws. list_all2 (\<lambda>h w. rom_word_at (sections ctx ! k) (pr_rom st) (re_offset h) = Done w) hs ws \<and>
    pr_rom st' = pr_rom st \<and> pr_hi_count st' = pr_hi_count st + length hs \<and>
    (pr_hi_count st' \<noteq> 0 \<longrightarrow> pr_hi_symbol st' = index) \<and> (\<forall>h \<in> set hs. re_symbol h = index) \<and>
    (hs \<noteq> [] \<longrightarrow> pr_hi_count st = 0 \<longrightarrow> pr_hi_immediate st' = hd ws AND 0xFFFF) \<and>
    (pr_hi_count st \<noteq> 0 \<longrightarrow> pr_hi_immediate st' = pr_hi_immediate st) \<and>
    pr_relocs st' = pr_relocs st @ map2 (\<lambda>h w. entry_reloc h t (push_bit 16 (w AND 0xFFFF))) hs ws"
  using assms(1-4)
proof (induction hs arbitrary: st)
  case (Cons h hs)
  then obtain s1 where e: "resolve_entry ctx symbols k entries h st = Done s1"
    and r: "fold_outcome (resolve_entry ctx symbols k entries) hs s1 = Done st'" by (auto simp: and_then_Done)
  have th: "re_type h = R_MIPS_HI16" and sh: "re_symbol h = index" using Cons.prems(2,4) by simp_all
  from e th obtain w s' t' where 1: "rom_word_at (sections ctx ! k) (pr_rom st) (re_offset h) = Done w"
    "nth_opt symbols (unat (re_symbol h)) = Some s'" "entry_target ctx k h s' = Done t'" "pr_rom s1 = pr_rom st"
    "pr_hi_count s1 = pr_hi_count st + 1" "pr_hi_symbol s1 = re_symbol h"
    "pr_hi_immediate s1 = (if pr_hi_count st = 0 then w AND 0xFFFF else pr_hi_immediate st)"
    "pr_relocs s1 = pr_relocs st @ [entry_reloc h t' (push_bit 16 (w AND 0xFFFF))]"
    by (rule hi16_step)
  have t': "t' = t" using 1(2,3) sh th assms(5,6) by simp
  have next_symbol: "re_symbol (hd hs) = index" if ne: "hs \<noteq> []"
  proof -
    obtain s2 where "resolve_entry ctx symbols k entries (hd hs) s1 = Done s2" using r ne by (cases hs) (auto simp: and_then_Done)
    moreover have "re_type (hd hs) = R_MIPS_HI16" using Cons.prems(2) ne by simp
    moreover have "pr_hi_count s1 \<noteq> 0" using 1(5) by simp
    ultimately have "pr_hi_symbol s1 = re_symbol (hd hs)" using hi16_step by metis
    then show ?thesis using 1(6) sh by simp
  qed
  have "pr_hi_symbol s1 = index" using 1(6) sh by simp
  then obtain ws where "list_all2 (\<lambda>h w. rom_word_at (sections ctx ! k) (pr_rom s1) (re_offset h) = Done w) hs ws"
    "pr_rom st' = pr_rom s1" "pr_hi_count st' = pr_hi_count s1 + length hs" "pr_hi_count st' \<noteq> 0 \<longrightarrow> pr_hi_symbol st' = index"
    "\<forall>h \<in> set hs. re_symbol h = index" "pr_hi_immediate st' = pr_hi_immediate s1"
    "pr_relocs st' = pr_relocs s1 @ map2 (\<lambda>h w. entry_reloc h t (push_bit 16 (w AND 0xFFFF))) hs ws"
    using Cons.IH [OF r] Cons.prems(2) next_symbol 1(5) by auto
  with 1 t' sh show ?case by (intro exI [of _ "w # ws"]) simp
qed simp

lemma finish_run_append:
  "length rs = n \<Longrightarrow> finish_run t w n (old @ rs) = old @ map (\<lambda>r. r\<lparr>rel_target_section_offset :=
     rel_target_section_offset r + low_half w + rt_symbol_offset t - rt_section_vram t\<rparr>) rs"
  by (simp add: finish_run_def Let_def)

text \<open>C13: a run of HI16 entries that ends with a LO16 entry is resolved together. All entries have the symbol of the LO16 entry; the offset
  of each HI16 entry is made of its own immediate and the low half, that of the LO16 entry of the first HI16 entry's immediate. So when a
  HI16 instruction and the LO16 instruction carry the halves of an address, the offset is that of the address. The image is not changed.\<close>

theorem elf_run_resolves:
  assumes "fold_outcome (resolve_entry ctx symbols k entries) (hs @ [lo]) st = Done st'" and "pr_hi_count st = 0" and "hs \<noteq> []"
    and "\<forall>h \<in> set hs. re_type h = R_MIPS_HI16" and "re_type lo = R_MIPS_LO16"
  shows "\<exists>s t w ws. nth_opt symbols (unat (re_symbol lo)) = Some s \<and> entry_target ctx k lo s = Done t \<and>
    (\<forall>h \<in> set hs. re_symbol h = re_symbol lo) \<and>
    rom_word_at (sections ctx ! k) (pr_rom st) (re_offset lo) = Done w \<and>
    list_all2 (\<lambda>h wh. rom_word_at (sections ctx ! k) (pr_rom st) (re_offset h) = Done wh) hs ws \<and>
    pr_relocs st' = pr_relocs st @ map2 (\<lambda>h wh. entry_reloc h t (paired_offset t wh w)) hs ws @ [entry_reloc lo t (paired_offset t (hd ws) w)] \<and>
    (\<forall>wh addr. wh AND 0xFFFF = HI16 addr AND 0xFFFF \<and> w AND 0xFFFF = LO16 addr \<longrightarrow>
       paired_offset t wh w = addr + rt_symbol_offset t - rt_section_vram t) \<and>
    pr_rom st' = pr_rom st \<and> pr_hi_count st' = 0"
proof -
  obtain s1 where r: "fold_outcome (resolve_entry ctx symbols k entries) hs st = Done s1"
    and l: "resolve_entry ctx symbols k entries lo s1 = Done st'"
    using assms(1) by (auto simp: fold_outcome_append and_then_Done)
  define index where "index = re_symbol (hd hs)"
  have hd: "re_type (hd hs) = R_MIPS_HI16" using assms(3,4) by simp
  obtain s0 where "resolve_entry ctx symbols k entries (hd hs) st = Done s0" using r assms(3) by (cases hs) (auto simp: and_then_Done)
  from this hd obtain s t where s: "nth_opt symbols (unat index) = Some s" and t: "entry_target ctx k (hd hs) s = Done t"
    unfolding index_def by (rule hi16_step)
  have tt: "entry_target ctx k e s = Done t" if "re_type e \<noteq> R_MIPS_32" "re_symbol e = index" for e
    using t entry_target_symbol [of e "hd hs"] that hd by (simp add: index_def)
  have "pr_hi_count st \<noteq> 0 \<longrightarrow> pr_hi_symbol st = index" "hs \<noteq> [] \<longrightarrow> re_symbol (hd hs) = index"
    using assms(2) by (simp_all add: index_def)
  moreover have "\<forall>e. re_type e = R_MIPS_HI16 \<and> re_symbol e = index \<longrightarrow> entry_target ctx k e s = Done t" using tt by simp
  moreover note s
  ultimately obtain ws where 1: "list_all2 (\<lambda>h w. rom_word_at (sections ctx ! k) (pr_rom st) (re_offset h) = Done w) hs ws"
    "pr_rom s1 = pr_rom st" "pr_hi_count s1 = length hs" "pr_hi_symbol s1 = index" "\<forall>h \<in> set hs. re_symbol h = index"
    "pr_hi_immediate s1 = hd ws AND 0xFFFF" "pr_relocs s1 = pr_relocs st @ map2 (\<lambda>h w. entry_reloc h t (push_bit 16 (w AND 0xFFFF))) hs ws"
    using hi16_run [OF r assms(4)] assms(2,3) by (metis (no_types, lifting) add_0 length_0_conv)
  have "pr_hi_count s1 \<noteq> 0" using 1(3) assms(3) by simp
  with l assms(5) obtain w s' t' where 2: "rom_word_at (sections ctx ! k) (pr_rom s1) (re_offset lo) = Done w"
    "nth_opt symbols (unat (re_symbol lo)) = Some s'" "entry_target ctx k lo s' = Done t'" "pr_rom st' = pr_rom s1" "pr_hi_count st' = 0"
    "pr_hi_symbol s1 = re_symbol lo" "pr_relocs st' = finish_run t' w (pr_hi_count s1) (pr_relocs s1) @
      [entry_reloc lo t' (push_bit 16 (pr_hi_immediate s1) + low_half w + rt_symbol_offset t' - rt_section_vram t')]"
    by (rule lo16_step)
  have index: "re_symbol lo = index" using 1(4) 2(6) by simp
  have t': "t' = t" using 2(2,3) s index tt [of lo] assms(5) by simp
  have "length (map2 (\<lambda>h w. entry_reloc h t (push_bit 16 (w AND 0xFFFF))) hs ws) = length hs" using 1(1) by (simp add: list_all2_lengthD)
  then have "pr_relocs st' = pr_relocs st @ map2 (\<lambda>h wh. entry_reloc h t (paired_offset t wh w)) hs ws @
      [entry_reloc lo t (paired_offset t (hd ws) w)]"
    unfolding 2(7) 1(7) 1(3) by (simp add: finish_run_append 1(6) t' paired_offset_def entry_reloc_def split_def)
  then show ?thesis using 1 2 index t' paired_offset_address by (intro exI [of _ s'] exI [of _ t] exI [of _ w] exI [of _ ws]) auto
qed

section \<open>Runs that are not finished\<close>

text \<open>C14: in a table that is accepted, a HI16 entry that is not the last is followed by a HI16 or a LO16 entry of the same symbol.\<close>

theorem broken_run_refused:
  assumes "parse_section_relocs ctx symbols k entries = Done ctx'" and "i + 1 < length entries" and "re_type (entries ! i) = R_MIPS_HI16"
  shows "re_type (entries ! (i + 1)) \<in> {R_MIPS_HI16, R_MIPS_LO16} \<and> re_symbol (entries ! (i + 1)) = re_symbol (entries ! i)"
proof -
  let ?e = "entries ! i" and ?e' = "entries ! (i + 1)" and ?step = "resolve_entry ctx symbols k entries"
  have split: "entries = take i entries @ ?e # ?e' # drop (i + 2) entries"
    using assms(2) by (simp add: Cons_nth_drop_Suc)
  obtain st init where "fold_outcome ?step entries init = Done st"
    using assms(1) by (auto simp: parse_section_relocs_def Let_def and_then_Done)
  then obtain s0 s1 s2 where 1: "?step ?e s0 = Done s1" and 2: "?step ?e' s1 = Done s2"
    by (subst (asm) (2) split) (auto simp: fold_outcome_append and_then_Done)
  have n: "pr_hi_count s1 \<noteq> 0" and s: "pr_hi_symbol s1 = re_symbol ?e" using 1 assms(3) by (auto elim: hi16_step)
  consider "re_type ?e' = R_MIPS_HI16" | "re_type ?e' = R_MIPS_LO16" | "re_type ?e' \<notin> {R_MIPS_HI16, R_MIPS_LO16}" by blast
  then show ?thesis
  proof cases
    case 3
    then show ?thesis using 2 n by (auto simp: resolve_entry_def other_entry_def Let_def and_then_Done)
  qed (use 2 n s in \<open>auto elim: hi16_step lo16_step\<close>)
qed

section \<open>An example\<close>

text \<open>\<open>lui $a0, 1; addiu $a0, $a0, 0x14\<close>, with a symbol of the section itself, which is linked at 0x40.\<close>

definition pair_entries :: "rel_entry list" where
  "pair_entries = [\<lparr>re_offset = 0x40, re_symbol = 0, re_type = R_MIPS_HI16\<rparr>, \<lparr>re_offset = 0x44, re_symbol = 0, re_type = R_MIPS_LO16\<rparr>]"

definition pair_symbols :: "elf_symbol list" where
  "pair_symbols = [\<lparr>sy_name = '''', sy_value = 0x40, sy_size = 0, sy_bind = 0, sy_type = 3, sy_section_index = 1, sy_other = 0\<rparr>]"

definition pair_context :: recompiler_context where
  "pair_context = context_default\<lparr>sections := [section_default, section_default\<lparr>sec_ram_addr := 0x40, sec_size := 8\<rparr>],
     rom := [0x3C, 0x04, 0, 1, 0x24, 0x84, 0, 0x14]\<rparr>"

definition pair_start :: pairing where
  "pair_start = \<lparr>pr_rom = rom pair_context, pr_relocs = [], pr_hi_count = 0, pr_hi_immediate = 0, pr_hi_symbol = -1\<rparr>"

definition target_offsets :: "reloc list outcome \<Rightarrow> u32 list outcome" where
  "target_offsets r = and_then r (\<lambda>rs. Done (map rel_target_section_offset rs))"

lemma pair_run: "target_offsets (and_then (fold_outcome (resolve_entry pair_context pair_symbols 1 pair_entries) pair_entries pair_start)
    (\<lambda>st. Done (pr_relocs st))) = Done [0xFFD4, 0xFFD4]"
  by code_simp

lemma pair_parsed: "target_offsets (and_then (parse_section_relocs pair_context pair_symbols 1 pair_entries)
    (\<lambda>ctx. Done (sec_relocs (sections ctx ! 1)))) = Done [0xFFD4, 0xFFD4]"
  by code_simp

lemma elf_run_resolves_witness:
  "\<exists>st'. fold_outcome (resolve_entry pair_context pair_symbols 1 pair_entries) pair_entries pair_start = Done st' \<and>
     pr_rom st' = rom pair_context \<and> pr_hi_count st' = 0 \<and> length (pr_relocs st') = 2"
proof -
  obtain st' where r: "fold_outcome (resolve_entry pair_context pair_symbols 1 pair_entries) pair_entries pair_start = Done st'"
    and l: "map rel_target_section_offset (pr_relocs st') = [0xFFD4, 0xFFD4]"
    using pair_run by (auto simp: target_offsets_def and_then_Done)
  have e: "pair_entries = [hd pair_entries] @ [last pair_entries]" by (simp add: pair_entries_def)
  have t: "\<forall>h \<in> set [hd pair_entries]. re_type h = R_MIPS_HI16" "re_type (last pair_entries) = R_MIPS_LO16" by (simp_all add: pair_entries_def)
  have "fold_outcome (resolve_entry pair_context pair_symbols 1 pair_entries) ([hd pair_entries] @ [last pair_entries]) pair_start = Done st'"
    using r by (simp only: e [symmetric])
  then have "pr_rom st' = pr_rom pair_start \<and> pr_hi_count st' = 0"
    using elf_run_resolves [OF _ _ _ t, of pair_context pair_symbols 1 pair_entries pair_start st'] by (auto simp: pair_start_def)
  with r arg_cong [OF l, of length] show ?thesis by (auto simp: pair_start_def)
qed

lemma broken_run_refused_witness:
  "\<exists>ctx'. parse_section_relocs pair_context pair_symbols 1 pair_entries = Done ctx' \<and> re_symbol (pair_entries ! 1) = re_symbol (pair_entries ! 0)"
proof -
  obtain ctx' where r: "parse_section_relocs pair_context pair_symbols 1 pair_entries = Done ctx'"
    using pair_parsed by (auto simp: target_offsets_def and_then_Done)
  have "0 + 1 < length pair_entries" "re_type (pair_entries ! 0) = R_MIPS_HI16" by (simp_all add: pair_entries_def)
  from broken_run_refused [OF r this] r show ?thesis by simp
qed

end
