(* ===== verification/Symbol_Files.thy ===== *)
theory Symbol_Files
  imports Fragment_Synthesis Function_Bounds
begin

text \<open>
  \<open>src/config.cpp\<close>: a context from a symbol file, the three passes that correct the functions of the file from the bytes of the ROM,
  and references to the symbols of another program. Parsing TOML is the part of a library; a file is given as its values, as the accessors
  of the library return them: a field that is missing or of another type is \<open>None\<close>, and so is an element of an array that is no table.

  \<^item> \<open>Fail\<close> is \<open>false\<close> returned, the message left out; \<open>Undef\<close> is an access outside the ROM, through a null pointer or through a reference
    that is no longer valid. A section whose bytes are handed to \<open>discover_function_bounds\<close> must lie in the ROM as a whole.
  \<^item> Sums of a 32-bit address and a \<open>sizeof\<close> are 64 bits wide and are sums of natural numbers; sums of two 32-bit values wrap.
  \<^item> \<open>std::sort\<close> leaves the order of functions at one address open; here it is that of the section.
\<close>

section \<open>Instructions\<close>

definition instruction_has_delay_slot :: "u32 \<Rightarrow> bool" where
  "instruction_has_delay_slot instr_word =
     (let op = drop_bit 26 instr_word AND 0x3F
      in if op = 2 \<or> op = 3 then True
         else if (op \<ge> 4 \<and> op \<le> 7) \<or> (op \<ge> 0x14 \<and> op \<le> 0x17) then True
         else if op = 1 then
           (let rt = drop_bit 16 instr_word AND 0x1F
            in rt = 0 \<or> rt = 1 \<or> rt = 2 \<or> rt = 3 \<or> rt = 16 \<or> rt = 17 \<or> rt = 18 \<or> rt = 19)
         else if op = 0 then (let funct = instr_word AND 0x3F in funct = 8 \<or> funct = 9)
         else if op = 0x11 then drop_bit 21 instr_word AND 0x1F = 8
         else False)"

definition is_jr_ra :: "u32 \<Rightarrow> bool" where
  "is_jr_ra instr_word \<longleftrightarrow> instr_word = 0x03E00008"

definition is_lw_ra_from_sp :: "u32 \<Rightarrow> bool" where
  "is_lw_ra_from_sp instr_word \<longleftrightarrow> drop_bit 26 instr_word AND 0x3F = 0x23 \<and> drop_bit 21 instr_word AND 0x1F = 29 \<and>
     drop_bit 16 instr_word AND 0x1F = 31"

definition is_addiu_sp_sp_positive :: "u32 \<Rightarrow> bool" where
  "is_addiu_sp_sp_positive instr_word \<longleftrightarrow> drop_bit 26 instr_word AND 0x3F = 0x09 \<and> drop_bit 21 instr_word AND 0x1F = 29 \<and>
     drop_bit 16 instr_word AND 0x1F = 29 \<and> (instr_word AND 0xFFFF) AND 0x8000 = 0 \<and> instr_word AND 0xFFFF \<noteq> 0"

text \<open>The instruction at an address of a section; \<open>None\<close> is \<open>false\<close>. The raw word is its \<open>byteswap\<close>.\<close>

definition read_symbol_section_word :: "bytes \<Rightarrow> section_info \<Rightarrow> u32 \<Rightarrow> u32 option" where
  "read_symbol_section_word img sec instr_vram =
     (if instr_vram < sec_ram_addr sec \<or> unat (sec_ram_addr sec + sec_size sec) < unat instr_vram + 4 then None
      else read_be_u32 img (unat (sec_rom_addr sec + (instr_vram - sec_ram_addr sec))))"

definition is_symbol_delay_slot :: "bytes \<Rightarrow> section_info \<Rightarrow> u32 \<Rightarrow> bool" where
  "is_symbol_delay_slot img sec instr_vram \<longleftrightarrow>
     \<not> unat instr_vram < unat (sec_ram_addr sec) + 4 \<and>
     (case read_symbol_section_word img sec (instr_vram - 4) of
        None \<Rightarrow> False | Some prev_instr \<Rightarrow> instruction_has_delay_slot prev_instr)"

definition func_end_of :: "recomp_function \<Rightarrow> u32" where
  "func_end_of f = fn_vram f + word_of_nat (4 * length (fn_words f))"

section \<open>Functions that end too early\<close>

text \<open>The lambda \<open>append_word\<close> in a chain of \<open>&&\<close>: words appended before one that fails stay.\<close>

fun append_words :: "bytes \<Rightarrow> section_info \<Rightarrow> u32 list \<Rightarrow> u32 list \<Rightarrow> bool \<times> u32 list" where
  "append_words img sec [] ws = (True, ws)"
| "append_words img sec (v # vs) ws =
     (case read_symbol_section_word img sec v of
        None \<Rightarrow> (False, ws)
      | Some w \<Rightarrow> append_words img sec vs (ws @ [byteswap w]))"

definition next_function_start :: "recompiler_context \<Rightarrow> nat \<Rightarrow> nat \<Rightarrow> u32" where
  "next_function_start ctx k i =
     foldl (\<lambda>b j. let other = ctx_functions ctx ! j
         in if j \<noteq> i \<and> fn_words other \<noteq> [] \<and> fn_vram (ctx_functions ctx ! i) < fn_vram other \<and> fn_vram other < b
            then fn_vram other else b)
       (sec_ram_addr (sections ctx ! k) + sec_size (sections ctx ! k)) (section_functions ctx ! k)"

definition reads_as :: "bytes \<Rightarrow> section_info \<Rightarrow> u32 \<Rightarrow> (u32 \<Rightarrow> bool) \<Rightarrow> bool" where
  "reads_as img sec v P \<longleftrightarrow> (case read_symbol_section_word img sec v of None \<Rightarrow> False | Some w \<Rightarrow> P w)"

definition extend_function :: "bytes \<Rightarrow> section_info \<Rightarrow> u32 \<Rightarrow> recomp_function \<Rightarrow> recomp_function" where
  "extend_function img sec next_boundary f =
     (let e = func_end_of f; last_instr = byteswap (last (fn_words f));
          (done1, ws1) =
            (if unat e + 12 \<le> unat next_boundary \<and> is_lw_ra_from_sp last_instr \<and>
                reads_as img sec e is_addiu_sp_sp_positive \<and> reads_as img sec (e + 4) is_jr_ra
             then append_words img sec [e, e + 4, e + 8] (fn_words f) else (False, fn_words f));
          (done2, ws2) =
            (if done1 then (True, ws1)
             else if unat e + 8 \<le> unat next_boundary \<and> reads_as img sec e is_jr_ra
             then append_words img sec [e, e + 4] ws1 else (False, ws1));
          ws3 =
            (if done2 then ws2
             else if unat e + 4 \<le> unat next_boundary \<and> instruction_has_delay_slot last_instr
             then snd (append_words img sec [e] ws2) else ws2)
      in f\<lparr>fn_words := ws3\<rparr>)"

definition repair_truncated_function :: "bytes \<Rightarrow> nat \<Rightarrow> nat \<Rightarrow> recompiler_context \<Rightarrow> recompiler_context" where
  "repair_truncated_function img k i ctx =
     (let f = ctx_functions ctx ! i
      in if fn_words f = [] then ctx
         else ctx\<lparr>ctx_functions := (ctx_functions ctx)[i := extend_function img (sections ctx ! k) (next_function_start ctx k i) f]\<rparr>)"

definition repair_truncated_section :: "bytes \<Rightarrow> nat \<Rightarrow> recompiler_context \<Rightarrow> recompiler_context" where
  "repair_truncated_section img k ctx =
     (if \<not> sec_executable (sections ctx ! k) then ctx
      else fold (repair_truncated_function img k) (section_functions ctx ! k) ctx)"

definition repair_truncated_symbol_function_ranges :: "bytes \<Rightarrow> recompiler_context \<Rightarrow> recompiler_context" where
  "repair_truncated_symbol_function_ranges img ctx =
     (if img = [] then ctx else fold (repair_truncated_section img) [0..<length (sections ctx)] ctx)"

section \<open>Functions that start too late\<close>

definition section_body :: "bytes \<Rightarrow> section_info \<Rightarrow> bytes outcome" where
  "section_body img sec = copy_from img (unat (sec_rom_addr sec)) (unat (sec_size sec))"

text \<open>\<open>discover_function_bounds\<close> on the bytes of a section; \<open>None\<close> is \<open>false\<close>.\<close>

definition discover_in_section :: "decoder \<Rightarrow> bytes \<Rightarrow> section_info \<Rightarrow> u32 \<Rightarrow> nat option outcome" where
  "discover_in_section decode img sec v =
     and_then (section_body img sec) (\<lambda>body.
       Done (case discover_function_bounds decode body (sec_ram_addr sec) (v - sec_ram_addr sec) of
          Refused e \<Rightarrow> None | Accepted discovered_size \<Rightarrow> Some discovered_size))"

definition outside_rom :: "bytes \<Rightarrow> section_info \<Rightarrow> bool" where
  "outside_rom img sec \<longleftrightarrow> length img < unat (sec_rom_addr sec + sec_size sec)"

definition rom_words :: "bytes \<Rightarrow> u32 \<Rightarrow> nat \<Rightarrow> u32 list outcome" where
  "rom_words img rom_addr n = and_then (copy_from img (unat rom_addr) n) (\<lambda>bs. Done (le_words bs))"

definition erase_index :: "nat \<Rightarrow> u32 \<Rightarrow> (u32 \<rightharpoonup> nat list) \<Rightarrow> (u32 \<rightharpoonup> nat list)" where
  "erase_index i v m =
     (case m v of
        None \<Rightarrow> m
      | Some indices \<Rightarrow> (let rest = removeAll i indices in m(v := if rest = [] then None else Some rest)))"

fun replace_first :: "'a \<Rightarrow> 'a \<Rightarrow> 'a list \<Rightarrow> 'a list" where
  "replace_first old new [] = [new]"
| "replace_first old new (x # xs) = (if x = old then new # xs else x # replace_first old new xs)"

definition remap_function_vram :: "nat \<Rightarrow> nat \<Rightarrow> u32 \<Rightarrow> u32 \<Rightarrow> recompiler_context \<Rightarrow> recompiler_context" where
  "remap_function_vram k function_index old_vram new_vram ctx = ctx\<lparr>
     functions_by_vram := push_vram new_vram function_index (erase_index function_index old_vram (functions_by_vram ctx)),
     sections := (sections ctx)[k := (sections ctx ! k)
       \<lparr>sec_function_addrs := replace_first old_vram new_vram (sec_function_addrs (sections ctx ! k))\<rparr>]\<rparr>"

text \<open>The loop over the gap before a function: the new start and its size, or nothing.\<close>

fun find_prefix ::
    "decoder \<Rightarrow> bytes \<Rightarrow> section_info \<Rightarrow> (u32 \<rightharpoonup> nat list) \<Rightarrow> u32 \<Rightarrow> u32 \<Rightarrow> u32 list \<Rightarrow> (u32 \<times> nat) option outcome" where
  "find_prefix decode img sec by_vram old_start old_end [] = Done None"
| "find_prefix decode img sec by_vram old_start old_end (p # ps) =
     (let continue = find_prefix decode img sec by_vram old_start old_end ps
      in case read_symbol_section_word img sec p of
        None \<Rightarrow> Done None
      | Some instr_word \<Rightarrow>
          if instr_word = 0 \<or> by_vram p \<noteq> None \<or> is_symbol_delay_slot img sec p then continue
          else and_then (discover_in_section decode img sec p) (\<lambda>discovered.
            case discovered of
              None \<Rightarrow> continue
            | Some n \<Rightarrow>
                if n mod 4 \<noteq> 0 then continue
                else if unat p + n \<le> unat old_start then Done None
                else if n \<le> unat (old_start - p) \<or> unat p + n \<noteq> unat old_end then continue
                else Done (Some (p, n))))"

definition prefix_starts :: "u32 \<Rightarrow> u32 \<Rightarrow> u32 list" where
  "prefix_starts prev_end old_start = map (\<lambda>j. prev_end + word_of_nat (4 * j)) [0..<unat (old_start - prev_end) div 4]"

definition move_function :: "bytes \<Rightarrow> nat \<Rightarrow> nat \<Rightarrow> u32 \<Rightarrow> nat \<Rightarrow> recompiler_context \<Rightarrow> recompiler_context outcome" where
  "move_function img k i p n ctx =
     (let sec = sections ctx ! k; f = ctx_functions ctx ! i; new_rom = sec_rom_addr sec + (p - sec_ram_addr sec)
      in and_then (rom_words img new_rom n) (\<lambda>repaired_words.
         let g = f\<lparr>fn_vram := p, fn_rom := new_rom, fn_entry_vram := (if fn_entry_vram f = fn_vram f then p else fn_entry_vram f),
               fn_words := repaired_words\<rparr>
         in Done (remap_function_vram k i (fn_vram f) p (ctx\<lparr>ctx_functions := (ctx_functions ctx)[i := g]\<rparr>))))"

definition repair_late_start :: "decoder \<Rightarrow> bytes \<Rightarrow> nat \<Rightarrow> nat \<times> nat \<Rightarrow> recompiler_context \<Rightarrow> recompiler_context outcome" where
  "repair_late_start decode img k pc ctx =
     (let sec = sections ctx ! k; prev_func = ctx_functions ctx ! fst pc; cur_func = ctx_functions ctx ! snd pc;
          prev_end = func_end_of prev_func; old_start = fn_vram cur_func; old_end = func_end_of cur_func
      in if fn_words prev_func = [] \<or> fn_words cur_func = [] \<or> fn_vram cur_func \<le> fn_vram prev_func then Done ctx
         else if old_start \<le> prev_end \<or> 0x40 < old_start - prev_end then Done ctx
         else and_then (find_prefix decode img sec (functions_by_vram ctx) old_start old_end (prefix_starts prev_end old_start)) (\<lambda>r.
           case r of None \<Rightarrow> Done ctx | Some (p, n) \<Rightarrow> move_function img k (snd pc) p n ctx))"

text \<open>The neighbours in the list of the functions of a section, sorted by address before the loop.\<close>

definition neighbours :: "recompiler_context \<Rightarrow> nat \<Rightarrow> (nat \<times> nat) list" where
  "neighbours ctx k =
     (let sorted_funcs = sort_key (\<lambda>i. fn_vram (ctx_functions ctx ! i)) (section_functions ctx ! k)
      in zip sorted_funcs (tl sorted_funcs))"

definition repair_late_section :: "decoder \<Rightarrow> bytes \<Rightarrow> nat \<Rightarrow> recompiler_context \<Rightarrow> recompiler_context outcome" where
  "repair_late_section decode img k ctx =
     (if \<not> sec_executable (sections ctx ! k) \<or> outside_rom img (sections ctx ! k) then Done ctx
      else fold_outcome (repair_late_start decode img k) (neighbours ctx k) ctx)"

definition repair_late_symbol_function_starts :: "decoder \<Rightarrow> bytes \<Rightarrow> recompiler_context \<Rightarrow> recompiler_context outcome" where
  "repair_late_symbol_function_starts decode img ctx =
     (if img = [] then Done ctx else fold_outcome (repair_late_section decode img) [0..<length (sections ctx)] ctx)"

section \<open>Functions the file leaves out\<close>

definition rom_contains_be32 :: "bytes \<Rightarrow> u32 \<Rightarrow> bool" where
  "rom_contains_be32 img v \<longleftrightarrow> list_ex (\<lambda>i. read_be_u32 img i = Some v) [0..<length img]"

definition has_return :: "bytes \<Rightarrow> section_info \<Rightarrow> u32 \<Rightarrow> nat \<Rightarrow> bool" where
  "has_return img sec v n \<longleftrightarrow> list_ex (\<lambda>off. reads_as img sec (v + word_of_nat off) is_jr_ra) (word_offsets 0 (n - 3))"

text \<open>\<open>next_ref\<close> is a reference into the vector of functions, read after functions may have been added to it. Whether adding to a vector of
  a given size moves it is up to the library and a parameter; reading the reference then is \<open>Undef\<close>.\<close>

record gap_state =
  gs_ctx :: recompiler_context
  gs_stale :: bool

text \<open>The size of the function to make at a place of the gap, if any.\<close>

definition gap_function_size ::
    "decoder \<Rightarrow> bytes \<Rightarrow> nat \<Rightarrow> nat \<Rightarrow> u32 \<Rightarrow> u32 \<Rightarrow> u32 \<Rightarrow> gap_state \<Rightarrow> nat option outcome" where
  "gap_function_size decode img k next_index gap_end instr_word v st =
     (let ctx = gs_ctx st; sec = sections ctx ! k
      in if instr_word = 0 \<or> functions_by_vram ctx v \<noteq> None then Done None
         else and_then (discover_in_section decode img sec v) (\<lambda>discovered.
           case discovered of
             None \<Rightarrow> Done None
           | Some n \<Rightarrow>
               if gs_stale st then Undef
               else let next_end = func_end_of (ctx_functions ctx ! next_index);
                   overlaps_next_entry = (unat gap_end < unat v + n \<and> unat v + n = unat next_end \<and> rom_contains_be32 img v)
                 in if n < 8 \<or> unat gap_end < unat v + n \<and> \<not> overlaps_next_entry \<or> n mod 4 \<noteq> 0 then Done None
                    else if has_return img sec v n then Done (Some n) else Done None))"

text \<open>A function of the \<open>k\<close>-th section, for the list of functions at \<open>si\<close>.\<close>

definition push_section_function :: "nat \<Rightarrow> nat \<Rightarrow> recomp_function \<Rightarrow> recompiler_context \<Rightarrow> recompiler_context outcome" where
  "push_section_function k si f ctx =
     (let i = length (ctx_functions ctx)
      in if length (section_functions ctx) \<le> si then Undef
         else Done (ctx\<lparr>
           sections := (sections ctx)[k := (sections ctx ! k)\<lparr>sec_function_addrs := sec_function_addrs (sections ctx ! k) @ [fn_vram f]\<rparr>],
           functions_by_name := assign (fn_name f) i (functions_by_name ctx),
           functions_by_vram := push_vram (fn_vram f) i (functions_by_vram ctx),
           section_functions := (section_functions ctx)[si := section_functions ctx ! si @ [i]],
           ctx_functions := ctx_functions ctx @ [f]\<rparr>))"

definition add_gap_function :: "(nat \<Rightarrow> bool) \<Rightarrow> bytes \<Rightarrow> nat \<Rightarrow> u32 \<Rightarrow> nat \<Rightarrow> gap_state \<Rightarrow> gap_state outcome" where
  "add_gap_function reallocates img k v n st =
     (let ctx = gs_ctx st; sec = sections ctx ! k; f_rom = sec_rom_addr sec + (v - sec_ram_addr sec)
      in and_then (rom_words img f_rom n) (\<lambda>ws.
         let f = function_default\<lparr>fn_name := ''func_'' @ fmt_08X v, fn_vram := v, fn_rom := f_rom,
               fn_section_index := word_of_nat k, fn_words := ws\<rparr>
         in and_then (push_section_function k k f ctx) (\<lambda>ctx'.
           Done \<lparr>gs_ctx = ctx', gs_stale = (gs_stale st \<or> reallocates (length (ctx_functions ctx)))\<rparr>)))"

lemma gap_function_size_Some:
  assumes "gap_function_size decode img k nx gap_end w v st = Done (Some n)"
  shows "discover_in_section decode img (sections (gs_ctx st) ! k) v = Done (Some n)" and "functions_by_vram (gs_ctx st) v = None"
    and "8 \<le> n" and "n mod 4 = 0" and "\<not> gs_stale st"
    and "unat v + n \<le> unat gap_end \<or> unat v + n = unat (func_end_of (ctx_functions (gs_ctx st) ! nx)) \<and> rom_contains_be32 img v"
proof -
  have new: "\<not> (w = 0 \<or> functions_by_vram (gs_ctx st) v \<noteq> None)"
    using assms unfolding gap_function_size_def Let_def by (metis option.distinct(1) outcome.inject)
  then obtain r where r: "discover_in_section decode img (sections (gs_ctx st) ! k) v = Done r"
    and g: "gap_function_size decode img k nx gap_end w v st = Done (Some n)"
    using assms by (cases "discover_in_section decode img (sections (gs_ctx st) ! k) v") (auto simp: gap_function_size_def Let_def)
  then obtain m where m: "r = Some m" using new by (cases r) (auto simp: gap_function_size_def Let_def)
  have all: "\<not> gs_stale st \<and> m = n \<and> 8 \<le> n \<and> n mod 4 = 0 \<and>
      (unat v + n \<le> unat gap_end \<or> unat v + n = unat (func_end_of (ctx_functions (gs_ctx st) ! nx)) \<and> rom_contains_be32 img v)"
    using g new by (auto simp: gap_function_size_def Let_def r m not_less split: if_splits)
  show "discover_in_section decode img (sections (gs_ctx st) ! k) v = Done (Some n)" "functions_by_vram (gs_ctx st) v = None"
    "8 \<le> n" "n mod 4 = 0" "\<not> gs_stale st"
    "unat v + n \<le> unat gap_end \<or> unat v + n = unat (func_end_of (ctx_functions (gs_ctx st) ! nx)) \<and> rom_contains_be32 img v"
    using all r m new by auto
qed

lemma unat_bound: "unat (w :: u32) < 2 ^ 32"
  using unsigned_less [of w, where ?'a = nat] by simp

lemma unat_add_small: "unat (v :: u32) + n < 2 ^ 32 \<Longrightarrow> unat (v + word_of_nat n) = unat v + n"
  by (simp add: unat_word_ariths unsigned_of_nat take_bit_eq_mod mod_add_right_eq)

function scan_gap ::
    "decoder \<Rightarrow> (nat \<Rightarrow> bool) \<Rightarrow> bytes \<Rightarrow> nat \<Rightarrow> nat \<Rightarrow> u32 \<Rightarrow> u32 \<Rightarrow> gap_state \<Rightarrow> gap_state outcome" where
  "scan_gap decode reallocates img k next_index gap_end v st =
     (if unat gap_end < unat v + 8 then Done st
      else case read_symbol_section_word img (sections (gs_ctx st) ! k) v of
        None \<Rightarrow> Done st
      | Some instr_word \<Rightarrow>
          (case gap_function_size decode img k next_index gap_end instr_word v st of
             Fail \<Rightarrow> Fail
           | Undef \<Rightarrow> Undef
           | Done None \<Rightarrow> scan_gap decode reallocates img k next_index gap_end (v + 4) st
           | Done (Some n) \<Rightarrow>
               (case add_gap_function reallocates img k v n st of
                  Fail \<Rightarrow> Fail
                | Undef \<Rightarrow> Undef
                | Done st' \<Rightarrow> scan_gap decode reallocates img k next_index gap_end (v + word_of_nat n) st')))"
  by pat_completeness auto
termination
proof (relation "measure (\<lambda>(decode, reallocates, img, k, next_index, gap_end, v, st). 2 ^ 32 - unat v)", goal_cases)
  case (2 decode reallocates img k next_index gap_end v st)
  then have "unat (v + 4) = unat v + 4" using unat_bound [of gap_end] unat_add_small [of v 4] by simp
  then show ?case using 2 unat_bound [of gap_end] by simp
next
  case (3 decode reallocates img k next_index gap_end v st w r n st')
  note n = gap_function_size_Some(3,6) [OF 3(3)[unfolded 3(4) 3(5)]]
  have "unat v + n < 2 ^ 32"
    using n unat_bound [of gap_end] unat_bound [of "func_end_of (ctx_functions (gs_ctx st) ! next_index)"] by auto
  then show ?case using unat_add_small [of v n] n(1) by simp
qed simp

declare scan_gap.simps [simp del]

definition synthesize_gap :: "decoder \<Rightarrow> (nat \<Rightarrow> bool) \<Rightarrow> bytes \<Rightarrow> nat \<Rightarrow> nat \<times> nat \<Rightarrow> recompiler_context \<Rightarrow> recompiler_context outcome" where
  "synthesize_gap decode reallocates img k pn ctx =
     (let prev_ref = ctx_functions ctx ! fst pn; next_ref = ctx_functions ctx ! snd pn; v = func_end_of prev_ref; gap_end = fn_vram next_ref
      in if fn_words prev_ref = [] \<or> fn_words next_ref = [] \<or> fn_vram next_ref \<le> fn_vram prev_ref then Done ctx
         else if gap_end \<le> v \<or> 0x400 < gap_end - v then Done ctx
         else and_then (scan_gap decode reallocates img k (snd pn) gap_end v \<lparr>gs_ctx = ctx, gs_stale = False\<rparr>) (\<lambda>st. Done (gs_ctx st)))"

definition synthesize_section_gaps :: "decoder \<Rightarrow> (nat \<Rightarrow> bool) \<Rightarrow> bytes \<Rightarrow> nat \<Rightarrow> recompiler_context \<Rightarrow> recompiler_context outcome" where
  "synthesize_section_gaps decode reallocates img k ctx =
     (if \<not> sec_executable (sections ctx ! k) \<or> outside_rom img (sections ctx ! k) then Done ctx
      else fold_outcome (synthesize_gap decode reallocates img k) (neighbours ctx k) ctx)"

definition synthesize_small_symbol_gap_functions ::
    "decoder \<Rightarrow> (nat \<Rightarrow> bool) \<Rightarrow> bytes \<Rightarrow> recompiler_context \<Rightarrow> recompiler_context outcome" where
  "synthesize_small_symbol_gap_functions decode reallocates img ctx =
     (if img = [] then Done ctx
      else fold_outcome (synthesize_section_gaps decode reallocates img) [0..<length (sections ctx)] ctx)"

section \<open>The file\<close>

datatype 'a toml_value = Toml_missing | Toml_other | Toml_array "'a option list"

record symbol_function_entry =
  yf_name :: "string option"
  yf_vram :: "u32 option"
  yf_size :: "u32 option"

record symbol_reloc_entry =
  yr_vram :: "u32 option"
  yr_target_vram :: "u32 option"
  yr_type :: "string option"

record symbol_section_entry =
  ys_rom :: "u32 option"
  ys_vram :: "u32 option"
  ys_size :: "u32 option"
  ys_name :: "string option"
  ys_got_address :: "u32 option"
  ys_functions :: "symbol_function_entry toml_value"
  ys_relocs :: "symbol_reloc_entry toml_value"

definition reloc_type_name_map :: "(string \<times> reloc_type) list" where
  "reloc_type_name_map =
     [(''R_MIPS_NONE'', R_MIPS_NONE),
      (''R_MIPS_16'', R_MIPS_16),
      (''R_MIPS_32'', R_MIPS_32),
      (''R_MIPS_REL32'', R_MIPS_REL32),
      (''R_MIPS_26'', R_MIPS_26),
      (''R_MIPS_HI16'', R_MIPS_HI16),
      (''R_MIPS_LO16'', R_MIPS_LO16),
      (''R_MIPS_GPREL16'', R_MIPS_GPREL16)]"

definition reloc_type_from_name :: "string \<Rightarrow> reloc_type" where
  "reloc_type_from_name reloc_type_name =
     (case map_of reloc_type_name_map reloc_type_name of None \<Rightarrow> R_MIPS_NONE | Some t \<Rightarrow> t)"

text \<open>The words of a function: as many as begin before its end, which is computed in 32 bits.\<close>

definition function_words :: "bytes \<Rightarrow> u32 \<Rightarrow> u32 \<Rightarrow> u32 list outcome" where
  "function_words img f_rom func_size =
     (if img = [] then Done []
      else if length img < unat (f_rom + func_size) then Fail
      else rom_words img f_rom (4 * ((unat (f_rom + func_size) - unat f_rom + 3) div 4)))"

definition read_symbol_function ::
    "bytes \<Rightarrow> nat \<Rightarrow> symbol_function_entry option \<Rightarrow> recompiler_context \<Rightarrow> recompiler_context outcome" where
  "read_symbol_function img k entry ctx =
     (let sec = sections ctx ! k; section_index = (word_of_nat k :: u16)
      in case entry of
           None \<Rightarrow> Fail
         | Some e \<Rightarrow>
      and_then (or_fail (yf_name e)) (\<lambda>name.
      and_then (or_fail (yf_vram e)) (\<lambda>vram_addr.
      and_then (or_fail (yf_size e)) (\<lambda>func_size.
      let f_rom = vram_addr - sec_ram_addr sec + sec_rom_addr sec
      in if vram_addr AND 3 \<noteq> 0 then Fail
         else if f_rom AND 3 \<noteq> 0 then Fail
         else and_then (function_words img f_rom func_size) (\<lambda>ws.
           push_section_function k (unat section_index)
             (function_default\<lparr>fn_name := name, fn_vram := vram_addr, fn_rom := f_rom, fn_section_index := section_index,
                fn_words := ws\<rparr>) ctx)))))"

definition read_symbol_reloc :: "nat \<Rightarrow> symbol_reloc_entry option \<Rightarrow> recompiler_context \<Rightarrow> recompiler_context outcome" where
  "read_symbol_reloc k entry ctx =
     (let sec = sections ctx ! k
      in case entry of
           None \<Rightarrow> Fail
         | Some e \<Rightarrow>
      and_then (or_fail (yr_vram e)) (\<lambda>vram_addr.
      and_then (or_fail (yr_target_vram e)) (\<lambda>target_vram.
      and_then (or_fail (yr_type e)) (\<lambda>type_string.
      let t = reloc_type_from_name type_string
      in if t \<noteq> R_MIPS_HI16 \<and> t \<noteq> R_MIPS_LO16 \<and> t \<noteq> R_MIPS_26 \<and> t \<noteq> R_MIPS_32 then Fail
         else Done (ctx\<lparr>sections := (sections ctx)[k := sec\<lparr>sec_relocs := sec_relocs sec @
           [\<lparr>rel_address = vram_addr, rel_target_section_offset = target_vram - sec_ram_addr sec, rel_symbol_index = -1,
             rel_target_section = word_of_nat k, rel_type = t, rel_reference_symbol = False\<rparr>]\<rparr>]\<rparr>)))))"

definition read_symbol_relocs ::
    "bool \<Rightarrow> nat \<Rightarrow> symbol_reloc_entry toml_value \<Rightarrow> recompiler_context \<Rightarrow> recompiler_context outcome" where
  "read_symbol_relocs with_relocs k v ctx =
     (let relocatable = (\<lambda>b. ctx\<lparr>sections := (sections ctx)[k := (sections ctx ! k)\<lparr>sec_relocatable := b\<rparr>]\<rparr>)
      in case v of
           Toml_array es \<Rightarrow> (if with_relocs then fold_outcome (read_symbol_reloc k) es (relocatable True) else Done (relocatable True))
         | _ \<Rightarrow> Done (relocatable False))"

definition read_symbol_section ::
    "bytes \<Rightarrow> bool \<Rightarrow> symbol_section_entry option \<Rightarrow> recompiler_context \<Rightarrow> recompiler_context outcome" where
  "read_symbol_section img with_relocs entry ctx =
     (case entry of
        None \<Rightarrow> Fail
      | Some e \<Rightarrow>
      and_then (or_fail (ys_rom e)) (\<lambda>rom_addr.
      and_then (or_fail (ys_vram e)) (\<lambda>vram_addr.
      and_then (or_fail (ys_size e)) (\<lambda>size_bytes.
      and_then (or_fail (ys_name e)) (\<lambda>name.
      let k = length (sections ctx);
          sec = section_default\<lparr>sec_rom_addr := rom_addr, sec_ram_addr := vram_addr, sec_size := size_bytes, sec_name := name,
            sec_got_ram_addr := ys_got_address e, sec_executable := True\<rparr>
      in case ys_functions e of
           Toml_missing \<Rightarrow> Undef
         | Toml_other \<Rightarrow> Fail
         | Toml_array fs \<Rightarrow>
             and_then (fold_outcome (read_symbol_function img k) fs (ctx\<lparr>sections := sections ctx @ [sec]\<rparr>))
               (read_symbol_relocs with_relocs k (ys_relocs e)))))))"

text \<open>The context before the corrections, and the whole; \<open>None\<close> is a file that the library cannot parse.\<close>

definition parse_symbol_sections ::
    "symbol_section_entry toml_value option \<Rightarrow> bytes \<Rightarrow> bool \<Rightarrow> recompiler_context outcome" where
  "parse_symbol_sections file img with_relocs =
     (case file of
        Some (Toml_array es) \<Rightarrow>
          fold_outcome (read_symbol_section img with_relocs) es
            (context_default\<lparr>section_functions := replicate (length es) [], section_dispatch_aliases := replicate (length es) []\<rparr>)
      | _ \<Rightarrow> Fail)"

definition from_symbol_file ::
    "decoder \<Rightarrow> (nat \<Rightarrow> bool) \<Rightarrow> symbol_section_entry toml_value option \<Rightarrow> bytes \<Rightarrow> bool \<Rightarrow> recompiler_context outcome" where
  "from_symbol_file decode reallocates file img with_relocs =
     and_then (parse_symbol_sections file img with_relocs) (\<lambda>ctx0.
     and_then (repair_late_symbol_function_starts decode img (repair_truncated_symbol_function_ranges img ctx0)) (\<lambda>ctx1.
     and_then (synthesize_small_symbol_gap_functions decode reallocates img ctx1) (\<lambda>ctx2.
     Done (ctx2\<lparr>rom := img\<rparr>))))"

section \<open>Symbols of another program\<close>

definition mirror_section :: "section_info \<Rightarrow> reference_section" where
  "mirror_section sec = \<lparr>rsec_rom_addr = sec_rom_addr sec, rsec_ram_addr = sec_ram_addr sec, rsec_size = sec_size sec,
     rsec_relocatable = sec_relocatable sec\<rparr>"

definition import_function :: "recomp_function \<Rightarrow> recompiler_context \<Rightarrow> recompiler_context outcome" where
  "import_function f ctx =
     (let (ok, ctx') = add_reference_symbol (fn_name f) (fn_section_index f) (fn_vram f) True ctx in if ok then Done ctx' else Fail)"

definition import_reference_context :: "recompiler_context \<Rightarrow> recompiler_context \<Rightarrow> recompiler_context outcome" where
  "import_reference_context reference_context ctx =
     fold_outcome import_function (ctx_functions reference_context)
       (ctx\<lparr>reference_sections := map mirror_section (sections reference_context)\<rparr>)"

record data_symbol_entry =
  yd_name :: "string option"
  yd_vram :: "u32 option"

record data_section_entry =
  yt_rom :: "u64 option"
  yt_vram :: "u32 option"
  yt_size :: "u32 option"
  yt_name :: "string option"
  yt_symbols :: "data_symbol_entry toml_value"

definition ref_section_indices_by_vrom :: "recompiler_context \<Rightarrow> (u32 \<times> u16) list" where
  "ref_section_indices_by_vrom ctx =
     fold (\<lambda>k. emplace (rsec_rom_addr (reference_sections ctx ! k)) (word_of_nat k)) [0..<length (reference_sections ctx)] []"

definition data_section_index :: "(u32 \<times> u16) list \<Rightarrow> u64 option \<Rightarrow> u16 outcome" where
  "data_section_index indices rom_addr =
     (case rom_addr of
        None \<Rightarrow> Done SectionAbsolute
      | Some a \<Rightarrow> if 0xFFFFFFFF < a then Fail
          else Done (case map_of indices (ucast a) of None \<Rightarrow> SectionAbsolute | Some k \<Rightarrow> k))"

definition read_data_symbol :: "u16 \<Rightarrow> data_symbol_entry option \<Rightarrow> recompiler_context \<Rightarrow> recompiler_context outcome" where
  "read_data_symbol k entry ctx =
     (case entry of
        None \<Rightarrow> Fail
      | Some e \<Rightarrow>
      and_then (or_fail (yd_name e)) (\<lambda>name.
      and_then (or_fail (yd_vram e)) (\<lambda>vram_addr.
      let (ok, ctx') = add_reference_symbol name k vram_addr False ctx in if ok then Done ctx' else Fail)))"

definition read_data_section ::
    "(u32 \<times> u16) list \<Rightarrow> data_section_entry option \<Rightarrow> recompiler_context \<Rightarrow> recompiler_context outcome" where
  "read_data_section indices entry ctx =
     (case entry of
        None \<Rightarrow> Fail
      | Some e \<Rightarrow>
      and_then (or_fail (yt_vram e)) (\<lambda>vram_addr.
      and_then (or_fail (yt_size e)) (\<lambda>size_bytes.
      and_then (or_fail (yt_name e)) (\<lambda>name.
      and_then (data_section_index indices (yt_rom e)) (\<lambda>k.
      let ref_section = reference_sections ctx ! unat k
      in if k \<noteq> SectionAbsolute \<and> (rsec_ram_addr ref_section \<noteq> vram_addr \<or> rsec_size ref_section \<noteq> size_bytes) then Fail
         else case yt_symbols e of
           Toml_missing \<Rightarrow> Undef
         | Toml_other \<Rightarrow> Fail
         | Toml_array es \<Rightarrow> fold_outcome (read_data_symbol k) es ctx)))))"

text \<open>The loop that makes the index counts in 16 bits and does not end when there are more sections than that.\<close>

definition read_data_reference_syms ::
    "data_section_entry toml_value option \<Rightarrow> recompiler_context \<Rightarrow> recompiler_context outcome" where
  "read_data_reference_syms file ctx =
     (case file of
        Some (Toml_array es) \<Rightarrow>
          if 0xFFFF < length (reference_sections ctx) then Undef
          else fold_outcome (read_data_section (ref_section_indices_by_vrom ctx)) es ctx
      | _ \<Rightarrow> Fail)"
end
