(* ===== verification/Symbol_Soundness.thy ===== *)
theory Symbol_Soundness
  imports Symbol_Files Fragment_Soundness "HOL-Library.Multiset"
begin

text \<open>
  What holds of a context that was read from a symbol file, after the functions of the file were corrected: every function has the bytes of
  the ROM at its address, and the indices by address and by section are exact.
\<close>

section \<open>Words of the ROM\<close>

lemma le_words_append: "length xs mod 4 = 0 \<Longrightarrow> le_words (xs @ ys) = le_words xs @ le_words ys"
  by (induction xs rule: le_words.induct) simp_all

lemma slice_add: "slice xs r (a + b) = slice xs r a @ slice xs (r + a) b"
  by (simp add: slice_def take_add add.commute)

lemma le_words_read: "read_be_u32 img i = Some w \<Longrightarrow> le_words (slice img i 4) = [byteswap w]"
proof -
  assume r: "read_be_u32 img i = Some w"
  then have n: "i + 4 \<le> length img" by (auto simp: read_be_u32_def split: if_splits)
  then have "slice img i 4 = [img ! i, img ! (i + 1), img ! (i + 2), img ! (i + 3)]"
    by (intro nth_equalityI) (auto simp: slice_def numeral_eq_Suc less_Suc_eq)
  moreover have "w = byteswap (le_u32 (img ! i) (img ! (i + 1)) (img ! (i + 2)) (img ! (i + 3)))"
    using r n by (simp add: read_be_u32_def)
  then have "byteswap w = le_u32 (img ! i) (img ! (i + 1)) (img ! (i + 2)) (img ! (i + 3))"
    by (simp del: byteswap_le_u32)
  ultimately show ?thesis by simp
qed

definition has_rom_words :: "bytes \<Rightarrow> u32 \<Rightarrow> u32 list \<Rightarrow> bool" where
  "has_rom_words img r ws \<longleftrightarrow> ws = le_words (slice img (unat r) (4 * length ws))"

lemma has_rom_words_fits: "has_rom_words img r ws \<Longrightarrow> ws \<noteq> [] \<Longrightarrow> unat r + 4 * length ws \<le> length img"
proof -
  assume h: "has_rom_words img r ws" and n: "ws \<noteq> []"
  from h have "length ws = min (4 * length ws) (length img - unat r) div 4"
    unfolding has_rom_words_def using length_le_words length_slice by metis
  then show ?thesis using n by (cases "length img - unat r < 4 * length ws") (auto simp: min_def length_greater_0_conv [symmetric] simp del: length_greater_0_conv)
qed

lemma rom_words_Done: "rom_words img r n = Done ws \<Longrightarrow> n mod 4 = 0 \<Longrightarrow> has_rom_words img r ws \<and> 4 * length ws = n"
  by (auto simp: rom_words_def and_then_Done copy_from_def has_rom_words_def length_le_words split: if_splits)

lemma has_rom_words_snoc:
  assumes "has_rom_words img r ws" and "ws \<noteq> []" and "length img < 2 ^ 32"
    and "read_be_u32 img (unat (r + word_of_nat (4 * length ws))) = Some w"
  shows "has_rom_words img r (ws @ [byteswap w])"
proof -
  have "unat (r + word_of_nat (4 * length ws)) = unat r + 4 * length ws"
    using has_rom_words_fits [OF assms(1,2)] assms(3) by (intro unat_add_small) simp
  then have "le_words (slice img (unat r) (4 * length ws + 4)) = ws @ [byteswap w]"
    using assms(1,4) has_rom_words_fits [OF assms(1,2)]
    by (simp add: slice_add le_words_append le_words_read has_rom_words_def [symmetric]) (simp add: has_rom_words_def)
  then show ?thesis by (simp add: has_rom_words_def add.commute)
qed

section \<open>Functions that were extended\<close>

definition in_place :: "section_info \<Rightarrow> recomp_function \<Rightarrow> bool" where
  "in_place sec f \<longleftrightarrow> fn_rom f = fn_vram f - sec_ram_addr sec + sec_rom_addr sec"

definition section_in_rom :: "bytes \<Rightarrow> section_info \<Rightarrow> bool" where
  "section_in_rom img sec \<longleftrightarrow> unat (sec_rom_addr sec) + unat (sec_size sec) \<le> length img"

lemma section_reads:
  assumes "section_in_rom img sec" and "length img < 2 ^ 32" and "sec_ram_addr sec \<le> v"
    and "unat v + 4 \<le> unat (sec_ram_addr sec + sec_size sec)"
  shows "read_symbol_section_word img sec v \<noteq> None"
proof -
  define m n u where "m = unat (sec_ram_addr sec)" and "n = unat (sec_size sec)" and "u = unat v"
  have d: "unat (v - sec_ram_addr sec) = u - m" using assms(3) by (simp add: unat_sub m_def u_def)
  have u: "m \<le> u" using assms(3) by (simp add: m_def u_def word_le_nat_alt)
  have "unat (sec_ram_addr sec + sec_size sec) = (m + n) mod 2 ^ 32" by (simp add: unat_word_ariths m_def n_def)
  moreover have "m < 2 ^ 32" "n < 2 ^ 32" using unat_bound [of "sec_ram_addr sec"] unat_bound [of "sec_size sec"] by (simp_all add: m_def n_def)
  ultimately have w: "u + 4 \<le> m + n"
    using assms(4) mod_less_eq_dividend [of "m + n" "2 ^ 32"] by (simp add: u_def)
  have "unat (sec_rom_addr sec + word_of_nat (u - m)) = unat (sec_rom_addr sec) + (u - m)"
    using assms(1,2) u w by (intro unat_add_small) (simp add: section_in_rom_def n_def)
  moreover have "word_of_nat (u - m) = v - sec_ram_addr sec" by (simp flip: d)
  ultimately have "unat (sec_rom_addr sec + (v - sec_ram_addr sec)) = unat (sec_rom_addr sec) + (u - m)" by simp
  then show ?thesis using assms u w
    by (auto simp: read_symbol_section_word_def read_be_u32_def section_in_rom_def n_def not_less)
qed

lemma next_function_start_le: "next_function_start ctx k i \<le> sec_ram_addr (sections ctx ! k) + sec_size (sections ctx ! k)"
proof -
  have "foldl (\<lambda>b j. if P b j \<and> f j < b then f j else b) b0 js \<le> b0" for P and f :: "nat \<Rightarrow> u32" and b0 js
    by (induction js rule: rev_induct) (auto intro: order.trans less_imp_le)
  from this [of "\<lambda>b j. j \<noteq> i \<and> fn_words (ctx_functions ctx ! j) \<noteq> [] \<and> fn_vram (ctx_functions ctx ! i) < fn_vram (ctx_functions ctx ! j)"]
  show ?thesis by (simp add: next_function_start_def Let_def conj_assoc)
qed

text \<open>One more word, at the end of a function.\<close>

lemma append_word_has:
  assumes "read_symbol_section_word img sec (v + word_of_nat (4 * length ws)) = Some w" and "length img < 2 ^ 32"
    and "has_rom_words img (v - sec_ram_addr sec + sec_rom_addr sec) ws" and "ws \<noteq> []"
  shows "has_rom_words img (v - sec_ram_addr sec + sec_rom_addr sec) (ws @ [byteswap w])"
proof (rule has_rom_words_snoc [OF assms(3,4,2)])
  show "read_be_u32 img (unat (v - sec_ram_addr sec + sec_rom_addr sec + word_of_nat (4 * length ws))) = Some w"
    using assms(1) by (auto simp: read_symbol_section_word_def algebra_simps split: if_splits)
qed

fun in_sequence :: "u32 \<Rightarrow> u32 list \<Rightarrow> bool" where
  "in_sequence v [] = True"
| "in_sequence v (x # xs) = (x = v \<and> in_sequence (v + 4) xs)"

lemma append_words_has:
  assumes "append_words img sec vs ws = (b, ws')" and "length img < 2 ^ 32"
    and "has_rom_words img (v - sec_ram_addr sec + sec_rom_addr sec) ws" and "ws \<noteq> []"
    and "in_sequence (v + word_of_nat (4 * length ws)) vs"
  shows "has_rom_words img (v - sec_ram_addr sec + sec_rom_addr sec) ws'"
  using assms(1,3-)
proof (induction vs arbitrary: ws)
  case (Cons x vs)
  then have x: "x = v + word_of_nat (4 * length ws)" by simp
  show ?case
  proof (cases "read_symbol_section_word img sec x")
    case None
    then show ?thesis using Cons.prems by simp
  next
    case (Some w)
    from append_word_has [OF this [unfolded x] assms(2) Cons.prems(2,3)]
    have "has_rom_words img (v - sec_ram_addr sec + sec_rom_addr sec) (ws @ [byteswap w])" .
    moreover have "in_sequence (v + word_of_nat (4 * length (ws @ [byteswap w]))) vs"
      using Cons.prems(4) by (simp add: x algebra_simps)
    ultimately show ?thesis using Cons.IH [of "ws @ [byteswap w]"] Cons.prems(1) Some by simp
  qed
qed simp

lemma append_words_all:
  "\<forall>v \<in> set vs. read_symbol_section_word img sec v \<noteq> None \<Longrightarrow> fst (append_words img sec vs ws)"
  by (induction vs arbitrary: ws) auto

lemma extend_function_same [simp]:
  "fn_vram (extend_function img sec b f) = fn_vram f" "fn_rom (extend_function img sec b f) = fn_rom f"
  "fn_section_index (extend_function img sec b f) = fn_section_index f"
  by (simp_all add: extend_function_def Let_def split: prod.splits)

text \<open>Which words are appended, when the section is in the ROM.\<close>

lemma section_reads_on:
  assumes "section_in_rom img sec" "length img < 2 ^ 32" "b \<le> sec_ram_addr sec + sec_size sec"
    and "reads_as img sec e P" and "unat e + d + 4 \<le> unat b"
  shows "read_symbol_section_word img sec (e + word_of_nat d) \<noteq> None"
proof (rule section_reads [OF assms(1,2)])
  have "unat (e + word_of_nat d) = unat e + d" using assms(5) unat_bound [of b] by (intro unat_add_small) simp
  moreover have "sec_ram_addr sec \<le> e"
    using assms(4) by (auto simp: reads_as_def read_symbol_section_word_def not_less split: option.splits if_splits)
  ultimately show "sec_ram_addr sec \<le> e + word_of_nat d" "unat (e + word_of_nat d) + 4 \<le> unat (sec_ram_addr sec + sec_size sec)"
    using assms(3,5) by (simp_all add: word_le_nat_alt)
qed

lemma extend_function_cases:
  assumes "section_in_rom img sec" "length img < 2 ^ 32" "b \<le> sec_ram_addr sec + sec_size sec"
  obtains vs where "fn_words (extend_function img sec b f) = snd (append_words img sec vs (fn_words f))"
    and "in_sequence (func_end_of f) vs" and "unat (func_end_of f) + 4 * length vs \<le> unat b \<or> vs = []"
proof -
  let ?e = "func_end_of f" and ?last = "byteswap (last (fn_words f))"
  define c1 where "c1 \<longleftrightarrow> unat ?e + 12 \<le> unat b \<and> is_lw_ra_from_sp ?last \<and> reads_as img sec ?e is_addiu_sp_sp_positive \<and>
      reads_as img sec (?e + 4) is_jr_ra"
  define c2 where "c2 \<longleftrightarrow> unat ?e + 8 \<le> unat b \<and> reads_as img sec ?e is_jr_ra"
  define c3 where "c3 \<longleftrightarrow> unat ?e + 4 \<le> unat b \<and> instruction_has_delay_slot ?last"
  note ex = extend_function_def [of img sec b f, unfolded Let_def, folded c1_def c2_def c3_def]
  have all1: "fst (append_words img sec [?e, ?e + 4, ?e + 8] ws)" if c1 for ws
  proof (rule append_words_all)
    have "reads_as img sec ?e is_addiu_sp_sp_positive" "unat ?e + 12 \<le> unat b" using that by (simp_all add: c1_def)
    from section_reads_on [OF assms this(1), of 0] section_reads_on [OF assms this(1), of 4] section_reads_on [OF assms this(1), of 8] this(2)
    show "\<forall>v \<in> set [?e, ?e + 4, ?e + 8]. read_symbol_section_word img sec v \<noteq> None" by simp
  qed
  have all2: "fst (append_words img sec [?e, ?e + 4] ws)" if c2 for ws
  proof (rule append_words_all)
    have "reads_as img sec ?e is_jr_ra" "unat ?e + 8 \<le> unat b" using that by (simp_all add: c2_def)
    from section_reads_on [OF assms this(1), of 0] section_reads_on [OF assms this(1), of 4] this(2)
    show "\<forall>v \<in> set [?e, ?e + 4]. read_symbol_section_word img sec v \<noteq> None" by simp
  qed
  consider c1 | "\<not> c1" c2 | "\<not> c1" "\<not> c2" c3 | "\<not> c1" "\<not> c2" "\<not> c3" by blast
  then show ?thesis
  proof cases
    case 1
    then show ?thesis using all1 [OF 1, of "fn_words f"]
      by (intro that [of "[?e, ?e + 4, ?e + 8]"]) (auto simp: ex c1_def split: prod.splits simp del: append_words.simps)
  next
    case 2
    then show ?thesis using all2 [OF 2(2), of "fn_words f"]
      by (intro that [of "[?e, ?e + 4]"]) (auto simp: ex c2_def split: prod.splits simp del: append_words.simps)
  next
    case 3
    then show ?thesis
      by (intro that [of "[?e]"]) (auto simp: ex c3_def split: prod.splits simp del: append_words.simps)
  next
    case 4
    then show ?thesis by (intro that [of "[]"]) (simp_all add: ex)
  qed
qed

lemma extend_function_has:
  assumes rom: "section_in_rom img sec" "length img < 2 ^ 32" and b: "b \<le> sec_ram_addr sec + sec_size sec"
    and f: "in_place sec f" "has_rom_words img (fn_rom f) (fn_words f)" "fn_words f \<noteq> []"
  shows "has_rom_words img (fn_rom f) (fn_words (extend_function img sec b f))"
proof -
  from extend_function_cases [OF rom b, of f] obtain vs
    where vs: "fn_words (extend_function img sec b f) = snd (append_words img sec vs (fn_words f))" "in_sequence (func_end_of f) vs"
    by metis
  obtain done_flag ws where a: "append_words img sec vs (fn_words f) = (done_flag, ws)" by (cases "append_words img sec vs (fn_words f)")
  from append_words_has [OF a rom(2)] f vs(2) show ?thesis
    by (simp add: vs(1) a in_place_def func_end_of_def)
qed


section \<open>The invariant\<close>

text \<open>A function has the words of the ROM at the place of its address in its section.\<close>

definition code_in_place :: "bytes \<Rightarrow> recompiler_context \<Rightarrow> bool" where
  "code_in_place img ctx \<longleftrightarrow> (\<forall>f \<in> set (ctx_functions ctx). unat (fn_section_index f) < length (sections ctx) \<and>
     in_place (sections ctx ! unat (fn_section_index f)) f \<and> has_rom_words img (fn_rom f) (fn_words f))"

text \<open>The indices have the functions of the context and no others.\<close>

definition address_index_exact :: "recompiler_context \<Rightarrow> bool" where
  "address_index_exact ctx \<longleftrightarrow> (\<forall>v. functions_by_vram ctx v \<noteq> Some [] \<and>
     set (case functions_by_vram ctx v of None \<Rightarrow> [] | Some is \<Rightarrow> is) =
       {i. i < length (ctx_functions ctx) \<and> fn_vram (ctx_functions ctx ! i) = v})"

definition section_index_exact :: "recompiler_context \<Rightarrow> bool" where
  "section_index_exact ctx \<longleftrightarrow> (\<forall>k < length (section_functions ctx). distinct (section_functions ctx ! k) \<and>
     set (section_functions ctx ! k) =
       {i. i < length (ctx_functions ctx) \<and> unat (fn_section_index (ctx_functions ctx ! i)) = k})"

definition addresses_exact :: "recompiler_context \<Rightarrow> bool" where
  "addresses_exact ctx \<longleftrightarrow> (\<forall>k < length (sections ctx). mset (sec_function_addrs (sections ctx ! k)) =
     image_mset (\<lambda>i. fn_vram (ctx_functions ctx ! i)) (mset (section_functions ctx ! k)))"

definition symbols_ok :: "bytes \<Rightarrow> recompiler_context \<Rightarrow> bool" where
  "symbols_ok img ctx \<longleftrightarrow> code_in_place img ctx \<and> address_index_exact ctx \<and> section_index_exact ctx \<and> addresses_exact ctx \<and>
     length (sections ctx) \<le> length (section_functions ctx) \<and> length (section_functions ctx) \<le> 2 ^ 16 \<and>
     (\<forall>sec \<in> set (sections ctx). section_in_rom img sec)"

lemmas exact_defs = code_in_place_def address_index_exact_def section_index_exact_def addresses_exact_def

lemma push_vram_set:
  "set (case push_vram v fi m x of None \<Rightarrow> [] | Some is \<Rightarrow> is) =
     (if x = v then insert fi (set (case m x of None \<Rightarrow> [] | Some is \<Rightarrow> is)) else set (case m x of None \<Rightarrow> [] | Some is \<Rightarrow> is))"
  "push_vram v fi m x = Some [] \<longleftrightarrow> x \<noteq> v \<and> m x = Some []"
  by (auto simp: push_vram_def split: option.splits)

lemma removeAll_Nil: "removeAll i xs = [] \<Longrightarrow> set xs \<subseteq> {i}"
  by (induction xs) (auto split: if_splits)

lemma erase_index_set:
  "set (case erase_index i v m x of None \<Rightarrow> [] | Some is \<Rightarrow> is) =
     (if x = v then set (case m x of None \<Rightarrow> [] | Some is \<Rightarrow> is) - {i} else set (case m x of None \<Rightarrow> [] | Some is \<Rightarrow> is))"
  "m x \<noteq> Some [] \<Longrightarrow> erase_index i v m x \<noteq> Some []"
  by (auto simp: erase_index_def Let_def split: option.splits dest: removeAll_Nil)

lemma in_place_addrs [simp]:
  "in_place (ss[k := (ss ! k)\<lparr>sec_function_addrs := as\<rparr>] ! j) f = in_place (ss ! j) f"
  by (cases "j = k"; cases "k < length ss") (simp_all add: in_place_def list_update_beyond)

lemma replace_first_mset: "old \<in> set xs \<Longrightarrow> mset (replace_first old new xs) = mset xs - {#old#} + {#new#}"
  by (induction old new xs rule: replace_first.induct) auto

lemma push_section_function_ok:
  assumes ok: "symbols_ok img ctx" and push: "push_section_function k k f ctx = Done ctx'" and k: "k < length (sections ctx)"
    and f: "unat (fn_section_index f) = k" "in_place (sections ctx ! k) f" "has_rom_words img (fn_rom f) (fn_words f)"
  shows "symbols_ok img ctx'"
proof -
  let ?n = "length (ctx_functions ctx)"
  have ctx': "ctx' = ctx\<lparr>
      sections := (sections ctx)[k := (sections ctx ! k)\<lparr>sec_function_addrs := sec_function_addrs (sections ctx ! k) @ [fn_vram f]\<rparr>],
      functions_by_name := assign (fn_name f) ?n (functions_by_name ctx),
      functions_by_vram := push_vram (fn_vram f) ?n (functions_by_vram ctx),
      section_functions := (section_functions ctx)[k := section_functions ctx ! k @ [?n]],
      ctx_functions := ctx_functions ctx @ [f]\<rparr>"
    using push by (auto simp: push_section_function_def Let_def split: if_splits)
  have ks: "k < length (section_functions ctx)" using ok k by (simp add: symbols_ok_def)
  have "code_in_place img ctx'"
    using ok k f by (auto simp: symbols_ok_def code_in_place_def ctx' in_place_def nth_list_update)
  moreover have "address_index_exact ctx'"
    using ok by (auto simp: symbols_ok_def address_index_exact_def ctx' push_vram_set nth_append less_Suc_eq)
  moreover have "section_index_exact ctx'"
    using ok f(1) ks by (auto simp: symbols_ok_def section_index_exact_def ctx' nth_list_update nth_append less_Suc_eq)
  moreover have "addresses_exact ctx'"
  proof -
    have "i < ?n" if "j < length (sections ctx)" "i \<in> set (section_functions ctx ! j)" for i j
      using ok that by (auto simp: symbols_ok_def section_index_exact_def)
    then have old: "image_mset (\<lambda>i. fn_vram ((ctx_functions ctx @ [f]) ! i)) (mset (section_functions ctx ! j)) =
        image_mset (\<lambda>i. fn_vram (ctx_functions ctx ! i)) (mset (section_functions ctx ! j))" if "j < length (sections ctx)" for j
      using that by (intro image_mset_cong) (simp add: nth_append)
    have a: "mset (sec_function_addrs (sections ctx ! j)) =
        image_mset (\<lambda>i. fn_vram (ctx_functions ctx ! i)) (mset (section_functions ctx ! j))" if "j < length (sections ctx)" for j
      using ok that by (simp add: symbols_ok_def addresses_exact_def)
    show ?thesis unfolding addresses_exact_def
    proof (intro allI impI)
      fix j assume "j < length (sections ctx')"
      then have j: "j < length (sections ctx)" by (simp add: ctx')
      show "mset (sec_function_addrs (sections ctx' ! j)) = image_mset (\<lambda>i. fn_vram (ctx_functions ctx' ! i)) (mset (section_functions ctx' ! j))"
        using a [OF j] old [OF j] ks k by (cases "j = k") (simp_all add: ctx')
    qed
  qed
  ultimately show ?thesis using ok k
    by (auto simp: symbols_ok_def ctx' section_in_rom_def dest: set_update_subset_insert [THEN subsetD])
qed

lemma push_section_function_length:
  "push_section_function k si f ctx = Done ctx' \<Longrightarrow> length (sections ctx') = length (sections ctx) \<and>
     length (section_functions ctx') = length (section_functions ctx)"
  by (auto simp: push_section_function_def Let_def split: if_splits)

lemma words_changed_ok:
  assumes ok: "symbols_ok img ctx" and i: "i < length (ctx_functions ctx)"
    and g: "fn_vram g = fn_vram (ctx_functions ctx ! i)" "fn_rom g = fn_rom (ctx_functions ctx ! i)"
      "fn_section_index g = fn_section_index (ctx_functions ctx ! i)" "has_rom_words img (fn_rom g) (fn_words g)"
  shows "symbols_ok img (ctx\<lparr>ctx_functions := (ctx_functions ctx)[i := g]\<rparr>)"
proof -
  have same: "fn_vram ((ctx_functions ctx)[i := g] ! j) = fn_vram (ctx_functions ctx ! j)"
    "fn_section_index ((ctx_functions ctx)[i := g] ! j) = fn_section_index (ctx_functions ctx ! j)" for j
    using g by (cases "i = j"; cases "j < length (ctx_functions ctx)"; simp add: list_update_beyond)+
  have "ctx_functions ctx ! i \<in> set (ctx_functions ctx)" using i by simp
  then have "code_in_place img (ctx\<lparr>ctx_functions := (ctx_functions ctx)[i := g]\<rparr>)"
    using ok g by (auto simp: symbols_ok_def code_in_place_def in_place_def dest!: set_update_subset_insert [THEN subsetD])
  then show ?thesis using ok by (simp add: symbols_ok_def address_index_exact_def section_index_exact_def addresses_exact_def same)
qed

lemma move_ok:
  assumes ok: "symbols_ok img ctx" and k: "k < length (sections ctx)" and i: "i \<in> set (section_functions ctx ! k)"
    and g: "fn_vram g = p" "fn_section_index g = fn_section_index (ctx_functions ctx ! i)" "in_place (sections ctx ! k) g"
      "has_rom_words img (fn_rom g) (fn_words g)"
  shows "symbols_ok img (remap_function_vram k i (fn_vram (ctx_functions ctx ! i)) p (ctx\<lparr>ctx_functions := (ctx_functions ctx)[i := g]\<rparr>))"
    (is "symbols_ok img ?ctx'")
proof -
  let ?fs = "ctx_functions ctx" and ?fs' = "(ctx_functions ctx)[i := g]"
  have ks: "k < length (section_functions ctx)" using ok k by (simp add: symbols_ok_def)
  have idx: "i < length ?fs" "unat (fn_section_index (?fs ! i)) = k"
    using ok i ks by (auto simp: symbols_ok_def section_index_exact_def)
  have new: "?fs' ! j = (if j = i then g else ?fs ! j)" if "j < length ?fs" for j using that by (simp add: nth_list_update)
  have "code_in_place img ?ctx'"
    unfolding code_in_place_def
  proof
    fix f assume "f \<in> set (ctx_functions ?ctx')"
    then have "f = g \<or> f \<in> set ?fs"
      by (auto simp: remap_function_vram_def dest: set_update_subset_insert [THEN subsetD])
    then show "unat (fn_section_index f) < length (sections ?ctx') \<and> in_place (sections ?ctx' ! unat (fn_section_index f)) f \<and>
        has_rom_words img (fn_rom f) (fn_words f)"
      using ok k idx g by (auto simp: symbols_ok_def code_in_place_def remap_function_vram_def)
  qed
  moreover have "address_index_exact ?ctx'"
    using ok idx(1) g(1)
    by (auto simp: symbols_ok_def address_index_exact_def remap_function_vram_def push_vram_set erase_index_set new split: if_splits)
  moreover have "section_index_exact ?ctx'"
    using ok g(2) by (auto simp: symbols_ok_def section_index_exact_def remap_function_vram_def new)
  moreover have "addresses_exact ?ctx'"
    unfolding addresses_exact_def
  proof (intro allI impI)
    fix j assume "j < length (sections ?ctx')"
    then have j: "j < length (sections ctx)" by (simp add: remap_function_vram_def)
    then have js: "j < length (section_functions ctx)" using ok by (simp add: symbols_ok_def)
    have a: "mset (sec_function_addrs (sections ctx ! j)) = image_mset (\<lambda>i. fn_vram (?fs ! i)) (mset (section_functions ctx ! j))"
      using ok j by (simp add: symbols_ok_def addresses_exact_def)
    have d: "distinct (section_functions ctx ! j)" "\<forall>x \<in> set (section_functions ctx ! j). x < length ?fs"
      using ok js by (auto simp: symbols_ok_def section_index_exact_def)
    show "mset (sec_function_addrs (sections ?ctx' ! j)) =
        image_mset (\<lambda>i. fn_vram (ctx_functions ?ctx' ! i)) (mset (section_functions ?ctx' ! j))"
    proof (cases "j = k")
      case False
      then have "i \<notin> set (section_functions ctx ! j)"
        using ok idx js by (auto simp: symbols_ok_def section_index_exact_def)
      then have "image_mset (\<lambda>x. fn_vram (?fs' ! x)) (mset (section_functions ctx ! j)) =
          image_mset (\<lambda>x. fn_vram (?fs ! x)) (mset (section_functions ctx ! j))"
        using d(2) by (intro image_mset_cong) (auto simp: new)
      then show ?thesis using a False by (simp add: remap_function_vram_def)
    next
      case True
      obtain M where M: "mset (section_functions ctx ! k) = add_mset i M" using i by (metis in_multiset_in_set multi_member_split)
      have "count (mset (section_functions ctx ! k)) i = 1" using d(1) True i by (simp add: distinct_count_atmost_1)
      then have fresh: "i \<notin># M" by (simp add: M not_in_iff)
      have old: "image_mset (\<lambda>x. fn_vram (?fs' ! x)) M = image_mset (\<lambda>x. fn_vram (?fs ! x)) M"
      proof (intro image_mset_cong)
        fix x assume "x \<in># M"
        moreover then have "x \<in> set (section_functions ctx ! k)" using M by (metis in_multiset_in_set insert_iff set_mset_add_mset_insert)
        ultimately show "fn_vram (?fs' ! x) = fn_vram (?fs ! x)" using fresh d(2) True by (auto simp: new)
      qed
      have "fn_vram (?fs ! i) \<in> set (sec_function_addrs (sections ctx ! k))"
        using a M True by (metis image_mset_add_mset in_multiset_in_set union_single_eq_member)
      then have "mset (replace_first (fn_vram (?fs ! i)) p (sec_function_addrs (sections ctx ! k))) =
          add_mset p (image_mset (\<lambda>x. fn_vram (?fs ! x)) M)"
        using a M True by (simp add: replace_first_mset)
      then show ?thesis using True k M old g(1) idx(1) by (simp add: remap_function_vram_def)
    qed
  qed
  ultimately show ?thesis using ok k
    by (auto simp: symbols_ok_def remap_function_vram_def section_in_rom_def dest: set_update_subset_insert [THEN subsetD])
qed

section \<open>The three corrections\<close>

definition frame_of :: "section_info \<Rightarrow> u32 \<times> u32 \<times> u32 \<times> bool" where
  "frame_of sec = (sec_rom_addr sec, sec_ram_addr sec, sec_size sec, sec_executable sec)"

lemma section_functions_bound:
  "symbols_ok img ctx \<Longrightarrow> k < length (sections ctx) \<Longrightarrow> i \<in> set (section_functions ctx ! k) \<Longrightarrow>
   i < length (ctx_functions ctx) \<and> unat (fn_section_index (ctx_functions ctx ! i)) = k"
  by (auto simp: symbols_ok_def section_index_exact_def)

lemma function_in_place:
  "symbols_ok img ctx \<Longrightarrow> i < length (ctx_functions ctx) \<Longrightarrow> unat (fn_section_index (ctx_functions ctx ! i)) = k \<Longrightarrow>
   in_place (sections ctx ! k) (ctx_functions ctx ! i) \<and>
   has_rom_words img (fn_rom (ctx_functions ctx ! i)) (fn_words (ctx_functions ctx ! i))"
  by (auto simp: symbols_ok_def code_in_place_def)

lemma repair_truncated_function_ok:
  assumes "symbols_ok img ctx" and "k < length (sections ctx)" and "i \<in> set (section_functions ctx ! k)" and "length img < 2 ^ 32"
  shows "symbols_ok img (repair_truncated_function img k i ctx)"
proof (cases "fn_words (ctx_functions ctx ! i) = []")
  case False
  note i = section_functions_bound [OF assms(1-3)]
  have sec: "section_in_rom img (sections ctx ! k)" using assms(1,2) by (auto simp: symbols_ok_def)
  show ?thesis unfolding repair_truncated_function_def Let_def if_not_P [OF False]
    using extend_function_has [OF sec assms(4) next_function_start_le _ _ False] function_in_place [OF assms(1)] i
    by (intro words_changed_ok [OF assms(1)]) auto
qed (simp add: repair_truncated_function_def Let_def assms(1))

lemma repair_truncated_function_keeps [simp]:
  "sections (repair_truncated_function img k i ctx) = sections ctx"
  "section_functions (repair_truncated_function img k i ctx) = section_functions ctx"
  by (simp_all add: repair_truncated_function_def Let_def)

lemma fold_invariant:
  assumes "\<And>x s. x \<in> set xs \<Longrightarrow> I s \<Longrightarrow> I (f x s)"
  shows "I s \<Longrightarrow> I (fold f xs s)"
  using assms by (induction xs arbitrary: s) auto

lemma repair_truncated_ok:
  assumes ok: "symbols_ok img ctx" and img: "length img < 2 ^ 32"
  shows "symbols_ok img (repair_truncated_symbol_function_ranges img ctx)"
proof -
  have sec: "symbols_ok img (repair_truncated_section img k ctx1) \<and> length (sections (repair_truncated_section img k ctx1)) = length (sections ctx)"
    if "k < length (sections ctx)" "symbols_ok img ctx1 \<and> length (sections ctx1) = length (sections ctx)" for k ctx1
  proof -
    let ?I = "\<lambda>c. symbols_ok img c \<and> sections c = sections ctx1 \<and> section_functions c = section_functions ctx1"
    have "?I (fold (repair_truncated_function img k) (section_functions ctx1 ! k) ctx1)"
    proof (rule fold_invariant)
      fix i c assume a: "i \<in> set (section_functions ctx1 ! k)" "?I c"
      then have "symbols_ok img (repair_truncated_function img k i c)"
        using that img by (intro repair_truncated_function_ok) simp_all
      then show "?I (repair_truncated_function img k i c)" using a(2) by simp
    qed (use that in simp)
    then show ?thesis using that by (simp add: repair_truncated_section_def)
  qed
  have "symbols_ok img (fold (repair_truncated_section img) [0..<length (sections ctx)] ctx) \<and>
      length (sections (fold (repair_truncated_section img) [0..<length (sections ctx)] ctx)) = length (sections ctx)"
    by (rule fold_invariant [where I = "\<lambda>c. symbols_ok img c \<and> length (sections c) = length (sections ctx)"]) (use ok sec in auto)
  then show ?thesis using ok by (cases "img = []") (simp_all add: repair_truncated_symbol_function_ranges_def)
qed

lemma find_prefix_Some:
  "find_prefix decode img sec m old_start old_end ps = Done (Some (p, n)) \<Longrightarrow> 4 dvd n"
proof (induction ps)
  case (Cons q ps)
  show ?case
  proof (cases "read_symbol_section_word img sec q")
    case None
    then show ?thesis using Cons.prems by simp
  next
    case (Some w)
    show ?thesis
    proof (cases "w = 0 \<or> m q \<noteq> None \<or> is_symbol_delay_slot img sec q")
      case True
      then show ?thesis using Cons Some by auto
    next
      case False
      then obtain r where r: "discover_in_section decode img sec q = Done r"
        using Cons.prems Some by (cases "discover_in_section decode img sec q") auto
      show ?thesis using Cons Some False r by (cases r) (auto simp: mod_eq_0_iff_dvd Let_def split: if_splits)
    qed
  qed
qed simp

lemma repair_late_start_ok:
  assumes ok: "symbols_ok img ctx" and k: "k < length (sections ctx)" and i: "snd pc \<in> set (section_functions ctx ! k)"
    and r: "repair_late_start decode img k pc ctx = Done ctx'"
  shows "symbols_ok img ctx' \<and> section_functions ctx' = section_functions ctx \<and> length (sections ctx') = length (sections ctx)"
proof (cases "ctx' = ctx")
  case False
  then obtain p n where p: "4 dvd n" and m: "move_function img k (snd pc) p n ctx = Done ctx'"
    using r by (auto simp: repair_late_start_def Let_def and_then_Done split: if_splits option.splits dest!: find_prefix_Some)
  note idx = section_functions_bound [OF ok k i]
  let ?f = "ctx_functions ctx ! snd pc" and ?r = "sec_rom_addr (sections ctx ! k) + (p - sec_ram_addr (sections ctx ! k))"
  from m obtain ws where ws: "rom_words img ?r n = Done ws"
    and c: "ctx' = remap_function_vram k (snd pc) (fn_vram ?f) p (ctx\<lparr>ctx_functions := (ctx_functions ctx)[snd pc :=
      ?f\<lparr>fn_vram := p, fn_rom := ?r, fn_entry_vram := (if fn_entry_vram ?f = fn_vram ?f then p else fn_entry_vram ?f), fn_words := ws\<rparr>]\<rparr>)"
    by (auto simp: move_function_def Let_def and_then_Done)
  have "symbols_ok img ctx'" unfolding c
    using rom_words_Done [OF ws] p by (intro move_ok [OF ok k i]) (simp_all add: in_place_def)
  then show ?thesis by (simp add: c remap_function_vram_def)
qed (simp add: ok)

lemma neighbours_members: "pc \<in> set (neighbours ctx k) \<Longrightarrow> snd pc \<in> set (section_functions ctx ! k)"
proof -
  have "set (tl xs) \<subseteq> set xs" for xs :: "nat list" by (cases xs) auto
  then have "snd pc \<in> set xs" if "pc \<in> set (zip xs (tl xs))" for xs using that by (cases pc) (auto dest: set_zip_rightD)
  then show "pc \<in> set (neighbours ctx k) \<Longrightarrow> snd pc \<in> set (section_functions ctx ! k)"
    unfolding neighbours_def Let_def by (metis set_sort)
qed

lemma repair_late_ok:
  assumes ok: "symbols_ok img ctx" and r: "repair_late_symbol_function_starts decode img ctx = Done ctx'"
  shows "symbols_ok img ctx'"
proof -
  let ?n = "length (sections ctx)"
  have sec: "symbols_ok img c' \<and> length (sections c') = ?n"
    if "k < ?n" "symbols_ok img c \<and> length (sections c) = ?n" "repair_late_section decode img k c = Done c'" for k c c'
  proof (cases "c' = c")
    case False
    then have f: "fold_outcome (repair_late_start decode img k) (neighbours c k) c = Done c'"
      using that(3) by (auto simp: repair_late_section_def split: if_splits)
    let ?I = "\<lambda>s. symbols_ok img s \<and> section_functions s = section_functions c \<and> length (sections s) = ?n"
    have "?I c'"
    proof (rule fold_outcome_invariant [OF _ _ f, where I = ?I])
      fix pc s s' assume a: "pc \<in> set (neighbours c k)" "?I s" "repair_late_start decode img k pc s = Done s'"
      then have "snd pc \<in> set (section_functions s ! k)" using neighbours_members by simp
      from repair_late_start_ok [OF _ _ this a(3)] a(2) that(1) show "?I s'" by simp
    qed (use that in simp)
    then show ?thesis by simp
  qed (use that in simp)
  show ?thesis
  proof (cases "img = []")
    case False
    then have f: "fold_outcome (repair_late_section decode img) [0..<?n] ctx = Done ctx'"
      using r by (simp add: repair_late_symbol_function_starts_def)
    have "symbols_ok img ctx' \<and> length (sections ctx') = ?n"
    proof (rule fold_outcome_invariant [OF _ _ f, where I = "\<lambda>c. symbols_ok img c \<and> length (sections c) = ?n"])
      fix k c c' assume "k \<in> set [0..<?n]" "symbols_ok img c \<and> length (sections c) = ?n" "repair_late_section decode img k c = Done c'"
      then show "symbols_ok img c' \<and> length (sections c') = ?n" using sec [of k c c'] by simp
    qed (use ok in simp)
    then show ?thesis by simp
  qed (use r ok in \<open>simp add: repair_late_symbol_function_starts_def\<close>)
qed

lemma u16_index: "k < 2 ^ 16 \<Longrightarrow> unat (word_of_nat k :: u16) = k"
  by (simp add: unsigned_of_nat take_bit_eq_mod)

lemma add_gap_function_ok:
  assumes ok: "symbols_ok img (gs_ctx st)" and k: "k < length (sections (gs_ctx st))" and n: "n mod 4 = 0"
    and r: "add_gap_function reallocates img k v n st = Done st'"
  shows "symbols_ok img (gs_ctx st') \<and> length (sections (gs_ctx st')) = length (sections (gs_ctx st))"
proof -
  let ?sec = "sections (gs_ctx st) ! k"
  let ?r = "sec_rom_addr ?sec + (v - sec_ram_addr ?sec)"
  obtain ws where ws: "rom_words img ?r n = Done ws"
    and p: "push_section_function k k (function_default\<lparr>fn_name := ''func_'' @ fmt_08X v, fn_vram := v, fn_rom := ?r,
      fn_section_index := word_of_nat k, fn_words := ws\<rparr>) (gs_ctx st) = Done (gs_ctx st')"
    using r by (auto simp: add_gap_function_def Let_def and_then_Done)
  have "k < 2 ^ 16" using ok k by (simp add: symbols_ok_def)
  then have "symbols_ok img (gs_ctx st')"
    using rom_words_Done [OF ws n] by (intro push_section_function_ok [OF ok p k]) (simp_all add: u16_index in_place_def)
  then show ?thesis using push_section_function_length [OF p] by simp
qed

lemma scan_gap_ok:
  assumes "scan_gap decode reallocates img k nx gap_end v st = Done st'" and "symbols_ok img (gs_ctx st)"
    and "k < length (sections (gs_ctx st))"
  shows "symbols_ok img (gs_ctx st') \<and> length (sections (gs_ctx st')) = length (sections (gs_ctx st))"
  using assms
proof (induction decode reallocates img k nx gap_end v st rule: scan_gap.induct)
  case (1 decode reallocates img k nx gap_end v st)
  show ?case
  proof (cases "unat gap_end < unat v + 8 \<or> read_symbol_section_word img (sections (gs_ctx st) ! k) v = None")
    case True
    then have "scan_gap decode reallocates img k nx gap_end v st = Done st" by (subst scan_gap.simps) auto
    then show ?thesis using 1(3,4) by simp
  next
    case False
    then obtain w where w: "\<not> unat gap_end < unat v + 8" "read_symbol_section_word img (sections (gs_ctx st) ! k) v = Some w" by auto
    note eq = 1(3) [unfolded scan_gap.simps [of decode reallocates img k nx gap_end v st] if_not_P [OF w(1)] w(2) option.case]
    from eq obtain r where r: "gap_function_size decode img k nx gap_end w v st = Done r" by (auto split: outcome.splits)
    show ?thesis
    proof (cases r)
      case None
      then show ?thesis using 1(1) [OF w r None] eq 1(4,5) by (simp add: r)
    next
      case (Some n)
      from eq obtain st1 where st1: "add_gap_function reallocates img k v n st = Done st1" by (auto simp: r Some split: outcome.splits)
      note a = add_gap_function_ok [OF 1(4,5) gap_function_size_Some(4) [OF r [unfolded Some]] st1]
      have "scan_gap decode reallocates img k nx gap_end (v + word_of_nat n) st1 = Done st'" using eq by (simp add: r Some st1)
      from 1(2) [OF w r Some st1 this] a 1(5) show ?thesis by simp
    qed
  qed
qed

lemma synthesize_gap_ok:
  assumes "symbols_ok img ctx" and "k < length (sections ctx)" and "synthesize_gap decode reallocates img k pn ctx = Done ctx'"
  shows "symbols_ok img ctx' \<and> length (sections ctx') = length (sections ctx)"
proof (cases "ctx' = ctx")
  case False
  then obtain st gap_end v where "scan_gap decode reallocates img k (snd pn) gap_end v \<lparr>gs_ctx = ctx, gs_stale = False\<rparr> = Done st" "ctx' = gs_ctx st"
    using assms(3) by (auto simp: synthesize_gap_def Let_def and_then_Done split: if_splits)
  then show ?thesis using scan_gap_ok assms(1,2) by fastforce
qed (use assms in simp)

lemma synthesize_gaps_ok:
  assumes ok: "symbols_ok img ctx" and r: "synthesize_small_symbol_gap_functions decode reallocates img ctx = Done ctx'"
  shows "symbols_ok img ctx'"
proof -
  let ?n = "length (sections ctx)" and ?I = "\<lambda>c. symbols_ok img c \<and> length (sections c) = length (sections ctx)"
  have sec: "?I c'" if "k < ?n" "?I c" "synthesize_section_gaps decode reallocates img k c = Done c'" for k c c'
  proof (cases "c' = c")
    case False
    then have f: "fold_outcome (synthesize_gap decode reallocates img k) (neighbours c k) c = Done c'"
      using that(3) by (auto simp: synthesize_section_gaps_def split: if_splits)
    show ?thesis
    proof (rule fold_outcome_invariant [OF _ _ f, where I = ?I])
      fix pn s s' assume "?I s" "synthesize_gap decode reallocates img k pn s = Done s'"
      then show "?I s'" using synthesize_gap_ok [of img s k decode reallocates pn s'] that(1) by simp
    qed (use that in simp)
  qed (use that in simp)
  show ?thesis
  proof (cases "img = []")
    case False
    then have f: "fold_outcome (synthesize_section_gaps decode reallocates img) [0..<?n] ctx = Done ctx'"
      using r by (simp add: synthesize_small_symbol_gap_functions_def)
    have "?I ctx'"
    proof (rule fold_outcome_invariant [OF _ _ f, where I = ?I])
      fix k c c' assume "k \<in> set [0..<?n]" "?I c" "synthesize_section_gaps decode reallocates img k c = Done c'"
      then show "?I c'" using sec [of k c c'] by simp
    qed (use ok in simp)
    then show ?thesis by simp
  qed (use r ok in \<open>simp add: synthesize_small_symbol_gap_functions_def\<close>)
qed

section \<open>Reading the file\<close>

lemma section_changed_ok:
  assumes ok: "symbols_ok img ctx" and k: "k < length (sections ctx)"
    and g: "frame_of g = frame_of (sections ctx ! k)" "sec_function_addrs g = sec_function_addrs (sections ctx ! k)"
  shows "symbols_ok img (ctx\<lparr>sections := (sections ctx)[k := g]\<rparr>)"
proof -
  have same: "in_place ((sections ctx)[k := g] ! j) f = in_place (sections ctx ! j) f"
    "sec_function_addrs ((sections ctx)[k := g] ! j) = sec_function_addrs (sections ctx ! j)" for j f
    using g k by (cases "j = k"; simp add: frame_of_def in_place_def)+
  have "section_in_rom img g" using ok k g(1) by (auto simp: symbols_ok_def section_in_rom_def frame_of_def)
  then have "\<forall>s \<in> set ((sections ctx)[k := g]). section_in_rom img s"
    using ok by (auto simp: symbols_ok_def dest: set_update_subset_insert [THEN subsetD])
  then show ?thesis using ok
    by (simp add: symbols_ok_def code_in_place_def address_index_exact_def section_index_exact_def addresses_exact_def same)
qed

lemma section_added_ok:
  assumes ok: "symbols_ok img ctx" and n: "length (sections ctx) < length (section_functions ctx)"
    and sec: "section_in_rom img sec" "sec_function_addrs sec = []"
  shows "symbols_ok img (ctx\<lparr>sections := sections ctx @ [sec]\<rparr>)"
proof -
  have empty: "section_functions ctx ! length (sections ctx) = []"
  proof -
    have "unat (fn_section_index (ctx_functions ctx ! i)) \<noteq> length (sections ctx)" if "i < length (ctx_functions ctx)" for i
      using ok nth_mem [OF that] by (auto simp: symbols_ok_def code_in_place_def)
    then have "set (section_functions ctx ! length (sections ctx)) = {}"
      using ok n by (auto simp: symbols_ok_def section_index_exact_def)
    then show ?thesis by simp
  qed
  have "in_place ((sections ctx @ [sec]) ! unat (fn_section_index f)) f = in_place (sections ctx ! unat (fn_section_index f)) f"
    if "f \<in> set (ctx_functions ctx)" for f
    using ok that by (simp add: symbols_ok_def code_in_place_def nth_append)
  then have "code_in_place img (ctx\<lparr>sections := sections ctx @ [sec]\<rparr>)"
    using ok by (simp add: symbols_ok_def code_in_place_def less_Suc_eq)
  moreover have "addresses_exact (ctx\<lparr>sections := sections ctx @ [sec]\<rparr>)"
    using ok sec(2) empty by (auto simp: symbols_ok_def addresses_exact_def nth_append less_Suc_eq)
  ultimately show ?thesis using ok n sec(1)
    by (auto simp: symbols_ok_def address_index_exact_def section_index_exact_def)
qed

lemma function_words_has: "function_words img r n = Done ws \<Longrightarrow> has_rom_words img r ws"
  by (auto simp: function_words_def has_rom_words_def dest: rom_words_Done split: if_splits)

lemma read_symbol_function_ok:
  assumes ok: "symbols_ok img ctx" and k: "k < length (sections ctx)" and r: "read_symbol_function img k entry ctx = Done ctx'"
  shows "symbols_ok img ctx' \<and> length (sections ctx') = length (sections ctx) \<and>
    length (section_functions ctx') = length (section_functions ctx)"
proof -
  have i: "unat (word_of_nat k :: u16) = k" using ok k by (intro u16_index) (simp add: symbols_ok_def)
  obtain f where p: "push_section_function k k f ctx = Done ctx'"
    and f: "fn_section_index f = word_of_nat k" "in_place (sections ctx ! k) f" "has_rom_words img (fn_rom f) (fn_words f)"
    using r by (auto simp: read_symbol_function_def Let_def and_then_Done i in_place_def dest: function_words_has split: option.splits if_splits)
  have "symbols_ok img ctx'" by (rule push_section_function_ok [OF ok p k]) (simp_all add: f i)
  then show ?thesis using push_section_function_length [OF p] by simp
qed

lemma read_symbol_reloc_ok:
  assumes ok: "symbols_ok img ctx" and k: "k < length (sections ctx)" and r: "read_symbol_reloc k entry ctx = Done ctx'"
  shows "symbols_ok img ctx' \<and> length (sections ctx') = length (sections ctx) \<and>
    length (section_functions ctx') = length (section_functions ctx)"
proof -
  obtain rs where "ctx' = ctx\<lparr>sections := (sections ctx)[k := (sections ctx ! k)\<lparr>sec_relocs := rs\<rparr>]\<rparr>"
    using r by (auto simp: read_symbol_reloc_def Let_def and_then_Done split: option.splits if_splits)
  then show ?thesis using section_changed_ok [OF ok k] by (simp add: frame_of_def)
qed

lemma read_symbol_relocs_ok:
  assumes ok: "symbols_ok img ctx" and k: "k < length (sections ctx)" and r: "read_symbol_relocs b k v ctx = Done ctx'"
  shows "symbols_ok img ctx' \<and> length (sections ctx') = length (sections ctx) \<and>
    length (section_functions ctx') = length (section_functions ctx)"
proof -
  let ?I = "\<lambda>c. symbols_ok img c \<and> length (sections c) = length (sections ctx) \<and> length (section_functions c) = length (section_functions ctx)"
  define c where "c b = ctx\<lparr>sections := (sections ctx)[k := (sections ctx ! k)\<lparr>sec_relocatable := b\<rparr>]\<rparr>" for b
  have c: "?I (c b)" for b using section_changed_ok [OF ok k] by (simp add: c_def frame_of_def)
  have f: "?I ctx'" if f: "fold_outcome (read_symbol_reloc k) es (c True) = Done ctx'" for es
  proof (rule fold_outcome_invariant [OF _ _ f, where I = ?I])
    fix x s s' assume "?I s" "read_symbol_reloc k x s = Done s'"
    then show "?I s'" using read_symbol_reloc_ok [of img s k x s'] k by simp
  qed (rule c)
  show ?thesis
    using r c f unfolding read_symbol_relocs_def Let_def c_def [symmetric] by (auto split: toml_value.splits if_splits)
qed

text \<open>A file whose sections lie in the ROM.\<close>

definition entry_in_rom :: "bytes \<Rightarrow> symbol_section_entry \<Rightarrow> bool" where
  "entry_in_rom img e \<longleftrightarrow> (\<forall>r n. ys_rom e = Some r \<longrightarrow> ys_size e = Some n \<longrightarrow> unat r + unat n \<le> length img)"

lemma read_symbol_section_ok:
  assumes ok: "symbols_ok img ctx" and n: "length (sections ctx) < length (section_functions ctx)"
    and e: "\<forall>e. entry = Some e \<longrightarrow> entry_in_rom img e" and r: "read_symbol_section img b entry ctx = Done ctx'"
  shows "symbols_ok img ctx' \<and> length (sections ctx') = length (sections ctx) + 1 \<and>
    length (section_functions ctx') = length (section_functions ctx)"
proof -
  let ?k = "length (sections ctx)"
  obtain en r0 v0 n0 nm fs where en: "entry = Some en" "ys_rom en = Some r0" "ys_size en = Some n0"
    and r2: "and_then (fold_outcome (read_symbol_function img ?k) fs (ctx\<lparr>sections := sections ctx @ [section_default\<lparr>sec_rom_addr := r0,
        sec_ram_addr := v0, sec_size := n0, sec_name := nm, sec_got_ram_addr := ys_got_address en, sec_executable := True\<rparr>]\<rparr>))
      (read_symbol_relocs b ?k (ys_relocs en)) = Done ctx'"
    using r by (auto simp: read_symbol_section_def Let_def and_then_Done or_fail_def split: option.splits toml_value.splits)
  define sec where "sec = section_default\<lparr>sec_rom_addr := r0, sec_ram_addr := v0, sec_size := n0, sec_name := nm,
    sec_got_ram_addr := ys_got_address en, sec_executable := True\<rparr>"
  from r2 obtain c where f: "fold_outcome (read_symbol_function img ?k) fs (ctx\<lparr>sections := sections ctx @ [sec]\<rparr>) = Done c"
    and q: "read_symbol_relocs b ?k (ys_relocs en) c = Done ctx'" by (auto simp: and_then_Done sec_def)
  let ?I = "\<lambda>c. symbols_ok img c \<and> length (sections c) = ?k + 1 \<and> length (section_functions c) = length (section_functions ctx)"
  have "section_in_rom img sec" "sec_function_addrs sec = []"
    using e en by (simp_all add: sec_def section_in_rom_def entry_in_rom_def section_default_def)
  then have start: "?I (ctx\<lparr>sections := sections ctx @ [sec]\<rparr>)" using section_added_ok [OF ok n] by simp
  have "?I c"
  proof (rule fold_outcome_invariant [OF _ _ f, where I = ?I])
    fix x s s' assume "?I s" "read_symbol_function img ?k x s = Done s'"
    then show "?I s'" using read_symbol_function_ok [of img s ?k x s'] by simp
  qed (rule start)
  then show ?thesis using read_symbol_relocs_ok [of img c ?k b "ys_relocs en" ctx'] q by simp
qed

lemma read_symbol_sections_ok:
  assumes "fold_outcome (read_symbol_section img b) es ctx = Done ctx'" and "symbols_ok img ctx"
    and "length (sections ctx) + length es \<le> length (section_functions ctx)" and "\<forall>e. Some e \<in> set es \<longrightarrow> entry_in_rom img e"
  shows "symbols_ok img ctx'"
  using assms
proof (induction es arbitrary: ctx)
  case (Cons e es)
  then obtain c where c: "read_symbol_section img b e ctx = Done c" "fold_outcome (read_symbol_section img b) es c = Done ctx'"
    by (auto simp: and_then_Done)
  have "symbols_ok img c \<and> length (sections c) = length (sections ctx) + 1 \<and> length (section_functions c) = length (section_functions ctx)"
    using Cons.prems by (intro read_symbol_section_ok [OF _ _ _ c(1)]) auto
  then show ?case using Cons.IH [OF c(2)] Cons.prems by simp
qed simp

lemma parse_symbol_sections_ok:
  assumes "parse_symbol_sections (Some (Toml_array es)) img b = Done ctx" and "length es \<le> 2 ^ 16"
    and "\<forall>e. Some e \<in> set es \<longrightarrow> entry_in_rom img e"
  shows "symbols_ok img ctx"
proof (rule read_symbol_sections_ok [OF _ _ _ assms(3)])
  show "fold_outcome (read_symbol_section img b) es (context_default\<lparr>section_functions := replicate (length es) [],
      section_dispatch_aliases := replicate (length es) []\<rparr>) = Done ctx"
    using assms(1) by (simp add: parse_symbol_sections_def)
qed (use assms(2) in \<open>simp_all add: symbols_ok_def exact_defs context_default_def\<close>)

lemma from_symbol_file_ok:
  assumes "from_symbol_file decode reallocates (Some (Toml_array es)) img b = Done ctx'"
    and "length es \<le> 2 ^ 16" and "length img < 2 ^ 32" and "\<forall>e. Some e \<in> set es \<longrightarrow> entry_in_rom img e"
  obtains ctx where "symbols_ok img ctx" and "ctx' = ctx\<lparr>rom := img\<rparr>"
proof -
  obtain ctx0 ctx1 ctx2 where c: "parse_symbol_sections (Some (Toml_array es)) img b = Done ctx0"
    "repair_late_symbol_function_starts decode img (repair_truncated_symbol_function_ranges img ctx0) = Done ctx1"
    "synthesize_small_symbol_gap_functions decode reallocates img ctx1 = Done ctx2" "ctx' = ctx2\<lparr>rom := img\<rparr>"
    using assms(1) by (auto simp: from_symbol_file_def and_then_Done)
  from parse_symbol_sections_ok [OF c(1) assms(2,4)] have "symbols_ok img ctx0" .
  from synthesize_gaps_ok [OF repair_late_ok [OF repair_truncated_ok [OF this assms(3)] c(2)] c(3)]
  show ?thesis using c(4) by (rule that)
qed

section \<open>The contexts of symbol files\<close>

text \<open>C15: when the sections of a symbol file lie in the ROM, every function of the context read from it, also one that was extended,
  moved or made for a gap, has the words of the ROM at its ROM address, and that is the place of its address in its section.\<close>

theorem symbol_file_code:
  assumes "from_symbol_file decode reallocates (Some (Toml_array es)) img with_relocs = Done ctx"
    and "length es \<le> 2 ^ 16" and "length img < 2 ^ 32" and "\<forall>e. Some e \<in> set es \<longrightarrow> entry_in_rom img e"
    and "f \<in> set (ctx_functions ctx)"
  shows "fn_words f = le_words (slice (rom ctx) (unat (fn_rom f)) (4 * length (fn_words f))) \<and>
    unat (fn_section_index f) < length (sections ctx) \<and>
    fn_rom f = fn_vram f - sec_ram_addr (sections ctx ! unat (fn_section_index f)) + sec_rom_addr (sections ctx ! unat (fn_section_index f))"
  by (rule from_symbol_file_ok [OF assms(1-4)])
    (use assms(5) in \<open>auto simp: symbols_ok_def code_in_place_def in_place_def has_rom_words_def\<close>)

text \<open>C16: in the context read from a symbol file the lists of functions by address and by section have exactly the functions at that
  address and of that section, no list by address is empty, and the addresses kept with a section are those of its functions, also after
  functions were moved and added.\<close>

theorem symbol_file_indices:
  assumes "from_symbol_file decode reallocates (Some (Toml_array es)) img with_relocs = Done ctx"
    and "length es \<le> 2 ^ 16" and "length img < 2 ^ 32" and "\<forall>e. Some e \<in> set es \<longrightarrow> entry_in_rom img e"
    and "k < length (sections ctx)"
  shows "functions_by_vram ctx v \<noteq> Some [] \<and>
    set (case functions_by_vram ctx v of None \<Rightarrow> [] | Some is \<Rightarrow> is) =
      {i. i < length (ctx_functions ctx) \<and> fn_vram (ctx_functions ctx ! i) = v} \<and>
    distinct (section_functions ctx ! k) \<and>
    set (section_functions ctx ! k) = {i. i < length (ctx_functions ctx) \<and> unat (fn_section_index (ctx_functions ctx ! i)) = k} \<and>
    mset (sec_function_addrs (sections ctx ! k)) =
      mset (map (\<lambda>i. fn_vram (ctx_functions ctx ! i)) (section_functions ctx ! k))"
  by (rule from_symbol_file_ok [OF assms(1-4)])
    (use assms(5) in \<open>simp add: symbols_ok_def address_index_exact_def section_index_exact_def addresses_exact_def\<close>)

text \<open>Three returns with their delay slots; the file has the first function one word too short and does not have the second.\<close>

definition three_returns :: bytes where
  "three_returns = [0x03, 0xE0, 0, 0x08, 0, 0, 0, 0, 0x03, 0xE0, 0, 0x08, 0, 0, 0, 0, 0x03, 0xE0, 0, 0x08, 0, 0, 0, 0]"

definition short_entry :: symbol_section_entry where
  "short_entry = \<lparr>ys_rom = Some 0, ys_vram = Some 0x400, ys_size = Some 24, ys_name = Some ''s'', ys_got_address = None,
     ys_functions = Toml_array
       [Some \<lparr>yf_name = Some ''a'', yf_vram = Some 0x400, yf_size = Some 4\<rparr>,
        Some \<lparr>yf_name = Some ''b'', yf_vram = Some 0x410, yf_size = Some 8\<rparr>],
     ys_relocs = Toml_missing\<rparr>"

lemma short_file_read:
  "case from_symbol_file small_decoder (\<lambda>n. True) (Some (Toml_array [Some short_entry])) three_returns True of
     Done ctx \<Rightarrow> map fn_vram (ctx_functions ctx) = [0x400, 0x410, 0x408] \<and>
       map fn_words (ctx_functions ctx) = [[0x0800E003, 0], [0x0800E003, 0], [0x0800E003, 0]] \<and> length (sections ctx) = 1 \<and>
       map fn_section_index (ctx_functions ctx) = [0, 0, 0]
   | _ \<Rightarrow> False"
  by code_simp

lemma short_file_hypotheses:
  "\<forall>e. Some e \<in> set [Some short_entry] \<longrightarrow> entry_in_rom three_returns e" "length [Some short_entry] \<le> 2 ^ 16"
  "length three_returns < 2 ^ 32"
  by (simp_all add: entry_in_rom_def short_entry_def three_returns_def)

lemma symbol_file_code_witness:
  "\<exists>ctx. from_symbol_file small_decoder (\<lambda>n. True) (Some (Toml_array [Some short_entry])) three_returns True = Done ctx \<and>
     length (ctx_functions ctx) = 3 \<and> fn_vram (ctx_functions ctx ! 2) = 0x408 \<and>
     fn_words (ctx_functions ctx ! 2) = le_words (slice (rom ctx) (unat (fn_rom (ctx_functions ctx ! 2))) 8)"
proof -
  obtain ctx where c: "from_symbol_file small_decoder (\<lambda>n. True) (Some (Toml_array [Some short_entry])) three_returns True = Done ctx"
    and v: "map fn_vram (ctx_functions ctx) = [0x400, 0x410, 0x408]"
    and w: "map fn_words (ctx_functions ctx) = [[0x0800E003, 0], [0x0800E003, 0], [0x0800E003, 0]]"
    using short_file_read by (auto split: outcome.splits)
  have n: "length (ctx_functions ctx) = 3" using arg_cong [OF v, of length] by simp
  have f: "fn_vram (ctx_functions ctx ! 2) = 0x408" "fn_words (ctx_functions ctx ! 2) = [0x0800E003, 0]"
    using arg_cong [OF v, of "\<lambda>xs. xs ! 2"] arg_cong [OF w, of "\<lambda>xs. xs ! 2"] n by simp_all
  from symbol_file_code [OF c short_file_hypotheses(2,3,1), of "ctx_functions ctx ! 2"] c n f show ?thesis by auto
qed

lemma symbol_file_indices_witness:
  "\<exists>ctx. from_symbol_file small_decoder (\<lambda>n. True) (Some (Toml_array [Some short_entry])) three_returns True = Done ctx \<and>
     set (case functions_by_vram ctx 0x408 of None \<Rightarrow> [] | Some is \<Rightarrow> is) = {2} \<and> set (section_functions ctx ! 0) = {0, 1, 2}"
proof -
  obtain ctx where c: "from_symbol_file small_decoder (\<lambda>n. True) (Some (Toml_array [Some short_entry])) three_returns True = Done ctx"
    and v: "map fn_vram (ctx_functions ctx) = [0x400, 0x410, 0x408]" and s: "length (sections ctx) = 1"
    and k: "map fn_section_index (ctx_functions ctx) = [0, 0, 0]"
    using short_file_read by (auto split: outcome.splits)
  have n: "length (ctx_functions ctx) = 3" using arg_cong [OF v, of length] by simp
  have f: "fn_vram (ctx_functions ctx ! i) = [0x400, 0x410, 0x408] ! i \<and> fn_section_index (ctx_functions ctx ! i) = [0, 0, 0] ! i"
    if "i < 3" for i
  proof -
    have "map fn_vram (ctx_functions ctx) ! i = fn_vram (ctx_functions ctx ! i)"
      "map fn_section_index (ctx_functions ctx) ! i = fn_section_index (ctx_functions ctx ! i)" using that n by simp_all
    then show ?thesis unfolding v k by simp
  qed
  have three: "i < 3 \<longleftrightarrow> i = 0 \<or> i = 1 \<or> i = 2" for i :: nat by auto
  have "{i. i < 3 \<and> fn_vram (ctx_functions ctx ! i) = 0x408} = {2}"
    "{i. i < 3 \<and> unat (fn_section_index (ctx_functions ctx ! i)) = 0} = {0, 1, 2}"
    using f [of 0] f [of 1] f [of 2] by (auto simp: three)
  then show ?thesis
    using symbol_file_indices [OF c short_file_hypotheses(2,3,1), of 0 "0x408"] c s by (simp add: n)
qed

end
