(* ===== verification/Symbol_Ranges.thy ===== *)
theory Symbol_Ranges
  imports Symbol_Soundness Context_Reachability
begin

text \<open>
  Two more facts of \<open>src/config.cpp\<close>: the words appended to a function that ends too early never reach into the next function, and the
  symbols of another program, once imported, are found by their names.
\<close>

section \<open>Extended functions stay apart\<close>

text \<open>No function of a section reaches into the next one.\<close>

definition functions_apart :: "recompiler_context \<Rightarrow> bool" where
  "functions_apart ctx \<longleftrightarrow> (\<forall>k < length (sections ctx). \<forall>i \<in> set (section_functions ctx ! k). \<forall>j \<in> set (section_functions ctx ! k).
     let f = ctx_functions ctx ! i; g = ctx_functions ctx ! j
     in fn_words f \<noteq> [] \<longrightarrow> fn_words g \<noteq> [] \<longrightarrow> fn_vram f < fn_vram g \<longrightarrow> unat (fn_vram f) + 4 * length (fn_words f) \<le> unat (fn_vram g))"

lemma foldl_min_member:
  "j \<in> set js \<Longrightarrow> P j \<Longrightarrow> foldl (\<lambda>b j. if P j \<and> f j < b then f j else b) (b0 :: u32) js \<le> f j"
  by (induction js rule: rev_induct) (auto intro: order.trans less_imp_le)

lemma next_function_start_other:
  assumes "j \<in> set (section_functions ctx ! k)" "j \<noteq> i" "fn_words (ctx_functions ctx ! j) \<noteq> []"
    and "fn_vram (ctx_functions ctx ! i) < fn_vram (ctx_functions ctx ! j)"
  shows "next_function_start ctx k i \<le> fn_vram (ctx_functions ctx ! j)"
  using foldl_min_member [of j "section_functions ctx ! k" "\<lambda>j. j \<noteq> i \<and> fn_words (ctx_functions ctx ! j) \<noteq> [] \<and>
      fn_vram (ctx_functions ctx ! i) < fn_vram (ctx_functions ctx ! j)" "\<lambda>j. fn_vram (ctx_functions ctx ! j)"] assms
  by (simp add: next_function_start_def Let_def conj_assoc)

lemma append_words_length:
  "length ws \<le> length (snd (append_words img sec vs ws)) \<and> length (snd (append_words img sec vs ws)) \<le> length ws + length vs"
proof (induction vs arbitrary: ws)
  case (Cons v vs)
  show ?case
  proof (cases "read_symbol_section_word img sec v")
    case (Some w)
    then show ?thesis using Cons.IH [of "ws @ [byteswap w]"] by simp
  qed simp
qed simp

lemma extend_function_end:
  assumes "section_in_rom img sec" "length img < 2 ^ 32" "b \<le> sec_ram_addr sec + sec_size sec"
    and "unat (fn_vram f) + 4 * length (fn_words f) < 2 ^ 32" and "unat (fn_vram f) + 4 * length (fn_words f) \<le> m" and "unat b \<le> m"
  shows "unat (fn_vram f) + 4 * length (fn_words (extend_function img sec b f)) \<le> m"
proof -
  from extend_function_cases [OF assms(1-3), of f] obtain vs
    where vs: "fn_words (extend_function img sec b f) = snd (append_words img sec vs (fn_words f))"
      "unat (func_end_of f) + 4 * length vs \<le> unat b \<or> vs = []" by metis
  have "unat (func_end_of f) = unat (fn_vram f) + 4 * length (fn_words f)"
    unfolding func_end_of_def by (rule unat_add_small [OF assms(4)])
  then show ?thesis using append_words_length [of "fn_words f" img sec vs] vs(2) assms(5,6) by (auto simp: vs(1))
qed

lemma extend_function_nonempty: "fn_words (extend_function img sec b f) = [] \<Longrightarrow> fn_words f = []"
proof -
  have "length ws \<le> length ws'" if "append_words img sec vs ws = (d, ws')" for vs ws d ws'
    using append_words_length [of ws img sec vs] that by simp
  then show "fn_words (extend_function img sec b f) = [] \<Longrightarrow> fn_words f = []"
    unfolding extend_function_def Let_def
    by (auto split: prod.splits if_splits simp del: append_words.simps) (metis le_zero_eq list.size(3) length_0_conv prod.collapse)+
qed

lemma repair_truncated_function_apart:
  assumes ok: "symbols_ok img ctx" and k: "k < length (sections ctx)" and i: "i \<in> set (section_functions ctx ! k)" and img: "length img < 2 ^ 32"
    and apart: "functions_apart ctx"
  shows "functions_apart (repair_truncated_function img k i ctx)"
proof (cases "fn_words (ctx_functions ctx ! i) = []")
  case False
  let ?g = "extend_function img (sections ctx ! k) (next_function_start ctx k i) (ctx_functions ctx ! i)"
  have idx: "i < length (ctx_functions ctx)" "unat (fn_section_index (ctx_functions ctx ! i)) = k" using section_functions_bound [OF ok k i] by auto
  have sec: "section_in_rom img (sections ctx ! k)" using ok k by (auto simp: symbols_ok_def)
  have c: "repair_truncated_function img k i ctx = ctx\<lparr>ctx_functions := (ctx_functions ctx)[i := ?g]\<rparr>"
    using False by (simp add: repair_truncated_function_def Let_def)
  have new: "(ctx_functions ctx)[i := ?g] ! j = (if j = i then ?g else ctx_functions ctx ! j)" for j
    using idx by simp
  have "unat (fn_vram ((ctx_functions ctx)[i := ?g] ! a)) + 4 * length (fn_words ((ctx_functions ctx)[i := ?g] ! a))
      \<le> unat (fn_vram ((ctx_functions ctx)[i := ?g] ! b))"
    if l: "l < length (sections ctx)" and ab: "a \<in> set (section_functions ctx ! l)" "b \<in> set (section_functions ctx ! l)"
      and ne: "fn_words ((ctx_functions ctx)[i := ?g] ! a) \<noteq> []" "fn_words ((ctx_functions ctx)[i := ?g] ! b) \<noteq> []"
      and v: "fn_vram ((ctx_functions ctx)[i := ?g] ! a) < fn_vram ((ctx_functions ctx)[i := ?g] ! b)" for l a b
  proof -
    have old: "fn_words (ctx_functions ctx ! a) \<noteq> []" "fn_words (ctx_functions ctx ! b) \<noteq> []"
      using ne False by (auto simp: new split: if_splits)
    have vo: "fn_vram (ctx_functions ctx ! a) < fn_vram (ctx_functions ctx ! b)" using v by (auto simp: new split: if_splits)
    have ap: "unat (fn_vram (ctx_functions ctx ! a)) + 4 * length (fn_words (ctx_functions ctx ! a)) \<le> unat (fn_vram (ctx_functions ctx ! b))"
      using apart l ab old vo by (auto simp: functions_apart_def Let_def)
    show ?thesis
    proof (cases "a = i")
      case True
      then have "l = k" using section_functions_bound [OF ok l ab(1)] idx by simp
      moreover have "b \<noteq> i" using vo True by auto
      ultimately have "next_function_start ctx k i \<le> fn_vram (ctx_functions ctx ! b)"
        using ab(2) old(2) vo True by (intro next_function_start_other) simp_all
      then have "unat (fn_vram (ctx_functions ctx ! i)) + 4 * length (fn_words ?g) \<le> unat (fn_vram (ctx_functions ctx ! b))"
        using ap unat_bound [of "fn_vram (ctx_functions ctx ! b)"] True
        by (intro extend_function_end [OF sec img next_function_start_le]) (simp_all add: word_le_nat_alt)
      then show ?thesis using True \<open>b \<noteq> i\<close> by (simp add: new)
    next
      case False
      then show ?thesis using ap by (cases "b = i") (simp_all add: new)
    qed
  qed
  then show ?thesis by (simp add: functions_apart_def c Let_def)
qed (simp add: repair_truncated_function_def Let_def apart)

lemma repair_truncated_apart:
  assumes ok: "symbols_ok img ctx" and img: "length img < 2 ^ 32" and apart: "functions_apart ctx"
  shows "functions_apart (repair_truncated_symbol_function_ranges img ctx)"
proof -
  let ?I = "\<lambda>c. symbols_ok img c \<and> functions_apart c \<and> length (sections c) = length (sections ctx)"
  have sec: "?I (repair_truncated_section img k ctx1)" if "k < length (sections ctx)" "?I ctx1" for k ctx1
  proof -
    let ?J = "\<lambda>c. symbols_ok img c \<and> functions_apart c \<and> sections c = sections ctx1 \<and> section_functions c = section_functions ctx1"
    have "?J (fold (repair_truncated_function img k) (section_functions ctx1 ! k) ctx1)"
    proof (rule fold_invariant)
      fix i c assume a: "i \<in> set (section_functions ctx1 ! k)" "?J c"
      then have "symbols_ok img (repair_truncated_function img k i c)" "functions_apart (repair_truncated_function img k i c)"
        using that img by (auto intro!: repair_truncated_function_ok repair_truncated_function_apart)
      then show "?J (repair_truncated_function img k i c)" using a(2) by simp
    qed (use that in simp)
    then show ?thesis using that by (simp add: repair_truncated_section_def)
  qed
  have "?I (fold (repair_truncated_section img) [0..<length (sections ctx)] ctx)"
    by (rule fold_invariant [where I = ?I]) (use ok apart sec in auto)
  then show ?thesis using apart by (cases "img = []") (simp_all add: repair_truncated_symbol_function_ranges_def)
qed


text \<open>C17: when the sections of a symbol file lie in the ROM and no function of the file reaches into the next function of its section,
  this is still so after the functions that end too early were extended.\<close>

theorem extension_keeps_apart:
  assumes "parse_symbol_sections (Some (Toml_array es)) img with_relocs = Done ctx"
    and "length es \<le> 2 ^ 16" and "length img < 2 ^ 32" and "\<forall>e. Some e \<in> set es \<longrightarrow> entry_in_rom img e"
    and "functions_apart ctx"
  shows "functions_apart (repair_truncated_symbol_function_ranges img ctx)"
  by (rule repair_truncated_apart [OF parse_symbol_sections_ok [OF assms(1,2,4)] assms(3,5)])

lemma short_file_parsed:
  "case parse_symbol_sections (Some (Toml_array [Some short_entry])) three_returns True of
     Done ctx \<Rightarrow> map fn_vram (ctx_functions ctx) = [0x400, 0x410] \<and> section_functions ctx = [[0, 1]] \<and>
       map (\<lambda>f. length (fn_words f)) (ctx_functions ctx) = [1, 2] \<and> length (sections ctx) = 1 \<and>
       map (\<lambda>f. length (fn_words f)) (ctx_functions (repair_truncated_symbol_function_ranges three_returns ctx)) = [2, 2]
   | _ \<Rightarrow> False"
  by code_simp

lemma extension_keeps_apart_witness:
  "\<exists>ctx. parse_symbol_sections (Some (Toml_array [Some short_entry])) three_returns True = Done ctx \<and>
     map (\<lambda>f. length (fn_words f)) (ctx_functions (repair_truncated_symbol_function_ranges three_returns ctx)) = [2, 2] \<and>
     functions_apart (repair_truncated_symbol_function_ranges three_returns ctx)"
proof -
  obtain ctx where c: "parse_symbol_sections (Some (Toml_array [Some short_entry])) three_returns True = Done ctx"
    and v: "map fn_vram (ctx_functions ctx) = [0x400, 0x410]" and k: "section_functions ctx = [[0, 1]]" and s: "length (sections ctx) = 1"
    and n: "map (\<lambda>f. length (fn_words f)) (ctx_functions ctx) = [1, 2]"
    and r: "map (\<lambda>f. length (fn_words f)) (ctx_functions (repair_truncated_symbol_function_ranges three_returns ctx)) = [2, 2]"
    using short_file_parsed by (auto split: outcome.splits)
  have two: "length (ctx_functions ctx) = 2" using arg_cong [OF v, of length] by simp
  have f: "fn_vram (ctx_functions ctx ! i) = [0x400, 0x410] ! i \<and> length (fn_words (ctx_functions ctx ! i)) = [1, 2] ! i" if "i < 2" for i
  proof -
    have "map fn_vram (ctx_functions ctx) ! i = fn_vram (ctx_functions ctx ! i)"
      "map (\<lambda>f. length (fn_words f)) (ctx_functions ctx) ! i = length (fn_words (ctx_functions ctx ! i))" using that two by simp_all
    then show ?thesis unfolding v n by simp
  qed
  have "fn_vram (ctx_functions ctx ! 0) = 0x400" "length (fn_words (ctx_functions ctx ! 0)) = 1"
    "fn_vram (ctx_functions ctx ! 1) = 0x410" using f [of 0] f [of 1] by simp_all
  then have pair: "fn_vram (ctx_functions ctx ! i) < fn_vram (ctx_functions ctx ! j) \<longrightarrow>
      unat (fn_vram (ctx_functions ctx ! i)) + 4 * length (fn_words (ctx_functions ctx ! i)) \<le> unat (fn_vram (ctx_functions ctx ! j))"
    if "i \<in> {0, 1}" "j \<in> {0, 1}" for i j using that by (elim insertE emptyE) (simp_all only:, simp_all)
  have "functions_apart ctx" unfolding functions_apart_def Let_def
  proof (intro allI impI ballI)
    fix l i j assume "l < length (sections ctx)" and ij: "i \<in> set (section_functions ctx ! l)" "j \<in> set (section_functions ctx ! l)"
      and v: "fn_vram (ctx_functions ctx ! i) < fn_vram (ctx_functions ctx ! j)"
    then have "l = 0" by (simp add: s)
    then have "i \<in> {0, 1}" "j \<in> {0, 1}" using ij by (simp_all add: k)
    from pair [OF this] v
    show "unat (fn_vram (ctx_functions ctx ! i)) + 4 * length (fn_words (ctx_functions ctx ! i)) \<le> unat (fn_vram (ctx_functions ctx ! j))" by blast
  qed
  from extension_keeps_apart [OF c short_file_hypotheses(2,3,1) this]
  show ?thesis by (intro exI [of _ ctx] conjI) (rule c r | assumption)+
qed

section \<open>Imported symbols\<close>

lemma import_function_reachable: "reachable_context c \<Longrightarrow> import_function f c = Done c' \<Longrightarrow> reachable_context c'"
  using reference_added [of c "fn_name f" "fn_section_index f" "fn_vram f" True]
  by (auto simp: import_function_def split: prod.splits if_splits)

lemma read_data_symbol_Done:
  assumes "read_data_symbol k e c = Done c'"
  obtains y n v where "e = Some y" and "yd_name y = Some n" and "add_reference_symbol n k v False c = (True, c')"
proof -
  obtain y where y: "e = Some y" using assms by (cases e) (simp_all add: read_data_symbol_def)
  obtain n where n: "yd_name y = Some n" using assms y by (cases "yd_name y") (simp_all add: read_data_symbol_def or_fail_def)
  obtain v where v: "yd_vram y = Some v" using assms y n by (cases "yd_vram y") (simp_all add: read_data_symbol_def or_fail_def)
  have "add_reference_symbol n k v False c = (True, c')"
    using assms y n v by (cases "add_reference_symbol n k v False c") (simp add: read_data_symbol_def or_fail_def split: if_splits)
  with y n show ?thesis by (rule that)
qed

lemma read_data_symbol_reachable: "reachable_context c \<Longrightarrow> read_data_symbol k e c = Done c' \<Longrightarrow> reachable_context c'"
proof -
  assume r: "reachable_context c" and d: "read_data_symbol k e c = Done c'"
  from d obtain n v where "add_reference_symbol n k v False c = (True, c')" by (rule read_data_symbol_Done)
  then show "reachable_context c'" using reference_added [OF r, of n k v False] by simp
qed

text \<open>Names that are known stay known.\<close>

definition knows :: "string \<Rightarrow> recompiler_context \<Rightarrow> bool" where
  "knows name c \<longleftrightarrow> map_of (reference_symbols_by_name c) name \<noteq> None"

lemma add_reference_symbol_knows:
  "add_reference_symbol name k v b c = (True, c') \<Longrightarrow> knows name c' \<and> (\<forall>n. knows n c \<longrightarrow> knows n c')"
  by (auto simp: add_reference_symbol_def knows_def Let_def map_of_emplace split: if_splits)

lemma import_functions_known:
  assumes "fold_outcome import_function fs c = Done c'" and "reachable_context c"
  shows "reachable_context c' \<and> (\<forall>f \<in> set fs. knows (fn_name f) c') \<and> (\<forall>n. knows n c \<longrightarrow> knows n c')"
  using assms
proof (induction fs arbitrary: c)
  case (Cons f fs)
  then obtain d where d: "import_function f c = Done d" "fold_outcome import_function fs d = Done c'" by (auto simp: and_then_Done)
  have "knows (fn_name f) d \<and> (\<forall>n. knows n c \<longrightarrow> knows n d)"
    using d(1) add_reference_symbol_knows by (auto simp: import_function_def split: prod.splits if_splits)
  then show ?case using Cons.IH [OF d(2) import_function_reachable [OF Cons.prems(2) d(1)]] by auto
qed simp

definition data_names :: "data_section_entry toml_value option \<Rightarrow> string set" where
  "data_names file = (case file of
     Some (Toml_array es) \<Rightarrow> {n. \<exists>e ds d. Some e \<in> set es \<and> yt_symbols e = Toml_array ds \<and> Some d \<in> set ds \<and> yd_name d = Some n}
   | _ \<Rightarrow> {})"

lemma read_data_symbols_known:
  assumes "fold_outcome (read_data_symbol k) ds c = Done c'" and "reachable_context c"
  shows "reachable_context c' \<and> (\<forall>d n. Some d \<in> set ds \<longrightarrow> yd_name d = Some n \<longrightarrow> knows n c') \<and> (\<forall>n. knows n c \<longrightarrow> knows n c')"
  using assms
proof (induction ds arbitrary: c)
  case (Cons e ds)
  then obtain d where d: "read_data_symbol k e c = Done d" "fold_outcome (read_data_symbol k) ds d = Done c'" by (auto simp: and_then_Done)
  from d(1) obtain y n v where y: "e = Some y" "yd_name y = Some n" and a: "add_reference_symbol n k v False c = (True, d)"
    by (rule read_data_symbol_Done)
  show ?case using Cons.IH [OF d(2) read_data_symbol_reachable [OF Cons.prems(2) d(1)]] add_reference_symbol_knows [OF a] y by auto
qed simp

lemma read_data_section_known:
  assumes "read_data_section indices e c = Done c'" and "reachable_context c"
  shows "reachable_context c' \<and> (\<forall>y ds d n. e = Some y \<longrightarrow> yt_symbols y = Toml_array ds \<longrightarrow> Some d \<in> set ds \<longrightarrow> yd_name d = Some n \<longrightarrow> knows n c') \<and>
    (\<forall>n. knows n c \<longrightarrow> knows n c')"
proof -
  obtain y k ds where "e = Some y" "yt_symbols y = Toml_array ds" and f: "fold_outcome (read_data_symbol k) ds c = Done c'"
    using assms(1) by (auto simp: read_data_section_def and_then_Done Let_def split: option.splits if_splits toml_value.splits)
  then show ?thesis using read_data_symbols_known [OF f assms(2)] by auto
qed

lemma read_data_sections_known:
  assumes "fold_outcome (read_data_section indices) es c = Done c'" and "reachable_context c"
  shows "reachable_context c' \<and>
    (\<forall>y ds d n. Some y \<in> set es \<longrightarrow> yt_symbols y = Toml_array ds \<longrightarrow> Some d \<in> set ds \<longrightarrow> yd_name d = Some n \<longrightarrow> knows n c') \<and>
    (\<forall>n. knows n c \<longrightarrow> knows n c')"
  using assms
proof (induction es arbitrary: c)
  case (Cons e es)
  then obtain d where d: "read_data_section indices e c = Done d" "fold_outcome (read_data_section indices) es d = Done c'"
    by (auto simp: and_then_Done)
  note r = read_data_section_known [OF d(1) Cons.prems(2)]
  from Cons.IH [OF d(2)] r show ?case by (auto; metis)
qed simp

lemma reference_symbols_known:
  assumes "read_data_reference_syms file c = Done c'" and "reachable_context c"
  shows "reachable_context c' \<and> (\<forall>n \<in> data_names file. knows n c') \<and> (\<forall>n. knows n c \<longrightarrow> knows n c')"
proof -
  obtain es where es: "file = Some (Toml_array es)" and f: "fold_outcome (read_data_section (ref_section_indices_by_vrom c)) es c = Done c'"
    using assms(1) by (auto simp: read_data_reference_syms_def split: option.splits toml_value.splits if_splits)
  show ?thesis using read_data_sections_known [OF f assms(2)] by (auto simp: data_names_def es)
qed

text \<open>C18: let the functions of another program, with at most 0xFFFC sections, be imported into an empty context, and then the data symbols of a file
  be read. Then the name of every function of that program and of every data symbol of the file is found, and what is found is,
  within its list, a symbol of that name in the section that was found.\<close>

theorem imported_symbols_resolve:
  assumes "import_reference_context other context_default = Done ctx" and "read_data_reference_syms file ctx = Done ctx'"
    and "length (sections other) \<le> unat SectionEvent" and "n \<in> fn_name ` set (ctx_functions other) \<union> data_names file"
  shows "\<exists>r s. find_reference_symbol ctx' n = Some r \<and>
    get_reference_symbol ctx' (sref_section_index r) (sref_symbol_index r) = Some s \<and> rsym_name s = n \<and>
    rsym_section_index s = sref_section_index r"
proof -
  have "reachable_context (context_default\<lparr>reference_sections := map mirror_section (sections other)\<rparr>)"
    using assms(3) by (intro loaded) simp
  with assms(1) have i: "reachable_context ctx \<and> (\<forall>f \<in> set (ctx_functions other). knows (fn_name f) ctx)"
    unfolding import_reference_context_def by (auto dest!: import_functions_known)
  from reference_symbols_known [OF assms(2)] i assms(4) have k: "reachable_context ctx'" "knows n ctx'" by auto
  then obtain r where r: "find_reference_symbol ctx' n = Some r" by (auto simp: find_reference_symbol_def knows_def)
  have "reference_symbols_wf ctx'" using reachable_wf [OF k(1)] by (simp add: context_wf_def)
  from reference_symbol_resolves [OF this r] r show ?thesis by metis
qed

definition other_program :: recompiler_context where
  "other_program = context_default\<lparr>sections := [section_default\<lparr>sec_ram_addr := 0x400\<rparr>],
     ctx_functions := [make_function 0x408 8 [0] ''f'' 0 False False False 0]\<rparr>"

definition data_file :: "data_section_entry toml_value option" where
  "data_file = Some (Toml_array [Some \<lparr>yt_rom = Some 0, yt_vram = Some 0x400, yt_size = Some 0, yt_name = Some ''d'',
     yt_symbols = Toml_array [Some \<lparr>yd_name = Some ''x'', yd_vram = Some 0x410\<rparr>]\<rparr>])"

lemma imported_example:
  "case import_reference_context other_program context_default of
     Done ctx \<Rightarrow> (case read_data_reference_syms data_file ctx of
         Done ctx' \<Rightarrow> reference_symbols ctx' =
           [\<lparr>rsym_name = ''f'', rsym_section_index = 0, rsym_section_offset = 8, rsym_is_function = True\<rparr>,
            \<lparr>rsym_name = ''x'', rsym_section_index = 0, rsym_section_offset = 16, rsym_is_function = False\<rparr>]
       | _ \<Rightarrow> False)
   | _ \<Rightarrow> False"
  by (simp add: import_reference_context_def other_program_def context_default_def import_function_def make_function_def
      mirror_section_def section_default_def add_reference_symbol_def emplace_def SectionAbsolute_def read_data_reference_syms_def
      data_file_def read_data_section_def or_fail_def data_section_index_def ref_section_indices_by_vrom_def read_data_symbol_def Let_def)

lemma imported_symbols_resolve_witness:
  "\<exists>ctx ctx' r s. import_reference_context other_program context_default = Done ctx \<and> read_data_reference_syms data_file ctx = Done ctx' \<and>
     find_reference_symbol ctx' ''x'' = Some r \<and>
     get_reference_symbol ctx' (sref_section_index r) (sref_symbol_index r) = Some s \<and> rsym_name s = ''x''"
proof -
  obtain ctx ctx' where c: "import_reference_context other_program context_default = Done ctx" "read_data_reference_syms data_file ctx = Done ctx'"
    using imported_example by (auto split: outcome.splits)
  have "length (sections other_program) \<le> unat SectionEvent" "''x'' \<in> fn_name ` set (ctx_functions other_program) \<union> data_names data_file"
    by (simp_all add: other_program_def SectionEvent_def data_names_def data_file_def)
  from imported_symbols_resolve [OF c this] c show ?thesis by blast
qed

end
