(* ===== verification/Spec2Isabelle.thy ===== *)
theory Spec2Isabelle
  imports Operations Context_Reachability CGenerator Guest_Arithmetic Mod_Symbols Yay0
    Analysis_Tables Function_Bounds Resolution_Soundness Translation_Errors Expression_Semantics Rsp_Overlays
    Fragment_Soundness Seeding_Soundness Alias_Soundness Driver_Output Static_Requests Edit_Soundness
    Elf_Pairing Symbol_Ranges
begin

text \<open>
  A verification development of N64Recomp, the static recompiler of MIPS binaries to C.
  Names are those of the sources, \<open>src/\<close> and \<open>include/\<close>.

  \<^bold>\<open>The program.\<close> The recompiler reads a game image and its symbols into a \<open>Context\<close>, analyses each function
  for its bounds and jump tables, and translates its instructions one by one through a \<open>Generator\<close>; the
  C backend prints expressions and statements over the macros of \<open>recomp.h\<close>, which the generated code is
  compiled with. Mods are separate binaries with a symbol file that is parsed into a \<open>Context\<close> of its own.

  \<^bold>\<open>The theories.\<close>
  \<^item> \<open>Recomp_Prelude\<close>: byte strings, big- and little-endian words, number formatting.
  \<^item> \<open>Operations\<close>: \<open>operations.cpp\<close>, the tables from instruction ids to operations, as association lists.
  \<^item> \<open>Context\<close>, \<open>Context_Invariants\<close>, \<open>Context_Reachability\<close>: \<open>context.h\<close>. Each struct is a record, each method a
    function on the context record; \<open>None\<close> is an index out of range. The locale \<open>name_index\<close> is the contract of a
    vector with a name index; the contexts that the methods can build are an inductive set, and all of them are consistent.
  \<^item> \<open>Guest_Runtime\<close>, \<open>Guest_Memory\<close>, \<open>Guest_Arithmetic\<close>: \<open>recomp.h\<close>. Memory is a function from host
    offsets to bytes; the byte-swizzled layout is related to the big-endian guest memory, the unaligned
    accesses and the 64-bit multiply and divide helpers to their meaning.
  \<^item> \<open>Yay0\<close>: \<open>compression/yay0.cpp\<close> and \<open>compression/pers_szp.cpp\<close>. The loop is a recursive function over
    its state record with a termination proof; \<open>None\<close> is an access outside a buffer. The decoder is safe on every input and
    inverts a layout function of the format.
  \<^item> \<open>Mod_Symbols\<close>: \<open>mod_symbols.cpp\<close>. \<open>Fail\<close> is a failed check, \<open>Undef\<close> undefined behaviour of the C++. The
    structs are read and written as words, one \<open>fixed_codec\<close> interpretation each.
  \<^item> \<open>CGenerator\<close>: \<open>cgenerator.cpp\<close>, the text each method prints; \<open>None\<close> is a failed assertion or an exception.
  \<^item> \<open>Instruction\<close>, \<open>Analysis\<close>: \<open>analysis.cpp\<close>. A decoded instruction is a record of what the sources ask of the disassembler; the
    decoder is a parameter. \<open>Analysis_Tables\<close> relates the register tracking to the instructions it reads and \<open>Function_Bounds\<close>
    the discovered size of a function to its control flow.
  \<^item> \<open>Call_Resolution\<close>, \<open>Emission\<close>, \<open>Translation\<close>, \<open>Recompilation\<close>, \<open>Function_Translation\<close>: \<open>recompilation.cpp\<close>. Output is a list of pieces, in which
    labels and jumps stay visible; a statement of the translator is an \<open>emitter\<close>. \<open>Statement_Rules\<close> and \<open>Label_Free\<close> hold the rules for
    properties of emitters as locales, \<open>Jump_Targets\<close>, \<open>Link_Labels\<close>, \<open>Label_Soundness\<close>, \<open>Function_Labels\<close> and \<open>Label_Uniqueness\<close> use them to show that the
    labels and jumps of a translated function fit together. \<open>Resolution_Soundness\<close> shows that a resolved call goes to the function at its
    target, \<open>Translation_Errors\<close> which failures of a statement fail the function, and that requests only grow.
  \<^item> \<open>C_Expressions\<close>, \<open>Expression_Semantics\<close>: the emitted expressions as trees that render to the text of \<open>CGenerator\<close>, their value in C, and
    the proof that the value is the result of the instruction, with the exceptions for register 0.
  \<^item> \<open>Rsp_Recompiler\<close>, \<open>Rsp_Labels\<close>, \<open>Rsp_Overlays\<close>: the RSP microcode recompiler, \<open>RSPRecomp/src/rsp_recomp.cpp\<close>. The text of every instruction
    and function, the exact condition under which its jumps have labels, the enumeration of the overlay combinations with its
    termination proof, and the index by which the emitted dispatcher selects one.
  \<^item> \<open>Fragments\<close>, \<open>Fragment_Relocs\<close>, \<open>Fragment_Entries\<close>, \<open>Fragment_Synthesis\<close>, \<open>Fragment_Sections\<close>: \<open>decompressed.cpp\<close>. Code fragments the
    game decompresses at run time: extraction, patches and relocation tables, the predicates that take an offset for a function, the
    loops that find the functions of a fragment, and the sections made from the configuration or by scanning the ROM.
  \<^item> \<open>Fragment_Invariants\<close>, \<open>Fragment_Soundness\<close>: a locale for invariants of the search for functions, interpreted by the
    statement that every function has the bytes of its fragment, and the proof that sections never overwrite each other.
  \<^item> \<open>Static_Entries\<close>, \<open>Static_Seeding\<close>, \<open>Seeding_Soundness\<close>: the passes of \<open>main.cpp\<close> that request static functions before anything is
    recompiled. The lists of requests are their state; every request is shown to be sound.
  \<^item> \<open>Symbol_Lists\<close>, \<open>Driver_Edits\<close>, \<open>Driver\<close>: \<open>symbol_lists.cpp\<close> and the rest of \<open>main.cpp\<close>, from the context that was read to the text of
    the files written: names, collisions, patches, hooks, events, aliases, all functions and, with a termination proof, the static
    functions that translating others requests. \<open>Driver_Output\<close>: the tables for the runtime and the dump of a context.
  \<^item> \<open>Elf_Reader\<close>, \<open>Elf_Pairing\<close>: \<open>elf.cpp\<close>, from the tables of the file, which a library reads, to the context: layout of the ROM image,
    relocations with the pairing of their halves, functions and data symbols.
  \<^item> \<open>Symbol_Files\<close>, \<open>Symbol_Soundness\<close>, \<open>Symbol_Ranges\<close>: \<open>config.cpp\<close>, from the values of a symbol file, which a library reads, to the
    context: functions and relocations, the three passes that correct functions from the bytes of the ROM, and the symbols of another
    program. The functions keep the bytes of the ROM and the indices stay exact; imported symbols are found.
  \<^item> \<open>Edit_Soundness\<close>, \<open>Static_Requests\<close>: what patches and references to events become, and that every request of a section is served.
  \<^item> \<open>Alias_Soundness\<close>: dispatch aliases lead to labels, from the synthesis of fragments to the end of the program.

  \<^bold>\<open>Fuel and bounds.\<close> No definition uses fuel. Machine words keep their width; \<open>size_t\<close> values that count
  elements of vectors are natural numbers.

  \<^bold>\<open>Not modelled.\<close> Command line arguments and the reading of files, the other
  command line tools, the TOML reader and the parsing of ELF tables (third-party parsers), the live recompiler's
  machine-code backends (third-party assemblers) and host floating point. The
  messages printed to the standard streams are left out everywhere.
\<close>

end
